(* ===== verification/Prelude.thy ===== *)
theory Prelude
  imports Main "HOL-Library.Word" "HOL-Library.AList" "HOL-Library.Multiset"
begin

text \<open>
  The prelude of the development: the machine integers and strings of the Rust code, its
  \<open>Result\<close>, the string functions of the standard library that the crates call, and the
  collections of facts the component theories share.

  \<^item> A Rust \<open>String\<close> or \<open>&str\<close> is the list of its UTF-8 bytes, an Isabelle \<open>string\<close>;
    \<open>len()\<close> is then the length of the list, as in Rust.
  \<^item> \<open>Result<T, E>\<close> is the sum \<open>E + T\<close>: \<open>Inl\<close> is \<open>Err\<close>, \<open>Inr\<close> is \<open>Ok\<close>.
  \<^item> A \<open>HashMap\<close> or \<open>DashMap\<close> is an association list with distinct keys. Its order stands for the
    iteration order, which Rust leaves open: the theorems hold for every order of the list.
  \<^item> An \<open>Instant\<close> is a number of nanoseconds; a \<open>Uuid\<close> is its canonical hyphenated string, so
    that \<open>to_string()\<close> is the value itself.
\<close>

section \<open>Types and results\<close>

type_synonym u8 = "8 word"
type_synonym u16 = "16 word"
type_synonym u32 = "32 word"
type_synonym u64 = "64 word"
type_synonym uuid = string
type_synonym instant = nat

abbreviation Err :: "'e \<Rightarrow> 'e + 'a" where "Err \<equiv> Inl"
abbreviation Ok :: "'a \<Rightarrow> 'e + 'a" where "Ok \<equiv> Inr"

named_theorems guard_simps \<open>the equations of early-return guards\<close>
named_theorems hm_simps \<open>lookups after hash-map operations\<close>

definition and_then :: "'e + 'a \<Rightarrow> ('a \<Rightarrow> 'e + 'b) \<Rightarrow> 'e + 'b" where
  "and_then r f = (case r of Inl e \<Rightarrow> Inl e | Inr a \<Rightarrow> f a)"

lemma and_then_simps [simp, guard_simps]:
  "and_then (Inl e) f = Inl e"
  "and_then (Inr a) f = f a"
  by (simp_all add: and_then_def)

lemma and_then_eq_Ok [guard_simps]:
  "and_then r f = Inr b \<longleftrightarrow> (\<exists>a. r = Inr a \<and> f a = Inr b)"
  by (cases r) simp_all

definition is_ok :: "'e + 'a \<Rightarrow> bool" where
  "is_ok r = (case r of Inl _ \<Rightarrow> False | Inr _ \<Rightarrow> True)"

lemma is_ok_simps [simp]: "\<not> is_ok (Inl e)" "is_ok (Inr a)"
  by (simp_all add: is_ok_def)

lemma is_ok_iff: "is_ok r \<longleftrightarrow> (\<exists>a. r = Inr a)"
  by (cases r) simp_all

text \<open>
  The operator \<open>?\<close> in a method that mutates its receiver: an error returns at once, with the
  state reached so far.
\<close>

definition try_op :: "'e + 'a \<Rightarrow> 's \<Rightarrow> ('a \<Rightarrow> ('e + 'b) \<times> 's) \<Rightarrow> ('e + 'b) \<times> 's" where
  "try_op r s k = (case r of Inl e \<Rightarrow> (Inl e, s) | Inr a \<Rightarrow> k a)"

lemma try_op_simps [simp, guard_simps]:
  "try_op (Inl e) s k = (Inl e, s)"
  "try_op (Inr a) s k = k a"
  by (simp_all add: try_op_def)

lemma try_op_eq_Ok [guard_simps]:
  "try_op r s k = (Inr b, s') \<longleftrightarrow> (\<exists>a. r = Inr a \<and> k a = (Inr b, s'))"
  by (cases r) simp_all

lemma try_op_cases:
  "(\<And>e. r = Inl e \<Longrightarrow> P (Inl e, s)) \<Longrightarrow> (\<And>a. r = Inr a \<Longrightarrow> P (k a)) \<Longrightarrow> P (try_op r s k)"
  by (cases r) simp_all

definition ok_or :: "'a option \<Rightarrow> 'e \<Rightarrow> 'e + 'a" where
  "ok_or x e = (case x of None \<Rightarrow> Inl e | Some a \<Rightarrow> Inr a)"

lemma ok_or_simps [simp]: "ok_or None e = Inl e" "ok_or (Some a) e = Inr a"
  by (simp_all add: ok_or_def)

lemma ok_or_eq [simp]:
  "ok_or x e = Inl e' \<longleftrightarrow> x = None \<and> e' = e"
  "ok_or x e = Inr a \<longleftrightarrow> x = Some a"
  by (cases x; auto)+

definition map_err :: "('e \<Rightarrow> 'f) \<Rightarrow> 'e + 'a \<Rightarrow> 'f + 'a" where
  "map_err f r = (case r of Inl e \<Rightarrow> Inl (f e) | Inr a \<Rightarrow> Inr a)"

lemma map_err_simps [simp]: "map_err f (Inl e) = Inl (f e)" "map_err f (Inr a) = Inr a"
  by (simp_all add: map_err_def)

lemma map_err_eq:
  "map_err f r = Inr a \<longleftrightarrow> r = Inr a"
  "map_err f r = Inl e \<longleftrightarrow> (\<exists>d. r = Inl d \<and> e = f d)"
  by (cases r; auto)+

definition guard_that :: "bool \<Rightarrow> 'e \<Rightarrow> 'e + unit" where
  "guard_that b e = (if b then Inr () else Inl e)"

lemma guard_that_simps [simp]: "guard_that True e = Inr ()" "guard_that False e = Inl e"
  by (simp_all add: guard_that_def)

lemma guard_that_eq_Ok [simp]: "guard_that b e = Inr u \<longleftrightarrow> b"
  by (simp add: guard_that_def)

section \<open>Strings\<close>

text \<open>The decimal form of a number, and \<open>str::parse\<close> to an unsigned integer of \<open>w\<close> bits.\<close>

fun show_nat :: "nat \<Rightarrow> string" where
  "show_nat n =
     (if n < 10 then [char_of (48 + n)] else show_nat (n div 10) @ [char_of (48 + n mod 10)])"

declare show_nat.simps [simp del]

definition is_digit :: "char \<Rightarrow> bool" where
  "is_digit c \<longleftrightarrow> 48 \<le> (of_char c :: nat) \<and> (of_char c :: nat) \<le> 57"

definition starts_with_char :: "char \<Rightarrow> string \<Rightarrow> bool" where
  "starts_with_char c s \<longleftrightarrow> s \<noteq> [] \<and> hd s = c"

definition parse_uint :: "nat \<Rightarrow> string \<Rightarrow> nat option" where
  "parse_uint w s =
     (let ds = (if starts_with_char CHR ''+'' s then tl s else s);
          n = foldl (\<lambda>acc c. 10 * acc + (of_char c - 48)) 0 ds
      in if ds \<noteq> [] \<and> list_all is_digit ds \<and> n < 2 ^ w then Some n else None)"

text \<open>\<open>str::split(char)\<close>: always at least one part, and \<open>n\<close> separators give \<open>n + 1\<close> parts.\<close>

fun split_on :: "'a \<Rightarrow> 'a list \<Rightarrow> 'a list list" where
  "split_on c [] = [[]]"
| "split_on c (x # xs) =
     (if x = c then [] # split_on c xs
      else (case split_on c xs of [] \<Rightarrow> [[x]] | y # ys \<Rightarrow> (x # y) # ys))"

fun join_with :: "'a \<Rightarrow> 'a list list \<Rightarrow> 'a list" where
  "join_with c [] = []"
| "join_with c [p] = p"
| "join_with c (p # q # ps) = p @ c # join_with c (q # ps)"

definition starts_with :: "'a list \<Rightarrow> 'a list \<Rightarrow> bool" where
  "starts_with s p \<longleftrightarrow> take (length p) s = p"

definition strip_prefix :: "'a list \<Rightarrow> 'a list \<Rightarrow> 'a list option" where
  "strip_prefix s p = (if starts_with s p then Some (drop (length p) s) else None)"

definition strip_suffix :: "'a list \<Rightarrow> 'a list \<Rightarrow> 'a list option" where
  "strip_suffix s p = map_option rev (strip_prefix (rev s) (rev p))"

text \<open>\<open>str::split_once(char)\<close>: at the first occurrence.\<close>

fun split_once :: "'a \<Rightarrow> 'a list \<Rightarrow> ('a list \<times> 'a list) option" where
  "split_once c [] = None"
| "split_once c (x # xs) =
     (if x = c then Some ([], xs) else map_option (\<lambda>(l, r). (x # l, r)) (split_once c xs))"

lemma split_on_not_Nil [simp]: "split_on c s \<noteq> []"
  by (induction s) (auto split: list.splits)

lemma join_split [simp]: "join_with c (split_on c s) = s"
proof (induction s)
  case Nil
  show ?case by simp
next
  case (Cons x s)
  obtain y ys where "split_on c s = y # ys"
    by (cases "split_on c s") auto
  with Cons show ?case by (cases ys) auto
qed

lemma split_on_parts: "p \<in> set (split_on c s) \<Longrightarrow> c \<notin> set p"
  by (induction s arbitrary: p) (auto split: list.splits if_splits)

lemma split_on_no_sep: "c \<notin> set p \<Longrightarrow> split_on c p = [p]"
  by (induction p) auto

lemma split_on_append: "c \<notin> set p \<Longrightarrow> split_on c (p @ c # s) = p # split_on c s"
  by (induction p) auto

lemma split_join:
  "ps \<noteq> [] \<Longrightarrow> \<forall>p\<in>set ps. c \<notin> set p \<Longrightarrow> split_on c (join_with c ps) = ps"
  by (induction c ps rule: join_with.induct) (auto simp: split_on_no_sep split_on_append)

lemma starts_with_append [simp]: "starts_with (p @ s) p"
  by (simp add: starts_with_def)

lemma strip_prefix_append [simp]: "strip_prefix (p @ s) p = Some s"
  by (simp add: strip_prefix_def)

lemma strip_prefix_eq_Some: "strip_prefix s p = Some r \<longleftrightarrow> s = p @ r"
  by (auto simp: strip_prefix_def starts_with_def) (metis append_take_drop_id)

lemma strip_suffix_eq_Some: "strip_suffix s p = Some r \<longleftrightarrow> s = r @ p"
proof
  assume "strip_suffix s p = Some r"
  then have "rev s = rev p @ rev r"
    by (auto simp: strip_suffix_def strip_prefix_eq_Some)
  then show "s = r @ p"
    by (metis rev_append rev_rev_ident)
next
  assume "s = r @ p"
  then show "strip_suffix s p = Some r"
    by (simp add: strip_suffix_def)
qed

lemma split_once_append: "c \<notin> set l \<Longrightarrow> split_once c (l @ c # r) = Some (l, r)"
  by (induction l) auto

lemma split_once_None: "split_once c s = None \<longleftrightarrow> c \<notin> set s"
  by (induction s) auto

section \<open>Hash maps as association lists\<close>

text \<open>\<open>map_of\<close> is \<open>get\<close>, \<open>AList.update\<close> is \<open>insert\<close>, \<open>AList.delete\<close> is \<open>remove\<close>.\<close>

definition get_or :: "'v \<Rightarrow> ('k \<times> 'v) list \<Rightarrow> 'k \<Rightarrow> 'v" where
  "get_or d m k = (case map_of m k of None \<Rightarrow> d | Some v \<Rightarrow> v)"

abbreviation keys_distinct :: "('k \<times> 'v) list \<Rightarrow> bool" where
  "keys_distinct m \<equiv> distinct (map fst m)"

lemma get_or_update [simp, hm_simps]:
  "get_or d (AList.update k v m) k' = (if k' = k then v else get_or d m k')"
  by (simp add: get_or_def update_conv)

lemma map_of_AList_update [simp, hm_simps]:
  "map_of (AList.update k v m) k' = (if k' = k then Some v else map_of m k')"
  by (simp add: update_conv)

lemma map_of_AList_delete [simp, hm_simps]:
  "map_of (AList.delete k m) k' = (if k' = k then None else map_of m k')"
  by (simp add: delete_conv')

lemma get_or_delete [simp, hm_simps]:
  "get_or d (AList.delete k m) k' = (if k' = k then d else get_or d m k')"
  by (simp add: get_or_def)

lemma keys_distinct_update [simp]: "keys_distinct m \<Longrightarrow> keys_distinct (AList.update k v m)"
  by (rule distinct_update)

lemma keys_distinct_delete [simp]: "keys_distinct m \<Longrightarrow> keys_distinct (AList.delete k m)"
  by (rule distinct_delete)

definition has_key :: "('k \<times> 'v) list \<Rightarrow> 'k \<Rightarrow> bool" where
  "has_key m k \<longleftrightarrow> map_of m k \<noteq> None"

lemma has_key_simps [simp, hm_simps]:
  "\<not> has_key [] k'"
  "has_key (AList.update k v m) k' \<longleftrightarrow> k' = k \<or> has_key m k'"
  "has_key (AList.delete k m) k' \<longleftrightarrow> k' \<noteq> k \<and> has_key m k'"
  by (simp_all add: has_key_def)

lemma map_of_None_iff: "map_of m k = None \<longleftrightarrow> k \<notin> fst ` set m"
  by (simp add: map_of_eq_None_iff)

end
