(* ===== verification/SubIndex.thy ===== *)
theory SubIndex
  imports Prelude
begin

text \<open>
  The posting lists behind the subscription registry: a concurrent map from a key to a vector
  of subscriptions, with the two operations the registry uses on each of its five indexes,
  \<open>entry(key).or_default().push(v)\<close> and \<open>get_mut(key)\<close> with \<open>retain\<close> and the removal of an entry
  that became empty. The locale states what the registry relies on; its interpretation at the
  end of the theory gives the facts for the association lists of the model.
\<close>

type_synonym ('k, 'v) postings = "('k \<times> 'v list) list"

definition posting_get :: "('k, 'v) postings \<Rightarrow> 'k \<Rightarrow> 'v list" where
  "posting_get m k = get_or [] m k"

definition posting_push :: "'v \<Rightarrow> 'k \<Rightarrow> ('k, 'v) postings \<Rightarrow> ('k, 'v) postings" where
  "posting_push v k m = AList.update k (posting_get m k @ [v]) m"

definition posting_retain :: "'v \<Rightarrow> 'k \<Rightarrow> ('k, 'v) postings \<Rightarrow> ('k, 'v) postings" where
  "posting_retain v k m =
     (case map_of m k of
        None \<Rightarrow> m
      | Some entries \<Rightarrow>
          (let kept = filter (\<lambda>x. x \<noteq> v) entries
           in if kept = [] then AList.delete k m else AList.update k kept m))"

text \<open>No key twice, and no key with an empty vector.\<close>

definition posting_inv :: "('k, 'v) postings \<Rightarrow> bool" where
  "posting_inv m \<longleftrightarrow> keys_distinct m \<and> (\<forall>k. map_of m k \<noteq> Some [])"

locale posting_index =
  fixes get :: "'m \<Rightarrow> 'k \<Rightarrow> 'v list"
    and push :: "'v \<Rightarrow> 'k \<Rightarrow> 'm \<Rightarrow> 'm"
    and retain :: "'v \<Rightarrow> 'k \<Rightarrow> 'm \<Rightarrow> 'm"
    and inv :: "'m \<Rightarrow> bool"
  assumes get_push: "get (push v k m) k' = (if k' = k then get m k @ [v] else get m k')"
    and get_retain:
      "get (retain v k m) k' = (if k' = k then filter (\<lambda>x. x \<noteq> v) (get m k) else get m k')"
    and inv_push: "inv m \<Longrightarrow> inv (push v k m)"
    and inv_retain: "inv m \<Longrightarrow> inv (retain v k m)"
begin

lemma get_push_all:
  "distinct ks \<Longrightarrow> get (fold (push v) ks m) k = (if k \<in> set ks then get m k @ [v] else get m k)"
  by (induction ks arbitrary: m) (auto simp: get_push)

lemma get_retain_all:
  "get (fold (retain v) ks m) k =
     (if k \<in> set ks then filter (\<lambda>x. x \<noteq> v) (get m k) else get m k)"
  by (induction ks arbitrary: m) (auto simp: get_retain)

lemma inv_push_all: "inv m \<Longrightarrow> inv (fold (push v) ks m)"
  by (induction ks arbitrary: m) (auto simp: inv_push)

lemma inv_retain_all: "inv m \<Longrightarrow> inv (fold (retain v) ks m)"
  by (induction ks arbitrary: m) (auto simp: inv_retain)

text \<open>Removing a value from the keys it was pushed under restores every vector.\<close>

lemma retain_push_all:
  "distinct ks \<Longrightarrow> \<forall>k. v \<notin> set (get m k) \<Longrightarrow>
     get (fold (retain v) ks (fold (push v) ks m)) k = get m k"
  by (auto simp: get_retain_all get_push_all filter_id_conv)

end

lemma posting_get_push:
  "posting_get (posting_push v k m) k' =
     (if k' = k then posting_get m k @ [v] else posting_get m k')"
  by (simp add: posting_push_def posting_get_def)

lemma posting_get_retain:
  "posting_get (posting_retain v k m) k' =
     (if k' = k then filter (\<lambda>x. x \<noteq> v) (posting_get m k) else posting_get m k')"
  by (auto simp: posting_retain_def posting_get_def get_or_def Let_def split: option.splits)

lemma posting_inv_push: "posting_inv m \<Longrightarrow> posting_inv (posting_push v k m)"
  by (simp add: posting_inv_def posting_push_def)

lemma posting_inv_retain: "posting_inv m \<Longrightarrow> posting_inv (posting_retain v k m)"
proof (cases "map_of m k")
  case None
  then show "posting_inv m \<Longrightarrow> ?thesis" by (simp add: posting_retain_def)
next
  case (Some entries)
  then show "posting_inv m \<Longrightarrow> ?thesis"
    by (simp add: posting_inv_def posting_retain_def Let_def del: map_of_eq_Some_iff)
qed

interpretation postings: posting_index posting_get posting_push posting_retain posting_inv
  by unfold_locales
    (simp_all add: posting_get_push posting_get_retain posting_inv_push posting_inv_retain)

lemma posting_inv_Nil [simp]: "posting_inv []"
  by (simp add: posting_inv_def)

lemma posting_get_Nil [simp]: "posting_get [] k = []"
  by (simp add: posting_get_def get_or_def)

end
