(* ===== verification/Nostr.thy ===== *)
theory Nostr
  imports Prelude
begin

text \<open>
  The Nostr data the crates work on. The \<open>nostr\<close> crate is not part of the repository, so its
  types are kept as the values the source reads through their accessors: a tag by
  \<open>kind().to_string()\<close>, \<open>content()\<close> and \<open>as_slice()\<close>, an event by its fields (an id and a public
  key by their lower-case hex form), a filter by its public fields. An ordered set of the
  crate is the list of its elements. \<open>stored_event\<close> is \<open>StoredEvent\<close> of
  \<open>crates/buzz-core/src/event.rs\<close>, \<open>CommunityId\<close> and \<open>TenantContext\<close> come from
  \<open>crates/buzz-core/src/tenant.rs\<close>.
\<close>

record nostr_tag =
  tag_kind :: string
  tag_content :: "string option"
  tag_slice :: "string list"

type_synonym event_id = string
type_synonym pubkey = string

record nostr_event =
  ev_id :: event_id
  ev_pubkey :: pubkey
  ev_created_at :: nat
  ev_kind :: u16
  ev_tags :: "nostr_tag list"
  ev_content :: string

record nostr_filter =
  f_ids :: "event_id list option"
  f_authors :: "pubkey list option"
  f_kinds :: "u16 list option"
  f_since :: "nat option"
  f_until :: "nat option"
  f_generic_tags :: "(string \<times> string list) list"

definition empty_filter :: nostr_filter where
  "empty_filter = \<lparr>f_ids = None, f_authors = None, f_kinds = None, f_since = None,
     f_until = None, f_generic_tags = []\<rparr>"

section \<open>Stored events\<close>

record stored_event =
  se_event :: nostr_event
  se_received_at :: instant
  se_channel_id :: "uuid option"
  se_verified :: bool

definition StoredEvent_new :: "instant \<Rightarrow> nostr_event \<Rightarrow> uuid option \<Rightarrow> stored_event" where
  "StoredEvent_new now ev ch =
     \<lparr>se_event = ev, se_received_at = now, se_channel_id = ch, se_verified = False\<rparr>"

definition is_verified :: "stored_event \<Rightarrow> bool" where
  "is_verified s = se_verified s"

definition with_received_at ::
  "nostr_event \<Rightarrow> instant \<Rightarrow> uuid option \<Rightarrow> bool \<Rightarrow> stored_event" where
  "with_received_at ev at ch v =
     \<lparr>se_event = ev, se_received_at = at, se_channel_id = ch, se_verified = v\<rparr>"

section \<open>Communities\<close>

datatype CommunityId = CommunityId (community_uuid: uuid)

record TenantContext =
  tc_community :: CommunityId
  tc_host :: string

definition TenantContext_resolved :: "CommunityId \<Rightarrow> string \<Rightarrow> TenantContext" where
  "TenantContext_resolved c h = \<lparr>tc_community = c, tc_host = h\<rparr>"

end
