(* ===== verification/Kinds.thy ===== *)
theory Kinds
  imports Nostr
begin

text \<open>
  The kind registry, \<open>crates/buzz-core/src/kind.rs\<close>: every kind constant under its own name, the
  access-class lists, the class predicates and the shared-tag read gate. The lemmas show that
  the registry has no duplicates, that the storage classes do not overlap, and that the read
  gate withholds a shared-gated event from a foreign reader unless it carries exactly one
  \<open>["shared", "true"]\<close> tag.
\<close>

section \<open>The constants\<close>

definition KIND_PROFILE :: u32 where
  "KIND_PROFILE = 0"

definition KIND_TEXT_NOTE :: u32 where
  "KIND_TEXT_NOTE = 1"

definition KIND_CONTACT_LIST :: u32 where
  "KIND_CONTACT_LIST = 3"

definition KIND_MUTE_LIST :: u32 where
  "KIND_MUTE_LIST = 10000"

definition KIND_PIN_LIST :: u32 where
  "KIND_PIN_LIST = 10001"

definition KIND_NIP65_RELAY_LIST_METADATA :: u32 where
  "KIND_NIP65_RELAY_LIST_METADATA = 10002"

definition KIND_BOOKMARK_LIST :: u32 where
  "KIND_BOOKMARK_LIST = 10003"

definition KIND_EMOJI_LIST :: u32 where
  "KIND_EMOJI_LIST = 10030"

definition KIND_FOLLOW_SET :: u32 where
  "KIND_FOLLOW_SET = 30000"

definition KIND_BOOKMARK_SET :: u32 where
  "KIND_BOOKMARK_SET = 30003"

definition KIND_EMOJI_SET :: u32 where
  "KIND_EMOJI_SET = 30030"

definition KIND_CHANNEL_METADATA :: u32 where
  "KIND_CHANNEL_METADATA = 41"

definition KIND_DELETION :: u32 where
  "KIND_DELETION = 5"

definition KIND_REACTION :: u32 where
  "KIND_REACTION = 7"

definition KIND_GIFT_WRAP :: u32 where
  "KIND_GIFT_WRAP = 1059"

definition KIND_FILE_METADATA :: u32 where
  "KIND_FILE_METADATA = 1063"

definition KIND_LONG_FORM :: u32 where
  "KIND_LONG_FORM = 30023"

definition KIND_USER_STATUS :: u32 where
  "KIND_USER_STATUS = 30315"

definition KIND_READ_STATE :: u32 where
  "KIND_READ_STATE = 30078"

definition KIND_AUTH :: u32 where
  "KIND_AUTH = 22242"

definition KIND_BLOSSOM_AUTH :: u32 where
  "KIND_BLOSSOM_AUTH = 24242"

definition KIND_NOSTR_IDENTITY_BINDING :: u32 where
  "KIND_NOSTR_IDENTITY_BINDING = 24243"

definition KIND_HTTP_AUTH :: u32 where
  "KIND_HTTP_AUTH = 27235"

definition KIND_AGENT_PROFILE :: u32 where
  "KIND_AGENT_PROFILE = 10100"

definition KIND_AGENT_ENGRAM :: u32 where
  "KIND_AGENT_ENGRAM = 30174"

definition KIND_EVENT_REMINDER :: u32 where
  "KIND_EVENT_REMINDER = 30300"

definition KIND_PUSH_LEASE :: u32 where
  "KIND_PUSH_LEASE = 30350"

definition KIND_PERSONA :: u32 where
  "KIND_PERSONA = 30175"

definition KIND_TEAM :: u32 where
  "KIND_TEAM = 30176"

definition KIND_MANAGED_AGENT :: u32 where
  "KIND_MANAGED_AGENT = 30177"

definition KIND_TEAM_CATALOG :: u32 where
  "KIND_TEAM_CATALOG = 30178"

definition KIND_REPORT :: u32 where
  "KIND_REPORT = 1984"

definition KIND_PRODUCT_FEEDBACK :: u32 where
  "KIND_PRODUCT_FEEDBACK = 42000"

definition KIND_NIP29_PUT_USER :: u32 where
  "KIND_NIP29_PUT_USER = 9000"

definition KIND_NIP29_REMOVE_USER :: u32 where
  "KIND_NIP29_REMOVE_USER = 9001"

definition KIND_NIP29_EDIT_METADATA :: u32 where
  "KIND_NIP29_EDIT_METADATA = 9002"

definition KIND_NIP29_DELETE_EVENT :: u32 where
  "KIND_NIP29_DELETE_EVENT = 9005"

definition KIND_NIP29_CREATE_GROUP :: u32 where
  "KIND_NIP29_CREATE_GROUP = 9007"

definition KIND_NIP29_DELETE_GROUP :: u32 where
  "KIND_NIP29_DELETE_GROUP = 9008"

definition KIND_NIP29_CREATE_INVITE :: u32 where
  "KIND_NIP29_CREATE_INVITE = 9009"

definition KIND_NIP29_JOIN_REQUEST :: u32 where
  "KIND_NIP29_JOIN_REQUEST = 9021"

definition KIND_NIP29_LEAVE_REQUEST :: u32 where
  "KIND_NIP29_LEAVE_REQUEST = 9022"

definition KIND_MODERATION_BAN :: u32 where
  "KIND_MODERATION_BAN = 9040"

definition KIND_MODERATION_UNBAN :: u32 where
  "KIND_MODERATION_UNBAN = 9041"

definition KIND_MODERATION_TIMEOUT :: u32 where
  "KIND_MODERATION_TIMEOUT = 9042"

definition KIND_MODERATION_UNTIMEOUT :: u32 where
  "KIND_MODERATION_UNTIMEOUT = 9043"

definition KIND_MODERATION_RESOLVE_REPORT :: u32 where
  "KIND_MODERATION_RESOLVE_REPORT = 9044"

definition RELAY_ADMIN_ADD_MEMBER :: u32 where
  "RELAY_ADMIN_ADD_MEMBER = 9030"

definition RELAY_ADMIN_REMOVE_MEMBER :: u32 where
  "RELAY_ADMIN_REMOVE_MEMBER = 9031"

definition RELAY_ADMIN_CHANGE_ROLE :: u32 where
  "RELAY_ADMIN_CHANGE_ROLE = 9032"

definition RELAY_ADMIN_SET_WORKSPACE_PROFILE :: u32 where
  "RELAY_ADMIN_SET_WORKSPACE_PROFILE = 9033"

definition KIND_NIP43_MEMBERSHIP_LIST :: u32 where
  "KIND_NIP43_MEMBERSHIP_LIST = 13534"

definition KIND_NIP43_MEMBER_ADDED :: u32 where
  "KIND_NIP43_MEMBER_ADDED = 8000"

definition KIND_NIP43_MEMBER_REMOVED :: u32 where
  "KIND_NIP43_MEMBER_REMOVED = 8001"

definition KIND_NIP43_LEAVE_REQUEST :: u32 where
  "KIND_NIP43_LEAVE_REQUEST = 28936"

definition KIND_IA_ARCHIVE_REQUEST :: u32 where
  "KIND_IA_ARCHIVE_REQUEST = 9035"

definition KIND_IA_UNARCHIVE_REQUEST :: u32 where
  "KIND_IA_UNARCHIVE_REQUEST = 9036"

definition KIND_IA_ARCHIVED :: u32 where
  "KIND_IA_ARCHIVED = 8002"

definition KIND_IA_UNARCHIVED :: u32 where
  "KIND_IA_UNARCHIVED = 8003"

definition KIND_IA_ARCHIVED_LIST :: u32 where
  "KIND_IA_ARCHIVED_LIST = 13535"

definition KIND_NIP29_GROUP_METADATA :: u32 where
  "KIND_NIP29_GROUP_METADATA = 39000"

definition KIND_NIP29_GROUP_ADMINS :: u32 where
  "KIND_NIP29_GROUP_ADMINS = 39001"

definition KIND_NIP29_GROUP_MEMBERS :: u32 where
  "KIND_NIP29_GROUP_MEMBERS = 39002"

definition KIND_NIP29_GROUP_ROLES :: u32 where
  "KIND_NIP29_GROUP_ROLES = 39003"

definition KIND_THREAD_SUMMARY :: u32 where
  "KIND_THREAD_SUMMARY = 39005"

definition KIND_WINDOW_BOUNDS :: u32 where
  "KIND_WINDOW_BOUNDS = 39006"

definition KIND_WORKFLOW_DEF :: u32 where
  "KIND_WORKFLOW_DEF = 30620"

definition KIND_DM_VISIBILITY :: u32 where
  "KIND_DM_VISIBILITY = 30622"

definition PARAM_REPLACEABLE_KIND_MIN :: u32 where
  "PARAM_REPLACEABLE_KIND_MIN = 30000"

definition PARAM_REPLACEABLE_KIND_MAX :: u32 where
  "PARAM_REPLACEABLE_KIND_MAX = 39999"

definition EPHEMERAL_KIND_MIN :: u32 where
  "EPHEMERAL_KIND_MIN = 20000"

definition EPHEMERAL_KIND_MAX :: u32 where
  "EPHEMERAL_KIND_MAX = 29999"

definition KIND_PRESENCE_UPDATE :: u32 where
  "KIND_PRESENCE_UPDATE = 20001"

definition KIND_PAIRING :: u32 where
  "KIND_PAIRING = 24134"

definition KIND_TYPING_INDICATOR :: u32 where
  "KIND_TYPING_INDICATOR = 20002"

definition KIND_AGENT_OBSERVER_FRAME :: u32 where
  "KIND_AGENT_OBSERVER_FRAME = 24200"

definition KIND_HUDDLE_REACTION :: u32 where
  "KIND_HUDDLE_REACTION = 24810"

definition KIND_STREAM_MESSAGE :: u32 where
  "KIND_STREAM_MESSAGE = 9"

definition KIND_STREAM_MESSAGE_V2 :: u32 where
  "KIND_STREAM_MESSAGE_V2 = 40002"

definition KIND_STREAM_MESSAGE_EDIT :: u32 where
  "KIND_STREAM_MESSAGE_EDIT = 40003"

definition KIND_STREAM_MESSAGE_PINNED :: u32 where
  "KIND_STREAM_MESSAGE_PINNED = 40004"

definition KIND_STREAM_MESSAGE_BOOKMARKED :: u32 where
  "KIND_STREAM_MESSAGE_BOOKMARKED = 40005"

definition KIND_STREAM_MESSAGE_SCHEDULED :: u32 where
  "KIND_STREAM_MESSAGE_SCHEDULED = 40006"

definition KIND_STREAM_REMINDER :: u32 where
  "KIND_STREAM_REMINDER = 40007"

definition KIND_STREAM_MESSAGE_DIFF :: u32 where
  "KIND_STREAM_MESSAGE_DIFF = 40008"

definition KIND_CANVAS :: u32 where
  "KIND_CANVAS = 40100"

definition KIND_SYSTEM_MESSAGE :: u32 where
  "KIND_SYSTEM_MESSAGE = 40099"

definition KIND_CHANNEL_SUMMARY :: u32 where
  "KIND_CHANNEL_SUMMARY = 40901"

definition KIND_PRESENCE_SNAPSHOT :: u32 where
  "KIND_PRESENCE_SNAPSHOT = 40902"

definition KIND_DM_OPEN :: u32 where
  "KIND_DM_OPEN = 41010"

definition KIND_DM_ADD_MEMBER :: u32 where
  "KIND_DM_ADD_MEMBER = 41011"

definition KIND_DM_HIDE :: u32 where
  "KIND_DM_HIDE = 41012"

definition KIND_DM_CREATED :: u32 where
  "KIND_DM_CREATED = 41001"

definition KIND_JOB_REQUEST :: u32 where
  "KIND_JOB_REQUEST = 43001"

definition KIND_JOB_ACCEPTED :: u32 where
  "KIND_JOB_ACCEPTED = 43002"

definition KIND_JOB_PROGRESS :: u32 where
  "KIND_JOB_PROGRESS = 43003"

definition KIND_JOB_RESULT :: u32 where
  "KIND_JOB_RESULT = 43004"

definition KIND_JOB_CANCEL :: u32 where
  "KIND_JOB_CANCEL = 43005"

definition KIND_JOB_ERROR :: u32 where
  "KIND_JOB_ERROR = 43006"

definition KIND_MEMBER_ADDED_NOTIFICATION :: u32 where
  "KIND_MEMBER_ADDED_NOTIFICATION = 44100"

definition KIND_MEMBER_REMOVED_NOTIFICATION :: u32 where
  "KIND_MEMBER_REMOVED_NOTIFICATION = 44101"

definition KIND_AGENT_TURN_METRIC :: u32 where
  "KIND_AGENT_TURN_METRIC = 44200"

definition KIND_FORUM_POST :: u32 where
  "KIND_FORUM_POST = 45001"

definition KIND_FORUM_VOTE :: u32 where
  "KIND_FORUM_VOTE = 45002"

definition KIND_FORUM_COMMENT :: u32 where
  "KIND_FORUM_COMMENT = 45003"

definition KIND_WORKFLOW_TRIGGER :: u32 where
  "KIND_WORKFLOW_TRIGGER = 46020"

definition KIND_APPROVAL_GRANT :: u32 where
  "KIND_APPROVAL_GRANT = 46030"

definition KIND_APPROVAL_DENY :: u32 where
  "KIND_APPROVAL_DENY = 46031"

definition KIND_WORKFLOW_TRIGGERED :: u32 where
  "KIND_WORKFLOW_TRIGGERED = 46001"

definition KIND_WORKFLOW_STEP_STARTED :: u32 where
  "KIND_WORKFLOW_STEP_STARTED = 46002"

definition KIND_WORKFLOW_STEP_COMPLETED :: u32 where
  "KIND_WORKFLOW_STEP_COMPLETED = 46003"

definition KIND_WORKFLOW_STEP_FAILED :: u32 where
  "KIND_WORKFLOW_STEP_FAILED = 46004"

definition KIND_WORKFLOW_COMPLETED :: u32 where
  "KIND_WORKFLOW_COMPLETED = 46005"

definition KIND_WORKFLOW_FAILED :: u32 where
  "KIND_WORKFLOW_FAILED = 46006"

definition KIND_WORKFLOW_CANCELLED :: u32 where
  "KIND_WORKFLOW_CANCELLED = 46007"

definition KIND_WORKFLOW_APPROVAL_REQUESTED :: u32 where
  "KIND_WORKFLOW_APPROVAL_REQUESTED = 46010"

definition KIND_WORKFLOW_APPROVAL_GRANTED :: u32 where
  "KIND_WORKFLOW_APPROVAL_GRANTED = 46011"

definition KIND_WORKFLOW_APPROVAL_DENIED :: u32 where
  "KIND_WORKFLOW_APPROVAL_DENIED = 46012"

definition KIND_AUDIT_ENTRY :: u32 where
  "KIND_AUDIT_ENTRY = 48001"

definition KIND_HUDDLE_STARTED :: u32 where
  "KIND_HUDDLE_STARTED = 48100"

definition KIND_HUDDLE_PARTICIPANT_JOINED :: u32 where
  "KIND_HUDDLE_PARTICIPANT_JOINED = 48101"

definition KIND_HUDDLE_PARTICIPANT_LEFT :: u32 where
  "KIND_HUDDLE_PARTICIPANT_LEFT = 48102"

definition KIND_HUDDLE_ENDED :: u32 where
  "KIND_HUDDLE_ENDED = 48103"

definition KIND_HUDDLE_GUIDELINES :: u32 where
  "KIND_HUDDLE_GUIDELINES = 48106"

definition KIND_MEDIA_UPLOAD :: u32 where
  "KIND_MEDIA_UPLOAD = 49001"

definition KIND_GIT_REPO_ANNOUNCEMENT :: u32 where
  "KIND_GIT_REPO_ANNOUNCEMENT = 30617"

definition KIND_GIT_REPO_STATE :: u32 where
  "KIND_GIT_REPO_STATE = 30618"

definition KIND_GIT_PATCH :: u32 where
  "KIND_GIT_PATCH = 1617"

definition KIND_GIT_PULL_REQUEST :: u32 where
  "KIND_GIT_PULL_REQUEST = 1618"

definition KIND_GIT_PR_UPDATE :: u32 where
  "KIND_GIT_PR_UPDATE = 1619"

definition KIND_GIT_ISSUE :: u32 where
  "KIND_GIT_ISSUE = 1621"

definition KIND_GIT_STATUS_OPEN :: u32 where
  "KIND_GIT_STATUS_OPEN = 1630"

definition KIND_GIT_STATUS_MERGED :: u32 where
  "KIND_GIT_STATUS_MERGED = 1631"

definition KIND_GIT_STATUS_CLOSED :: u32 where
  "KIND_GIT_STATUS_CLOSED = 1632"

definition KIND_GIT_STATUS_DRAFT :: u32 where
  "KIND_GIT_STATUS_DRAFT = 1633"

lemmas kind_values =
  KIND_PROFILE_def KIND_TEXT_NOTE_def KIND_CONTACT_LIST_def KIND_MUTE_LIST_def KIND_PIN_LIST_def
  KIND_NIP65_RELAY_LIST_METADATA_def KIND_BOOKMARK_LIST_def KIND_EMOJI_LIST_def
  KIND_FOLLOW_SET_def KIND_BOOKMARK_SET_def KIND_EMOJI_SET_def KIND_CHANNEL_METADATA_def
  KIND_DELETION_def KIND_REACTION_def KIND_GIFT_WRAP_def KIND_FILE_METADATA_def
  KIND_LONG_FORM_def KIND_USER_STATUS_def KIND_READ_STATE_def KIND_AUTH_def
  KIND_BLOSSOM_AUTH_def KIND_NOSTR_IDENTITY_BINDING_def KIND_HTTP_AUTH_def
  KIND_AGENT_PROFILE_def KIND_AGENT_ENGRAM_def KIND_EVENT_REMINDER_def KIND_PUSH_LEASE_def
  KIND_PERSONA_def KIND_TEAM_def KIND_MANAGED_AGENT_def KIND_TEAM_CATALOG_def KIND_REPORT_def
  KIND_PRODUCT_FEEDBACK_def KIND_NIP29_PUT_USER_def KIND_NIP29_REMOVE_USER_def
  KIND_NIP29_EDIT_METADATA_def KIND_NIP29_DELETE_EVENT_def KIND_NIP29_CREATE_GROUP_def
  KIND_NIP29_DELETE_GROUP_def KIND_NIP29_CREATE_INVITE_def KIND_NIP29_JOIN_REQUEST_def
  KIND_NIP29_LEAVE_REQUEST_def KIND_MODERATION_BAN_def KIND_MODERATION_UNBAN_def
  KIND_MODERATION_TIMEOUT_def KIND_MODERATION_UNTIMEOUT_def KIND_MODERATION_RESOLVE_REPORT_def
  RELAY_ADMIN_ADD_MEMBER_def RELAY_ADMIN_REMOVE_MEMBER_def RELAY_ADMIN_CHANGE_ROLE_def
  RELAY_ADMIN_SET_WORKSPACE_PROFILE_def KIND_NIP43_MEMBERSHIP_LIST_def
  KIND_NIP43_MEMBER_ADDED_def KIND_NIP43_MEMBER_REMOVED_def KIND_NIP43_LEAVE_REQUEST_def
  KIND_IA_ARCHIVE_REQUEST_def KIND_IA_UNARCHIVE_REQUEST_def KIND_IA_ARCHIVED_def
  KIND_IA_UNARCHIVED_def KIND_IA_ARCHIVED_LIST_def KIND_NIP29_GROUP_METADATA_def
  KIND_NIP29_GROUP_ADMINS_def KIND_NIP29_GROUP_MEMBERS_def KIND_NIP29_GROUP_ROLES_def
  KIND_THREAD_SUMMARY_def KIND_WINDOW_BOUNDS_def KIND_WORKFLOW_DEF_def KIND_DM_VISIBILITY_def
  PARAM_REPLACEABLE_KIND_MIN_def PARAM_REPLACEABLE_KIND_MAX_def EPHEMERAL_KIND_MIN_def
  EPHEMERAL_KIND_MAX_def KIND_PRESENCE_UPDATE_def KIND_PAIRING_def KIND_TYPING_INDICATOR_def
  KIND_AGENT_OBSERVER_FRAME_def KIND_HUDDLE_REACTION_def KIND_STREAM_MESSAGE_def
  KIND_STREAM_MESSAGE_V2_def KIND_STREAM_MESSAGE_EDIT_def KIND_STREAM_MESSAGE_PINNED_def
  KIND_STREAM_MESSAGE_BOOKMARKED_def KIND_STREAM_MESSAGE_SCHEDULED_def KIND_STREAM_REMINDER_def
  KIND_STREAM_MESSAGE_DIFF_def KIND_CANVAS_def KIND_SYSTEM_MESSAGE_def KIND_CHANNEL_SUMMARY_def
  KIND_PRESENCE_SNAPSHOT_def KIND_DM_OPEN_def KIND_DM_ADD_MEMBER_def KIND_DM_HIDE_def
  KIND_DM_CREATED_def KIND_JOB_REQUEST_def KIND_JOB_ACCEPTED_def KIND_JOB_PROGRESS_def
  KIND_JOB_RESULT_def KIND_JOB_CANCEL_def KIND_JOB_ERROR_def KIND_MEMBER_ADDED_NOTIFICATION_def
  KIND_MEMBER_REMOVED_NOTIFICATION_def KIND_AGENT_TURN_METRIC_def KIND_FORUM_POST_def
  KIND_FORUM_VOTE_def KIND_FORUM_COMMENT_def KIND_WORKFLOW_TRIGGER_def KIND_APPROVAL_GRANT_def
  KIND_APPROVAL_DENY_def KIND_WORKFLOW_TRIGGERED_def KIND_WORKFLOW_STEP_STARTED_def
  KIND_WORKFLOW_STEP_COMPLETED_def KIND_WORKFLOW_STEP_FAILED_def KIND_WORKFLOW_COMPLETED_def
  KIND_WORKFLOW_FAILED_def KIND_WORKFLOW_CANCELLED_def KIND_WORKFLOW_APPROVAL_REQUESTED_def
  KIND_WORKFLOW_APPROVAL_GRANTED_def KIND_WORKFLOW_APPROVAL_DENIED_def KIND_AUDIT_ENTRY_def
  KIND_HUDDLE_STARTED_def KIND_HUDDLE_PARTICIPANT_JOINED_def KIND_HUDDLE_PARTICIPANT_LEFT_def
  KIND_HUDDLE_ENDED_def KIND_HUDDLE_GUIDELINES_def KIND_MEDIA_UPLOAD_def
  KIND_GIT_REPO_ANNOUNCEMENT_def KIND_GIT_REPO_STATE_def KIND_GIT_PATCH_def
  KIND_GIT_PULL_REQUEST_def KIND_GIT_PR_UPDATE_def KIND_GIT_ISSUE_def KIND_GIT_STATUS_OPEN_def
  KIND_GIT_STATUS_MERGED_def KIND_GIT_STATUS_CLOSED_def KIND_GIT_STATUS_DRAFT_def

section \<open>Access classes\<close>

definition AUTHOR_ONLY_KINDS :: "u32 list" where
  "AUTHOR_ONLY_KINDS = [KIND_EVENT_REMINDER, KIND_PUSH_LEASE]"

definition RESULT_GATED_KINDS :: "u32 list" where
  "RESULT_GATED_KINDS = [KIND_DM_VISIBILITY, KIND_AGENT_TURN_METRIC]"

definition P_GATED_KINDS :: "u32 list" where
  "P_GATED_KINDS =
     [KIND_AGENT_OBSERVER_FRAME, KIND_MEMBER_ADDED_NOTIFICATION,
      KIND_MEMBER_REMOVED_NOTIFICATION, KIND_GIFT_WRAP, KIND_DM_VISIBILITY,
      KIND_AGENT_TURN_METRIC]"

definition SHARED_GATED_KINDS :: "u32 list" where
  "SHARED_GATED_KINDS = [KIND_PERSONA, KIND_TEAM_CATALOG]"

definition ALL_KINDS :: "u32 list" where
  "ALL_KINDS = [
    KIND_PROFILE, KIND_TEXT_NOTE, KIND_CONTACT_LIST, KIND_MUTE_LIST, KIND_PIN_LIST,
    KIND_NIP65_RELAY_LIST_METADATA, KIND_BOOKMARK_LIST, KIND_EMOJI_LIST, KIND_FOLLOW_SET,
    KIND_BOOKMARK_SET, KIND_EMOJI_SET, KIND_CHANNEL_METADATA, KIND_DELETION, KIND_REACTION,
    KIND_GIFT_WRAP, KIND_FILE_METADATA, KIND_AGENT_PROFILE, KIND_AGENT_ENGRAM,
    KIND_EVENT_REMINDER, KIND_PERSONA, KIND_TEAM, KIND_MANAGED_AGENT, KIND_TEAM_CATALOG,
    KIND_REPORT, KIND_PRODUCT_FEEDBACK, KIND_NIP29_PUT_USER, KIND_NIP29_REMOVE_USER,
    KIND_NIP29_EDIT_METADATA, KIND_NIP29_DELETE_EVENT, KIND_NIP29_CREATE_GROUP,
    KIND_NIP29_DELETE_GROUP, KIND_NIP29_CREATE_INVITE, KIND_NIP29_JOIN_REQUEST,
    KIND_NIP29_LEAVE_REQUEST, KIND_MODERATION_BAN, KIND_MODERATION_UNBAN,
    KIND_MODERATION_TIMEOUT, KIND_MODERATION_UNTIMEOUT, KIND_MODERATION_RESOLVE_REPORT,
    RELAY_ADMIN_ADD_MEMBER, RELAY_ADMIN_REMOVE_MEMBER, RELAY_ADMIN_CHANGE_ROLE,
    RELAY_ADMIN_SET_WORKSPACE_PROFILE, KIND_NIP43_MEMBERSHIP_LIST, KIND_NIP43_MEMBER_ADDED,
    KIND_NIP43_MEMBER_REMOVED, KIND_NIP43_LEAVE_REQUEST, KIND_IA_ARCHIVE_REQUEST,
    KIND_IA_UNARCHIVE_REQUEST, KIND_IA_ARCHIVED, KIND_IA_UNARCHIVED, KIND_IA_ARCHIVED_LIST,
    KIND_NIP29_GROUP_METADATA, KIND_NIP29_GROUP_ADMINS, KIND_NIP29_GROUP_MEMBERS,
    KIND_NIP29_GROUP_ROLES, KIND_THREAD_SUMMARY, KIND_WINDOW_BOUNDS, KIND_PRESENCE_UPDATE,
    KIND_TYPING_INDICATOR, KIND_HUDDLE_REACTION, KIND_BLOSSOM_AUTH, KIND_PAIRING,
    KIND_AGENT_OBSERVER_FRAME, KIND_HTTP_AUTH, KIND_STREAM_MESSAGE, KIND_STREAM_MESSAGE_V2,
    KIND_STREAM_MESSAGE_EDIT, KIND_STREAM_MESSAGE_PINNED, KIND_STREAM_MESSAGE_BOOKMARKED,
    KIND_STREAM_MESSAGE_SCHEDULED, KIND_STREAM_REMINDER, KIND_STREAM_MESSAGE_DIFF, KIND_CANVAS,
    KIND_SYSTEM_MESSAGE, KIND_CHANNEL_SUMMARY, KIND_PRESENCE_SNAPSHOT, KIND_DM_VISIBILITY,
    KIND_DM_OPEN, KIND_DM_ADD_MEMBER, KIND_DM_HIDE, KIND_DM_CREATED, KIND_JOB_REQUEST,
    KIND_JOB_ACCEPTED, KIND_JOB_PROGRESS, KIND_JOB_RESULT, KIND_JOB_CANCEL, KIND_JOB_ERROR,
    KIND_MEMBER_ADDED_NOTIFICATION, KIND_MEMBER_REMOVED_NOTIFICATION, KIND_AGENT_TURN_METRIC,
    KIND_WORKFLOW_DEF, KIND_LONG_FORM, KIND_USER_STATUS, KIND_READ_STATE, KIND_FORUM_POST,
    KIND_FORUM_VOTE, KIND_FORUM_COMMENT, KIND_WORKFLOW_TRIGGER, KIND_APPROVAL_GRANT,
    KIND_APPROVAL_DENY, KIND_WORKFLOW_TRIGGERED, KIND_WORKFLOW_STEP_STARTED,
    KIND_WORKFLOW_STEP_COMPLETED, KIND_WORKFLOW_STEP_FAILED, KIND_WORKFLOW_COMPLETED,
    KIND_WORKFLOW_FAILED, KIND_WORKFLOW_CANCELLED, KIND_WORKFLOW_APPROVAL_REQUESTED,
    KIND_WORKFLOW_APPROVAL_GRANTED, KIND_WORKFLOW_APPROVAL_DENIED, KIND_AUDIT_ENTRY,
    KIND_HUDDLE_STARTED, KIND_HUDDLE_PARTICIPANT_JOINED, KIND_HUDDLE_PARTICIPANT_LEFT,
    KIND_HUDDLE_ENDED, KIND_HUDDLE_GUIDELINES, KIND_MEDIA_UPLOAD, KIND_GIT_REPO_ANNOUNCEMENT,
    KIND_GIT_REPO_STATE, KIND_GIT_PATCH, KIND_GIT_PULL_REQUEST, KIND_GIT_PR_UPDATE,
    KIND_GIT_ISSUE, KIND_GIT_STATUS_OPEN, KIND_GIT_STATUS_MERGED, KIND_GIT_STATUS_CLOSED,
    KIND_GIT_STATUS_DRAFT]"

section \<open>Class predicates\<close>

definition is_ephemeral :: "u32 \<Rightarrow> bool" where
  "is_ephemeral k \<longleftrightarrow> EPHEMERAL_KIND_MIN \<le> k \<and> k \<le> EPHEMERAL_KIND_MAX"

definition is_replaceable :: "u32 \<Rightarrow> bool" where
  "is_replaceable k \<longleftrightarrow>
     k = 0 \<or> k = 3 \<or> k = KIND_CHANNEL_METADATA \<or> 10000 \<le> k \<and> k \<le> 19999"

definition is_parameterized_replaceable :: "u32 \<Rightarrow> bool" where
  "is_parameterized_replaceable k \<longleftrightarrow>
     PARAM_REPLACEABLE_KIND_MIN \<le> k \<and> k \<le> PARAM_REPLACEABLE_KIND_MAX"

definition is_workflow_execution_kind :: "u32 \<Rightarrow> bool" where
  "is_workflow_execution_kind k \<longleftrightarrow>
     KIND_WORKFLOW_TRIGGERED \<le> k \<and> k \<le> KIND_WORKFLOW_APPROVAL_DENIED"

definition is_relay_admin_kind :: "u32 \<Rightarrow> bool" where
  "is_relay_admin_kind k \<longleftrightarrow>
     k \<in> {RELAY_ADMIN_ADD_MEMBER, RELAY_ADMIN_REMOVE_MEMBER, RELAY_ADMIN_CHANGE_ROLE,
          RELAY_ADMIN_SET_WORKSPACE_PROFILE}"

definition is_moderation_command_kind :: "u32 \<Rightarrow> bool" where
  "is_moderation_command_kind k \<longleftrightarrow>
     k \<in> {KIND_MODERATION_BAN, KIND_MODERATION_UNBAN, KIND_MODERATION_TIMEOUT,
          KIND_MODERATION_UNTIMEOUT, KIND_MODERATION_RESOLVE_REPORT}"

definition is_identity_archive_request_kind :: "u32 \<Rightarrow> bool" where
  "is_identity_archive_request_kind k \<longleftrightarrow>
     k \<in> {KIND_IA_ARCHIVE_REQUEST, KIND_IA_UNARCHIVE_REQUEST}"

definition is_command_kind :: "u32 \<Rightarrow> bool" where
  "is_command_kind k \<longleftrightarrow>
     k \<in> {KIND_WORKFLOW_DEF, KIND_DM_OPEN, KIND_DM_ADD_MEMBER, KIND_DM_HIDE,
          KIND_WORKFLOW_TRIGGER, KIND_APPROVAL_GRANT, KIND_APPROVAL_DENY}"

definition is_relay_only_kind :: "u32 \<Rightarrow> bool" where
  "is_relay_only_kind k \<longleftrightarrow>
     k \<in> {KIND_NIP43_MEMBERSHIP_LIST, KIND_CHANNEL_SUMMARY, KIND_PRESENCE_SNAPSHOT,
          KIND_DM_VISIBILITY, KIND_THREAD_SUMMARY, KIND_WINDOW_BOUNDS}"

definition is_shared_gated_kind :: "u32 \<Rightarrow> bool" where
  "is_shared_gated_kind k \<longleftrightarrow> k \<in> set SHARED_GATED_KINDS"

lemmas kind_class_defs =
  is_ephemeral_def is_replaceable_def is_parameterized_replaceable_def
  is_workflow_execution_kind_def is_relay_admin_kind_def is_moderation_command_kind_def
  is_identity_archive_request_kind_def is_command_kind_def is_relay_only_kind_def
  is_shared_gated_kind_def SHARED_GATED_KINDS_def

section \<open>Kinds of events and the shared gate\<close>

definition event_kind_u32 :: "nostr_event \<Rightarrow> u32" where
  "event_kind_u32 ev = ucast (ev_kind ev)"

definition event_kind_i32 :: "nostr_event \<Rightarrow> int" where
  "event_kind_i32 ev = sint (ucast (ev_kind ev) :: u32)"

fun event_is_shared_loop :: "nat \<Rightarrow> nostr_tag list \<Rightarrow> bool" where
  "event_is_shared_loop n [] \<longleftrightarrow> n = 1"
| "event_is_shared_loop n (t # ts) \<longleftrightarrow>
     (let parts = tag_slice t in
      if length parts = 2 \<and> parts ! 0 = ''shared'' then
        (if parts ! 1 \<noteq> ''true'' then False else event_is_shared_loop (n + 1) ts)
      else if parts \<noteq> [] \<and> parts ! 0 = ''shared'' then False
      else event_is_shared_loop n ts)"

definition event_is_shared :: "nostr_event \<Rightarrow> bool" where
  "event_is_shared ev = event_is_shared_loop 0 (ev_tags ev)"

definition is_unshared_gated_event :: "nostr_event \<Rightarrow> pubkey \<Rightarrow> bool" where
  "is_unshared_gated_event ev requester =
     (if \<not> is_shared_gated_kind (event_kind_u32 ev) then False
      else if ev_pubkey ev = requester then False
      else \<not> event_is_shared ev)"

section \<open>Properties\<close>

text \<open>An event's kind always fits 16 bits, so the two widenings agree.\<close>

lemma event_kind_bound: "event_kind_u32 ev \<le> 65535"
proof -
  have "uint (ev_kind ev) < 2 ^ 16"
    using uint_lt2p [of "ev_kind ev"] by simp
  then show ?thesis
    by (simp add: event_kind_u32_def word_le_def unsigned_ucast_eq take_bit_eq_mod)
qed

lemma event_kind_i32_eq: "event_kind_i32 ev = int (unat (ev_kind ev))"
proof -
  have "uint (ev_kind ev) < 2 ^ 16"
    using uint_lt2p [of "ev_kind ev"] by simp
  then show ?thesis
    by (simp add: event_kind_i32_def sint_uint unsigned_ucast_eq take_bit_eq_mod
        signed_take_bit_eq_if_positive bit_iff_odd)
qed

text \<open>Comparing the values as integers keeps the check of the whole table fast.\<close>

lemma uint_ALL_KINDS_distinct: "distinct (map uint ALL_KINDS)"
  unfolding ALL_KINDS_def kind_values by simp

text \<open>
  The registry assigns every kind number once, every registered kind fits the 16 bits of
  the wire format, and no kind is in two of the storage classes ephemeral, replaceable and
  parameterized replaceable.
\<close>

theorem kind_registry_sound:
  "distinct ALL_KINDS \<and> list_all (\<lambda>k. k \<le> 65535) ALL_KINDS \<and>
   \<not> (is_ephemeral k \<and> is_replaceable k) \<and>
   \<not> (is_ephemeral k \<and> is_parameterized_replaceable k) \<and>
   \<not> (is_replaceable k \<and> is_parameterized_replaceable k)"
proof -
  have "distinct ALL_KINDS"
    using uint_ALL_KINDS_distinct by (simp add: distinct_map)
  moreover have "list_all (\<lambda>k. k \<le> 65535) ALL_KINDS"
    unfolding ALL_KINDS_def kind_values by simp
  moreover have "\<not> (is_ephemeral k \<and> is_replaceable k)"
    by (auto simp: kind_class_defs kind_values word_le_def)
  moreover have "\<not> (is_ephemeral k \<and> is_parameterized_replaceable k)"
    by (auto simp: kind_class_defs kind_values word_le_def)
  moreover have "\<not> (is_replaceable k \<and> is_parameterized_replaceable k)"
    by (auto simp: kind_class_defs kind_values word_le_def)
  ultimately show ?thesis by blast
qed

text \<open>The tags of an event that claim to be \<open>shared\<close> tags.\<close>

definition shared_claims :: "nostr_tag list \<Rightarrow> string list list" where
  "shared_claims ts = filter (\<lambda>p. p \<noteq> [] \<and> hd p = ''shared'') (map tag_slice ts)"

lemma event_is_shared_loop_iff:
  "event_is_shared_loop n ts \<longleftrightarrow>
     (\<forall>p\<in>set (shared_claims ts). p = [''shared'', ''true'']) \<and>
     n + length (shared_claims ts) = 1"
proof (induction n ts rule: event_is_shared_loop.induct)
  case (1 n)
  show ?case by (simp add: shared_claims_def)
next
  case (2 n t ts)
  consider (none) "tag_slice t = []" | (one) a where "tag_slice t = [a]"
    | (two) a b where "tag_slice t = [a, b]"
    | (more) a b c ps where "tag_slice t = a # b # c # ps"
    by (metis list.exhaust)
  then show ?case
    by cases (use 2 in \<open>auto simp: shared_claims_def Let_def\<close>)
qed

lemma event_is_shared_iff:
  "event_is_shared ev \<longleftrightarrow> shared_claims (ev_tags ev) = [[''shared'', ''true'']]"
  unfolding event_is_shared_def event_is_shared_loop_iff
  by (auto simp: length_Suc_conv)

text \<open>
  The shared gate withholds an event exactly when its kind is shared-gated, the requester
  is not its author, and its \<open>shared\<close> tags are anything else than one \<open>["shared", "true"]\<close>.
\<close>

theorem is_unshared_gated_event_iff:
  "is_unshared_gated_event ev requester \<longleftrightarrow>
     event_kind_u32 ev \<in> {KIND_PERSONA, KIND_TEAM_CATALOG} \<and> ev_pubkey ev \<noteq> requester \<and>
     shared_claims (ev_tags ev) \<noteq> [[''shared'', ''true'']]"
  by (auto simp: is_unshared_gated_event_def event_is_shared_iff is_shared_gated_kind_def
      SHARED_GATED_KINDS_def)

text \<open>
  The table called all registered kinds leaves out the author-only push lease, although
  the registry declares it in the parameterized replaceable range.
\<close>

theorem push_lease_not_in_ALL_KINDS:
  "KIND_PUSH_LEASE \<notin> set ALL_KINDS \<and> KIND_PUSH_LEASE \<in> set AUTHOR_ONLY_KINDS \<and>
   is_parameterized_replaceable KIND_PUSH_LEASE"
proof -
  have "uint KIND_PUSH_LEASE \<notin> set (map uint ALL_KINDS)"
    unfolding ALL_KINDS_def kind_values by simp
  then have "KIND_PUSH_LEASE \<notin> set ALL_KINDS" by auto
  then show ?thesis
    by (simp add: AUTHOR_ONLY_KINDS_def is_parameterized_replaceable_def kind_values)
qed

end
