(* ===== verification/FilterMatch.thy ===== *)
theory FilterMatch
  imports Kinds
begin

text \<open>
  NIP-01 filter matching, \<open>crates/buzz-core/src/filter.rs\<close>, and the result-level read gate for
  events that are private to one reader. The lemmas give the matching its declarative form.
\<close>

section \<open>Matching one filter\<close>

definition tag_values :: "nostr_tag list \<Rightarrow> string \<Rightarrow> string list" where
  "tag_values tags key = List.map_filter tag_content (filter (\<lambda>t. tag_kind t = key) tags)"

text \<open>One iteration of the loop over the generic tags: \<open>False\<close> is its early return.\<close>

definition generic_tag_ok :: "stored_event \<Rightarrow> string \<times> string list \<Rightarrow> bool" where
  "generic_tag_ok ev kv =
     (let tag_key = fst kv; vals = snd kv; tags = ev_tags (se_event ev);
          has_match = list_ex (\<lambda>filter_val. list_ex (\<lambda>event_val. event_val = filter_val)
                                  (tag_values tags tag_key)) vals
      in if \<not> has_match \<and> tag_key = ''h'' then
           (let event_has_h_tags = list_ex (\<lambda>t. tag_kind t = ''h'') tags in
            if \<not> event_has_h_tags then
              (case se_channel_id ev of
                 Some ch_id \<Rightarrow> list_ex (\<lambda>v. v = ch_id) vals
               | None \<Rightarrow> False)
            else False)
         else if \<not> has_match then False
         else True)"

definition filter_match_one :: "nostr_filter \<Rightarrow> stored_event \<Rightarrow> bool" where
  "filter_match_one f ev =
     (let e = se_event ev in
      if (case f_kinds f of Some kinds \<Rightarrow> ev_kind e \<notin> set kinds | None \<Rightarrow> False) then False
      else if (case f_authors f of Some authors \<Rightarrow> ev_pubkey e \<notin> set authors | None \<Rightarrow> False)
        then False
      else if (case f_since f of Some since \<Rightarrow> ev_created_at e < since | None \<Rightarrow> False) then False
      else if (case f_until f of Some until \<Rightarrow> ev_created_at e > until | None \<Rightarrow> False) then False
      else if (case f_ids f of
                 Some ids \<Rightarrow> \<not> list_ex (\<lambda>id. starts_with (ev_id e) id) ids
               | None \<Rightarrow> False) then False
      else list_all (generic_tag_ok ev) (f_generic_tags f))"

definition filters_match :: "nostr_filter list \<Rightarrow> stored_event \<Rightarrow> bool" where
  "filters_match filters ev = list_ex (\<lambda>f. filter_match_one f ev) filters"

section \<open>The result-level read gate\<close>

definition reader_authorized_for_event :: "nostr_event \<Rightarrow> pubkey \<Rightarrow> bool" where
  "reader_authorized_for_event ev reader =
     (let kind = event_kind_u32 ev in
      if kind \<noteq> KIND_DM_VISIBILITY \<and> kind \<noteq> KIND_AGENT_TURN_METRIC then True
      else list_ex (\<lambda>t. tag_content t = Some reader) (filter (\<lambda>t. tag_kind t = ''p'') (ev_tags ev)))"

section \<open>Lemmas\<close>

lemma set_map_filter: "set (List.map_filter f xs) = {y. \<exists>x\<in>set xs. f x = Some y}"
  by (induction xs) (auto simp: map_filter_simps split: option.splits)

lemma set_tag_values:
  "set (tag_values tags key) = {v. \<exists>t\<in>set tags. tag_kind t = key \<and> tag_content t = Some v}"
  by (auto simp: tag_values_def set_map_filter)

lemma generic_tag_ok_iff:
  "generic_tag_ok ev (key, vals) \<longleftrightarrow>
     (\<exists>v\<in>set vals. v \<in> set (tag_values (ev_tags (se_event ev)) key)) \<or>
     key = ''h'' \<and> (\<forall>t\<in>set (ev_tags (se_event ev)). tag_kind t \<noteq> ''h'') \<and>
       (\<exists>ch. se_channel_id ev = Some ch \<and> ch \<in> set vals)"
  by (auto simp: generic_tag_ok_def Let_def list_ex_iff split: option.splits)

text \<open>A generic tag other than \<open>h\<close> is matched by one of the event's own tags.\<close>

lemma generic_tag_ok_own:
  "generic_tag_ok ev (key, vals) \<Longrightarrow> key \<noteq> ''h'' \<Longrightarrow>
     \<exists>v\<in>set vals. v \<in> set (tag_values (ev_tags (se_event ev)) key)"
  by (simp add: generic_tag_ok_iff)

lemma filter_match_one_iff:
  "filter_match_one f ev \<longleftrightarrow>
     (\<forall>ks. f_kinds f = Some ks \<longrightarrow> ev_kind (se_event ev) \<in> set ks) \<and>
     (\<forall>as. f_authors f = Some as \<longrightarrow> ev_pubkey (se_event ev) \<in> set as) \<and>
     (\<forall>s. f_since f = Some s \<longrightarrow> s \<le> ev_created_at (se_event ev)) \<and>
     (\<forall>u. f_until f = Some u \<longrightarrow> ev_created_at (se_event ev) \<le> u) \<and>
     (\<forall>ids. f_ids f = Some ids \<longrightarrow> (\<exists>id\<in>set ids. starts_with (ev_id (se_event ev)) id)) \<and>
     (\<forall>kv\<in>set (f_generic_tags f). generic_tag_ok ev kv)"
  by (auto simp: filter_match_one_def Let_def list_ex_iff list_all_iff split: option.splits)

lemma filters_match_iff: "filters_match fs ev \<longleftrightarrow> (\<exists>f\<in>set fs. filter_match_one f ev)"
  by (auto simp: filters_match_def list_ex_iff)

text \<open>
  The identifiers of a filter are whole 32-byte event ids, 64 hex digits each, so the
  prefix test on the ids is equality: an event of another id never matches, whatever the
  filter's prefix test suggests.
\<close>

theorem id_prefix_match_is_equality:
  assumes "f_ids f = Some ids" and "\<forall>id\<in>set ids. length id = 64"
    and "length (ev_id (se_event ev)) = 64" and "filter_match_one f ev"
  shows "ev_id (se_event ev) \<in> set ids"
proof -
  from assms(1,4) obtain id where id: "id \<in> set ids" "starts_with (ev_id (se_event ev)) id"
    by (auto simp: filter_match_one_iff)
  with assms(2,3) have "ev_id (se_event ev) = id"
    by (simp add: starts_with_def)
  with id show ?thesis by simp
qed

definition sample_event :: nostr_event where
  "sample_event = \<lparr>ev_id = replicate 64 CHR ''a'', ev_pubkey = ''alice'', ev_created_at = 100,
     ev_kind = 9, ev_tags = [\<lparr>tag_kind = ''p'', tag_content = Some ''bob'',
       tag_slice = [''p'', ''bob'']\<rparr>], ev_content = ''hi''\<rparr>"

definition sample_stored :: stored_event where
  "sample_stored = StoredEvent_new 0 sample_event None"

theorem id_prefix_match_is_equality_witness:
  "ev_id (se_event sample_stored) \<in> set [replicate 64 CHR ''a'']"
proof (rule id_prefix_match_is_equality)
  let ?f = "empty_filter\<lparr>f_ids := Some [replicate 64 CHR ''a'']\<rparr>"
  show "f_ids ?f = Some [replicate 64 CHR ''a'']" by simp
  show "filter_match_one ?f sample_stored" by code_simp
qed (simp_all add: sample_stored_def sample_event_def StoredEvent_new_def)

text \<open>
  A DM-visibility or turn-metric event is readable only by a reader named in one of its
  \<open>p\<close> tags; every other kind passes this gate.
\<close>

theorem reader_gate_iff:
  "reader_authorized_for_event ev reader \<longleftrightarrow>
     event_kind_u32 ev \<notin> {KIND_DM_VISIBILITY, KIND_AGENT_TURN_METRIC} \<or>
     reader \<in> set (tag_values (ev_tags ev) ''p'')"
  by (auto simp: reader_authorized_for_event_def Let_def list_ex_iff set_tag_values)

end
