(* ===== verification/Subscription.thy ===== *)
theory Subscription
  imports SubIndex FilterMatch
begin

text \<open>
  The subscription registry of the relay, \<open>crates/buzz-relay/src/subscription.rs\<close>: the map of the
  live subscriptions and the five indexes that fan-out reads instead of scanning it. The gauges
  and the tracing spans are not part of the state. A \<open>DashMap\<close> operation is atomic, so each
  method is a function of the registry; the two places where the source reads a snapshot that
  another thread may have overtaken are modelled by \<open>push_match\<close>, which takes the registry it
  re-reads (see \<open>push_match_steps\<close> in the properties).
\<close>

type_synonym ConnId = uuid
type_synonym SubId = string
type_synonym SubEntry = "nostr_filter list \<times> CommunityId \<times> uuid option"
type_synonym posting = "ConnId \<times> SubId"

record IndexKey =
  ik_channel_id :: uuid
  ik_kind :: u16

record GlobalPKindIndexKey =
  gp_community_id :: CommunityId
  gp_kind :: u16
  gp_p :: string

record RemovedSubscription =
  rs_community_id :: CommunityId
  rs_channel_id :: "uuid option"

record SubscriptionRegistry =
  r_subs :: "(ConnId \<times> (SubId \<times> SubEntry) list) list"
  r_channel_kind_index :: "(CommunityId \<times> IndexKey, posting) postings"
  r_channel_wildcard_index :: "(CommunityId \<times> uuid, posting) postings"
  r_global_kind_index :: "(CommunityId \<times> u16, posting) postings"
  r_global_p_kind_index :: "(GlobalPKindIndexKey, posting) postings"
  r_global_wildcard_index :: "(CommunityId, posting) postings"

definition registry_new :: SubscriptionRegistry where
  "registry_new = \<lparr>r_subs = [], r_channel_kind_index = [], r_channel_wildcard_index = [],
     r_global_kind_index = [], r_global_p_kind_index = [], r_global_wildcard_index = []\<rparr>"

section \<open>Index keys of a list of filters\<close>

text \<open>Push the values not seen before, in order: \<open>if seen.insert(x) { xs.push(x) }\<close>.\<close>

definition push_unseen :: "'a list \<Rightarrow> 'a list \<Rightarrow> 'a list" where
  "push_unseen xs seen = fold (\<lambda>x acc. if x \<in> set acc then acc else acc @ [x]) xs seen"

fun extract_kinds_loop :: "nostr_filter list \<Rightarrow> u16 list \<Rightarrow> u16 list option" where
  "extract_kinds_loop [] kinds = Some kinds"
| "extract_kinds_loop (f # fs) kinds =
     (case f_kinds f of
        Some filter_kinds \<Rightarrow> extract_kinds_loop fs (push_unseen filter_kinds kinds)
      | None \<Rightarrow> None)"

definition extract_kinds_from_filters :: "nostr_filter list \<Rightarrow> u16 list option" where
  "extract_kinds_from_filters filters = extract_kinds_loop filters []"

definition p_tag :: string where
  "p_tag = ''p''"

fun extract_global_p_kind_loop ::
  "CommunityId \<Rightarrow> nostr_filter list \<Rightarrow> GlobalPKindIndexKey list
     \<Rightarrow> GlobalPKindIndexKey list option" where
  "extract_global_p_kind_loop c [] keys = Some keys"
| "extract_global_p_kind_loop c (f # fs) keys =
     (case f_kinds f of
        None \<Rightarrow> None
      | Some kinds \<Rightarrow>
          if kinds = [] then extract_global_p_kind_loop c fs keys
          else (case map_of (f_generic_tags f) p_tag of
             None \<Rightarrow> None
           | Some p_values \<Rightarrow>
               if p_values = [] then None
               else extract_global_p_kind_loop c fs
                      (push_unseen
                        (concat (map (\<lambda>kind. map (\<lambda>p. \<lparr>gp_community_id = c, gp_kind = kind,
                            gp_p = p\<rparr>) p_values) kinds)) keys)))"

definition extract_global_p_kind_index_keys ::
  "CommunityId \<Rightarrow> nostr_filter list \<Rightarrow> GlobalPKindIndexKey list option" where
  "extract_global_p_kind_index_keys c filters = extract_global_p_kind_loop c filters []"

definition event_p_tag_values :: "stored_event \<Rightarrow> string list" where
  "event_p_tag_values ev = push_unseen (tag_values (ev_tags (se_event ev)) ''p'') []"

section \<open>Index maintenance\<close>

text \<open>The part of \<open>register_scoped\<close> that pushes the subscription into the indexes.\<close>

definition add_to_index ::
  "ConnId \<Rightarrow> SubId \<Rightarrow> nostr_filter list \<Rightarrow> CommunityId \<Rightarrow> uuid option
     \<Rightarrow> SubscriptionRegistry \<Rightarrow> SubscriptionRegistry" where
  "add_to_index conn_id sub_id filters community_id channel_id r =
     (case channel_id of
        Some ch_id \<Rightarrow>
          (case extract_kinds_from_filters filters of
             None \<Rightarrow> r\<lparr>r_channel_wildcard_index :=
               posting_push (conn_id, sub_id) (community_id, ch_id) (r_channel_wildcard_index r)\<rparr>
           | Some kinds \<Rightarrow>
               if kinds = [] then r
               else r\<lparr>r_channel_kind_index :=
                 fold (posting_push (conn_id, sub_id))
                   (map (\<lambda>kind. (community_id, \<lparr>ik_channel_id = ch_id, ik_kind = kind\<rparr>)) kinds)
                   (r_channel_kind_index r)\<rparr>)
      | None \<Rightarrow>
          (case extract_global_p_kind_index_keys community_id filters of
             Some keys \<Rightarrow> r\<lparr>r_global_p_kind_index :=
               fold (posting_push (conn_id, sub_id)) keys (r_global_p_kind_index r)\<rparr>
           | None \<Rightarrow>
               (case extract_kinds_from_filters filters of
                  None \<Rightarrow> r\<lparr>r_global_wildcard_index :=
                    posting_push (conn_id, sub_id) community_id (r_global_wildcard_index r)\<rparr>
                | Some kinds \<Rightarrow>
                    if kinds = [] then r
                    else r\<lparr>r_global_kind_index :=
                      fold (posting_push (conn_id, sub_id))
                        (map (\<lambda>kind. (community_id, kind)) kinds) (r_global_kind_index r)\<rparr>)))"

definition remove_from_index ::
  "ConnId \<Rightarrow> SubId \<Rightarrow> nostr_filter list \<Rightarrow> CommunityId \<Rightarrow> uuid option
     \<Rightarrow> SubscriptionRegistry \<Rightarrow> SubscriptionRegistry" where
  "remove_from_index conn_id sub_id filters community_id channel_id r =
     (case channel_id of
        Some ch_id \<Rightarrow>
          (case extract_kinds_from_filters filters of
             None \<Rightarrow> r\<lparr>r_channel_wildcard_index :=
               posting_retain (conn_id, sub_id) (community_id, ch_id)
                 (r_channel_wildcard_index r)\<rparr>
           | Some kinds \<Rightarrow>
               if kinds = [] then r
               else r\<lparr>r_channel_kind_index :=
                 fold (posting_retain (conn_id, sub_id))
                   (map (\<lambda>kind. (community_id, \<lparr>ik_channel_id = ch_id, ik_kind = kind\<rparr>)) kinds)
                   (r_channel_kind_index r)\<rparr>)
      | None \<Rightarrow>
          (case extract_global_p_kind_index_keys community_id filters of
             Some keys \<Rightarrow> r\<lparr>r_global_p_kind_index :=
               fold (posting_retain (conn_id, sub_id)) keys (r_global_p_kind_index r)\<rparr>
           | None \<Rightarrow>
               (case extract_kinds_from_filters filters of
                  None \<Rightarrow> r\<lparr>r_global_wildcard_index :=
                    posting_retain (conn_id, sub_id) community_id (r_global_wildcard_index r)\<rparr>
                | Some kinds \<Rightarrow>
                    if kinds = [] then r
                    else r\<lparr>r_global_kind_index :=
                      fold (posting_retain (conn_id, sub_id))
                        (map (\<lambda>kind. (community_id, kind)) kinds) (r_global_kind_index r)\<rparr>)))"

section \<open>Registration and removal\<close>

text \<open>
  \<open>conn_subs.remove(sub_id)\<close> leaves the map of the connection in place, even when it became
  empty; only \<open>remove_connection\<close> drops it.
\<close>

definition remove_subscription ::
  "ConnId \<Rightarrow> SubId \<Rightarrow> SubscriptionRegistry \<Rightarrow> RemovedSubscription option \<times> SubscriptionRegistry"
where
  "remove_subscription conn_id sub_id r =
     (case map_of (r_subs r) conn_id of
        None \<Rightarrow> (None, r)
      | Some conn_subs \<Rightarrow>
          (case map_of conn_subs sub_id of
             None \<Rightarrow> (None, r)
           | Some (filters, community_id, channel_id) \<Rightarrow>
               (let r1 = r\<lparr>r_subs := AList.update conn_id (AList.delete sub_id conn_subs) (r_subs r)\<rparr>;
                    r2 = remove_from_index conn_id sub_id filters community_id channel_id r1
                in (Some \<lparr>rs_community_id = community_id, rs_channel_id = channel_id\<rparr>, r2))))"

definition insert_sub ::
  "ConnId \<Rightarrow> SubId \<Rightarrow> SubEntry \<Rightarrow> SubscriptionRegistry \<Rightarrow> SubscriptionRegistry" where
  "insert_sub conn_id sub_id e r =
     r\<lparr>r_subs := AList.update conn_id (AList.update sub_id e (get_or [] (r_subs r) conn_id))
         (r_subs r)\<rparr>"

definition register_scoped ::
  "CommunityId \<Rightarrow> ConnId \<Rightarrow> SubId \<Rightarrow> nostr_filter list \<Rightarrow> uuid option
     \<Rightarrow> SubscriptionRegistry \<Rightarrow> RemovedSubscription option \<times> SubscriptionRegistry" where
  "register_scoped community_id conn_id sub_id filters channel_id r =
     (let (removed, r1) = remove_subscription conn_id sub_id r;
          r2 = insert_sub conn_id sub_id (filters, community_id, channel_id) r1
      in (removed, add_to_index conn_id sub_id filters community_id channel_id r2))"

fun unindex_all ::
  "ConnId \<Rightarrow> (SubId \<times> SubEntry) list \<Rightarrow> SubscriptionRegistry \<Rightarrow> SubscriptionRegistry" where
  "unindex_all conn_id [] r = r"
| "unindex_all conn_id ((sub_id, filters, community_id, channel_id) # rest) r =
     unindex_all conn_id rest (remove_from_index conn_id sub_id filters community_id channel_id r)"

definition remove_connection ::
  "ConnId \<Rightarrow> SubscriptionRegistry \<Rightarrow> RemovedSubscription list \<times> SubscriptionRegistry" where
  "remove_connection conn_id r =
     (case map_of (r_subs r) conn_id of
        None \<Rightarrow> ([], r)
      | Some conn_subs \<Rightarrow>
          (map (\<lambda>(_, _, community_id, channel_id).
                  \<lparr>rs_community_id = community_id, rs_channel_id = channel_id\<rparr>) conn_subs,
           unindex_all conn_id conn_subs (r\<lparr>r_subs := AList.delete conn_id (r_subs r)\<rparr>)))"

fun remove_sub_ids ::
  "ConnId \<Rightarrow> SubId list \<Rightarrow> SubscriptionRegistry
     \<Rightarrow> (SubId \<times> RemovedSubscription) list \<times> SubscriptionRegistry" where
  "remove_sub_ids conn_id [] r = ([], r)"
| "remove_sub_ids conn_id (sub_id # rest) r =
     (let (removed, r1) = remove_subscription conn_id sub_id r;
          (out, r2) = remove_sub_ids conn_id rest r1
      in (case removed of None \<Rightarrow> out | Some s \<Rightarrow> (sub_id, s) # out, r2))"

definition remove_channel_subscriptions_scoped ::
  "CommunityId \<Rightarrow> ConnId \<Rightarrow> uuid \<Rightarrow> SubscriptionRegistry
     \<Rightarrow> (SubId \<times> RemovedSubscription) list \<times> SubscriptionRegistry" where
  "remove_channel_subscriptions_scoped community_id conn_id channel_id r =
     (let sub_ids = (case map_of (r_subs r) conn_id of
            None \<Rightarrow> []
          | Some conn_subs \<Rightarrow>
              map fst (filter (\<lambda>(_, _, sub_community_id, sub_channel_id).
                 sub_community_id = community_id \<and> sub_channel_id = Some channel_id) conn_subs))
      in remove_sub_ids conn_id sub_ids r)"

section \<open>Queries\<close>

definition channel_subscriber_conns_scoped ::
  "CommunityId \<Rightarrow> uuid \<Rightarrow> SubscriptionRegistry \<Rightarrow> ConnId list" where
  "channel_subscriber_conns_scoped community_id channel_id r =
     remdups
       (concat (map (\<lambda>(key, entries).
           if fst key = community_id \<and> ik_channel_id (snd key) = channel_id
           then map fst entries else []) (r_channel_kind_index r))
        @ map fst (posting_get (r_channel_wildcard_index r) (community_id, channel_id)))"

definition get_filters :: "ConnId \<Rightarrow> SubId \<Rightarrow> SubscriptionRegistry \<Rightarrow> nostr_filter list option" where
  "get_filters conn_id sub_id r =
     Option.bind (map_of (r_subs r) conn_id) (\<lambda>conn_subs. map_option fst (map_of conn_subs sub_id))"

definition total_subscriptions :: "SubscriptionRegistry \<Rightarrow> nat" where
  "total_subscriptions r = sum_list (map (\<lambda>(_, conn_subs). length conn_subs) (r_subs r))"

definition total_connections :: "SubscriptionRegistry \<Rightarrow> nat" where
  "total_connections r = length (r_subs r)"

definition per_community_subscriptions :: "SubscriptionRegistry \<Rightarrow> (CommunityId \<times> nat) list" where
  "per_community_subscriptions r =
     fold (\<lambda>(_, conn_subs). fold (\<lambda>(_, _, community_id, _) counts.
         AList.update community_id (get_or 0 counts community_id + 1) counts) conn_subs)
       (r_subs r) []"

section \<open>Fan-out\<close>

text \<open>
  \<open>results\<close> and \<open>seen\<close> of the source always hold the same pairs, so the vector alone is
  threaded through: \<open>seen.insert(entry)\<close> is the test that the pair is not in it yet.
\<close>

definition push_match ::
  "CommunityId \<Rightarrow> stored_event \<Rightarrow> SubscriptionRegistry \<Rightarrow> posting \<Rightarrow> posting list \<Rightarrow> posting list" where
  "push_match community_id ev r entry results =
     (case map_of (r_subs r) (fst entry) of
        None \<Rightarrow> results
      | Some conn_subs \<Rightarrow>
          (case map_of conn_subs (snd entry) of
             None \<Rightarrow> results
           | Some (filters, sub_community_id, sub_channel_id) \<Rightarrow>
               if sub_community_id = community_id \<and> sub_channel_id = se_channel_id ev \<and>
                  filters_match filters ev
               then (if entry \<in> set results then results else results @ [entry])
               else results))"

definition fan_out_scoped ::
  "CommunityId \<Rightarrow> stored_event \<Rightarrow> SubscriptionRegistry \<Rightarrow> posting list" where
  "fan_out_scoped community_id ev r =
     (case se_channel_id ev of
        Some channel_id \<Rightarrow>
          (let results = fold (push_match community_id ev r)
                 (posting_get (r_channel_kind_index r)
                   (community_id, \<lparr>ik_channel_id = channel_id, ik_kind = ev_kind (se_event ev)\<rparr>)) []
           in fold (push_match community_id ev r)
                (posting_get (r_channel_wildcard_index r) (community_id, channel_id)) results)
      | None \<Rightarrow>
          (let results = fold (\<lambda>p. fold (push_match community_id ev r)
                 (posting_get (r_global_p_kind_index r)
                   \<lparr>gp_community_id = community_id, gp_kind = ev_kind (se_event ev), gp_p = p\<rparr>))
                 (event_p_tag_values ev) [];
               results = fold (push_match community_id ev r)
                 (posting_get (r_global_kind_index r) (community_id, ev_kind (se_event ev))) results
           in fold (push_match community_id ev r)
                (posting_get (r_global_wildcard_index r) community_id) results))"

end
