(* ===== verification/SubscriptionProps.thy ===== *)
theory SubscriptionProps
  imports Subscription
begin

text \<open>
  Correctness of the subscription registry. The five indexes are seen through one abstraction:
  a \<open>slot\<close> names a posting list of some index, \<open>slot_get\<close> reads it, and \<open>slots_of\<close> gives the
  slots an entry belongs to. The invariant says that a slot lists exactly the live
  subscriptions that belong to it, each once; the registry then refines the plain map from
  (connection, subscription id) to entries, and fan-out is a query of that map.
\<close>

section \<open>Slots\<close>

datatype slot =
    ChanKind "CommunityId \<times> IndexKey"
  | ChanWild "CommunityId \<times> uuid"
  | GlobKind "CommunityId \<times> u16"
  | GlobP GlobalPKindIndexKey
  | GlobWild CommunityId

fun slot_get :: "SubscriptionRegistry \<Rightarrow> slot \<Rightarrow> posting list" where
  "slot_get r (ChanKind k) = posting_get (r_channel_kind_index r) k"
| "slot_get r (ChanWild k) = posting_get (r_channel_wildcard_index r) k"
| "slot_get r (GlobKind k) = posting_get (r_global_kind_index r) k"
| "slot_get r (GlobP k) = posting_get (r_global_p_kind_index r) k"
| "slot_get r (GlobWild k) = posting_get (r_global_wildcard_index r) k"

definition slots_of :: "SubEntry \<Rightarrow> slot set" where
  "slots_of e =
     (case e of (filters, c, ch) \<Rightarrow>
        (case ch of
           Some ch_id \<Rightarrow>
             (case extract_kinds_from_filters filters of
                None \<Rightarrow> {ChanWild (c, ch_id)}
              | Some kinds \<Rightarrow>
                  (\<lambda>k. ChanKind (c, \<lparr>ik_channel_id = ch_id, ik_kind = k\<rparr>)) ` set kinds)
         | None \<Rightarrow>
             (case extract_global_p_kind_index_keys c filters of
                Some keys \<Rightarrow> GlobP ` set keys
              | None \<Rightarrow>
                  (case extract_kinds_from_filters filters of
                     None \<Rightarrow> {GlobWild c}
                   | Some kinds \<Rightarrow> (\<lambda>k. GlobKind (c, k)) ` set kinds))))"

definition lookup_sub :: "SubscriptionRegistry \<Rightarrow> posting \<Rightarrow> SubEntry option" where
  "lookup_sub r p = Option.bind (map_of (r_subs r) (fst p)) (\<lambda>cs. map_of cs (snd p))"

definition index_lists_ok :: "SubscriptionRegistry \<Rightarrow> bool" where
  "index_lists_ok r \<longleftrightarrow> posting_inv (r_channel_kind_index r) \<and>
     posting_inv (r_channel_wildcard_index r) \<and> posting_inv (r_global_kind_index r) \<and>
     posting_inv (r_global_p_kind_index r) \<and> posting_inv (r_global_wildcard_index r)"

definition subs_ok :: "SubscriptionRegistry \<Rightarrow> bool" where
  "subs_ok r \<longleftrightarrow> keys_distinct (r_subs r) \<and> 
     (\<forall>c cs. map_of (r_subs r) c = Some cs \<longrightarrow> keys_distinct cs)"

definition index_for :: "(posting \<Rightarrow> SubEntry option) \<Rightarrow> SubscriptionRegistry \<Rightarrow> bool" where
  "index_for L r \<longleftrightarrow>
     (\<forall>sl. distinct (slot_get r sl) \<and>
           (\<forall>p. p \<in> set (slot_get r sl) \<longleftrightarrow> (\<exists>e. L p = Some e \<and> sl \<in> slots_of e)))"

definition registry_inv :: "SubscriptionRegistry \<Rightarrow> bool" where
  "registry_inv r \<longleftrightarrow> subs_ok r \<and> index_lists_ok r \<and> index_for (lookup_sub r) r"

section \<open>Key extraction\<close>

lemma set_push_unseen [simp]: "set (push_unseen xs seen) = set seen \<union> set xs"
  by (induction xs arbitrary: seen) (auto simp: push_unseen_def)

lemma distinct_push_unseen [simp]: "distinct seen \<Longrightarrow> distinct (push_unseen xs seen)"
  by (induction xs arbitrary: seen) (auto simp: push_unseen_def)

lemma extract_kinds_loop_Some:
  "extract_kinds_loop fs acc = Some ks \<Longrightarrow>
     set ks = set acc \<union> (\<Union>f\<in>set fs. set (the (f_kinds f))) \<and>
     (\<forall>f\<in>set fs. f_kinds f \<noteq> None) \<and> (distinct acc \<longrightarrow> distinct ks)"
  by (induction fs arbitrary: acc) (auto split: option.splits)

lemma extract_kinds_loop_None:
  "extract_kinds_loop fs acc = None \<longleftrightarrow> (\<exists>f\<in>set fs. f_kinds f = None)"
  by (induction fs arbitrary: acc) (auto split: option.splits)

lemma extract_kinds_distinct: "extract_kinds_from_filters fs = Some ks \<Longrightarrow> distinct ks"
  unfolding extract_kinds_from_filters_def by (drule extract_kinds_loop_Some) simp

lemma extract_kinds_set:
  "extract_kinds_from_filters fs = Some ks \<Longrightarrow>
     k \<in> set ks \<longleftrightarrow> (\<exists>f\<in>set fs. \<exists>l. f_kinds f = Some l \<and> k \<in> set l)"
  unfolding extract_kinds_from_filters_def
  by (drule extract_kinds_loop_Some) (auto split: option.splits; force)

lemma extract_p_loop_step:
  "extract_global_p_kind_loop c (f # fs) acc = Some keys \<Longrightarrow>
     \<exists>kinds. f_kinds f = Some kinds \<and>
       (kinds = [] \<and> extract_global_p_kind_loop c fs acc = Some keys \<or>
        kinds \<noteq> [] \<and> (\<exists>ps acc'. map_of (f_generic_tags f) ''p'' = Some ps \<and> ps \<noteq> [] \<and>
          extract_global_p_kind_loop c fs acc' = Some keys \<and>
          set acc \<subseteq> set acc' \<and> (\<forall>k\<in>set kinds. \<forall>p\<in>set ps.
            \<lparr>gp_community_id = c, gp_kind = k, gp_p = p\<rparr> \<in> set acc') \<and>
          (distinct acc \<longrightarrow> distinct acc')))"
  by (auto simp: p_tag_def split: option.splits if_splits)
    (rule exI, rule conjI, assumption, auto)

lemma extract_p_loop_acc:
  "extract_global_p_kind_loop c fs acc = Some keys \<Longrightarrow>
     set acc \<subseteq> set keys \<and> (distinct acc \<longrightarrow> distinct keys)"
proof (induction fs arbitrary: acc)
  case (Cons f fs)
  from extract_p_loop_step [OF Cons.prems] show ?case
    using Cons.IH by (elim exE conjE disjE) (simp, blast)
qed simp

lemma extract_p_loop_covers:
  "extract_global_p_kind_loop c fs acc = Some keys \<Longrightarrow> f \<in> set fs \<Longrightarrow>
     \<exists>kinds. f_kinds f = Some kinds \<and>
        (kinds \<noteq> [] \<longrightarrow> (\<exists>ps. map_of (f_generic_tags f) ''p'' = Some ps \<and>
           (\<forall>k\<in>set kinds. \<forall>p\<in>set ps.
              \<lparr>gp_community_id = c, gp_kind = k, gp_p = p\<rparr> \<in> set keys)))"
proof (induction fs arbitrary: acc)
  case (Cons g fs)
  from extract_p_loop_step [OF Cons.prems(1)] obtain kinds where g: "f_kinds g = Some kinds"
    and step: "kinds = [] \<and> extract_global_p_kind_loop c fs acc = Some keys \<or>
        kinds \<noteq> [] \<and> (\<exists>ps acc'. map_of (f_generic_tags g) ''p'' = Some ps \<and> ps \<noteq> [] \<and>
          extract_global_p_kind_loop c fs acc' = Some keys \<and>
          set acc \<subseteq> set acc' \<and> (\<forall>k\<in>set kinds. \<forall>p\<in>set ps.
            \<lparr>gp_community_id = c, gp_kind = k, gp_p = p\<rparr> \<in> set acc') \<and>
          (distinct acc \<longrightarrow> distinct acc'))" by blast
  show ?case
  proof (cases "f \<in> set fs")
    case True
    with step Cons.IH show ?thesis by blast
  next
    case False
    with Cons.prems(2) have fg: "f = g" by simp
    from step show ?thesis
    proof (elim disjE conjE exE)
      fix ps acc'
      assume *: "map_of (f_generic_tags g) ''p'' = Some ps"
        "\<forall>k\<in>set kinds. \<forall>p\<in>set ps.
            \<lparr>gp_community_id = c, gp_kind = k, gp_p = p\<rparr> \<in> set acc'"
        "extract_global_p_kind_loop c fs acc' = Some keys"
      from extract_p_loop_acc [OF *(3)] have "set acc' \<subseteq> set keys" by simp
      with * fg g show ?thesis by auto
    qed (use g fg in simp)
  qed
qed simp

lemma extract_p_distinct: "extract_global_p_kind_index_keys c fs = Some keys \<Longrightarrow> distinct keys"
  unfolding extract_global_p_kind_index_keys_def by (drule extract_p_loop_acc) simp

section \<open>Index maintenance on slots\<close>

lemmas index_ops = add_to_index_def remove_from_index_def slots_of_def

lemma add_to_index_subs [simp]: "r_subs (add_to_index c s fs co ch r) = r_subs r"
  by (simp add: add_to_index_def split: option.split)

lemma remove_from_index_subs [simp]: "r_subs (remove_from_index c s fs co ch r) = r_subs r"
  by (simp add: remove_from_index_def split: option.split)

lemma slot_get_add:
  "slot_get (add_to_index c s fs co ch r) sl =
     (if sl \<in> slots_of (fs, co, ch) then slot_get r sl @ [(c, s)] else slot_get r sl)"
  by (cases sl)
    (auto simp: index_ops posting_get_push postings.get_push_all distinct_map inj_on_def
       dest!: extract_kinds_distinct extract_p_distinct split: option.split)

lemma slot_get_remove:
  "slot_get (remove_from_index c s fs co ch r) sl =
     (if sl \<in> slots_of (fs, co, ch) then filter (\<lambda>x. x \<noteq> (c, s)) (slot_get r sl)
      else slot_get r sl)"
  by (cases sl)
    (auto simp: index_ops posting_get_retain postings.get_retain_all split: option.split)

lemma index_lists_add: "index_lists_ok r \<Longrightarrow> index_lists_ok (add_to_index c s fs co ch r)"
  by (auto simp: index_lists_ok_def add_to_index_def posting_inv_push postings.inv_push_all
      split: option.split)

lemma index_lists_remove: "index_lists_ok r \<Longrightarrow> index_lists_ok (remove_from_index c s fs co ch r)"
  by (auto simp: index_lists_ok_def remove_from_index_def posting_inv_retain
      postings.inv_retain_all split: option.split)

section \<open>The invariant\<close>

lemma slot_get_subs [simp]: "slot_get (r\<lparr>r_subs := m\<rparr>) sl = slot_get r sl"
  by (cases sl) simp_all

lemma index_lists_subs [simp]: "index_lists_ok (r\<lparr>r_subs := m\<rparr>) = index_lists_ok r"
  by (simp add: index_lists_ok_def)

lemma index_for_subs [simp]: "index_for L (r\<lparr>r_subs := m\<rparr>) = index_for L r"
  by (simp add: index_for_def)

lemma index_for_add:
  "index_for L r \<Longrightarrow> L (c, s) = None \<Longrightarrow>
     index_for (L((c, s) \<mapsto> (fs, co, ch))) (add_to_index c s fs co ch r)"
  by (auto simp: index_for_def slot_get_add)

lemma index_for_remove:
  "index_for L r \<Longrightarrow> L (c, s) = Some (fs, co, ch) \<Longrightarrow>
     index_for (L((c, s) := None)) (remove_from_index c s fs co ch r)"
  by (auto simp: index_for_def slot_get_remove)

lemma index_for_cong: "index_for L r \<Longrightarrow> (\<And>p. L p = L' p) \<Longrightarrow> index_for L' r"
  by (simp add: index_for_def)

lemma index_for_unindex:
  "index_for L r \<Longrightarrow> keys_distinct cs \<Longrightarrow> \<forall>(s, e)\<in>set cs. L (c, s) = Some e \<Longrightarrow>
     index_for (\<lambda>p. if fst p = c \<and> snd p \<in> fst ` set cs then None else L p)
       (unindex_all c cs r)"
proof (induction c cs r arbitrary: L rule: unindex_all.induct)
  case (1 c r)
  then show ?case by simp
next
  case (2 c s fs co ch rest r)
  from 2(2-) have "index_for (L((c, s) := None)) (remove_from_index c s fs co ch r)"
    by (intro index_for_remove) auto
  moreover have "\<forall>(s', e)\<in>set rest. (L((c, s) := None)) (c, s') = Some e"
    using 2(3,4) by (auto simp: image_iff split: prod.splits)
  ultimately have "index_for (\<lambda>p. if fst p = c \<and> snd p \<in> fst ` set rest then None
      else (L((c, s) := None)) p) (unindex_all c ((s, fs, co, ch) # rest) r)"
    using 2(1) [of "L((c, s) := None)"] 2(3) by (simp del: fun_upd_apply)
  then show ?case by (rule index_for_cong) (auto split: prod.splits)
qed

lemma unindex_all_subs [simp]: "r_subs (unindex_all c cs r) = r_subs r"
  by (induction c cs r rule: unindex_all.induct) simp_all

lemma index_lists_unindex: "index_lists_ok r \<Longrightarrow> index_lists_ok (unindex_all c cs r)"
  by (induction c cs r rule: unindex_all.induct) (simp_all add: index_lists_remove)

lemma lookup_sub_cong: "r_subs r = r_subs r' \<Longrightarrow> lookup_sub r p = lookup_sub r' p"
  by (simp add: lookup_sub_def)

lemma lookup_add [simp]: "lookup_sub (add_to_index c s fs co ch r) = lookup_sub r"
  by (rule ext) (simp add: lookup_sub_def)

lemma lookup_remove_from_index [simp]:
  "lookup_sub (remove_from_index c s fs co ch r) = lookup_sub r"
  by (rule ext) (simp add: lookup_sub_def)

lemma lookup_unindex [simp]: "lookup_sub (unindex_all c cs r) = lookup_sub r"
  by (rule ext) (simp add: lookup_sub_def)

lemma lookup_insert_sub: "lookup_sub (insert_sub c s e r) = (lookup_sub r)((c, s) \<mapsto> e)"
  by (rule ext) (auto simp: lookup_sub_def insert_sub_def get_or_def split: option.split)

lemma subs_ok_update:
  "subs_ok r \<Longrightarrow> keys_distinct cs \<Longrightarrow> subs_ok (r\<lparr>r_subs := AList.update c cs (r_subs r)\<rparr>)"
  by (simp add: subs_ok_def del: map_of_eq_Some_iff)

lemma subs_ok_delete: "subs_ok r \<Longrightarrow> subs_ok (r\<lparr>r_subs := AList.delete c (r_subs r)\<rparr>)"
  by (simp add: subs_ok_def del: map_of_eq_Some_iff)

lemma subs_ok_inner: "subs_ok r \<Longrightarrow> map_of (r_subs r) c = Some cs \<Longrightarrow> keys_distinct cs"
  by (simp add: subs_ok_def del: map_of_eq_Some_iff)

lemma subs_ok_cong: "r_subs r = r_subs r' \<Longrightarrow> subs_ok r = subs_ok r'"
  by (simp add: subs_ok_def)

text \<open>The unfolded effect of removing one subscription.\<close>

lemma remove_subscription_None:
  "lookup_sub r (c, s) = None \<Longrightarrow> remove_subscription c s r = (None, r)"
  by (auto simp: remove_subscription_def lookup_sub_def split: option.split)

lemma remove_subscription_Some:
  assumes "lookup_sub r (c, s) = Some (fs, co, ch)"
  obtains cs where "map_of (r_subs r) c = Some cs"
    and "remove_subscription c s r =
      (Some \<lparr>rs_community_id = co, rs_channel_id = ch\<rparr>,
       remove_from_index c s fs co ch
         (r\<lparr>r_subs := AList.update c (AList.delete s cs) (r_subs r)\<rparr>))"
  using assms by (cases "map_of (r_subs r) c") (auto simp: remove_subscription_def lookup_sub_def)

lemma lookup_remove_subscription:
  "lookup_sub (snd (remove_subscription c s r)) = (lookup_sub r)((c, s) := None)"
proof (cases "lookup_sub r (c, s)")
  case None
  then show ?thesis by (auto simp: remove_subscription_None fun_eq_iff)
next
  case (Some e)
  obtain fs co ch where e: "e = (fs, co, ch)" by (cases e)
  from Some [unfolded e] obtain cs where cs: "map_of (r_subs r) c = Some cs"
    and r: "remove_subscription c s r = (Some \<lparr>rs_community_id = co, rs_channel_id = ch\<rparr>,
       remove_from_index c s fs co ch
         (r\<lparr>r_subs := AList.update c (AList.delete s cs) (r_subs r)\<rparr>))"
    by (rule remove_subscription_Some)
  show ?thesis
    unfolding r by (rule ext) (auto simp: lookup_sub_def cs)
qed

lemma fst_remove_subscription:
  "fst (remove_subscription c s r) =
     map_option (\<lambda>(_, co, ch). \<lparr>rs_community_id = co, rs_channel_id = ch\<rparr>) (lookup_sub r (c, s))"
  by (auto simp: remove_subscription_def lookup_sub_def Let_def split: option.split)

lemma registry_inv_remove_subscription:
  assumes inv: "registry_inv r"
  shows "registry_inv (snd (remove_subscription c s r))"
proof (cases "lookup_sub r (c, s)")
  case None
  then show ?thesis using inv by (simp add: remove_subscription_None)
next
  case (Some e)
  obtain fs co ch where e: "e = (fs, co, ch)" by (cases e)
  from Some [unfolded e] obtain cs where cs: "map_of (r_subs r) c = Some cs"
    and r: "remove_subscription c s r = (Some \<lparr>rs_community_id = co, rs_channel_id = ch\<rparr>,
       remove_from_index c s fs co ch
         (r\<lparr>r_subs := AList.update c (AList.delete s cs) (r_subs r)\<rparr>))" (is "_ = (_, ?r')")
    by (rule remove_subscription_Some)
  have L: "lookup_sub ?r' = (lookup_sub r)((c, s) := None)"
    using lookup_remove_subscription [of c s r] r by simp
  have "subs_ok ?r'"
    using inv subs_ok_update [of r "AList.delete s cs" c] subs_ok_inner [OF _ cs]
      subs_ok_cong [of ?r' "r\<lparr>r_subs := AList.update c (AList.delete s cs) (r_subs r)\<rparr>"]
    by (simp add: registry_inv_def)
  moreover have "index_lists_ok ?r'"
    using inv by (simp add: registry_inv_def index_lists_remove)
  moreover have "index_for (lookup_sub ?r') ?r'"
    unfolding L using inv Some e by (intro index_for_remove) (simp_all add: registry_inv_def)
  ultimately show ?thesis by (simp add: r registry_inv_def)
qed

lemma registry_inv_register:
  assumes inv: "registry_inv r"
  shows "registry_inv (snd (register_scoped co c s fs ch r))"
proof -
  let ?r1 = "snd (remove_subscription c s r)"
  let ?r2 = "insert_sub c s (fs, co, ch) ?r1"
  let ?r3 = "add_to_index c s fs co ch ?r2"
  have inv1: "registry_inv ?r1"
    by (rule registry_inv_remove_subscription [OF inv])
  have "keys_distinct (get_or [] (r_subs ?r1) c)"
    using inv1 subs_ok_inner [of ?r1 c]
    by (auto simp: registry_inv_def get_or_def split: option.split)
  then have "subs_ok ?r2"
    using inv1 by (simp add: insert_sub_def registry_inv_def subs_ok_update)
  moreover have "index_for (lookup_sub ?r3) ?r3"
    using inv1 unfolding lookup_add lookup_insert_sub
    by (intro index_for_add)
      (simp_all add: registry_inv_def insert_sub_def lookup_remove_subscription)
  moreover have "index_lists_ok ?r3"
    using inv1 by (simp add: insert_sub_def registry_inv_def index_lists_add)
  ultimately show ?thesis
    by (simp add: register_scoped_def registry_inv_def Let_def case_prod_beta
        subs_ok_cong [of ?r3 ?r2])
qed

lemma lookup_register:
  "lookup_sub (snd (register_scoped co c s fs ch r)) = (lookup_sub r)((c, s) \<mapsto> (fs, co, ch))"
  by (simp add: register_scoped_def Let_def case_prod_beta lookup_insert_sub
      lookup_remove_subscription)

lemma lookup_remove_connection:
  "lookup_sub (snd (remove_connection c r)) = (\<lambda>p. if fst p = c then None else lookup_sub r p)"
  by (rule ext) (auto simp: remove_connection_def lookup_sub_def split: option.split)

lemma registry_inv_remove_connection:
  assumes inv: "registry_inv r"
  shows "registry_inv (snd (remove_connection c r))"
proof (cases "map_of (r_subs r) c")
  case None
  then show ?thesis using inv by (simp add: remove_connection_def)
next
  case (Some cs)
  let ?r = "r\<lparr>r_subs := AList.delete c (r_subs r)\<rparr>"
  let ?r' = "unindex_all c cs ?r"
  have r': "snd (remove_connection c r) = ?r'"
    using Some by (simp add: remove_connection_def)
  have "keys_distinct cs"
    using inv Some by (auto simp: registry_inv_def dest: subs_ok_inner)
  moreover from this have entries: "\<forall>(s, e)\<in>set cs. lookup_sub r (c, s) = Some e"
    by (auto simp: lookup_sub_def Some)
  ultimately have "index_for (\<lambda>p. if fst p = c \<and> snd p \<in> fst ` set cs then None else lookup_sub r p) ?r'"
    using inv entries by (intro index_for_unindex) (simp_all add: registry_inv_def)
  moreover have "lookup_sub ?r' p = (if fst p = c then None else lookup_sub r p)" for p
    by (simp add: lookup_sub_def)
  moreover have "fst p = c \<Longrightarrow> snd p \<notin> fst ` set cs \<Longrightarrow> lookup_sub r p = None" for p
    by (simp add: lookup_sub_def Some map_of_None_iff)
  ultimately have "index_for (lookup_sub ?r') ?r'"
    by (elim index_for_cong) simp
  moreover have "subs_ok ?r'"
    using inv subs_ok_delete [of r c] subs_ok_cong [of ?r' ?r] by (simp add: registry_inv_def)
  moreover have "index_lists_ok ?r'"
    using inv by (simp add: registry_inv_def index_lists_unindex)
  ultimately show ?thesis by (simp add: r' registry_inv_def)
qed

lemma remove_sub_ids_snd:
  "snd (remove_sub_ids c ids r) = fold (\<lambda>s r. snd (remove_subscription c s r)) ids r"
  by (induction ids arbitrary: r) (auto simp: Let_def case_prod_beta split: option.split)

lemma registry_inv_remove_sub_ids:
  "registry_inv r \<Longrightarrow> registry_inv (snd (remove_sub_ids c ids r))"
  unfolding remove_sub_ids_snd
  by (induction ids arbitrary: r) (simp_all add: registry_inv_remove_subscription)

lemma lookup_remove_sub_ids:
  "lookup_sub (snd (remove_sub_ids c ids r)) =
     (\<lambda>p. if fst p = c \<and> snd p \<in> set ids then None else lookup_sub r p)"
  unfolding remove_sub_ids_snd
  by (induction ids arbitrary: r) (auto simp: lookup_remove_subscription fun_eq_iff)

lemma lookup_remove_channel:
  assumes "subs_ok r"
  shows "lookup_sub (snd (remove_channel_subscriptions_scoped co c ch r)) =
     (\<lambda>p. if fst p = c \<and> (\<exists>fs. lookup_sub r p = Some (fs, co, Some ch)) then None
          else lookup_sub r p)"
proof (cases "map_of (r_subs r) c")
  case None
  then show ?thesis
    by (auto simp: remove_channel_subscriptions_scoped_def lookup_remove_sub_ids fun_eq_iff
        lookup_sub_def)
next
  case (Some cs)
  from subs_ok_inner [OF assms Some] have d: "keys_distinct cs" .
  have "s \<in> fst ` {x \<in> set cs. case x of (_, _, co', ch') \<Rightarrow> co' = co \<and> ch' = Some ch} \<longleftrightarrow>
      (\<exists>fs. map_of cs s = Some (fs, co, Some ch))" for s
    using d by (force simp: image_iff)
  then show ?thesis
    by (auto simp: remove_channel_subscriptions_scoped_def lookup_remove_sub_ids fun_eq_iff
        lookup_sub_def Some)
qed

section \<open>Fan-out\<close>

definition delivers :: "SubscriptionRegistry \<Rightarrow> CommunityId \<Rightarrow> stored_event \<Rightarrow> posting \<Rightarrow> bool" where
  "delivers r co ev p \<longleftrightarrow>
     (\<exists>fs. lookup_sub r p = Some (fs, co, se_channel_id ev) \<and> filters_match fs ev)"

definition candidate_slots :: "CommunityId \<Rightarrow> stored_event \<Rightarrow> slot set" where
  "candidate_slots co ev =
     (let k = ev_kind (se_event ev) in
      case se_channel_id ev of
        Some ch \<Rightarrow> {ChanKind (co, \<lparr>ik_channel_id = ch, ik_kind = k\<rparr>), ChanWild (co, ch)}
      | None \<Rightarrow> (\<lambda>p. GlobP \<lparr>gp_community_id = co, gp_kind = k, gp_p = p\<rparr>) ` set (event_p_tag_values ev)
          \<union> {GlobKind (co, k), GlobWild co})"

lemma push_match_delivers:
  "push_match co ev r p results =
     (if delivers r co ev p \<and> p \<notin> set results then results @ [p] else results)"
  by (cases p) (auto simp: push_match_def delivers_def lookup_sub_def split: option.split)

lemma set_fold_push_match [simp]:
  "set (fold (push_match co ev r) cands acc) = set acc \<union> {p \<in> set cands. delivers r co ev p}"
  by (induction cands arbitrary: acc) (auto simp: push_match_delivers)

lemma distinct_fold_push_match [simp]:
  "distinct acc \<Longrightarrow> distinct (fold (push_match co ev r) cands acc)"
  by (induction cands arbitrary: acc) (auto simp: push_match_delivers)

lemma set_fold_p_values:
  "set (fold (\<lambda>p. fold (push_match co ev r) (g p)) ps acc) =
     set acc \<union> {q. (\<exists>p\<in>set ps. q \<in> set (g p)) \<and> delivers r co ev q}"
  by (induction ps arbitrary: acc) auto

lemma distinct_fold_p_values:
  "distinct acc \<Longrightarrow> distinct (fold (\<lambda>p. fold (push_match co ev r) (g p)) ps acc)"
  by (induction ps arbitrary: acc) simp_all

lemma set_fan_out:
  "set (fan_out_scoped co ev r) =
     {p. delivers r co ev p \<and> (\<exists>sl\<in>candidate_slots co ev. p \<in> set (slot_get r sl))}"
  by (auto simp: fan_out_scoped_def candidate_slots_def Let_def set_fold_p_values
      split: option.split)

lemma distinct_fan_out: "distinct (fan_out_scoped co ev r)"
  by (auto simp: fan_out_scoped_def Let_def distinct_fold_p_values split: option.split)

lemma event_p_values: "set (event_p_tag_values ev) = set (tag_values (ev_tags (se_event ev)) ''p'')"
  by (simp add: event_p_tag_values_def)

text \<open>A subscription that matches an event belongs to one of the slots fan-out reads.\<close>

lemma filters_match_kind:
  "filters_match fs ev \<Longrightarrow> extract_kinds_from_filters fs = Some ks \<Longrightarrow>
     ev_kind (se_event ev) \<in> set ks"
  by (auto simp: filters_match_iff filter_match_one_iff extract_kinds_set)
    (metis extract_kinds_loop_None extract_kinds_from_filters_def not_None_eq option.distinct(1))

lemma filters_match_p_key:
  assumes m: "filters_match fs ev" and k: "extract_global_p_kind_index_keys co fs = Some keys"
  shows "\<exists>p\<in>set (event_p_tag_values ev).
    \<lparr>gp_community_id = co, gp_kind = ev_kind (se_event ev), gp_p = p\<rparr> \<in> set keys"
proof -
  from m obtain f where f: "f \<in> set fs" "filter_match_one f ev"
    by (auto simp: filters_match_iff)
  from extract_p_loop_covers [OF k [unfolded extract_global_p_kind_index_keys_def] f(1)]
  obtain kinds where kinds: "f_kinds f = Some kinds"
    and cover: "kinds \<noteq> [] \<longrightarrow> (\<exists>ps. map_of (f_generic_tags f) ''p'' = Some ps \<and>
           (\<forall>k\<in>set kinds. \<forall>p\<in>set ps.
              \<lparr>gp_community_id = co, gp_kind = k, gp_p = p\<rparr> \<in> set keys))" by blast
  from f(2) kinds have kin: "ev_kind (se_event ev) \<in> set kinds"
    by (simp add: filter_match_one_iff)
  with cover obtain ps where ps: "map_of (f_generic_tags f) ''p'' = Some ps"
    and all: "\<forall>k\<in>set kinds. \<forall>p\<in>set ps.
              \<lparr>gp_community_id = co, gp_kind = k, gp_p = p\<rparr> \<in> set keys"
    by force
  from ps have "(''p'', ps) \<in> set (f_generic_tags f)"
    by (rule map_of_SomeD)
  with f(2) have "generic_tag_ok ev (''p'', ps)"
    by (simp add: filter_match_one_iff)
  then obtain v where "v \<in> set ps" "v \<in> set (event_p_tag_values ev)"
    unfolding event_p_values using generic_tag_ok_own [of ev "''p''" ps] by auto
  with all kin show ?thesis by blast
qed

lemma matching_slot:
  assumes "filters_match fs ev"
  shows "slots_of (fs, co, se_channel_id ev) \<inter> candidate_slots co ev \<noteq> {}"
proof (cases "se_channel_id ev")
  case (Some ch)
  with filters_match_kind [OF assms] show ?thesis
    by (cases "extract_kinds_from_filters fs") (auto simp: slots_of_def candidate_slots_def)
next
  case None
  show ?thesis
  proof (cases "extract_global_p_kind_index_keys co fs")
    case (Some keys)
    with filters_match_p_key [OF assms this] None show ?thesis
      by (fastforce simp: slots_of_def candidate_slots_def Let_def)
  next
    case no_p: None
    with None filters_match_kind [OF assms] show ?thesis
      by (cases "extract_kinds_from_filters fs")
        (auto simp: slots_of_def candidate_slots_def Let_def)
  qed
qed

lemma fan_out_iff:
  assumes "registry_inv r"
  shows "p \<in> set (fan_out_scoped co ev r) \<longleftrightarrow> delivers r co ev p"
proof
  assume d: "delivers r co ev p"
  then obtain fs where fs: "lookup_sub r p = Some (fs, co, se_channel_id ev)" "filters_match fs ev"
    by (auto simp: delivers_def)
  from matching_slot [OF fs(2)] obtain sl
    where "sl \<in> slots_of (fs, co, se_channel_id ev)" "sl \<in> candidate_slots co ev" by blast
  moreover from this(1) assms fs(1) have "p \<in> set (slot_get r sl)"
    unfolding registry_inv_def index_for_def by blast
  ultimately show "p \<in> set (fan_out_scoped co ev r)"
    using d by (auto simp: set_fan_out)
qed (simp add: set_fan_out)

section \<open>Reachable registries\<close>

inductive registry_step :: "SubscriptionRegistry \<Rightarrow> SubscriptionRegistry \<Rightarrow> bool" where
  register: "registry_step r (snd (register_scoped co c s fs ch r))"
| remove_sub: "registry_step r (snd (remove_subscription c s r))"
| remove_conn: "registry_step r (snd (remove_connection c r))"
| remove_chan: "registry_step r (snd (remove_channel_subscriptions_scoped co c ch r))"

inductive registry_reachable :: "SubscriptionRegistry \<Rightarrow> bool" where
  init: "registry_reachable registry_new"
| step: "registry_reachable r \<Longrightarrow> registry_step r r' \<Longrightarrow> registry_reachable r'"

lemma registry_inv_new: "registry_inv registry_new"
proof -
  have "slot_get registry_new sl = []" for sl
    by (cases sl) (simp_all add: registry_new_def)
  then show ?thesis
    by (simp add: registry_inv_def subs_ok_def index_lists_ok_def index_for_def lookup_sub_def)
      (simp add: registry_new_def)
qed

lemma registry_inv_step: "registry_step r r' \<Longrightarrow> registry_inv r \<Longrightarrow> registry_inv r'"
  by (induction rule: registry_step.induct)
    (simp_all add: registry_inv_register registry_inv_remove_subscription
      registry_inv_remove_connection registry_inv_remove_sub_ids
      remove_channel_subscriptions_scoped_def Let_def)

lemma reachable_inv: "registry_reachable r \<Longrightarrow> registry_inv r"
  by (induction rule: registry_reachable.induct) (auto simp: registry_inv_new registry_inv_step)

section \<open>Counting\<close>

lemma sum_counts:
  fixes counts :: "('k \<times> nat) list"
  assumes "keys_distinct counts"
  shows "sum_list (map snd (AList.update k (get_or 0 counts k + 1) counts)) =
    sum_list (map snd counts) + 1"
  using assms
proof (induction counts)
  case (Cons a counts)
  then show ?case by (cases a) (auto simp: get_or_def split: option.split)
qed (simp add: get_or_def)

lemma sum_counts_entries:
  "keys_distinct counts \<Longrightarrow>
     sum_list (map snd (fold (\<lambda>(_, _, co, _) counts.
        AList.update co (get_or 0 counts co + 1) counts) cs counts)) =
       sum_list (map snd counts) + length cs \<and>
     keys_distinct (fold (\<lambda>(_, _, co, _) counts.
        AList.update co (get_or (0 :: nat) counts co + 1) counts) cs counts)"
  by (induction cs arbitrary: counts) (auto simp: sum_counts simp del: One_nat_def)

lemma sum_counts_subs:
  "keys_distinct counts \<Longrightarrow>
     sum_list (map snd (fold (\<lambda>(_, cs). fold (\<lambda>(_, _, co, _) counts.
        AList.update co (get_or 0 counts co + 1) counts) cs) m counts)) =
       sum_list (map snd counts) + sum_list (map (\<lambda>(_, cs). length cs) m)"
proof (induction m arbitrary: counts)
  case (Cons a m)
  obtain c cs where a: "a = (c, cs)" by (cases a)
  show ?case
    unfolding a using Cons.IH sum_counts_entries [OF Cons.prems, of cs]
    by simp
qed simp

lemma posting_inv_empty: "posting_inv m \<Longrightarrow> \<forall>k. posting_get m k = [] \<Longrightarrow> m = []"
proof (rule ccontr)
  assume m: "posting_inv m" "\<forall>k. posting_get m k = []" "m \<noteq> []"
  then obtain k v m' where "m = (k, v) # m'" by (cases m) auto
  with m(1,2) show False
    by (auto simp: posting_inv_def posting_get_def get_or_def split: if_splits
        simp del: map_of_eq_Some_iff dest: spec [of _ k])
qed

lemma no_subs_no_slots: "registry_inv r \<Longrightarrow> total_subscriptions r = 0 \<Longrightarrow> slot_get r sl = []"
proof -
  assume inv: "registry_inv r" and t: "total_subscriptions r = 0"
  from t have "\<forall>(c, cs)\<in>set (r_subs r). cs = []"
    by (force simp: total_subscriptions_def)
  then have "lookup_sub r p = None" for p
    by (auto simp: lookup_sub_def split: bind_splits dest!: map_of_SomeD)
  with inv have "set (slot_get r sl) = {}"
    by (auto simp: registry_inv_def index_for_def)
  then show ?thesis by simp
qed

lemma posting_get_in: "posting_get m k = v \<Longrightarrow> v \<noteq> [] \<Longrightarrow> (k, v) \<in> set m"
  by (auto simp: posting_get_def get_or_def split: option.splits dest: map_of_SomeD)

lemma posting_in_get: "keys_distinct m \<Longrightarrow> (k, v) \<in> set m \<Longrightarrow> posting_get m k = v"
  by (simp add: posting_get_def get_or_def)

lemma set_channel_subscriber_conns:
  assumes "keys_distinct (r_channel_kind_index r)"
  shows "c \<in> set (channel_subscriber_conns_scoped co ch r) \<longleftrightarrow>
    (\<exists>s. (c, s) \<in> set (slot_get r (ChanWild (co, ch))) \<or>
       (\<exists>k. (c, s) \<in> set (slot_get r (ChanKind (co, \<lparr>ik_channel_id = ch, ik_kind = k\<rparr>)))))"
    (is "_ \<longleftrightarrow> ?rhs")
proof
  assume "c \<in> set (channel_subscriber_conns_scoped co ch r)"
  then consider key v s where "(key, v) \<in> set (r_channel_kind_index r)" "fst key = co"
      "ik_channel_id (snd key) = ch" "(c, s) \<in> set v"
    | s where "(c, s) \<in> set (posting_get (r_channel_wildcard_index r) (co, ch))"
    by (auto simp: channel_subscriber_conns_scoped_def split: if_splits)
  then show ?rhs
  proof cases
    case 1
    then obtain k where "key = (co, \<lparr>ik_channel_id = ch, ik_kind = k\<rparr>)"
      by (cases key) (metis IndexKey.surjective old.unit.exhaust fst_conv snd_conv)
    with 1 posting_in_get [OF assms 1(1)] show ?thesis by auto
  qed auto
next
  assume ?rhs
  then obtain s where "(c, s) \<in> set (slot_get r (ChanWild (co, ch))) \<or>
       (\<exists>k. (c, s) \<in> set (slot_get r (ChanKind (co, \<lparr>ik_channel_id = ch, ik_kind = k\<rparr>))))" ..
  then show "c \<in> set (channel_subscriber_conns_scoped co ch r)"
  proof (elim disjE exE)
    fix k assume "(c, s) \<in> set (slot_get r (ChanKind (co, \<lparr>ik_channel_id = ch, ik_kind = k\<rparr>)))"
    then have "\<exists>v. ((co, \<lparr>ik_channel_id = ch, ik_kind = k\<rparr>), v) \<in> set (r_channel_kind_index r)
        \<and> (c, s) \<in> set v"
      by (auto intro!: posting_get_in)
    then show ?thesis
      by (force simp: channel_subscriber_conns_scoped_def)
  qed (force simp: channel_subscriber_conns_scoped_def)
qed

section \<open>Properties\<close>

definition demo_filter :: nostr_filter where
  "demo_filter = empty_filter\<lparr>f_kinds := Some [9]\<rparr>"

definition demo_registry :: SubscriptionRegistry where
  "demo_registry = snd (register_scoped (CommunityId ''A'') ''conn'' ''sub'' [demo_filter]
     (Some ''ch'') registry_new)"

lemma demo_reachable: "registry_reachable demo_registry"
  unfolding demo_registry_def
  by (intro registry_reachable.step [OF registry_reachable.init] registry_step.register)

text \<open>
  C1. Fan-out is exact: in every reachable registry it returns each live subscription of the
  event's community and of the event's own scope (its channel, or global) whose filters match,
  exactly once, and no other: the five indexes neither lose a matching subscription nor
  deliver across communities, from a channel to a global subscription, or back.
\<close>

theorem fan_out_exact:
  assumes "registry_reachable r"
  shows "distinct (fan_out_scoped co ev r) \<and>
    set (fan_out_scoped co ev r) =
      {p. \<exists>fs. lookup_sub r p = Some (fs, co, se_channel_id ev) \<and> filters_match fs ev}"
  using fan_out_iff [OF reachable_inv [OF assms]] distinct_fan_out by (auto simp: delivers_def)

theorem fan_out_exact_witness:
  "set (fan_out_scoped (CommunityId ''A'') (sample_stored\<lparr>se_channel_id := Some ''ch''\<rparr>)
     demo_registry) = {(''conn'', ''sub'')} \<and>
   distinct (fan_out_scoped (CommunityId ''A'') (sample_stored\<lparr>se_channel_id := Some ''ch''\<rparr>)
     demo_registry)"
proof -
  have "fan_out_scoped (CommunityId ''A'') (sample_stored\<lparr>se_channel_id := Some ''ch''\<rparr>)
     demo_registry = [(''conn'', ''sub'')]" by code_simp
  with fan_out_exact [OF demo_reachable] show ?thesis by simp
qed

text \<open>
  C32. The registry refines a map from (connection, subscription id) to entries: registering
  replaces the entry of that id (NIP-01), removing deletes it, and both return the scope of
  the entry that was there; removing a connection deletes exactly its entries.
\<close>

theorem registry_refines_map:
  "lookup_sub (snd (register_scoped co c s fs ch r)) = (lookup_sub r)((c, s) \<mapsto> (fs, co, ch)) \<and>
   lookup_sub (snd (remove_subscription c s r)) = (lookup_sub r)((c, s) := None) \<and>
   lookup_sub (snd (remove_connection c r)) =
     (\<lambda>p. if fst p = c then None else lookup_sub r p) \<and>
   fst (register_scoped co c s fs ch r) = fst (remove_subscription c s r) \<and>
   fst (remove_subscription c s r) =
     map_option (\<lambda>(_, co', ch'). \<lparr>rs_community_id = co', rs_channel_id = ch'\<rparr>)
       (lookup_sub r (c, s)) \<and>
   get_filters c s (snd (register_scoped co c s fs ch r)) = Some fs"
proof -
  have "get_filters c s r' = map_option fst (lookup_sub r' (c, s))" for r'
    by (cases "map_of (r_subs r') c") (simp_all add: get_filters_def lookup_sub_def)
  then show ?thesis
    by (simp add: lookup_register lookup_remove_subscription lookup_remove_connection
        fst_remove_subscription)
      (simp add: register_scoped_def Let_def case_prod_beta fst_remove_subscription)
qed

text \<open>
  Every reachable registry satisfies the invariant: keys are distinct, no index keeps an
  empty posting list, and each posting list holds exactly the live subscriptions that belong
  to it, once.
\<close>

theorem registry_invariant:
  assumes "registry_reachable r"
  shows "registry_inv r"
  by (rule reachable_inv [OF assms])

theorem registry_invariant_witness: "registry_inv demo_registry"
  by (rule registry_invariant [OF demo_reachable])

text \<open>
  Removing a connection's subscriptions of one channel deletes exactly those, in that
  community only.
\<close>

theorem remove_channel_exact:
  assumes "registry_reachable r"
  shows "lookup_sub (snd (remove_channel_subscriptions_scoped co c ch r)) p =
    (if fst p = c \<and> (\<exists>fs. lookup_sub r p = Some (fs, co, Some ch)) then None else lookup_sub r p)"
  using lookup_remove_channel [of r co c ch] reachable_inv [OF assms]
  by (simp add: registry_inv_def)

theorem remove_channel_exact_witness:
  "lookup_sub (snd (remove_channel_subscriptions_scoped (CommunityId ''A'') ''conn'' ''ch''
     demo_registry)) (''conn'', ''sub'') = None"
proof -
  have "lookup_sub demo_registry (''conn'', ''sub'') =
      Some ([demo_filter], CommunityId ''A'', Some ''ch'')" by code_simp
  then show ?thesis
    by (simp add: remove_channel_exact [OF demo_reachable])
qed

text \<open>
  No index leak: once the last subscription is gone, all five indexes are empty.
\<close>

theorem no_index_leak:
  assumes "registry_reachable r" and "total_subscriptions r = 0"
  shows "r_channel_kind_index r = [] \<and> r_channel_wildcard_index r = [] \<and>
    r_global_kind_index r = [] \<and> r_global_p_kind_index r = [] \<and> r_global_wildcard_index r = []"
proof -
  from assms have inv: "registry_inv r" by (simp add: reachable_inv)
  from no_subs_no_slots [OF inv assms(2)] have e: "slot_get r sl = []" for sl .
  from e [of "ChanKind _"] e [of "ChanWild _"] e [of "GlobKind _"] e [of "GlobP _"]
    e [of "GlobWild _"] inv show ?thesis
    by (simp add: registry_inv_def index_lists_ok_def posting_inv_empty)
qed

theorem no_index_leak_witness:
  "r_channel_kind_index (snd (remove_subscription ''conn'' ''sub'' demo_registry)) = []"
proof -
  have "registry_reachable (snd (remove_subscription ''conn'' ''sub'' demo_registry))"
    by (intro registry_reachable.step [OF demo_reachable] registry_step.remove_sub)
  moreover have "total_subscriptions (snd (remove_subscription ''conn'' ''sub'' demo_registry)) = 0"
    by code_simp
  ultimately show ?thesis by (simp add: no_index_leak)
qed

text \<open>
  \<open>fan_out_scoped\<close> clones the posting lists and re-reads the subscription map for every candidate,
  so other threads may change the registry between two candidates. \<open>push_match_steps\<close> pairs every
  candidate with the registry it is re-read from.
\<close>

definition push_match_steps ::
  "CommunityId \<Rightarrow> stored_event \<Rightarrow> (SubscriptionRegistry \<times> posting) list \<Rightarrow> posting list" where
  "push_match_steps co ev steps = fold (\<lambda>(r, p). push_match co ev r p) steps []"

text \<open>
  A snapshot of candidates may be stale: whatever the candidates are, and whatever
  registry each of them is re-read from, the pairs delivered are exactly the candidates for which
  that registry holds a matching subscription of the event's community and scope, none of them
  twice.
\<close>

theorem stale_snapshot_safe:
  "distinct (push_match_steps co ev steps) \<and>
   set (push_match_steps co ev steps) =
     {p. \<exists>r fs. (r, p) \<in> set steps \<and> lookup_sub r p = Some (fs, co, se_channel_id ev) \<and>
        filters_match fs ev}"
proof -
  have "(distinct acc \<longrightarrow> distinct (fold (\<lambda>(r, p). push_match co ev r p) steps acc)) \<and>
    set (fold (\<lambda>(r, p). push_match co ev r p) steps acc) =
      set acc \<union> {p. \<exists>r. (r, p) \<in> set steps \<and> delivers r co ev p}" for acc
    by (induction steps arbitrary: acc) (auto simp: push_match_delivers split: if_splits)
  then show ?thesis
    by (simp add: push_match_steps_def delivers_def)
qed

text \<open>
  The counters: the per-community counts add up to the total; and a connection whose last
  subscription was closed still counts as a connection, its empty map staying in place.
\<close>

theorem subscription_counters:
  "sum_list (map snd (per_community_subscriptions r)) = total_subscriptions r \<and>
   (let r' = snd (remove_subscription c s (snd (register_scoped co c s fs ch registry_new)))
    in total_subscriptions r' = 0 \<and> total_connections r' = 1)"
proof -
  have "sum_list (map snd (per_community_subscriptions r)) = total_subscriptions r"
    using sum_counts_subs [of "[]"]
    by (simp add: per_community_subscriptions_def total_subscriptions_def)
  moreover have "r_subs (snd (register_scoped co c s fs ch registry_new)) =
      [(c, [(s, fs, co, ch)])]"
    by (simp add: register_scoped_def remove_subscription_def insert_sub_def registry_new_def
        get_or_def)
  then have "r_subs (snd (remove_subscription c s
      (snd (register_scoped co c s fs ch registry_new)))) = [(c, [])]"
    by (simp add: remove_subscription_def Let_def)
  ultimately show ?thesis
    by (simp add: total_subscriptions_def total_connections_def)
qed

text \<open>
  The connections reported for a channel are those with a subscription to it in that
  community, save the subscriptions whose filters all have an empty list of kinds: these are
  in no index.
\<close>

theorem channel_subscribers_exact:
  assumes "registry_reachable r"
  shows "c \<in> set (channel_subscriber_conns_scoped co ch r) \<longleftrightarrow>
    (\<exists>s fs. lookup_sub r (c, s) = Some (fs, co, Some ch) \<and>
       extract_kinds_from_filters fs \<noteq> Some [])"
proof -
  from assms have inv: "registry_inv r" by (simp add: reachable_inv)
  then have "keys_distinct (r_channel_kind_index r)"
    by (simp add: registry_inv_def index_lists_ok_def posting_inv_def)
  note set = set_channel_subscriber_conns [OF this, of c co ch]
  from inv have mem: "p \<in> set (slot_get r sl) \<longleftrightarrow> (\<exists>e. lookup_sub r p = Some e \<and> sl \<in> slots_of e)"
    for p sl unfolding registry_inv_def index_for_def by blast
  have img: "(\<exists>k. ChanKind (co, \<lparr>ik_channel_id = ch, ik_kind = k\<rparr>) \<in>
      (\<lambda>k. ChanKind (co', \<lparr>ik_channel_id = ch', ik_kind = k\<rparr>)) ` set ks) \<longleftrightarrow>
      co' = co \<and> ch' = ch \<and> ks \<noteq> []" for co' ch' ks
    by (cases ks) auto
  have slot: "ChanWild (co, ch) \<in> slots_of (fs, co', ch') \<or>
      (\<exists>k. ChanKind (co, \<lparr>ik_channel_id = ch, ik_kind = k\<rparr>) \<in> slots_of (fs, co', ch')) \<longleftrightarrow>
      co' = co \<and> ch' = Some ch \<and> extract_kinds_from_filters fs \<noteq> Some []" for fs co' ch'
  proof (cases ch')
    case None
    then show ?thesis
      by (auto simp: slots_of_def split: option.split)
  next
    case (Some c')
    show ?thesis
    proof (cases "extract_kinds_from_filters fs")
      case None
      with Some show ?thesis by (auto simp: slots_of_def)
    next
      case (Some ks)
      then have "slots_of (fs, co', ch') =
          (\<lambda>k. ChanKind (co', \<lparr>ik_channel_id = c', ik_kind = k\<rparr>)) ` set ks"
        using \<open>ch' = Some c'\<close> by (simp add: slots_of_def)
      moreover have "ChanWild (co, ch) \<notin> (\<lambda>k. ChanKind (co', \<lparr>ik_channel_id = c', ik_kind = k\<rparr>)) ` set ks"
        by blast
      ultimately show ?thesis
        using Some \<open>ch' = Some c'\<close> img [of co' c' ks] by simp
    qed
  qed
  show ?thesis
  proof -
    have "(\<exists>e. lookup_sub r (c, s) = Some e \<and> ChanWild (co, ch) \<in> slots_of e) \<or>
        (\<exists>k e. lookup_sub r (c, s) = Some e \<and>
           ChanKind (co, \<lparr>ik_channel_id = ch, ik_kind = k\<rparr>) \<in> slots_of e) \<longleftrightarrow>
        (\<exists>fs. lookup_sub r (c, s) = Some (fs, co, Some ch) \<and>
           extract_kinds_from_filters fs \<noteq> Some [])" for s
    proof (cases "lookup_sub r (c, s)")
      case None
      then show ?thesis by simp
    next
      case (Some e)
      obtain fs co' ch' where "e = (fs, co', ch')" by (cases e)
      with Some slot [of fs co' ch'] show ?thesis by auto
    qed
    then show ?thesis
      unfolding set mem by simp
  qed
qed

theorem channel_subscribers_exact_witness:
  "''conn'' \<in> set (channel_subscriber_conns_scoped (CommunityId ''A'') ''ch'' demo_registry)"
proof -
  have "lookup_sub demo_registry (''conn'', ''sub'') =
      Some ([demo_filter], CommunityId ''A'', Some ''ch'')"
    "extract_kinds_from_filters [demo_filter] = Some [9]" by code_simp+
  then show ?thesis
    unfolding channel_subscribers_exact [OF demo_reachable]
    by (intro exI [of _ "''sub''"] exI [of _ "[demo_filter]"]) simp
qed

end
