(* ===== verification/AcpQueue.thy ===== *)
theory AcpQueue
  imports Nostr
begin

text \<open>
  The event queue of the agent harness, \<open>crates/buzz-acp/src/queue.rs\<close>: per-channel queues, at
  most one prompt in flight per channel, retry with backoff, cancelled batches kept for a merged
  prompt, and events withheld while a native steer is in flight. Every \<open>Instant::now()\<close> of the
  source is an argument \<open>now\<close>, in nanoseconds; the logging is left out. Maps are association
  lists and the set of in-flight channels is a list without repetition, whose orders stand for
  the iteration orders of the hash tables.
\<close>

section \<open>Constants and data\<close>

definition MAX_PENDING_PER_CHANNEL :: nat where "MAX_PENDING_PER_CHANNEL = 500"
definition MAX_BATCH_EVENTS :: nat where "MAX_BATCH_EVENTS = 50"
definition MAX_RETRIES :: u32 where "MAX_RETRIES = 10"
definition BASE_RETRY_DELAY_SECS :: u64 where "BASE_RETRY_DELAY_SECS = 5"
definition MAX_RETRY_DELAY_SECS :: u64 where "MAX_RETRY_DELAY_SECS = 300"
definition IN_FLIGHT_DEADLINE_BUFFER_SECS :: nat where "IN_FLIGHT_DEADLINE_BUFFER_SECS = 100"
definition DEFAULT_IN_FLIGHT_DEADLINE_SECS :: nat where "DEFAULT_IN_FLIGHT_DEADLINE_SECS = 7300"

definition from_secs :: "nat \<Rightarrow> nat" where "from_secs s = s * 10 ^ 9"

datatype DedupMode = Drop | Queue

record QueuedEvent =
  qe_channel_id :: uuid
  qe_event :: nostr_event
  qe_received_at :: instant
  qe_prompt_tag :: string

record BatchEvent =
  be_event :: nostr_event
  be_prompt_tag :: string
  be_received_at :: instant

datatype CancelReason = Interrupt | Steer

record FlushBatch =
  fb_channel_id :: uuid
  fb_events :: "BatchEvent list"
  fb_cancelled_events :: "BatchEvent list"
  fb_cancel_reason :: "CancelReason option"

record EventQueue =
  q_queues :: "(uuid \<times> QueuedEvent list) list"
  q_in_flight_channels :: "uuid list"
  q_in_flight_deadlines :: "(uuid \<times> instant) list"
  q_in_flight_batch_sizes :: "(uuid \<times> nat) list"
  q_retry_after :: "(uuid \<times> instant) list"
  q_retry_counts :: "(uuid \<times> u32) list"
  q_dedup_mode :: DedupMode
  q_cancelled_batches :: "(uuid \<times> BatchEvent list) list"
  q_cancel_reasons :: "(uuid \<times> CancelReason) list"
  q_withheld_native_steer :: "(uuid \<times> QueuedEvent list) list"
  q_in_flight_deadline :: nat

definition EventQueue_new :: "DedupMode \<Rightarrow> EventQueue" where
  "EventQueue_new dedup_mode =
     \<lparr>q_queues = [], q_in_flight_channels = [], q_in_flight_deadlines = [],
      q_in_flight_batch_sizes = [], q_retry_after = [], q_retry_counts = [],
      q_dedup_mode = dedup_mode, q_cancelled_batches = [], q_cancel_reasons = [],
      q_withheld_native_steer = [],
      q_in_flight_deadline = from_secs DEFAULT_IN_FLIGHT_DEADLINE_SECS\<rparr>"

definition EventQueue_default :: EventQueue where
  "EventQueue_default = EventQueue_new Drop"

definition with_in_flight_deadline :: "nat \<Rightarrow> EventQueue \<Rightarrow> EventQueue" where
  "with_in_flight_deadline max_turn_duration_secs q =
     q\<lparr>q_in_flight_deadline :=
         from_secs (max_turn_duration_secs + IN_FLIGHT_DEADLINE_BUFFER_SECS)\<rparr>"

definition extend_in_flight_deadline :: "instant \<Rightarrow> uuid \<Rightarrow> nat \<Rightarrow> EventQueue \<Rightarrow> EventQueue" where
  "extend_in_flight_deadline now channel_id max_turn_secs q =
     (case map_of (q_in_flight_deadlines q) channel_id of
        None \<Rightarrow> q
      | Some current \<Rightarrow>
          (let extended = now + from_secs (max_turn_secs + IN_FLIGHT_DEADLINE_BUFFER_SECS)
           in if extended > current
              then q\<lparr>q_in_flight_deadlines :=
                       AList.update channel_id extended (q_in_flight_deadlines q)\<rparr>
              else q))"

section \<open>Pushing\<close>

definition set_queue :: "uuid \<Rightarrow> QueuedEvent list \<Rightarrow> EventQueue \<Rightarrow> EventQueue" where
  "set_queue c xs q = q\<lparr>q_queues := AList.update c xs (q_queues q)\<rparr>"

definition push :: "QueuedEvent \<Rightarrow> EventQueue \<Rightarrow> bool \<times> EventQueue" where
  "push event q =
     (if q_dedup_mode q = Drop \<and> qe_channel_id event \<in> set (q_in_flight_channels q)
      then (False, q)
      else
        (let queue = get_or [] (q_queues q) (qe_channel_id event);
             queue = (if length queue \<ge> MAX_PENDING_PER_CHANNEL then tl queue else queue)
         in (True, set_queue (qe_channel_id event) (queue @ [event]) q)))"

text \<open>
  The shared tail of the operations that push to the front: events in front of the queue, then
  \<open>pop_back\<close> until the cap holds.
\<close>

definition push_front_capped :: "uuid \<Rightarrow> QueuedEvent list \<Rightarrow> EventQueue \<Rightarrow> EventQueue" where
  "push_front_capped c events q =
     set_queue c (take MAX_PENDING_PER_CHANNEL (events @ get_or [] (q_queues q) c)) q"

definition to_queued :: "uuid \<Rightarrow> BatchEvent \<Rightarrow> QueuedEvent" where
  "to_queued c be =
     \<lparr>qe_channel_id = c, qe_event = be_event be, qe_received_at = be_received_at be,
      qe_prompt_tag = be_prompt_tag be\<rparr>"

definition to_batch :: "QueuedEvent \<Rightarrow> BatchEvent" where
  "to_batch qe = \<lparr>be_event = qe_event qe, be_prompt_tag = qe_prompt_tag qe,
     be_received_at = qe_received_at qe\<rparr>"

section \<open>Expiry of stuck in-flight entries\<close>

definition recover_withheld_for_expired_channel :: "uuid \<Rightarrow> EventQueue \<Rightarrow> EventQueue" where
  "recover_withheld_for_expired_channel channel_id q =
     (case map_of (q_withheld_native_steer q) channel_id of
        None \<Rightarrow> q
      | Some entries \<Rightarrow>
          push_front_capped channel_id entries
            (q\<lparr>q_withheld_native_steer := AList.delete channel_id (q_withheld_native_steer q)\<rparr>))"

definition expire_one :: "uuid \<Rightarrow> EventQueue \<Rightarrow> EventQueue" where
  "expire_one ch q =
     recover_withheld_for_expired_channel ch
       (q\<lparr>q_in_flight_batch_sizes := AList.delete ch (q_in_flight_batch_sizes q),
          q_in_flight_channels := removeAll ch (q_in_flight_channels q),
          q_in_flight_deadlines := AList.delete ch (q_in_flight_deadlines q)\<rparr>)"

definition expire_in_flight :: "instant \<Rightarrow> EventQueue \<Rightarrow> EventQueue" where
  "expire_in_flight now q =
     fold expire_one
       (map fst (filter (\<lambda>(_, deadline). now \<ge> deadline) (q_in_flight_deadlines q))) q"

section \<open>Flushing\<close>

text \<open>The channels \<open>flush_next\<close> and \<open>has_flushable_work\<close> may pick from the queues.\<close>

definition flushable :: "instant \<Rightarrow> EventQueue \<Rightarrow> uuid \<times> QueuedEvent list \<Rightarrow> bool" where
  "flushable now q entry =
     (snd entry \<noteq> [] \<and> fst entry \<notin> set (q_in_flight_channels q) \<and>
      (case map_of (q_retry_after q) (fst entry) of None \<Rightarrow> True | Some t \<Rightarrow> t \<le> now))"

text \<open>\<open>Iterator::min_by_key\<close>: the first of the elements with the least key.\<close>

fun min_by_key :: "('a \<Rightarrow> nat) \<Rightarrow> 'a list \<Rightarrow> 'a option" where
  "min_by_key f [] = None"
| "min_by_key f (x # xs) =
     (case min_by_key f xs of
        None \<Rightarrow> Some x
      | Some y \<Rightarrow> if f x \<le> f y then Some x else Some y)"

definition mark_in_flight :: "instant \<Rightarrow> uuid \<Rightarrow> nat \<Rightarrow> EventQueue \<Rightarrow> EventQueue" where
  "mark_in_flight now ch n q =
     q\<lparr>q_in_flight_channels := List.insert ch (q_in_flight_channels q),
       q_in_flight_deadlines :=
         AList.update ch (now + q_in_flight_deadline q) (q_in_flight_deadlines q),
       q_in_flight_batch_sizes := AList.update ch n (q_in_flight_batch_sizes q)\<rparr>"

definition flush_cancelled :: "instant \<Rightarrow> EventQueue \<Rightarrow> FlushBatch option \<times> EventQueue" where
  "flush_cancelled now q =
     (case List.find (\<lambda>ch. ch \<notin> set (q_in_flight_channels q)) (map fst (q_cancelled_batches q)) of
        None \<Rightarrow> (None, q)
      | Some ch \<Rightarrow>
          (let cancelled = get_or [] (q_cancelled_batches q) ch;
               cancel_reason = map_of (q_cancel_reasons q) ch
           in (Some \<lparr>fb_channel_id = ch, fb_events = cancelled, fb_cancelled_events = [],
                 fb_cancel_reason = cancel_reason\<rparr>,
               mark_in_flight now ch (length cancelled)
                 (q\<lparr>q_cancelled_batches := AList.delete ch (q_cancelled_batches q),
                    q_cancel_reasons := AList.delete ch (q_cancel_reasons q)\<rparr>))))"

definition flush_channel :: "instant \<Rightarrow> uuid \<Rightarrow> EventQueue \<Rightarrow> FlushBatch \<times> EventQueue" where
  "flush_channel now channel_id q =
     (let queue = get_or [] (q_queues q) channel_id;
          drain_count = min MAX_BATCH_EVENTS (length queue);
          events = sort_key (\<lambda>be. ev_created_at (be_event be))
                     (map to_batch (take drain_count queue));
          rest = drop drain_count queue;
          q1 = (if rest = [] then q\<lparr>q_queues := AList.delete channel_id (q_queues q)\<rparr>
                else set_queue channel_id rest q);
          q2 = mark_in_flight now channel_id (length events) q1;
          cancelled_events = get_or [] (q_cancelled_batches q2) channel_id;
          cancel_reason = (if cancelled_events = [] then None
                           else map_of (q_cancel_reasons q2) channel_id)
      in (\<lparr>fb_channel_id = channel_id, fb_events = events,
           fb_cancelled_events = cancelled_events, fb_cancel_reason = cancel_reason\<rparr>,
          q2\<lparr>q_cancelled_batches := AList.delete channel_id (q_cancelled_batches q2),
             q_cancel_reasons := AList.delete channel_id (q_cancel_reasons q2)\<rparr>))"

definition head_received_at :: "uuid \<times> QueuedEvent list \<Rightarrow> instant" where
  "head_received_at entry = qe_received_at (hd (snd entry))"

definition flush_next :: "instant \<Rightarrow> EventQueue \<Rightarrow> FlushBatch option \<times> EventQueue" where
  "flush_next now q0 =
     (let q = expire_in_flight now q0 in
      case min_by_key head_received_at (filter (flushable now q) (q_queues q)) of
        None \<Rightarrow> flush_cancelled now q
      | Some entry \<Rightarrow>
          (let (batch, q') = flush_channel now (fst entry) q in (Some batch, q')))"

definition has_flushable_work :: "instant \<Rightarrow> EventQueue \<Rightarrow> bool \<times> EventQueue" where
  "has_flushable_work now q0 =
     (let q = expire_in_flight now q0 in
      (list_ex (flushable now q) (q_queues q) \<or>
       list_ex (\<lambda>ch. ch \<notin> set (q_in_flight_channels q)) (map fst (q_cancelled_batches q)), q))"

section \<open>Completion, retry and cancellation\<close>

definition mark_complete :: "instant \<Rightarrow> uuid \<Rightarrow> EventQueue \<Rightarrow> EventQueue" where
  "mark_complete now channel_id q0 =
     (let q = q0\<lparr>q_in_flight_channels := removeAll channel_id (q_in_flight_channels q0),
          q_in_flight_deadlines := AList.delete channel_id (q_in_flight_deadlines q0),
          q_in_flight_batch_sizes := AList.delete channel_id (q_in_flight_batch_sizes q0)\<rparr>
      in case map_of (q_retry_after q) channel_id of
           Some deadline \<Rightarrow>
             if deadline > now then q
             else q\<lparr>q_retry_after := AList.delete channel_id (q_retry_after q),
                    q_retry_counts := AList.delete channel_id (q_retry_counts q)\<rparr>
         | None \<Rightarrow> q\<lparr>q_retry_counts := AList.delete channel_id (q_retry_counts q)\<rparr>)"

definition saturating_mul :: "u64 \<Rightarrow> u64 \<Rightarrow> u64" where
  "saturating_mul a b =
     (if unat a * unat b < 2 ^ 64 then a * b else 18446744073709551615)"

text \<open>
  The capped exponential backoff in seconds, and the delay in nanoseconds: the \<open>f64\<close> product of
  the seconds with \<open>0.8 + (nanos / u32::MAX) * 0.4\<close>, here the exact rational rounded to the
  nearest nanosecond.
\<close>

definition capped_secs :: "u32 \<Rightarrow> u64" where
  "capped_secs attempt =
     (let base_secs = saturating_mul BASE_RETRY_DELAY_SECS
            (push_bit (unat (min (attempt - 1) 6)) 1)
      in min base_secs MAX_RETRY_DELAY_SECS)"

definition retry_delay :: "u32 \<Rightarrow> u32 \<Rightarrow> nat" where
  "retry_delay attempt nanos =
     (let num = unat (capped_secs attempt) * 10 ^ 9 * (4 * 4294967295 + 2 * unat nanos);
          den = 5 * 4294967295
      in (2 * num + den) div (2 * den))"

definition requeue ::
  "instant \<Rightarrow> u32 \<Rightarrow> FlushBatch \<Rightarrow> EventQueue \<Rightarrow> FlushBatch option \<times> EventQueue" where
  "requeue now nanos batch q =
     (let channel_id = fb_channel_id batch;
          attempt = get_or 0 (q_retry_counts q) channel_id + 1;
          q1 = q\<lparr>q_retry_counts := AList.update channel_id attempt (q_retry_counts q)\<rparr>
      in if attempt > MAX_RETRIES
         then (Some batch,
               q1\<lparr>q_retry_counts := AList.delete channel_id (q_retry_counts q1),
                  q_retry_after := AList.delete channel_id (q_retry_after q1)\<rparr>)
         else
           (let q2 = push_front_capped channel_id (map (to_queued channel_id) (fb_events batch)) q1
            in (None,
                q2\<lparr>q_retry_after :=
                     AList.update channel_id (now + retry_delay attempt nanos) (q_retry_after q2)\<rparr>)))"

definition requeue_preserve_timestamps :: "FlushBatch \<Rightarrow> EventQueue \<Rightarrow> EventQueue" where
  "requeue_preserve_timestamps batch q =
     push_front_capped (fb_channel_id batch)
       (map (to_queued (fb_channel_id batch)) (fb_events batch)) q"

definition requeue_as_cancelled :: "FlushBatch \<Rightarrow> CancelReason \<Rightarrow> EventQueue \<Rightarrow> EventQueue" where
  "requeue_as_cancelled batch reason q =
     (let entry = get_or [] (q_cancelled_batches q) (fb_channel_id batch);
          entry = entry @ fb_cancelled_events batch;
          entry = entry @ fb_events batch
      in q\<lparr>q_cancelled_batches := AList.update (fb_channel_id batch) entry (q_cancelled_batches q),
           q_cancel_reasons := AList.update (fb_channel_id batch) reason (q_cancel_reasons q)\<rparr>)"

definition pending_channels :: "EventQueue \<Rightarrow> nat" where
  "pending_channels q = length (q_queues q)"

definition drain_channel :: "uuid \<Rightarrow> EventQueue \<Rightarrow> event_id list \<times> EventQueue" where
  "drain_channel channel_id q =
     (map (\<lambda>e. ev_id (qe_event e)) (get_or [] (q_queues q) channel_id),
      q\<lparr>q_queues := AList.delete channel_id (q_queues q),
        q_retry_after := AList.delete channel_id (q_retry_after q),
        q_retry_counts := AList.delete channel_id (q_retry_counts q),
        q_cancelled_batches := AList.delete channel_id (q_cancelled_batches q),
        q_cancel_reasons := AList.delete channel_id (q_cancel_reasons q),
        q_withheld_native_steer := AList.delete channel_id (q_withheld_native_steer q)\<rparr>)"

definition is_channel_in_flight :: "uuid \<Rightarrow> EventQueue \<Rightarrow> bool" where
  "is_channel_in_flight channel_id q \<longleftrightarrow> channel_id \<in> set (q_in_flight_channels q)"

section \<open>Native steer: withholding one event\<close>

text \<open>\<open>iter().position(..)\<close> and the removal at that position.\<close>

fun take_first :: "('a \<Rightarrow> bool) \<Rightarrow> 'a list \<Rightarrow> ('a \<times> 'a list) option" where
  "take_first P [] = None"
| "take_first P (x # xs) =
     (if P x then Some (x, xs) else map_option (\<lambda>(y, ys). (y, x # ys)) (take_first P xs))"

definition has_id :: "event_id \<Rightarrow> QueuedEvent \<Rightarrow> bool" where
  "has_id event_id qe \<longleftrightarrow> ev_id (qe_event qe) = event_id"

text \<open>Write a list back, removing the entry of the map when the list became empty.\<close>

definition update_or_remove :: "'k \<Rightarrow> 'v list \<Rightarrow> ('k \<times> 'v list) list \<Rightarrow> ('k \<times> 'v list) list" where
  "update_or_remove k xs m = (if xs = [] then AList.delete k m else AList.update k xs m)"

definition mark_native_steer_pending ::
  "uuid \<Rightarrow> event_id \<Rightarrow> EventQueue \<Rightarrow> bool \<times> EventQueue" where
  "mark_native_steer_pending channel_id event_id q =
     (case map_of (q_queues q) channel_id of
        None \<Rightarrow> (False, q)
      | Some queue \<Rightarrow>
          (case take_first (has_id event_id) queue of
             None \<Rightarrow> (False, q)
           | Some (qe, rest) \<Rightarrow>
               (True, q\<lparr>q_queues := update_or_remove channel_id rest (q_queues q),
                  q_withheld_native_steer := AList.update channel_id
                    (get_or [] (q_withheld_native_steer q) channel_id @ [qe])
                    (q_withheld_native_steer q)\<rparr>)))"

definition release_native_steer :: "uuid \<Rightarrow> event_id \<Rightarrow> EventQueue \<Rightarrow> EventQueue" where
  "release_native_steer channel_id event_id q =
     (case map_of (q_withheld_native_steer q) channel_id of
        None \<Rightarrow> q
      | Some entries \<Rightarrow>
          (case take_first (has_id event_id) entries of
             None \<Rightarrow> q
           | Some (qe, rest) \<Rightarrow>
               push_front_capped channel_id [qe]
                 (q\<lparr>q_withheld_native_steer :=
                      update_or_remove channel_id rest (q_withheld_native_steer q)\<rparr>)))"

definition remove_matching ::
  "event_id \<Rightarrow> uuid \<Rightarrow> (uuid \<times> QueuedEvent list) list \<Rightarrow> (uuid \<times> QueuedEvent list) list" where
  "remove_matching event_id channel_id m =
     (case map_of m channel_id of
        None \<Rightarrow> m
      | Some entries \<Rightarrow>
          update_or_remove channel_id (filter (\<lambda>qe. \<not> has_id event_id qe) entries) m)"

definition remove_event :: "uuid \<Rightarrow> event_id \<Rightarrow> EventQueue \<Rightarrow> EventQueue" where
  "remove_event channel_id event_id q =
     q\<lparr>q_withheld_native_steer := remove_matching event_id channel_id (q_withheld_native_steer q),
       q_queues := remove_matching event_id channel_id (q_queues q)\<rparr>"

definition compact_expired_state :: "instant \<Rightarrow> EventQueue \<Rightarrow> EventQueue" where
  "compact_expired_state now q0 =
     (let q = q0\<lparr>q_retry_after := filter (\<lambda>(_, deadline). deadline > now) (q_retry_after q0)\<rparr>
      in q\<lparr>q_retry_counts := filter (\<lambda>(ch, _).
             map_of (q_retry_after q) ch \<noteq> None \<or>
             (case map_of (q_queues q) ch of None \<Rightarrow> False | Some queue \<Rightarrow> queue \<noteq> []) \<or>
             ch \<in> set (q_in_flight_channels q)) (q_retry_counts q)\<rparr>)"

section \<open>Thread tags\<close>

record ThreadTags =
  tt_root_event_id :: "event_id option"
  tt_parent_event_id :: "event_id option"
  tt_mentioned_pubkeys :: "string list"

fun thread_tags_loop ::
  "nostr_tag list \<Rightarrow> string option \<Rightarrow> string option \<Rightarrow> string list
     \<Rightarrow> string option \<times> string option \<times> string list" where
  "thread_tags_loop [] root reply mentions = (root, reply, mentions)"
| "thread_tags_loop (tag # tags) root reply mentions =
     (let parts = tag_slice tag in
      if parts \<noteq> [] \<and> hd parts = ''e'' \<and> length parts \<ge> 4 then
        (if parts ! 3 = ''root'' then thread_tags_loop tags (Some (parts ! 1)) reply mentions
         else if parts ! 3 = ''reply'' then thread_tags_loop tags root (Some (parts ! 1)) mentions
         else thread_tags_loop tags root reply mentions)
      else if parts \<noteq> [] \<and> hd parts = ''p'' \<and> length parts \<ge> 2 then
        thread_tags_loop tags root reply (mentions @ [parts ! 1])
      else thread_tags_loop tags root reply mentions)"

definition parse_thread_tags :: "nostr_event \<Rightarrow> ThreadTags" where
  "parse_thread_tags event =
     (let (root, reply, mentions) = thread_tags_loop (ev_tags event) None None [];
          (r, p) = (case (root, reply) of
             (Some r, Some p) \<Rightarrow> (Some r, Some p)
           | (Some r, None) \<Rightarrow> (Some r, Some r)
           | (None, Some p) \<Rightarrow> (Some p, Some p)
           | (None, None) \<Rightarrow> (None, None))
      in \<lparr>tt_root_event_id = r, tt_parent_event_id = p, tt_mentioned_pubkeys = mentions\<rparr>)"

end
