(* ===== verification/KeyedLists.thy ===== *)
theory KeyedLists
  imports Prelude
begin

text \<open>
  Maps from keys to lists of values, with the multiset of all the values they hold. The
  conservation arguments of the queues rest on two laws, stated by the locale: replacing the
  list of a key exchanges its values, and removing the key takes them out.
\<close>

definition bag_of :: "('k \<times> 'v list) list \<Rightarrow> 'v multiset" where
  "bag_of m = mset (concat (map snd m))"

locale keyed_lists =
  fixes get :: "'m \<Rightarrow> 'k \<Rightarrow> 'v list"
    and upd :: "'k \<Rightarrow> 'v list \<Rightarrow> 'm \<Rightarrow> 'm"
    and del :: "'k \<Rightarrow> 'm \<Rightarrow> 'm"
    and bag :: "'m \<Rightarrow> 'v multiset"
    and ok :: "'m \<Rightarrow> bool"
  assumes bag_upd: "ok m \<Longrightarrow> bag (upd k v m) + mset (get m k) = bag m + mset v"
    and bag_del: "ok m \<Longrightarrow> bag (del k m) + mset (get m k) = bag m"
begin

lemma bag_append: "ok m \<Longrightarrow> bag (upd k (get m k @ xs) m) = bag m + mset xs"
  using bag_upd [of m k "get m k @ xs"] by (simp add: ac_simps)

lemma bag_prepend: "ok m \<Longrightarrow> bag (upd k (xs @ get m k) m) = bag m + mset xs"
  using bag_upd [of m k "xs @ get m k"] by (simp add: ac_simps)

lemma bag_prepend_take: "ok m \<Longrightarrow> bag (upd k (take n (xs @ get m k)) m) \<subseteq># bag m + mset xs"
proof -
  assume ok: "ok m"
  have "mset (take n (xs @ get m k)) \<subseteq># mset (xs @ get m k)"
    by (metis append_take_drop_id mset_append mset_subset_eq_add_left)
  then have "bag m + mset (take n (xs @ get m k)) \<subseteq># bag m + mset (xs @ get m k)"
    by simp
  with bag_upd [OF ok, of k "take n (xs @ get m k)"]
  have "bag (upd k (take n (xs @ get m k)) m) + mset (get m k)
      \<subseteq># (bag m + mset xs) + mset (get m k)"
    by (simp add: ac_simps)
  then show ?thesis by simp
qed

lemma bag_drop: "ok m \<Longrightarrow> bag (upd k (drop n (get m k)) m) + mset (take n (get m k)) = bag m"
proof -
  assume ok: "ok m"
  have "mset (get m k) = mset (take n (get m k)) + mset (drop n (get m k))"
    by (metis append_take_drop_id mset_append)
  with bag_upd [OF ok, of k "drop n (get m k)"] show ?thesis
    by (simp add: ac_simps)
qed

lemma bag_get: "ok m \<Longrightarrow> mset (get m k) \<subseteq># bag m"
  using bag_del [of m k] by (metis mset_subset_eq_add_right)

end

lemma bag_of_Cons: "bag_of (x # m) = mset (snd x) + bag_of m"
  by (simp add: bag_of_def)

lemma get_or_notin: "k \<notin> fst ` set m \<Longrightarrow> get_or d m k = d"
  by (simp add: get_or_def map_of_eq_None_iff [symmetric] split: option.split)

lemma get_or_Cons: "get_or d (x # m) k = (if fst x = k then snd x else get_or d m k)"
  by (cases x) (simp add: get_or_def)

lemma bag_of_update:
  "keys_distinct m \<Longrightarrow> bag_of (AList.update k v m) + mset (get_or [] m k) = bag_of m + mset v"
proof (induction m)
  case Nil
  then show ?case by (simp add: bag_of_def get_or_def)
next
  case (Cons x m)
  then show ?case
    by (cases x) (auto simp: bag_of_Cons get_or_Cons ac_simps)
qed

lemma bag_of_delete: "keys_distinct m \<Longrightarrow> bag_of (AList.delete k m) + mset (get_or [] m k) = bag_of m"
proof (induction m)
  case Nil
  then show ?case by (simp add: bag_of_def get_or_def)
next
  case (Cons x m)
  then show ?case
    by (cases x) (auto simp: bag_of_Cons get_or_Cons get_or_notin ac_simps)
qed

interpretation keyed: keyed_lists "get_or []" AList.update AList.delete bag_of keys_distinct
  by unfold_locales (simp_all add: bag_of_update bag_of_delete)

end
