(* ===== verification/AcpQueueProps.thy ===== *)
theory AcpQueueProps
  imports AcpQueue KeyedLists
begin

text \<open>
  Correctness of the agent harness's event queue: the structural invariant of every reachable
  state, what a flush returns, conservation of the pending events, the retry discipline, and
  the withholding of steered events.
\<close>

section \<open>The invariant\<close>

definition maps_ok :: "EventQueue \<Rightarrow> bool" where
  "maps_ok q \<longleftrightarrow>
     keys_distinct (q_queues q) \<and> keys_distinct (q_in_flight_deadlines q) \<and>
     keys_distinct (q_in_flight_batch_sizes q) \<and> keys_distinct (q_retry_after q) \<and>
     keys_distinct (q_retry_counts q) \<and> keys_distinct (q_cancelled_batches q) \<and>
     keys_distinct (q_cancel_reasons q) \<and> keys_distinct (q_withheld_native_steer q) \<and>
     distinct (q_in_flight_channels q)"

definition in_flight_ok :: "EventQueue \<Rightarrow> bool" where
  "in_flight_ok q \<longleftrightarrow>
     (\<forall>c. has_key (q_in_flight_deadlines q) c = (c \<in> set (q_in_flight_channels q)) \<and>
          has_key (q_in_flight_batch_sizes q) c = (c \<in> set (q_in_flight_channels q)))"

definition queues_ok :: "EventQueue \<Rightarrow> bool" where
  "queues_ok q \<longleftrightarrow>
     (\<forall>c. length (get_or [] (q_queues q) c) \<le> MAX_PENDING_PER_CHANNEL \<and>
          (\<forall>e\<in>set (get_or [] (q_queues q) c). qe_channel_id e = c) \<and>
          (\<forall>e\<in>set (get_or [] (q_withheld_native_steer q) c). qe_channel_id e = c))"

definition retries_ok :: "EventQueue \<Rightarrow> bool" where
  "retries_ok q \<longleftrightarrow> (\<forall>c. get_or 0 (q_retry_counts q) c \<le> MAX_RETRIES)"

definition queue_inv :: "EventQueue \<Rightarrow> bool" where
  "queue_inv q \<longleftrightarrow> maps_ok q \<and> in_flight_ok q \<and> queues_ok q \<and> retries_ok q"

lemmas inv_defs = queue_inv_def maps_ok_def in_flight_ok_def queues_ok_def retries_ok_def

lemma queue_inv_new: "queue_inv (EventQueue_new m)"
  by (simp add: inv_defs EventQueue_new_def get_or_def)

lemma keys_distinct_filter [simp]: "keys_distinct m \<Longrightarrow> keys_distinct (filter P m)"
  by (rule distinct_map_filter)

lemma keys_distinct_update_or_remove [simp]:
  "keys_distinct m \<Longrightarrow> keys_distinct (update_or_remove k xs m)"
  by (simp add: update_or_remove_def)

lemma get_or_update_or_remove [simp, hm_simps]:
  "get_or [] (update_or_remove k xs m) k' = (if k' = k then xs else get_or [] m k')"
  by (simp add: update_or_remove_def)

lemma get_or_map_of [simp]: "map_of m k = Some v \<Longrightarrow> get_or d m k = v"
  by (simp add: get_or_def del: map_of_eq_Some_iff)

lemma take_first_Some:
  "take_first P xs = Some (y, ys) \<Longrightarrow>
     \<exists>us vs. xs = us @ y # vs \<and> ys = us @ vs \<and> P y \<and> (\<forall>u\<in>set us. \<not> P u)"
proof (induction xs arbitrary: ys)
  case (Cons x xs)
  show ?case
  proof (cases "P x")
    case True
    with Cons.prems show ?thesis
      by - (rule exI [of _ "[]"], rule exI [of _ ys], simp)
  next
    case False
    with Cons.prems obtain zs where zs: "take_first P xs = Some (y, zs)" "ys = x # zs"
      by (auto split: if_splits)
    from Cons.IH [OF zs(1)] obtain us vs
      where "xs = us @ y # vs" "zs = us @ vs" "P y" "\<forall>u\<in>set us. \<not> P u" by blast
    with False zs(2) show ?thesis
      by - (rule exI [of _ "x # us"], rule exI [of _ vs], simp)
  qed
qed simp

lemma take_first_None: "take_first P xs = None \<longleftrightarrow> (\<forall>x\<in>set xs. \<not> P x)"
  by (induction xs) auto

section \<open>Preservation\<close>

lemma inv_set_queue:
  "queue_inv q \<Longrightarrow> length xs \<le> MAX_PENDING_PER_CHANNEL \<Longrightarrow> \<forall>e\<in>set xs. qe_channel_id e = c \<Longrightarrow>
     queue_inv (set_queue c xs q)"
  by (auto simp: inv_defs set_queue_def)

lemma inv_queue:
  assumes "queue_inv q"
  shows "length (get_or [] (q_queues q) c) \<le> MAX_PENDING_PER_CHANNEL"
    and "\<forall>e\<in>set (get_or [] (q_queues q) c). qe_channel_id e = c"
    and "\<forall>e\<in>set (get_or [] (q_withheld_native_steer q) c). qe_channel_id e = c"
  using assms by (auto simp: inv_defs)

lemma inv_push_front_capped:
  "queue_inv q \<Longrightarrow> \<forall>e\<in>set es. qe_channel_id e = c \<Longrightarrow> queue_inv (push_front_capped c es q)"
  unfolding push_front_capped_def
  by (intro inv_set_queue) (auto dest!: in_set_takeD simp: inv_queue)

lemma inv_push: "queue_inv q \<Longrightarrow> queue_inv (snd (push e q))"
proof -
  assume inv: "queue_inv q"
  let ?xs = "get_or [] (q_queues q) (qe_channel_id e)"
  let ?ys = "if length ?xs \<ge> MAX_PENDING_PER_CHANNEL then tl ?xs else ?xs"
  have "set ?ys \<subseteq> set ?xs" by (cases ?xs) auto
  moreover have "length ?ys < MAX_PENDING_PER_CHANNEL"
    using inv_queue(1) [OF inv, of "qe_channel_id e"]
    by (auto simp: MAX_PENDING_PER_CHANNEL_def)
  ultimately have "queue_inv (set_queue (qe_channel_id e) (?ys @ [e]) q)"
    using inv_queue(2) [OF inv] by (intro inv_set_queue [OF inv]) auto
  with inv show ?thesis by (auto simp: push_def Let_def)
qed

lemma inv_recover: "queue_inv q \<Longrightarrow> queue_inv (recover_withheld_for_expired_channel c q)"
proof (cases "map_of (q_withheld_native_steer q) c")
  case (Some es)
  assume inv: "queue_inv q"
  from get_or_map_of [OF Some, of "[]"] inv have "\<forall>e\<in>set es. qe_channel_id e = c"
    unfolding inv_defs by metis
  moreover from inv have
    "queue_inv (q\<lparr>q_withheld_native_steer := AList.delete c (q_withheld_native_steer q)\<rparr>)"
    by (simp add: inv_defs)
  ultimately show ?thesis
    using Some by (simp add: recover_withheld_for_expired_channel_def inv_push_front_capped)
qed (simp add: recover_withheld_for_expired_channel_def)

lemma inv_release_slot:
  "queue_inv q \<Longrightarrow> queue_inv (q\<lparr>q_in_flight_batch_sizes := AList.delete c (q_in_flight_batch_sizes q),
          q_in_flight_channels := removeAll c (q_in_flight_channels q),
          q_in_flight_deadlines := AList.delete c (q_in_flight_deadlines q)\<rparr>)"
  by (auto simp: inv_defs distinct_removeAll)

lemma inv_if: "queue_inv a \<Longrightarrow> queue_inv b \<Longrightarrow> queue_inv (if p then a else b)"
  by simp

lemma inv_expire_one: "queue_inv q \<Longrightarrow> queue_inv (expire_one c q)"
  unfolding expire_one_def by (intro inv_recover inv_release_slot)

lemma inv_fold_expire: "queue_inv q \<Longrightarrow> queue_inv (fold expire_one cs q)"
  by (induction cs arbitrary: q) (simp_all add: inv_expire_one)

lemma inv_expire: "queue_inv q \<Longrightarrow> queue_inv (expire_in_flight now q)"
  by (simp add: expire_in_flight_def inv_fold_expire)

lemma inv_mark_in_flight: "queue_inv q \<Longrightarrow> queue_inv (mark_in_flight now c n q)"
  by (simp add: inv_defs mark_in_flight_def)

lemma inv_drop_cancelled:
  "queue_inv q \<Longrightarrow> queue_inv (q\<lparr>q_cancelled_batches := AList.delete c (q_cancelled_batches q),
             q_cancel_reasons := AList.delete c (q_cancel_reasons q)\<rparr>)"
  by (simp add: inv_defs)

lemma inv_flush_cancelled: "queue_inv q \<Longrightarrow> queue_inv (snd (flush_cancelled now q))"
  by (auto simp: flush_cancelled_def Let_def split: option.split
      intro!: inv_mark_in_flight inv_drop_cancelled)

lemma inv_flush_channel: "queue_inv q \<Longrightarrow> queue_inv (snd (flush_channel now c q))"
proof -
  assume inv: "queue_inv q"
  let ?rest = "drop (min MAX_BATCH_EVENTS (length (get_or [] (q_queues q) c)))
      (get_or [] (q_queues q) c)"
  have "queue_inv (if ?rest = [] then q\<lparr>q_queues := AList.delete c (q_queues q)\<rparr>
      else set_queue c ?rest q)"
  proof -
    have "queue_inv (q\<lparr>q_queues := AList.delete c (q_queues q)\<rparr>)"
      using inv by (simp add: inv_defs)
    moreover have "queue_inv (set_queue c ?rest q)"
      using inv_queue(1,2) [OF inv, of c]
      by (intro inv_set_queue [OF inv]) (auto dest!: in_set_dropD)
    ultimately show ?thesis by (rule inv_if)
  qed
  then show ?thesis
    by (simp add: flush_channel_def Let_def inv_drop_cancelled inv_mark_in_flight
        del: drop_eq_Nil)
qed

lemma inv_flush: "queue_inv q \<Longrightarrow> queue_inv (snd (flush_next now q))"
  by (auto simp: flush_next_def Let_def case_prod_beta inv_flush_cancelled inv_flush_channel
      inv_expire split: option.split)

lemma inv_mark_complete: "queue_inv q \<Longrightarrow> queue_inv (mark_complete now c q)"
  by (auto simp: inv_defs mark_complete_def Let_def distinct_removeAll split: option.split)

lemma inv_requeue: "queue_inv q \<Longrightarrow> queue_inv (snd (requeue now n b q))"
proof -
  assume inv: "queue_inv q"
  let ?c = "fb_channel_id b"
  let ?attempt = "get_or 0 (q_retry_counts q) ?c + 1"
  let ?q1 = "q\<lparr>q_retry_counts := AList.update ?c ?attempt (q_retry_counts q)\<rparr>"
  show ?thesis
  proof (cases "?attempt > MAX_RETRIES")
    case True
    with inv show ?thesis
      by (simp add: requeue_def Let_def inv_defs)
  next
    case False
    with inv have "queue_inv ?q1" by (auto simp: inv_defs)
    then have "queue_inv (push_front_capped ?c (map (to_queued ?c) (fb_events b)) ?q1)"
      by (rule inv_push_front_capped) (simp add: to_queued_def)
    with False show ?thesis
      by (simp add: requeue_def Let_def inv_defs)
  qed
qed

lemma inv_requeue_preserve: "queue_inv q \<Longrightarrow> queue_inv (requeue_preserve_timestamps b q)"
  unfolding requeue_preserve_timestamps_def
  by (rule inv_push_front_capped) (auto simp: to_queued_def)

lemma inv_requeue_cancelled: "queue_inv q \<Longrightarrow> queue_inv (requeue_as_cancelled b r q)"
  by (simp add: inv_defs requeue_as_cancelled_def Let_def)

lemma inv_drain: "queue_inv q \<Longrightarrow> queue_inv (snd (drain_channel c q))"
  by (simp add: inv_defs drain_channel_def MAX_RETRIES_def)

lemma inv_extend: "queue_inv q \<Longrightarrow> queue_inv (extend_in_flight_deadline now c s q)"
proof (cases "map_of (q_in_flight_deadlines q) c")
  case (Some t)
  then have "has_key (q_in_flight_deadlines q) c" by (simp add: has_key_def)
  then show "queue_inv q \<Longrightarrow> ?thesis"
    using Some by (auto simp: inv_defs extend_in_flight_deadline_def Let_def)
qed (simp add: extend_in_flight_deadline_def)

lemma inv_mark_steer: "queue_inv q \<Longrightarrow> queue_inv (snd (mark_native_steer_pending c i q))"
proof (cases "map_of (q_queues q) c")
  case (Some es)
  assume inv: "queue_inv q"
  show ?thesis
  proof (cases "take_first (has_id i) es")
    case None
    with Some inv show ?thesis by (simp add: mark_native_steer_pending_def)
  next
    case (Some p)
    obtain e rest where p: "p = (e, rest)" by (cases p)
    with Some obtain us vs where *: "es = us @ e # vs" "rest = us @ vs"
      by (auto dest: take_first_Some)
    have es: "get_or [] (q_queues q) c = es"
      using \<open>map_of (q_queues q) c = Some es\<close> by (rule get_or_map_of)
    then have "length es \<le> MAX_PENDING_PER_CHANNEL" "\<forall>e\<in>set es. qe_channel_id e = c"
      using inv unfolding inv_defs by metis+
    with * inv Some p \<open>map_of (q_queues q) c = Some es\<close> show ?thesis
      by (auto simp: inv_defs mark_native_steer_pending_def)
  qed
qed (simp add: mark_native_steer_pending_def)

lemma inv_release_steer: "queue_inv q \<Longrightarrow> queue_inv (release_native_steer c i q)"
proof (cases "map_of (q_withheld_native_steer q) c")
  case (Some es)
  assume inv: "queue_inv q"
  show ?thesis
  proof (cases "take_first (has_id i) es")
    case None
    with Some inv show ?thesis by (simp add: release_native_steer_def)
  next
    case (Some p)
    obtain e rest where p: "p = (e, rest)" by (cases p)
    with Some obtain us vs where *: "es = us @ e # vs" "rest = us @ vs"
      by (auto dest: take_first_Some)
    have "get_or [] (q_withheld_native_steer q) c = es"
      using \<open>map_of (q_withheld_native_steer q) c = Some es\<close> by (rule get_or_map_of)
    then have ch: "\<forall>e\<in>set es. qe_channel_id e = c"
      using inv unfolding inv_defs by metis
    with * inv have "queue_inv (q\<lparr>q_withheld_native_steer :=
        update_or_remove c rest (q_withheld_native_steer q)\<rparr>)"
      by (auto simp: inv_defs)
    then have "queue_inv (push_front_capped c [e] (q\<lparr>q_withheld_native_steer :=
        update_or_remove c rest (q_withheld_native_steer q)\<rparr>))"
      by (rule inv_push_front_capped) (use ch * in simp)
    with Some p \<open>map_of (q_withheld_native_steer q) c = Some es\<close> show ?thesis
      by (simp add: release_native_steer_def)
  qed
qed (simp add: release_native_steer_def)

lemma get_or_remove_matching [simp]:
  "get_or [] (remove_matching i c m) c' =
     (if c' = c then filter (\<lambda>e. \<not> has_id i e) (get_or [] m c) else get_or [] m c')"
  by (cases "map_of m c") (auto simp: remove_matching_def get_or_def update_or_remove_def
      simp del: map_of_eq_Some_iff)

lemma keys_distinct_remove_matching [simp]:
  "keys_distinct m \<Longrightarrow> keys_distinct (remove_matching i c m)"
  by (simp add: remove_matching_def split: option.split)

lemma inv_remove_event: "queue_inv q \<Longrightarrow> queue_inv (remove_event c i q)"
  by (auto simp: inv_defs remove_event_def intro: order_trans [OF length_filter_le])

lemma get_or_filter:
  "keys_distinct m \<Longrightarrow> get_or d (filter P m) k = d \<or> get_or d (filter P m) k = get_or d m k"
proof (induction m)
  case (Cons x m)
  then have "k \<notin> fst ` set (filter P m)" if "k = fst x" for k
    using that by auto
  with Cons show ?case
    by (auto simp: get_or_Cons get_or_notin)
qed simp

lemma inv_compact: "queue_inv q \<Longrightarrow> queue_inv (compact_expired_state now q)"
proof -
  assume inv: "queue_inv q"
  then have d: "keys_distinct (q_retry_counts q)" by (simp add: inv_defs)
  have "get_or 0 (filter P (q_retry_counts q)) c \<le> MAX_RETRIES" for P c
    using get_or_filter [OF d, of 0 P c] inv
    by (auto simp: inv_defs MAX_RETRIES_def)
  with inv show ?thesis
    by (simp add: inv_defs compact_expired_state_def Let_def)
qed

section \<open>Reachable queues\<close>

inductive queue_step :: "EventQueue \<Rightarrow> EventQueue \<Rightarrow> bool" where
  push: "queue_step q (snd (push e q))"
| flush: "queue_step q (snd (flush_next now q))"
| poll: "queue_step q (snd (has_flushable_work now q))"
| complete: "queue_step q (mark_complete now c q)"
| requeue: "queue_step q (snd (requeue now n b q))"
| requeue_preserve: "queue_step q (requeue_preserve_timestamps b q)"
| requeue_cancelled: "queue_step q (requeue_as_cancelled b r q)"
| drain: "queue_step q (snd (drain_channel c q))"
| extend: "queue_step q (extend_in_flight_deadline now c secs q)"
| mark_steer: "queue_step q (snd (mark_native_steer_pending c i q))"
| release_steer: "queue_step q (release_native_steer c i q)"
| remove: "queue_step q (remove_event c i q)"
| compact: "queue_step q (compact_expired_state now q)"

inductive queue_reachable :: "EventQueue \<Rightarrow> bool" where
  init: "queue_reachable (EventQueue_new mode)"
| init_deadline: "queue_reachable (with_in_flight_deadline secs (EventQueue_new mode))"
| step: "queue_reachable q \<Longrightarrow> queue_step q q' \<Longrightarrow> queue_reachable q'"

lemma queue_inv_step: "queue_step q q' \<Longrightarrow> queue_inv q \<Longrightarrow> queue_inv q'"
  by (induction rule: queue_step.induct)
    (auto simp: inv_push inv_flush inv_mark_complete inv_requeue inv_requeue_preserve
      inv_requeue_cancelled inv_drain inv_extend inv_mark_steer inv_release_steer
      inv_remove_event inv_compact inv_expire has_flushable_work_def Let_def)

lemma queue_reachable_inv: "queue_reachable q \<Longrightarrow> queue_inv q"
proof (induction rule: queue_reachable.induct)
  case (init_deadline secs mode)
  show ?case
    using queue_inv_new [of mode] by (simp add: inv_defs with_in_flight_deadline_def)
qed (auto simp: queue_inv_new queue_inv_step)

section \<open>Expiry\<close>

lemma set_queue_fields [simp]:
  "q_queues (set_queue c xs q) = AList.update c xs (q_queues q)"
  "q_in_flight_channels (set_queue c xs q) = q_in_flight_channels q"
  "q_in_flight_deadlines (set_queue c xs q) = q_in_flight_deadlines q"
  "q_retry_after (set_queue c xs q) = q_retry_after q"
  "q_cancelled_batches (set_queue c xs q) = q_cancelled_batches q"
  "q_cancel_reasons (set_queue c xs q) = q_cancel_reasons q"
  "q_withheld_native_steer (set_queue c xs q) = q_withheld_native_steer q"
  "q_in_flight_deadline (set_queue c xs q) = q_in_flight_deadline q"
  by (simp_all add: set_queue_def)

lemma expire_one_fields [simp]:
  "q_in_flight_channels (expire_one c q) = removeAll c (q_in_flight_channels q)"
  "q_in_flight_deadlines (expire_one c q) = AList.delete c (q_in_flight_deadlines q)"
  "q_retry_after (expire_one c q) = q_retry_after q"
  "q_cancelled_batches (expire_one c q) = q_cancelled_batches q"
  "q_in_flight_deadline (expire_one c q) = q_in_flight_deadline q"
  by (auto simp: expire_one_def recover_withheld_for_expired_channel_def push_front_capped_def
      split: option.split)

lemma fold_expire_fields:
  "set (q_in_flight_channels (fold expire_one cs q)) = set (q_in_flight_channels q) - set cs"
  "q_retry_after (fold expire_one cs q) = q_retry_after q"
  "q_cancelled_batches (fold expire_one cs q) = q_cancelled_batches q"
  "q_in_flight_deadline (fold expire_one cs q) = q_in_flight_deadline q"
  by (induction cs arbitrary: q) auto

lemma expired_iff:
  "keys_distinct (q_in_flight_deadlines q) \<Longrightarrow> map_of (q_in_flight_deadlines q) c = Some d \<Longrightarrow>
     c \<in> set (map fst (filter (\<lambda>(_, deadline). now \<ge> deadline) (q_in_flight_deadlines q))) \<longleftrightarrow> d \<le> now"
  by (force dest: eq_key_imp_eq_value)

lemma in_flight_after_expiry:
  assumes "queue_inv q" and "map_of (q_in_flight_deadlines q) c = Some d"
  shows "c \<in> set (q_in_flight_channels (expire_in_flight now q)) \<longleftrightarrow> now < d"
proof -
  from assms have "has_key (q_in_flight_deadlines q) c" by (simp add: has_key_def)
  with assms(1) have c: "c \<in> set (q_in_flight_channels q)" by (simp add: inv_defs)
  from assms(1) have "keys_distinct (q_in_flight_deadlines q)" by (simp add: inv_defs)
  from expired_iff [OF this assms(2)] c show ?thesis
    unfolding expire_in_flight_def fold_expire_fields by auto
qed

section \<open>What a flush returns\<close>

lemma min_by_key_None: "min_by_key f xs = None \<longleftrightarrow> xs = []"
  by (cases xs) (auto split: option.split)

lemma min_by_key_Some:
  "min_by_key f xs = Some x \<Longrightarrow> x \<in> set xs \<and> (\<forall>y\<in>set xs. f x \<le> f y)"
proof (induction xs arbitrary: x)
  case (Cons a xs)
  show ?case
  proof (cases "min_by_key f xs")
    case None
    with Cons.prems show ?thesis by (simp add: min_by_key_None)
  next
    case (Some y)
    with Cons.IH [OF Some] Cons.prems show ?thesis
      by (auto split: if_splits)
  qed
qed simp

lemma flush_next_cases:
  assumes "fst (flush_next now q) = Some b"
  obtains (queue) c xs where "(c, xs) \<in> set (q_queues (expire_in_flight now q))"
      and "flushable now (expire_in_flight now q) (c, xs)"
      and "\<forall>e\<in>set (q_queues (expire_in_flight now q)).
        flushable now (expire_in_flight now q) e \<longrightarrow>
          qe_received_at (hd xs) \<le> head_received_at e"
      and "flush_channel now c (expire_in_flight now q) = (b, snd (flush_next now q))"
  | (cancelled) "\<forall>e\<in>set (q_queues (expire_in_flight now q)).
        \<not> flushable now (expire_in_flight now q) e"
      and "flush_cancelled now (expire_in_flight now q) = (Some b, snd (flush_next now q))"
proof (cases "min_by_key head_received_at
    (filter (flushable now (expire_in_flight now q)) (q_queues (expire_in_flight now q)))")
  case None
  then have "flush_next now q = flush_cancelled now (expire_in_flight now q)"
    by (simp add: flush_next_def Let_def)
  with assms None cancelled show ?thesis
    by (auto simp: min_by_key_None filter_empty_conv prod_eq_iff)
next
  case (Some e)
  obtain c xs where e: "e = (c, xs)" by (cases e)
  from Some have "flush_next now q =
      (Some (fst (flush_channel now c (expire_in_flight now q))),
       snd (flush_channel now c (expire_in_flight now q)))"
    by (simp add: flush_next_def Let_def e case_prod_beta)
  with min_by_key_Some [OF Some] assms show ?thesis
    by (intro queue [of c xs]) (auto simp: e head_received_at_def prod_eq_iff)
qed

lemma flush_channel_result:
  assumes "flush_channel now c q = (b, q')"
  shows "fb_channel_id b = c"
    and "fb_events b = sort_key (\<lambda>be. ev_created_at (be_event be))
           (map to_batch (take MAX_BATCH_EVENTS (get_or [] (q_queues q) c)))"
    and "fb_cancelled_events b = get_or [] (q_cancelled_batches q) c"
    and "get_or [] (q_queues q') c' =
           (if c' = c then drop MAX_BATCH_EVENTS (get_or [] (q_queues q) c)
            else get_or [] (q_queues q) c')"
    and "q_in_flight_channels q' = List.insert c (q_in_flight_channels q)"
    and "map_of (q_in_flight_deadlines q') c = Some (now + q_in_flight_deadline q)"
    and "q_queues q' = (if drop MAX_BATCH_EVENTS (get_or [] (q_queues q) c) = []
           then AList.delete c (q_queues q)
           else AList.update c (drop MAX_BATCH_EVENTS (get_or [] (q_queues q) c)) (q_queues q))"
    and "q_cancelled_batches q' = AList.delete c (q_cancelled_batches q)"
    and "q_withheld_native_steer q' = q_withheld_native_steer q"
proof -
  have t: "take (min n (length xs)) xs = take n xs" "drop (min n (length xs)) xs = drop n xs"
    for n and xs :: "QueuedEvent list" by (simp_all add: min_def)
  note d = assms [unfolded flush_channel_def Let_def t, symmetric]
  from d show "fb_channel_id b = c" by simp
  from d show "fb_events b = sort_key (\<lambda>be. ev_created_at (be_event be))
           (map to_batch (take MAX_BATCH_EVENTS (get_or [] (q_queues q) c)))" by simp
  from d show "fb_cancelled_events b = get_or [] (q_cancelled_batches q) c"
    by (simp add: mark_in_flight_def)
  from d show "get_or [] (q_queues q') c' =
           (if c' = c then drop MAX_BATCH_EVENTS (get_or [] (q_queues q) c)
            else get_or [] (q_queues q) c')"
    by (simp add: mark_in_flight_def)
  from d show "q_in_flight_channels q' = List.insert c (q_in_flight_channels q)"
    by (simp add: mark_in_flight_def)
  from d show "map_of (q_in_flight_deadlines q') c = Some (now + q_in_flight_deadline q)"
    by (simp add: mark_in_flight_def del: map_of_eq_Some_iff)
  from d show "q_queues q' = (if drop MAX_BATCH_EVENTS (get_or [] (q_queues q) c) = []
           then AList.delete c (q_queues q)
           else AList.update c (drop MAX_BATCH_EVENTS (get_or [] (q_queues q) c)) (q_queues q))"
    by (simp add: mark_in_flight_def)
  from d show "q_cancelled_batches q' = AList.delete c (q_cancelled_batches q)"
    by (simp add: mark_in_flight_def)
  from d show "q_withheld_native_steer q' = q_withheld_native_steer q"
    by (simp add: mark_in_flight_def)
qed

lemma flush_cancelled_result:
  assumes "flush_cancelled now q = (Some b, q')"
  shows "fb_channel_id b \<notin> set (q_in_flight_channels q)"
    and "fb_cancelled_events b = []"
    and "fb_events b = get_or [] (q_cancelled_batches q) (fb_channel_id b)"
    and "q_queues q' = q_queues q"
    and "q_in_flight_channels q' = List.insert (fb_channel_id b) (q_in_flight_channels q)"
    and "map_of (q_in_flight_deadlines q') (fb_channel_id b) = Some (now + q_in_flight_deadline q)"
    and "q_cancelled_batches q' = AList.delete (fb_channel_id b) (q_cancelled_batches q)"
    and "q_withheld_native_steer q' = q_withheld_native_steer q"
  using assms
  by (auto simp: flush_cancelled_def Let_def mark_in_flight_def find_Some_iff
      simp del: map_of_eq_Some_iff split: option.splits)

section \<open>Conservation\<close>

definition pending :: "EventQueue \<Rightarrow> nostr_event multiset" where
  "pending q = image_mset qe_event (bag_of (q_queues q)) +
     image_mset qe_event (bag_of (q_withheld_native_steer q)) +
     image_mset be_event (bag_of (q_cancelled_batches q))"

definition batch_events :: "BatchEvent list \<Rightarrow> nostr_event multiset" where
  "batch_events bes = mset (map be_event bes)"

lemma image_batch: "image_mset be_event (mset bes) = batch_events bes"
  by (simp add: batch_events_def)

lemma batch_of_queued: "batch_events (map to_batch xs) = image_mset qe_event (mset xs)"
  by (induction xs) (simp_all add: batch_events_def to_batch_def)

lemma queued_of_batch: "image_mset qe_event (mset (map (to_queued c) bes)) = batch_events bes"
  by (induction bes) (simp_all add: batch_events_def to_queued_def)

lemma batch_events_sort [simp]: "batch_events (sort_key f bes) = batch_events bes"
  by (simp flip: image_batch)

lemma image_mset_add: "A + B = C \<Longrightarrow> image_mset f A + image_mset f B = image_mset f C"
  by (metis image_mset_union)

lemma pending_push_front_capped:
  "keys_distinct (q_queues q) \<Longrightarrow>
     pending (push_front_capped c es q) \<subseteq># pending q + image_mset qe_event (mset es)"
  using image_mset_subseteq_mono [OF keyed.bag_prepend_take [of "q_queues q" c
      MAX_PENDING_PER_CHANNEL es], of qe_event]
  by (simp add: pending_def push_front_capped_def set_queue_def ac_simps)

lemma pending_expire_one: "queue_inv q \<Longrightarrow> pending (expire_one c q) \<subseteq># pending q"
proof -
  assume inv: "queue_inv q"
  let ?q0 = "q\<lparr>q_in_flight_batch_sizes := AList.delete c (q_in_flight_batch_sizes q),
          q_in_flight_channels := removeAll c (q_in_flight_channels q),
          q_in_flight_deadlines := AList.delete c (q_in_flight_deadlines q)\<rparr>"
  show ?thesis
  proof (cases "map_of (q_withheld_native_steer q) c")
    case None
    then show ?thesis
      by (simp add: expire_one_def recover_withheld_for_expired_channel_def pending_def)
  next
    case (Some es)
    let ?q1 = "?q0\<lparr>q_withheld_native_steer := AList.delete c (q_withheld_native_steer q)\<rparr>"
    have "pending (push_front_capped c es ?q1) \<subseteq># pending ?q1 + image_mset qe_event (mset es)"
      by (rule pending_push_front_capped) (use inv in \<open>simp add: inv_defs\<close>)
    also have "pending ?q1 + image_mset qe_event (mset es) = pending q"
      using image_mset_add [OF keyed.bag_del [of "q_withheld_native_steer q" c], of qe_event]
        get_or_map_of [OF Some, of "[]"] inv
      by (simp add: pending_def inv_defs ac_simps flip: mset_map)
    finally show ?thesis
      using Some by (simp add: expire_one_def recover_withheld_for_expired_channel_def)
  qed
qed

lemma pending_fold_expire: "queue_inv q \<Longrightarrow> pending (fold expire_one cs q) \<subseteq># pending q"
proof (induction cs arbitrary: q)
  case (Cons c cs)
  then show ?case
    using pending_expire_one [of q c] inv_expire_one [of q c] by (auto intro: subset_mset.trans)
qed simp

lemma pending_expire: "queue_inv q \<Longrightarrow> pending (expire_in_flight now q) \<subseteq># pending q"
  by (simp add: expire_in_flight_def pending_fold_expire)

lemma nothing_expired:
  "\<forall>d\<in>snd ` set (q_in_flight_deadlines q). now < d \<Longrightarrow> expire_in_flight now q = q"
proof -
  assume "\<forall>d\<in>snd ` set (q_in_flight_deadlines q). now < d"
  then have "filter (\<lambda>(_, deadline). now \<ge> deadline) (q_in_flight_deadlines q) = []"
    by (force simp: filter_empty_conv)
  then show ?thesis by (simp add: expire_in_flight_def)
qed

lemma pending_flush_channel:
  assumes inv: "queue_inv q" and f: "flush_channel now c q = (b, q')"
  shows "pending q' + batch_events (fb_events b) + batch_events (fb_cancelled_events b) = pending q"
proof -
  note r = flush_channel_result [OF f]
  let ?xs = "get_or [] (q_queues q) c"
  have kd: "keys_distinct (q_queues q)" "keys_distinct (q_cancelled_batches q)"
    using inv by (simp_all add: inv_defs)
  have "bag_of (q_queues q') + mset (take MAX_BATCH_EVENTS ?xs) = bag_of (q_queues q)"
  proof (cases "drop MAX_BATCH_EVENTS ?xs = []")
    case True
    then have "take MAX_BATCH_EVENTS ?xs = ?xs" by simp
    with True show ?thesis
      unfolding r(7) using keyed.bag_del [OF kd(1), of c] by simp
  next
    case False
    then show ?thesis
      unfolding r(7) using keyed.bag_drop [OF kd(1), of c MAX_BATCH_EVENTS] by simp
  qed
  note e1 = image_mset_add [OF this, of qe_event]
  note e2 = image_mset_add [OF keyed.bag_del [OF kd(2), of c], of be_event]
  show ?thesis
    unfolding pending_def r(2,3,8,9) batch_events_sort batch_of_queued e1 [symmetric]
      e2 [symmetric] by (simp add: ac_simps image_batch)
qed

lemma pending_flush_cancelled:
  assumes inv: "queue_inv q" and f: "flush_cancelled now q = (Some b, q')"
  shows "pending q' + batch_events (fb_events b) + batch_events (fb_cancelled_events b) = pending q"
proof -
  note r = flush_cancelled_result [OF f]
  have "keys_distinct (q_cancelled_batches q)"
    using inv by (simp add: inv_defs)
  from image_mset_add [OF keyed.bag_del [OF this, of "fb_channel_id b"], of be_event]
  show ?thesis
    unfolding pending_def r(2,3,4,7,8) by (simp add: batch_events_def ac_simps)
qed

lemma pending_flush:
  assumes "queue_inv q" and "fst (flush_next now q) = Some b"
  shows "pending (snd (flush_next now q)) + batch_events (fb_events b) +
    batch_events (fb_cancelled_events b) = pending (expire_in_flight now q)"
  using assms(2)
proof (cases rule: flush_next_cases)
  case (queue c xs)
  show ?thesis
    by (rule pending_flush_channel [OF inv_expire [OF assms(1)] queue(4)])
next
  case cancelled
  show ?thesis
    by (rule pending_flush_cancelled [OF inv_expire [OF assms(1)] cancelled(2)])
qed

section \<open>Properties\<close>

definition demo_queued :: "string \<Rightarrow> nat \<Rightarrow> QueuedEvent" where
  "demo_queued i t = \<lparr>qe_channel_id = ''ch'', qe_event = \<lparr>ev_id = i, ev_pubkey = ''alice'',
     ev_created_at = t, ev_kind = 9, ev_tags = [], ev_content = ''hi''\<rparr>, qe_received_at = t,
     qe_prompt_tag = ''mention''\<rparr>"

definition demo_queue :: EventQueue where
  "demo_queue = snd (push (demo_queued ''e1'' 5) (snd (push (demo_queued ''e2'' 7)
     (EventQueue_new Queue))))"

lemma demo_queue_reachable: "queue_reachable demo_queue"
  unfolding demo_queue_def
  by (rule queue_reachable.step [OF queue_reachable.step [OF queue_reachable.init
      queue_step.push] queue_step.push])

lemma demo_queue_eq:
  "demo_queue = (EventQueue_new Queue)\<lparr>q_queues :=
     [(''ch'', [demo_queued ''e2'' 7, demo_queued ''e1'' 5])]\<rparr>"
  by (simp add: demo_queue_def push_def EventQueue_new_def set_queue_def get_or_def Let_def
      MAX_PENDING_PER_CHANNEL_def demo_queued_def)

lemma demo_no_deadlines: "q_in_flight_deadlines demo_queue = []"
  by (simp add: demo_queue_eq EventQueue_new_def)

lemma demo_expire: "expire_in_flight now demo_queue = demo_queue"
  by (rule nothing_expired) (simp add: demo_no_deadlines)

lemma demo_flushable: "\<exists>e\<in>set (q_queues demo_queue). flushable now demo_queue e"
  by (simp add: demo_queue_eq EventQueue_new_def flushable_def)

text \<open>
  C8. Every reachable queue satisfies the structural invariant: distinct keys; exactly the
  in-flight channels have a deadline and a batch size; no channel queues more than 500 events;
  every queued or withheld event is filed under its own channel; no retry counter passes 10.
\<close>

theorem queue_invariant:
  assumes "queue_reachable q"
  shows "queue_inv q"
  by (rule queue_reachable_inv [OF assms])

theorem queue_invariant_witness: "queue_inv demo_queue"
  by (rule queue_invariant [OF demo_queue_reachable])

text \<open>
  One prompt per channel: a flush never returns a batch for a channel whose prompt is in
  flight and has not passed its deadline, and it marks the channel of its batch in flight, with
  a fresh deadline.
\<close>

theorem flush_exclusive:
  assumes "queue_reachable q" and "fst (flush_next now q) = Some b"
  shows "(\<forall>d. map_of (q_in_flight_deadlines q) (fb_channel_id b) = Some d \<longrightarrow> d \<le> now) \<and>
    is_channel_in_flight (fb_channel_id b) (snd (flush_next now q)) \<and>
    map_of (q_in_flight_deadlines (snd (flush_next now q))) (fb_channel_id b) =
      Some (now + q_in_flight_deadline q)"
proof -
  let ?p = "expire_in_flight now q"
  have inv: "queue_inv q" by (rule queue_reachable_inv [OF assms(1)])
  have dl: "q_in_flight_deadline ?p = q_in_flight_deadline q"
    by (simp add: expire_in_flight_def fold_expire_fields)
  have "fb_channel_id b \<notin> set (q_in_flight_channels ?p) \<and>
    is_channel_in_flight (fb_channel_id b) (snd (flush_next now q)) \<and>
    map_of (q_in_flight_deadlines (snd (flush_next now q))) (fb_channel_id b) =
      Some (now + q_in_flight_deadline q)"
    using assms(2)
  proof (cases rule: flush_next_cases)
    case (queue c xs)
    from flush_channel_result(1,5,6) [OF queue(4)] queue(2) show ?thesis
      by (simp add: flushable_def is_channel_in_flight_def dl del: map_of_eq_Some_iff)
  next
    case cancelled
    from flush_cancelled_result(1,5,6) [OF cancelled(2)] show ?thesis
      by (simp add: is_channel_in_flight_def dl del: map_of_eq_Some_iff)
  qed
  moreover have "d \<le> now" if "map_of (q_in_flight_deadlines q) (fb_channel_id b) = Some d"
    "fb_channel_id b \<notin> set (q_in_flight_channels ?p)" for d
    using in_flight_after_expiry [OF inv that(1), of now] that(2) by simp
  ultimately show ?thesis by blast
qed

lemma demo_flush: "fst (flush_next 100 demo_queue) \<noteq> None"
  using demo_flushable [of 100]
  by (auto simp: flush_next_def Let_def case_prod_beta demo_expire min_by_key_None
      filter_empty_conv split: option.split)

theorem flush_exclusive_witness:
  "\<exists>b. fst (flush_next 100 demo_queue) = Some b \<and>
     is_channel_in_flight (fb_channel_id b) (snd (flush_next 100 demo_queue))"
  using flush_exclusive [OF demo_queue_reachable, of 100] demo_flush by auto

text \<open>
  C28. Fairness and order: unless only cancelled batches are left, the flushed channel is one
  whose head event was received no later than the head of any other channel that may be
  flushed; the batch is the first 50 events of that queue in order of creation time, oldest
  first; what is left of the queue keeps its order and the other queues are untouched.
\<close>

theorem flush_fair_and_ordered:
  assumes "fst (flush_next now q) = Some b" and "queue_reachable q"
    and "\<exists>e\<in>set (q_queues (expire_in_flight now q)). flushable now (expire_in_flight now q) e"
  shows "let p = expire_in_flight now q; xs = get_or [] (q_queues p) (fb_channel_id b) in
    xs \<noteq> [] \<and>
    (\<forall>e\<in>set (q_queues p). flushable now p e \<longrightarrow> qe_received_at (hd xs) \<le> head_received_at e) \<and>
    mset (fb_events b) = mset (map to_batch (take 50 xs)) \<and>
    sorted (map (\<lambda>be. ev_created_at (be_event be)) (fb_events b)) \<and>
    length (fb_events b) \<le> 50 \<and>
    (\<forall>c. get_or [] (q_queues (snd (flush_next now q))) c =
       (if c = fb_channel_id b then drop 50 xs else get_or [] (q_queues p) c))"
  using assms(1)
proof (cases rule: flush_next_cases)
  case (queue c xs)
  let ?p = "expire_in_flight now q"
  have "keys_distinct (q_queues ?p)"
    using inv_expire [OF queue_reachable_inv [OF assms(2)], of now] by (simp add: inv_defs)
  with queue(1) have xs: "get_or [] (q_queues ?p) c = xs"
    by (simp add: get_or_def)
  note r = flush_channel_result [OF queue(4)]
  have "xs \<noteq> []" using queue(2) by (simp add: flushable_def)
  moreover have "\<forall>c'. get_or [] (q_queues (snd (flush_next now q))) c' =
      (if c' = c then drop 50 xs else get_or [] (q_queues ?p) c')"
    by (simp add: r(4) xs MAX_BATCH_EVENTS_def)
  moreover have "length (fb_events b) \<le> 50"
    unfolding r(2) by (simp add: MAX_BATCH_EVENTS_def)
  moreover have "mset (fb_events b) = mset (map to_batch (take 50 xs))"
    unfolding r(2) xs by (simp add: MAX_BATCH_EVENTS_def)
  moreover have "sorted (map (\<lambda>be. ev_created_at (be_event be)) (fb_events b))"
    unfolding r(2) by (rule sorted_sort_key)
  ultimately show ?thesis
    using queue(3) by (simp add: r(1) xs Let_def)
next
  case cancelled
  with assms(3) show ?thesis by blast
qed

theorem flush_fair_and_ordered_witness:
  "\<exists>b. fst (flush_next 100 demo_queue) = Some b \<and> length (fb_events b) \<le> 50 \<and>
     sorted (map (\<lambda>be. ev_created_at (be_event be)) (fb_events b))"
proof -
  have "\<exists>e\<in>set (q_queues (expire_in_flight 100 demo_queue)).
      flushable 100 (expire_in_flight 100 demo_queue) e" by (simp add: demo_expire demo_flushable)
  with flush_fair_and_ordered [OF _ demo_queue_reachable, of 100] demo_flush show ?thesis
    by (auto simp: Let_def)
qed

text \<open>
  A flush delivers each event once: the batch and what stays pending together come out of
  what was pending; nothing is lost when no in-flight deadline has passed.
\<close>

theorem flush_conserves_events:
  assumes "queue_reachable q" and "fst (flush_next now q) = Some b"
  shows "pending (snd (flush_next now q)) + batch_events (fb_events b) +
      batch_events (fb_cancelled_events b) \<subseteq># pending q \<and>
    ((\<forall>d\<in>snd ` set (q_in_flight_deadlines q). now < d) \<longrightarrow>
      pending (snd (flush_next now q)) + batch_events (fb_events b) +
      batch_events (fb_cancelled_events b) = pending q)"
proof -
  have inv: "queue_inv q" by (rule queue_reachable_inv [OF assms(1)])
  show ?thesis
    unfolding pending_flush [OF inv assms(2)]
    using pending_expire [OF inv, of now] nothing_expired [of q now] by auto
qed

theorem flush_conserves_events_witness:
  "\<exists>b. fst (flush_next 100 demo_queue) = Some b \<and>
     pending (snd (flush_next 100 demo_queue)) + batch_events (fb_events b) +
       batch_events (fb_cancelled_events b) = pending demo_queue"
  using flush_conserves_events [OF demo_queue_reachable, of 100] demo_flush
  by (auto simp: demo_no_deadlines)

text \<open>
  The scheduler's poll is exact: \<open>has_flushable_work\<close> is true just when \<open>flush_next\<close> at that
  moment returns a batch, and otherwise the two leave the same state.
\<close>

theorem has_work_iff_flush:
  "case flush_next now q of
     (None, q') \<Rightarrow> has_flushable_work now q = (False, q')
   | (Some _, _) \<Rightarrow> fst (has_flushable_work now q)"
proof -
  let ?p = "expire_in_flight now q"
  have find: "List.find P xs = None \<longleftrightarrow> \<not> list_ex P xs" for P and xs :: "uuid list"
    by (auto simp: find_None_iff list_ex_iff)
  have c: "fst (flush_cancelled now ?p) = None \<longleftrightarrow>
      \<not> list_ex (\<lambda>ch. ch \<notin> set (q_in_flight_channels ?p)) (map fst (q_cancelled_batches ?p))"
    unfolding find [symmetric] by (simp add: flush_cancelled_def Let_def split: option.split)
  have cs: "fst (flush_cancelled now ?p) = None \<Longrightarrow> snd (flush_cancelled now ?p) = ?p"
    by (auto simp: flush_cancelled_def Let_def split: option.splits)
  show ?thesis
  proof (cases "min_by_key head_received_at (filter (flushable now ?p) (q_queues ?p))")
    case None
    then have "\<not> list_ex (flushable now ?p) (q_queues ?p)"
      by (simp add: min_by_key_None filter_empty_conv list_ex_iff)
    with None c cs show ?thesis
      by (cases "flush_cancelled now ?p")
        (auto simp: flush_next_def has_flushable_work_def Let_def split: option.split)
  next
    case (Some e)
    from min_by_key_Some [OF Some] have "list_ex (flushable now ?p) (q_queues ?p)"
      by (auto simp: list_ex_iff)
    with Some show ?thesis
      by (simp add: flush_next_def has_flushable_work_def Let_def case_prod_beta)
  qed
qed

lemma capped_table:
  "map capped_secs [1, 2, 3, 4, 5, 6, 7, 8, 9, 10] = [5, 10, 20, 40, 80, 160, 300, 300, 300, 300]"
  by (simp add: capped_secs_def saturating_mul_def BASE_RETRY_DELAY_SECS_def
      MAX_RETRY_DELAY_SECS_def Let_def min_def)

lemma push_front_capped_fields [simp]:
  "q_queues (push_front_capped c es q) =
     AList.update c (take MAX_PENDING_PER_CHANNEL (es @ get_or [] (q_queues q) c)) (q_queues q)"
  "q_retry_after (push_front_capped c es q) = q_retry_after q"
  "q_retry_counts (push_front_capped c es q) = q_retry_counts q"
  "q_cancelled_batches (push_front_capped c es q) = q_cancelled_batches q"
  "q_withheld_native_steer (push_front_capped c es q) = q_withheld_native_steer q"
  "q_in_flight_channels (push_front_capped c es q) = q_in_flight_channels q"
  by (simp_all add: push_front_capped_def set_queue_def)

text \<open>
  C35. The retry discipline. With fewer than 10 failures behind it, a failed batch goes back to
  the front of its queue, the counter grows by one and the channel is throttled for the delay of
  that attempt; completing the prompt while the throttle lasts keeps the counter. The eleventh
  failure hands the batch back as a dead letter and clears counter and throttle, the queues
  untouched.
\<close>

theorem requeue_discipline:
  assumes "queue_reachable q"
  shows "let c = fb_channel_id b; n = get_or 0 (q_retry_counts q) c;
      (dead, q') = requeue now nanos b q in
    if n < 10
    then dead = None \<and> get_or 0 (q_retry_counts q') c = n + 1 \<and>
      map_of (q_retry_after q') c = Some (now + retry_delay (n + 1) nanos) \<and>
      get_or [] (q_queues q') c =
        take 500 (map (to_queued c) (fb_events b) @ get_or [] (q_queues q) c) \<and>
      (\<forall>t < now + retry_delay (n + 1) nanos.
        get_or 0 (q_retry_counts (mark_complete t c q')) c = n + 1 \<and>
        (\<forall>xs. \<not> flushable t q' (c, xs)))
    else n = 10 \<and> dead = Some b \<and> \<not> has_key (q_retry_counts q') c \<and>
      \<not> has_key (q_retry_after q') c \<and> q_queues q' = q_queues q"
proof -
  let ?c = "fb_channel_id b"
  let ?n = "get_or 0 (q_retry_counts q) ?c"
  have n: "?n \<le> 10"
    using queue_reachable_inv [OF assms] by (simp add: inv_defs MAX_RETRIES_def)
  show ?thesis
  proof (cases "?n < 10")
    case True
    then have "\<not> ?n + 1 > MAX_RETRIES"
      by (simp add: MAX_RETRIES_def not_less) (metis inc_le)
    with True show ?thesis
      by (simp add: requeue_def Let_def MAX_PENDING_PER_CHANNEL_def mark_complete_def
          flushable_def del: map_of_eq_Some_iff)
  next
    case False
    with n have "?n = 10" by simp
    then show ?thesis
      by (simp add: requeue_def Let_def MAX_RETRIES_def)
  qed
qed

theorem requeue_discipline_witness:
  "get_or 0 (q_retry_counts (snd (requeue 0 0 \<lparr>fb_channel_id = ''ch'', fb_events = [],
     fb_cancelled_events = [], fb_cancel_reason = None\<rparr> demo_queue))) ''ch'' = 1"
  using requeue_discipline [OF demo_queue_reachable, of "\<lparr>fb_channel_id = ''ch'', fb_events = [],
     fb_cancelled_events = [], fb_cancel_reason = None\<rparr>" 0 0]
  by (simp add: Let_def case_prod_beta demo_queue_eq EventQueue_new_def get_or_def
      del: map_of_eq_Some_iff)

text \<open>
  The backoff: 5 seconds doubled with each attempt and capped at 300; and the jitter, which
  divides the nanoseconds of a second by \<open>u32::MAX\<close>, only ever shortens the delay, to between
  80 and 90 percent of the nominal one.
\<close>

theorem retry_delay_bounds:
  assumes "nanos < 1000000000"
  shows "map capped_secs [1, 2, 3, 4, 5, 6, 7, 8, 9, 10] =
      [5, 10, 20, 40, 80, 160, 300, 300, 300, 300] \<and>
    (let cap = unat (capped_secs attempt) * 10 ^ 9 in
    8 * cap \<le> 10 * retry_delay attempt nanos \<and> 10000 * retry_delay attempt nanos \<le> 8932 * cap)"
proof -
  define cap where "cap = unat (capped_secs attempt)"
  define m where "m = unat nanos"
  have n: "m \<le> 1000000000"
    using assms unfolding m_def by (simp add: word_less_nat_alt)
  have d: "retry_delay attempt nanos =
      (2 * (cap * 10 ^ 9 * (4 * 4294967295 + 2 * m)) + 5 * 4294967295) div (2 * (5 * 4294967295))"
    by (simp add: retry_delay_def cap_def m_def Let_def)
  have "8 * cap * 10 ^ 8 \<le> retry_delay attempt nanos"
    unfolding d by (subst less_eq_div_iff_mult_less_eq) (simp_all add: algebra_simps)
  moreover have "10000 * retry_delay attempt nanos \<le> 8932 * (cap * 10 ^ 9)"
  proof (cases "cap = 0")
    case False
    have "2 * (cap * 10 ^ 9 * (4 * 4294967295 + 2 * m)) + 5 * 4294967295
       \<le> 2 * (cap * 10 ^ 9 * (4 * 4294967295 + 2 * 1000000000)) + 5 * 4294967295"
      by (rule add_le_mono1, rule mult_le_mono2, rule mult_le_mono2, rule add_le_mono [OF order_refl],
          rule mult_le_mono2, rule n)
    then have "retry_delay attempt nanos * (2 * (5 * 4294967295))
        \<le> 2 * (cap * 10 ^ 9 * (4 * 4294967295 + 2 * 1000000000)) + 5 * 4294967295"
      unfolding d by (rule order_trans [OF div_times_less_eq_dividend])
    with False show ?thesis by simp
  qed (simp add: d)
  ultimately show ?thesis by (simp add: capped_table Let_def cap_def del: list.map)
qed

theorem retry_delay_bounds_witness: "10000 * retry_delay 1 999999999 \<le> 8932 * (5 * 10 ^ 9)"
proof -
  have "unat (capped_secs 1) = 5"
    by (simp add: capped_secs_def saturating_mul_def BASE_RETRY_DELAY_SECS_def
      MAX_RETRY_DELAY_SECS_def Let_def min_def)
  with retry_delay_bounds [of 999999999 1] show ?thesis
    by (simp add: Let_def)
qed

text \<open>Putting the events of a flushed batch back, when they fit under the cap.\<close>

lemma pending_put_back:
  assumes inv: "queue_inv q'"
    and flushed: "pending q' + batch_events (fb_events b) + batch_events (fb_cancelled_events b) = P"
    and fits: "length (fb_events b) + length (get_or [] (q_queues q') c) \<le> MAX_PENDING_PER_CHANNEL"
    and z: "q_queues z = q_queues q'" "q_withheld_native_steer z = q_withheld_native_steer q'"
      "q_cancelled_batches z = q_cancelled_batches q'"
  shows "pending (push_front_capped c (map (to_queued c) (fb_events b)) z) +
    batch_events (fb_cancelled_events b) = P"
proof -
  let ?es = "map (to_queued c) (fb_events b)"
  have "length (?es @ get_or [] (q_queues q') c) \<le> MAX_PENDING_PER_CHANNEL" using fits by simp
  then have all: "take MAX_PENDING_PER_CHANNEL (?es @ get_or [] (q_queues q') c) =
      ?es @ get_or [] (q_queues q') c" by (rule take_all)
  have kd: "keys_distinct (q_queues q')" using inv by (simp add: inv_defs)
  have "image_mset qe_event (bag_of (AList.update c (?es @ get_or [] (q_queues q') c) (q_queues q'))) =
      image_mset qe_event (bag_of (q_queues q')) + batch_events (fb_events b)"
    unfolding keyed.bag_prepend [OF kd] queued_of_batch [of c, symmetric] by simp
  then have "pending (push_front_capped c ?es z) = pending q' + batch_events (fb_events b)"
    unfolding pending_def push_front_capped_fields z all by (simp add: ac_simps)
  with flushed show ?thesis by simp
qed

lemma pending_requeue:
  assumes inv: "queue_inv q'"
    and flushed: "pending q' + batch_events (fb_events b) + batch_events (fb_cancelled_events b) = P"
    and fits: "length (fb_events b) + length (get_or [] (q_queues q') (fb_channel_id b)) \<le> MAX_PENDING_PER_CHANNEL"
  shows "pending (snd (requeue t nanos b q')) + batch_events (fb_cancelled_events b) \<subseteq># P"
proof (cases "get_or 0 (q_retry_counts q') (fb_channel_id b) + 1 > MAX_RETRIES")
  case True
  then have "pending (snd (requeue t nanos b q')) = pending q'"
    by (simp add: requeue_def Let_def pending_def)
  with flushed show ?thesis
    by (metis add.assoc add.commute mset_subset_eq_add_left)
next
  case False
  then show ?thesis
    using pending_put_back [OF inv flushed fits, of "q'\<lparr>q_retry_counts := AList.update (fb_channel_id b)
      (get_or 0 (q_retry_counts q') (fb_channel_id b) + 1) (q_retry_counts q')\<rparr>"]
    by (simp add: requeue_def Let_def pending_def)
qed

lemma inv_flush_next: "queue_inv q \<Longrightarrow> flush_next now q = (r, q') \<Longrightarrow> queue_inv q'"
  using inv_flush [of q now] by simp

text \<open>
  C40. Putting a batch back does not put back the cancelled events it carried. Take a batch that
  \<open>flush_next\<close> gave, and the queue as the expiry of stuck batches, its first step, left it. When the batch
  came from a channel that was ready, it carries along the events of that channel's cancelled turn;
  handing it back because no agent is free leaves the queue with what it held before, without those
  events, and handing it back for a retry leaves at most that. When no channel was ready the batch is
  the cancelled events themselves as ordinary ones; handing it back loses nothing that fits under the
  cap of the channel.
\<close>

theorem unavailable_agent_loses_carry_over:
  assumes "queue_reachable q" and "flush_next now q = (Some b, q')"
  shows "let q1 = expire_in_flight now q; waiting = get_or [] (q_cancelled_batches q1) (fb_channel_id b) in
    pending q1 \<subseteq># pending q \<and>
    (if list_ex (flushable now q1) (q_queues q1)
     then fb_cancelled_events b = waiting \<and>
       pending (requeue_preserve_timestamps b q') + batch_events waiting = pending q1 \<and>
       pending (snd (requeue t nanos b q')) + batch_events waiting \<subseteq># pending q1
     else fb_cancelled_events b = [] \<and> fb_events b = waiting \<and>
       (length waiting + length (get_or [] (q_queues q1) (fb_channel_id b)) \<le> MAX_PENDING_PER_CHANNEL \<longrightarrow>
          pending (requeue_preserve_timestamps b q') = pending q1))"
proof -
  let ?q1 = "expire_in_flight now q"
  have inv: "queue_inv q" by (rule queue_reachable_inv [OF assms(1)])
  have inv': "queue_inv q'" by (rule inv_flush_next [OF inv assms(2)])
  have some: "fst (flush_next now q) = Some b" "snd (flush_next now q) = q'" using assms(2) by simp_all
  note flushed = pending_flush [OF inv some(1), unfolded some(2)]
  have "if list_ex (flushable now ?q1) (q_queues ?q1)
     then fb_cancelled_events b = get_or [] (q_cancelled_batches ?q1) (fb_channel_id b) \<and>
       pending (requeue_preserve_timestamps b q') + batch_events (fb_cancelled_events b) = pending ?q1 \<and>
       pending (snd (requeue t nanos b q')) + batch_events (fb_cancelled_events b) \<subseteq># pending ?q1
     else fb_cancelled_events b = [] \<and> fb_events b = get_or [] (q_cancelled_batches ?q1) (fb_channel_id b) \<and>
       (length (fb_events b) + length (get_or [] (q_queues ?q1) (fb_channel_id b)) \<le> MAX_PENDING_PER_CHANNEL \<longrightarrow>
          pending (requeue_preserve_timestamps b q') = pending ?q1)"
    using some(1)
  proof (cases rule: flush_next_cases)
    case (queue c xs)
    note r = flush_channel_result [OF queue(4), unfolded some(2)]
    have "length (fb_events b) + length (get_or [] (q_queues q') c) = length (get_or [] (q_queues ?q1) c)"
      by (simp add: r(2,4))
    then have fits: "length (fb_events b) + length (get_or [] (q_queues q') (fb_channel_id b)) \<le> MAX_PENDING_PER_CHANNEL"
      using inv_queue(1) [OF inv_expire [OF inv], of now c] by (simp add: r(1))
    have "list_ex (flushable now ?q1) (q_queues ?q1)" using queue(1,2) by (auto simp: list_ex_iff)
    then show ?thesis
      using pending_put_back [OF inv' flushed fits refl refl refl] pending_requeue [OF inv' flushed fits, of t nanos] r(1,3)
      by (simp add: requeue_preserve_timestamps_def)
  next
    case cancelled
    note r = flush_cancelled_result [OF cancelled(2), unfolded some(2)]
    have "\<not> list_ex (flushable now ?q1) (q_queues ?q1)" using cancelled(1) by (auto simp: list_ex_iff)
    moreover have "pending (requeue_preserve_timestamps b q') = pending ?q1"
      if "length (fb_events b) + length (get_or [] (q_queues ?q1) (fb_channel_id b)) \<le> MAX_PENDING_PER_CHANNEL"
      using pending_put_back [OF inv' flushed _ refl refl refl, of "fb_channel_id b"] that
      by (simp add: requeue_preserve_timestamps_def r(2,4) batch_events_def)
    ultimately show ?thesis using r(2,3) by simp
  qed
  then show ?thesis using pending_expire [OF inv, of now] by (auto simp: Let_def split: if_splits)
qed

definition demo_carry :: EventQueue where
  "demo_carry = requeue_as_cancelled \<lparr>fb_channel_id = ''ch'', fb_events =
     [to_batch (demo_queued ''e0'' 1)], fb_cancelled_events = [], fb_cancel_reason = None\<rparr>
     Steer demo_queue"

theorem unavailable_agent_loses_carry_over_witness:
  "\<exists>b q'. flush_next 100 demo_carry = (Some b, q') \<and>
     pending (requeue_preserve_timestamps b q') + {#qe_event (demo_queued ''e0'' 1)#} =
       pending demo_carry"
proof -
  have reach: "queue_reachable demo_carry"
    unfolding demo_carry_def
    by (rule queue_reachable.step [OF demo_queue_reachable queue_step.requeue_cancelled])
  have expired: "expire_in_flight 100 demo_carry = demo_carry"
    by (rule nothing_expired) (simp add: demo_carry_def requeue_as_cancelled_def demo_queue_eq EventQueue_new_def)
  have carried: "q_cancelled_batches demo_carry = [(''ch'', [to_batch (demo_queued ''e0'' 1)])]"
    by (simp add: demo_carry_def requeue_as_cancelled_def demo_queue_eq EventQueue_new_def get_or_def)
  obtain e where e: "e \<in> set (q_queues demo_queue)" "flushable 100 demo_queue e"
    using demo_flushable by blast
  then have ready: "list_ex (flushable 100 demo_carry) (q_queues demo_carry)"
    by (auto simp: list_ex_iff demo_carry_def requeue_as_cancelled_def flushable_def Let_def)
  then obtain b q' where f: "flush_next 100 demo_carry = (Some b, q')"
    by (cases "flush_next 100 demo_carry")
      (auto simp: flush_next_def Let_def expired min_by_key_None list_ex_iff filter_empty_conv case_prod_beta
        split: option.splits)
  have only: "fst x = ''ch''" if "x \<in> set (q_queues demo_carry)" for x
    using that by (auto simp: demo_carry_def requeue_as_cancelled_def demo_queue_eq EventQueue_new_def)
  have "fst (flush_next 100 demo_carry) = Some b" using f by simp
  then have "fb_channel_id b = ''ch''"
  proof (cases rule: flush_next_cases)
    case (queue c xs)
    then show ?thesis using only [of "(c, xs)"] flush_channel_result(1) [OF queue(4)] by (simp add: expired)
  next
    case cancelled
    then show ?thesis using ready by (auto simp: expired list_ex_iff)
  qed
  then show ?thesis
    using unavailable_agent_loses_carry_over [OF reach f] f ready carried
    by (auto simp: Let_def expired get_or_def batch_events_def to_batch_def)
qed

text \<open>
  Withholding a steered event. Marking takes the first queued event of that id out of the
  queue, where no flush sees it, and loses nothing; when no event of that id was withheld
  before, releasing it puts that very event at the head of the queue and restores the rest.
\<close>

theorem steer_withhold_release:
  assumes "queue_reachable q" and "fst (mark_native_steer_pending c i q)"
    and "\<forall>w\<in>set (get_or [] (q_withheld_native_steer q) c). \<not> has_id i w"
  shows "\<exists>us e vs. get_or [] (q_queues q) c = us @ e # vs \<and> has_id i e \<and>
    (\<forall>u\<in>set us. \<not> has_id i u) \<and>
    (let q1 = snd (mark_native_steer_pending c i q); q2 = release_native_steer c i q1 in
      get_or [] (q_queues q1) c = us @ vs \<and> pending q1 = pending q \<and>
      get_or [] (q_queues q2) c = e # us @ vs \<and>
      get_or [] (q_withheld_native_steer q2) c = get_or [] (q_withheld_native_steer q) c)"
proof -
  have inv: "queue_inv q" by (rule queue_reachable_inv [OF assms(1)])
  from assms(2) obtain es e rest where es: "map_of (q_queues q) c = Some es"
    and tf: "take_first (has_id i) es = Some (e, rest)"
    by (auto simp: mark_native_steer_pending_def simp del: map_of_eq_Some_iff
        split: option.splits)
  from take_first_Some [OF tf] obtain us vs where
    *: "es = us @ e # vs" "rest = us @ vs" "has_id i e" "\<forall>u\<in>set us. \<not> has_id i u" by blast
  let ?ws = "get_or [] (q_withheld_native_steer q) c"
  let ?q1 = "q\<lparr>q_queues := update_or_remove c rest (q_queues q),
     q_withheld_native_steer := AList.update c (?ws @ [e]) (q_withheld_native_steer q)\<rparr>"
  have q1: "snd (mark_native_steer_pending c i q) = ?q1"
    using es tf by (simp add: mark_native_steer_pending_def)
  have get_es: "get_or [] (q_queues q) c = es" using es by (rule get_or_map_of)
  have kd: "keys_distinct (q_queues q)" "keys_distinct (q_withheld_native_steer q)"
    using inv by (simp_all add: inv_defs)
  have "bag_of (update_or_remove c rest (q_queues q)) + {#e#} = bag_of (q_queues q)"
    using keyed.bag_upd [OF kd(1), of c rest] keyed.bag_del [OF kd(1), of c] get_es *(1,2)
    by (cases "rest = []") (auto simp: update_or_remove_def)
  from image_mset_add [OF this, of qe_event, symmetric]
  have pend: "pending ?q1 = pending q"
    by (simp add: pending_def keyed.bag_append [OF kd(2)] ac_simps)
  have tw: "take_first (has_id i) (ws @ [e]) = Some (e, ws)" if "\<forall>w\<in>set ws. \<not> has_id i w" for ws
    using that *(3) by (induction ws) auto
  have "length (e # us @ vs) \<le> MAX_PENDING_PER_CHANNEL"
    using inv_queue(1) [OF inv, of c] get_es *(1) by simp
  then have "release_native_steer c i ?q1 = push_front_capped c [e]
      (?q1\<lparr>q_withheld_native_steer := update_or_remove c ?ws (q_withheld_native_steer ?q1)\<rparr>)"
    by (simp add: release_native_steer_def tw [OF assms(3)])
  moreover have "take MAX_PENDING_PER_CHANNEL (e # us @ vs) = e # us @ vs"
    using \<open>length (e # us @ vs) \<le> MAX_PENDING_PER_CHANNEL\<close> by (rule take_all)
  ultimately show ?thesis
    using * get_es pend by (intro exI [of _ us] exI [of _ e] exI [of _ vs]) (simp add: q1 Let_def)
qed

theorem steer_withhold_release_witness:
  "get_or [] (q_queues (release_native_steer ''ch'' ''e1''
     (snd (mark_native_steer_pending ''ch'' ''e1'' demo_queue)))) ''ch'' =
   [demo_queued ''e1'' 5, demo_queued ''e2'' 7]"
proof -
  have q: "get_or [] (q_queues demo_queue) ''ch'' = [demo_queued ''e2'' 7, demo_queued ''e1'' 5]"
    by (simp add: demo_queue_eq get_or_def)
  have "fst (mark_native_steer_pending ''ch'' ''e1'' demo_queue)"
    by (simp add: mark_native_steer_pending_def demo_queue_eq EventQueue_new_def has_id_def
        demo_queued_def)
  moreover have "get_or [] (q_withheld_native_steer demo_queue) ''ch'' = []"
    by (simp add: demo_queue_eq EventQueue_new_def get_or_def)
  ultimately obtain us e vs where "[demo_queued ''e2'' 7, demo_queued ''e1'' 5] = us @ e # vs"
    "has_id ''e1'' e" "get_or [] (q_queues (release_native_steer ''ch'' ''e1''
     (snd (mark_native_steer_pending ''ch'' ''e1'' demo_queue)))) ''ch'' = e # us @ vs"
    using steer_withhold_release [OF demo_queue_reachable, of "''ch''" "''e1''"]
    by (auto simp: q Let_def)
  then show ?thesis
    by (auto simp: Cons_eq_append_conv has_id_def demo_queued_def)
qed

text \<open>
  Draining a removed channel forgets everything pending for it, queued, cancelled and
  withheld, with its throttle and counter, leaves the other channels and the prompts in flight
  alone, and returns the ids of the queued events: not those of the cancelled and withheld
  events it dropped too.
\<close>

theorem drain_channel_exact:
  "let (ids, q') = drain_channel c q in
    ids = map (\<lambda>e. ev_id (qe_event e)) (get_or [] (q_queues q) c) \<and>
    (\<forall>c'. get_or [] (q_queues q') c' = (if c' = c then [] else get_or [] (q_queues q) c') \<and>
      get_or [] (q_cancelled_batches q') c' =
        (if c' = c then [] else get_or [] (q_cancelled_batches q) c') \<and>
      get_or [] (q_withheld_native_steer q') c' =
        (if c' = c then [] else get_or [] (q_withheld_native_steer q) c')) \<and>
    \<not> has_key (q_retry_after q') c \<and> \<not> has_key (q_retry_counts q') c \<and>
    q_in_flight_channels q' = q_in_flight_channels q \<and>
    q_in_flight_deadlines q' = q_in_flight_deadlines q"
  by (simp add: drain_channel_def)

section \<open>Thread tags\<close>

definition marked :: "string \<Rightarrow> nostr_tag \<Rightarrow> bool" where
  "marked m t \<longleftrightarrow> length (tag_slice t) \<ge> 4 \<and> hd (tag_slice t) = ''e'' \<and> tag_slice t ! 3 = m"

definition last_marked :: "string \<Rightarrow> nostr_tag list \<Rightarrow> string option" where
  "last_marked m tags =
     (if filter (marked m) tags = [] then None
      else Some (tag_slice (last (filter (marked m) tags)) ! 1))"

lemma last_marked_Cons:
  "last_marked m (t # ts) =
     (case last_marked m ts of
        None \<Rightarrow> if marked m t then Some (tag_slice t ! 1) else None
      | Some x \<Rightarrow> Some x)"
  by (auto simp: last_marked_def)

lemma thread_tags_root:
  "fst (thread_tags_loop tags root reply ms) =
     (case last_marked ''root'' tags of None \<Rightarrow> root | Some x \<Rightarrow> Some x)"
proof (induction tags arbitrary: root reply ms)
  case (Cons t ts)
  show ?case
    by (auto simp: Cons.IH Let_def last_marked_Cons marked_def split: option.split)
qed (simp add: last_marked_def)

lemma thread_tags_reply:
  "fst (snd (thread_tags_loop tags root reply ms)) =
     (case last_marked ''reply'' tags of None \<Rightarrow> reply | Some x \<Rightarrow> Some x)"
proof (induction tags arbitrary: root reply ms)
  case (Cons t ts)
  show ?case
    by (auto simp: Cons.IH Let_def last_marked_Cons marked_def split: option.split)
qed (simp add: last_marked_def)

text \<open>
  Thread tags: the last \<open>e\<close> tag with the \<open>root\<close> marker names the root and the last one with
  the \<open>reply\<close> marker the parent; an event with only one of the two markers, a direct reply to a
  root, has that event as both; a result never has one of the two without the other.
\<close>

theorem thread_tags_spec:
  "let t = parse_thread_tags ev; root = last_marked ''root'' (ev_tags ev);
       reply = last_marked ''reply'' (ev_tags ev) in
     tt_root_event_id t = (if root = None then reply else root) \<and>
     tt_parent_event_id t = (if reply = None then root else reply) \<and>
     (tt_root_event_id t = None \<longleftrightarrow> tt_parent_event_id t = None)"
  using thread_tags_root [of "ev_tags ev" None None "[]"]
    thread_tags_reply [of "ev_tags ev" None None "[]"]
  by (auto simp: option.case_eq_if parse_thread_tags_def Let_def split: option.split prod.split)

end
