(* ===== verification/Pairing.thy ===== *)
theory Pairing
  imports Kinds
begin

text \<open>
  The device-pairing session, \<open>crates/buzz-core/src/pairing/session.rs\<close> with its message types
  (\<open>types.rs\<close>), errors (\<open>mod.rs\<close>) and key derivation (\<open>crypto.rs\<close>). The primitives of other crates
  (HKDF, ECDH, NIP-44, signatures, hex, constant-time equality, the serde codec of the messages)
  are the fields of \<open>primitives\<close>, an argument of every operation that calls them; their error
  texts are strings. Random values and clock readings are arguments. Every method returns its
  result and the session as the method leaves it, also when it fails half way. Zeroizing
  buffers has no counterpart.
\<close>

section \<open>Data\<close>

type_synonym bytes = "u8 list"
type_synonym seckey = bytes

datatype Role = Source | Target

datatype SessionState =
    Waiting | Confirming | AwaitingConfirmation | Transferring | PayloadExchanged
  | Completed | Aborted

datatype PayloadType = Nsec | Bunker | Connect | Custom

datatype AbortReason = SasMismatchReason | UserDenied | Timeout | ProtocolError | UnknownReason

datatype PairingMessage =
    Offer string u32
  | SasConfirm string
  | Payload PayloadType string
  | Complete bool
  | Abort AbortReason

datatype PairingError =
    InvalidQr string
  | InvalidSessionId
  | SasMismatch
  | TranscriptMismatch
  | UnexpectedMessage string string
  | SessionExpired
  | Nip44 string
  | Json string
  | InvalidPubkey string
  | SigningError string

record primitives =
  cr_public_key :: "seckey \<Rightarrow> pubkey"
  cr_pubkey_bytes :: "pubkey \<Rightarrow> bytes"
  cr_hkdf_extract :: "bytes \<Rightarrow> bytes \<Rightarrow> bytes"
  cr_hkdf_expand :: "bytes \<Rightarrow> bytes \<Rightarrow> nat \<Rightarrow> bytes"
  cr_shared_key :: "seckey \<Rightarrow> pubkey \<Rightarrow> string + bytes"
  cr_encrypt :: "bytes \<Rightarrow> seckey \<Rightarrow> pubkey \<Rightarrow> string \<Rightarrow> string + string"
  cr_decrypt :: "seckey \<Rightarrow> pubkey \<Rightarrow> string \<Rightarrow> string + string"
  cr_to_json :: "PairingMessage \<Rightarrow> string + string"
  cr_from_json :: "string \<Rightarrow> string + PairingMessage"
  cr_sign :: "seckey \<Rightarrow> u16 \<Rightarrow> string \<Rightarrow> nostr_tag list \<Rightarrow> nat \<Rightarrow> string + nostr_event"
  cr_verify :: "nostr_event \<Rightarrow> string + unit"
  cr_tag_public_key :: "pubkey \<Rightarrow> nostr_tag"
  cr_hex_encode :: "bytes \<Rightarrow> string"
  cr_hex_decode :: "string \<Rightarrow> string + bytes"
  cr_ct_eq :: "bytes \<Rightarrow> bytes \<Rightarrow> bool"

text \<open>What \<open>build_event\<close> draws: the nonce of the encryption, the clock in seconds, a random \<open>u64\<close>.\<close>

record draws =
  dr_nonce :: bytes
  dr_now :: nat
  dr_random :: u64

record session =
  ps_role :: Role
  ps_state :: SessionState
  ps_keys :: seckey
  ps_session_secret :: bytes
  ps_relay_urls :: "string list"
  ps_peer_pubkey :: "pubkey option"
  ps_session_id :: bytes
  ps_sas_code :: "u32 option"
  ps_sas_input :: "bytes option"
  ps_processed_ids :: "event_id list"
  ps_created_at :: instant
  ps_timeout :: nat

record QrPayload =
  qr_source_pubkey :: pubkey
  qr_session_secret :: bytes
  qr_relays :: "string list"
  qr_version :: u32

definition DEFAULT_TIMEOUT :: nat where "DEFAULT_TIMEOUT = 120 * 10 ^ 9"

definition PAIRING_KIND :: u16 where "PAIRING_KIND = ucast KIND_PAIRING"

section \<open>Key derivation\<close>

definition INFO_SESSION_ID :: bytes where
  "INFO_SESSION_ID = map of_char ''nostr-pair-session-id''"
definition INFO_SAS :: bytes where
  "INFO_SAS = map of_char ''nostr-pair-sas-v1''"
definition INFO_TRANSCRIPT :: bytes where
  "INFO_TRANSCRIPT = map of_char ''nostr-pair-transcript-v1''"

definition hkdf32 :: "primitives \<Rightarrow> bytes \<Rightarrow> bytes \<Rightarrow> bytes \<Rightarrow> bytes" where
  "hkdf32 cr salt ikm info =
     (let prk = cr_hkdf_extract cr salt ikm;
          okm = cr_hkdf_expand cr prk info 32
      in take 32 okm)"

definition derive_session_id :: "primitives \<Rightarrow> bytes \<Rightarrow> bytes" where
  "derive_session_id cr session_secret = hkdf32 cr [] session_secret INFO_SESSION_ID"

definition be_u32 :: "bytes \<Rightarrow> u32" where
  "be_u32 b = word_of_nat (unat (b ! 0) * 2 ^ 24 + unat (b ! 1) * 2 ^ 16 + unat (b ! 2) * 2 ^ 8
     + unat (b ! 3))"

definition derive_sas :: "primitives \<Rightarrow> bytes \<Rightarrow> bytes \<Rightarrow> u32 \<times> bytes" where
  "derive_sas cr ecdh_shared session_secret =
     (let sas_input = hkdf32 cr session_secret ecdh_shared INFO_SAS;
          sas_code = be_u32 sas_input mod 1000000
      in (sas_code, sas_input))"

definition derive_transcript_hash ::
  "primitives \<Rightarrow> bytes \<Rightarrow> bytes \<Rightarrow> bytes \<Rightarrow> bytes \<Rightarrow> bytes \<Rightarrow> bytes" where
  "derive_transcript_hash cr session_id source_pubkey target_pubkey sas_input session_secret =
     hkdf32 cr session_secret (session_id @ source_pubkey @ target_pubkey @ sas_input)
       INFO_TRANSCRIPT"

definition format_sas :: "u32 \<Rightarrow> string" where
  "format_sas code =
     (let digits = show_nat (unat code) in replicate (6 - length digits) CHR ''0'' @ digits)"

section \<open>Guards\<close>

fun state_debug :: "SessionState \<Rightarrow> string" where
  "state_debug Waiting = ''Waiting''"
| "state_debug Confirming = ''Confirming''"
| "state_debug AwaitingConfirmation = ''AwaitingConfirmation''"
| "state_debug Transferring = ''Transferring''"
| "state_debug PayloadExchanged = ''PayloadExchanged''"
| "state_debug Completed = ''Completed''"
| "state_debug Aborted = ''Aborted''"

fun role_debug :: "Role \<Rightarrow> string" where
  "role_debug Source = ''Source''"
| "role_debug Target = ''Target''"

fun message_name :: "PairingMessage \<Rightarrow> string" where
  "message_name (Offer _ _) = ''offer''"
| "message_name (SasConfirm _) = ''sas-confirm''"
| "message_name (Payload _ _) = ''payload''"
| "message_name (Complete _) = ''complete''"
| "message_name (Abort _) = ''abort''"

definition unexpected :: "string \<Rightarrow> PairingMessage \<Rightarrow> PairingError" where
  "unexpected expected got = UnexpectedMessage expected (message_name got)"

definition is_expired :: "instant \<Rightarrow> session \<Rightarrow> bool" where
  "is_expired now s \<longleftrightarrow> now - ps_created_at s > ps_timeout s"

definition check_expired :: "instant \<Rightarrow> session \<Rightarrow> PairingError + unit" where
  "check_expired now s = guard_that (\<not> is_expired now s) SessionExpired"

definition expect_state :: "SessionState \<Rightarrow> session \<Rightarrow> PairingError + unit" where
  "expect_state expected s =
     guard_that (ps_state s = expected)
       (UnexpectedMessage (''state '' @ state_debug expected) (''state '' @ state_debug (ps_state s)))"

definition expect_role :: "Role \<Rightarrow> session \<Rightarrow> PairingError + unit" where
  "expect_role expected s =
     guard_that (ps_role s = expected)
       (UnexpectedMessage (''role '' @ role_debug expected) (''role '' @ role_debug (ps_role s)))"

text \<open>The three checks every method but the two abort methods starts with.\<close>

definition entry_checks :: "instant \<Rightarrow> SessionState \<Rightarrow> Role \<Rightarrow> session \<Rightarrow> PairingError + unit" where
  "entry_checks now st role s =
     and_then (check_expired now s) (\<lambda>_. and_then (expect_state st s) (\<lambda>_. expect_role role s))"

definition p_tag_matches :: "pubkey \<Rightarrow> nostr_tag \<Rightarrow> bool" where
  "p_tag_matches our_pk t \<longleftrightarrow>
     (case tag_slice t of
        k # v # _ \<Rightarrow> k = ''p'' \<and> v = our_pk
      | _ \<Rightarrow> False)"

definition validate_event_basics ::
  "primitives \<Rightarrow> nostr_event \<Rightarrow> session \<Rightarrow> PairingError + unit" where
  "validate_event_basics cr event s =
     and_then (map_err (\<lambda>e. InvalidPubkey (''event verification failed: '' @ e))
                 (cr_verify cr event)) (\<lambda>_.
     and_then (guard_that (ev_id event \<notin> set (ps_processed_ids s))
                 (UnexpectedMessage ''new event'' ''duplicate event id'')) (\<lambda>_.
     and_then (guard_that (ev_kind event = PAIRING_KIND)
                 (UnexpectedMessage (''kind '' @ show_nat (unat PAIRING_KIND))
                    (''kind '' @ show_nat (unat (ev_kind event))))) (\<lambda>_.
     guard_that (list_ex (p_tag_matches (cr_public_key cr (ps_keys s))) (ev_tags event))
       (InvalidPubkey ''event p-tag does not match our ephemeral pubkey''))))"

definition validate_event_from_peer ::
  "primitives \<Rightarrow> nostr_event \<Rightarrow> session \<Rightarrow> PairingError + unit" where
  "validate_event_from_peer cr event s =
     and_then (validate_event_basics cr event s) (\<lambda>_.
     case ps_peer_pubkey s of
       None \<Rightarrow> Inr ()
     | Some expected \<Rightarrow>
         guard_that (ev_pubkey event = expected)
           (InvalidPubkey (''event from '' @ ev_pubkey event @ '' but expected '' @ expected)))"

definition record_event :: "nostr_event \<Rightarrow> session \<Rightarrow> session" where
  "record_event event s = s\<lparr>ps_processed_ids := List.insert (ev_id event) (ps_processed_ids s)\<rparr>"

definition en_dash :: string where "en_dash = map char_of [226 :: nat, 128, 147]"
definition less_equal_sign :: string where "less_equal_sign = map char_of [226 :: nat, 137, 164]"

definition decrypt_message ::
  "primitives \<Rightarrow> nostr_event \<Rightarrow> session \<Rightarrow> PairingError + PairingMessage" where
  "decrypt_message cr event s =
     (let content_len = length (ev_content event) in
     and_then (guard_that (132 \<le> content_len \<and> content_len \<le> 87472)
        (UnexpectedMessage (''NIP-44 content (132'' @ en_dash @ ''87472 chars)'')
           (show_nat content_len @ '' chars''))) (\<lambda>_.
     and_then (map_err Nip44 (cr_decrypt cr (ps_keys s) (ev_pubkey event) (ev_content event)))
       (\<lambda>decrypted.
     and_then (guard_that (length decrypted \<le> 65535)
        (UnexpectedMessage (''plaintext '' @ less_equal_sign @ '' 65535 bytes'')
           (show_nat (length decrypted) @ '' bytes''))) (\<lambda>_.
     map_err Json (cr_from_json cr decrypted)))))"

definition build_event ::
  "primitives \<Rightarrow> draws \<Rightarrow> PairingMessage \<Rightarrow> session \<Rightarrow> PairingError + nostr_event" where
  "build_event cr dr message s =
     and_then (ok_or (ps_peer_pubkey s) (InvalidPubkey ''no peer pubkey set'')) (\<lambda>peer.
     and_then (map_err Json (cr_to_json cr message)) (\<lambda>plaintext.
     and_then (map_err Nip44 (cr_encrypt cr (dr_nonce dr) (ps_keys s) peer plaintext)) (\<lambda>encrypted.
     (let jitter = unat (dr_random dr mod 31);
          ts = dr_now dr - jitter
      in map_err SigningError
           (cr_sign cr (ps_keys s) PAIRING_KIND encrypted [cr_tag_public_key cr peer] ts)))))"

text \<open>\<open>hex::decode\<close> followed by the conversion to 32 bytes.\<close>

definition decode_32 :: "primitives \<Rightarrow> string \<Rightarrow> bytes option" where
  "decode_32 cr h =
     (case cr_hex_decode cr h of
        Inl _ \<Rightarrow> None
      | Inr b \<Rightarrow> if length b = 32 then Some b else None)"

section \<open>The source\<close>

definition new_source ::
  "primitives \<Rightarrow> instant \<Rightarrow> seckey \<Rightarrow> bytes \<Rightarrow> string \<Rightarrow> session \<times> QrPayload" where
  "new_source cr now keys session_secret relay_url =
     (\<lparr>ps_role = Source, ps_state = Waiting, ps_keys = keys, ps_session_secret = session_secret,
       ps_relay_urls = [relay_url], ps_peer_pubkey = None,
       ps_session_id = derive_session_id cr session_secret, ps_sas_code = None,
       ps_sas_input = None, ps_processed_ids = [], ps_created_at = now,
       ps_timeout = DEFAULT_TIMEOUT\<rparr>,
      \<lparr>qr_source_pubkey = cr_public_key cr keys, qr_session_secret = session_secret,
       qr_relays = [relay_url], qr_version = 1\<rparr>)"

definition handle_offer ::
  "primitives \<Rightarrow> instant \<Rightarrow> nostr_event \<Rightarrow> session \<Rightarrow> (PairingError + string) \<times> session" where
  "handle_offer cr now event s =
     try_op (entry_checks now Waiting Source s) s (\<lambda>_.
     try_op (validate_event_basics cr event s) s (\<lambda>_.
     try_op (decrypt_message cr event s) s (\<lambda>msg.
     case msg of
       Offer session_id_hex version \<Rightarrow>
         if version \<noteq> 1 then
           (Inl (UnexpectedMessage ''version 1'' (''version '' @ show_nat (unat version))), s)
         else
           (case decode_32 cr session_id_hex of
              None \<Rightarrow> (Inl InvalidSessionId, s)
            | Some received \<Rightarrow>
                if \<not> cr_ct_eq cr received (ps_session_id s) then (Inl InvalidSessionId, s)
                else
                  (let peer = ev_pubkey event;
                       s1 = s\<lparr>ps_peer_pubkey := Some peer\<rparr>
                   in try_op (map_err SigningError (cr_shared_key cr (ps_keys s1) peer)) s1 (\<lambda>ecdh.
                      let (code, sas_input) = derive_sas cr ecdh (ps_session_secret s1);
                          s2 = s1\<lparr>ps_sas_code := Some code, ps_sas_input := Some sas_input,
                                  ps_state := Confirming\<rparr>
                      in (Inr (format_sas code), record_event event s2))))
     | other \<Rightarrow> (Inl (unexpected ''offer'' other), s))))"

definition confirm_sas ::
  "primitives \<Rightarrow> instant \<Rightarrow> draws \<Rightarrow> session \<Rightarrow> (PairingError + nostr_event) \<times> session" where
  "confirm_sas cr now dr s =
     try_op (entry_checks now Confirming Source s) s (\<lambda>_.
     try_op (ok_or (ps_sas_input s) SasMismatch) s (\<lambda>sas_input.
     try_op (ok_or (ps_peer_pubkey s) (InvalidPubkey ''no peer'')) s (\<lambda>peer.
     let transcript_hash = derive_transcript_hash cr (ps_session_id s)
           (cr_pubkey_bytes cr (cr_public_key cr (ps_keys s))) (cr_pubkey_bytes cr peer)
           sas_input (ps_session_secret s);
         msg = SasConfirm (cr_hex_encode cr transcript_hash)
     in try_op (build_event cr dr msg s) s (\<lambda>event.
        (Inr event, s\<lparr>ps_state := Transferring\<rparr>)))))"

definition send_payload ::
  "primitives \<Rightarrow> instant \<Rightarrow> draws \<Rightarrow> PayloadType \<Rightarrow> string \<Rightarrow> session
     \<Rightarrow> (PairingError + nostr_event) \<times> session" where
  "send_payload cr now dr payload_type payload s =
     try_op (entry_checks now Transferring Source s) s (\<lambda>_.
     try_op (build_event cr dr (Payload payload_type payload) s) s (\<lambda>event.
     (Inr event, s\<lparr>ps_state := PayloadExchanged\<rparr>)))"

definition handle_complete ::
  "primitives \<Rightarrow> instant \<Rightarrow> nostr_event \<Rightarrow> session \<Rightarrow> (PairingError + unit) \<times> session" where
  "handle_complete cr now event s =
     try_op (entry_checks now PayloadExchanged Source s) s (\<lambda>_.
     try_op (validate_event_from_peer cr event s) s (\<lambda>_.
     try_op (decrypt_message cr event s) s (\<lambda>msg.
     case msg of
       Complete success \<Rightarrow>
         if success then (Inr (), record_event event (s\<lparr>ps_state := Completed\<rparr>))
         else (Inl (UnexpectedMessage ''complete(success=true)'' ''complete(success=false)''),
               s\<lparr>ps_state := Aborted\<rparr>)
     | other \<Rightarrow> (Inl (unexpected ''complete'' other), s))))"

section \<open>The target\<close>

definition new_target ::
  "primitives \<Rightarrow> instant \<Rightarrow> draws \<Rightarrow> seckey \<Rightarrow> QrPayload
     \<Rightarrow> PairingError + (session \<times> nostr_event)" where
  "new_target cr now dr keys qr =
     (let session_id = derive_session_id cr (qr_session_secret qr) in
     and_then (map_err SigningError (cr_shared_key cr keys (qr_source_pubkey qr))) (\<lambda>ecdh.
     let (code, sas_input) = derive_sas cr ecdh (qr_session_secret qr);
         s = \<lparr>ps_role = Target, ps_state = Waiting, ps_keys = keys,
              ps_session_secret = qr_session_secret qr, ps_relay_urls = qr_relays qr,
              ps_peer_pubkey = Some (qr_source_pubkey qr), ps_session_id = session_id,
              ps_sas_code = Some code, ps_sas_input = Some sas_input, ps_processed_ids = [],
              ps_created_at = now, ps_timeout = DEFAULT_TIMEOUT\<rparr>;
         msg = Offer (cr_hex_encode cr session_id) 1
     in and_then (build_event cr dr msg s) (\<lambda>event.
        Inr (s\<lparr>ps_state := Confirming\<rparr>, event))))"

definition handle_sas_confirm ::
  "primitives \<Rightarrow> instant \<Rightarrow> nostr_event \<Rightarrow> session \<Rightarrow> (PairingError + string) \<times> session" where
  "handle_sas_confirm cr now event s =
     try_op (entry_checks now Confirming Target s) s (\<lambda>_.
     try_op (validate_event_from_peer cr event s) s (\<lambda>_.
     try_op (decrypt_message cr event s) s (\<lambda>msg.
     case msg of
       SasConfirm received_hash \<Rightarrow>
         try_op (ok_or (ps_sas_input s) SasMismatch) s (\<lambda>sas_input.
         try_op (ok_or (ps_peer_pubkey s) (InvalidPubkey ''no peer'')) s (\<lambda>peer.
         let expected_hash = derive_transcript_hash cr (ps_session_id s)
               (cr_pubkey_bytes cr peer) (cr_pubkey_bytes cr (cr_public_key cr (ps_keys s)))
               sas_input (ps_session_secret s);
             matches = (case decode_32 cr received_hash of
                          None \<Rightarrow> False | Some rb \<Rightarrow> cr_ct_eq cr rb expected_hash)
         in if \<not> matches then (Inl TranscriptMismatch, s\<lparr>ps_state := Aborted\<rparr>)
            else
              (let s1 = record_event event (s\<lparr>ps_state := AwaitingConfirmation\<rparr>)
               in try_op (ok_or (ps_sas_code s1) SasMismatch) s1 (\<lambda>code.
                  (Inr (format_sas code), s1)))))
     | other \<Rightarrow> (Inl (unexpected ''sas-confirm'' other), s))))"

definition confirm_target_sas :: "instant \<Rightarrow> session \<Rightarrow> (PairingError + unit) \<times> session" where
  "confirm_target_sas now s =
     try_op (entry_checks now AwaitingConfirmation Target s) s (\<lambda>_.
     (Inr (), s\<lparr>ps_state := Transferring\<rparr>))"

definition handle_payload ::
  "primitives \<Rightarrow> instant \<Rightarrow> nostr_event \<Rightarrow> session
     \<Rightarrow> (PairingError + (PayloadType \<times> string)) \<times> session" where
  "handle_payload cr now event s =
     try_op (entry_checks now Transferring Target s) s (\<lambda>_.
     try_op (validate_event_from_peer cr event s) s (\<lambda>_.
     try_op (decrypt_message cr event s) s (\<lambda>msg.
     case msg of
       Payload payload_type payload \<Rightarrow>
         (Inr (payload_type, payload), record_event event (s\<lparr>ps_state := PayloadExchanged\<rparr>))
     | other \<Rightarrow> (Inl (unexpected ''payload'' other), s))))"

definition send_complete ::
  "primitives \<Rightarrow> instant \<Rightarrow> draws \<Rightarrow> session \<Rightarrow> (PairingError + nostr_event) \<times> session" where
  "send_complete cr now dr s =
     try_op (entry_checks now PayloadExchanged Target s) s (\<lambda>_.
     try_op (build_event cr dr (Complete True) s) s (\<lambda>event.
     (Inr event, s\<lparr>ps_state := Completed\<rparr>)))"

section \<open>Aborting and queries\<close>

definition non_terminal :: "session \<Rightarrow> PairingError + unit" where
  "non_terminal s =
     guard_that (ps_state s \<noteq> Completed \<and> ps_state s \<noteq> Aborted)
       (UnexpectedMessage ''non-terminal state'' (''state '' @ state_debug (ps_state s)))"

definition abort ::
  "primitives \<Rightarrow> draws \<Rightarrow> AbortReason \<Rightarrow> session
     \<Rightarrow> (PairingError + nostr_event option) \<times> session" where
  "abort cr dr reason s =
     try_op (non_terminal s) s (\<lambda>_.
     if ps_peer_pubkey s = None then (Inr None, s\<lparr>ps_state := Aborted\<rparr>)
     else try_op (build_event cr dr (Abort reason) s) s (\<lambda>event.
          (Inr (Some event), s\<lparr>ps_state := Aborted\<rparr>)))"

definition handle_abort ::
  "primitives \<Rightarrow> nostr_event \<Rightarrow> session \<Rightarrow> (PairingError + AbortReason) \<times> session" where
  "handle_abort cr event s =
     try_op (non_terminal s) s (\<lambda>_.
     try_op (guard_that (ps_peer_pubkey s \<noteq> None)
       (InvalidPubkey ''cannot accept abort before peer is known'')) s (\<lambda>_.
     try_op (validate_event_from_peer cr event s) s (\<lambda>_.
     try_op (decrypt_message cr event s) s (\<lambda>msg.
     case msg of
       Abort reason \<Rightarrow> (Inr reason, record_event event (s\<lparr>ps_state := Aborted\<rparr>))
     | other \<Rightarrow> (Inl (unexpected ''abort'' other), s)))))"

definition session_pubkey :: "primitives \<Rightarrow> session \<Rightarrow> pubkey" where
  "session_pubkey cr s = cr_public_key cr (ps_keys s)"

definition session_sas_code :: "session \<Rightarrow> string option" where
  "session_sas_code s = map_option format_sas (ps_sas_code s)"

end
