(* ===== verification/PairingProps.thy ===== *)
theory PairingProps
  imports Pairing
begin

text \<open>
  Properties of the pairing session: the order of its states, what an outsider's event can do to
  it, the order of the user confirmations, and a complete run between a source and a target.
\<close>

section \<open>Operations as a log\<close>

datatype session_op =
    DoHandleOffer instant nostr_event
  | DoConfirmSas instant draws
  | DoSendPayload instant draws PayloadType string
  | DoHandleComplete instant nostr_event
  | DoHandleSasConfirm instant nostr_event
  | DoConfirmTargetSas instant
  | DoHandlePayload instant nostr_event
  | DoSendComplete instant draws
  | DoAbort draws AbortReason
  | DoHandleAbort nostr_event

definition outcome :: "('e + 'a) \<times> session \<Rightarrow> bool \<times> session" where
  "outcome rs = (is_ok (fst rs), snd rs)"

fun run_op :: "primitives \<Rightarrow> session_op \<Rightarrow> session \<Rightarrow> bool \<times> session" where
  "run_op cr (DoHandleOffer now ev) s = outcome (handle_offer cr now ev s)"
| "run_op cr (DoConfirmSas now dr) s = outcome (confirm_sas cr now dr s)"
| "run_op cr (DoSendPayload now dr ty pl) s = outcome (send_payload cr now dr ty pl s)"
| "run_op cr (DoHandleComplete now ev) s = outcome (handle_complete cr now ev s)"
| "run_op cr (DoHandleSasConfirm now ev) s = outcome (handle_sas_confirm cr now ev s)"
| "run_op cr (DoConfirmTargetSas now) s = outcome (confirm_target_sas now s)"
| "run_op cr (DoHandlePayload now ev) s = outcome (handle_payload cr now ev s)"
| "run_op cr (DoSendComplete now dr) s = outcome (send_complete cr now dr s)"
| "run_op cr (DoAbort dr reason) s = outcome (abort cr dr reason s)"
| "run_op cr (DoHandleAbort ev) s = outcome (handle_abort cr ev s)"

inductive session_run ::
  "primitives \<Rightarrow> session \<Rightarrow> (session_op \<times> bool) list \<Rightarrow> session \<Rightarrow> bool" for cr s0 where
  start: "session_run cr s0 [] s0"
| step: "session_run cr s0 log s \<Longrightarrow> run_op cr op s = (ok, s') \<Longrightarrow>
    session_run cr s0 (log @ [(op, ok)]) s'"

section \<open>What each operation does to the state\<close>

text \<open>
  The transition an operation makes when it succeeds, and the two failures that abort the
  session; every other failure leaves the state alone.
\<close>

fun op_edge :: "session_op \<Rightarrow> Role \<Rightarrow> SessionState \<Rightarrow> SessionState \<Rightarrow> bool" where
  "op_edge (DoHandleOffer _ _) r a b \<longleftrightarrow> r = Source \<and> a = Waiting \<and> b = Confirming"
| "op_edge (DoConfirmSas _ _) r a b \<longleftrightarrow> r = Source \<and> a = Confirming \<and> b = Transferring"
| "op_edge (DoSendPayload _ _ _ _) r a b \<longleftrightarrow> r = Source \<and> a = Transferring \<and> b = PayloadExchanged"
| "op_edge (DoHandleComplete _ _) r a b \<longleftrightarrow> r = Source \<and> a = PayloadExchanged \<and> b = Completed"
| "op_edge (DoHandleSasConfirm _ _) r a b \<longleftrightarrow>
     r = Target \<and> a = Confirming \<and> b = AwaitingConfirmation"
| "op_edge (DoConfirmTargetSas _) r a b \<longleftrightarrow>
     r = Target \<and> a = AwaitingConfirmation \<and> b = Transferring"
| "op_edge (DoHandlePayload _ _) r a b \<longleftrightarrow> r = Target \<and> a = Transferring \<and> b = PayloadExchanged"
| "op_edge (DoSendComplete _ _) r a b \<longleftrightarrow> r = Target \<and> a = PayloadExchanged \<and> b = Completed"
| "op_edge (DoAbort _ _) r a b \<longleftrightarrow> a \<noteq> Completed \<and> a \<noteq> Aborted \<and> b = Aborted"
| "op_edge (DoHandleAbort _) r a b \<longleftrightarrow> a \<noteq> Completed \<and> a \<noteq> Aborted \<and> b = Aborted"

fun fail_edge :: "session_op \<Rightarrow> Role \<Rightarrow> SessionState \<Rightarrow> SessionState \<Rightarrow> bool" where
  "fail_edge (DoHandleComplete _ _) r a b \<longleftrightarrow> r = Source \<and> a = PayloadExchanged \<and> b = Aborted"
| "fail_edge (DoHandleSasConfirm _ _) r a b \<longleftrightarrow>
     r = Target \<and> a = Confirming \<and> (b = Aborted \<or> b = AwaitingConfirmation)"
| "fail_edge _ r a b \<longleftrightarrow> False"

lemma entry_checks_Ok [simp]:
  "entry_checks now st role s = Inr u \<longleftrightarrow>
     \<not> is_expired now s \<and> ps_state s = st \<and> ps_role s = role"
  by (auto simp: entry_checks_def check_expired_def expect_state_def expect_role_def and_then_eq_Ok)

lemma record_event_fields [simp]:
  "ps_role (record_event e s) = ps_role s" "ps_state (record_event e s) = ps_state s"
  "ps_keys (record_event e s) = ps_keys s" "ps_peer_pubkey (record_event e s) = ps_peer_pubkey s"
  "ps_sas_code (record_event e s) = ps_sas_code s" "ps_sas_input (record_event e s) = ps_sas_input s"
  "ps_session_id (record_event e s) = ps_session_id s"
  "ps_session_secret (record_event e s) = ps_session_secret s"
  "ps_created_at (record_event e s) = ps_created_at s" "ps_timeout (record_event e s) = ps_timeout s"
  "ps_processed_ids (record_event e s) = List.insert (ev_id e) (ps_processed_ids s)"
  by (simp_all add: record_event_def)

lemma non_terminal_Ok [simp]:
  "non_terminal s = Inr u \<longleftrightarrow> ps_state s \<noteq> Completed \<and> ps_state s \<noteq> Aborted"
  by (simp add: non_terminal_def)

definition edge_ok :: "session_op \<Rightarrow> session \<Rightarrow> bool \<times> session \<Rightarrow> bool" where
  "edge_ok op s res \<longleftrightarrow> ps_role (snd res) = ps_role s \<and>
     (ps_sas_code s \<noteq> None \<longrightarrow> ps_sas_code (snd res) \<noteq> None \<and>
        (\<not> fst res \<longrightarrow> ps_state s = Confirming \<longrightarrow> ps_state (snd res) \<noteq> AwaitingConfirmation)) \<and>
     (if fst res then op_edge op (ps_role s) (ps_state s) (ps_state (snd res))
      else ps_state (snd res) = ps_state s \<or>
           fail_edge op (ps_role s) (ps_state s) (ps_state (snd res)))"

lemma edge_ok_err [simp]: "edge_ok op s (outcome (Inl e, s))"
  by (simp add: edge_ok_def outcome_def)

lemma edge_ok_attempt:
  "(\<And>a. r = Inr a \<Longrightarrow> edge_ok op s (outcome (k a))) \<Longrightarrow> edge_ok op s (outcome (try_op r s k))"
  by (cases r) simp_all

lemmas edge_defs = edge_ok_def outcome_def

lemma edge_handle_offer: "edge_ok (DoHandleOffer now ev) s (outcome (handle_offer cr now ev s))"
  unfolding handle_offer_def
  by (intro edge_ok_attempt)
    (auto simp: edge_defs try_op_def Let_def split: PairingMessage.split option.split sum.split
      prod.split)

lemma edge_confirm_sas: "edge_ok (DoConfirmSas now dr) s (outcome (confirm_sas cr now dr s))"
  unfolding confirm_sas_def Let_def by (intro edge_ok_attempt) (simp add: edge_defs)

lemma edge_send_payload:
  "edge_ok (DoSendPayload now dr ty pl) s (outcome (send_payload cr now dr ty pl s))"
  unfolding send_payload_def by (intro edge_ok_attempt) (simp add: edge_defs)

lemma edge_handle_complete:
  "edge_ok (DoHandleComplete now ev) s (outcome (handle_complete cr now ev s))"
  unfolding handle_complete_def
  by (intro edge_ok_attempt) (auto simp: edge_defs split: PairingMessage.split)

lemma edge_handle_sas_confirm:
  "edge_ok (DoHandleSasConfirm now ev) s (outcome (handle_sas_confirm cr now ev s))"
  unfolding handle_sas_confirm_def
  by (intro edge_ok_attempt)
    (auto simp: edge_defs try_op_def Let_def split: PairingMessage.split sum.split)

lemma edge_confirm_target: "edge_ok (DoConfirmTargetSas now) s (outcome (confirm_target_sas now s))"
  unfolding confirm_target_sas_def by (intro edge_ok_attempt) (simp add: edge_defs)

lemma edge_handle_payload: "edge_ok (DoHandlePayload now ev) s (outcome (handle_payload cr now ev s))"
  unfolding handle_payload_def
  by (intro edge_ok_attempt) (auto simp: edge_defs split: PairingMessage.split)

lemma edge_send_complete: "edge_ok (DoSendComplete now dr) s (outcome (send_complete cr now dr s))"
  unfolding send_complete_def by (intro edge_ok_attempt) (simp add: edge_defs)

lemma edge_abort: "edge_ok (DoAbort dr reason) s (outcome (abort cr dr reason s))"
  unfolding abort_def
  by (rule edge_ok_attempt) (auto simp: edge_defs try_op_def split: sum.split)

lemma edge_handle_abort: "edge_ok (DoHandleAbort ev) s (outcome (handle_abort cr ev s))"
  unfolding handle_abort_def
  by (intro edge_ok_attempt) (auto simp: edge_defs split: PairingMessage.split)

lemma run_op_edge: "edge_ok op s (run_op cr op s)"
  by (cases op)
    (simp_all add: edge_handle_offer edge_confirm_sas edge_send_payload edge_handle_complete
      edge_handle_sas_confirm edge_confirm_target edge_handle_payload edge_send_complete edge_abort
      edge_handle_abort)

lemma run_op_cases:
  assumes "run_op cr op s = (ok, s')"
  shows "ps_role s' = ps_role s"
    and "ok \<Longrightarrow> op_edge op (ps_role s) (ps_state s) (ps_state s')"
    and "\<not> ok \<Longrightarrow> ps_state s' = ps_state s \<or> fail_edge op (ps_role s) (ps_state s) (ps_state s')"
    and "ps_sas_code s \<noteq> None \<Longrightarrow> ps_sas_code s' \<noteq> None"
    and "ps_sas_code s \<noteq> None \<Longrightarrow> \<not> ok \<Longrightarrow> ps_state s = Confirming \<Longrightarrow>
      ps_state s' \<noteq> AwaitingConfirmation"
  using run_op_edge [of op s cr] assms by (auto simp: edge_ok_def)

fun rank :: "SessionState \<Rightarrow> nat" where
  "rank Waiting = 0"
| "rank Confirming = 1"
| "rank AwaitingConfirmation = 2"
| "rank Transferring = 3"
| "rank PayloadExchanged = 4"
| "rank Completed = 5"
| "rank Aborted = 5"

lemma op_edge_rank: "op_edge op r a b \<Longrightarrow> rank a < rank b"
  by (cases op; cases a; cases b) simp_all

lemma fail_edge_rank: "fail_edge op r a b \<Longrightarrow> rank a < rank b"
  by (cases op; cases a; cases b) simp_all

lemma run_op_rank:
  "run_op cr op s = (ok, s') \<Longrightarrow> rank (ps_state s) \<le> rank (ps_state s') \<and>
     (ok \<longrightarrow> rank (ps_state s) < rank (ps_state s'))"
  using run_op_cases [of cr op s ok s'] op_edge_rank fail_edge_rank by (cases ok) fastforce+

lemma session_run_role: "session_run cr s0 log s \<Longrightarrow> ps_role s = ps_role s0"
  by (induction rule: session_run.induct) (auto dest: run_op_cases(1))

section \<open>Order of the confirmations\<close>

definition is_sas_confirm :: "session_op \<times> bool \<Rightarrow> bool" where
  "is_sas_confirm e \<longleftrightarrow> snd e \<and> (\<exists>now ev. fst e = DoHandleSasConfirm now ev)"
definition is_target_confirm :: "session_op \<times> bool \<Rightarrow> bool" where
  "is_target_confirm e \<longleftrightarrow> snd e \<and> (\<exists>now. fst e = DoConfirmTargetSas now)"
definition is_offer :: "session_op \<times> bool \<Rightarrow> bool" where
  "is_offer e \<longleftrightarrow> snd e \<and> (\<exists>now ev. fst e = DoHandleOffer now ev)"
definition is_source_confirm :: "session_op \<times> bool \<Rightarrow> bool" where
  "is_source_confirm e \<longleftrightarrow> snd e \<and> (\<exists>now dr. fst e = DoConfirmSas now dr)"

text \<open>The log has an entry of the first kind and, later, one of the second kind.\<close>

definition in_order ::
  "(session_op \<times> bool \<Rightarrow> bool) \<Rightarrow> (session_op \<times> bool \<Rightarrow> bool) \<Rightarrow> (session_op \<times> bool) list \<Rightarrow> bool"
where
  "in_order P Q log \<longleftrightarrow> (\<exists>a x b y c. log = a @ x # b @ y # c \<and> P x \<and> Q y)"

lemma in_order_snoc: "in_order P Q log \<Longrightarrow> in_order P Q (log @ [e])"
  unfolding in_order_def by (metis append.assoc append_Cons)

lemma in_order_last: "x \<in> set log \<Longrightarrow> P x \<Longrightarrow> Q e \<Longrightarrow> in_order P Q (log @ [e])"
  unfolding in_order_def by (metis append.assoc append_Cons split_list)

lemma source_order:
  "session_run cr s0 log s \<Longrightarrow> ps_role s0 = Source \<Longrightarrow> ps_state s0 = Waiting \<Longrightarrow>
     (ps_state s = Confirming \<longrightarrow> (\<exists>e\<in>set log. is_offer e)) \<and>
     ps_state s \<noteq> AwaitingConfirmation \<and>
     (ps_state s \<in> {Transferring, PayloadExchanged, Completed} \<longrightarrow>
        in_order is_offer is_source_confirm log)"
proof (induction rule: session_run.induct)
  case start
  then show ?case by simp
next
  case (step log s op ok s')
  have r: "ps_role s = Source" using session_run_role [OF step(1)] step(4) by simp
  note IH = step(3) [OF step(4,5)]
  note c = run_op_cases [OF step(2), unfolded r]
  show ?case
  proof (cases ok)
    case True
    with c(2) IH show ?thesis
      by (cases op) (auto simp: is_offer_def is_source_confirm_def in_order_snoc
          intro: in_order_last)
  next
    case False
    with c(3) IH show ?thesis
      by (cases op) (auto simp: in_order_snoc)
  qed
qed

lemma target_order:
  "session_run cr s0 log s \<Longrightarrow> ps_role s0 = Target \<Longrightarrow> ps_state s0 = Confirming \<Longrightarrow>
     ps_sas_code s0 \<noteq> None \<Longrightarrow> ps_sas_code s \<noteq> None \<and>
     (ps_state s = AwaitingConfirmation \<longrightarrow>
        (\<exists>e\<in>set log. is_sas_confirm e)) \<and>
     ps_state s \<noteq> Waiting \<and>
     (ps_state s \<in> {Transferring, PayloadExchanged, Completed} \<longrightarrow>
        in_order is_sas_confirm is_target_confirm log)"
proof (induction rule: session_run.induct)
  case start
  then show ?case by simp
next
  case (step log s op ok s')
  have r: "ps_role s = Target" using session_run_role [OF step(1)] step(4) by simp
  note IH = step(3) [OF step(4,5,6)]
  note c = run_op_cases [OF step(2), unfolded r]
  show ?case
  proof (cases ok)
    case True
    with c(2,4) IH show ?thesis
      by (cases op) (auto simp: is_target_confirm_def is_sas_confirm_def in_order_snoc intro: in_order_last)
  next
    case False
    with c(3,4,5) IH show ?thesis
      by (cases op) (auto simp: in_order_snoc)
  qed
qed

section \<open>A delivered message\<close>

text \<open>
  A secret key of the curve is 32 bytes that read, most significant first, as a number below the
  order of the group and not zero.
\<close>

definition be_nat :: "bytes \<Rightarrow> nat" where
  "be_nat b = foldl (\<lambda>n x. n * 256 + unat x) 0 b"

definition valid_seckey :: "seckey \<Rightarrow> bool" where
  "valid_seckey a \<longleftrightarrow> length a = 32 \<and> 0 < be_nat a \<and>
     be_nat a < 0xFFFFFFFFFFFFFFFFFFFFFFFFFFFFFFFEBAAEDCE6AF48A03BBFD25E8CD0364141"

text \<open>
  What the run relies on of the other crates, for valid keys: ECDH is symmetric; NIP-44 encrypts a
  plaintext of 1 to 65535 bytes under a nonce of 32, gives a payload of 132 to 87472 characters, and
  decrypts it at the other end; a signed event verifies and carries what was signed; a \<open>p\<close> tag has
  its key as value; a public key has 32 bytes; hexadecimal decodes what it encoded; the comparison
  of two digests is equality; HKDF with SHA-256 gives as many bytes as asked for, up to its limit of
  255 blocks.
\<close>

definition primitives_laws :: "primitives \<Rightarrow> bool" where
  "primitives_laws cr \<longleftrightarrow>
     (\<forall>a b. valid_seckey a \<longrightarrow> valid_seckey b \<longrightarrow>
        (\<exists>k. cr_shared_key cr a (cr_public_key cr b) = Inr k \<and>
             cr_shared_key cr b (cr_public_key cr a) = Inr k)) \<and>
     (\<forall>n a b p. length n = 32 \<longrightarrow> valid_seckey a \<longrightarrow> valid_seckey b \<longrightarrow>
        1 \<le> length p \<longrightarrow> length p \<le> 65535 \<longrightarrow>
        (\<exists>c. cr_encrypt cr n a (cr_public_key cr b) p = Inr c \<and>
             132 \<le> length c \<and> length c \<le> 87472 \<and>
             cr_decrypt cr b (cr_public_key cr a) c = Inr p)) \<and>
     (\<forall>a k c ts t. valid_seckey a \<longrightarrow>
        (\<exists>e. cr_sign cr a k c ts t = Inr e \<and> cr_verify cr e = Inr () \<and>
             ev_pubkey e = cr_public_key cr a \<and> ev_kind e = k \<and> ev_content e = c \<and> ev_tags e = ts)) \<and>
     (\<forall>pk. tag_slice (cr_tag_public_key cr pk) = [''p'', pk]) \<and>
     (\<forall>pk. length (cr_pubkey_bytes cr pk) = 32) \<and>
     (\<forall>b. length b = 32 \<longrightarrow> cr_hex_decode cr (cr_hex_encode cr b) = Inr b) \<and>
     (\<forall>a b. length a = 32 \<longrightarrow> length b = 32 \<longrightarrow> (cr_ct_eq cr a b \<longleftrightarrow> a = b)) \<and>
     (\<forall>salt ikm info n. n \<le> 255 * 32 \<longrightarrow>
        length (cr_hkdf_expand cr (cr_hkdf_extract cr salt ikm) info n) = n)"

text \<open>The codec of the messages on one message: its text can be encrypted and reads back.\<close>

definition codec_ok :: "primitives \<Rightarrow> PairingMessage \<Rightarrow> bool" where
  "codec_ok cr m \<longleftrightarrow>
     (\<exists>j. cr_to_json cr m = Inr j \<and> 1 \<le> length j \<and> length j \<le> 65535 \<and> cr_from_json cr j = Inr m)"

lemma hkdf32_length: "primitives_laws cr \<Longrightarrow> length (hkdf32 cr salt ikm info) = 32"
  by (simp add: primitives_laws_def hkdf32_def Let_def)

text \<open>The event \<open>e\<close> carries \<open>m\<close> from the holder of the key \<open>a\<close> to the holder of \<open>b\<close>.\<close>

definition carries :: "primitives \<Rightarrow> seckey \<Rightarrow> seckey \<Rightarrow> PairingMessage \<Rightarrow> nostr_event \<Rightarrow> bool" where
  "carries cr a b m e \<longleftrightarrow> cr_verify cr e = Inr () \<and> ev_pubkey e = cr_public_key cr a \<and>
     ev_kind e = PAIRING_KIND \<and> ev_tags e = [cr_tag_public_key cr (cr_public_key cr b)] \<and>
     132 \<le> length (ev_content e) \<and> length (ev_content e) \<le> 87472 \<and>
     (\<exists>j. cr_decrypt cr b (cr_public_key cr a) (ev_content e) = Inr j \<and> length j \<le> 65535 \<and>
        cr_from_json cr j = Inr m)"

lemma build_carries:
  assumes laws: "primitives_laws cr" and "codec_ok cr m"
    and "ps_peer_pubkey s = Some (cr_public_key cr b)"
    and keys: "valid_seckey (ps_keys s)" "valid_seckey b" and nonce: "length (dr_nonce dr) = 32"
  shows "\<exists>e. build_event cr dr m s = Inr e \<and> carries cr (ps_keys s) b m e"
proof -
  from assms(2) obtain j where j: "cr_to_json cr m = Inr j" "1 \<le> length j" "length j \<le> 65535"
    "cr_from_json cr j = Inr m" by (auto simp: codec_ok_def)
  from laws j(2,3) keys nonce obtain c where c: "cr_encrypt cr (dr_nonce dr) (ps_keys s) (cr_public_key cr b) j = Inr c"
    "132 \<le> length c" "length c \<le> 87472" "cr_decrypt cr b (cr_public_key cr (ps_keys s)) c = Inr j"
    unfolding primitives_laws_def by metis
  let ?ts = "dr_now dr - unat (dr_random dr mod 31)"
  from laws keys(1) obtain e where e: "cr_sign cr (ps_keys s) PAIRING_KIND c
      [cr_tag_public_key cr (cr_public_key cr b)] ?ts = Inr e"
    "cr_verify cr e = Inr ()" "ev_pubkey e = cr_public_key cr (ps_keys s)"
    "ev_kind e = PAIRING_KIND" "ev_content e = c"
    "ev_tags e = [cr_tag_public_key cr (cr_public_key cr b)]"
    unfolding primitives_laws_def by metis
  from assms(3) j c e show ?thesis
    by (auto simp: build_event_def carries_def Let_def)
qed

lemma carries_received:
  assumes laws: "primitives_laws cr" and c: "carries cr a (ps_keys s) m e"
    and fresh: "ev_id e \<notin> set (ps_processed_ids s)"
  shows "validate_event_basics cr e s = Inr ()" and "decrypt_message cr e s = Inr m"
    and "ps_peer_pubkey s = Some (cr_public_key cr a) \<Longrightarrow> validate_event_from_peer cr e s = Inr ()"
proof -
  have "tag_slice (cr_tag_public_key cr pk) = [''p'', pk]" for pk
    using laws by (simp add: primitives_laws_def)
  then show v: "validate_event_basics cr e s = Inr ()"
    using c fresh by (simp add: validate_event_basics_def carries_def p_tag_matches_def)
  show "decrypt_message cr e s = Inr m"
    using c by (auto simp: decrypt_message_def carries_def Let_def)
  show "ps_peer_pubkey s = Some (cr_public_key cr a) \<Longrightarrow> validate_event_from_peer cr e s = Inr ()"
    using v c by (simp add: validate_event_from_peer_def carries_def)
qed

section \<open>A complete run\<close>

lemma entry_ok:
  "\<not> is_expired now s \<Longrightarrow> ps_state s = st \<Longrightarrow> ps_role s = role \<Longrightarrow>
     entry_checks now st role s = Inr ()"
  by simp

lemma decode_32_encode:
  "primitives_laws cr \<Longrightarrow> length b = 32 \<Longrightarrow> decode_32 cr (cr_hex_encode cr b) = Some b"
  by (simp add: primitives_laws_def decode_32_def)

lemma ct_eq_same: "primitives_laws cr \<Longrightarrow> length b = 32 \<Longrightarrow> cr_ct_eq cr b b"
  by (simp add: primitives_laws_def)

lemma handle_offer_ok:
  assumes laws: "primitives_laws cr" and s: "\<not> is_expired now s" "ps_state s = Waiting"
      "ps_role s = Source" "ps_processed_ids s = []" "length (ps_session_id s) = 32"
    and e: "carries cr a (ps_keys s) (Offer (cr_hex_encode cr (ps_session_id s)) 1) e"
    and k: "cr_shared_key cr (ps_keys s) (cr_public_key cr a) = Inr k"
    and sas: "derive_sas cr k (ps_session_secret s) = (code, inp)"
  shows "handle_offer cr now e s = (Inr (format_sas code),
    s\<lparr>ps_state := Confirming, ps_peer_pubkey := Some (cr_public_key cr a),
      ps_sas_code := Some code, ps_sas_input := Some inp, ps_processed_ids := [ev_id e]\<rparr>)"
proof -
  have pk: "ev_pubkey e = cr_public_key cr a" using e by (simp add: carries_def)
  from carries_received [OF laws e] s(4)
  have "validate_event_basics cr e s = Inr ()"
    "decrypt_message cr e s = Inr (Offer (cr_hex_encode cr (ps_session_id s)) 1)" by simp_all
  then show ?thesis
    using s k sas pk decode_32_encode [OF laws s(5)] ct_eq_same [OF laws s(5)]
    by (simp add: handle_offer_def entry_ok record_event_def Let_def del: entry_checks_Ok)
qed

lemma confirm_sas_ok:
  assumes laws: "primitives_laws cr" and s: "\<not> is_expired now s" "ps_state s = Confirming"
      "ps_role s = Source" "ps_sas_input s = Some inp" "ps_peer_pubkey s = Some (cr_public_key cr b)"
    and keys: "valid_seckey (ps_keys s)" "valid_seckey b" "length (dr_nonce dr) = 32"
    and codec: "\<And>d. length d = 32 \<Longrightarrow> codec_ok cr (SasConfirm (cr_hex_encode cr d))"
  shows "\<exists>e. confirm_sas cr now dr s = (Inr e, s\<lparr>ps_state := Transferring\<rparr>) \<and>
    carries cr (ps_keys s) b (SasConfirm (cr_hex_encode cr (derive_transcript_hash cr
      (ps_session_id s) (cr_pubkey_bytes cr (cr_public_key cr (ps_keys s)))
      (cr_pubkey_bytes cr (cr_public_key cr b)) inp (ps_session_secret s)))) e"
proof -
  let ?h = "cr_hex_encode cr (derive_transcript_hash cr
      (ps_session_id s) (cr_pubkey_bytes cr (cr_public_key cr (ps_keys s)))
      (cr_pubkey_bytes cr (cr_public_key cr b)) inp (ps_session_secret s))"
  have "codec_ok cr (SasConfirm ?h)"
    by (rule codec) (simp add: hkdf32_length [OF laws] derive_transcript_hash_def)
  from build_carries [OF laws this s(5) keys] obtain e where
    "build_event cr dr (SasConfirm ?h) s = Inr e" "carries cr (ps_keys s) b (SasConfirm ?h) e"
    by blast
  with s show ?thesis
    by (simp add: confirm_sas_def entry_ok Let_def del: entry_checks_Ok)
qed

lemma handle_sas_confirm_ok:
  assumes laws: "primitives_laws cr" and s: "\<not> is_expired now s" "ps_state s = Confirming"
      "ps_role s = Target" "ps_sas_input s = Some inp" "ps_sas_code s = Some code"
      "ps_peer_pubkey s = Some (cr_public_key cr a)" "ps_processed_ids s = []"
    and e: "carries cr a (ps_keys s) (SasConfirm (cr_hex_encode cr (derive_transcript_hash cr
      (ps_session_id s) (cr_pubkey_bytes cr (cr_public_key cr a))
      (cr_pubkey_bytes cr (cr_public_key cr (ps_keys s))) inp (ps_session_secret s)))) e"
  shows "handle_sas_confirm cr now e s = (Inr (format_sas code),
    s\<lparr>ps_state := AwaitingConfirmation, ps_processed_ids := [ev_id e]\<rparr>)"
proof -
  have "length (derive_transcript_hash cr (ps_session_id s) (cr_pubkey_bytes cr (cr_public_key cr a))
      (cr_pubkey_bytes cr (cr_public_key cr (ps_keys s))) inp (ps_session_secret s)) = 32"
    using hkdf32_length [OF laws] by (simp add: derive_transcript_hash_def)
  note dec = decode_32_encode [OF laws this] ct_eq_same [OF laws this]
  from carries_received [OF laws e] s(6,7) show ?thesis
    using s dec
    by (simp add: handle_sas_confirm_def entry_ok record_event_def Let_def del: entry_checks_Ok)
qed

text \<open>
  The source \<open>s\<close> with key \<open>a\<close> and the target with key \<open>b\<close>, run in step with each other: the pieces
  of the exchange with the sessions they lead to.
\<close>

lemma full_exchange:
  assumes laws: "primitives_laws cr"
    and keys: "valid_seckey a" "valid_seckey b"
    and nonces: "\<forall>d\<in>{d1, d2, d3, d4}. length (dr_nonce d) = 32"
    and codec: "\<And>d. length d = 32 \<Longrightarrow> codec_ok cr (SasConfirm (cr_hex_encode cr d))"
      "\<And>d. length d = 32 \<Longrightarrow> codec_ok cr (Offer (cr_hex_encode cr d) 1)" "codec_ok cr (Complete True)"
      "codec_ok cr (Payload ty pl)"
    and src: "new_source cr 0 a secret relay = (s0, qr)"
    and times: "t0 \<le> DEFAULT_TIMEOUT" "n1 \<le> DEFAULT_TIMEOUT"
  shows "\<exists>t1 offer sas s1 confirm s2 t2 t3 pay s3.
    new_target cr 0 d1 b qr = Inr (t1, offer) \<and>
    ps_role t1 = Target \<and> ps_state t1 = Confirming \<and> ps_sas_code t1 \<noteq> None \<and>
    handle_offer cr n1 offer s0 = (Inr sas, s1) \<and>
    confirm_sas cr n1 d2 s1 = (Inr confirm, s2) \<and>
    handle_sas_confirm cr t0 confirm t1 = (Inr sas, t2) \<and>
    confirm_target_sas t0 t2 = (Inr (), t3) \<and> ps_state t3 = Transferring \<and>
    send_payload cr n1 d3 ty pl s2 = (Inr pay, s3) \<and>
    (ev_id pay \<noteq> ev_id confirm \<longrightarrow>
       (\<exists>t4 done t5. handle_payload cr t0 pay t3 = (Inr (ty, pl), t4) \<and>
          send_complete cr t0 d4 t4 = (Inr done, t5) \<and> ps_state t5 = Completed \<and>
          (ev_id done \<noteq> ev_id offer \<longrightarrow>
             (\<exists>s4. handle_complete cr n1 done s3 = (Inr (), s4) \<and> ps_state s4 = Completed))))"
proof -
  note src' = src [unfolded new_source_def]
  have qr: "qr_source_pubkey qr = cr_public_key cr a" "qr_session_secret qr = secret"
    "qr_relays qr = [relay]" using src' by auto
  have s0: "ps_role s0 = Source" "ps_state s0 = Waiting" "ps_keys s0 = a"
    "ps_session_secret s0 = secret" "ps_session_id s0 = derive_session_id cr secret"
    "ps_processed_ids s0 = []" "ps_created_at s0 = 0" "ps_timeout s0 = DEFAULT_TIMEOUT"
    using src' by auto
  have sid: "length (derive_session_id cr secret) = 32"
    by (simp add: derive_session_id_def hkdf32_length [OF laws])
  from laws keys obtain k where k: "cr_shared_key cr a (cr_public_key cr b) = Inr k"
    "cr_shared_key cr b (cr_public_key cr a) = Inr k"
    unfolding primitives_laws_def by metis
  obtain code inp where sas: "derive_sas cr k secret = (code, inp)" by fastforce
  let ?t0 = "\<lparr>ps_role = Target, ps_state = Waiting, ps_keys = b, ps_session_secret = secret,
     ps_relay_urls = [relay], ps_peer_pubkey = Some (cr_public_key cr a),
     ps_session_id = derive_session_id cr secret, ps_sas_code = Some code,
     ps_sas_input = Some inp, ps_processed_ids = [], ps_created_at = 0,
     ps_timeout = DEFAULT_TIMEOUT\<rparr>"
  let ?t1 = "?t0\<lparr>ps_state := Confirming\<rparr>"
  from build_carries [OF laws codec(2) [OF sid], of ?t0 a d1] keys nonces obtain offer where
    offer: "build_event cr d1 (Offer (cr_hex_encode cr (derive_session_id cr secret)) 1) ?t0 = Inr offer"
      "carries cr b a (Offer (cr_hex_encode cr (derive_session_id cr secret)) 1) offer" by auto
  have nt: "new_target cr 0 d1 b qr = Inr (?t1, offer)"
    using offer(1) by (simp add: new_target_def qr k sas Let_def)
  let ?s1 = "s0\<lparr>ps_state := Confirming, ps_peer_pubkey := Some (cr_public_key cr b),
      ps_sas_code := Some code, ps_sas_input := Some inp, ps_processed_ids := [ev_id offer]\<rparr>"
  have ho: "handle_offer cr n1 offer s0 = (Inr (format_sas code), ?s1)"
    by (rule handle_offer_ok [OF laws])
      (use s0 sid offer(2) k sas times in \<open>simp_all add: is_expired_def\<close>)
  let ?s2 = "?s1\<lparr>ps_state := Transferring\<rparr>"
  have "\<exists>e. confirm_sas cr n1 d2 ?s1 = (Inr e, ?s1\<lparr>ps_state := Transferring\<rparr>) \<and>
    carries cr (ps_keys ?s1) b (SasConfirm (cr_hex_encode cr (derive_transcript_hash cr
      (ps_session_id ?s1) (cr_pubkey_bytes cr (cr_public_key cr (ps_keys ?s1)))
      (cr_pubkey_bytes cr (cr_public_key cr b)) inp (ps_session_secret ?s1)))) e"
    by (rule confirm_sas_ok [OF laws])
      (use s0 times codec(1) keys nonces in \<open>simp_all add: is_expired_def\<close>)
  then obtain confirm where cs: "confirm_sas cr n1 d2 ?s1 = (Inr confirm, ?s2)"
    and confirm: "carries cr a b (SasConfirm (cr_hex_encode cr (derive_transcript_hash cr
      (derive_session_id cr secret) (cr_pubkey_bytes cr (cr_public_key cr a))
      (cr_pubkey_bytes cr (cr_public_key cr b)) inp secret))) confirm"
    by (auto simp: s0)
  let ?t2 = "?t1\<lparr>ps_state := AwaitingConfirmation, ps_processed_ids := [ev_id confirm]\<rparr>"
  let ?t3 = "?t2\<lparr>ps_state := Transferring\<rparr>"
  have hs: "handle_sas_confirm cr t0 confirm ?t1 = (Inr (format_sas code), ?t2)"
    by (rule handle_sas_confirm_ok [OF laws])
      (use confirm times in \<open>simp_all add: is_expired_def\<close>)
  have ct: "confirm_target_sas t0 ?t2 = (Inr (), ?t3)"
    using times by (simp add: confirm_target_sas_def entry_ok is_expired_def del: entry_checks_Ok)
  from build_carries [OF laws codec(4), of ?s2 b d3] s0 keys nonces obtain pay where
    pay: "build_event cr d3 (Payload ty pl) ?s2 = Inr pay" "carries cr a b (Payload ty pl) pay"
    by auto
  let ?s3 = "?s2\<lparr>ps_state := PayloadExchanged\<rparr>"
  have sp: "send_payload cr n1 d3 ty pl ?s2 = (Inr pay, ?s3)"
    using times s0 pay(1)
    by (simp add: send_payload_def entry_ok is_expired_def del: entry_checks_Ok)
  let ?t4 = "record_event pay (?t3\<lparr>ps_state := PayloadExchanged\<rparr>)"
  from build_carries [OF laws codec(3), of ?t4 a d4] keys nonces obtain fin where
    fin: "build_event cr d4 (Complete True) ?t4 = Inr fin" "carries cr b a (Complete True) fin"
    by auto
  let ?t5 = "?t4\<lparr>ps_state := Completed\<rparr>"
  have sc: "send_complete cr t0 d4 ?t4 = (Inr fin, ?t5)"
    using times fin(1)
    by (simp add: send_complete_def entry_ok is_expired_def del: entry_checks_Ok)
  have hp: "handle_payload cr t0 pay ?t3 = (Inr (ty, pl), ?t4)" if "ev_id pay \<noteq> ev_id confirm"
  proof -
    have "validate_event_from_peer cr pay ?t3 = Inr ()" "decrypt_message cr pay ?t3 = Inr (Payload ty pl)"
      using carries_received [OF laws, of a ?t3 "Payload ty pl" pay] pay(2) that by simp_all
    then show ?thesis
      using times by (simp add: handle_payload_def entry_ok is_expired_def del: entry_checks_Ok)
  qed
  let ?s4 = "record_event fin (?s3\<lparr>ps_state := Completed\<rparr>)"
  have hc: "handle_complete cr n1 fin ?s3 = (Inr (), ?s4)" if "ev_id fin \<noteq> ev_id offer"
  proof -
    have "validate_event_from_peer cr fin ?s3 = Inr ()" "decrypt_message cr fin ?s3 = Inr (Complete True)"
      using carries_received [OF laws, of b ?s3 "Complete True" fin] fin(2) that s0 by simp_all
    then show ?thesis
      using times s0 by (simp add: handle_complete_def entry_ok is_expired_def del: entry_checks_Ok)
  qed
  have last: "\<exists>s4. handle_complete cr n1 fin ?s3 = (Inr (), s4) \<and> ps_state s4 = Completed"
    if "ev_id fin \<noteq> ev_id offer"
    using hc [OF that] by (intro exI [of _ ?s4]) simp
  have rest: "\<exists>t4 done t5. handle_payload cr t0 pay ?t3 = (Inr (ty, pl), t4) \<and>
      send_complete cr t0 d4 t4 = (Inr done, t5) \<and> ps_state t5 = Completed \<and>
      (ev_id done \<noteq> ev_id offer \<longrightarrow>
         (\<exists>s4. handle_complete cr n1 done ?s3 = (Inr (), s4) \<and> ps_state s4 = Completed))"
    if "ev_id pay \<noteq> ev_id confirm"
    by (rule exI [of _ ?t4], rule exI [of _ fin], rule exI [of _ ?t5],
        intro conjI impI hp [OF that] sc last) simp_all
  have st: "ps_role ?t1 = Target" "ps_state ?t1 = Confirming" "ps_sas_code ?t1 \<noteq> None"
    "ps_state ?t3 = Transferring" by simp_all
  show ?thesis
    by (rule exI [of _ ?t1], rule exI [of _ offer], rule exI [of _ "format_sas code"],
        rule exI [of _ ?s1], rule exI [of _ confirm], rule exI [of _ ?s2], rule exI [of _ ?t2],
        rule exI [of _ ?t3], rule exI [of _ pay], rule exI [of _ ?s3])
      (intro conjI impI nt st ho cs hs ct sp rest)
qed

section \<open>Properties\<close>

text \<open>A concrete instance of the primitives, and its laws.\<close>

fun toy_to_json :: "PairingMessage \<Rightarrow> string + string" where
  "toy_to_json (Offer h v) = Inr (CHR ''O'' # h)"
| "toy_to_json (SasConfirm h) = Inr (CHR ''S'' # h)"
| "toy_to_json (Payload ty p) = Inr (CHR ''P'' # p)"
| "toy_to_json (Complete b) = Inr ''C''"
| "toy_to_json (Abort r) = Inl ''unsupported''"

definition toy_from_json :: "string \<Rightarrow> string + PairingMessage" where
  "toy_from_json j =
     (case j of
        [] \<Rightarrow> Inl ''empty''
      | c # r \<Rightarrow> if c = CHR ''O'' then Inr (Offer r 1) else if c = CHR ''S'' then Inr (SasConfirm r)
          else if c = CHR ''P'' then Inr (Payload Nsec r) else if c = CHR ''C'' then Inr (Complete True)
          else Inl ''unknown'')"

definition byte_char :: "u8 \<Rightarrow> char" where "byte_char b = char_of (unat b)"
definition char_byte :: "char \<Rightarrow> u8" where "char_byte c = word_of_nat (of_char c)"

lemma char_byte_char [simp]: "char_byte (byte_char b) = b"
proof -
  have "unat b < 256" using unsigned_less [of b, where ?'a = nat] by simp
  then show ?thesis by (simp add: char_byte_def byte_char_def)
qed

definition toy_primitives :: primitives where
  "toy_primitives = \<lparr>
     cr_public_key = map byte_char,
     cr_pubkey_bytes = (\<lambda>p. take 32 (map char_byte p @ replicate 32 0)),
     cr_hkdf_extract = (\<lambda>salt ikm. salt @ ikm),
     cr_hkdf_expand = (\<lambda>prk info n. take n (prk @ info @ replicate n 0)),
     cr_shared_key = (\<lambda>a p. Inr (map2 (+) a (map char_byte p))),
     cr_encrypt = (\<lambda>n a p t. if 1 \<le> length t \<and> length t \<le> 65535 then Inr (replicate 132 CHR ''.'' @ t) else Inl ''size''),
     cr_decrypt = (\<lambda>b p c. Inr (drop 132 c)),
     cr_to_json = toy_to_json,
     cr_from_json = toy_from_json,
     cr_sign = (\<lambda>a k c ts t. Inr \<lparr>ev_id = c, ev_pubkey = map byte_char a, ev_created_at = t, ev_kind = k,
        ev_tags = ts, ev_content = c\<rparr>),
     cr_verify = (\<lambda>e. if ev_id e = ev_content e then Inr () else Inl ''bad id''),
     cr_tag_public_key = (\<lambda>p. \<lparr>tag_kind = ''p'', tag_content = Some p, tag_slice = [''p'', p]\<rparr>),
     cr_hex_encode = (\<lambda>b. map byte_char b @ replicate (length b) CHR ''.''),
     cr_hex_decode = (\<lambda>h. Inr (map char_byte (take (length h div 2) h))),
     cr_ct_eq = (=)\<rparr>"

lemma toy_laws: "primitives_laws toy_primitives"
proof -
  have "map2 (+) a b = map2 (+) b a" for a b :: bytes
    by (simp add: list_eq_iff_nth_eq ac_simps)
  moreover have "map (char_byte \<circ> byte_char) b = b" for b :: bytes
    by (simp add: list_eq_iff_nth_eq)
  ultimately show ?thesis
    by (auto simp: primitives_laws_def toy_primitives_def)
qed

lemma toy_codec:
  "codec_ok toy_primitives (SasConfirm (cr_hex_encode toy_primitives (b :: bytes)))"
  if "length b = 32"
  using that by (simp add: codec_ok_def toy_primitives_def toy_from_json_def)

lemma toy_codec_offer:
  "codec_ok toy_primitives (Offer (cr_hex_encode toy_primitives (b :: bytes)) 1)"
  if "length b = 32"
  using that by (simp add: codec_ok_def toy_primitives_def toy_from_json_def)

lemma toy_codec_ends:
  "codec_ok toy_primitives (Complete True)" "codec_ok toy_primitives (Payload Nsec ''s'')"
  by (simp_all add: codec_ok_def toy_primitives_def toy_from_json_def)

lemma be_nat_Cons: "be_nat (x # xs) = unat x * 256 ^ length xs + be_nat xs"
proof -
  have app: "foldl (\<lambda>n x. n * 256 + unat x) k b = k * 256 ^ length b + be_nat b" for k and b :: bytes
    by (induction b rule: rev_induct) (simp_all add: be_nat_def)
  have "be_nat (x # xs) = foldl (\<lambda>n x. n * 256 + unat x) (unat x) xs" by (simp add: be_nat_def)
  then show ?thesis unfolding app .
qed

lemma be_nat_less: "be_nat b < 256 ^ length b"
proof (induction b rule: rev_induct)
  case (snoc x xs)
  have "unat x < 256" using unsigned_less [of x, where ?'a = nat] by simp
  with snoc show ?case by (simp add: be_nat_def)
qed (simp add: be_nat_def)

lemma small_key_valid:
  "length xs = 31 \<Longrightarrow> 0 < unat x \<Longrightarrow> unat x < 255 \<Longrightarrow> valid_seckey (x # xs)"
proof -
  assume x: "length xs = 31" "0 < unat x" "unat x < 255"
  have "unat x * 256 ^ 31 \<le> 254 * (256 :: nat) ^ 31" using x(3) by simp
  then have "be_nat (x # xs) < 255 * 256 ^ 31"
    using be_nat_less [of xs] x(1) by (simp add: be_nat_Cons)
  also have "\<dots> < 0xFFFFFFFFFFFFFFFFFFFFFFFFFFFFFFFEBAAEDCE6AF48A03BBFD25E8CD0364141"
    by simp
  finally show "valid_seckey (x # xs)" using x by (simp add: valid_seckey_def be_nat_Cons)
qed

lemma toy_keys: "valid_seckey (replicate 32 1)" "valid_seckey (replicate 32 3)"
proof -
  have "valid_seckey (replicate 32 c)" if "0 < unat c" "unat c < 255" for c :: u8
    using small_key_valid [of "replicate 31 c" c] that unfolding replicate_Suc [symmetric] by simp
  then show "valid_seckey (replicate 32 1)" "valid_seckey (replicate 32 3)" by simp_all
qed

text \<open>
  The states only move forward: an operation never lowers the rank of the state and a
  successful one raises it, so that a session accepts at most five operations; a completed or
  aborted session refuses everything and stays as it is.
\<close>

theorem states_move_forward:
  assumes "session_run cr s0 log s"
  shows "rank (ps_state s0) + length (filter snd log) \<le> rank (ps_state s) \<and>
    length (filter snd log) \<le> 5 \<and>
    (ps_state s0 \<in> {Completed, Aborted} \<longrightarrow>
       (\<forall>e\<in>set log. \<not> snd e) \<and> ps_state s = ps_state s0)"
proof -
  have r5: "rank st \<le> 5" for st by (cases st) simp_all
  have "rank (ps_state s0) + length (filter snd log) \<le> rank (ps_state s) \<and>
    (ps_state s0 \<in> {Completed, Aborted} \<longrightarrow>
       (\<forall>e\<in>set log. \<not> snd e) \<and> ps_state s = ps_state s0)"
    using assms
  proof (induction rule: session_run.induct)
    case (step log s op ok s')
    have edges: "\<not> op_edge op (ps_role s) st b \<and> \<not> fail_edge op (ps_role s) st b"
      if "st \<in> {Completed, Aborted}" for st b
      using that by (cases op) auto
    from run_op_rank [OF step(2)] run_op_cases(2,3) [OF step(2)] step.IH edges show ?case
      by (cases ok) auto
  qed simp
  with r5 [of "ps_state s"] show ?thesis by linarith
qed

definition demo_source :: session where
  "demo_source = fst (new_source toy_primitives 0 (replicate 32 1) (replicate 32 2) ''wss://r'')"

theorem states_move_forward_witness:
  "rank Waiting + length (filter snd [(DoAbort \<lparr>dr_nonce = [], dr_now = 0, dr_random = 0\<rparr> UserDenied,
     True)]) \<le> rank Aborted"
proof -
  let ?dr = "\<lparr>dr_nonce = [], dr_now = 0, dr_random = 0\<rparr>"
  have "run_op toy_primitives (DoAbort ?dr UserDenied) demo_source =
      (True, demo_source\<lparr>ps_state := Aborted\<rparr>)"
    by (simp add: abort_def non_terminal_def demo_source_def new_source_def outcome_def)
  from session_run.step [OF session_run.start this]
  have "session_run toy_primitives demo_source [(DoAbort ?dr UserDenied, True)]
      (demo_source\<lparr>ps_state := Aborted\<rparr>)" by simp
  from states_move_forward [OF this] show ?thesis
    by (simp add: demo_source_def new_source_def)
qed

text \<open>
  C2. No secret moves before both confirmations. A source is in a transferring or later state
  only after it accepted an offer and then its user confirmed the code; a target only after it
  verified the transcript of a \<open>sas-confirm\<close> and then its user confirmed the code.
\<close>

theorem confirmations_before_transfer:
  assumes "session_run cr s0 log s" and "ps_state s \<in> {Transferring, PayloadExchanged, Completed}"
  shows "(ps_role s0 = Source \<and> ps_state s0 = Waiting \<longrightarrow>
      in_order is_offer is_source_confirm log) \<and>
    (ps_role s0 = Target \<and> ps_state s0 = Confirming \<and> ps_sas_code s0 \<noteq> None \<longrightarrow>
      in_order is_sas_confirm is_target_confirm log)"
  using source_order [OF assms(1)] target_order [OF assms(1)] assms(2) by blast

theorem confirmations_before_transfer_witness:
  "\<exists>s0 log s. ps_role s0 = Target \<and> session_run toy_primitives s0 log s \<and>
     ps_state s = Transferring \<and> in_order is_sas_confirm is_target_confirm log"
proof -
  obtain s0 qr where src: "new_source toy_primitives 0 (replicate 32 1) (replicate 32 7) ''wss://r''
      = (s0, qr)" by fastforce
  let ?d = "\<lparr>dr_nonce = replicate 32 0, dr_now = 0, dr_random = 0\<rparr>"
  have nonces: "\<forall>d\<in>{?d, ?d, ?d, ?d}. length (dr_nonce d) = 32" by simp
  from full_exchange [OF toy_laws toy_keys nonces toy_codec toy_codec_offer toy_codec_ends src
      le0 le0]
  obtain t1 sas confirm t2 t3 where t: "ps_role t1 = Target" "ps_state t1 = Confirming"
      "ps_sas_code t1 \<noteq> None" "handle_sas_confirm toy_primitives 0 confirm t1 = (Inr sas, t2)"
      "confirm_target_sas 0 t2 = (Inr (), t3)" "ps_state t3 = Transferring"
    by blast
  have ops: "run_op toy_primitives (DoHandleSasConfirm 0 confirm) t1 = (True, t2)"
    "run_op toy_primitives (DoConfirmTargetSas 0) t2 = (True, t3)"
    using t by (simp_all add: outcome_def)
  from session_run.step [OF session_run.step [OF session_run.start ops(1)] ops(2)]
  have "session_run toy_primitives t1
      [(DoHandleSasConfirm 0 confirm, True), (DoConfirmTargetSas 0, True)] t3" by simp
  with confirmations_before_transfer [OF this] t show ?thesis
    by blast
qed

text \<open>
  An event that was seen before, does not verify, is of another kind, or comes from anyone
  but the peer is refused by every handler that knows its peer, and leaves no trace in the
  session.
\<close>

theorem foreign_events_rejected:
  assumes "ev_id ev \<in> set (ps_processed_ids s) \<or> \<not> is_ok (cr_verify cr ev) \<or>
    ev_kind ev \<noteq> PAIRING_KIND \<or> ps_peer_pubkey s \<notin> {None, Some (ev_pubkey ev)}"
  shows "snd (handle_sas_confirm cr now ev s) = s \<and> \<not> is_ok (fst (handle_sas_confirm cr now ev s)) \<and>
    snd (handle_payload cr now ev s) = s \<and> \<not> is_ok (fst (handle_payload cr now ev s)) \<and>
    snd (handle_complete cr now ev s) = s \<and> \<not> is_ok (fst (handle_complete cr now ev s)) \<and>
    snd (handle_abort cr ev s) = s \<and> \<not> is_ok (fst (handle_abort cr ev s))"
proof -
  have "validate_event_from_peer cr ev s \<noteq> Inr ()"
    using assms
    by (cases "cr_verify cr ev")
      (auto simp: validate_event_from_peer_def validate_event_basics_def and_then_eq_Ok
        split: option.splits)
  then obtain e where e: "validate_event_from_peer cr ev s = Inl e"
    by (cases "validate_event_from_peer cr ev s") auto
  have "(\<exists>x. try_op r s (\<lambda>_. try_op (validate_event_from_peer cr ev s) s k) = (Inl x, s))" for r :: "PairingError + unit" and k :: "unit \<Rightarrow> (PairingError + 'b) \<times> session"
    by (cases r) (simp_all add: e)
  note gen = this
  from gen [of "entry_checks now Confirming Target s"]
    gen [of "entry_checks now Transferring Target s"]
    gen [of "entry_checks now PayloadExchanged Source s"]
  show ?thesis
    unfolding handle_sas_confirm_def handle_payload_def handle_complete_def handle_abort_def e
    by (auto simp: try_op_def split: sum.split)
qed

theorem foreign_events_rejected_witness:
  "snd (handle_payload toy_primitives 0 \<lparr>ev_id = ''x'', ev_pubkey = ''mallory'', ev_created_at = 0,
     ev_kind = 24134, ev_tags = [], ev_content = ''x''\<rparr>
     (demo_source\<lparr>ps_peer_pubkey := Some ''bob''\<rparr>)) = demo_source\<lparr>ps_peer_pubkey := Some ''bob''\<rparr>"
proof -
  have "ps_peer_pubkey (demo_source\<lparr>ps_peer_pubkey := Some ''bob''\<rparr>) \<notin> {None, Some ''mallory''}"
    by simp
  then show ?thesis
    using foreign_events_rejected [of "\<lparr>ev_id = ''x'', ev_pubkey = ''mallory'', ev_created_at = 0,
     ev_kind = 24134, ev_tags = [], ev_content = ''x''\<rparr>" "demo_source\<lparr>ps_peer_pubkey := Some ''bob''\<rparr>"
     toy_primitives 0] by simp
qed



text \<open>What \<open>confirm_sas\<close> did when it gave an event: the message it built, and for whom.\<close>

lemma confirm_sas_event:
  assumes "confirm_sas cr now dr s = (Inr e, s')"
  obtains peer inp where "ps_peer_pubkey s = Some peer" "ps_sas_input s = Some inp"
    "build_event cr dr (SasConfirm (cr_hex_encode cr (derive_transcript_hash cr (ps_session_id s)
       (cr_pubkey_bytes cr (cr_public_key cr (ps_keys s))) (cr_pubkey_bytes cr peer)
       inp (ps_session_secret s)))) s = Inr e"
    "s' = s\<lparr>ps_state := Transferring\<rparr>"
  using assms
  by (auto simp: confirm_sas_def try_op_def ok_or_def Let_def split: sum.splits option.splits)

text \<open>The fields the program declares as arrays of 32 bytes.\<close>

definition sized :: "session \<Rightarrow> bool" where
  "sized s \<longleftrightarrow> length (ps_session_id s) = 32 \<and> length (ps_session_secret s) = 32 \<and>
     (\<forall>i. ps_sas_input s = Some i \<longrightarrow> length i = 32)"

text \<open>The digest a session's own view of the pairing gives, for the roles of \<open>src\<close> and \<open>tgt\<close>.\<close>

definition transcript :: "primitives \<Rightarrow> session \<Rightarrow> pubkey \<Rightarrow> pubkey \<Rightarrow> bytes \<Rightarrow> bytes" where
  "transcript cr s src tgt inp =
     ps_session_id s @ cr_pubkey_bytes cr src @ cr_pubkey_bytes cr tgt @ inp"


text \<open>The two sessions of a pairing after the offer, in the concrete instance.\<close>

definition demo_confirming :: "Role \<Rightarrow> bytes \<Rightarrow> bytes \<Rightarrow> session" where
  "demo_confirming r mine theirs =
     \<lparr>ps_role = r, ps_state = Confirming, ps_keys = mine, ps_session_secret = replicate 32 7,
      ps_relay_urls = [], ps_peer_pubkey = Some (cr_public_key toy_primitives theirs),
      ps_session_id = replicate 32 7, ps_sas_code = Some 5, ps_sas_input = Some (replicate 32 7),
      ps_processed_ids = [], ps_created_at = 0, ps_timeout = DEFAULT_TIMEOUT\<rparr>"


end
