(* ===== verification/PairingQr.thy ===== *)
theory PairingQr
  imports PairingProps
begin

text \<open>
  The QR code URI of the pairing, \<open>crates/buzz-core/src/pairing/qr.rs\<close>. Hexadecimal, percent
  encoding, the URL parser, the public-key parser and the \<open>Debug\<close> form of a string belong to other
  crates or the standard library: they are the fields of \<open>qr_lib\<close>. A public key is its hex form,
  so that \<open>to_hex\<close> is the key itself.
\<close>

record qr_lib =
  ql_hex_encode :: "bytes \<Rightarrow> string"
  ql_hex_decode :: "string \<Rightarrow> string + bytes"
  ql_pubkey_from_hex :: "string \<Rightarrow> string + pubkey"
  ql_percent_encode :: "string \<Rightarrow> string"
  ql_percent_decode :: "string \<Rightarrow> string"
  ql_url_parse :: "string \<Rightarrow> string + (string \<times> string option)"
  ql_debug :: "string \<Rightarrow> string"

definition encode_qr :: "qr_lib \<Rightarrow> QrPayload \<Rightarrow> string" where
  "encode_qr ql payload =
     (let pubkey_hex = qr_source_pubkey payload;
          secret_hex = ql_hex_encode ql (qr_session_secret payload);
          uri = ''nostrpair://'' @ pubkey_hex @ ''?secret='' @ secret_hex;
          uri = fold (\<lambda>relay uri. uri @ ''&relay='' @ ql_percent_encode ql relay)
                  (qr_relays payload) uri
      in uri @ ''&v=1'')"

definition is_lowercase_hex :: "char \<Rightarrow> bool" where
  "is_lowercase_hex c \<longleftrightarrow> is_digit c \<or> 97 \<le> (of_char c :: nat) \<and> (of_char c :: nat) \<le> 102"

text \<open>The query parameters read so far: the secret, the relays and the version.\<close>

type_synonym qr_query = "string option \<times> string list \<times> nat option"

definition query_pair :: "qr_lib \<Rightarrow> string \<Rightarrow> qr_query \<Rightarrow> qr_query" where
  "query_pair ql pair q =
     (case q of (secret_hex, relays, version) \<Rightarrow>
        (case split_once CHR ''='' pair of
           None \<Rightarrow> q
         | Some (key, val) \<Rightarrow>
             if key = ''secret'' then (Some val, relays, version)
             else if key = ''relay'' then (secret_hex, relays @ [ql_percent_decode ql val], version)
             else if key = ''v'' then (secret_hex, relays, parse_uint 32 val)
             else q))"

fun check_relays :: "qr_lib \<Rightarrow> string list \<Rightarrow> PairingError + unit" where
  "check_relays ql [] = Inr ()"
| "check_relays ql (relay # relays) =
     and_then (map_err (\<lambda>e. InvalidQr (''invalid relay URL '' @ ql_debug ql relay @ '': '' @ e))
                (ql_url_parse ql relay)) (\<lambda>(scheme, host).
     and_then (guard_that (scheme = ''wss'' \<or> scheme = ''ws'')
        (InvalidQr (''relay URL must use wss:// or ws:// scheme, got '' @ ql_debug ql scheme))) (\<lambda>_.
     and_then (guard_that (host \<noteq> None) (InvalidQr (''relay URL has no host: '' @ ql_debug ql relay)))
       (\<lambda>_. check_relays ql relays)))"

definition decode_query :: "qr_lib \<Rightarrow> pubkey \<Rightarrow> qr_query \<Rightarrow> PairingError + QrPayload" where
  "decode_query ql source_pubkey q =
     (case q of (secret_hex, relays, version) \<Rightarrow>
       let version = (case version of None \<Rightarrow> 1 | Some v \<Rightarrow> v) in
       and_then (guard_that (version = 1)
         (InvalidQr (''unsupported protocol version '' @ show_nat version @ '', expected 1''))) (\<lambda>_.
       and_then (ok_or secret_hex (InvalidQr ''missing 'secret' query parameter'')) (\<lambda>secret_str.
       and_then (guard_that (length secret_str = 64 \<and> list_all is_lowercase_hex secret_str)
         (InvalidQr (''secret must be 64 lowercase hex chars, got '' @ ql_debug ql secret_str))) (\<lambda>_.
       and_then (map_err (\<lambda>e. InvalidQr (''invalid secret hex: '' @ e))
                   (ql_hex_decode ql secret_str)) (\<lambda>session_secret.
       and_then (guard_that (length session_secret = 32)
         (InvalidQr ''secret must be exactly 32 bytes'')) (\<lambda>_.
       and_then (guard_that (session_secret \<noteq> replicate 32 0)
         (InvalidQr ''session_secret must not be all zeros'')) (\<lambda>_.
       and_then (guard_that (relays \<noteq> [])
         (InvalidQr ''at least one 'relay' query parameter is required'')) (\<lambda>_.
       and_then (check_relays ql relays) (\<lambda>_.
       Inr \<lparr>qr_source_pubkey = source_pubkey, qr_session_secret = session_secret,
         qr_relays = relays, qr_version = word_of_nat version\<rparr>)))))))))"

definition ellipsis :: string where "ellipsis = map char_of [226 :: nat, 128, 166]"

definition decode_qr :: "qr_lib \<Rightarrow> string \<Rightarrow> PairingError + QrPayload" where
  "decode_qr ql uri =
     and_then (guard_that (length uri \<le> 2048)
        (InvalidQr (''URI exceeds 2048-character limit ('' @ show_nat (length uri) @ '' chars)''))) (\<lambda>_.
     and_then (ok_or (strip_prefix uri ''nostrpair://'')
        (InvalidQr ''URI must start with nostrpair://'')) (\<lambda>rest.
     and_then (ok_or (split_once CHR ''?'' rest)
        (InvalidQr (''missing query string (expected ?secret='' @ ellipsis @ ''&relay='' @ ellipsis @ '')'')))
        (\<lambda>(pubkey_hex, query).
     and_then (guard_that (length pubkey_hex = 64 \<and> list_all is_lowercase_hex pubkey_hex)
        (InvalidQr (''pubkey must be 64 lowercase hex chars, got '' @ ql_debug ql pubkey_hex))) (\<lambda>_.
     and_then (map_err (\<lambda>e. InvalidQr (''invalid pubkey: '' @ e))
                 (ql_pubkey_from_hex ql pubkey_hex)) (\<lambda>source_pubkey.
     decode_query ql source_pubkey
       (fold (query_pair ql) (split_on CHR ''&'' query) (None, [], None)))))))"

section \<open>Lemmas\<close>

lemma split_on_append_sep: "split_on c (a @ c # b) = split_on c a @ split_on c b"
proof (induction a)
  case (Cons x a)
  obtain y ys where "split_on c a = y # ys" by (cases "split_on c a") auto
  with Cons show ?case by simp
qed simp

lemma hex_not_question: "is_lowercase_hex c \<Longrightarrow> c \<noteq> CHR ''?'' \<and> c \<noteq> CHR ''&''"
  by (auto simp: is_lowercase_hex_def is_digit_def)

definition qr_laws :: "qr_lib \<Rightarrow> bool" where
  "qr_laws ql \<longleftrightarrow>
     (\<forall>b. length b = 32 \<longrightarrow> ql_hex_decode ql (ql_hex_encode ql b) = Inr b \<and>
        length (ql_hex_encode ql b) = 64 \<and> list_all is_lowercase_hex (ql_hex_encode ql b)) \<and>
     (\<forall>s. ql_percent_decode ql (ql_percent_encode ql s) = s \<and>
        CHR ''&'' \<notin> set (ql_percent_encode ql s))"

lemma fold_relays:
  "fold (\<lambda>relay uri. uri @ ''&relay='' @ f relay) relays uri =
     uri @ concat (map (\<lambda>relay. ''&relay='' @ f relay) relays)"
  by (induction relays arbitrary: uri) simp_all

lemma query_relays:
  assumes "qr_laws ql"
  shows "fold (query_pair ql)
      (split_on CHR ''&'' (x @ concat (map (\<lambda>r. ''&relay='' @ ql_percent_encode ql r) relays)))
      (sec, rs, v) =
    (case fold (query_pair ql) (split_on CHR ''&'' x) (sec, rs, v) of
       (sec', rs', v') \<Rightarrow> (sec', rs' @ relays, v'))"
proof (induction relays rule: rev_induct)
  case Nil
  show ?case by (simp split: prod.split)
next
  case (snoc r relays)
  have no: "CHR ''&'' \<notin> set (''relay='' @ ql_percent_encode ql r)"
    using assms by (simp add: qr_laws_def)
  define R where "R = ''relay='' @ ql_percent_encode ql r"
  let ?xs = "x @ concat (map (\<lambda>r. ''&relay='' @ ql_percent_encode ql r) relays)"
  have no': "CHR ''&'' \<notin> set R" using no unfolding R_def .
  have qp: "query_pair ql R (s', r', v') = (s', r' @ [r], v')" for s' r' v'
    using assms by (simp add: R_def query_pair_def qr_laws_def)
  have "x @ concat (map (\<lambda>r. ''&relay='' @ ql_percent_encode ql r) (relays @ [r])) =
      ?xs @ CHR ''&'' # R"
    by (simp add: R_def)
  then have "split_on CHR ''&'' (x @ concat (map (\<lambda>r. ''&relay='' @ ql_percent_encode ql r)
      (relays @ [r]))) = split_on CHR ''&'' ?xs @ [R]"
    by (simp only: split_on_append_sep split_on_no_sep [OF no'])
  then show ?case
    by (simp only: fold_append comp_apply fold_simps(2) fold_simps(1) snoc)
      (simp add: qp split: prod.split)
qed

lemma check_relays_ok:
  "\<forall>r\<in>set relays. \<exists>sc h. ql_url_parse ql r = Inr (sc, Some h) \<and> (sc = ''ws'' \<or> sc = ''wss'') \<Longrightarrow>
     check_relays ql relays = Inr ()"
  by (induction relays) auto

section \<open>Properties\<close>

text \<open>
  C39. The QR code round trip: decoding an encoded payload gives the payload back, for every
  payload with a valid key, a 32-byte secret other than zero and valid relay URLs, as long as
  the URI keeps within 2048 bytes.
\<close>

theorem qr_roundtrip:
  assumes laws: "qr_laws ql"
    and pk: "length pk = 64" "list_all is_lowercase_hex pk" "ql_pubkey_from_hex ql pk = Inr pk"
    and sec: "length sec = 32" "sec \<noteq> replicate 32 0"
    and relays: "relays \<noteq> []" "\<forall>r\<in>set relays. \<exists>sc h.
       ql_url_parse ql r = Inr (sc, Some h) \<and> (sc = ''ws'' \<or> sc = ''wss'')"
    and p: "p = \<lparr>qr_source_pubkey = pk, qr_session_secret = sec, qr_relays = relays, qr_version = 1\<rparr>"
    and len: "length (encode_qr ql p) \<le> 2048"
  shows "decode_qr ql (encode_qr ql p) = Inr p"
proof -
  let ?hex = "ql_hex_encode ql sec"
  let ?rel = "concat (map (\<lambda>r. ''&relay='' @ ql_percent_encode ql r) relays)"
  have uri: "encode_qr ql p = ''nostrpair://'' @ pk @ CHR ''?'' # ((''secret='' @ ?hex @ ?rel) @ CHR ''&'' # ''v=1'')"
    unfolding encode_qr_def Let_def p fold_relays by simp
  have q: "CHR ''?'' \<notin> set pk"
    using pk(2) hex_not_question by (auto simp: list_all_iff)
  have hex: "length ?hex = 64" "list_all is_lowercase_hex ?hex" "ql_hex_decode ql ?hex = Inr sec"
    using laws sec by (simp_all add: qr_laws_def)
  have "CHR ''&'' \<notin> set (''secret='' @ ?hex)"
    using hex(2) hex_not_question by (auto simp: list_all_iff)
  note ns = split_on_no_sep [OF this]
  have "fold (query_pair ql) (split_on CHR ''&'' ((''secret='' @ ?hex) @ ?rel)) (None, [], None) =
      (Some ?hex, relays, None)"
    unfolding query_relays [OF laws] ns by (simp add: query_pair_def)
  then have query: "fold (query_pair ql) (split_on CHR ''&'' ((''secret='' @ ?hex @ ?rel) @ CHR ''&'' # ''v=1''))
      (None, [], None) = (Some ?hex, relays, Some 1)"
    unfolding split_on_append_sep
    by (simp add: query_pair_def parse_uint_def starts_with_char_def is_digit_def Let_def)
  have "strip_prefix (encode_qr ql p) ''nostrpair://'' = Some (pk @ CHR ''?'' # ((''secret='' @ ?hex @ ?rel) @ CHR ''&'' # ''v=1''))"
    unfolding uri by (rule strip_prefix_append)
  then have "decode_qr ql (encode_qr ql p) = decode_query ql pk (Some ?hex, relays, Some 1)"
    using len pk query by (simp add: decode_qr_def split_once_append [OF q])
  also have "\<dots> = Inr p"
    using hex sec relays check_relays_ok [OF relays(2)] by (simp add: decode_query_def p)
  finally show ?thesis .
qed

definition nibble :: "nat \<Rightarrow> char" where "nibble n = (if n < 10 then char_of (48 + n) else char_of (87 + n))"
definition unnibble :: "char \<Rightarrow> nat" where
  "unnibble c = (if is_digit c then of_char c - 48 else of_char c - 87)"

fun toy_hex_encode :: "bytes \<Rightarrow> string" where
  "toy_hex_encode [] = []"
| "toy_hex_encode (b # bs) = nibble (unat b div 16) # nibble (unat b mod 16) # toy_hex_encode bs"

fun toy_hex_decode :: "string \<Rightarrow> bytes" where
  "toy_hex_decode (a # b # r) = word_of_nat (16 * unnibble a + unnibble b) # toy_hex_decode r"
| "toy_hex_decode _ = []"

lemma is_digit_char_of: "n < 256 \<Longrightarrow> is_digit (char_of (n :: nat)) \<longleftrightarrow> 48 \<le> n \<and> n \<le> 57"
  by (simp add: is_digit_def)

lemma nibble [simp]: "n < 16 \<Longrightarrow> unnibble (nibble n) = n" "n < 16 \<Longrightarrow> is_lowercase_hex (nibble n)"
  by (simp_all add: nibble_def unnibble_def is_digit_char_of is_lowercase_hex_def)

lemma toy_hex [simp]: "toy_hex_decode (toy_hex_encode b) = b"
  "length (toy_hex_encode b) = 2 * length b" "list_all is_lowercase_hex (toy_hex_encode b)"
proof (induction b)
  case (Cons x b)
  have "unat x < 256" using unsigned_less [of x, where ?'a = nat] by simp
  then have "unat x div 16 < 16" by simp
  with Cons show "toy_hex_decode (toy_hex_encode (x # b)) = x # b"
    "length (toy_hex_encode (x # b)) = 2 * length (x # b)"
    "list_all is_lowercase_hex (toy_hex_encode (x # b))" by simp_all
qed simp_all

definition toy_qr_lib :: qr_lib where
  "toy_qr_lib = \<lparr>ql_hex_encode = toy_hex_encode, ql_hex_decode = (\<lambda>h. Inr (toy_hex_decode h)),
     ql_pubkey_from_hex = Inr,
     ql_percent_encode = toy_hex_encode \<circ> map char_byte,
     ql_percent_decode = map byte_char \<circ> toy_hex_decode,
     ql_url_parse = (\<lambda>u. Inr (''wss'', Some u)), ql_debug = (\<lambda>s. s)\<rparr>"

lemma byte_char_byte: "byte_char (char_byte c) = c"
  by (simp add: byte_char_def char_byte_def unat_of_nat take_bit_eq_mod)

lemma toy_qr_laws: "qr_laws toy_qr_lib"
proof -
  have "CHR ''&'' \<notin> set (toy_hex_encode b)" for b
    using toy_hex(3) [of b] hex_not_question by (auto simp: list_all_iff)
  moreover have "map (byte_char \<circ> char_byte) s = s" for s
    by (simp add: byte_char_byte list_eq_iff_nth_eq)
  ultimately show ?thesis
    by (simp add: qr_laws_def toy_qr_lib_def)
qed

theorem qr_roundtrip_witness:
  "\<exists>uri p. decode_qr toy_qr_lib uri = Inr p \<and> qr_relays p = [''wss://r'']"
proof -
  let ?pk = "replicate 64 CHR ''a''"
  let ?p = "\<lparr>qr_source_pubkey = ?pk, qr_session_secret = replicate 32 5, qr_relays = [''wss://r''],
     qr_version = 1\<rparr>"
  have "decode_qr toy_qr_lib (encode_qr toy_qr_lib ?p) = Inr ?p"
    by (rule qr_roundtrip [OF toy_qr_laws, of ?pk "replicate 32 5" "[''wss://r'']"])
      (simp_all add: toy_qr_lib_def is_lowercase_hex_def is_digit_def encode_qr_def list_all_iff)
  then show ?thesis
    by (intro exI [of _ "encode_qr toy_qr_lib ?p"] exI [of _ ?p]) simp
qed

text \<open>
  Versions: a version parameter above 1 is refused, but one that is no 32-bit number,
  \<open>v=4294967296\<close> say, counts as an absent one, and the URI is accepted as version 1.
\<close>

theorem qr_version_gate:
  assumes "length base \<le> 2000" and "strip_prefix base ''nostrpair://'' \<noteq> None"
    and "split_once CHR ''?'' (the (strip_prefix base ''nostrpair://'')) = Some (pk, q)"
  shows "decode_qr ql (base @ ''&v=4294967296'') = decode_qr ql (base @ ''&v=1'') \<and>
    \<not> is_ok (decode_qr ql (base @ ''&v=2''))"
proof -
  from assms(2) obtain r where r: "strip_prefix base ''nostrpair://'' = Some r" by auto
  then have base: "base = ''nostrpair://'' @ r" by (simp only: strip_prefix_eq_Some)
  from assms(3) r have "split_once CHR ''?'' r = Some (pk, q)" by simp
  then have so: "split_once CHR ''?'' (r @ x) = Some (pk, q @ x)" for x
  proof (induction r arbitrary: pk)
    case (Cons a r)
    then show ?case by (cases "a = CHR ''?''") (auto split: option.splits)
  qed simp
  have strip: "strip_prefix (base @ x) ''nostrpair://'' = Some (r @ x)" for x
    unfolding base append_assoc by (rule strip_prefix_append)
  obtain sec rs v where fq: "fold (query_pair ql) (split_on CHR ''&'' q) (None, [], None) = (sec, rs, v)"
    by (cases "fold (query_pair ql) (split_on CHR ''&'' q) (None, [], None)")
  have fold: "fold (query_pair ql) (split_on CHR ''&'' (q @ CHR ''&'' # ''v='' @ d)) (None, [], None) =
      (sec, rs, parse_uint 32 d)" if "CHR ''&'' \<notin> set d" for d
  proof -
    have "CHR ''&'' \<notin> set (''v='' @ d)" using that by simp
    from split_on_no_sep [OF this] show ?thesis
      unfolding split_on_append_sep by (simp add: fq query_pair_def)
  qed
  have dec: "decode_qr ql (base @ CHR ''&'' # ''v='' @ d) =
    and_then (guard_that (length pk = 64 \<and> list_all is_lowercase_hex pk)
        (InvalidQr (''pubkey must be 64 lowercase hex chars, got '' @ ql_debug ql pk))) (\<lambda>_.
     and_then (map_err (\<lambda>e. InvalidQr (''invalid pubkey: '' @ e)) (ql_pubkey_from_hex ql pk))
       (\<lambda>source_pubkey. decode_query ql source_pubkey (sec, rs, parse_uint 32 d)))"
    if "CHR ''&'' \<notin> set d" "length d \<le> 20" for d
    using assms(1) that fold [OF that(1)]
    by (simp add: decode_qr_def strip so)
  have parse: "parse_uint 32 ''4294967296'' = None" "parse_uint 32 ''1'' = Some 1" "parse_uint 32 ''2'' = Some 2"
    by (simp_all add: parse_uint_def starts_with_char_def is_digit_def Let_def)
  from dec [of "''4294967296''"] dec [of "''1''"] have "decode_qr ql (base @ ''&v=4294967296'') =
      decode_qr ql (base @ ''&v=1'')"
    by (simp add: parse decode_query_def)
  moreover from dec [of "''2''"] have "\<not> is_ok (decode_qr ql (base @ ''&v=2''))"
    by (auto simp: parse decode_query_def is_ok_iff and_then_eq_Ok)
  ultimately show ?thesis by blast
qed

theorem qr_version_gate_witness:
  "decode_qr toy_qr_lib (''nostrpair://?secret='' @ ''&v=4294967296'') =
   decode_qr toy_qr_lib (''nostrpair://?secret='' @ ''&v=1'')"
  using qr_version_gate [of "''nostrpair://?secret=''" "[]" "''secret=''" toy_qr_lib]
  by (simp add: strip_prefix_def starts_with_def)

end
