(* ===== verification/Text.thy ===== *)
theory Text
  imports Prelude "HOL-Library.Char_ord" "HOL-Library.List_Lexorder"
begin

text \<open>
  More of the standard library on strings: character classes, trimming, substring search, UTF-8
  validity, the decimal form of numbers, and \<open>BTreeMap\<close> as an association list with strictly
  ascending keys. Strings are ordered byte by byte (\<open>List_Lexorder\<close> over \<open>Char_ord\<close>), the order of
  Rust's \<open>String\<close>.
\<close>

section \<open>Character classes\<close>

definition is_ascii_alphanumeric :: "char \<Rightarrow> bool" where
  "is_ascii_alphanumeric c \<longleftrightarrow>
     (let n = of_char c :: nat
      in 48 \<le> n \<and> n \<le> 57 \<or> 65 \<le> n \<and> n \<le> 90 \<or> 97 \<le> n \<and> n \<le> 122)"

definition is_ascii_hexdigit :: "char \<Rightarrow> bool" where
  "is_ascii_hexdigit c \<longleftrightarrow>
     (let n = of_char c :: nat
      in 48 \<le> n \<and> n \<le> 57 \<or> 65 \<le> n \<and> n \<le> 70 \<or> 97 \<le> n \<and> n \<le> 102)"

definition is_lower_hexdigit :: "char \<Rightarrow> bool" where
  "is_lower_hexdigit c \<longleftrightarrow>
     (let n = of_char c :: nat in 48 \<le> n \<and> n \<le> 57 \<or> 97 \<le> n \<and> n \<le> 102)"

lemma lower_hexdigit_is_hexdigit: "is_lower_hexdigit c \<Longrightarrow> is_ascii_hexdigit c"
  by (auto simp: is_lower_hexdigit_def is_ascii_hexdigit_def Let_def)

section \<open>Trimming and searching\<close>

text \<open>
  Trimming is modelled on ASCII white space, which is all the texts trimmed here can hold of it.
\<close>

definition is_space :: "char \<Rightarrow> bool" where
  "is_space c \<longleftrightarrow> (of_char c :: nat) = 32 \<or> 9 \<le> (of_char c :: nat) \<and> (of_char c :: nat) \<le> 13"

definition trim :: "string \<Rightarrow> string" where
  "trim s = rev (dropWhile is_space (rev (dropWhile is_space s)))"

lemma trim_no_space: "list_all (\<lambda>c. \<not> is_space c) s \<Longrightarrow> trim s = s"
proof -
  assume a: "list_all (\<lambda>c. \<not> is_space c) s"
  have d: "dropWhile is_space xs = xs" if "list_all (\<lambda>c. \<not> is_space c) xs" for xs
    using that by (cases xs) simp_all
  have "list_all (\<lambda>c. \<not> is_space c) (rev s)" using a by simp
  then show "trim s = s"
    using d [OF a] d [of "rev s"] by (simp only: trim_def rev_rev_ident)
qed

lemma hexdigit_not_space: "is_ascii_hexdigit c \<Longrightarrow> \<not> is_space c"
  by (auto simp: is_ascii_hexdigit_def is_space_def Let_def)

text \<open>\<open>str::contains\<close> of a string.\<close>

fun contains :: "string \<Rightarrow> string \<Rightarrow> bool" where
  "contains [] p = (p = [])"
| "contains (c # s) p = (starts_with (c # s) p \<or> contains s p)"

definition ends_with :: "'a list \<Rightarrow> 'a list \<Rightarrow> bool" where
  "ends_with s p \<longleftrightarrow> starts_with (rev s) (rev p)"

lemma contains_iff: "contains s p \<longleftrightarrow> (\<exists>l r. s = l @ p @ r)"
proof (induction s)
  case Nil
  show ?case by auto
next
  case (Cons c s)
  have "starts_with (c # s) p \<longleftrightarrow> (\<exists>r. c # s = p @ r)"
    by (auto simp: starts_with_def) (metis append_take_drop_id)
  moreover have "(\<exists>l r. c # s = l @ p @ r) \<longleftrightarrow> (\<exists>r. c # s = p @ r) \<or> (\<exists>l r. s = l @ p @ r)"
    (is "?A \<longleftrightarrow> ?B \<or> ?C")
  proof
    assume ?A
    then obtain l r where e: "c # s = l @ p @ r" by blast
    then show "?B \<or> ?C" by (cases l) auto
  next
    assume "?B \<or> ?C"
    then show ?A
    proof
      assume ?B
      then show ?A by (metis append_Nil)
    next
      assume ?C
      then show ?A by (metis append_Cons)
    qed
  qed
  ultimately show ?case using Cons by simp
qed

section \<open>UTF-8\<close>

definition byte_in :: "nat \<Rightarrow> nat \<Rightarrow> char \<Rightarrow> bool" where
  "byte_in lo hi c \<longleftrightarrow> lo \<le> (of_char c :: nat) \<and> (of_char c :: nat) \<le> hi"

text \<open>\<open>std::str::from_utf8\<close> succeeds: the well-formed byte sequences of the Unicode standard.\<close>

fun utf8_valid :: "string \<Rightarrow> bool" where
  "utf8_valid [] = True"
| "utf8_valid (a # s) =
     (if byte_in 0 127 a then utf8_valid s
      else (case s of
        [] \<Rightarrow> False
      | b # s1 \<Rightarrow>
          if byte_in 194 223 a then byte_in 128 191 b \<and> utf8_valid s1
          else (case s1 of
            [] \<Rightarrow> False
          | c # s2 \<Rightarrow>
              if byte_in 224 239 a
              then byte_in (if byte_in 224 224 a then 160 else 128)
                     (if byte_in 237 237 a then 159 else 191) b \<and>
                   byte_in 128 191 c \<and> utf8_valid s2
              else (case s2 of
                [] \<Rightarrow> False
              | d # s3 \<Rightarrow>
                  byte_in 240 244 a \<and>
                  byte_in (if byte_in 240 240 a then 144 else 128)
                    (if byte_in 244 244 a then 143 else 191) b \<and>
                  byte_in 128 191 c \<and> byte_in 128 191 d \<and> utf8_valid s3))))"

lemma utf8_valid_ascii: "list_all (byte_in 0 127) s \<Longrightarrow> utf8_valid s"
  by (induction s) simp_all

lemma hexdigit_ascii: "is_ascii_hexdigit c \<Longrightarrow> byte_in 0 127 c"
  by (auto simp: is_ascii_hexdigit_def byte_in_def Let_def)

section \<open>Decimal numbers\<close>

lemma show_nat_rec:
  "show_nat n = (if n < 10 then [char_of (48 + n)] else show_nat (n div 10) @ [char_of (48 + n mod 10)])"
  by (rule show_nat.simps)

lemma show_nat_digits: "list_all is_digit (show_nat n)"
proof (induction n rule: show_nat.induct)
  case (1 n)
  have "n mod 10 < 10" by simp
  then show ?case
    using 1 by (subst show_nat_rec) (auto simp: is_digit_def [of "char_of _"])
qed

lemma show_nat_not_Nil [simp]: "show_nat n \<noteq> []"
  by (subst show_nat_rec) simp

definition digits_value :: "string \<Rightarrow> nat" where
  "digits_value s = foldl (\<lambda>acc c. 10 * acc + (of_char c - 48)) 0 s"

lemma digits_value_show [simp]: "digits_value (show_nat n) = n"
proof (induction n rule: show_nat.induct)
  case (1 n)
  have m: "n mod 10 < 10" by simp
  show ?case
  proof (cases "n < 10")
    case True
    then show ?thesis by (subst show_nat_rec) (simp add: digits_value_def)
  next
    case False
    have "digits_value (show_nat n) = 10 * digits_value (show_nat (n div 10)) + n mod 10"
      using False m by (subst show_nat_rec) (simp add: digits_value_def)
    then show ?thesis using 1 False by simp
  qed
qed

lemma show_nat_inject [simp]: "show_nat m = show_nat n \<longleftrightarrow> m = n"
  by (metis digits_value_show)

lemma parse_uint_show: "n < 2 ^ w \<Longrightarrow> parse_uint w (show_nat n) = Some n"
proof -
  assume "n < 2 ^ w"
  moreover have "\<not> starts_with_char CHR ''+'' (show_nat n)"
  proof -
    have "is_digit (hd (show_nat n))"
      using show_nat_digits [of n] by (cases "show_nat n") simp_all
    then show ?thesis by (auto simp: starts_with_char_def is_digit_def)
  qed
  ultimately show ?thesis
    using digits_value_show [of n, unfolded digits_value_def] show_nat_digits [of n]
    by (simp add: parse_uint_def Let_def)
qed

definition show_u64 :: "u64 \<Rightarrow> string" where "show_u64 n = show_nat (unat n)"

definition parse_u64 :: "string \<Rightarrow> u64 option" where
  "parse_u64 s = map_option of_nat (parse_uint 64 s)"

lemma parse_show_u64 [simp]: "parse_u64 (show_u64 n) = Some n"
proof -
  have "unat n < 2 ^ 64" using unsigned_less [of n] by simp
  then show ?thesis by (simp add: parse_u64_def show_u64_def parse_uint_show)
qed

section \<open>Sorted maps\<close>

fun bt_insert :: "'k :: linorder \<Rightarrow> 'v \<Rightarrow> ('k \<times> 'v) list \<Rightarrow> ('k \<times> 'v) list" where
  "bt_insert k v [] = [(k, v)]"
| "bt_insert k v ((k', v') # m) =
     (if k < k' then (k, v) # (k', v') # m
      else if k = k' then (k, v) # m
      else (k', v') # bt_insert k v m)"

definition bt_ok :: "('k :: linorder \<times> 'v) list \<Rightarrow> bool" where
  "bt_ok m \<longleftrightarrow> sorted_wrt (<) (map fst m)"

lemma keys_bt_insert [simp]: "fst ` set (bt_insert k v m) = insert k (fst ` set m)"
  by (induction k v m rule: bt_insert.induct) auto

lemma bt_ok_insert [simp]: "bt_ok m \<Longrightarrow> bt_ok (bt_insert k v m)"
proof (induction k v m rule: bt_insert.induct)
  case (2 k v k' v' m)
  have "k' < x" if "x \<in> fst ` set (bt_insert k v m)" "\<not> k < k'" "k \<noteq> k'" for x
    using that 2(2) by (auto simp: bt_ok_def)
  with 2 show ?case by (auto simp: bt_ok_def)
qed (simp add: bt_ok_def)

lemma map_of_bt_insert [simp]:
  "bt_ok m \<Longrightarrow> map_of (bt_insert k v m) x = (if x = k then Some v else map_of m x)"
proof (induction k v m rule: bt_insert.induct)
  case (2 k v k' v' m)
  then have "bt_ok m" by (simp add: bt_ok_def)
  with 2 show ?case by auto
qed simp

lemma bt_ok_distinct: "bt_ok m \<Longrightarrow> keys_distinct m"
  by (simp add: bt_ok_def strict_sorted_iff)

lemma bt_ok_eqI: "bt_ok m \<Longrightarrow> bt_ok m' \<Longrightarrow> map_of m = map_of m' \<Longrightarrow> m = m'"
proof (rule map_sorted_distinct_set_unique [of fst])
  assume ok: "bt_ok m" "bt_ok m'" and eq: "map_of m = map_of m'"
  have d: "keys_distinct m" "keys_distinct m'" using ok by (simp_all add: bt_ok_distinct)
  show "set m = set m'"
    using eq d by (metis map_of_inject_set)
  then show "inj_on fst (set m \<union> set m')"
    using d(1) by (simp add: distinct_map)
  show "sorted (map fst m)" "distinct (map fst m)" "sorted (map fst m')" "distinct (map fst m')"
    using ok by (simp_all add: bt_ok_def strict_sorted_iff)
qed

text \<open>\<open>sort\<close> and \<open>dedup\<close> of a vector: the sorted list of its elements, each once.\<close>

definition sort_dedup :: "'a :: linorder list \<Rightarrow> 'a list" where
  "sort_dedup xs = remdups_adj (sort xs)"

lemma set_sort_dedup [simp]: "set (sort_dedup xs) = set xs"
  by (simp add: sort_dedup_def)

lemma sort_dedup_strict: "sorted_wrt (<) (sort_dedup xs)"
proof -
  have "sorted ys \<Longrightarrow> sorted_wrt (<) (remdups_adj ys)" for ys :: "'a :: linorder list"
  proof (induction ys rule: remdups_adj.induct)
    case (3 x y ys)
    then show ?case by (auto simp: less_le)
  qed simp_all
  then show ?thesis by (simp add: sort_dedup_def)
qed

lemma sort_dedup_cong: "set xs = set ys \<Longrightarrow> sort_dedup xs = sort_dedup ys"
  by (rule sorted_distinct_set_unique)
    (use sort_dedup_strict in \<open>auto simp: strict_sorted_iff\<close>)

lemma sort_dedup_idem [simp]: "sort_dedup (sort_dedup xs) = sort_dedup xs"
  by (rule sort_dedup_cong) simp

lemma length_sort_dedup: "length (sort_dedup xs) \<le> length xs"
  by (metis card_length length_remdups_card_conv length_sort remdups_adj_length sort_dedup_def)

end
