(* ===== verification/ChannelRoles.thy ===== *)
theory ChannelRoles
  imports Prelude
begin

text \<open>
  Channel and membership enums, \<open>crates/buzz-core/src/channel.rs\<close>. A \<open>FromStr\<close> error is the
  rejected string. The lemmas: printing and parsing are inverse, and the permission level
  orders the four hierarchy roles linearly with \<open>Bot\<close> below all of them.
\<close>

datatype ChannelVisibility = Open | Private

datatype ChannelType = Stream | Forum | Dm | Workflow

datatype MemberRole = Owner | Admin | Member | Guest | Bot

fun ChannelVisibility_as_str :: "ChannelVisibility \<Rightarrow> string" where
  "ChannelVisibility_as_str Open = ''open''"
| "ChannelVisibility_as_str Private = ''private''"

definition ChannelVisibility_from_str :: "string \<Rightarrow> string + ChannelVisibility" where
  "ChannelVisibility_from_str s =
     (if s = ''open'' then Ok Open
      else if s = ''private'' then Ok Private
      else Err s)"

fun ChannelType_as_str :: "ChannelType \<Rightarrow> string" where
  "ChannelType_as_str Stream = ''stream''"
| "ChannelType_as_str Forum = ''forum''"
| "ChannelType_as_str Dm = ''dm''"
| "ChannelType_as_str Workflow = ''workflow''"

definition ChannelType_from_str :: "string \<Rightarrow> string + ChannelType" where
  "ChannelType_from_str s =
     (if s = ''stream'' then Ok Stream
      else if s = ''forum'' then Ok Forum
      else if s = ''dm'' then Ok Dm
      else if s = ''workflow'' then Ok Workflow
      else Err s)"

fun MemberRole_as_str :: "MemberRole \<Rightarrow> string" where
  "MemberRole_as_str Owner = ''owner''"
| "MemberRole_as_str Admin = ''admin''"
| "MemberRole_as_str Member = ''member''"
| "MemberRole_as_str Guest = ''guest''"
| "MemberRole_as_str Bot = ''bot''"

definition is_elevated :: "MemberRole \<Rightarrow> bool" where
  "is_elevated r \<longleftrightarrow> r = Owner \<or> r = Admin"

fun permission_level :: "MemberRole \<Rightarrow> nat" where
  "permission_level Owner = 4"
| "permission_level Admin = 3"
| "permission_level Member = 2"
| "permission_level Guest = 1"
| "permission_level Bot = 0"

definition has_at_least :: "MemberRole \<Rightarrow> MemberRole \<Rightarrow> bool" where
  "has_at_least r required \<longleftrightarrow> permission_level r \<ge> permission_level required"

definition MemberRole_from_str :: "string \<Rightarrow> string + MemberRole" where
  "MemberRole_from_str s =
     (if s = ''owner'' then Ok Owner
      else if s = ''admin'' then Ok Admin
      else if s = ''member'' then Ok Member
      else if s = ''guest'' then Ok Guest
      else if s = ''bot'' then Ok Bot
      else Err s)"

section \<open>Lemmas\<close>

lemma ChannelVisibility_roundtrip:
  "ChannelVisibility_from_str s = Ok v \<longleftrightarrow> s = ChannelVisibility_as_str v"
  by (cases v) (auto simp: ChannelVisibility_from_str_def)

lemma ChannelType_roundtrip: "ChannelType_from_str s = Ok t \<longleftrightarrow> s = ChannelType_as_str t"
  by (cases t) (auto simp: ChannelType_from_str_def)

lemma MemberRole_roundtrip: "MemberRole_from_str s = Ok r \<longleftrightarrow> s = MemberRole_as_str r"
  by (cases r) (auto simp: MemberRole_from_str_def)

lemma permission_level_inj [simp]: "permission_level r = permission_level s \<longleftrightarrow> r = s"
  by (cases r; cases s) simp_all

text \<open>
  The library's linear order on roles, by permission level, so that the order lemmas and
  \<open>max\<close> apply to them.
\<close>

instantiation MemberRole :: linorder
begin

definition less_eq_MemberRole :: "MemberRole \<Rightarrow> MemberRole \<Rightarrow> bool" where
  "less_eq_MemberRole r s \<longleftrightarrow> permission_level r \<le> permission_level s"

definition less_MemberRole :: "MemberRole \<Rightarrow> MemberRole \<Rightarrow> bool" where
  "less_MemberRole r s \<longleftrightarrow> permission_level r < permission_level s"

instance
  by standard (auto simp: less_eq_MemberRole_def less_MemberRole_def)

end

lemma has_at_least_iff [simp]: "has_at_least r s \<longleftrightarrow> s \<le> r"
  by (simp add: has_at_least_def less_eq_MemberRole_def)

lemma level_le_iff: "permission_level r \<le> permission_level s \<longleftrightarrow> r \<le> s"
  by (simp add: less_eq_MemberRole_def)

lemma level_less_iff: "permission_level r < permission_level s \<longleftrightarrow> r < s"
  by (simp add: less_MemberRole_def)

lemma Bot_least [simp]: "Bot \<le> r"
  by (simp add: less_eq_MemberRole_def)

text \<open>
  Role, channel type and visibility names round-trip: a string parses to a value exactly
  when it is that value's canonical string.
\<close>

theorem channel_enums_roundtrip:
  "(MemberRole_from_str s = Ok r \<longleftrightarrow> s = MemberRole_as_str r) \<and>
   (ChannelType_from_str s = Ok t \<longleftrightarrow> s = ChannelType_as_str t) \<and>
   (ChannelVisibility_from_str s = Ok v \<longleftrightarrow> s = ChannelVisibility_as_str v)"
  by (simp add: MemberRole_roundtrip ChannelType_roundtrip ChannelVisibility_roundtrip)

end
