(* ===== verification/GitPerms.thy ===== *)
theory GitPerms
  imports Text ChannelRoles
begin

text \<open>
  The git push policy of \<open>crates/buzz-core/src/git_perms.rs\<close>: ref patterns, the classification
  of a ref update, \<open>buzz-protect\<close> tags, the union of the matching rules and the decision on
  an update and on a push. \<open>unreachable!()\<close> in \<open>RefPattern::matches\<close> is the value \<open>None\<close> of
  \<open>matches_run\<close>.
\<close>

section \<open>Ref patterns\<close>

definition MAX_PROTECTION_RULES :: nat where "MAX_PROTECTION_RULES = 50"
definition MAX_PATTERN_LENGTH :: nat where "MAX_PATTERN_LENGTH = 256"
definition MAX_WILDCARDS_PER_PATTERN :: nat where "MAX_WILDCARDS_PER_PATTERN = 3"

datatype PatternSegment = Literal string | Wildcard | RecursiveWildcard

record RefPattern =
  rp_raw :: string
  rp_segments :: "PatternSegment list"

datatype PatternError =
    EmptyPattern
  | TooLong
  | MissingRefsPrefix
  | InvalidSegment string
  | TooManyWildcards

definition is_segment_char :: "char \<Rightarrow> bool" where
  "is_segment_char c \<longleftrightarrow>
     is_ascii_alphanumeric c \<or> c = CHR ''.'' \<or> c = CHR ''_'' \<or> c = CHR ''-''"

definition is_glob_char :: "char \<Rightarrow> bool" where
  "is_glob_char c \<longleftrightarrow> c \<in> {CHR ''*'', CHR ''?'', CHR ''['', CHR '']''}"

text \<open>The loop over the parts, with the wildcards seen so far.\<close>

fun parse_segments :: "nat \<Rightarrow> string list \<Rightarrow> PatternError + PatternSegment list" where
  "parse_segments w [] = Ok []"
| "parse_segments w (part # rest) =
     (if part = ''**'' then
        if rest \<noteq> [] then Err (InvalidSegment ''** must be the last segment'')
        else if w + 1 > MAX_WILDCARDS_PER_PATTERN then Err TooManyWildcards
        else and_then (parse_segments (w + 1) rest) (\<lambda>ss. Ok (RecursiveWildcard # ss))
      else if part = ''*'' then
        if w + 1 > MAX_WILDCARDS_PER_PATTERN then Err TooManyWildcards
        else and_then (parse_segments (w + 1) rest) (\<lambda>ss. Ok (Wildcard # ss))
      else if part = [] then Err (InvalidSegment [])
      else if list_ex is_glob_char part then Err (InvalidSegment part)
      else if \<not> list_all is_segment_char part then Err (InvalidSegment part)
      else and_then (parse_segments w rest) (\<lambda>ss. Ok (Literal part # ss)))"

definition RefPattern_parse :: "string \<Rightarrow> PatternError + RefPattern" where
  "RefPattern_parse pattern =
     (if pattern = [] then Err EmptyPattern
      else if length pattern > MAX_PATTERN_LENGTH then Err TooLong
      else if \<not> starts_with pattern ''refs/'' then Err MissingRefsPrefix
      else and_then (parse_segments 0 (split_on CHR ''/'' pattern))
             (\<lambda>ss. Ok \<lparr>rp_raw = pattern, rp_segments = ss\<rparr>))"

text \<open>The closure of \<open>all\<close>: \<open>None\<close> is the panic of \<open>unreachable!()\<close>.\<close>

fun match_segment :: "PatternSegment \<Rightarrow> string \<Rightarrow> bool option" where
  "match_segment Wildcard seg = Some True"
| "match_segment (Literal lit) seg = Some (lit = seg)"
| "match_segment RecursiveWildcard seg = None"

text \<open>\<open>Iterator::all\<close> stops at the first pair that fails.\<close>

fun all_segments :: "(PatternSegment \<times> string) list \<Rightarrow> bool option" where
  "all_segments [] = Some True"
| "all_segments ((p, s) # ps) =
     (case match_segment p s of
        None \<Rightarrow> None
      | Some False \<Rightarrow> Some False
      | Some True \<Rightarrow> all_segments ps)"

definition matches_run :: "RefPattern \<Rightarrow> string \<Rightarrow> bool option" where
  "matches_run p ref_name =
     (let ref_segments = split_on CHR ''/'' ref_name; segs = rp_segments p in
      if segs \<noteq> [] \<and> last segs = RecursiveWildcard then
        (let prefix_len = length segs - 1 in
         if length ref_segments \<le> prefix_len then Some False
         else all_segments (zip (take prefix_len segs) (take prefix_len ref_segments)))
      else if length ref_segments \<noteq> length segs then Some False
      else all_segments (zip segs ref_segments))"

definition matches :: "RefPattern \<Rightarrow> string \<Rightarrow> bool" where
  "matches p ref_name \<longleftrightarrow> matches_run p ref_name = Some True"

section \<open>Updates and rules\<close>

datatype UpdateKind = Create | FastForward | NonFastForward | Delete

definition ZERO_OID :: string where
  "ZERO_OID = replicate 40 CHR ''0''"

definition UpdateKind_classify :: "string \<Rightarrow> string \<Rightarrow> bool \<Rightarrow> UpdateKind" where
  "UpdateKind_classify old_oid new_oid is_ancestor =
     (if old_oid = ZERO_OID then Create
      else if new_oid = ZERO_OID then Delete
      else if is_ancestor then FastForward
      else NonFastForward)"

record RefUpdate =
  ru_ref_name :: string
  ru_kind :: UpdateKind
  ru_old_oid :: string
  ru_new_oid :: string

record ProtectionRule =
  pr_pattern :: RefPattern
  pr_push_role :: "MemberRole option"
  pr_no_force_push :: bool
  pr_no_delete :: bool
  pr_require_patch :: bool

datatype RuleParseError =
    TooFewValues
  | TooManyRules
  | InvalidPattern PatternError
  | UnknownRule string
  | InvalidRole string

text \<open>Keep the role with the higher permission level.\<close>

definition take_strictest :: "MemberRole option \<Rightarrow> MemberRole \<Rightarrow> MemberRole option" where
  "take_strictest push_role role =
     Some (case push_role of
             None \<Rightarrow> role
           | Some existing \<Rightarrow>
               if permission_level role > permission_level existing then role else existing)"

fun parse_rule_values ::
  "string list \<Rightarrow> ProtectionRule \<times> string list \<Rightarrow> RuleParseError + (ProtectionRule \<times> string list)"
where
  "parse_rule_values [] (r, unknown) = Ok (r, unknown)"
| "parse_rule_values (rule_str # rest) (r, unknown) =
     (case strip_prefix rule_str ''push:'' of
        Some role_str \<Rightarrow>
          (case MemberRole_from_str role_str of
             Inl _ \<Rightarrow> Err (InvalidRole role_str)
           | Inr role \<Rightarrow>
               if role = Bot \<or> role = Guest then Err (InvalidRole role_str)
               else parse_rule_values rest
                      (r\<lparr>pr_push_role := take_strictest (pr_push_role r) role\<rparr>, unknown))
      | None \<Rightarrow>
          if rule_str = ''no-force-push'' then
            parse_rule_values rest (r\<lparr>pr_no_force_push := True\<rparr>, unknown)
          else if rule_str = ''no-delete'' then
            parse_rule_values rest (r\<lparr>pr_no_delete := True\<rparr>, unknown)
          else if rule_str = ''require-patch'' then
            parse_rule_values rest (r\<lparr>pr_require_patch := True\<rparr>, unknown)
          else parse_rule_values rest (r, unknown @ [rule_str]))"

definition parse_protection_tag_with_warnings ::
  "string list \<Rightarrow> RuleParseError + (ProtectionRule \<times> string list)" where
  "parse_protection_tag_with_warnings values =
     (if length values < 2 then Err TooFewValues
      else case RefPattern_parse (values ! 0) of
        Inl e \<Rightarrow> Err (InvalidPattern e)
      | Inr pat \<Rightarrow>
          parse_rule_values (drop 1 values)
            (\<lparr>pr_pattern = pat, pr_push_role = None, pr_no_force_push = False,
              pr_no_delete = False, pr_require_patch = False\<rparr>, []))"

definition parse_protection_tag :: "string list \<Rightarrow> RuleParseError + ProtectionRule" where
  "parse_protection_tag values =
     and_then (parse_protection_tag_with_warnings values) (\<lambda>(rule, _). Ok rule)"

record ParsedProtection =
  pp_rules :: "ProtectionRule list"
  pp_unknown_rules :: "string list"

fun parse_protection_loop ::
  "string list list \<Rightarrow> ParsedProtection \<Rightarrow> RuleParseError + ParsedProtection" where
  "parse_protection_loop [] acc = Ok acc"
| "parse_protection_loop (tag # tags) acc =
     (if tag = [] \<or> hd tag \<noteq> ''buzz-protect'' then parse_protection_loop tags acc
      else if length (pp_rules acc) \<ge> MAX_PROTECTION_RULES then Err TooManyRules
      else case parse_protection_tag_with_warnings (tl tag) of
        Inl e \<Rightarrow> Err e
      | Inr (rule, unknowns) \<Rightarrow>
          parse_protection_loop tags
            \<lparr>pp_rules = pp_rules acc @ [rule],
             pp_unknown_rules = pp_unknown_rules acc @ unknowns\<rparr>)"

definition parse_protection_tags :: "string list list \<Rightarrow> RuleParseError + ParsedProtection" where
  "parse_protection_tags tags =
     parse_protection_loop tags \<lparr>pp_rules = [], pp_unknown_rules = []\<rparr>"

section \<open>The decision\<close>

definition default_min_role :: "string \<Rightarrow> UpdateKind \<Rightarrow> MemberRole" where
  "default_min_role ref_name kind =
     (let is_branch = starts_with ref_name ''refs/heads/'';
          is_tag = starts_with ref_name ''refs/tags/''
      in case kind of
           Create \<Rightarrow> if is_branch \<or> is_tag then Member else Admin
         | FastForward \<Rightarrow> if is_branch then Member else if is_tag then Admin else Admin
         | NonFastForward \<Rightarrow> Admin
         | Delete \<Rightarrow> Admin)"

record EffectiveRules =
  er_push_role :: "MemberRole option"
  er_no_force_push :: bool
  er_no_delete :: bool
  er_require_patch :: bool
  er_has_explicit_match :: bool

definition for_ref_step :: "string \<Rightarrow> ProtectionRule \<Rightarrow> EffectiveRules \<Rightarrow> EffectiveRules" where
  "for_ref_step ref_name rule acc =
     (if \<not> matches (pr_pattern rule) ref_name then acc
      else \<lparr>er_push_role =
              (case pr_push_role rule of
                 None \<Rightarrow> er_push_role acc
               | Some role \<Rightarrow> take_strictest (er_push_role acc) role),
            er_no_force_push = (er_no_force_push acc \<or> pr_no_force_push rule),
            er_no_delete = (er_no_delete acc \<or> pr_no_delete rule),
            er_require_patch = (er_require_patch acc \<or> pr_require_patch rule),
            er_has_explicit_match = True\<rparr>)"

definition for_ref :: "string \<Rightarrow> ProtectionRule list \<Rightarrow> EffectiveRules" where
  "for_ref ref_name rules =
     fold (for_ref_step ref_name) rules
       \<lparr>er_push_role = None, er_no_force_push = False, er_no_delete = False,
        er_require_patch = False, er_has_explicit_match = False\<rparr>"

record Denial =
  dn_ref_name :: string
  dn_reason :: string

definition evaluate_ref_update ::
  "RefUpdate \<Rightarrow> MemberRole \<Rightarrow> ProtectionRule list \<Rightarrow> Denial + unit" where
  "evaluate_ref_update update role rules =
     (let effective = for_ref (ru_ref_name update) rules;
          deny = (\<lambda>reason. Err \<lparr>dn_ref_name = ru_ref_name update, dn_reason = reason\<rparr>);
          default_role = default_min_role (ru_ref_name update) (ru_kind update) in
      if \<not> er_has_explicit_match effective then
        (if \<not> has_at_least role default_role
         then deny (''requires '' @ MemberRole_as_str default_role @ '' role (you have '' @
                MemberRole_as_str role @ ''), using built-in defaults'')
         else Ok ())
      else if er_require_patch effective then
        deny ''direct push denied: require-patch is set, submit a NIP-34 patch''
      else
        (let min_role =
           (case er_push_role effective of
              Some explicit \<Rightarrow>
                if permission_level explicit \<ge> permission_level default_role then explicit
                else default_role
            | None \<Rightarrow> default_role) in
         if \<not> has_at_least role min_role then
           deny (''requires '' @ MemberRole_as_str min_role @ '' role (you have '' @
             MemberRole_as_str role @ '')'')
         else if er_no_force_push effective \<and> ru_kind update = NonFastForward then
           deny ''non-fast-forward update denied: no-force-push is set''
         else if er_no_delete effective \<and> ru_kind update = Delete then
           deny ''ref deletion denied: no-delete is set''
         else Ok ()))"

definition evaluate_push ::
  "RefUpdate list \<Rightarrow> MemberRole \<Rightarrow> ProtectionRule list \<Rightarrow> Denial list + unit" where
  "evaluate_push updates role rules =
     (let denials = List.map_filter
            (\<lambda>u. case evaluate_ref_update u role rules of Inl d \<Rightarrow> Some d | Inr _ \<Rightarrow> None) updates
      in if denials = [] then Ok () else Err denials)"

end
