(* ===== verification/GitPermsProps.thy ===== *)
theory GitPermsProps
  imports GitPerms
begin

text \<open>
  What the push policy promises. A pattern that parses matches a ref exactly as the glob on
  path segments does and never reaches \<open>unreachable!()\<close>; the decision depends on the set of
  matching rules only, rules never weaken the built-in default, and a push is allowed when
  each of its updates is.
\<close>

section \<open>Patterns\<close>

text \<open>The specification of matching, on path segments.\<close>

fun glob_match :: "string list \<Rightarrow> string list \<Rightarrow> bool" where
  "glob_match [] [] = True"
| "glob_match [] (s # ss) = False"
| "glob_match (p # ps) [] = False"
| "glob_match (p # ps) (s # ss) =
     (if p = ''**'' \<and> ps = [] then True
      else (p = ''*'' \<or> p = s) \<and> glob_match ps ss)"

definition segment_of :: "string \<Rightarrow> PatternSegment" where
  "segment_of p = (if p = ''**'' then RecursiveWildcard else if p = ''*'' then Wildcard else Literal p)"

lemma parse_segments_Ok:
  "parse_segments w ps = Ok ss \<Longrightarrow>
     ss = map segment_of ps \<and> ''**'' \<notin> set (butlast ps) \<and>
     w + length (filter (\<lambda>p. p = ''*'' \<or> p = ''**'') ps) \<le> max w MAX_WILDCARDS_PER_PATTERN"
proof (induction w ps arbitrary: ss rule: parse_segments.induct)
  case (1 w)
  then show ?case by simp
next
  case (2 w part rest)
  show ?case
  proof (cases "part = ''**''")
    case True
    with 2 show ?thesis
      by (auto simp: segment_of_def split: if_splits)
  next
    case not_rec: False
    show ?thesis
    proof (cases "part = ''*''")
      case True
      with 2 not_rec obtain ss' where
        "parse_segments (w + 1) rest = Ok ss'" "ss = Wildcard # ss'"
        "w + 1 \<le> MAX_WILDCARDS_PER_PATTERN"
        by (auto simp: and_then_eq_Ok split: if_splits)
      with 2(2) [OF not_rec True] True show ?thesis
        by (auto simp: segment_of_def max_def)
    next
      case False
      with 2 not_rec obtain ss' where
        "parse_segments w rest = Ok ss'" "ss = Literal part # ss'"
        "part \<noteq> []" "\<not> list_ex is_glob_char part" "list_all is_segment_char part"
        by (auto simp: and_then_eq_Ok split: if_splits)
      with 2(3) [OF not_rec False] False not_rec show ?thesis
        by (auto simp: segment_of_def)
    qed
  qed
qed

lemma all_segments_literal:
  "RecursiveWildcard \<notin> fst ` set zs \<Longrightarrow>
     all_segments zs = Some (\<forall>(p, s)\<in>set zs. match_segment p s = Some True)"
proof (induction zs)
  case Nil
  then show ?case by simp
next
  case (Cons z zs)
  obtain p s where "z = (p, s)" by (cases z)
  with Cons show ?case
    by (cases p) (auto split: bool.splits)
qed

lemma match_segment_of:
  "p \<noteq> ''**'' \<Longrightarrow> match_segment (segment_of p) s = Some True \<longleftrightarrow> p = ''*'' \<or> p = s"
  by (simp add: segment_of_def)

lemma segment_of_recursive [simp]: "segment_of p = RecursiveWildcard \<longleftrightarrow> p = ''**''"
  by (simp add: segment_of_def)

lemma recursive_segment_of [simp]: "RecursiveWildcard = segment_of p \<longleftrightarrow> p = ''**''"
  by (simp add: segment_of_def)

lemma recursive_notin_map:
  "RecursiveWildcard \<notin> set (map segment_of ps) \<longleftrightarrow> ''**'' \<notin> set ps"
  by (simp add: image_iff)

lemma zip_fst_subset: "fst ` set (zip xs ys) \<subseteq> set xs"
  by (auto dest: set_zip_leftD)

lemma zip_match_glob:
  "''**'' \<notin> set ps \<Longrightarrow> length ps = length ss \<Longrightarrow>
     (\<forall>(p, s)\<in>set (zip (map segment_of ps) ss). match_segment p s = Some True) \<longleftrightarrow>
     glob_match ps ss"
proof (induction ps ss rule: glob_match.induct)
  case (4 p ps s ss)
  then show ?case
    by (auto simp: match_segment_of)
qed auto

lemma all_segments_glob:
  assumes "''**'' \<notin> set ps" and "length ps = length ss"
  shows "all_segments (zip (map segment_of ps) ss) = Some (glob_match ps ss)"
proof -
  have "RecursiveWildcard \<notin> fst ` set (zip (map segment_of ps) ss)"
    using assms(1) zip_fst_subset [of "map segment_of ps" ss] recursive_notin_map [of ps] by blast
  then show ?thesis
    by (simp add: all_segments_literal zip_match_glob assms)
qed

lemma glob_match_recursive:
  "''**'' \<notin> set ps \<Longrightarrow>
     glob_match (ps @ [''**'']) ss \<longleftrightarrow>
     length ps < length ss \<and> glob_match ps (take (length ps) ss)"
proof (induction ps arbitrary: ss)
  case Nil
  then show ?case by (cases ss) auto
next
  case (Cons p ps)
  then show ?case by (cases ss) auto
qed

lemma glob_match_length:
  "''**'' \<notin> set ps \<Longrightarrow> glob_match ps ss \<Longrightarrow> length ss = length ps"
  by (induction ps ss rule: glob_match.induct) (auto split: if_splits)

lemma parse_segments_no_star:
  "parse_segments w ps = Ok ss \<Longrightarrow> ps \<noteq> [] \<Longrightarrow> ss \<noteq> []"
  by (drule parse_segments_Ok) auto

text \<open>
  C36. A pattern that parses matches a ref exactly when the glob on the \<open>/\<close>-separated segments
  does (\<open>*\<close> one segment, a final \<open>**\<close> one or more), and its matching never panics.
\<close>

theorem parsed_pattern_matches_glob:
  assumes "RefPattern_parse s = Ok p"
  shows "matches_run p ref =
     Some (glob_match (split_on CHR ''/'' s) (split_on CHR ''/'' ref))"
proof -
  define ps where "ps = split_on CHR ''/'' s"
  define rs where "rs = split_on CHR ''/'' ref"
  from assms obtain ss where ss: "parse_segments 0 ps = Ok ss" "rp_segments p = ss"
    by (auto simp: RefPattern_parse_def ps_def and_then_eq_Ok split: if_splits)
  have seg: "rp_segments p = map segment_of ps" and nb: "''**'' \<notin> set (butlast ps)"
    using parse_segments_Ok [OF ss(1)] ss(2) by auto
  have ne: "ps \<noteq> []" by (simp add: ps_def)
  show ?thesis
  proof (cases "last ps = ''**''")
    case True
    define qs where "qs = butlast ps"
    have ps: "ps = qs @ [''**'']"
      using True ne by (metis append_butlast_last_id qs_def)
    have rec: "last (rp_segments p) = RecursiveWildcard" "rp_segments p \<noteq> []"
      using ps seg by (auto simp: segment_of_def)
    have "all_segments (zip (map segment_of qs) (take (length qs) rs)) =
        Some (glob_match qs (take (length qs) rs))" if "length qs < length rs"
      using nb that by (intro all_segments_glob) (auto simp: ps)
    then show ?thesis
      using rec nb
      by (auto simp: matches_run_def seg ps rs_def [symmetric] ps_def [symmetric]
          glob_match_recursive Let_def)
  next
    case False
    have no: "''**'' \<notin> set ps"
      using nb False ne by (metis append_butlast_last_id in_set_butlastD rotate1.simps(2)
          set_rotate1 set_ConsD)
    have rec: "last (rp_segments p) \<noteq> RecursiveWildcard"
      using False ne seg by (simp add: last_map)
    show ?thesis
      using rec seg no ne all_segments_glob [OF no, of rs] glob_match_length [OF no, of rs]
      by (auto simp: matches_run_def rs_def [symmetric] ps_def [symmetric])
  qed
qed

theorem parsed_pattern_matches_glob_witness:
  "matches_run \<lparr>rp_raw = ''refs/heads/**'',
       rp_segments = [Literal ''refs'', Literal ''heads'', RecursiveWildcard]\<rparr>
     ''refs/heads/a/b'' = Some (glob_match (split_on CHR ''/'' ''refs/heads/**'')
       (split_on CHR ''/'' ''refs/heads/a/b''))"
proof (rule parsed_pattern_matches_glob)
  show "RefPattern_parse ''refs/heads/**'' = Ok \<lparr>rp_raw = ''refs/heads/**'',
       rp_segments = [Literal ''refs'', Literal ''heads'', RecursiveWildcard]\<rparr>"
    by code_simp
qed

section \<open>The union of the matching rules\<close>

abbreviation matching :: "string \<Rightarrow> ProtectionRule list \<Rightarrow> ProtectionRule set" where
  "matching ref rules \<equiv> {r \<in> set rules. matches (pr_pattern r) ref}"

text \<open>The effective rules, read off the set of matching rules.\<close>

definition effective_of :: "EffectiveRules \<Rightarrow> ProtectionRule set \<Rightarrow> bool" where
  "effective_of e R \<longleftrightarrow>
     (er_has_explicit_match e \<longleftrightarrow> R \<noteq> {}) \<and>
     (er_no_force_push e \<longleftrightarrow> (\<exists>r\<in>R. pr_no_force_push r)) \<and>
     (er_no_delete e \<longleftrightarrow> (\<exists>r\<in>R. pr_no_delete r)) \<and>
     (er_require_patch e \<longleftrightarrow> (\<exists>r\<in>R. pr_require_patch r)) \<and>
     (\<forall>role. (\<forall>m. er_push_role e = Some m \<longrightarrow> m \<le> role) \<longleftrightarrow>
             (\<forall>r\<in>R. \<forall>m. pr_push_role r = Some m \<longrightarrow> m \<le> role))"

lemma take_strictest_le:
  "(\<forall>m. take_strictest p x = Some m \<longrightarrow> m \<le> role) \<longleftrightarrow>
     x \<le> role \<and> (\<forall>m. p = Some m \<longrightarrow> m \<le> role)"
  by (auto simp: take_strictest_def level_less_iff split: option.splits if_splits)

lemma for_ref_step_effective:
  assumes "effective_of e R"
  shows "effective_of (for_ref_step ref r e)
           (if matches (pr_pattern r) ref then insert r R else R)"
proof (cases "matches (pr_pattern r) ref")
  case True
  have "(\<forall>m. er_push_role (for_ref_step ref r e) = Some m \<longrightarrow> m \<le> role) \<longleftrightarrow>
        (\<forall>r'\<in>insert r R. \<forall>m. pr_push_role r' = Some m \<longrightarrow> m \<le> role)" for role
    using assms True
    by (cases "pr_push_role r")
      (auto simp: for_ref_step_def effective_of_def take_strictest_le)
  with assms True show ?thesis
    by (auto simp: for_ref_step_def effective_of_def)
next
  case False
  with assms show ?thesis by (simp add: for_ref_step_def)
qed

lemma fold_for_ref_step_effective:
  "effective_of e R \<Longrightarrow>
     effective_of (fold (for_ref_step ref) rules e) (R \<union> matching ref rules)"
proof (induction rules arbitrary: e R)
  case Nil
  then show ?case by simp
next
  case (Cons r rules)
  have "R \<union> matching ref (r # rules) =
      (if matches (pr_pattern r) ref then insert r R else R) \<union> matching ref rules"
    by auto
  with Cons.IH [OF for_ref_step_effective [OF Cons.prems]] show ?case by simp
qed

lemma for_ref_effective: "effective_of (for_ref ref rules) (matching ref rules)"
proof -
  have "effective_of \<lparr>er_push_role = None, er_no_force_push = False, er_no_delete = False,
        er_require_patch = False, er_has_explicit_match = False\<rparr> {}"
    by (simp add: effective_of_def)
  from fold_for_ref_step_effective [OF this] show ?thesis by (simp add: for_ref_def)
qed

section \<open>The decision\<close>

text \<open>What an update needs, as a property of the set of matching rules.\<close>

definition update_permitted :: "RefUpdate \<Rightarrow> MemberRole \<Rightarrow> ProtectionRule set \<Rightarrow> bool" where
  "update_permitted u role R \<longleftrightarrow>
     default_min_role (ru_ref_name u) (ru_kind u) \<le> role \<and>
     (\<forall>r\<in>R. \<not> pr_require_patch r \<and>
            (\<forall>m. pr_push_role r = Some m \<longrightarrow> m \<le> role) \<and>
            (pr_no_force_push r \<longrightarrow> ru_kind u \<noteq> NonFastForward) \<and>
            (pr_no_delete r \<longrightarrow> ru_kind u \<noteq> Delete))"

lemma stricter_role_le:
  "(case p of Some explicit \<Rightarrow>
       if permission_level explicit \<ge> permission_level d then explicit else d
     | None \<Rightarrow> d) \<le> role \<longleftrightarrow> d \<le> role \<and> (\<forall>m. p = Some m \<longrightarrow> m \<le> role)"
  by (auto simp: level_le_iff split: option.splits)

lemma evaluate_ref_update_Ok_iff:
  "is_ok (evaluate_ref_update u role rules) \<longleftrightarrow>
     update_permitted u role (matching (ru_ref_name u) rules)"
proof -
  let ?e = "for_ref (ru_ref_name u) rules" and ?R = "matching (ru_ref_name u) rules"
  have e: "er_has_explicit_match ?e \<longleftrightarrow> ?R \<noteq> {}"
    "er_no_force_push ?e \<longleftrightarrow> (\<exists>r\<in>?R. pr_no_force_push r)"
    "er_no_delete ?e \<longleftrightarrow> (\<exists>r\<in>?R. pr_no_delete r)"
    "er_require_patch ?e \<longleftrightarrow> (\<exists>r\<in>?R. pr_require_patch r)"
    "(\<forall>m. er_push_role ?e = Some m \<longrightarrow> m \<le> role) \<longleftrightarrow>
       (\<forall>r\<in>?R. \<forall>m. pr_push_role r = Some m \<longrightarrow> m \<le> role)"
    using for_ref_effective [of "ru_ref_name u" rules] unfolding effective_of_def by blast+
  show ?thesis
  proof (cases "?R = {}")
    case True
    then have "\<not> er_has_explicit_match ?e" using e(1) by simp
    then show ?thesis
      unfolding True by (simp add: evaluate_ref_update_def update_permitted_def Let_def)
  next
    case False
    then have "er_has_explicit_match ?e" using e(1) by simp
    then have "is_ok (evaluate_ref_update u role rules) \<longleftrightarrow>
        \<not> er_require_patch ?e \<and>
        (default_min_role (ru_ref_name u) (ru_kind u) \<le> role \<and>
          (\<forall>m. er_push_role ?e = Some m \<longrightarrow> m \<le> role)) \<and>
        \<not> (er_no_force_push ?e \<and> ru_kind u = NonFastForward) \<and>
        \<not> (er_no_delete ?e \<and> ru_kind u = Delete)"
      by (simp add: evaluate_ref_update_def Let_def flip: stricter_role_le)
    then show ?thesis
      unfolding e(2-5) update_permitted_def by blast
  qed
qed

text \<open>
  C27. An update is allowed exactly when the pusher's role reaches the built-in default and
  every matching rule accepts it: no \<open>require-patch\<close>, a \<open>push\<close> role within reach, no
  \<open>no-force-push\<close> on a non-fast-forward, no \<open>no-delete\<close> on a deletion.
\<close>

theorem ref_update_policy:
  "is_ok (evaluate_ref_update u role rules) \<longleftrightarrow>
     update_permitted u role {r \<in> set rules. matches (pr_pattern r) (ru_ref_name u)}"
  by (rule evaluate_ref_update_Ok_iff)

text \<open>
  More rules never allow more: an update that a rule list allows is allowed by every part
  of it, whatever the order, and by a pusher with a higher role.
\<close>

theorem policy_monotone:
  assumes "is_ok (evaluate_ref_update u role rules)"
    and "set fewer \<subseteq> set rules" and "role \<le> role'"
  shows "is_ok (evaluate_ref_update u role' fewer)"
  using assms
  by (auto simp: evaluate_ref_update_Ok_iff update_permitted_def intro: order_trans)

definition main_push :: RefUpdate where
  "main_push = \<lparr>ru_ref_name = ''refs/heads/main'', ru_kind = FastForward,
     ru_old_oid = replicate 40 CHR ''1'', ru_new_oid = replicate 40 CHR ''2''\<rparr>"

definition main_rule :: ProtectionRule where
  "main_rule = \<lparr>pr_pattern = \<lparr>rp_raw = ''refs/heads/main'',
       rp_segments = [Literal ''refs'', Literal ''heads'', Literal ''main'']\<rparr>,
     pr_push_role = Some Admin, pr_no_force_push = True, pr_no_delete = True,
     pr_require_patch = False\<rparr>"

theorem policy_monotone_witness:
  "is_ok (evaluate_ref_update main_push Admin [main_rule]) \<and>
   is_ok (evaluate_ref_update main_push Owner [])"
proof -
  have ok: "is_ok (evaluate_ref_update main_push Admin [main_rule])"
    by code_simp
  have "is_ok (evaluate_ref_update main_push Owner [])"
    using ok by (rule policy_monotone) (simp_all add: less_eq_MemberRole_def)
  with ok show ?thesis by simp
qed

text \<open>
  Neither a guest nor a bot can update any ref, whatever the rules: the built-in default
  asks for at least a member.
\<close>

theorem guests_and_bots_cannot_push:
  assumes "role = Guest \<or> role = Bot"
  shows "\<not> is_ok (evaluate_ref_update u role rules)"
proof -
  have "Member \<le> default_min_role (ru_ref_name u) (ru_kind u)"
    by (cases "ru_kind u") (auto simp: default_min_role_def less_eq_MemberRole_def Let_def)
  moreover have "role < Member"
    using assms by (auto simp: less_MemberRole_def)
  ultimately show ?thesis
    by (auto simp: evaluate_ref_update_Ok_iff update_permitted_def)
qed

theorem guests_and_bots_cannot_push_witness:
  "\<not> is_ok (evaluate_ref_update main_push Bot [main_rule])"
  by (rule guests_and_bots_cannot_push) simp

lemma map_filter_errs:
  "List.map_filter (\<lambda>u. case f u of Inl d \<Rightarrow> Some d | Inr _ \<Rightarrow> None) us = [] \<longleftrightarrow>
     (\<forall>u\<in>set us. is_ok (f u))"
  by (induction us) (auto simp: map_filter_simps is_ok_def split: sum.splits)

text \<open>
  A push is atomic: it is allowed exactly when each of its updates is, and a refused push
  reports one denial per refused update, in the order of the updates.
\<close>

theorem push_is_atomic:
  "(is_ok (evaluate_push us role rules) \<longleftrightarrow>
      list_all (\<lambda>u. is_ok (evaluate_ref_update u role rules)) us) \<and>
   (case evaluate_push us role rules of
      Inl ds \<Rightarrow>
        map Inl ds = filter (\<lambda>r. \<not> is_ok r) (map (\<lambda>u. evaluate_ref_update u role rules) us)
    | Inr _ \<Rightarrow> True)"
proof -
  have "map Inl (List.map_filter
        (\<lambda>u. case f u of Inl d \<Rightarrow> Some d | Inr _ \<Rightarrow> None) us) = filter (\<lambda>r. \<not> is_ok r) (map f us)"
    for f :: "RefUpdate \<Rightarrow> Denial + unit"
    by (induction us) (auto simp: map_filter_simps is_ok_def split: sum.splits)
  then show ?thesis
    by (auto simp: evaluate_push_def Let_def map_filter_errs list_all_iff)
qed

section \<open>Parsing the tags\<close>

definition wf_rule :: "ProtectionRule \<Rightarrow> bool" where
  "wf_rule r \<longleftrightarrow>
     (\<exists>s. RefPattern_parse s = Ok (pr_pattern r)) \<and>
     (\<forall>m. pr_push_role r = Some m \<longrightarrow> Member \<le> m)"

lemma parse_rule_values_wf:
  "parse_rule_values vs (r, unk) = Ok (r', unk') \<Longrightarrow> wf_rule r \<Longrightarrow> wf_rule r'"
proof (induction vs "(r, unk)" arbitrary: r unk rule: parse_rule_values.induct)
  case 1
  then show ?case by simp
next
  case (2 v vs r unk)
  show ?case
  proof (cases "strip_prefix v ''push:''")
    case None
    with 2 show ?thesis
      by (auto simp: wf_rule_def split: if_splits)
  next
    case (Some role_str)
    with "2.prems"(1) obtain role where role: "MemberRole_from_str role_str = Ok role"
        "role \<noteq> Bot" "role \<noteq> Guest"
      and rest: "parse_rule_values vs
        (r\<lparr>pr_push_role := take_strictest (pr_push_role r) role\<rparr>, unk) = Ok (r', unk')"
      by (cases "MemberRole_from_str role_str") (auto split: if_splits)
    have "Member \<le> role"
      using role by (cases role) (auto simp: less_eq_MemberRole_def)
    then have "wf_rule (r\<lparr>pr_push_role := take_strictest (pr_push_role r) role\<rparr>)"
      using "2.prems"(2) by (auto simp: wf_rule_def take_strictest_def split: option.splits)
    with "2.hyps"(5) [OF Some role(1)] role rest show ?thesis by blast
  qed
qed

lemma parse_tag_wf:
  "parse_protection_tag_with_warnings vs = Ok (r, unk) \<Longrightarrow> wf_rule r"
  unfolding parse_protection_tag_with_warnings_def
  by (auto elim!: parse_rule_values_wf split: if_splits sum.splits) (auto simp: wf_rule_def)

lemma parse_protection_loop_wf:
  "parse_protection_loop tags acc = Ok p \<Longrightarrow>
     list_all wf_rule (pp_rules acc) \<Longrightarrow> length (pp_rules acc) \<le> MAX_PROTECTION_RULES \<Longrightarrow>
     list_all wf_rule (pp_rules p) \<and> length (pp_rules p) \<le> MAX_PROTECTION_RULES"
proof (induction tags acc rule: parse_protection_loop.induct)
  case (1 acc)
  then show ?case by simp
next
  case (2 tag tags acc)
  then show ?case
    by (auto split: if_splits sum.splits dest: parse_tag_wf)
qed

text \<open>
  The rules parsed from an announcement are at most 50, each has a pattern that the
  pattern parser accepted, and none names \<open>guest\<close> or \<open>bot\<close> as its push role.
\<close>

theorem parsed_rules_wellformed:
  assumes "parse_protection_tags tags = Ok p"
  shows "length (pp_rules p) \<le> MAX_PROTECTION_RULES \<and> list_all wf_rule (pp_rules p)"
  using parse_protection_loop_wf [OF assms [unfolded parse_protection_tags_def]] by simp

theorem parsed_rules_wellformed_witness:
  "\<exists>p. parse_protection_tags
        [[''buzz-protect'', ''refs/heads/main'', ''push:admin'', ''no-delete'']] = Ok p \<and>
     length (pp_rules p) = 1 \<and> length (pp_rules p) \<le> MAX_PROTECTION_RULES \<and>
     list_all wf_rule (pp_rules p)"
proof -
  let ?p = "\<lparr>pp_rules = [main_rule\<lparr>pr_no_force_push := False\<rparr>], pp_unknown_rules = []\<rparr>"
  have "parse_protection_tags
      [[''buzz-protect'', ''refs/heads/main'', ''push:admin'', ''no-delete'']] = Ok ?p"
    by code_simp
  with parsed_rules_wellformed [OF this] show ?thesis by auto
qed

end
