(* ===== verification/Conformance.thy ===== *)
theory Conformance
  imports Nostr
begin

text \<open>
  The trace checker of the multi-tenant fence, \<open>crates/buzz-conformance/src\<close>: the trace schema
  (\<open>lib.rs\<close>), the per-step obligations (\<open>transitions.rs\<close>) and the replay of a scenario
  (\<open>checker.rs\<close>). The human-readable \<open>detail\<close> of an error is left out: the errors are told apart
  by their variant and step index.
\<close>

section \<open>The trace schema\<close>

definition SCHEMA_VERSION :: u32 where "SCHEMA_VERSION = 1"

datatype CommunityLabel = CommunityLabel uuid
datatype OpaqueId = OpaqueId string
datatype HostLabel = HostLabel string
datatype ChannelLabel = ChannelLabel uuid
datatype ActorLabel = ActorLabel string

datatype Verdict = Allow | Deny
datatype SanitizedReason = Restricted | Invalid | ServerError

record AbstractState =
  as_resolved_community :: CommunityLabel
  as_bound_host :: HostLabel
  as_actor :: ActorLabel

datatype TraceAction =
    WriteInsert OpaqueId ChannelLabel "CommunityLabel option"
  | WriteInsertGlobal OpaqueId "CommunityLabel option"
  | WriteDuplicate OpaqueId ChannelLabel "CommunityLabel option"
  | SanitizedError SanitizedReason
  | AuthCheck ChannelLabel "CommunityLabel option" Verdict
  | ReadMessageRows "ChannelLabel option" "CommunityLabel list"
  | ReadByIdRows "ChannelLabel option" "CommunityLabel list"
  | ReadHostFeedRows "CommunityLabel list"
  | ImplBug string

fun action_kind :: "TraceAction \<Rightarrow> string" where
  "action_kind (WriteInsert _ _ _) = ''write_insert''"
| "action_kind (WriteInsertGlobal _ _) = ''write_insert_global''"
| "action_kind (WriteDuplicate _ _ _) = ''write_duplicate''"
| "action_kind (SanitizedError _) = ''sanitized_error''"
| "action_kind (AuthCheck _ _ _) = ''auth_check''"
| "action_kind (ReadMessageRows _ _) = ''read_message_rows''"
| "action_kind (ReadByIdRows _ _) = ''read_by_id_rows''"
| "action_kind (ReadHostFeedRows _) = ''read_host_feed_rows''"
| "action_kind (ImplBug _) = ''impl_bug''"

definition is_critical :: "TraceAction \<Rightarrow> bool" where
  "is_critical a = True"

record TraceStep =
  ts_schema_version :: u32
  ts_action :: TraceAction
  ts_state_after :: AbstractState

definition TraceStep_new :: "TraceAction \<Rightarrow> AbstractState \<Rightarrow> TraceStep" where
  "TraceStep_new action state_after =
     \<lparr>ts_schema_version = SCHEMA_VERSION, ts_action = action, ts_state_after = state_after\<rparr>"

section \<open>The transition relation\<close>

datatype TransitionError =
    IllegalTransition nat
  | StateMismatch nat
  | NonInterference nat
  | CoverageBreach

record ModelState =
  ms_resolved_community :: CommunityLabel
  ms_bound_host :: HostLabel
  ms_actor :: ActorLabel

definition bootstrap :: "AbstractState \<Rightarrow> ModelState" where
  "bootstrap first =
     \<lparr>ms_resolved_community = as_resolved_community first,
      ms_bound_host = as_bound_host first, ms_actor = as_actor first\<rparr>"

definition check_row_labels ::
  "nat \<Rightarrow> ModelState \<Rightarrow> CommunityLabel list \<Rightarrow> TransitionError + unit" where
  "check_row_labels step_index model row_communities =
     (case List.find (\<lambda>c. c \<noteq> ms_resolved_community model) row_communities of
        Some foreign \<Rightarrow> Inl (NonInterference step_index)
      | None \<Rightarrow> Inr ())"

definition check_action ::
  "nat \<Rightarrow> ModelState \<Rightarrow> TraceAction \<Rightarrow> TransitionError + unit" where
  "check_action step_index model action =
     (case action of
        WriteInsert _ _ _ \<Rightarrow> Inr ()
      | WriteInsertGlobal _ _ \<Rightarrow> Inr ()
      | WriteDuplicate _ _ _ \<Rightarrow> Inr ()
      | SanitizedError reason \<Rightarrow> Inr ()
      | AuthCheck _ claimed_community verdict \<Rightarrow>
          (case (verdict, claimed_community) of
             (Allow, Some c) \<Rightarrow>
               if c \<noteq> ms_resolved_community model then Inl (IllegalTransition step_index)
               else Inr ()
           | _ \<Rightarrow> Inr ())
      | ReadMessageRows _ rows \<Rightarrow> check_row_labels step_index model rows
      | ReadByIdRows _ rows \<Rightarrow> check_row_labels step_index model rows
      | ReadHostFeedRows rows \<Rightarrow> check_row_labels step_index model rows
      | ImplBug kind \<Rightarrow> Inl CoverageBreach)"

definition check_step :: "nat \<Rightarrow> ModelState \<Rightarrow> TraceStep \<Rightarrow> TransitionError + unit" where
  "check_step step_index model step =
     (if as_resolved_community (ts_state_after step) \<noteq> ms_resolved_community model
      then Inl (StateMismatch step_index)
      else if as_bound_host (ts_state_after step) \<noteq> ms_bound_host model
      then Inl (StateMismatch step_index)
      else if as_actor (ts_state_after step) \<noteq> ms_actor model
      then Inl (StateMismatch step_index)
      else check_action step_index model (ts_action step))"

fun action_channel :: "TraceAction \<Rightarrow> ChannelLabel option" where
  "action_channel (WriteInsert _ channel _) = Some channel"
| "action_channel (WriteDuplicate _ channel _) = Some channel"
| "action_channel (AuthCheck channel _ _) = Some channel"
| "action_channel (ReadMessageRows channel _) = channel"
| "action_channel (ReadByIdRows channel _) = channel"
| "action_channel (WriteInsertGlobal _ _) = None"
| "action_channel (ReadHostFeedRows _) = None"
| "action_channel (SanitizedError _) = None"
| "action_channel (ImplBug _) = None"

section \<open>Replaying a scenario\<close>

record Scenario =
  sc_trace :: "TraceStep list"
  sc_required_critical_actions :: "string list"

definition unstructured :: "TraceStep list \<Rightarrow> Scenario" where
  "unstructured trace = \<lparr>sc_trace = trace, sc_required_critical_actions = []\<rparr>"

definition require_action :: "string \<Rightarrow> Scenario \<Rightarrow> Scenario" where
  "require_action kind sc = sc\<lparr>sc_required_critical_actions :=
     List.insert kind (sc_required_critical_actions sc)\<rparr>"

fun check_steps :: "nat \<Rightarrow> ModelState \<Rightarrow> TraceStep list \<Rightarrow> TransitionError + unit" where
  "check_steps i model [] = Inr ()"
| "check_steps i model (step # steps) =
     (if ts_schema_version step \<noteq> SCHEMA_VERSION then Inl (IllegalTransition i)
      else and_then (check_step i model step) (\<lambda>_. check_steps (i + 1) model steps))"

definition check_trace :: "Scenario \<Rightarrow> TransitionError + unit" where
  "check_trace scenario =
     (case sc_trace scenario of
        [] \<Rightarrow> Inl CoverageBreach
      | first # _ \<Rightarrow>
          if ts_schema_version first \<noteq> SCHEMA_VERSION then Inl (IllegalTransition 0)
          else
            (let model = bootstrap (ts_state_after first) in
             and_then (check_steps 0 model (sc_trace scenario)) (\<lambda>_.
             let seen = remdups (map (\<lambda>step. action_kind (ts_action step)) (sc_trace scenario));
                 missing = filter (\<lambda>k. k \<notin> set seen) (sc_required_critical_actions scenario)
             in if missing \<noteq> [] then Inl CoverageBreach else Inr ())))"

section \<open>Lemmas\<close>

fun row_labels :: "TraceAction \<Rightarrow> CommunityLabel list" where
  "row_labels (ReadMessageRows _ rows) = rows"
| "row_labels (ReadByIdRows _ rows) = rows"
| "row_labels (ReadHostFeedRows rows) = rows"
| "row_labels _ = []"

text \<open>What a conforming step of a request resolved to state \<open>st\<close> shows.\<close>

definition step_conforms :: "AbstractState \<Rightarrow> TraceStep \<Rightarrow> bool" where
  "step_conforms st step \<longleftrightarrow>
     ts_schema_version step = SCHEMA_VERSION \<and> ts_state_after step = st \<and>
     set (row_labels (ts_action step)) \<subseteq> {as_resolved_community st} \<and>
     (\<forall>ch c. ts_action step \<noteq> AuthCheck ch (Some c) Allow \<or> c = as_resolved_community st) \<and>
     (\<forall>k. ts_action step \<noteq> ImplBug k)"

lemma check_row_labels_iff:
  "check_row_labels i model rows = Inr () \<longleftrightarrow> set rows \<subseteq> {ms_resolved_community model}"
  "check_row_labels i model rows \<noteq> Inr () \<longleftrightarrow> check_row_labels i model rows = Inl (NonInterference i)"
  by (auto simp: check_row_labels_def find_None_iff find_Some_iff split: option.split)
    (metis nth_mem singletonD subsetD)

lemma check_action_iff:
  "check_action i (bootstrap st) a = Inr () \<longleftrightarrow>
     set (row_labels a) \<subseteq> {as_resolved_community st} \<and>
     (\<forall>ch c. a \<noteq> AuthCheck ch (Some c) Allow \<or> c = as_resolved_community st) \<and>
     (\<forall>k. a \<noteq> ImplBug k)"
  by (cases a)
    (auto simp: check_action_def check_row_labels_iff bootstrap_def
      split: Verdict.splits option.splits)

lemma abstract_state_eq:
  fixes a st :: AbstractState
  shows "a = st \<longleftrightarrow> as_resolved_community a = as_resolved_community st \<and>
     as_bound_host a = as_bound_host st \<and> as_actor a = as_actor st"
  by (cases a, cases st) simp

lemma check_step_Ok:
  "check_step i (bootstrap st) step = Inr () \<longleftrightarrow>
     ts_state_after step = st \<and> check_action i (bootstrap st) (ts_action step) = Inr ()"
  unfolding abstract_state_eq [of "ts_state_after step"] check_step_def
  by (simp add: bootstrap_def)

lemma check_step_iff:
  "ts_schema_version step = SCHEMA_VERSION \<and> check_step i (bootstrap st) step = Inr () \<longleftrightarrow>
     step_conforms st step"
  unfolding check_step_Ok check_action_iff step_conforms_def by (rule refl)

lemma check_steps_iff:
  "check_steps i (bootstrap st) steps = Inr () \<longleftrightarrow> (\<forall>step\<in>set steps. step_conforms st step)"
proof (induction steps arbitrary: i)
  case (Cons step steps)
  then show ?case
    using check_step_iff [of step i st] by (auto simp: and_then_eq_Ok)
qed simp

text \<open>The step index an error carries.\<close>

fun error_step :: "TransitionError \<Rightarrow> nat option" where
  "error_step (IllegalTransition i) = Some i"
| "error_step (StateMismatch i) = Some i"
| "error_step (NonInterference i) = Some i"
| "error_step CoverageBreach = None"

lemma check_action_error:
  "check_action i model a = Inl e \<Longrightarrow> error_step e = Some i \<or> e = CoverageBreach"
  by (auto simp: check_action_def check_row_labels_def split: TraceAction.splits Verdict.splits
      option.splits if_splits)

lemma check_step_error:
  "check_step i model step = Inl e \<Longrightarrow> error_step e = Some i \<or> e = CoverageBreach"
  by (auto simp: check_step_def dest: check_action_error split: if_splits)

lemma check_row_labels_Inl:
  "check_row_labels i model rows = Inl e \<Longrightarrow> \<not> set rows \<subseteq> {ms_resolved_community model}"
  using check_row_labels_iff(1) [of i model rows] by auto

lemma check_step_foreign:
  "check_step i (bootstrap st) step = Inl (NonInterference j) \<Longrightarrow>
     \<not> set (row_labels (ts_action step)) \<subseteq> {as_resolved_community st}"
  by (cases "ts_action step")
    (auto simp: check_step_def check_action_def bootstrap_def dest!: check_row_labels_Inl
      split: if_splits option.splits Verdict.splits)

lemma check_steps_error:
  "check_steps i (bootstrap st) steps = Inl e \<Longrightarrow>
     \<exists>n < length steps. (\<forall>k < n. step_conforms st (steps ! k)) \<and>
       \<not> step_conforms st (steps ! n) \<and> (error_step e = Some (i + n) \<or> e = CoverageBreach) \<and>
       (e = NonInterference (i + n) \<longrightarrow>
         \<not> set (row_labels (ts_action (steps ! n))) \<subseteq> {as_resolved_community st})"
proof (induction steps arbitrary: i)
  case (Cons step steps)
  show ?case
  proof (cases "step_conforms st step")
    case True
    then have "check_step i (bootstrap st) step = Inr ()" "ts_schema_version step = SCHEMA_VERSION"
      using check_step_iff [of step i st] by auto
    with Cons.prems have "check_steps (i + 1) (bootstrap st) steps = Inl e" by simp
    from Cons.IH [OF this] obtain n where "n < length steps" "\<forall>k < n. step_conforms st (steps ! k)"
      "\<not> step_conforms st (steps ! n)" "error_step e = Some (i + 1 + n) \<or> e = CoverageBreach"
      "e = NonInterference (i + 1 + n) \<longrightarrow>
         \<not> set (row_labels (ts_action (steps ! n))) \<subseteq> {as_resolved_community st}" by blast
    with True show ?thesis
      by (intro exI [of _ "Suc n"]) (auto simp: less_Suc_eq_0_disj)
  next
    case False
    have "(error_step e = Some i \<or> e = CoverageBreach) \<and> (e = NonInterference i \<longrightarrow>
        \<not> set (row_labels (ts_action step)) \<subseteq> {as_resolved_community st})"
    proof (cases "ts_schema_version step = SCHEMA_VERSION")
      case True
      with False have "check_step i (bootstrap st) step \<noteq> Inr ()"
        using check_step_iff [of step i st] by auto
      then obtain e' where e': "check_step i (bootstrap st) step = Inl e'"
        by (cases "check_step i (bootstrap st) step") auto
      with True Cons.prems have "e' = e" by simp
      with check_step_error [OF e'] check_step_foreign [of i st step] e' show ?thesis by auto
    next
      case False
      with Cons.prems show ?thesis by auto
    qed
    then show ?thesis
      using False by (intro exI [of _ 0]) simp
  qed
qed simp

section \<open>Properties\<close>

text \<open>
  C34. A scenario passes exactly when its trace is not empty, every step speaks the checker's
  schema and shows the state of the first one (no tenant, host or actor flips within a request),
  every row label read is the resolved community, no \<open>Allow\<close> verdict has a foreign claim, no
  step is an implementation bug, and every required action was emitted.
\<close>

theorem check_trace_iff:
  "check_trace sc = Inr () \<longleftrightarrow>
     sc_trace sc \<noteq> [] \<and>
     list_all (step_conforms (ts_state_after (hd (sc_trace sc)))) (sc_trace sc) \<and>
     set (sc_required_critical_actions sc) \<subseteq> action_kind ` ts_action ` set (sc_trace sc)"
proof (cases "sc_trace sc")
  case Nil
  then show ?thesis by (simp add: check_trace_def)
next
  case (Cons first rest)
  have miss: "filter (\<lambda>k. k \<notin> set (remdups (map (\<lambda>step. action_kind (ts_action step)) (sc_trace sc))))
      (sc_required_critical_actions sc) = [] \<longleftrightarrow>
      set (sc_required_critical_actions sc) \<subseteq> action_kind ` ts_action ` set (sc_trace sc)"
    by (auto simp: filter_empty_conv image_image)
  show ?thesis
  proof (cases "list_all (step_conforms (ts_state_after first)) (sc_trace sc)")
    case True
    then have "check_steps 0 (bootstrap (ts_state_after first)) (sc_trace sc) = Inr ()"
      by (simp add: check_steps_iff list_all_iff)
    moreover from True Cons have "ts_schema_version first = SCHEMA_VERSION"
      by (simp add: step_conforms_def)
    ultimately have "check_trace sc = Inr () \<longleftrightarrow>
        filter (\<lambda>k. k \<notin> set (remdups (map (\<lambda>step. action_kind (ts_action step)) (sc_trace sc))))
          (sc_required_critical_actions sc) = []"
      unfolding check_trace_def by (simp add: Cons Let_def)
    then show ?thesis
      unfolding miss using True Cons by auto
  next
    case False
    then have "check_steps 0 (bootstrap (ts_state_after first)) (sc_trace sc) \<noteq> Inr ()"
      by (simp add: check_steps_iff list_all_iff)
    then obtain e where "check_steps 0 (bootstrap (ts_state_after first)) (sc_trace sc) = Inl e"
      by (cases "check_steps 0 (bootstrap (ts_state_after first)) (sc_trace sc)") auto
    then have "check_trace sc \<noteq> Inr ()"
      unfolding check_trace_def by (simp add: Cons Let_def del: check_steps.simps)
    with False Cons show ?thesis by auto
  qed
qed

text \<open>
  The checker fails at the first violation: an error that carries a step index names a step
  that does not conform while all the steps before it do, and a non-interference error names a
  step that did return a foreign row.
\<close>

theorem check_trace_first_failure:
  assumes "check_trace sc = Inl e" and "error_step e = Some i"
  shows "i < length (sc_trace sc) \<and>
    \<not> step_conforms (ts_state_after (hd (sc_trace sc))) (sc_trace sc ! i) \<and>
    (\<forall>k < i. step_conforms (ts_state_after (hd (sc_trace sc))) (sc_trace sc ! k)) \<and>
    (e = NonInterference i \<longrightarrow> \<not> set (row_labels (ts_action (sc_trace sc ! i))) \<subseteq>
       {as_resolved_community (ts_state_after (hd (sc_trace sc)))})"
proof (cases "sc_trace sc")
  case Nil
  with assms show ?thesis by (auto simp: check_trace_def)
next
  case (Cons first rest)
  show ?thesis
  proof (cases "ts_schema_version first = SCHEMA_VERSION")
    case True
    have "check_steps 0 (bootstrap (ts_state_after first)) (sc_trace sc) = Inl e"
    proof (cases "check_steps 0 (bootstrap (ts_state_after first)) (sc_trace sc)")
      case (Inl e')
      with assms True Cons show ?thesis
        unfolding check_trace_def by (simp add: Let_def del: check_steps.simps)
    next
      case (Inr u)
      with assms True Cons show ?thesis
        unfolding check_trace_def by (auto simp: Let_def simp del: check_steps.simps split: if_splits)
    qed
    from check_steps_error [OF this] assms(2) show ?thesis
      by (auto simp: Cons)
  next
    case False
    with assms Cons have "e = IllegalTransition 0" by (simp add: check_trace_def)
    with assms False Cons show ?thesis by (simp add: step_conforms_def)
  qed
qed

definition demo_state :: AbstractState where
  "demo_state = \<lparr>as_resolved_community = CommunityLabel ''A'', as_bound_host = HostLabel ''h'',
     as_actor = ActorLabel ''p''\<rparr>"

theorem check_trace_first_failure_witness:
  "check_trace (unstructured [TraceStep_new (ReadHostFeedRows [CommunityLabel ''A'']) demo_state,
     TraceStep_new (ReadHostFeedRows [CommunityLabel ''A'', CommunityLabel ''B'']) demo_state]) =
     Inl (NonInterference 1) \<and>
   \<not> step_conforms demo_state
      (TraceStep_new (ReadHostFeedRows [CommunityLabel ''A'', CommunityLabel ''B'']) demo_state)"
proof -
  let ?sc = "unstructured [TraceStep_new (ReadHostFeedRows [CommunityLabel ''A'']) demo_state,
     TraceStep_new (ReadHostFeedRows [CommunityLabel ''A'', CommunityLabel ''B'']) demo_state]"
  have "check_trace ?sc = Inl (NonInterference 1)"
    by (simp add: check_trace_def unstructured_def TraceStep_new_def check_step_def
        check_action_def check_row_labels_def bootstrap_def demo_state_def Let_def)
  from this check_trace_first_failure [OF this, of 1] show ?thesis
    by (simp add: unstructured_def TraceStep_new_def demo_state_def)
qed

end
