(* ===== verification/Network.thy ===== *)
theory Network
  imports Nostr Text
begin

text \<open>
  The address classification that guards outgoing requests, \<open>crates/buzz-core/src/network.rs\<close>,
  with the predicates of \<open>std::net\<close> it calls, and the host normalisation of
  \<open>crates/buzz-core/src/tenant.rs\<close>. An IPv4 address is its four octets, an IPv6 address its eight
  16-bit segments.
\<close>

section \<open>Addresses\<close>

datatype Ipv4Addr = Ipv4 u8 u8 u8 u8
datatype Ipv6Addr = Ipv6 u16 u16 u16 u16 u16 u16 u16 u16
datatype IpAddr = V4 Ipv4Addr | V6 Ipv6Addr

fun v4_octets :: "Ipv4Addr \<Rightarrow> u8 list" where
  "v4_octets (Ipv4 a b c d) = [a, b, c, d]"

fun v6_segments :: "Ipv6Addr \<Rightarrow> u16 list" where
  "v6_segments (Ipv6 a b c d e f g h) = [a, b, c, d, e, f, g, h]"

definition hi_byte :: "u16 \<Rightarrow> u8" where "hi_byte w = ucast (drop_bit 8 w)"
definition lo_byte :: "u16 \<Rightarrow> u8" where "lo_byte w = ucast w"

definition v6_octets :: "Ipv6Addr \<Rightarrow> u8 list" where
  "v6_octets a = concat (map (\<lambda>s. [hi_byte s, lo_byte s]) (v6_segments a))"

text \<open>The predicates of the standard library.\<close>

fun v4_is_loopback :: "Ipv4Addr \<Rightarrow> bool" where
  "v4_is_loopback (Ipv4 a b c d) \<longleftrightarrow> a = 127"
fun v4_is_private :: "Ipv4Addr \<Rightarrow> bool" where
  "v4_is_private (Ipv4 a b c d) \<longleftrightarrow>
     a = 10 \<or> a = 172 \<and> 16 \<le> b \<and> b \<le> 31 \<or> a = 192 \<and> b = 168"
fun v4_is_link_local :: "Ipv4Addr \<Rightarrow> bool" where
  "v4_is_link_local (Ipv4 a b c d) \<longleftrightarrow> a = 169 \<and> b = 254"
fun v4_is_broadcast :: "Ipv4Addr \<Rightarrow> bool" where
  "v4_is_broadcast (Ipv4 a b c d) \<longleftrightarrow> a = 255 \<and> b = 255 \<and> c = 255 \<and> d = 255"

fun v6_to_ipv4 :: "Ipv6Addr \<Rightarrow> Ipv4Addr option" where
  "v6_to_ipv4 (Ipv6 a b c d e f g h) =
     (if a = 0 \<and> b = 0 \<and> c = 0 \<and> d = 0 \<and> e = 0 \<and> (f = 0 \<or> f = 0xffff)
      then Some (Ipv4 (hi_byte g) (lo_byte g) (hi_byte h) (lo_byte h)) else None)"

definition v6_is_loopback :: "Ipv6Addr \<Rightarrow> bool" where
  "v6_is_loopback a \<longleftrightarrow> a = Ipv6 0 0 0 0 0 0 0 1"
definition v6_is_unspecified :: "Ipv6Addr \<Rightarrow> bool" where
  "v6_is_unspecified a \<longleftrightarrow> a = Ipv6 0 0 0 0 0 0 0 0"

section \<open>The classification\<close>

definition NAT64_WELL_KNOWN_PREFIX :: "u8 list" where
  "NAT64_WELL_KNOWN_PREFIX = [0x00, 0x64, 0xff, 0x9b, 0, 0, 0, 0, 0, 0, 0, 0]"

definition IPV4_TRANSLATED_PREFIX :: "u8 list" where
  "IPV4_TRANSLATED_PREFIX = [0, 0, 0, 0, 0, 0, 0, 0, 0xff, 0xff, 0, 0]"

definition embedded_ipv4 :: "Ipv6Addr \<Rightarrow> u8 list \<Rightarrow> Ipv4Addr option" where
  "embedded_ipv4 v6 prefix =
     (let octets = v6_octets v6 in
      if starts_with octets prefix
      then Some (Ipv4 (octets ! 12) (octets ! 13) (octets ! 14) (octets ! 15)) else None)"

unbundle bit_operations_syntax

definition is_private_v4 :: "Ipv4Addr \<Rightarrow> bool" where
  "is_private_v4 v4 =
     (let octets = v4_octets v4 in
      v4_is_loopback v4 \<or> v4_is_private v4 \<or> v4_is_link_local v4 \<or> octets ! 0 = 0 \<or>
      v4_is_broadcast v4 \<or>
      octets ! 0 = 100 \<and> octets ! 1 AND 0xC0 = 64 \<or>
      octets ! 0 = 198 \<and> octets ! 1 AND 0xFE = 18)"

definition is_private_ip :: "IpAddr \<Rightarrow> bool" where
  "is_private_ip ip =
     (case ip of
        V4 v4 \<Rightarrow> is_private_v4 v4
      | V6 v6 \<Rightarrow>
          (case v6_to_ipv4 v6 of
             Some v4 \<Rightarrow> is_private_v4 v4
           | None \<Rightarrow>
               (let segments = v6_segments v6 in
                case embedded_ipv4 v6 NAT64_WELL_KNOWN_PREFIX of
                  Some v4 \<Rightarrow> is_private_v4 v4
                | None \<Rightarrow>
                    (case embedded_ipv4 v6 IPV4_TRANSLATED_PREFIX of
                       Some v4 \<Rightarrow> is_private_v4 v4
                     | None \<Rightarrow>
                         v6_is_loopback v6 \<or> v6_is_unspecified v6 \<or>
                         segments ! 0 AND 0xfe00 = 0xfc00 \<or>
                         segments ! 0 AND 0xffc0 = 0xfe80 \<or>
                         segments ! 0 AND 0xff00 = 0xff00 \<or>
                         segments ! 0 = 0x0064 \<and> segments ! 1 = 0xff9b \<and> segments ! 2 = 1 \<or>
                         segments ! 0 = 0x2001 \<and> segments ! 1 = 0 \<or>
                         segments ! 0 = 0x2002 \<or>
                         segments ! 0 = 0x2001 \<and> segments ! 1 = 0x0db8))))"

section \<open>Host normalisation\<close>

text \<open>
  \<open>to_ascii_lowercase\<close> and the normalisation; \<open>trim\<close> is that of \<open>Text\<close>: ASCII white space is all a
  \<open>Host\<close> header can hold.
\<close>

definition lower_char :: "char \<Rightarrow> char" where
  "lower_char c = (let n = of_char c in if 65 \<le> n \<and> n \<le> (90 :: nat) then char_of (n + 32) else c)"

definition to_ascii_lowercase :: "string \<Rightarrow> string" where
  "to_ascii_lowercase s = map lower_char s"

definition normalize_host :: "string \<Rightarrow> string" where
  "normalize_host host =
     (let host = to_ascii_lowercase (trim host);
          host = (case (case strip_suffix host '':443'' of
                          Some s \<Rightarrow> Some s
                        | None \<Rightarrow> strip_suffix host '':80'') of
                    Some stripped \<Rightarrow> stripped | None \<Rightarrow> host)
      in (case strip_suffix host ''.'' of Some stripped \<Rightarrow> stripped | None \<Rightarrow> host))"

section \<open>Lemmas\<close>

text \<open>An IPv4 address lies in the block of a base address and a prefix length.\<close>

fun v4_number :: "Ipv4Addr \<Rightarrow> nat" where
  "v4_number (Ipv4 a b c d) = unat a * 2 ^ 24 + unat b * 2 ^ 16 + unat c * 2 ^ 8 + unat d"

definition in_v4_block :: "Ipv4Addr \<Rightarrow> Ipv4Addr \<times> nat \<Rightarrow> bool" where
  "in_v4_block a blk \<longleftrightarrow>
     v4_number a div 2 ^ (32 - snd blk) = v4_number (fst blk) div 2 ^ (32 - snd blk)"

definition blocked_v4 :: "(Ipv4Addr \<times> nat) list" where
  "blocked_v4 = [(Ipv4 127 0 0 0, 8), (Ipv4 10 0 0 0, 8), (Ipv4 172 16 0 0, 12),
     (Ipv4 192 168 0 0, 16), (Ipv4 169 254 0 0, 16), (Ipv4 0 0 0 0, 8), (Ipv4 255 255 255 255, 32),
     (Ipv4 100 64 0 0, 10), (Ipv4 198 18 0 0, 15)]"

lemma u8_less: "unat (b :: u8) < 256"
  using unsigned_less [of b, where ?'a = nat] by simp

lemma u8_eq: "b = c \<longleftrightarrow> unat b = unat (c :: u8)"
  by (simp add: word_unat_eq_iff)

lemma mask_C0: "(b :: u8) AND 0xC0 = 64 \<longleftrightarrow> unat b div 64 = 1"
proof -
  have "\<forall>n\<in>set [0..<256]. ((word_of_nat n :: u8) AND 0xC0 = 64) = (n div 64 = 1)"
    by code_simp
  from bspec [OF this, of "unat b"] u8_less [of b] show ?thesis by simp
qed

lemma mask_FE: "(b :: u8) AND 0xFE = 18 \<longleftrightarrow> unat b div 2 = 9"
proof -
  have "\<forall>n\<in>set [0..<256]. ((word_of_nat n :: u8) AND 0xFE = 18) = (n div 2 = 9)"
    by code_simp
  from bspec [OF this, of "unat b"] u8_less [of b] show ?thesis by simp
qed

lemma v4_div:
  fixes w x y z :: nat
  assumes "x < 256" "y < 256" "z < 256"
  shows "(w * 2 ^ 24 + x * 2 ^ 16 + y * 2 ^ 8 + z) div 2 ^ 24 = w"
    and "(w * 2 ^ 24 + x * 2 ^ 16 + y * 2 ^ 8 + z) div 2 ^ 16 = w * 256 + x"
    and "(w * 2 ^ 24 + x * 2 ^ 16 + y * 2 ^ 8 + z) div 2 ^ 20 = w * 16 + x div 16"
    and "(w * 2 ^ 24 + x * 2 ^ 16 + y * 2 ^ 8 + z) div 2 ^ 22 = w * 4 + x div 64"
    and "(w * 2 ^ 24 + x * 2 ^ 16 + y * 2 ^ 8 + z) div 2 ^ 17 = w * 128 + x div 2"
proof -
  let ?n = "w * 2 ^ 24 + x * 2 ^ 16 + y * 2 ^ 8 + z"
  have "?n = (w * 256 + x) * 2 ^ 16 + (y * 2 ^ 8 + z)" by simp
  moreover have "y * 2 ^ 8 + z < 2 ^ 16" using assms by simp
  ultimately have d16: "?n div 2 ^ 16 = w * 256 + x"
    by (metis add.commute div_mult_self3 div_less plus_nat.add_0 zero_less_numeral zero_less_power less_numeral_extra(3))
  then show "?n div 2 ^ 16 = w * 256 + x" .
  have s: "?n div (2 ^ 16 * k) = (w * 256 + x) div k" for k
    by (simp only: div_mult2_eq d16)
  show "?n div 2 ^ 24 = w" using s [of 256] assms by simp
  show "?n div 2 ^ 20 = w * 16 + x div 16" using s [of 16] by simp
  show "?n div 2 ^ 22 = w * 4 + x div 64" using s [of 64] by simp
  show "?n div 2 ^ 17 = w * 128 + x div 2" using s [of 2] by simp
qed
lemma digits_eq:
  fixes m :: nat
  shows "a < m \<Longrightarrow> b < m \<Longrightarrow> w * m + a = p * m + b \<longleftrightarrow> w = p \<and> a = b"
  by (metis add_right_cancel div_mult_self3 div_less mod_less mod_mult_self3 plus_nat.add_0 less_nat_zero_code add.commute)

lemma v4_blocks:
  fixes w x y z :: nat
  assumes "w < 256" "x < 256" "y < 256" "z < 256"
  shows "w * 16 + x div 16 = 172 * 16 + 1 \<longleftrightarrow> w = 172 \<and> 16 \<le> x \<and> x \<le> 31"
    "w * 256 + x = 192 * 256 + 168 \<longleftrightarrow> w = 192 \<and> x = 168"
    "w * 256 + x = 169 * 256 + 254 \<longleftrightarrow> w = 169 \<and> x = 254"
    "w * 4 + x div 64 = 100 * 4 + 1 \<longleftrightarrow> w = 100 \<and> x div 64 = 1"
    "w * 128 + x div 2 = 198 * 128 + 9 \<longleftrightarrow> w = 198 \<and> x div 2 = 9"
    "w * 2 ^ 24 + x * 2 ^ 16 + y * 2 ^ 8 + z = 4294967295 \<longleftrightarrow> w = 255 \<and> x = 255 \<and> y = 255 \<and> z = 255"
proof -
  have "x div 16 = 1 \<longleftrightarrow> 16 \<le> x \<and> x \<le> 31" by presburger
  moreover have "x div 16 < 16" "x div 64 < 4" "x div 2 < 128" using assms by simp_all
  ultimately show "w * 16 + x div 16 = 172 * 16 + 1 \<longleftrightarrow> w = 172 \<and> 16 \<le> x \<and> x \<le> 31"
    "w * 4 + x div 64 = 100 * 4 + 1 \<longleftrightarrow> w = 100 \<and> x div 64 = 1"
    "w * 128 + x div 2 = 198 * 128 + 9 \<longleftrightarrow> w = 198 \<and> x div 2 = 9"
    using digits_eq [of "x div 16" 16 1 w 172] digits_eq [of "x div 64" 4 1 w 100]
      digits_eq [of "x div 2" 128 9 w 198] by simp_all
  show "w * 256 + x = 192 * 256 + 168 \<longleftrightarrow> w = 192 \<and> x = 168"
    "w * 256 + x = 169 * 256 + 254 \<longleftrightarrow> w = 169 \<and> x = 254"
    using assms by (subst digits_eq; simp)+
  show "w * 2 ^ 24 + x * 2 ^ 16 + y * 2 ^ 8 + z = 4294967295 \<longleftrightarrow> w = 255 \<and> x = 255 \<and> y = 255 \<and> z = 255"
  proof
    assume e: "w * 2 ^ 24 + x * 2 ^ 16 + y * 2 ^ 8 + z = 4294967295"
    have e': "w * 16777216 + x * 65536 + y * 256 + z = 4294967295" using e by simp
    then have "w = 255" "x = 255" "y = 255" "z = 255" using assms by linarith+
    then show "w = 255 \<and> x = 255 \<and> y = 255 \<and> z = 255" by simp
  qed simp
qed
lemma is_private_v4_iff: "is_private_v4 a \<longleftrightarrow> (\<exists>blk\<in>set blocked_v4. in_v4_block a blk)"
proof -
  obtain w x y z where a: "a = Ipv4 w x y z" by (cases a)
  have lim: "unat w < 256" "unat x < 256" "unat y < 256" "unat z < 256" by (rule u8_less)+
  have le: "16 \<le> x \<longleftrightarrow> 16 \<le> unat x" "x \<le> 31 \<longleftrightarrow> unat x \<le> 31"
    by (simp_all add: word_le_nat_alt)
  have eqs: "w = 127 \<longleftrightarrow> unat w = 127" "w = 10 \<longleftrightarrow> unat w = 10" "w = 172 \<longleftrightarrow> unat w = 172"
    "w = 192 \<longleftrightarrow> unat w = 192" "x = 168 \<longleftrightarrow> unat x = 168" "w = 169 \<longleftrightarrow> unat w = 169"
    "x = 254 \<longleftrightarrow> unat x = 254" "w = 255 \<longleftrightarrow> unat w = 255"
    "x = 255 \<longleftrightarrow> unat x = 255" "y = 255 \<longleftrightarrow> unat y = 255" "z = 255 \<longleftrightarrow> unat z = 255"
    "w = 100 \<longleftrightarrow> unat w = 100" "w = 198 \<longleftrightarrow> unat w = 198"
    by (simp_all add: u8_eq)
  have z: "unat w = 0 \<longleftrightarrow> w = 0"
    using u8_eq [of w 0] by (simp only: unat_0)
  have "is_private_v4 a \<longleftrightarrow> unat w = 127 \<or> unat w = 10 \<or>
      unat w = 172 \<and> 16 \<le> unat x \<and> unat x \<le> 31 \<or> unat w = 192 \<and> unat x = 168 \<or>
      unat w = 169 \<and> unat x = 254 \<or> unat w = 0 \<or>
      unat w = 255 \<and> unat x = 255 \<and> unat y = 255 \<and> unat z = 255 \<or>
      unat w = 100 \<and> unat x div 64 = 1 \<or> unat w = 198 \<and> unat x div 2 = 9"
    by (simp add: is_private_v4_def a Let_def mask_C0 mask_FE le eqs) (simp only: z)
  also have "\<dots> \<longleftrightarrow> (\<exists>blk\<in>set blocked_v4. in_v4_block a blk)"
    using lim v4_blocks [OF lim]
    by (simp add: blocked_v4_def in_v4_block_def a v4_div [simplified])
  finally show ?thesis .
qed

section \<open>Properties\<close>

text \<open>
  The IPv4 addresses refused to outgoing requests are exactly the nine documented blocks;
  and no IPv6 spelling smuggles one in: an IPv4-compatible, mapped, translated or NAT64 address
  is refused just when the IPv4 address in its last four octets is.
\<close>

theorem ssrf_blocks:
  "(is_private_ip (V4 a) \<longleftrightarrow> (\<exists>blk\<in>set blocked_v4. in_v4_block a blk)) \<and>
   is_private_ip (V6 (Ipv6 0 0 0 0 0 0 g h)) =
     is_private_v4 (Ipv4 (hi_byte g) (lo_byte g) (hi_byte h) (lo_byte h)) \<and>
   is_private_ip (V6 (Ipv6 0 0 0 0 0 0xffff g h)) =
     is_private_v4 (Ipv4 (hi_byte g) (lo_byte g) (hi_byte h) (lo_byte h)) \<and>
   is_private_ip (V6 (Ipv6 0 0 0 0 0xffff 0 g h)) =
     is_private_v4 (Ipv4 (hi_byte g) (lo_byte g) (hi_byte h) (lo_byte h)) \<and>
   is_private_ip (V6 (Ipv6 0x64 0xff9b 0 0 0 0 g h)) =
     is_private_v4 (Ipv4 (hi_byte g) (lo_byte g) (hi_byte h) (lo_byte h))"
proof -
  have b: "hi_byte 0 = 0" "lo_byte 0 = 0" "hi_byte 0xffff = 0xff" "lo_byte 0xffff = 0xff"
    "hi_byte 0x64 = 0" "lo_byte 0x64 = 0x64" "hi_byte 0xff9b = 0xff" "lo_byte 0xff9b = 0x9b"
    by code_simp+
  show ?thesis
    by (simp add: is_private_ip_def is_private_v4_iff embedded_ipv4_def v6_octets_def b
        starts_with_def NAT64_WELL_KNOWN_PREFIX_def IPV4_TRANSLATED_PREFIX_def)
qed

section \<open>Host spellings\<close>

definition plain_host :: "string \<Rightarrow> bool" where
  "plain_host h \<longleftrightarrow> h \<noteq> [] \<and> list_all (\<lambda>c. \<not> is_space c \<and> lower_char c = c \<and> c \<noteq> CHR '':'') h \<and>
     last h \<noteq> CHR ''.''"

lemma lower_idem [simp]: "lower_char (lower_char c) = lower_char c"
proof (cases "65 \<le> (of_char c :: nat) \<and> (of_char c :: nat) \<le> 90")
  case True
  then have "of_char c + 32 < (256 :: nat)" by simp
  with True show ?thesis by (simp add: lower_char_def Let_def)
next
  case False
  then show ?thesis by (auto simp: lower_char_def Let_def)
qed

lemma trim_pad:
  assumes "list_all is_space p" "list_all is_space q" "x \<noteq> []" "\<not> is_space (hd x)" "\<not> is_space (last x)"
  shows "trim (p @ x @ q) = x"
proof -
  have d: "dropWhile is_space (p @ y) = y" if "list_all is_space p" "y \<noteq> []" "\<not> is_space (hd y)" for p y
    using that by (induction p) (auto simp: neq_Nil_conv)
  have "dropWhile is_space (p @ x @ q) = x @ q"
    using assms by (intro d) auto
  moreover have "dropWhile is_space (rev q @ rev x) = rev x"
    using assms by (intro d) (auto simp: hd_rev list_all_iff)
  ultimately show ?thesis by (simp add: trim_def)
qed

lemma strip_suffix_append: "strip_suffix (h @ p) p = Some h"
  by (simp only: strip_suffix_eq_Some)

lemma strip_suffix_None:
  "last s \<noteq> last p \<Longrightarrow> p \<noteq> [] \<Longrightarrow> strip_suffix s p = None"
  by (cases "strip_suffix s p") (auto simp: strip_suffix_eq_Some)

lemma strip_suffix_None_set:
  "c \<in> set p \<Longrightarrow> c \<notin> set s \<Longrightarrow> strip_suffix s p = None"
  by (cases "strip_suffix s p") (auto simp: strip_suffix_eq_Some)

definition default_suffixes :: "string list" where
  "default_suffixes = ['''', ''.'', '':443'', '':80'', ''.:443'', ''.:80'']"

lemma normalize_core:
  assumes h: "plain_host h" and x: "x \<in> set default_suffixes"
  shows "(let host = h @ x;
          host = (case (case strip_suffix host '':443'' of
                          Some s \<Rightarrow> Some s
                        | None \<Rightarrow> strip_suffix host '':80'') of
                    Some stripped \<Rightarrow> stripped | None \<Rightarrow> host)
      in (case strip_suffix host ''.'' of Some stripped \<Rightarrow> stripped | None \<Rightarrow> host)) = h"
proof -
  have colon: "CHR '':'' \<notin> set h" and dot: "last h \<noteq> CHR ''.''" and ne: "h \<noteq> []"
    using h by (auto simp: plain_host_def list_all_iff)
  have hd: "strip_suffix h ''.'' = None"
    by (rule strip_suffix_None) (use dot in simp_all)
  have none: "strip_suffix y '':443'' = None" "strip_suffix y '':80'' = None"
    if "CHR '':'' \<notin> set y" for y
    by (rule strip_suffix_None_set [of "CHR '':''"]; use that in simp)+
  have n80: "strip_suffix (y @ '':80'') '':443'' = None" for y
    by (rule strip_suffix_None) simp_all
  have a: "h @ ''.:443'' = (h @ ''.'') @ '':443''" "h @ ''.:80'' = (h @ ''.'') @ '':80''" by simp_all
  from x consider "x = ''''" | "x = ''.''" | "x = '':443''" | "x = '':80''" | "x = ''.:443''" | "x = ''.:80''"
    by (auto simp: default_suffixes_def)
  then show ?thesis
  proof cases
    case 1
    then show ?thesis using none [OF colon] hd by simp
  next
    case 2
    then show ?thesis using none [of "h @ ''.''"] colon strip_suffix_append [of h "''.''"] by (simp add: Let_def)
  next
    case 3
    then show ?thesis by (simp only: Let_def strip_suffix_append option.case hd)
  next
    case 4
    then show ?thesis by (simp only: Let_def n80 strip_suffix_append option.case hd)
  next
    case 5
    then show ?thesis by (simp only: a Let_def strip_suffix_append option.case)
  next
    case 6
    then show ?thesis by (simp only: a Let_def n80 strip_suffix_append option.case)
  qed
qed

text \<open>
  Spellings of one host meet: case, surrounding white space, a default port (443 or 80) and
  one trailing dot before it do not matter: each of those spellings of a plain host name is
  normalised to the lower-case name itself, the key the community of a request is looked up by.
\<close>

theorem host_spellings_meet:
  assumes h: "plain_host h" and x: "x \<in> set default_suffixes"
    and pad: "list_all is_space p" "list_all is_space q" and low: "map lower_char h' = h"
  shows "normalize_host (p @ h' @ x @ q) = h"
proof -
  have ne: "h' \<noteq> []" using h low by (auto simp: plain_host_def)
  have sp: "is_space c \<Longrightarrow> lower_char c = c" for c
    by (auto simp: is_space_def lower_char_def Let_def)
  have ns: "\<not> is_space c" if "c \<in> set h'" for c
  proof
    assume "is_space c"
    then have "is_space (lower_char c)" by (simp add: sp)
    moreover have "lower_char c \<in> set h" unfolding low [symmetric] using that by simp
    ultimately show False using h by (auto simp: plain_host_def list_all_iff)
  qed
  have xs: "\<not> is_space (last x) \<and> map lower_char x = x" if "x \<noteq> []"
  proof -
    have "\<forall>x\<in>set default_suffixes. x \<noteq> [] \<longrightarrow> \<not> is_space (last x) \<and> map lower_char x = x"
      by code_simp
    with x that show ?thesis by blast
  qed
  have "trim (p @ (h' @ x) @ q) = h' @ x"
  proof (rule trim_pad [OF pad])
    show "h' @ x \<noteq> []" using ne by simp
    show "\<not> is_space (hd (h' @ x))" using ne ns [of "hd h'"] by simp
    show "\<not> is_space (last (h' @ x))"
      using ne ns [of "last h'"] xs by (cases "x = []") simp_all
  qed
  moreover have "map lower_char x = x" using xs by (cases "x = []") simp_all
  ultimately have "to_ascii_lowercase (trim (p @ h' @ x @ q)) = h @ x"
    by (simp add: to_ascii_lowercase_def low)
  then show ?thesis
    using normalize_core [OF h x] by (simp only: normalize_host_def Let_def)
qed

theorem host_spellings_meet_witness: "normalize_host '' Relay.Example.:443'' = ''relay.example''"
proof -
  have "normalize_host ('' '' @ ''Relay.Example'' @ ''.:443'' @ []) = ''relay.example''"
  proof (rule host_spellings_meet)
    show "plain_host ''relay.example''" "''.:443'' \<in> set default_suffixes"
      "list_all is_space '' ''" "list_all is_space []"
      "map lower_char ''Relay.Example'' = ''relay.example''" by code_simp+
  qed
  then show ?thesis by simp
qed

end
