(* ===== verification/GitManifest.thy ===== *)
theory GitManifest
  imports Text Nostr
begin

text \<open>
  The manifest of a git repository on object storage, \<open>crates/buzz-relay/src/api/git/manifest.rs\<close>:
  the immutable snapshot of the published refs, HEAD and packs, its validation, and its canonical
  bytes. The JSON serialiser is the crate \<open>serde_json\<close>, a parameter; \<open>json_laws\<close> is what its
  documentation promises.
\<close>

definition MANIFEST_VERSION :: u32 where "MANIFEST_VERSION = 1"
definition MAX_MANIFEST_PACKS :: nat where "MAX_MANIFEST_PACKS = 128"
definition PACK_COMPACTION_THRESHOLD :: nat where
  "PACK_COMPACTION_THRESHOLD = MAX_MANIFEST_PACKS * 3 div 4"
definition MAX_MANIFEST_REFS :: nat where "MAX_MANIFEST_REFS = 10000"

record Manifest =
  m_version :: u32
  m_head :: string
  m_refs :: "(string \<times> string) list"
  m_packs :: "string list"
  m_parent :: "string option"

datatype ManifestError =
    Serde string
  | UnsupportedVersion u32 u32
  | UnsafeRefName string
  | MalformedOid string string
  | EmptyHead
  | MalformedParent string
  | TooManyPacks nat nat
  | TooManyRefs nat nat
  | MalformedPackKey string

definition is_ref_char :: "char \<Rightarrow> bool" where
  "is_ref_char c \<longleftrightarrow>
     is_ascii_alphanumeric c \<or> c = CHR ''/'' \<or> c = CHR ''_'' \<or> c = CHR ''.'' \<or> c = CHR ''-''"

definition is_safe_refname :: "string \<Rightarrow> bool" where
  "is_safe_refname s \<longleftrightarrow>
     starts_with s ''refs/'' \<and>
     \<not> (contains s ''..'' \<or> contains s ''//'' \<or> starts_with s ''/'' \<or> ends_with s ''/'') \<and>
     list_all is_ref_char s"

definition is_hex_oid :: "string \<Rightarrow> bool" where
  "is_hex_oid s \<longleftrightarrow> (length s = 40 \<or> length s = 64) \<and> list_all is_ascii_hexdigit s"

definition is_manifest_digest :: "string \<Rightarrow> bool" where
  "is_manifest_digest s \<longleftrightarrow> length s = 64 \<and> list_all is_lower_hexdigit s"

definition is_pack_key :: "string \<Rightarrow> bool" where
  "is_pack_key s \<longleftrightarrow>
     (case strip_prefix s ''packs/'' of None \<Rightarrow> False | Some d \<Rightarrow> is_manifest_digest d)"

definition pointer_key :: "CommunityId \<Rightarrow> string \<Rightarrow> string \<Rightarrow> string" where
  "pointer_key community owner repo =
     (let repo = (case strip_suffix repo ''.git'' of Some r \<Rightarrow> r | None \<Rightarrow> repo)
      in ''repos/'' @ community_uuid community @ ''/'' @ owner @ ''/'' @ repo @ ''/pointer'')"

section \<open>Validation\<close>

fun validate_refs :: "(string \<times> string) list \<Rightarrow> ManifestError + unit" where
  "validate_refs [] = Ok ()"
| "validate_refs ((refname, oid) # rest) =
     (if \<not> is_safe_refname refname then Err (UnsafeRefName refname)
      else if \<not> is_hex_oid oid then Err (MalformedOid refname oid)
      else validate_refs rest)"

fun validate_packs :: "string list \<Rightarrow> ManifestError + unit" where
  "validate_packs [] = Ok ()"
| "validate_packs (pack # rest) =
     (if \<not> is_pack_key pack then Err (MalformedPackKey pack) else validate_packs rest)"

definition validate :: "Manifest \<Rightarrow> ManifestError + unit" where
  "validate m =
     (if length (m_packs m) > MAX_MANIFEST_PACKS
      then Err (TooManyPacks (length (m_packs m)) MAX_MANIFEST_PACKS)
      else if length (m_refs m) > MAX_MANIFEST_REFS
      then Err (TooManyRefs (length (m_refs m)) MAX_MANIFEST_REFS)
      else if m_head m = [] then Err EmptyHead
      else if \<not> is_safe_refname (m_head m) then Err (UnsafeRefName (m_head m))
      else and_then (validate_refs (m_refs m)) (\<lambda>_.
        and_then (validate_packs (m_packs m)) (\<lambda>_.
        case m_parent m of
          Some p \<Rightarrow> if \<not> is_manifest_digest p then Err (MalformedParent p) else Ok ()
        | None \<Rightarrow> Ok ())))"

section \<open>Canonical bytes\<close>

record json_lib =
  js_to_vec :: "Manifest \<Rightarrow> string + string"
  js_from_slice :: "string \<Rightarrow> string + Manifest"

definition canonical_bytes :: "json_lib \<Rightarrow> Manifest \<Rightarrow> ManifestError + string" where
  "canonical_bytes js m =
     map_err Serde (js_to_vec js (m\<lparr>m_packs := sort_dedup (m_packs m)\<rparr>))"

definition from_bytes :: "json_lib \<Rightarrow> string \<Rightarrow> ManifestError + Manifest" where
  "from_bytes js bytes =
     and_then (map_err Serde (js_from_slice js bytes)) (\<lambda>m.
     if m_version m \<noteq> MANIFEST_VERSION
     then Err (UnsupportedVersion (m_version m) MANIFEST_VERSION)
     else Ok m)"

text \<open>
  Serialising a value of the Rust type (its \<open>String\<close>s are UTF-8, its map is sorted) succeeds, and
  parsing gives the value back.
\<close>

definition manifest_value :: "Manifest \<Rightarrow> bool" where
  "manifest_value m \<longleftrightarrow>
     utf8_valid (m_head m) \<and> bt_ok (m_refs m) \<and>
     list_all (\<lambda>(n, oid). utf8_valid n \<and> utf8_valid oid) (m_refs m) \<and>
     list_all utf8_valid (m_packs m) \<and>
     (case m_parent m of None \<Rightarrow> True | Some p \<Rightarrow> utf8_valid p)"

definition json_laws :: "json_lib \<Rightarrow> bool" where
  "json_laws js \<longleftrightarrow>
     (\<forall>m. manifest_value m \<longrightarrow> (\<exists>b. js_to_vec js m = Ok b \<and> js_from_slice js b = Ok m))"

section \<open>Lemmas\<close>

lemma validate_refs_Ok:
  "validate_refs rs = Ok u \<longleftrightarrow> list_all (\<lambda>(n, oid). is_safe_refname n \<and> is_hex_oid oid) rs"
  by (induction rs rule: validate_refs.induct) auto

lemma validate_packs_Ok: "validate_packs ps = Ok u \<longleftrightarrow> list_all is_pack_key ps"
  by (induction ps) auto

text \<open>What a manifest that passes validation promises a reader.\<close>

definition wf_manifest :: "Manifest \<Rightarrow> bool" where
  "wf_manifest m \<longleftrightarrow>
     length (m_packs m) \<le> MAX_MANIFEST_PACKS \<and> length (m_refs m) \<le> MAX_MANIFEST_REFS \<and>
     is_safe_refname (m_head m) \<and>
     list_all (\<lambda>(n, oid). is_safe_refname n \<and> is_hex_oid oid) (m_refs m) \<and>
     list_all is_pack_key (m_packs m) \<and>
     (case m_parent m of None \<Rightarrow> True | Some p \<Rightarrow> is_manifest_digest p)"

lemma validate_Ok: "validate m = Ok u \<longleftrightarrow> wf_manifest m"
proof -
  have "\<not> is_safe_refname []"
    by (simp add: is_safe_refname_def starts_with_def)
  then show ?thesis
    by (auto simp: validate_def wf_manifest_def and_then_eq_Ok validate_refs_Ok validate_packs_Ok
        split: option.splits)
qed

lemma is_ref_char_ascii: "is_ref_char c \<Longrightarrow> byte_in 0 127 c"
  by (auto simp: is_ref_char_def is_ascii_alphanumeric_def byte_in_def Let_def)

lemma safe_refname_utf8: "is_safe_refname s \<Longrightarrow> utf8_valid s"
  by (rule utf8_valid_ascii)
    (auto simp: is_safe_refname_def list_all_iff intro: is_ref_char_ascii)

lemma hex_utf8: "list_all is_ascii_hexdigit s \<Longrightarrow> utf8_valid s"
  by (rule utf8_valid_ascii) (auto simp: list_all_iff intro: hexdigit_ascii)

lemma manifest_digest_hex: "is_manifest_digest s \<Longrightarrow> length s = 64 \<and> list_all is_ascii_hexdigit s"
  by (auto simp: is_manifest_digest_def list_all_iff intro: lower_hexdigit_is_hexdigit)

lemma digest_utf8: "is_manifest_digest s \<Longrightarrow> utf8_valid s"
  by (simp add: manifest_digest_hex hex_utf8)

lemma pack_key_utf8: "is_pack_key s \<Longrightarrow> utf8_valid s"
proof -
  assume "is_pack_key s"
  then obtain d where "s = ''packs/'' @ d" "is_manifest_digest d"
    by (auto simp: is_pack_key_def strip_prefix_eq_Some split: option.splits)
  then show "utf8_valid s"
    using hex_utf8 [of d] manifest_digest_hex [of d] by (simp add: byte_in_def)
qed

lemma wf_manifest_value: "wf_manifest m \<Longrightarrow> bt_ok (m_refs m) \<Longrightarrow> manifest_value m"
  by (auto simp: wf_manifest_def manifest_value_def list_all_iff is_hex_oid_def safe_refname_utf8
      hex_utf8 pack_key_utf8 digest_utf8 split: option.splits)

lemma manifest_value_sort [simp]:
  "manifest_value m \<Longrightarrow> manifest_value (m\<lparr>m_packs := sort_dedup (m_packs m)\<rparr>)"
  by (simp add: manifest_value_def list_all_iff)

lemma canonical_bytes_Ok:
  assumes "json_laws js" and "manifest_value m"
  obtains b where "canonical_bytes js m = Ok b"
    and "js_from_slice js b = Ok (m\<lparr>m_packs := sort_dedup (m_packs m)\<rparr>)"
  using assms by (metis json_laws_def canonical_bytes_def map_err_simps(2) manifest_value_sort)

text \<open>No safe ref name has a component that is empty or \<open>..\<close>: a ref stays inside the repository.\<close>

lemma join_with_append:
  "us \<noteq> [] \<Longrightarrow> vs \<noteq> [] \<Longrightarrow> join_with c (us @ vs) = join_with c us @ c # join_with c vs"
  by (induction c us rule: join_with.induct) (cases vs; simp)+

lemma split_on_part_cases:
  assumes "p \<in> set (split_on c s)"
  obtains "s = p" | l where "s = l @ c # p" | r where "s = p @ c # r" | l r where "s = l @ c # p @ c # r"
proof -
  obtain us vs where parts: "split_on c s = us @ p # vs"
    using assms by (metis in_set_conv_decomp)
  then have s: "s = join_with c (us @ p # vs)"
    by (metis join_split)
  show thesis
  proof (cases us; cases vs)
    assume "us = []" "vs = []"
    with s show thesis by (simp add: that(1))
  next
    fix v vs' assume "us = []" "vs = v # vs'"
    with s show thesis by (simp add: that(3))
  next
    fix u us' assume "us = u # us'" "vs = []"
    with s join_with_append [of us "[p]"] show thesis by (simp add: that(2))
  next
    fix u us' v vs' assume "us = u # us'" "vs = v # vs'"
    with s join_with_append [of us "p # vs"] show thesis by (simp add: that(4))
  qed
qed

lemma safe_refname_components:
  assumes safe: "is_safe_refname s" and part: "part \<in> set (split_on CHR ''/'' s)"
  shows "part \<noteq> [] \<and> part \<noteq> ''..''"
proof -
  have c: "\<not> contains s ''..''" "\<not> contains s ''//''" and
    e: "\<not> starts_with s ''/''" "\<not> ends_with s ''/''" and r: "starts_with s ''refs/''"
    using safe by (simp_all add: is_safe_refname_def)
  have dots: "s \<noteq> l @ ''..'' @ r" for l r using c(1) unfolding contains_iff by blast
  have slashes: "s \<noteq> l @ ''//'' @ r" for l r using c(2) unfolding contains_iff by blast
  have ne: "s \<noteq> []" using r by (auto simp: starts_with_def)
  have first: "s \<noteq> CHR ''/'' # t" for t using e(1) by (auto simp: starts_with_def)
  have last: "s \<noteq> t @ ''/''" for t using e(2) by (auto simp: ends_with_def starts_with_def)
  from part show ?thesis
  proof (cases rule: split_on_part_cases)
    case 1
    with ne dots [of "[]" "[]"] show ?thesis by auto
  next
    case (2 l)
    with last [of l] dots [of "l @ ''/''" "[]"] show ?thesis by auto
  next
    case (3 r)
    with first dots [of "[]" "CHR ''/'' # r"] show ?thesis by auto
  next
    case (4 l r)
    with slashes [of l r] dots [of "l @ ''/''" "CHR ''/'' # r"] show ?thesis by auto
  qed
qed

end
