(* ===== verification/GitStore.thy ===== *)
theory GitStore
  imports GitManifest
begin

text \<open>
  The object-store client of the git subsystem, \<open>crates/buzz-relay/src/api/git/store.rs\<close>. The S3
  service and the crate \<open>rust-s3\<close> are outside the repository: \<open>s3_client\<close> holds the three requests
  the code makes, as functions of the service's state, with the SHA-256 digest. \<open>s3_laws\<close> states
  the axioms A1 to A3 of \<open>docs/git-on-object-storage.md\<close> in terms of a view of the state, the ETag
  and body under each key. A request that fails in transport may have taken effect or not.
  Bodies are byte strings.
\<close>

section \<open>Effects\<close>

text \<open>The operator \<open>?\<close> after an \<open>await\<close>: an error returns with the state reached.\<close>

definition io_bind :: "('e + 'a) \<times> 'b \<Rightarrow> ('a \<Rightarrow> 'b \<Rightarrow> ('e + 'c) \<times> 'b) \<Rightarrow> ('e + 'c) \<times> 'b" where
  "io_bind x k = (case x of (Inl e, b) \<Rightarrow> (Inl e, b) | (Inr a, b) \<Rightarrow> k a b)"

definition io_map_err :: "('e \<Rightarrow> 'f) \<Rightarrow> ('e + 'a) \<times> 'b \<Rightarrow> ('f + 'a) \<times> 'b" where
  "io_map_err f x = (map_err f (fst x), snd x)"

definition io_lift :: "'e + 'a \<Rightarrow> 'b \<Rightarrow> ('e + 'a) \<times> 'b" where
  "io_lift r b = (r, b)"

lemma io_simps [simp]:
  "io_bind (Inl e, b) k = (Inl e, b)"
  "io_bind (Inr a, b) k = k a b"
  "io_map_err f (r, b) = (map_err f r, b)"
  "io_lift r b = (r, b)"
  by (simp_all add: io_bind_def io_map_err_def io_lift_def)

lemma io_bind_Ok:
  "io_bind x k = (Inr c, b') \<longleftrightarrow> (\<exists>a b. x = (Inr a, b) \<and> k a b = (Inr c, b'))"
  by (cases x; cases "fst x") auto

section \<open>The service\<close>

datatype ETag = ETag string

datatype Precond = IfNoneMatchStar | IfMatch ETag

datatype CasOutcome = Won ETag | LostRace

datatype S3Error = HttpFailWithBody nat string | OtherS3Error string

record s3_response =
  rs_status :: nat
  rs_etag :: "string option"
  rs_body :: string

record 'b s3_client =
  s3_get :: "'b \<Rightarrow> string \<Rightarrow> (S3Error + s3_response) \<times> 'b"
  s3_head :: "'b \<Rightarrow> string \<Rightarrow> (S3Error + int option \<times> nat) \<times> 'b"
  s3_put :: "'b \<Rightarrow> string \<Rightarrow> string \<Rightarrow> Precond \<Rightarrow> (S3Error + s3_response) \<times> 'b"
  s3_sha256_hex :: "string \<Rightarrow> string"
  s3_header_value :: "string \<Rightarrow> bool"

datatype StoreError =
    NotFound string
  | ObjectTooLarge string u64 u64
  | DigestMismatch string string string
  | Backend S3Error
  | Config string

definition is_2xx :: "nat \<Rightarrow> bool" where
  "is_2xx s \<longleftrightarrow> 200 \<le> s \<and> s < 300"

definition u64_of_int :: "int \<Rightarrow> u64" where
  "u64_of_int i = (if 0 \<le> i \<and> i < 2 ^ 64 then of_int i else 18446744073709551615)"

definition u64_of_len :: "nat \<Rightarrow> u64" where
  "u64_of_len n = u64_of_int (int n)"

section \<open>The client\<close>

definition content_key :: "'b s3_client \<Rightarrow> string \<Rightarrow> string \<Rightarrow> string" where
  "content_key cl prefix bytes = prefix @ ''/'' @ s3_sha256_hex cl bytes"

definition idx_key_for_pack_digest :: "string \<Rightarrow> StoreError + string" where
  "idx_key_for_pack_digest pack_digest =
     (if length pack_digest \<noteq> 64 \<or> \<not> list_all is_ascii_hexdigit pack_digest
      then Inl (Backend (HttpFailWithBody 400
             (''invalid pack digest for idx sidecar: '' @ pack_digest)))
      else Inr (''idx/'' @ pack_digest))"

definition create_only :: "'b s3_client \<Rightarrow> string \<Rightarrow> string \<Rightarrow> 'b \<Rightarrow> (StoreError + string) \<times> 'b" where
  "create_only cl key bytes b =
     (let (r, b') = s3_put cl b key bytes IfNoneMatchStar
      in (case r of
            Inr resp \<Rightarrow>
              if is_2xx (rs_status resp) then Inr key
              else Inl (Backend (HttpFailWithBody (rs_status resp) ''unexpected status''))
          | Inl (HttpFailWithBody code body) \<Rightarrow>
              if code = 412 then Inr key else Inl (Backend (HttpFailWithBody code body))
          | Inl (OtherS3Error e) \<Rightarrow> Inl (Backend (OtherS3Error e)), b'))"

definition put_immutable :: "'b s3_client \<Rightarrow> string \<Rightarrow> string \<Rightarrow> 'b \<Rightarrow> (StoreError + string) \<times> 'b" where
  "put_immutable cl prefix bytes b = create_only cl (content_key cl prefix bytes) bytes b"

definition put_pack :: "'b s3_client \<Rightarrow> string \<Rightarrow> 'b \<Rightarrow> (StoreError + string) \<times> 'b" where
  "put_pack cl bytes b = put_immutable cl ''packs'' bytes b"

definition put_idx :: "'b s3_client \<Rightarrow> string \<Rightarrow> string \<Rightarrow> 'b \<Rightarrow> (StoreError + string) \<times> 'b" where
  "put_idx cl pack_digest idx_bytes b =
     io_bind (io_lift (idx_key_for_pack_digest pack_digest) b) (\<lambda>key.
     create_only cl key idx_bytes)"

definition put_manifest :: "'b s3_client \<Rightarrow> string \<Rightarrow> 'b \<Rightarrow> (StoreError + string) \<times> 'b" where
  "put_manifest cl bytes b = put_immutable cl ''manifests'' bytes b"

definition get :: "'b s3_client \<Rightarrow> string \<Rightarrow> 'b \<Rightarrow> (StoreError + string) \<times> 'b" where
  "get cl key b =
     (let (r, b') = s3_get cl b key
      in (case r of
            Inr resp \<Rightarrow> Inr (rs_body resp)
          | Inl (HttpFailWithBody code body) \<Rightarrow>
              if code = 404 then Inl (NotFound key) else Inl (Backend (HttpFailWithBody code body))
          | Inl e \<Rightarrow> Inl (Backend e), b'))"

definition check_digest :: "'b s3_client \<Rightarrow> string \<Rightarrow> string \<Rightarrow> string \<Rightarrow> StoreError + string" where
  "check_digest cl key expected bytes =
     (let actual = s3_sha256_hex cl bytes
      in if actual \<noteq> expected then Inl (DigestMismatch key expected actual) else Inr bytes)"

definition get_verified :: "'b s3_client \<Rightarrow> string \<Rightarrow> string \<Rightarrow> 'b \<Rightarrow> (StoreError + string) \<times> 'b" where
  "get_verified cl key expected b =
     io_bind (get cl key b) (\<lambda>bytes. io_lift (check_digest cl key expected bytes))"

definition get_limited :: "'b s3_client \<Rightarrow> string \<Rightarrow> u64 \<Rightarrow> 'b \<Rightarrow> (StoreError + string) \<times> 'b" where
  "get_limited cl key max_bytes b =
     (let (r, b1) = s3_head cl b key
      in case r of
           Inl (HttpFailWithBody code body) \<Rightarrow>
             (Inl (if code = 404 then NotFound key else Backend (HttpFailWithBody code body)), b1)
         | Inl e \<Rightarrow> (Inl (Backend e), b1)
         | Inr (content_length, status) \<Rightarrow>
             if status = 404 then (Inl (NotFound key), b1)
             else if \<not> is_2xx status
             then (Inl (Backend (HttpFailWithBody status ''unexpected status'')), b1)
             else
               (let too_large = (case content_length of
                      None \<Rightarrow> None
                    | Some n \<Rightarrow> if u64_of_int n > max_bytes then Some (u64_of_int n) else None)
                in case too_large of
                     Some sz \<Rightarrow> (Inl (ObjectTooLarge key sz max_bytes), b1)
                   | None \<Rightarrow>
                       io_bind (get cl key b1) (\<lambda>bytes.
                       io_lift (if u64_of_len (length bytes) > max_bytes
                                then Inl (ObjectTooLarge key (u64_of_len (length bytes)) max_bytes)
                                else Inr bytes))))"

definition get_verified_limited ::
  "'b s3_client \<Rightarrow> string \<Rightarrow> string \<Rightarrow> u64 \<Rightarrow> 'b \<Rightarrow> (StoreError + string) \<times> 'b" where
  "get_verified_limited cl key expected max_bytes b =
     io_bind (get_limited cl key max_bytes b) (\<lambda>bytes. io_lift (check_digest cl key expected bytes))"

definition get_idx :: "'b s3_client \<Rightarrow> string \<Rightarrow> u64 \<Rightarrow> 'b \<Rightarrow> (StoreError + string option) \<times> 'b" where
  "get_idx cl pack_digest max_bytes b =
     io_bind (io_lift (idx_key_for_pack_digest pack_digest) b) (\<lambda>key b.
     case get_limited cl key max_bytes b of
       (Inr bytes, b') \<Rightarrow> (Inr (Some bytes), b')
     | (Inl (NotFound k), b') \<Rightarrow> (Inr None, b')
     | (Inl e, b') \<Rightarrow> (Inl e, b'))"

definition get_pointer ::
  "'b s3_client \<Rightarrow> string \<Rightarrow> 'b \<Rightarrow> (StoreError + (ETag \<times> string) option) \<times> 'b" where
  "get_pointer cl key b =
     (let (r, b') = s3_get cl b key
      in (case r of
            Inr resp \<Rightarrow>
              (case rs_etag resp of
                 Some etag \<Rightarrow> Inr (Some (ETag etag, rs_body resp))
               | None \<Rightarrow>
                   Inl (Backend (HttpFailWithBody 500 ''GET pointer: response missing ETag'')))
          | Inl (HttpFailWithBody code body) \<Rightarrow>
              if code = 404 then Inr None else Inl (Backend (HttpFailWithBody code body))
          | Inl e \<Rightarrow> Inl (Backend e), b'))"

definition classify_cas :: "S3Error + s3_response \<Rightarrow> StoreError + CasOutcome" where
  "classify_cas result =
     (case result of
        Inr resp \<Rightarrow>
          if is_2xx (rs_status resp) then
            (case rs_etag resp of
               Some etag \<Rightarrow> Inr (Won (ETag etag))
             | None \<Rightarrow> Inl (Backend (HttpFailWithBody (rs_status resp)
                 (''CAS succeeded but response missing ETag header '' @
                  ''(backend does not satisfy ETag-token consistency)''))))
          else Inl (Backend (HttpFailWithBody (rs_status resp) ''unexpected status''))
      | Inl (HttpFailWithBody code body) \<Rightarrow>
          if code = 412 then Inr LostRace else Inl (Backend (HttpFailWithBody code body))
      | Inl e \<Rightarrow> Inl (Backend e))"

definition put_pointer ::
  "'b s3_client \<Rightarrow> string \<Rightarrow> string \<Rightarrow> Precond \<Rightarrow> 'b \<Rightarrow> (StoreError + CasOutcome) \<times> 'b" where
  "put_pointer cl key body precond b =
     (let bad = (case precond of
            IfNoneMatchStar \<Rightarrow> None
          | IfMatch (ETag tag) \<Rightarrow> if s3_header_value cl tag then None else Some tag)
      in case bad of
           Some tag \<Rightarrow> (Inl (Backend (HttpFailWithBody 400 (''invalid etag '' @ tag))), b)
         | None \<Rightarrow> (let (r, b') = s3_put cl b key body precond in (classify_cas r, b')))"

section \<open>The axioms of the store\<close>

text \<open>
  A view of a state: the ETag and body under each key. A1: a successful write is durable and
  touches one key; A2: a read answers with what is there; A3: a conditional write succeeds only if
  its condition holds at that moment, and a 412 answer means that it did not and nothing changed.
  Any other answer to a write leaves both possibilities. An ETag names one body.
\<close>

type_synonym s3_view = "string \<Rightarrow> (string \<times> string) option"

definition precond_holds :: "Precond \<Rightarrow> (string \<times> string) option \<Rightarrow> bool" where
  "precond_holds p cur =
     (case p of
        IfNoneMatchStar \<Rightarrow> cur = None
      | IfMatch (ETag e) \<Rightarrow> (case cur of None \<Rightarrow> False | Some (e', _) \<Rightarrow> e' = e))"

definition write_effect :: "string \<Rightarrow> string \<Rightarrow> Precond \<Rightarrow> s3_view \<Rightarrow> s3_view \<Rightarrow> bool" where
  "write_effect key body p v v' \<longleftrightarrow>
     precond_holds p (v key) \<and> (\<exists>e. v' = v(key \<mapsto> (e, body)))"

definition get_answer :: "s3_view \<Rightarrow> string \<Rightarrow> S3Error + s3_response \<Rightarrow> bool" where
  "get_answer v k r \<longleftrightarrow>
     (case r of
        Inr resp \<Rightarrow> (\<exists>e. v k = Some (e, rs_body resp) \<and> rs_etag resp \<in> {None, Some e})
      | Inl (HttpFailWithBody code body) \<Rightarrow> code = 404 \<longrightarrow> v k = None
      | Inl (OtherS3Error _) \<Rightarrow> True)"

definition put_answer ::
  "s3_view \<Rightarrow> s3_view \<Rightarrow> string \<Rightarrow> string \<Rightarrow> Precond \<Rightarrow> S3Error + s3_response \<Rightarrow> bool" where
  "put_answer v v' k body p r \<longleftrightarrow>
     (v' = v \<or> write_effect k body p v v') \<and>
     (case r of
        Inr resp \<Rightarrow> is_2xx (rs_status resp) \<longrightarrow> write_effect k body p v v'
      | Inl (HttpFailWithBody code msg) \<Rightarrow> code = 412 \<longrightarrow> v' = v \<and> \<not> precond_holds p (v k)
      | Inl (OtherS3Error _) \<Rightarrow> True)"

definition s3_laws :: "'b s3_client \<Rightarrow> ('b \<Rightarrow> s3_view) \<Rightarrow> bool" where
  "s3_laws cl view \<longleftrightarrow>
     (\<forall>b k. view (snd (s3_get cl b k)) = view b \<and> get_answer (view b) k (fst (s3_get cl b k))) \<and>
     (\<forall>b k. view (snd (s3_head cl b k)) = view b) \<and>
     (\<forall>b k body p. put_answer (view b) (view (snd (s3_put cl b k body p))) k body p
        (fst (s3_put cl b k body p))) \<and>
     (\<forall>b b' k e x y. view b k = Some (e, x) \<longrightarrow> view b' k = Some (e, y) \<longrightarrow> x = y) \<and>
     (\<forall>x. is_manifest_digest (s3_sha256_hex cl x))"

end
