(* ===== verification/GitPublish.thy ===== *)
theory GitPublish
  imports GitStore
begin

text \<open>
  Reading and publishing a repository: \<open>crates/buzz-relay/src/api/git/hydrate.rs\<close> (the pointer, its
  verified manifest, the materialisation) and \<open>cas_publish.rs\<close> (the commit of a push). The \<open>git\<close>
  subprocesses, temporary files and timers are parameters, gathered in \<open>git_ops\<close>: what each
  command printed, or why it failed. Messages that quote an underlying error keep their fixed part
  only. Logging and metrics are left out.
\<close>

section \<open>Reading\<close>

datatype HydrateError =
    InvalidPointer
  | HydrateManifest ManifestError
  | HydrateStore StoreError
  | Hydrate string
  | HydrateLimit string

definition MAX_MANIFEST_BYTES :: u64 where "MAX_MANIFEST_BYTES = 4 * 1024 * 1024"

definition hydrate_get_verified ::
  "'b s3_client \<Rightarrow> string \<Rightarrow> string \<Rightarrow> u64 \<Rightarrow> 'b \<Rightarrow> (HydrateError + string) \<times> 'b" where
  "hydrate_get_verified cl key digest max_bytes b =
     io_map_err (\<lambda>e. case e of
         ObjectTooLarge _ size' max' \<Rightarrow>
           HydrateLimit (''object '' @ key @ '' is '' @ show_u64 size' @ '' bytes (max '' @
             show_u64 max' @ '')'')
       | _ \<Rightarrow> HydrateStore e)
       (get_verified_limited cl key digest max_bytes b)"

definition pointer_digest :: "string \<Rightarrow> string option" where
  "pointer_digest body =
     (let digest = trim body
      in if utf8_valid body \<and> length digest = 64 \<and> list_all is_ascii_hexdigit digest
         then Some digest else None)"

definition load_pointer ::
  "'b s3_client \<Rightarrow> json_lib \<Rightarrow> CommunityId \<Rightarrow> string \<Rightarrow> string \<Rightarrow> 'b
     \<Rightarrow> (HydrateError + (ETag \<times> string \<times> Manifest) option) \<times> 'b" where
  "load_pointer cl js community owner repo b =
     io_bind (io_map_err HydrateStore (get_pointer cl (pointer_key community owner repo) b)) (\<lambda>p b.
     case p of
       None \<Rightarrow> (Inr None, b)
     | Some (etag, pointer_bytes) \<Rightarrow>
         io_bind (io_lift (ok_or (pointer_digest pointer_bytes) InvalidPointer) b) (\<lambda>digest b.
         io_bind (hydrate_get_verified cl (''manifests/'' @ digest) digest MAX_MANIFEST_BYTES b)
           (\<lambda>bytes b.
         io_bind (io_lift (map_err HydrateManifest (from_bytes js bytes)) b) (\<lambda>manifest b.
         io_bind (io_lift (map_err HydrateManifest (validate manifest)) b) (\<lambda>_ b.
         (Inr (Some (etag, digest, manifest)), b))))))"

definition load_manifest_for_read ::
  "'b s3_client \<Rightarrow> json_lib \<Rightarrow> CommunityId \<Rightarrow> string \<Rightarrow> string \<Rightarrow> 'b
     \<Rightarrow> (HydrateError + Manifest option) \<times> 'b" where
  "load_manifest_for_read cl js community owner repo b =
     io_bind (load_pointer cl js community owner repo b) (\<lambda>p b.
     (Inr (map_option (\<lambda>(_, _, manifest). manifest) p), b))"

text \<open>
  The materialisation: every pack through the local cache (a parameter giving the size of the pack
  it placed), then the loose refs, then HEAD. The result lists the files written.
\<close>

record HydrationOptions =
  ho_max_pack_bytes :: u64
  ho_max_repo_bytes :: u64

record HydratedRepo =
  hr_files :: "(string \<times> string) list"
  hr_hydrated_bytes :: u64
  hr_hydrated_packs :: nat

type_synonym 'b pack_cache = "string \<Rightarrow> string \<Rightarrow> u64 \<Rightarrow> 'b \<Rightarrow> (HydrateError + u64) \<times> 'b"

definition checked_add :: "u64 \<Rightarrow> u64 \<Rightarrow> u64 option" where
  "checked_add a b = (if unat a + unat b < 2 ^ 64 then Some (a + b) else None)"

fun materialize_packs ::
  "'b pack_cache \<Rightarrow> HydrationOptions \<Rightarrow> string list \<Rightarrow> u64 \<Rightarrow> 'b \<Rightarrow> (HydrateError + u64) \<times> 'b" where
  "materialize_packs cache opt [] acc b = (Inr acc, b)"
| "materialize_packs cache opt (key # rest) acc b =
     io_bind (io_lift (ok_or (strip_prefix key ''packs/'')
       (Hydrate (''malformed pack key '' @ key))) b) (\<lambda>digest b.
     io_bind (cache key digest (ho_max_pack_bytes opt) b) (\<lambda>pack_bytes b.
     if pack_bytes > ho_max_pack_bytes opt
     then (Inl (HydrateLimit (''pack '' @ digest @ '' is '' @ show_u64 pack_bytes @
            '' bytes (max '' @ show_u64 (ho_max_pack_bytes opt) @ '')'')), b)
     else
       io_bind (io_lift (ok_or (checked_add acc pack_bytes)
         (HydrateLimit ''repo byte count overflowed u64'')) b) (\<lambda>hydrated b.
       if hydrated > ho_max_repo_bytes opt
       then (Inl (HydrateLimit (''repo needs '' @ show_u64 hydrated @ '' hydrated bytes (max '' @
              show_u64 (ho_max_repo_bytes opt) @ '')'')), b)
       else materialize_packs cache opt rest hydrated b)))"

definition newline :: string where "newline = [char_of (10 :: nat)]"

fun install_refs :: "(string \<times> string) list \<Rightarrow> HydrateError + (string \<times> string) list" where
  "install_refs [] = Inr []"
| "install_refs ((refname, oid) # rest) =
     (if \<not> is_safe_refname refname
      then Inl (Hydrate (''manifest contains unsafe refname '' @ refname))
      else if \<not> is_hex_oid oid
      then Inl (Hydrate (''manifest ref '' @ refname @ '' has malformed oid''))
      else and_then (install_refs rest) (\<lambda>files. Inr ((refname, oid @ newline) # files)))"

definition materialize_manifest ::
  "'b pack_cache \<Rightarrow> HydrationOptions \<Rightarrow> Manifest \<Rightarrow> 'b \<Rightarrow> (HydrateError + HydratedRepo) \<times> 'b" where
  "materialize_manifest cache opt manifest b =
     io_bind (materialize_packs cache opt (m_packs manifest) 0 b) (\<lambda>hydrated b.
     io_bind (io_lift (install_refs (m_refs manifest)) b) (\<lambda>files b.
     if \<not> is_safe_refname (m_head manifest)
     then (Inl (Hydrate (''manifest head '' @ m_head manifest @ '' is not a safe ref name'')), b)
     else (Inr \<lparr>hr_files = files @ [(''HEAD'', ''ref: '' @ m_head manifest @ newline)],
                hr_hydrated_bytes = hydrated, hr_hydrated_packs = length (m_packs manifest)\<rparr>, b)))"

section \<open>Publishing: the data\<close>

datatype CasError =
    Conflict Manifest string
  | ManifestReadFailed string
  | ManifestInvalid ManifestError
  | CasBackend StoreError
  | PackCapture string
  | ResourceLimit string

record PublishLimits =
  pl_parent_hydrated_bytes :: u64
  pl_max_pack_bytes :: u64
  pl_max_repo_bytes :: u64

record CasSuccess =
  cs_manifest :: Manifest
  cs_manifest_key :: string

record ParentState =
  ps_if_match :: "ETag option"
  ps_parent_digest' :: "string option"
  ps_parent :: Manifest

definition ParentState_fresh :: ParentState where
  "ParentState_fresh = \<lparr>ps_if_match = None, ps_parent_digest' = None,
     ps_parent = \<lparr>m_version = MANIFEST_VERSION, m_head = [], m_refs = [], m_packs = [],
       m_parent = None\<rparr>\<rparr>"

definition ParentState_from_loaded :: "ETag \<Rightarrow> string \<Rightarrow> Manifest \<Rightarrow> ParentState" where
  "ParentState_from_loaded etag digest parent =
     \<lparr>ps_if_match = Some etag, ps_parent_digest' = Some digest, ps_parent = parent\<rparr>"

definition hydrate_for_write ::
  "'b s3_client \<Rightarrow> json_lib \<Rightarrow> 'b pack_cache \<Rightarrow> HydrationOptions \<Rightarrow> CommunityId \<Rightarrow> string \<Rightarrow> string
     \<Rightarrow> 'b \<Rightarrow> (HydrateError + HydratedRepo \<times> ParentState) \<times> 'b" where
  "hydrate_for_write cl js cache opt community owner repo b =
     io_bind (load_pointer cl js community owner repo b) (\<lambda>p b.
     case p of
       Some (etag, digest, manifest) \<Rightarrow>
         io_bind (materialize_manifest cache opt manifest b) (\<lambda>hydrated b.
         (Inr (hydrated, ParentState_from_loaded etag digest manifest), b))
     | None \<Rightarrow>
         (Inr (\<lparr>hr_files = [(''HEAD'', ''ref: refs/heads/main'' @ newline)], hr_hydrated_bytes = 0,
                hr_hydrated_packs = 0\<rparr>, ParentState_fresh), b))"

definition hydrate_for_read_inner ::
  "'b s3_client \<Rightarrow> json_lib \<Rightarrow> 'b pack_cache \<Rightarrow> HydrationOptions \<Rightarrow> CommunityId \<Rightarrow> string \<Rightarrow> string
     \<Rightarrow> 'b \<Rightarrow> (HydrateError + HydratedRepo option) \<times> 'b" where
  "hydrate_for_read_inner cl js cache opt community owner repo b =
     io_bind (load_pointer cl js community owner repo b) (\<lambda>p b.
     case p of
       None \<Rightarrow> (Inr None, b)
     | Some (_, _, manifest) \<Rightarrow>
         io_bind (materialize_manifest cache opt manifest b) (\<lambda>hydrated b. (Inr (Some hydrated), b)))"

section \<open>The workspace after receive-pack\<close>

record compacted_pack =
  cp_pack_bytes :: u64
  cp_idx_bytes :: u64
  cp_pack_read :: "string + string"
  cp_idx_read :: "string + string"

record git_ops =
  go_for_each_ref :: "string + string"
  go_symbolic_ref :: "string + string option"
  go_pack_objects :: "string \<Rightarrow> string + string"
  go_index_pack :: "string \<Rightarrow> string + string"
  go_count_objects :: "string + string"
  go_compact :: "string \<Rightarrow> string + compacted_pack list"
  go_permit_error :: "string option"
  go_timeout :: "nat option"

definition str_lines :: "string \<Rightarrow> string list" where
  "str_lines s =
     (let parts = split_on (char_of (10 :: nat)) s;
          parts = (if last parts = [] then butlast parts else parts)
      in map (\<lambda>l. case strip_suffix l [char_of (13 :: nat)] of Some l' \<Rightarrow> l' | None \<Rightarrow> l) parts)"

definition MAX_REF_SNAPSHOT_BYTES :: u64 where "MAX_REF_SNAPSHOT_BYTES = 4 * 1024 * 1024"

fun snapshot_refs :: "string list \<Rightarrow> (string \<times> string) list \<Rightarrow> CasError + (string \<times> string) list" where
  "snapshot_refs [] refs = Inr refs"
| "snapshot_refs (line # rest) refs =
     (case split_once CHR '' '' line of
        None \<Rightarrow> snapshot_refs rest refs
      | Some (name, oid) \<Rightarrow>
          if length oid \<noteq> 40 \<or> \<not> list_all is_ascii_hexdigit oid then snapshot_refs rest refs
          else if length refs \<ge> MAX_MANIFEST_REFS \<and> \<not> has_key refs name
          then Inl (ResourceLimit (''workspace contains more than '' @
                 show_nat MAX_MANIFEST_REFS @ '' refs''))
          else snapshot_refs rest (bt_insert name oid refs))"

definition snapshot_workspace_state :: "git_ops \<Rightarrow> CasError + (string \<times> string) list \<times> string" where
  "snapshot_workspace_state g =
     and_then (map_err PackCapture (go_for_each_ref g)) (\<lambda>refs_stdout.
     if u64_of_len (length refs_stdout) > MAX_REF_SNAPSHOT_BYTES
     then Inl (ResourceLimit (''ref snapshot is '' @ show_nat (length refs_stdout) @
            '' bytes (max '' @ show_u64 MAX_REF_SNAPSHOT_BYTES @ '')''))
     else
       and_then (snapshot_refs (str_lines (if utf8_valid refs_stdout then refs_stdout else [])) [])
         (\<lambda>refs.
       and_then (map_err PackCapture (go_symbolic_ref g)) (\<lambda>head_out.
       Inr (refs, case head_out of Some stdout \<Rightarrow> trim stdout | None \<Rightarrow> []))))"

definition resolve_published_head :: "(string \<times> string) list \<Rightarrow> string \<Rightarrow> string \<Rightarrow> string" where
  "resolve_published_head refs observed_head parent_head =
     (let is_published_branch = (\<lambda>name. starts_with name ''refs/heads/'' \<and> has_key refs name)
      in if is_published_branch observed_head then observed_head
         else if is_published_branch parent_head then parent_head
         else if has_key refs ''refs/heads/main'' then ''refs/heads/main''
         else if has_key refs ''refs/heads/master'' then ''refs/heads/master''
         else (case List.find (\<lambda>name. starts_with name ''refs/heads/'') (map fst refs) of
                 Some branch \<Rightarrow> branch
               | None \<Rightarrow> if observed_head \<noteq> [] then observed_head else parent_head))"

definition digest_from_pack_key :: "string \<Rightarrow> CasError + string" where
  "digest_from_pack_key key =
     (case strip_prefix key ''packs/'' of
        Some digest \<Rightarrow>
          if length digest = 64 \<and> list_all is_ascii_hexdigit digest then Inr digest
          else Inl (CasBackend (Backend (HttpFailWithBody 500
                 (''put_pack returned non-standard key: '' @ key))))
      | None \<Rightarrow> Inl (CasBackend (Backend (HttpFailWithBody 500
                 (''put_pack returned non-standard key: '' @ key)))))"

definition digest_from_manifest_key :: "string \<Rightarrow> CasError + string" where
  "digest_from_manifest_key key =
     (case strip_prefix key ''manifests/'' of
        Some digest \<Rightarrow> Inr digest
      | None \<Rightarrow> Inl (CasBackend (Backend (HttpFailWithBody 500
                 (''put_manifest returned non-standard key: '' @ key)))))"

definition write_idx_sidecar ::
  "'b s3_client \<Rightarrow> git_ops \<Rightarrow> string \<Rightarrow> string \<Rightarrow> 'b \<Rightarrow> (CasError + unit) \<times> 'b" where
  "write_idx_sidecar cl g pack_key pack_bytes b =
     io_bind (io_lift (digest_from_pack_key pack_key) b) (\<lambda>pack_digest b.
     io_bind (io_lift (map_err PackCapture (go_index_pack g pack_bytes)) b) (\<lambda>idx_bytes b.
     io_bind (io_map_err CasBackend (put_idx cl pack_digest idx_bytes b)) (\<lambda>_ b. (Inr (), b))))"

definition capture_pack ::
  "git_ops \<Rightarrow> (string \<times> string) list \<Rightarrow> (string \<times> string) list \<Rightarrow> u64 \<Rightarrow> CasError + string option" where
  "capture_pack g refs_before refs_after max_pack_bytes =
     (if refs_after = [] then Inr None
      else
        (let stdin_lines =
           concat (map (\<lambda>(_, oid). oid @ newline) refs_after) @
           concat (map (\<lambda>(_, oid). ''^'' @ oid @ newline) refs_before) in
         and_then (map_err PackCapture (go_pack_objects g stdin_lines)) (\<lambda>pack.
         if u64_of_len (length pack) > max_pack_bytes
         then Inl (ResourceLimit (''pack-objects output is '' @ show_nat (length pack) @
                '' bytes (max '' @ show_u64 max_pack_bytes @ '')''))
         else if pack = [] then Inr None else Inr (Some pack))))"

section \<open>Compaction\<close>

definition should_compact :: "nat \<Rightarrow> nat \<Rightarrow> bool" where
  "should_compact parent_pack_count threshold \<longleftrightarrow> parent_pack_count \<ge> threshold"

definition compacted_pack_set_is_usable :: "nat \<Rightarrow> nat \<Rightarrow> bool" where
  "compacted_pack_set_is_usable parent_pack_count compacted_pack_count \<longleftrightarrow>
     compacted_pack_count < parent_pack_count \<or>
     (parent_pack_count \<ge> MAX_MANIFEST_PACKS \<and> compacted_pack_count \<le> MAX_MANIFEST_PACKS)"

definition MAX_COUNT_OBJECTS_OUTPUT_BYTES :: u64 where
  "MAX_COUNT_OBJECTS_OUTPUT_BYTES = 64 * 1024"
definition MAX_COMPACTION_OBJECTS :: u64 where "MAX_COMPACTION_OBJECTS = 1000000"

definition parse_count :: "string \<Rightarrow> string \<Rightarrow> CasError + u64" where
  "parse_count output name =
     ok_or (case List.find (\<lambda>l. starts_with l name) (str_lines output) of
              None \<Rightarrow> None
            | Some l \<Rightarrow> map_option of_nat (parse_uint 64 (trim (drop (length name) l))))
       (PackCapture (''count-objects omitted '' @ name))"

definition enforce_compaction_object_limit :: "git_ops \<Rightarrow> CasError + unit" where
  "enforce_compaction_object_limit g =
     and_then (map_err PackCapture (go_count_objects g)) (\<lambda>output.
     if u64_of_len (length output) > MAX_COUNT_OBJECTS_OUTPUT_BYTES
     then Inl (ResourceLimit (''count-objects output is '' @ show_nat (length output) @
            '' bytes (max '' @ show_u64 MAX_COUNT_OBJECTS_OUTPUT_BYTES @ '')''))
     else if \<not> utf8_valid output then Inl (PackCapture ''read count-objects output'')
     else
       and_then (parse_count output ''count:'') (\<lambda>loose.
       and_then (parse_count output ''in-pack:'') (\<lambda>packed.
       and_then (ok_or (checked_add loose packed)
           (ResourceLimit ''compaction object count overflowed u64'')) (\<lambda>object_count.
       if object_count > MAX_COMPACTION_OBJECTS
       then Inl (ResourceLimit (''repository has '' @ show_u64 object_count @
              '' objects (compaction max '' @ show_u64 MAX_COMPACTION_OBJECTS @ '')''))
       else Inr ()))))"

definition first_seen :: "'a list \<Rightarrow> 'a list" where
  "first_seen xs = rev (remdups (rev xs))"

fun check_compacted :: "PublishLimits \<Rightarrow> compacted_pack list \<Rightarrow> u64 \<Rightarrow> CasError + u64" where
  "check_compacted limits [] acc = Inr acc"
| "check_compacted limits (p # rest) acc =
     (if cp_pack_bytes p > pl_max_pack_bytes limits
      then Inl (ResourceLimit (''compacted pack is '' @ show_u64 (cp_pack_bytes p) @
             '' bytes (max '' @ show_u64 (pl_max_pack_bytes limits) @ '')''))
      else
        and_then (ok_or (checked_add acc (cp_pack_bytes p))
            (ResourceLimit ''compacted byte count overflowed u64'')) (\<lambda>acc.
        if acc > pl_max_repo_bytes limits
        then Inl (ResourceLimit (''compacted repo needs '' @ show_u64 acc @ '' bytes (max '' @
               show_u64 (pl_max_repo_bytes limits) @ '')''))
        else if cp_idx_bytes p > pl_max_pack_bytes limits
        then Inl (ResourceLimit (''compacted idx is '' @ show_u64 (cp_idx_bytes p) @
               '' bytes (max '' @ show_u64 (pl_max_pack_bytes limits) @ '')''))
        else check_compacted limits rest acc))"

definition capture_compacted_packs ::
  "git_ops \<Rightarrow> (string \<times> string) list \<Rightarrow> PublishLimits \<Rightarrow> CasError + compacted_pack list \<times> u64" where
  "capture_compacted_packs g refs_after limits =
     (if refs_after = [] then Inr ([], 0)
      else
        and_then (enforce_compaction_object_limit g) (\<lambda>_.
        and_then (map_err PackCapture
            (go_compact g (concat (map (\<lambda>oid. oid @ newline) (first_seen (map snd refs_after))))))
          (\<lambda>packs.
        if length packs > MAX_MANIFEST_PACKS
        then Inl (ResourceLimit (''compaction produced '' @ show_nat (length packs) @
               '' packs (max '' @ show_nat MAX_MANIFEST_PACKS @ '')''))
        else and_then (check_compacted limits packs 0) (\<lambda>acc. Inr (packs, acc)))))"

fun upload_packs ::
  "'b s3_client \<Rightarrow> compacted_pack list \<Rightarrow> 'b \<Rightarrow> (CasError + string list) \<times> 'b" where
  "upload_packs cl [] b = (Inr [], b)"
| "upload_packs cl (p # rest) b =
     io_bind (io_lift (map_err PackCapture (cp_pack_read p)) b) (\<lambda>pack_bytes b.
     if u64_of_len (length pack_bytes) \<noteq> cp_pack_bytes p
     then (Inl (PackCapture ''compacted pack changed after size validation''), b)
     else
       io_bind (io_map_err CasBackend (put_pack cl pack_bytes b)) (\<lambda>pack_key b.
       io_bind (io_lift (digest_from_pack_key pack_key) b) (\<lambda>pack_digest b.
       let b = (case cp_idx_read p of
                  Inr idx_bytes \<Rightarrow> snd (put_idx cl pack_digest idx_bytes b)
                | Inl _ \<Rightarrow> b)
       in io_bind (upload_packs cl rest b) (\<lambda>keys b. (Inr (pack_key # keys), b)))))"

definition upload_compacted_packs ::
  "'b s3_client \<Rightarrow> compacted_pack list \<Rightarrow> 'b \<Rightarrow> (CasError + string list) \<times> 'b" where
  "upload_compacted_packs cl packs b =
     io_bind (upload_packs cl packs b) (\<lambda>keys b. (Inr (sort_dedup keys), b))"

definition prepare_compaction ::
  "'b s3_client \<Rightarrow> git_ops \<Rightarrow> (string \<times> string) list \<Rightarrow> PublishLimits \<Rightarrow> nat \<Rightarrow> 'b
     \<Rightarrow> (CasError + string list \<times> nat \<times> u64) \<times> 'b" where
  "prepare_compaction cl g refs_after limits packs_before b =
     io_bind (io_lift (capture_compacted_packs g refs_after limits) b) (\<lambda>(packs, acc) b.
     let packs_after = length packs in
     if \<not> compacted_pack_set_is_usable packs_before packs_after
     then (Inl (ResourceLimit (''compaction did not reduce pack count (before '' @
            show_nat packs_before @ '', after '' @ show_nat packs_after @ '')'')), b)
     else io_bind (upload_compacted_packs cl packs b) (\<lambda>pack_keys b.
          (Inr (pack_keys, packs_after, acc), b)))"

text \<open>
  A compaction cut off by its time limit leaves the packs it had uploaded by then; \<open>go_timeout\<close>
  says how many.
\<close>

definition interrupted_compaction ::
  "'b s3_client \<Rightarrow> git_ops \<Rightarrow> (string \<times> string) list \<Rightarrow> PublishLimits \<Rightarrow> nat \<Rightarrow> nat \<Rightarrow> 'b \<Rightarrow> 'b" where
  "interrupted_compaction cl g refs_after limits packs_before n b =
     (case capture_compacted_packs g refs_after limits of
        Inl _ \<Rightarrow> b
      | Inr (packs, _) \<Rightarrow>
          if compacted_pack_set_is_usable packs_before (length packs)
          then snd (upload_packs cl (take n packs) b) else b)"

section \<open>The publish protocol\<close>

definition compose_after ::
  "Manifest \<Rightarrow> string option \<Rightarrow> string \<Rightarrow> (string \<times> string) list \<Rightarrow> string option \<Rightarrow> Manifest" where
  "compose_after parent parent_digest head refs new_pack_key =
     (let packs = m_packs parent;
          packs = (case new_pack_key of
                     Some k \<Rightarrow> if \<not> list_ex (\<lambda>p. p = k) packs then packs @ [k] else packs
                   | None \<Rightarrow> packs)
      in \<lparr>m_version = MANIFEST_VERSION, m_head = head, m_refs = refs, m_packs = sort_dedup packs,
          m_parent = parent_digest\<rparr>)"

definition compose_compacted_after ::
  "string option \<Rightarrow> string \<Rightarrow> (string \<times> string) list \<Rightarrow> string list \<Rightarrow> Manifest" where
  "compose_compacted_after parent_digest head refs compacted_pack_keys =
     \<lparr>m_version = MANIFEST_VERSION, m_head = head, m_refs = refs,
      m_packs = sort_dedup compacted_pack_keys, m_parent = parent_digest\<rparr>"

definition try_compaction ::
  "'b s3_client \<Rightarrow> git_ops \<Rightarrow> (string \<times> string) list \<Rightarrow> PublishLimits \<Rightarrow> nat \<Rightarrow> 'b
     \<Rightarrow> (CasError + string list \<times> nat \<times> u64) \<times> 'b" where
  "try_compaction cl g refs_after limits packs_before b =
     (case go_permit_error g of
        Some e \<Rightarrow> (Inl (PackCapture e), b)
      | None \<Rightarrow>
          (case go_timeout g of
             Some n \<Rightarrow>
               (Inl (PackCapture ''pack compaction operation timed out after 600 seconds''),
                interrupted_compaction cl g refs_after limits packs_before n b)
           | None \<Rightarrow> prepare_compaction cl g refs_after limits packs_before b))"

definition publish_delta ::
  "'b s3_client \<Rightarrow> git_ops \<Rightarrow> PublishLimits \<Rightarrow> ParentState \<Rightarrow> (string \<times> string) list
     \<Rightarrow> CasError option \<Rightarrow> 'b \<Rightarrow> (CasError + string option) \<times> 'b" where
  "publish_delta cl g limits ps refs_after compaction_failure b =
     (let packs_before = length (m_packs (ps_parent ps)) in
     io_bind (io_lift (capture_pack g (m_refs (ps_parent ps)) refs_after (pl_max_pack_bytes limits)) b)
       (\<lambda>pack_bytes b.
     if pack_bytes \<noteq> None \<and> packs_before \<ge> MAX_MANIFEST_PACKS
     then (Inl (case compaction_failure of
              Some e \<Rightarrow> e
            | None \<Rightarrow> ResourceLimit (''repository already names '' @ show_nat packs_before @
                '' packs and compaction failed'')), b)
     else case pack_bytes of
       None \<Rightarrow> (Inr None, b)
     | Some bytes \<Rightarrow>
         io_bind (io_lift (ok_or
             (checked_add (pl_parent_hydrated_bytes limits) (u64_of_len (length bytes)))
             (ResourceLimit ''repo byte count overflowed u64'')) b) (\<lambda>total_bytes b.
         if total_bytes > pl_max_repo_bytes limits
         then (Inl (ResourceLimit (''repo would need '' @ show_u64 total_bytes @
                '' hydrated bytes (max '' @ show_u64 (pl_max_repo_bytes limits) @ '')'')), b)
         else
           io_bind (io_map_err CasBackend (put_pack cl bytes b)) (\<lambda>pack_key b.
           (Inr (Some pack_key), snd (write_idx_sidecar cl g pack_key bytes b))))))"

text \<open>
  The manifest a push proposes: the snapshot of the workspace over new or compacted packs. A failed
  compaction falls back to the delta pack.
\<close>

definition maybe_compact ::
  "'b s3_client \<Rightarrow> git_ops \<Rightarrow> (string \<times> string) list \<Rightarrow> PublishLimits \<Rightarrow> nat \<Rightarrow> nat \<Rightarrow> 'b
     \<Rightarrow> (CasError + string list \<times> nat \<times> u64) option \<times> 'b" where
  "maybe_compact cl g refs_after limits packs_before threshold b =
     (if should_compact packs_before threshold
      then (Some (fst (try_compaction cl g refs_after limits packs_before b)),
            snd (try_compaction cl g refs_after limits packs_before b))
      else (None, b))"

fun compose_manifest ::
  "'b s3_client \<Rightarrow> git_ops \<Rightarrow> PublishLimits \<Rightarrow> ParentState \<Rightarrow> string \<Rightarrow> (string \<times> string) list
     \<Rightarrow> (CasError + string list \<times> nat \<times> u64) option \<Rightarrow> 'b \<Rightarrow> (CasError + Manifest) \<times> 'b" where
  "compose_manifest cl g limits ps head refs_after (Some (Inr (pack_keys, _, _))) b =
     (Inr (compose_compacted_after (ps_parent_digest' ps) head refs_after pack_keys), b)"
| "compose_manifest cl g limits ps head refs_after (Some (Inl e)) b =
     io_bind (publish_delta cl g limits ps refs_after (Some e) b) (\<lambda>new_pack_key b.
     (Inr (compose_after (ps_parent ps) (ps_parent_digest' ps) head refs_after new_pack_key), b))"
| "compose_manifest cl g limits ps head refs_after None b =
     io_bind (publish_delta cl g limits ps refs_after None b) (\<lambda>new_pack_key b.
     (Inr (compose_after (ps_parent ps) (ps_parent_digest' ps) head refs_after new_pack_key), b))"

definition compose_publish ::
  "'b s3_client \<Rightarrow> git_ops \<Rightarrow> ParentState \<Rightarrow> PublishLimits \<Rightarrow> nat \<Rightarrow> 'b
     \<Rightarrow> (CasError + Manifest) \<times> 'b" where
  "compose_publish cl g ps limits threshold b =
     io_bind (io_lift (snapshot_workspace_state g) b) (\<lambda>(refs_after, head_observed) b.
     let head = resolve_published_head refs_after head_observed (m_head (ps_parent ps));
         packs_before = length (m_packs (ps_parent ps));
         (compaction, b) = maybe_compact cl g refs_after limits packs_before threshold b
     in compose_manifest cl g limits ps head refs_after compaction b)"

text \<open>Step 6: validate and store the manifest. The result is its key and digest.\<close>

definition stage_manifest ::
  "'b s3_client \<Rightarrow> json_lib \<Rightarrow> Manifest \<Rightarrow> 'b \<Rightarrow> (CasError + string \<times> string) \<times> 'b" where
  "stage_manifest cl js m_after b =
     io_bind (io_lift (map_err ManifestInvalid (validate m_after)) b) (\<lambda>_ b.
     io_bind (io_lift (map_err ManifestInvalid (canonical_bytes js m_after)) b) (\<lambda>manifest_bytes b.
     io_bind (io_map_err CasBackend (put_manifest cl manifest_bytes b)) (\<lambda>manifest_key b.
     io_bind (io_lift (digest_from_manifest_key manifest_key) b) (\<lambda>manifest_digest b.
     (Inr (manifest_key, manifest_digest), b)))))"

definition read_winner_after_conflict ::
  "'b s3_client \<Rightarrow> json_lib \<Rightarrow> string \<Rightarrow> 'b \<Rightarrow> (CasError + Manifest \<times> string) \<times> 'b" where
  "read_winner_after_conflict cl js pkey b =
     io_bind (io_map_err CasBackend (get_pointer cl pkey b)) (\<lambda>p b.
     case p of
       None \<Rightarrow> (Inl (ManifestReadFailed
                 ''pointer vanished after LostRace (no-delete rule violated)''), b)
     | Some (_, body) \<Rightarrow>
         if \<not> utf8_valid body then (Inl (ManifestReadFailed ''winner pointer body not utf-8''), b)
         else
           (let digest = trim body in
            if length digest \<noteq> 64 \<or> \<not> list_all is_ascii_hexdigit digest
            then (Inl (ManifestReadFailed (''winner pointer body is not a 64-char hex digest (got '' @
                   show_nat (length digest) @ '' chars)'')), b)
            else
              (let manifest_key = ''manifests/'' @ digest in
               io_bind (io_map_err (\<lambda>e. case e of
                   DigestMismatch _ _ _ \<Rightarrow> ManifestReadFailed ''winner manifest digest mismatch''
                 | NotFound _ \<Rightarrow> ManifestReadFailed ''winner pointer names missing manifest''
                 | other \<Rightarrow> CasBackend other) (get_verified cl manifest_key digest b)) (\<lambda>bytes b.
               io_bind (io_lift (map_err (\<lambda>_. ManifestReadFailed ''parse winner manifest'')
                   (from_bytes js bytes)) b) (\<lambda>winner b.
               (Inr (winner, manifest_key), b))))))"

text \<open>Step 7: the compare-and-swap of the pointer, and what follows it.\<close>

definition cas_precond :: "ParentState \<Rightarrow> Precond" where
  "cas_precond ps = (case ps_if_match ps of Some e \<Rightarrow> IfMatch e | None \<Rightarrow> IfNoneMatchStar)"

definition swap_pointer ::
  "'b s3_client \<Rightarrow> string \<Rightarrow> ParentState \<Rightarrow> string \<Rightarrow> 'b \<Rightarrow> (StoreError + CasOutcome) \<times> 'b" where
  "swap_pointer cl pkey ps manifest_digest b =
     put_pointer cl pkey manifest_digest (cas_precond ps) b"

definition conclude_publish ::
  "'b s3_client \<Rightarrow> json_lib \<Rightarrow> string \<Rightarrow> Manifest \<Rightarrow> string \<Rightarrow> CasOutcome \<Rightarrow> 'b
     \<Rightarrow> (CasError + CasSuccess) \<times> 'b" where
  "conclude_publish cl js pkey m_after manifest_key outcome b =
     (case outcome of
        Won _ \<Rightarrow> (Inr \<lparr>cs_manifest = m_after, cs_manifest_key = manifest_key\<rparr>, b)
      | LostRace \<Rightarrow>
          io_bind (read_winner_after_conflict cl js pkey b) (\<lambda>(winner_manifest, winner_key) b.
          (Inl (Conflict winner_manifest winner_key), b)))"

definition cas_publish_inner ::
  "'b s3_client \<Rightarrow> json_lib \<Rightarrow> git_ops \<Rightarrow> CommunityId \<Rightarrow> string \<Rightarrow> string \<Rightarrow> ParentState
     \<Rightarrow> PublishLimits \<Rightarrow> nat \<Rightarrow> 'b \<Rightarrow> (CasError + CasSuccess) \<times> 'b" where
  "cas_publish_inner cl js g community owner repo ps limits threshold b =
     (let pkey = pointer_key community owner repo in
     io_bind (compose_publish cl g ps limits threshold b) (\<lambda>m_after b.
     io_bind (stage_manifest cl js m_after b) (\<lambda>(manifest_key, manifest_digest) b.
     io_bind (io_map_err CasBackend (swap_pointer cl pkey ps manifest_digest b)) (\<lambda>outcome b.
     conclude_publish cl js pkey m_after manifest_key outcome b))))"

definition cas_publish ::
  "'b s3_client \<Rightarrow> json_lib \<Rightarrow> git_ops \<Rightarrow> CommunityId \<Rightarrow> string \<Rightarrow> string \<Rightarrow> ParentState
     \<Rightarrow> PublishLimits \<Rightarrow> 'b \<Rightarrow> (CasError + CasSuccess) \<times> 'b" where
  "cas_publish cl js g community owner repo ps limits b =
     cas_publish_inner cl js g community owner repo ps limits PACK_COMPACTION_THRESHOLD b"

end
