(* ===== verification/GitPublishProps.thy ===== *)
theory GitPublishProps
  imports GitPublish
begin

text \<open>
  What a push does to the object store. \<open>creates\<close> is the footprint of everything before the
  compare-and-swap: content-addressed objects are added, nothing is overwritten, the pointers are
  not touched. The concurrent pushes of one repository are the step relation \<open>publish_step\<close>, whose
  steps interleave freely.
\<close>

section \<open>The footprint of content-addressed writes\<close>

definition object_key :: "string \<Rightarrow> bool" where
  "object_key k \<longleftrightarrow>
     starts_with k ''packs/'' \<or> starts_with k ''idx/'' \<or> starts_with k ''manifests/''"

definition creates :: "s3_view \<Rightarrow> s3_view \<Rightarrow> bool" where
  "creates v v' \<longleftrightarrow> (\<forall>k. v' k = v k \<or> v k = None \<and> object_key k)"

lemma creates_refl [simp]: "creates v v"
  by (simp add: creates_def)

lemma creates_trans: "creates u v \<Longrightarrow> creates v w \<Longrightarrow> creates u w"
  unfolding creates_def by metis

lemma creates_keeps: "creates v v' \<Longrightarrow> v k = Some x \<Longrightarrow> v' k = Some x"
  unfolding creates_def by (metis option.distinct(1))

lemma creates_other: "creates v v' \<Longrightarrow> \<not> object_key k \<Longrightarrow> v' k = v k"
  unfolding creates_def by metis

lemma pointer_key_not_object [simp]: "\<not> object_key (pointer_key c owner repo)"
  by (simp add: object_key_def pointer_key_def starts_with_def Let_def)

lemma object_keys [simp]:
  "object_key (''packs/'' @ d)" "object_key (''idx/'' @ d)" "object_key (''manifests/'' @ d)"
  unfolding object_key_def by (metis starts_with_append)+

text \<open>
  An operation keeps a relation between the views before and after it. The rules follow the shape
  of the code; a relation that is reflexive and transitive has them all.
\<close>

definition obeys :: "(s3_view \<Rightarrow> s3_view \<Rightarrow> bool) \<Rightarrow> ('b \<Rightarrow> s3_view) \<Rightarrow> ('b \<Rightarrow> 'r \<times> 'b) \<Rightarrow> bool" where
  "obeys R view f \<longleftrightarrow> (\<forall>b. R (view b) (view (snd (f b))))"

lemma obeysI: "(\<And>b r b'. f b = (r, b') \<Longrightarrow> R (view b) (view b')) \<Longrightarrow> obeys R view f"
  unfolding obeys_def by (metis prod.collapse)

lemma obeysD: "obeys R view f \<Longrightarrow> f b = (r, b') \<Longrightarrow> R (view b) (view b')"
  unfolding obeys_def by (metis snd_conv)

locale footprint =
  fixes R :: "s3_view \<Rightarrow> s3_view \<Rightarrow> bool"
  assumes same: "R v v"
    and step: "R u v \<Longrightarrow> R v w \<Longrightarrow> R u w"
begin

lemma ret: "obeys R view (\<lambda>b. (r, b))"
  by (simp add: obeys_def same)

lemma lift: "obeys R view (io_lift r)"
  by (simp add: obeys_def same)

lemma err: "obeys R view f \<Longrightarrow> obeys R view (\<lambda>b. io_map_err h (f b))"
  by (simp add: obeys_def io_map_err_def)

lemma bind:
  assumes f: "obeys R view f" and k: "\<And>a. obeys R view (k a)"
  shows "obeys R view (\<lambda>b. io_bind (f b) k)"
proof (rule obeysI)
  fix b r b'
  assume run: "io_bind (f b) k = (r, b')"
  obtain x b1 where x: "f b = (x, b1)" by (cases "f b")
  have "R (view b) (view b1)" by (rule obeysD [OF f x])
  moreover have "R (view b1) (view b')"
  proof (cases x)
    case (Inl e)
    with run x show ?thesis by (simp add: same)
  next
    case (Inr a)
    with run x show ?thesis using obeysD [OF k [of a]] by simp
  qed
  ultimately show "R (view b) (view b')" by (rule step)
qed

lemma cond:
  "obeys R view f \<Longrightarrow> obeys R view g \<Longrightarrow> obeys R view (\<lambda>b. if c then f b else g b)"
  by (cases c) simp_all

lemma opt:
  "obeys R view f \<Longrightarrow> (\<And>a. obeys R view (g a)) \<Longrightarrow>
     obeys R view (\<lambda>b. case x of None \<Rightarrow> f b | Some a \<Rightarrow> g a b)"
  by (cases x) simp_all

lemma pair: "(\<And>a c. obeys R view (g a c)) \<Longrightarrow> obeys R view (\<lambda>b. case x of (a, c) \<Rightarrow> g a c b)"
  by (cases x) simp

lemma pair_fun: "(\<And>a c. obeys R view (g a c)) \<Longrightarrow> obeys R view (case x of (a, c) \<Rightarrow> g a c)"
  by (cases x) simp

lemma drop_result: "obeys R view f \<Longrightarrow> obeys R view (\<lambda>b. (r, snd (f b)))"
  by (simp add: obeys_def)

lemmas rules = ret lift err bind cond opt pair pair_fun drop_result

end

interpretation kept: footprint "(=)"
  by unfold_locales simp_all

interpretation added: footprint creates
  by unfold_locales (auto intro: creates_trans)

section \<open>The requests under the axioms\<close>

lemma s3_get_view:
  assumes "s3_laws cl view"
  shows "view (snd (s3_get cl b k)) = view b" "view (snd (s3_head cl b k)) = view b"
  using assms by (simp_all add: s3_laws_def)

lemma s3_get_answer: "s3_laws cl view \<Longrightarrow> s3_get cl b k = (r, b') \<Longrightarrow> get_answer (view b) k r"
  unfolding s3_laws_def by (metis fst_conv)

lemma s3_get_body:
  assumes "s3_laws cl view" "s3_get cl b k = (Inr resp, b')"
  obtains e where "view b k = Some (e, rs_body resp)" "rs_etag resp \<in> {None, Some e}"
  using s3_get_answer [OF assms] by (auto simp: get_answer_def)

lemma s3_get_404:
  "s3_laws cl view \<Longrightarrow> s3_get cl b k = (Inl (HttpFailWithBody 404 x), b') \<Longrightarrow> view b k = None"
  using s3_get_answer [of cl view b k] by (auto simp: get_answer_def)

lemma s3_put_answer:
  "s3_laws cl view \<Longrightarrow> s3_put cl b k body p = (r, b') \<Longrightarrow> put_answer (view b) (view b') k body p r"
  unfolding s3_laws_def by (metis fst_conv snd_conv)

lemma s3_put_any:
  "s3_laws cl view \<Longrightarrow> s3_put cl b k body p = (r, b') \<Longrightarrow>
     view b' = view b \<or> write_effect k body p (view b) (view b')"
  using s3_put_answer [of cl view b k body p r b'] by (simp add: put_answer_def)

lemma s3_put_2xx:
  "s3_laws cl view \<Longrightarrow> s3_put cl b k body p = (Inr resp, b') \<Longrightarrow> is_2xx (rs_status resp) \<Longrightarrow>
     write_effect k body p (view b) (view b')"
  using s3_put_answer [of cl view b k body p "Inr resp" b'] by (simp add: put_answer_def)

lemma s3_put_412:
  assumes "s3_laws cl view" "s3_put cl b k body p = (Inl (HttpFailWithBody 412 x), b')"
  shows "view b' = view b" "\<not> precond_holds p (view b k)"
  using s3_put_answer [OF assms] by (simp_all add: put_answer_def)

lemma etag_body:
  "s3_laws cl view \<Longrightarrow> view b k = Some (e, x) \<Longrightarrow> view b' k = Some (e, y) \<Longrightarrow> x = y"
  unfolding s3_laws_def by blast

lemma sha_digest: "s3_laws cl view \<Longrightarrow> is_manifest_digest (s3_sha256_hex cl x)"
  unfolding s3_laws_def by blast

section \<open>The client\<close>

lemma get_view: "s3_laws cl view \<Longrightarrow> view (snd (get cl k b)) = view b"
  using s3_get_view(1) [of cl view b k]
  by (cases "s3_get cl b k") (simp add: get_def Let_def)

lemma get_Inr:
  assumes "s3_laws cl view" "get cl k b = (Inr x, b')"
  obtains e where "view b k = Some (e, x)"
proof -
  obtain resp where "s3_get cl b k = (Inr resp, b')" "x = rs_body resp"
    using assms(2) by (auto simp: get_def Let_def split: prod.splits sum.splits S3Error.splits if_splits)
  with s3_get_body [OF assms(1)] that show thesis by metis
qed

lemma get_pointer_view: "s3_laws cl view \<Longrightarrow> view (snd (get_pointer cl k b)) = view b"
  using s3_get_view(1) [of cl view b k]
  by (cases "s3_get cl b k") (simp add: get_pointer_def Let_def)

lemma get_pointer_Some:
  assumes "s3_laws cl view" "get_pointer cl k b = (Inr (Some (etag, x)), b')"
  obtains e where "etag = ETag e" "view b k = Some (e, x)"
proof -
  obtain resp e where g: "s3_get cl b k = (Inr resp, b')"
    and e: "rs_etag resp = Some e" "etag = ETag e" "x = rs_body resp"
    using assms(2)
    by (auto simp: get_pointer_def Let_def split: prod.splits sum.splits S3Error.splits if_splits
        option.splits)
  obtain e' where "view b k = Some (e', rs_body resp)" "rs_etag resp \<in> {None, Some e'}"
    by (rule s3_get_body [OF assms(1) g])
  with e show thesis by (auto intro: that)
qed

lemma get_pointer_None:
  assumes "s3_laws cl view" "get_pointer cl k b = (Inr None, b')"
  shows "view b k = None"
proof -
  obtain x where "s3_get cl b k = (Inl (HttpFailWithBody 404 x), b')"
    using assms(2)
    by (auto simp: get_pointer_def Let_def split: prod.splits sum.splits S3Error.splits if_splits
        option.splits)
  then show ?thesis by (rule s3_get_404 [OF assms(1)])
qed

lemma get_limited_view: "s3_laws cl view \<Longrightarrow> view (snd (get_limited cl k n b)) = view b"
  using s3_get_view(2) [of cl view b k] get_view [of cl view k "snd (s3_head cl b k)"]
  by (auto simp: get_limited_def Let_def io_bind_def split: prod.splits sum.splits S3Error.splits
      option.splits)

lemma get_limited_Inr:
  assumes "s3_laws cl view" "get_limited cl k n b = (Inr x, b')"
  obtains e where "view b k = Some (e, x)" "u64_of_len (length x) \<le> n"
proof -
  obtain h b1 b2 where h: "s3_head cl b k = (h, b1)" and g: "get cl k b1 = (Inr x, b2)"
    and n: "\<not> u64_of_len (length x) > n"
    using assms(2)
    by (auto simp: get_limited_def Let_def io_bind_Ok split: prod.splits sum.splits S3Error.splits
        option.splits if_splits)
  have "view b1 = view b" using s3_get_view(2) [OF assms(1), of b k] h by simp
  with get_Inr [OF assms(1) g] n show thesis by (metis not_less that)
qed

lemma check_digest_Inr [simp]:
  "check_digest cl k d x = Inr y \<longleftrightarrow> y = x \<and> s3_sha256_hex cl x = d"
  by (auto simp: check_digest_def Let_def)

lemma get_verified_view: "s3_laws cl view \<Longrightarrow> view (snd (get_verified cl k d b)) = view b"
  using get_view [of cl view k b]
  by (auto simp: get_verified_def io_bind_def split: prod.splits sum.splits)

lemma get_verified_limited_view:
  "s3_laws cl view \<Longrightarrow> view (snd (get_verified_limited cl k d n b)) = view b"
  using get_limited_view [of cl view k n b]
  by (auto simp: get_verified_limited_def io_bind_def split: prod.splits sum.splits)

lemma get_pointer_kept: "s3_laws cl view \<Longrightarrow> obeys (=) view (get_pointer cl k)"
  by (simp add: obeys_def get_pointer_view)

lemma get_verified_kept: "s3_laws cl view \<Longrightarrow> obeys (=) view (get_verified cl k d)"
  by (simp add: obeys_def get_verified_view)

lemma get_verified_limited_kept: "s3_laws cl view \<Longrightarrow> obeys (=) view (get_verified_limited cl k d n)"
  by (simp add: obeys_def get_verified_limited_view)

lemma create_only_creates:
  assumes "s3_laws cl view" "object_key key" "create_only cl key bytes b = (r, b')"
  shows "creates (view b) (view b')"
proof -
  obtain s where "s3_put cl b key bytes IfNoneMatchStar = (s, b')"
    using assms(3) by (auto simp: create_only_def Let_def split: prod.splits)
  from s3_put_any [OF assms(1) this] assms(2) show ?thesis
    by (auto simp: creates_def write_effect_def precond_holds_def split: if_splits)
qed

lemma create_only_Inr:
  assumes "s3_laws cl view" "create_only cl key bytes b = (Inr k, b')"
  shows "k = key" "view b' key \<noteq> None"
    "view b key = None \<Longrightarrow> \<exists>e. view b' key = Some (e, bytes)"
proof -
  obtain s where put: "s3_put cl b key bytes IfNoneMatchStar = (s, b')"
    and s: "(\<exists>resp. s = Inr resp \<and> is_2xx (rs_status resp)) \<or> (\<exists>x. s = Inl (HttpFailWithBody 412 x))"
    and k: "k = key"
    using assms(2)
    by (auto simp: create_only_def Let_def split: prod.splits sum.splits S3Error.splits if_splits)
  have "view b' key \<noteq> None \<and> (view b key = None \<longrightarrow> (\<exists>e. view b' key = Some (e, bytes)))"
    using s
  proof
    assume "\<exists>resp. s = Inr resp \<and> is_2xx (rs_status resp)"
    then have "write_effect key bytes IfNoneMatchStar (view b) (view b')"
      using s3_put_2xx [OF assms(1)] put by blast
    then show ?thesis by (auto simp: write_effect_def)
  next
    assume "\<exists>x. s = Inl (HttpFailWithBody 412 x)"
    then show ?thesis
      using s3_put_412 [OF assms(1), of b key bytes IfNoneMatchStar _ b'] put
      by (auto simp: precond_holds_def)
  qed
  then show "k = key" "view b' key \<noteq> None"
    "view b key = None \<Longrightarrow> \<exists>e. view b' key = Some (e, bytes)"
    using k by blast+
qed

lemma put_pack_creates:
  "s3_laws cl view \<Longrightarrow> put_pack cl bytes b = (r, b') \<Longrightarrow> creates (view b) (view b')"
  using create_only_creates [of cl view "content_key cl ''packs'' bytes" bytes b r b']
  by (simp add: put_pack_def put_immutable_def object_key_def content_key_def starts_with_def)

lemma put_idx_creates:
  assumes "s3_laws cl view" "put_idx cl d bytes b = (r, b')"
  shows "creates (view b) (view b')"
proof (cases "idx_key_for_pack_digest d")
  case (Inl e)
  with assms(2) show ?thesis by (simp add: put_idx_def)
next
  case (Inr k)
  then have "object_key k" by (auto simp: idx_key_for_pack_digest_def object_key_def starts_with_def split: if_splits)
  with Inr assms(2) create_only_creates [OF assms(1)] show ?thesis
    by (simp add: put_idx_def)
qed

lemma put_pack_Inr:
  assumes "s3_laws cl view" "put_pack cl bytes b = (Inr k, b')"
  shows "is_pack_key k" "view b' k \<noteq> None"
proof -
  note c = assms(2) [unfolded put_pack_def put_immutable_def]
  have k: "k = ''packs/'' @ s3_sha256_hex cl bytes"
    using create_only_Inr(1) [OF assms(1) c] by (simp add: content_key_def)
  show "view b' k \<noteq> None"
    using create_only_Inr(1,2) [OF assms(1) c] by simp
  show "is_pack_key k"
    unfolding k is_pack_key_def strip_prefix_append using sha_digest [OF assms(1)] by simp
qed

section \<open>Loading\<close>

lemma io_map_err_Ok [simp]: "io_map_err f x = (Inr a, b) \<longleftrightarrow> x = (Inr a, b)"
  by (cases x) (auto simp: map_err_eq)

lemma io_lift_Ok [simp]: "io_lift r b = (Inr a, b') \<longleftrightarrow> r = Inr a \<and> b' = b"
  by (auto simp: io_lift_def)

lemma hydrate_get_verified_Inr:
  assumes "s3_laws cl view" "hydrate_get_verified cl k d n b = (Inr x, b')"
  obtains e where "view b k = Some (e, x)" "s3_sha256_hex cl x = d" "u64_of_len (length x) \<le> n"
proof -
  obtain b1 where "get_limited cl k n b = (Inr x, b1)" "s3_sha256_hex cl x = d"
    using assms(2) by (auto simp: hydrate_get_verified_def get_verified_limited_def io_bind_Ok)
  with get_limited_Inr [OF assms(1)] that show thesis by metis
qed

lemma load_pointer_kept: "s3_laws cl view \<Longrightarrow> obeys (=) view (load_pointer cl js c owner repo)"
  unfolding load_pointer_def [abs_def] hydrate_get_verified_def [abs_def]
  by (intro kept.rules get_pointer_kept get_verified_limited_kept)

lemmas load_pointer_view = obeysD [OF load_pointer_kept, symmetric]

text \<open>A load that succeeds shows a manifest whose digest the pointer names, valid and within bounds.\<close>

definition authentic :: "'b s3_client \<Rightarrow> json_lib \<Rightarrow> s3_view \<Rightarrow> string \<Rightarrow> Manifest \<Rightarrow> bool" where
  "authentic cl js v d m \<longleftrightarrow>
     wf_manifest m \<and>
     (\<exists>e x. v (''manifests/'' @ d) = Some (e, x) \<and> s3_sha256_hex cl x = d \<and>
            u64_of_len (length x) \<le> MAX_MANIFEST_BYTES \<and> from_bytes js x = Inr m)"

lemma load_pointer_Some:
  assumes laws: "s3_laws cl view"
    and load: "load_pointer cl js c owner repo b = (Inr (Some (etag, d, m)), b')"
  obtains e body where "etag = ETag e" "view b (pointer_key c owner repo) = Some (e, body)"
    "pointer_digest body = Some d" "authentic cl js (view b) d m"
proof -
  obtain body b1 x b2 where
    g: "get_pointer cl (pointer_key c owner repo) b = (Inr (Some (etag, body)), b1)"
    and d: "pointer_digest body = Some d"
    and x: "hydrate_get_verified cl (''manifests/'' @ d) d MAX_MANIFEST_BYTES b1 = (Inr x, b2)"
    and m: "from_bytes js x = Inr m" "validate m = Inr ()"
    using load
    by (auto simp: load_pointer_def io_bind_Ok map_err_eq split: option.splits simp del: io_simps)
  have b1: "view b1 = view b" using get_pointer_view [OF laws, of "pointer_key c owner repo" b] g by simp
  obtain e where e: "etag = ETag e" "view b (pointer_key c owner repo) = Some (e, body)"
    using get_pointer_Some [OF laws g] by blast
  obtain e' where "view b1 (''manifests/'' @ d) = Some (e', x)" "s3_sha256_hex cl x = d"
    "u64_of_len (length x) \<le> MAX_MANIFEST_BYTES"
    using hydrate_get_verified_Inr [OF laws x] by blast
  then have "authentic cl js (view b) d m"
    unfolding authentic_def b1 using m by (auto simp: validate_Ok)
  with e d show thesis by (rule that)
qed

lemma load_pointer_None:
  assumes "s3_laws cl view" "load_pointer cl js c owner repo b = (Inr None, b')"
  shows "view b (pointer_key c owner repo) = None"
proof -
  obtain p b1 where g: "get_pointer cl (pointer_key c owner repo) b = (Inr p, b1)" and p: "p = None"
    using assms(2)
    by (fastforce simp: load_pointer_def io_bind_Ok map_err_eq split: option.splits simp del: io_simps)
  show ?thesis using get_pointer_None [OF assms(1) g [unfolded p]] .
qed

section \<open>Proposing a manifest\<close>

lemma put_pack_added: "s3_laws cl view \<Longrightarrow> obeys creates view (put_pack cl bytes)"
  by (rule obeysI) (rule put_pack_creates)

lemma put_idx_added: "s3_laws cl view \<Longrightarrow> obeys creates view (put_idx cl d bytes)"
  by (rule obeysI) (rule put_idx_creates)

lemma write_idx_sidecar_added: "s3_laws cl view \<Longrightarrow> obeys creates view (write_idx_sidecar cl g k bytes)"
  unfolding write_idx_sidecar_def [abs_def] by (intro added.rules put_idx_added)

lemma upload_packs_added:
  assumes laws: "s3_laws cl view"
  shows "obeys creates view (upload_packs cl ps)"
proof (induction ps)
  case Nil
  show ?case by (auto simp: obeys_def)
next
  case (Cons p ps)
  have rest: "obeys creates view (\<lambda>b.
      let b = (case cp_idx_read p of Inr idx_bytes \<Rightarrow> snd (put_idx cl d idx_bytes b) | Inl _ \<Rightarrow> b)
      in io_bind (upload_packs cl ps b) (\<lambda>keys b. (Inr (k # keys), b)))" for d k
  proof -
    have tail: "obeys creates view (\<lambda>b. io_bind (upload_packs cl ps b) (\<lambda>keys b. (Inr (k # keys), b)))"
      by (intro added.rules Cons)
    show ?thesis
    proof (cases "cp_idx_read p")
      case (Inr idx)
      then show ?thesis
        using tail put_idx_added [OF laws, of d idx] creates_trans
        unfolding obeys_def Let_def by simp blast
    qed (use tail in simp)
  qed
  show ?case
    unfolding upload_packs.simps(2) [abs_def] by (intro added.rules put_pack_added laws rest)
qed

lemma upload_packs_Inr:
  assumes laws: "s3_laws cl view"
  shows "upload_packs cl ps b = (Inr ks, b') \<Longrightarrow>
     length ks = length ps \<and> (\<forall>k\<in>set ks. is_pack_key k \<and> view b' k \<noteq> None)"
proof (induction ps arbitrary: b ks)
  case (Cons p ps)
  obtain bytes k ks' b1 b2 d where put: "put_pack cl bytes b = (Inr k, b1)"
    and b2: "b2 = (case cp_idx_read p of Inr idx_bytes \<Rightarrow> snd (put_idx cl d idx_bytes b1) | Inl _ \<Rightarrow> b1)"
    and rest: "upload_packs cl ps b2 = (Inr ks', b')" and ks: "ks = k # ks'"
    using Cons.prems
    by (auto simp: io_bind_Ok Let_def map_err_eq split: if_splits simp del: io_simps)
  have "creates (view b1) (view b2)"
    using put_idx_added [OF laws, of d] unfolding b2 obeys_def by (auto split: sum.splits)
  then have "creates (view b1) (view b')"
    using obeysD [OF upload_packs_added [OF laws] rest] by (rule creates_trans)
  then have "is_pack_key k \<and> view b' k \<noteq> None"
    using put_pack_Inr [OF laws put] creates_keeps by fastforce
  with Cons.IH [OF rest] show ?case unfolding ks by simp
qed simp

lemma try_compaction_added:
  assumes laws: "s3_laws cl view"
  shows "obeys creates view (try_compaction cl g refs limits n)"
proof -
  have "obeys creates view (\<lambda>b. (r, interrupted_compaction cl g refs limits n m b))" for r m
    using upload_packs_added [OF laws]
    by (auto simp: interrupted_compaction_def obeys_def split: sum.splits)
  moreover have "obeys creates view (prepare_compaction cl g refs limits n)"
    unfolding prepare_compaction_def [abs_def] upload_compacted_packs_def [abs_def] Let_def
    by (intro added.rules upload_packs_added laws)
  ultimately show ?thesis
    unfolding try_compaction_def [abs_def] by (intro added.rules)
qed

lemma try_compaction_Inr:
  assumes laws: "s3_laws cl view"
    and run: "try_compaction cl g refs limits n b = (Inr (ks, cnt, bytes), b')"
  shows "list_all is_pack_key ks" "\<forall>k\<in>set ks. view b' k \<noteq> None" "length ks \<le> MAX_MANIFEST_PACKS"
proof -
  obtain ps acc b1 keys where cap: "capture_compacted_packs g refs limits = Inr (ps, acc)"
    and up: "upload_packs cl ps b1 = (Inr keys, b')" and ks: "ks = sort_dedup keys"
    using run
    by (auto simp: try_compaction_def prepare_compaction_def upload_compacted_packs_def io_bind_Ok
        Let_def split: option.splits if_splits simp del: io_simps)
  have "length ps \<le> MAX_MANIFEST_PACKS"
    using cap by (auto simp: capture_compacted_packs_def and_then_eq_Ok split: if_splits)
  moreover have "length ks \<le> length keys" unfolding ks by (rule length_sort_dedup)
  ultimately show "length ks \<le> MAX_MANIFEST_PACKS"
    using upload_packs_Inr [OF laws up] by simp
  show "list_all is_pack_key ks" "\<forall>k\<in>set ks. view b' k \<noteq> None"
    using upload_packs_Inr [OF laws up] by (auto simp: ks list_all_iff)
qed

lemma publish_delta_added:
  assumes laws: "s3_laws cl view"
  shows "obeys creates view (publish_delta cl g limits ps refs f)"
  unfolding publish_delta_def [abs_def] Let_def
  by (intro added.rules put_pack_added write_idx_sidecar_added laws)

lemma publish_delta_Inr:
  assumes laws: "s3_laws cl view" and run: "publish_delta cl g limits ps refs f b = (Inr (Some k), b')"
  shows "is_pack_key k" "view b' k \<noteq> None" "length (m_packs (ps_parent ps)) < MAX_MANIFEST_PACKS"
proof -
  obtain bytes b1 b2 where put: "put_pack cl bytes b1 = (Inr k, b2)"
    and b': "b' = snd (write_idx_sidecar cl g k bytes b2)"
    and n: "length (m_packs (ps_parent ps)) < MAX_MANIFEST_PACKS"
    using run
    by (auto simp: publish_delta_def io_bind_Ok Let_def split: option.splits if_splits simp del: io_simps)
  show "is_pack_key k" by (rule put_pack_Inr(1) [OF laws put])
  have "creates (view b2) (view b')"
    using write_idx_sidecar_added [OF laws] unfolding b' obeys_def by blast
  with put_pack_Inr(2) [OF laws put] show "view b' k \<noteq> None" using creates_keeps by fastforce
  show "length (m_packs (ps_parent ps)) < MAX_MANIFEST_PACKS" by (rule n)
qed

lemma snapshot_refs_Inr:
  "snapshot_refs ls refs = Inr rs \<Longrightarrow> bt_ok refs \<Longrightarrow> bt_ok rs"
  by (induction ls refs rule: snapshot_refs.induct) (auto split: option.splits prod.splits if_splits)

lemma snapshot_sorted: "snapshot_workspace_state g = Inr (refs, head) \<Longrightarrow> bt_ok refs"
  by (auto simp: snapshot_workspace_state_def and_then_eq_Ok bt_ok_def split: if_splits
      dest!: snapshot_refs_Inr)

text \<open>What a proposed manifest is made of.\<close>

definition proposes ::
  "s3_view \<Rightarrow> git_ops \<Rightarrow> ParentState \<Rightarrow> nat \<Rightarrow> Manifest \<Rightarrow> bool" where
  "proposes v g ps threshold m \<longleftrightarrow>
     (\<exists>observed. snapshot_workspace_state g = Inr (m_refs m, observed) \<and>
        m_head m = resolve_published_head (m_refs m) observed (m_head (ps_parent ps))) \<and>
     m_version m = MANIFEST_VERSION \<and> m_parent m = ps_parent_digest' ps \<and>
     sort_dedup (m_packs m) = m_packs m \<and>
     (\<forall>k\<in>set (m_packs m) - set (m_packs (ps_parent ps)). is_pack_key k \<and> v k \<noteq> None) \<and>
     (set (m_packs (ps_parent ps)) \<subseteq> set (m_packs m) \<or>
      should_compact (length (m_packs (ps_parent ps))) threshold \<and>
      (\<forall>k\<in>set (m_packs m). is_pack_key k \<and> v k \<noteq> None))"

lemma maybe_compact_added:
  "s3_laws cl view \<Longrightarrow> obeys creates view (maybe_compact cl g refs limits n th)"
  using try_compaction_added [of cl view g refs limits n]
  by (simp add: obeys_def maybe_compact_def)

lemma compose_manifest_added:
  assumes laws: "s3_laws cl view"
  shows "obeys creates view (compose_manifest cl g limits ps head refs c)"
proof -
  have d: "obeys creates view (\<lambda>b. io_bind (publish_delta cl g limits ps refs f b)
      (\<lambda>new_pack_key b. (Inr (compose_after (ps_parent ps) (ps_parent_digest' ps) head refs new_pack_key), b)))"
    for f by (intro added.rules publish_delta_added laws)
  consider "c = None" | e where "c = Some (Inl e)" | ks n m where "c = Some (Inr (ks, n, m))"
    by (metis not_None_eq obj_sumE prod.exhaust)
  then show ?thesis
    by cases (use d in \<open>simp_all add: added.ret obeys_def\<close>)
qed

lemma compose_publish_added:
  assumes laws: "s3_laws cl view"
  shows "obeys creates view (compose_publish cl g ps limits threshold)"
proof -
  have "obeys creates view (\<lambda>b. let (c, b) = maybe_compact cl g refs limits n threshold b
      in compose_manifest cl g limits ps head refs c b)" for refs n head
  proof (rule obeysI)
    fix b r b'
    assume run: "(let (c, b) = maybe_compact cl g refs limits n threshold b
      in compose_manifest cl g limits ps head refs c b) = (r, b')"
    obtain c b1 where m: "maybe_compact cl g refs limits n threshold b = (c, b1)"
      by (cases "maybe_compact cl g refs limits n threshold b")
    show "creates (view b) (view b')"
      using obeysD [OF maybe_compact_added [OF laws] m]
        obeysD [OF compose_manifest_added [OF laws, of g limits ps head refs c], of b1 r b'] run m
      by (auto intro: creates_trans)
  qed
  then show ?thesis
    unfolding compose_publish_def [abs_def] Let_def [of "resolve_published_head _ _ _"]
      Let_def [of "length _"]
    by (intro added.rules) (auto simp: Let_def)
qed

lemma compose_after_proposes:
  assumes "snapshot_workspace_state g = Inr (refs, observed)"
    and "\<And>k. new = Some k \<Longrightarrow> is_pack_key k \<and> v k \<noteq> None"
  shows "proposes v g ps th (compose_after (ps_parent ps) (ps_parent_digest' ps)
     (resolve_published_head refs observed (m_head (ps_parent ps))) refs new)"
  using assms by (auto simp: proposes_def compose_after_def Let_def split: option.splits)

lemma compose_publish_Inr:
  assumes laws: "s3_laws cl view"
    and run: "compose_publish cl g ps limits threshold b = (Inr m, b')"
  shows "proposes (view b') g ps threshold m"
proof -
  let ?n = "length (m_packs (ps_parent ps))"
  obtain refs observed where s: "snapshot_workspace_state g = Inr (refs, observed)"
    using run by (auto simp: compose_publish_def io_bind_Ok simp del: io_simps)
  let ?head = "resolve_published_head refs observed (m_head (ps_parent ps))"
  let ?c = "maybe_compact cl g refs limits ?n threshold"
  obtain b0 c b1 where m0: "?c b0 = (c, b1)"
    and m: "compose_manifest cl g limits ps ?head refs c b1 = (Inr m, b')"
    using run s by (auto simp: compose_publish_def Let_def split: prod.splits)
  consider (compacted) ks cnt bytes where "should_compact ?n threshold"
      "try_compaction cl g refs limits ?n b0 = (Inr (ks, cnt, bytes), b')"
      "m = compose_compacted_after (ps_parent_digest' ps) ?head refs ks"
    | (delta) f b1 new where "publish_delta cl g limits ps refs f b1 = (Inr new, b')"
      "m = compose_after (ps_parent ps) (ps_parent_digest' ps) ?head refs new"
  proof -
    consider "c = None" | e where "c = Some (Inl e)" | ks k l where "c = Some (Inr (ks, k, l))"
      by (metis not_None_eq obj_sumE prod.exhaust)
    then show thesis
    proof cases
      case (3 ks k l)
      then have "should_compact ?n threshold"
        "try_compaction cl g refs limits ?n b0 = (Inr (ks, k, l), b1)"
        using m0 by (auto simp: maybe_compact_def prod_eq_iff split: if_splits)
      with 3 m compacted show thesis by simp
    qed (use m delta in \<open>auto simp: io_bind_Ok\<close>)
  qed
  then show ?thesis
  proof cases
    case (compacted ks cnt bytes)
    have "list_all is_pack_key ks" "\<forall>k\<in>set ks. view b' k \<noteq> None"
      by (rule try_compaction_Inr [OF laws compacted(2)])+
    with compacted(1) s show ?thesis
      unfolding compacted(3) by (auto simp: proposes_def compose_compacted_after_def list_all_iff)
  next
    case (delta f b1 new)
    show ?thesis
      unfolding delta(2)
    proof (rule compose_after_proposes [OF s])
      fix k assume "new = Some k"
      with delta(1) publish_delta_Inr [OF laws] show "is_pack_key k \<and> view b' k \<noteq> None" by blast
    qed
  qed
qed

section \<open>Staging and swapping\<close>

lemma put_manifest_added:
  assumes laws: "s3_laws cl view"
  shows "obeys creates view (put_manifest cl bytes)"
proof (rule obeysI)
  fix b r b'
  assume "put_manifest cl bytes b = (r, b')"
  then show "creates (view b) (view b')"
    unfolding put_manifest_def put_immutable_def content_key_def append_assoc
    using create_only_creates [OF laws object_keys(3)] by simp
qed

lemma stage_manifest_added:
  assumes laws: "s3_laws cl view"
  shows "obeys creates view (stage_manifest cl js m)"
  unfolding stage_manifest_def [abs_def] by (intro added.rules put_manifest_added laws)

lemma digest_from_manifest_key_Inr [simp]:
  "digest_from_manifest_key key = Inr d \<longleftrightarrow> key = ''manifests/'' @ d"
  by (auto simp: digest_from_manifest_key_def strip_prefix_eq_Some split: option.splits)
    (metis strip_prefix_append option.simps(3) append_Cons append_Nil)

definition staged :: "'b s3_client \<Rightarrow> json_lib \<Rightarrow> s3_view \<Rightarrow> Manifest \<Rightarrow> string \<Rightarrow> bool" where
  "staged cl js v m d \<longleftrightarrow>
     wf_manifest m \<and> v (''manifests/'' @ d) \<noteq> None \<and>
     (\<exists>bytes. canonical_bytes js m = Inr bytes \<and> d = s3_sha256_hex cl bytes)"

lemma staged_digest: "s3_laws cl view \<Longrightarrow> staged cl js v m d \<Longrightarrow> is_manifest_digest d"
  using sha_digest by (auto simp: staged_def)

lemma staged_creates: "staged cl js v m d \<Longrightarrow> creates v v' \<Longrightarrow> staged cl js v' m d"
  by (auto simp: staged_def dest: creates_keeps)

lemma stage_manifest_Inr:
  assumes laws: "s3_laws cl view" and run: "stage_manifest cl js m b = (Inr (key, d), b')"
  shows "staged cl js (view b') m d" "key = ''manifests/'' @ d"
    "canonical_bytes js m = Inr bytes \<Longrightarrow> view b key = None \<Longrightarrow> \<exists>e. view b' key = Some (e, bytes)"
proof -
  obtain x where v: "validate m = Inr ()" and x: "canonical_bytes js m = Inr x"
    and put: "put_manifest cl x b = (Inr key, b')" and k: "digest_from_manifest_key key = Inr d"
    using run by (auto simp: stage_manifest_def io_bind_Ok map_err_eq simp del: io_simps)
  note c = put [unfolded put_manifest_def put_immutable_def]
  have key: "key = ''manifests/'' @ s3_sha256_hex cl x"
    using create_only_Inr(1) [OF laws c] by (simp add: content_key_def)
  with k have d: "d = s3_sha256_hex cl x" by simp
  show kd: "key = ''manifests/'' @ d" using key d by simp
  show "staged cl js (view b') m d"
    unfolding staged_def
  proof (intro conjI exI)
    show "wf_manifest m" using v by (simp add: validate_Ok)
    show "view b' (''manifests/'' @ d) \<noteq> None"
      using create_only_Inr(1,2) [OF laws c] kd by simp
  qed (rule x, rule d)
  show "canonical_bytes js m = Inr bytes \<Longrightarrow> view b key = None \<Longrightarrow> \<exists>e. view b' key = Some (e, bytes)"
    using x create_only_Inr(1) [OF laws c] create_only_Inr(3) [OF laws c] by simp
qed

lemma swap_pointer_any:
  assumes laws: "s3_laws cl view" and run: "swap_pointer cl pkey ps d b = (r, b')"
  shows "view b' = view b \<or> write_effect pkey d (cas_precond ps) (view b) (view b')"
  using run s3_put_any [OF laws, of b pkey d "cas_precond ps"]
  by (auto simp: swap_pointer_def put_pointer_def Let_def split: option.splits prod.splits)

lemma swap_pointer_Won:
  assumes laws: "s3_laws cl view" and run: "swap_pointer cl pkey ps d b = (Inr (Won etag), b')"
  shows "write_effect pkey d (cas_precond ps) (view b) (view b')"
proof -
  obtain resp where "s3_put cl b pkey d (cas_precond ps) = (Inr resp, b')" "is_2xx (rs_status resp)"
    using run
    by (auto simp: swap_pointer_def put_pointer_def classify_cas_def Let_def
        split: option.splits prod.splits sum.splits S3Error.splits if_splits)
  then show ?thesis by (rule s3_put_2xx [OF laws])
qed

lemma swap_pointer_LostRace:
  assumes laws: "s3_laws cl view" and run: "swap_pointer cl pkey ps d b = (Inr LostRace, b')"
  shows "view b' = view b" "\<not> precond_holds (cas_precond ps) (view b pkey)"
proof -
  obtain x where "s3_put cl b pkey d (cas_precond ps) = (Inl (HttpFailWithBody 412 x), b')"
    using run
    by (auto simp: swap_pointer_def put_pointer_def classify_cas_def Let_def
        split: option.splits prod.splits sum.splits S3Error.splits if_splits)
  then show "view b' = view b" "\<not> precond_holds (cas_precond ps) (view b pkey)"
    by (rule s3_put_412 [OF laws])+
qed

end
