(* ===== verification/GitHistory.thy ===== *)
theory GitHistory
  imports GitPublishProps
begin

text \<open>
  The publishes of one repository over time. \<open>publish_step\<close> interleaves, in any order, the loads,
  the proposals, the staging and the compare-and-swap of any number of concurrent pushes, the reads
  after a conflict, and whatever other repositories do to the store. The ghost \<open>w_log\<close> lists the
  manifests the pointer has named, newest first.
\<close>

section \<open>One publish\<close>

lemma precond_after_creates:
  "creates v v' \<Longrightarrow> \<not> object_key k \<Longrightarrow> precond_holds p (v' k) = precond_holds p (v k)"
  by (simp add: creates_other)

text \<open>What a successful publish leaves behind, relative to the view \<open>v\<close> it started from.\<close>

definition committed ::
  "'b s3_client \<Rightarrow> json_lib \<Rightarrow> git_ops \<Rightarrow> string \<Rightarrow> ParentState \<Rightarrow> nat \<Rightarrow> s3_view \<Rightarrow> s3_view
     \<Rightarrow> CasSuccess \<Rightarrow> bool" where
  "committed cl js g pkey ps threshold v v' ok \<longleftrightarrow>
     (\<exists>d e. cs_manifest_key ok = ''manifests/'' @ d \<and> v' pkey = Some (e, d) \<and>
        staged cl js v' (cs_manifest ok) d) \<and>
     proposes v' g ps threshold (cs_manifest ok) \<and>
     precond_holds (cas_precond ps) (v pkey) \<and>
     (\<forall>k. \<not> object_key k \<longrightarrow> k \<noteq> pkey \<longrightarrow> v' k = v k) \<and>
     (\<forall>k x. v k = Some x \<longrightarrow> k \<noteq> pkey \<longrightarrow> v' k = Some x)"

lemma cas_publish_inner_Inr:
  assumes laws: "s3_laws cl view"
    and run: "cas_publish_inner cl js g community owner repo ps limits threshold b = (Inr ok, b')"
  shows "committed cl js g (pointer_key community owner repo) ps threshold (view b) (view b') ok"
proof -
  let ?pkey = "pointer_key community owner repo"
  obtain m b1 key d b2 outcome b3 where
    m: "compose_publish cl g ps limits threshold b = (Inr m, b1)"
    and st: "stage_manifest cl js m b1 = (Inr (key, d), b2)"
    and sw0: "swap_pointer cl ?pkey ps d b2 = (Inr outcome, b3)"
    and concl: "conclude_publish cl js ?pkey m key outcome b3 = (Inr ok, b')"
    using run by (auto simp: cas_publish_inner_def Let_def io_bind_Ok simp del: io_simps)
  obtain etag where sw: "swap_pointer cl ?pkey ps d b2 = (Inr (Won etag), b')"
    and ok: "ok = \<lparr>cs_manifest = m, cs_manifest_key = key\<rparr>"
    using concl sw0 by (cases outcome) (auto simp: conclude_publish_def io_bind_Ok)
  have c1: "creates (view b) (view b1)" by (rule obeysD [OF compose_publish_added [OF laws] m])
  have c2: "creates (view b1) (view b2)" by (rule obeysD [OF stage_manifest_added [OF laws] st])
  have c: "creates (view b) (view b2)" by (rule creates_trans [OF c1 c2])
  have w: "write_effect ?pkey d (cas_precond ps) (view b2) (view b')"
    by (rule swap_pointer_Won [OF laws sw])
  then obtain e where v': "view b' = (view b2)(?pkey \<mapsto> (e, d))"
    and p: "precond_holds (cas_precond ps) (view b2 ?pkey)"
    by (auto simp: write_effect_def)
  have objs: "view b' k = view b2 k" if "object_key k" for k
    using that pointer_key_not_object [of community owner repo] by (auto simp: v')
  have pr: "proposes (view b1) g ps threshold m" by (rule compose_publish_Inr [OF laws m])
  have keep: "view b' k \<noteq> None" if "view b1 k \<noteq> None" for k
    using that creates_keeps [OF c2] by (auto simp: v')
  have "proposes (view b') g ps threshold m"
    using pr keep unfolding proposes_def by blast
  moreover have "staged cl js (view b') m d"
    using stage_manifest_Inr(1) [OF laws st] objs [OF object_keys(3) [of d]] by (simp add: staged_def)
  moreover have "key = ''manifests/'' @ d" by (rule stage_manifest_Inr(2) [OF laws st])
  moreover have "precond_holds (cas_precond ps) (view b ?pkey)"
    using p precond_after_creates [OF c] by simp
  moreover have "view b' ?pkey = Some (e, d)" by (simp add: v')
  moreover have "\<forall>k. \<not> object_key k \<longrightarrow> k \<noteq> ?pkey \<longrightarrow> view b' k = view b k"
    using creates_other [OF c] by (simp add: v')
  moreover have "\<forall>k x. view b k = Some x \<longrightarrow> k \<noteq> ?pkey \<longrightarrow> view b' k = Some x"
    using creates_keeps [OF c] by (simp add: v')
  ultimately show ?thesis unfolding committed_def ok by auto
qed

lemma read_winner_kept: "s3_laws cl view \<Longrightarrow> obeys (=) view (read_winner_after_conflict cl js pkey)"
  unfolding read_winner_after_conflict_def [abs_def] Let_def
  by (intro kept.rules get_pointer_kept get_verified_kept)

text \<open>The manifest a loser is shown is the one the pointer names, verified against its digest.\<close>

definition winner_shown ::
  "'b s3_client \<Rightarrow> json_lib \<Rightarrow> s3_view \<Rightarrow> string \<Rightarrow> Manifest \<Rightarrow> string \<Rightarrow> bool" where
  "winner_shown cl js v pkey w key \<longleftrightarrow>
     (\<exists>e body d e' x. v pkey = Some (e, body) \<and> pointer_digest body = Some d \<and>
        key = ''manifests/'' @ d \<and> v key = Some (e', x) \<and> s3_sha256_hex cl x = d \<and>
        from_bytes js x = Inr w)"

lemma read_winner_Inr:
  assumes laws: "s3_laws cl view"
    and run: "read_winner_after_conflict cl js pkey b = (Inr (w, key), b')"
  shows "winner_shown cl js (view b) pkey w key"
proof -
  obtain p b1 where g0: "get_pointer cl pkey b = (Inr p, b1)"
    using run by (auto simp: read_winner_after_conflict_def io_bind_Ok simp del: io_simps)
  with run obtain etag body where p: "p = Some (etag, body)"
    by (cases p) (auto simp: read_winner_after_conflict_def)
  note g = g0 [unfolded p]
  have u: "utf8_valid body" "length (trim body) = 64" "list_all is_ascii_hexdigit (trim body)"
    using run g by (auto simp: read_winner_after_conflict_def Let_def split: if_splits)
  obtain x b2 where k: "key = ''manifests/'' @ trim body"
    and v: "get_verified cl key (trim body) b1 = (Inr x, b2)" and f: "from_bytes js x = Inr w"
    using run g u by (auto simp: read_winner_after_conflict_def Let_def io_bind_Ok map_err_eq
        simp del: io_simps)
  have b1: "view b1 = view b" using get_pointer_view [OF laws, of pkey b] g by simp
  obtain e where e: "view b pkey = Some (e, body)" using get_pointer_Some [OF laws g] by blast
  obtain b3 where "get cl key b1 = (Inr x, b3)" and sha: "s3_sha256_hex cl x = trim body"
    using v by (auto simp: get_verified_def io_bind_Ok)
  then obtain e' where "view b key = Some (e', x)" using get_Inr [OF laws] b1 by metis
  with e u k f sha show ?thesis by (auto simp: winner_shown_def pointer_digest_def Let_def)
qed


text \<open>The errors an operation can end with, by the shape of the code.\<close>

definition fails_with :: "('e \<Rightarrow> bool) \<Rightarrow> ('b \<Rightarrow> ('e + 'a) \<times> 'b) \<Rightarrow> bool" where
  "fails_with P f \<longleftrightarrow> (\<forall>b e b'. f b = (Inl e, b') \<longrightarrow> P e)"

lemma fails_ret: "fails_with P (\<lambda>b. (Inr a, h b))"
  by (simp add: fails_with_def)

lemma fails_err: "P e \<Longrightarrow> fails_with P (\<lambda>b. (Inl e, h b))"
  by (simp add: fails_with_def)

lemma fails_lift: "(\<And>e. r = Inl e \<Longrightarrow> P e) \<Longrightarrow> fails_with P (io_lift r)"
  by (simp add: fails_with_def io_lift_def)

lemma fails_map_err: "(\<And>e. P (m e)) \<Longrightarrow> fails_with P (\<lambda>b. io_map_err m (f b))"
  by (auto simp: fails_with_def io_map_err_def map_err_eq)

lemma fails_bind:
  "fails_with P f \<Longrightarrow> (\<And>a. fails_with P (k a)) \<Longrightarrow> fails_with P (\<lambda>b. io_bind (f b) k)"
  by (auto simp: fails_with_def io_bind_def split: prod.splits sum.splits)

lemma fails_if:
  "fails_with P f \<Longrightarrow> fails_with P g \<Longrightarrow> fails_with P (\<lambda>b. if c then f b else g b)"
  by (cases c) simp_all

lemma fails_option:
  "fails_with P f \<Longrightarrow> (\<And>a. fails_with P (g a)) \<Longrightarrow>
     fails_with P (\<lambda>b. case x of None \<Rightarrow> f b | Some a \<Rightarrow> g a b)"
  by (cases x) simp_all

lemma fails_pair: "(\<And>a c. fails_with P (q a c)) \<Longrightarrow> fails_with P (case y of (a, c) \<Rightarrow> q a c)"
  by (cases y) simp

lemma fails_pair_fun: "(\<And>a c. fails_with P (q a c)) \<Longrightarrow> fails_with P (\<lambda>b. case y of (a, c) \<Rightarrow> q a c b)"
  by (cases y) simp

lemmas fails_with_rules = fails_ret fails_err fails_lift fails_map_err fails_bind fails_if
  fails_option fails_pair fails_pair_fun

definition no_conflict :: "CasError \<Rightarrow> bool" where
  "no_conflict e = (case e of Conflict _ _ \<Rightarrow> False | _ \<Rightarrow> True)"

lemma no_conflict_simps [simp]:
  "\<not> no_conflict (Conflict w k)" "no_conflict (ManifestReadFailed s)"
  "no_conflict (ManifestInvalid i)" "no_conflict (CasBackend e)" "no_conflict (PackCapture s)"
  "no_conflict (ResourceLimit s)"
  by (simp_all add: no_conflict_def)

lemma fails_no_conflict: "fails_with no_conflict f \<Longrightarrow> f b \<noteq> (Inl (Conflict w k), b')"
  by (metis fails_with_def no_conflict_simps(1))

lemma and_then_Inl: "and_then r f = Inl e \<longleftrightarrow> r = Inl e \<or> (\<exists>a. r = Inr a \<and> f a = Inl e)"
  by (cases r) auto

lemma snapshot_refs_no_conflict: "snapshot_refs ls rs = Inl e \<Longrightarrow> no_conflict e"
  by (induction ls rs rule: snapshot_refs.induct) (auto split: option.splits prod.splits if_splits)

lemma snapshot_no_conflict: "snapshot_workspace_state g = Inl e \<Longrightarrow> no_conflict e"
  by (auto simp: snapshot_workspace_state_def and_then_Inl map_err_eq snapshot_refs_no_conflict
      split: if_splits)

lemma capture_pack_no_conflict: "capture_pack g r r' n = Inl e \<Longrightarrow> no_conflict e"
  by (auto simp: capture_pack_def and_then_Inl map_err_eq Let_def split: if_splits)

lemma check_compacted_no_conflict: "check_compacted l ps acc = Inl e \<Longrightarrow> no_conflict e"
  by (induction l ps acc rule: check_compacted.induct) (auto simp: and_then_Inl split: if_splits)

lemma capture_compacted_no_conflict: "capture_compacted_packs g r l = Inl e \<Longrightarrow> no_conflict e"
  by (auto simp: capture_compacted_packs_def enforce_compaction_object_limit_def parse_count_def
      and_then_Inl map_err_eq check_compacted_no_conflict split: if_splits)

lemma digest_from_pack_key_no_conflict: "digest_from_pack_key k = Inl e \<Longrightarrow> no_conflict e"
  by (auto simp: digest_from_pack_key_def split: option.splits if_splits)

lemma digest_from_manifest_key_no_conflict: "digest_from_manifest_key k = Inl e \<Longrightarrow> no_conflict e"
  by (auto simp: digest_from_manifest_key_def split: option.splits)

lemmas no_conflict_facts = snapshot_no_conflict capture_pack_no_conflict capture_compacted_no_conflict
  digest_from_pack_key_no_conflict digest_from_manifest_key_no_conflict

lemma upload_packs_fails: "fails_with no_conflict (upload_packs cl ps)"
proof (induction ps)
  case Nil
  show ?case by (auto simp: fails_with_def)
next
  case (Cons p ps)
  have "fails_with no_conflict (\<lambda>b. let b = h b
      in io_bind (upload_packs cl ps b) (\<lambda>keys b. (Inr (k # keys), b)))" for h k
    using Cons by (auto simp: fails_with_def io_bind_def split: prod.splits sum.splits)
  then show ?case
    unfolding upload_packs.simps(2) [abs_def]
    by (intro fails_with_rules) (auto simp: map_err_eq no_conflict_facts)
qed

lemma try_compaction_fails: "fails_with no_conflict (try_compaction cl g refs limits n)"
  unfolding try_compaction_def [abs_def] prepare_compaction_def [abs_def]
    upload_compacted_packs_def [abs_def] Let_def
  by (intro fails_with_rules upload_packs_fails) (auto simp: no_conflict_facts)

lemma publish_delta_fails:
  "(\<And>e. f = Some e \<Longrightarrow> no_conflict e) \<Longrightarrow> fails_with no_conflict (publish_delta cl g limits ps refs f)"
  unfolding publish_delta_def [abs_def] Let_def
  by (intro fails_with_rules) (auto simp: no_conflict_facts split: option.splits)

lemma compose_publish_fails: "fails_with no_conflict (compose_publish cl g ps limits threshold)"
  unfolding fails_with_def
proof (intro allI impI)
  fix b e b'
  assume run: "compose_publish cl g ps limits threshold b = (Inl e, b')"
  show "no_conflict e"
  proof (cases "snapshot_workspace_state g")
    case (Inl e')
    with run snapshot_no_conflict show ?thesis by (auto simp: compose_publish_def)
  next
    case (Inr s)
    obtain refs observed where s: "s = (refs, observed)" by (cases s)
    let ?n = "length (m_packs (ps_parent ps))"
    obtain c b1 where mc: "maybe_compact cl g refs limits ?n threshold b = (c, b1)"
      by (cases "maybe_compact cl g refs limits ?n threshold b")
    have ce: "no_conflict x" if "c = Some (Inl x)" for x
      using that mc try_compaction_fails [of cl g refs limits ?n]
      unfolding fails_with_def maybe_compact_def by (metis fst_conv option.distinct(1) option.inject prod.collapse)
    have m: "compose_manifest cl g limits ps
        (resolve_published_head refs observed (m_head (ps_parent ps))) refs c b1 = (Inl e, b')"
      using run mc by (simp add: compose_publish_def Inr s)
    consider "c = None" | x where "c = Some (Inl x)" | ks k l where "c = Some (Inr (ks, k, l))"
      by (metis not_None_eq obj_sumE prod.exhaust)
    then show ?thesis
    proof cases
      case 1
      with m publish_delta_fails [of None cl g limits ps refs] show ?thesis
        by (auto simp: fails_with_def io_bind_def split: prod.splits sum.splits)
    next
      case (2 x)
      with m ce publish_delta_fails [of "Some x" cl g limits ps refs] show ?thesis
        by (auto simp: fails_with_def io_bind_def split: prod.splits sum.splits)
    next
      case 3
      with m show ?thesis by simp
    qed
  qed
qed

lemma stage_manifest_fails: "fails_with no_conflict (stage_manifest cl js m)"
  unfolding stage_manifest_def [abs_def]
  by (intro fails_with_rules) (auto simp: map_err_eq no_conflict_facts)

lemma read_winner_fails: "fails_with no_conflict (read_winner_after_conflict cl js pkey)"
  unfolding read_winner_after_conflict_def [abs_def] Let_def
  by (intro fails_with_rules) (auto simp: map_err_eq split: StoreError.splits)

lemma cas_publish_inner_Conflict:
  assumes laws: "s3_laws cl view"
    and run: "cas_publish_inner cl js g community owner repo ps limits threshold b =
      (Inl (Conflict w key), b')"
  shows "creates (view b) (view b') \<and>
    \<not> precond_holds (cas_precond ps) (view b (pointer_key community owner repo)) \<and>
    winner_shown cl js (view b') (pointer_key community owner repo) w key"
proof -
  let ?pkey = "pointer_key community owner repo"
  obtain m b1 where m: "compose_publish cl g ps limits threshold b = (Inr m, b1)"
    using run fails_no_conflict [OF compose_publish_fails, of cl g ps limits threshold b w key b']
    by (cases "fst (compose_publish cl g ps limits threshold b)";
        cases "compose_publish cl g ps limits threshold b")
      (auto simp: cas_publish_inner_def Let_def)
  obtain key' d b2 where st: "stage_manifest cl js m b1 = (Inr (key', d), b2)"
    using run m fails_no_conflict [OF stage_manifest_fails, of cl js m b1 w key b']
    by (cases "fst (stage_manifest cl js m b1)"; cases "stage_manifest cl js m b1")
      (auto simp: cas_publish_inner_def Let_def)
  obtain outcome b3 where sw0: "swap_pointer cl ?pkey ps d b2 = (Inr outcome, b3)"
    using run m st
    by (cases "fst (swap_pointer cl ?pkey ps d b2)"; cases "swap_pointer cl ?pkey ps d b2")
      (auto simp: cas_publish_inner_def Let_def)
  have concl: "conclude_publish cl js ?pkey m key' outcome b3 = (Inl (Conflict w key), b')"
    using run m st sw0 by (simp add: cas_publish_inner_def)
  then have o: "outcome = LostRace" by (cases outcome) (auto simp: conclude_publish_def)
  obtain x b4 where rw: "read_winner_after_conflict cl js ?pkey b3 = (x, b4)"
    by (cases "read_winner_after_conflict cl js ?pkey b3")
  have x: "x = Inr (w, key)" "b4 = b'"
    using concl rw o fails_no_conflict [OF read_winner_fails, of cl js ?pkey b3 w key b']
    by (cases x; auto simp: conclude_publish_def)+
  have c1: "creates (view b) (view b1)" by (rule obeysD [OF compose_publish_added [OF laws] m])
  have c2: "creates (view b1) (view b2)" by (rule obeysD [OF stage_manifest_added [OF laws] st])
  have c: "creates (view b) (view b2)" by (rule creates_trans [OF c1 c2])
  have b3: "view b3 = view b2" "\<not> precond_holds (cas_precond ps) (view b2 ?pkey)"
    by (rule swap_pointer_LostRace [OF laws sw0 [unfolded o]])+
  have b': "view b' = view b3"
    using obeysD [OF read_winner_kept [OF laws] rw] x by simp
  have "winner_shown cl js (view b3) ?pkey w key"
    by (rule read_winner_Inr [OF laws rw [unfolded x(1)]])
  then show ?thesis
    using c b3 b' precond_after_creates [OF c, of ?pkey] by simp
qed

section \<open>Concurrent publishes\<close>

record 'b world =
  w_store :: 'b
  w_loaded :: "ParentState set"
  w_composed :: "(ParentState \<times> Manifest) set"
  w_staged :: "(ParentState \<times> Manifest \<times> string) set"
  w_log :: "(string \<times> Manifest) list"

definition start :: "'b \<Rightarrow> 'b world" where
  "start b = \<lparr>w_store = b, w_loaded = {}, w_composed = {}, w_staged = {}, w_log = []\<rparr>"

definition parent_state_of :: "(ETag \<times> string \<times> Manifest) option \<Rightarrow> ParentState" where
  "parent_state_of p =
     (case p of Some (etag, digest, m) \<Rightarrow> ParentState_from_loaded etag digest m
      | None \<Rightarrow> ParentState_fresh)"

lemma hydrate_for_write_parent:
  assumes "hydrate_for_write cl js cache opt c owner repo b = (Inr (h, ps), b')"
  obtains p b1 where "load_pointer cl js c owner repo b = (Inr p, b1)" "ps = parent_state_of p"
  using assms
  by (auto simp: hydrate_for_write_def io_bind_Ok parent_state_of_def split: option.splits)

text \<open>The step of the other repositories: it may do anything but delete objects or touch the pointer.\<close>

definition elsewhere :: "string \<Rightarrow> s3_view \<Rightarrow> s3_view \<Rightarrow> bool" where
  "elsewhere pkey v v' \<longleftrightarrow>
     v' pkey = v pkey \<and> (\<forall>k x. object_key k \<longrightarrow> v k = Some x \<longrightarrow> v' k = Some x)"

text \<open>The pointer was written: the store said so, or the view shows it.\<close>

definition installed ::
  "s3_view \<Rightarrow> s3_view \<Rightarrow> StoreError + CasOutcome \<Rightarrow> bool" where
  "installed v v' r \<longleftrightarrow> (\<exists>e. r = Inr (Won e)) \<or> v' \<noteq> v"

inductive publish_step ::
  "'b s3_client \<Rightarrow> json_lib \<Rightarrow> ('b \<Rightarrow> s3_view) \<Rightarrow> CommunityId \<Rightarrow> string \<Rightarrow> string
     \<Rightarrow> 'b world \<Rightarrow> 'b world \<Rightarrow> bool"
  for cl js view c owner repo where
  load: "load_pointer cl js c owner repo (w_store w) = (Inr p, b') \<Longrightarrow>
    publish_step cl js view c owner repo w
      (w\<lparr>w_store := b', w_loaded := insert (parent_state_of p) (w_loaded w)\<rparr>)"
| compose: "ps \<in> w_loaded w \<Longrightarrow>
    compose_publish cl g ps limits PACK_COMPACTION_THRESHOLD (w_store w) = (Inr m, b') \<Longrightarrow>
    publish_step cl js view c owner repo w
      (w\<lparr>w_store := b', w_composed := insert (ps, m) (w_composed w)\<rparr>)"
| stage: "(ps, m) \<in> w_composed w \<Longrightarrow>
    stage_manifest cl js m (w_store w) = (Inr (key, d), b') \<Longrightarrow>
    publish_step cl js view c owner repo w
      (w\<lparr>w_store := b', w_staged := insert (ps, m, d) (w_staged w)\<rparr>)"
| swap: "(ps, m, d) \<in> w_staged w \<Longrightarrow>
    swap_pointer cl (pointer_key c owner repo) ps d (w_store w) = (r, b') \<Longrightarrow>
    publish_step cl js view c owner repo w
      (w\<lparr>w_store := b',
         w_log := (if installed (view (w_store w)) (view b') r then (d, m) # w_log w else w_log w)\<rparr>)"
| winner: "read_winner_after_conflict cl js (pointer_key c owner repo) (w_store w) = (r', b') \<Longrightarrow>
    publish_step cl js view c owner repo w (w\<lparr>w_store := b'\<rparr>)"
| other: "elsewhere (pointer_key c owner repo) (view (w_store w)) (view b') \<Longrightarrow>
    publish_step cl js view c owner repo w (w\<lparr>w_store := b'\<rparr>)"

fun linear_history :: "(string \<times> Manifest) list \<Rightarrow> bool" where
  "linear_history [] = True"
| "linear_history [(d, m)] = (m_parent m = None)"
| "linear_history ((d, m) # (d', m') # l) =
     (m_parent m = Some d' \<and> linear_history ((d', m') # l))"

definition pointer_at :: "s3_view \<Rightarrow> string \<Rightarrow> (string \<times> Manifest) list \<Rightarrow> bool" where
  "pointer_at v pkey l \<longleftrightarrow>
     (case l of [] \<Rightarrow> v pkey = None | (d, m) # _ \<Rightarrow> \<exists>e. v pkey = Some (e, d))"

text \<open>A parent state was observed: its ETag and digest come from one state of the store.\<close>

definition observed :: "('b \<Rightarrow> s3_view) \<Rightarrow> string \<Rightarrow> ParentState \<Rightarrow> bool" where
  "observed view pkey ps \<longleftrightarrow>
     (case ps_if_match ps of
        None \<Rightarrow> ps_parent_digest' ps = None
      | Some (ETag e) \<Rightarrow> \<exists>b d. view b pkey = Some (e, d) \<and> ps_parent_digest' ps = Some d)"

definition history_inv ::
  "'b s3_client \<Rightarrow> json_lib \<Rightarrow> ('b \<Rightarrow> s3_view) \<Rightarrow> string \<Rightarrow> 'b world \<Rightarrow> bool" where
  "history_inv cl js view pkey w \<longleftrightarrow>
     linear_history (w_log w) \<and> pointer_at (view (w_store w)) pkey (w_log w) \<and>
     (\<forall>(d, m)\<in>set (w_log w). staged cl js (view (w_store w)) m d) \<and>
     (\<forall>ps\<in>w_loaded w. observed view pkey ps) \<and>
     (\<forall>(ps, m)\<in>w_composed w. observed view pkey ps \<and> m_parent m = ps_parent_digest' ps) \<and>
     (\<forall>(ps, m, d)\<in>w_staged w. observed view pkey ps \<and> m_parent m = ps_parent_digest' ps \<and>
        staged cl js (view (w_store w)) m d)"

lemma staged_elsewhere: "staged cl js v m d \<Longrightarrow> elsewhere pkey v v' \<Longrightarrow> staged cl js v' m d"
  unfolding staged_def elsewhere_def by (metis not_None_eq object_keys(3))

lemma creates_elsewhere: "creates v v' \<Longrightarrow> \<not> object_key pkey \<Longrightarrow> elsewhere pkey v v'"
  by (simp add: elsewhere_def creates_other creates_keeps)

lemma history_inv_elsewhere:
  assumes "history_inv cl js view pkey w" "elsewhere pkey (view (w_store w)) (view b')"
  shows "history_inv cl js view pkey (w\<lparr>w_store := b'\<rparr>)"
proof -
  have "pointer_at (view b') pkey (w_log w)"
    using assms by (auto simp: history_inv_def pointer_at_def elsewhere_def split: list.splits)
  with assms(1) show ?thesis
    unfolding history_inv_def by (auto intro: staged_elsewhere [OF _ assms(2)])
qed

lemma digest_pointer: "is_manifest_digest d \<Longrightarrow> pointer_digest d = Some d"
proof -
  assume d: "is_manifest_digest d"
  then have h: "length d = 64" "list_all is_ascii_hexdigit d" by (simp_all add: manifest_digest_hex)
  then have "trim d = d"
    by (intro trim_no_space) (auto simp: list_all_iff hexdigit_not_space)
  with h d show "pointer_digest d = Some d" by (simp add: pointer_digest_def digest_utf8)
qed

lemma load_observed:
  assumes laws: "s3_laws cl view" and inv: "history_inv cl js view (pointer_key c owner repo) w"
    and load: "load_pointer cl js c owner repo (w_store w) = (Inr p, b')"
  shows "observed view (pointer_key c owner repo) (parent_state_of p)"
proof (cases p)
  case None
  then show ?thesis by (simp add: observed_def parent_state_of_def ParentState_fresh_def)
next
  case (Some q)
  obtain etag d m where q: "q = (etag, d, m)" by (cases q)
  obtain e body where e: "etag = ETag e" "view (w_store w) (pointer_key c owner repo) = Some (e, body)"
    and d: "pointer_digest body = Some d"
    using load_pointer_Some [OF laws load [unfolded Some q]] by blast
  obtain m' where "(body, m') \<in> set (w_log w)"
    using inv e by (auto simp: history_inv_def pointer_at_def split: list.splits)
  then have "is_manifest_digest body"
    using inv staged_digest [OF laws] by (auto simp: history_inv_def)
  with d have "body = d" using digest_pointer by simp
  with e show ?thesis
    by (auto simp: Some q observed_def parent_state_of_def ParentState_from_loaded_def)
qed

text \<open>A write whose condition holds replaces the very manifest its proposer had loaded.\<close>

lemma swap_extends:
  assumes laws: "s3_laws cl view" and inv: "history_inv cl js view pkey w"
    and st: "(ps, m, d) \<in> w_staged w"
    and p: "precond_holds (cas_precond ps) (view (w_store w) pkey)"
  shows "linear_history ((d, m) # w_log w)"
proof (cases "w_log w")
  case Nil
  with inv p have "ps_if_match ps = None"
    by (auto simp: history_inv_def pointer_at_def precond_holds_def cas_precond_def
        split: option.splits ETag.splits)
  with inv st Nil show ?thesis by (auto simp: history_inv_def observed_def)
next
  case (Cons dm l)
  obtain d0 m0 where dm: "dm = (d0, m0)" by (cases dm)
  obtain e0 where cur: "view (w_store w) pkey = Some (e0, d0)"
    using inv by (auto simp: history_inv_def pointer_at_def Cons dm)
  with p have m: "ps_if_match ps = Some (ETag e0)"
    by (auto simp: precond_holds_def cas_precond_def split: option.splits ETag.splits)
  with inv st obtain b d1 where "view b pkey = Some (e0, d1)" "ps_parent_digest' ps = Some d1"
    by (force simp: history_inv_def observed_def)
  moreover from this(1) cur have "d1 = d0" by (rule etag_body [OF laws])
  ultimately have "m_parent m = Some d0" using inv st by (force simp: history_inv_def)
  with inv show ?thesis by (simp add: history_inv_def Cons dm)
qed

lemma write_elsewhere_objects:
  "write_effect pkey d p v v' \<Longrightarrow> \<not> object_key pkey \<Longrightarrow> staged cl js v m d' \<Longrightarrow> staged cl js v' m d'"
  by (auto simp: write_effect_def staged_def)

lemma history_inv_step:
  assumes laws: "s3_laws cl view"
  shows "publish_step cl js view c owner repo w w' \<Longrightarrow>
     history_inv cl js view (pointer_key c owner repo) w \<Longrightarrow>
     history_inv cl js view (pointer_key c owner repo) w'"
proof (induction rule: publish_step.induct)
  case (load w p b')
  then have v: "view b' = view (w_store w)" using load_pointer_view [OF laws] by metis
  with load load_observed [OF laws load(2,1)] show ?case by (auto simp: history_inv_def)
next
  case (compose ps w g limits m b')
  have "creates (view (w_store w)) (view b')"
    by (rule obeysD [OF compose_publish_added [OF laws] compose(2)])
  then have "history_inv cl js view (pointer_key c owner repo) (w\<lparr>w_store := b'\<rparr>)"
    by (intro history_inv_elsewhere compose(3) creates_elsewhere) simp_all
  moreover have "m_parent m = ps_parent_digest' ps"
    using compose_publish_Inr [OF laws compose(2)] by (simp add: proposes_def)
  ultimately show ?case using compose(1) by (auto simp: history_inv_def)
next
  case (stage ps m w key d b')
  have "creates (view (w_store w)) (view b')"
    by (rule obeysD [OF stage_manifest_added [OF laws] stage(2)])
  then have "history_inv cl js view (pointer_key c owner repo) (w\<lparr>w_store := b'\<rparr>)"
    by (intro history_inv_elsewhere stage(3) creates_elsewhere) simp_all
  with stage(1) stage_manifest_Inr(1) [OF laws stage(2)] show ?case by (auto simp: history_inv_def)
next
  case (swap ps m d w r b')
  let ?pkey = "pointer_key c owner repo"
  consider (same) "view b' = view (w_store w)" "\<not> installed (view (w_store w)) (view b') r"
    | (written) "write_effect ?pkey d (cas_precond ps) (view (w_store w)) (view b')"
        "installed (view (w_store w)) (view b') r"
    using swap_pointer_any [OF laws swap(2)] swap_pointer_Won [OF laws, of ?pkey ps d "w_store w"] swap(2)
    by (auto simp: installed_def)
  then show ?case
  proof cases
    case same
    with swap(3) show ?thesis by (simp add: history_inv_def)
  next
    case written
    then have p: "precond_holds (cas_precond ps) (view (w_store w) ?pkey)"
      and v: "\<exists>e. view b' ?pkey = Some (e, d)" by (auto simp: write_effect_def)
    have keep: "staged cl js (view (w_store w)) m' d' \<Longrightarrow> staged cl js (view b') m' d'" for m' d'
      by (rule write_elsewhere_objects [OF written(1)]) simp
    show ?thesis
      using swap(1,3) written(2) v swap_extends [OF laws swap(3,1) p]
      by (auto simp: history_inv_def pointer_at_def intro: keep)
  qed
next
  case (winner w r' b')
  then have "view b' = view (w_store w)" using obeysD [OF read_winner_kept [OF laws]] by metis
  with winner show ?case by (simp add: history_inv_def)
next
  case (other w b')
  then show ?case by (simp add: history_inv_elsewhere)
qed

lemma history_inv_start: "view b pkey = None \<Longrightarrow> history_inv cl js view pkey (start b)"
  by (simp add: history_inv_def start_def pointer_at_def)

lemma history_inv_reachable:
  assumes "s3_laws cl view" "view b (pointer_key c owner repo) = None"
    "(publish_step cl js view c owner repo)\<^sup>*\<^sup>* (start b) w"
  shows "history_inv cl js view (pointer_key c owner repo) w"
  using assms(3) by (induction rule: rtranclp_induct)
    (auto intro: history_inv_start [where view = view] assms(2) history_inv_step [OF assms(1)])

end
