(* ===== verification/GitPublished.thy ===== *)
theory GitPublished
  imports GitHistory "HOL-Library.Code_Target_Nat"
begin

text \<open>
  The properties of a publish that span writing and reading, and a small concrete store and
  serialiser that satisfy the assumed laws, on which the examples run.
\<close>

section \<open>Reading back\<close>

text \<open>A store that answers reads of what it holds.\<close>

definition answers_reads :: "'b s3_client \<Rightarrow> ('b \<Rightarrow> s3_view) \<Rightarrow> bool" where
  "answers_reads cl view \<longleftrightarrow>
     (\<forall>b k e x. view b k = Some (e, x) \<longrightarrow>
        fst (s3_get cl b k) = Inr \<lparr>rs_status = 200, rs_etag = Some e, rs_body = x\<rparr> \<and>
        fst (s3_head cl b k) = Inr (Some (int (length x)), 200))"

lemma oversized: "4194304 < n \<Longrightarrow> MAX_MANIFEST_BYTES < u64_of_len n"
  by (auto simp: u64_of_len_def u64_of_int_def MAX_MANIFEST_BYTES_def word_less_nat_alt unat_of_nat
      take_bit_nat_eq_self)

lemma get_limited_reads:
  assumes laws: "s3_laws cl view" and rd: "answers_reads cl view" and x: "view b k = Some (e, x)"
  shows "fst (get_limited cl k n b) =
    (if u64_of_len (length x) > n then Inl (ObjectTooLarge k (u64_of_len (length x)) n) else Inr x)"
proof -
  obtain b1 where h: "s3_head cl b k = (Inr (Some (int (length x)), 200), b1)"
    using rd x unfolding answers_reads_def by (metis prod.collapse)
  have "view b1 = view b" using s3_get_view(2) [OF laws, of b k] h by simp
  then obtain b2 where "s3_get cl b1 k = (Inr \<lparr>rs_status = 200, rs_etag = Some e, rs_body = x\<rparr>, b2)"
    using rd x unfolding answers_reads_def by (metis prod.collapse)
  with h show ?thesis by (simp add: get_limited_def get_def is_2xx_def u64_of_len_def)
qed

lemma load_pointer_reads:
  assumes laws: "s3_laws cl view" and rd: "answers_reads cl view"
    and p: "view b (pointer_key c owner repo) = Some (e, d)" "is_manifest_digest d"
    and x: "view b (''manifests/'' @ d) = Some (e', x)" "s3_sha256_hex cl x = d"
    and m: "from_bytes js x = Inr m" "wf_manifest m"
  shows "fst (load_pointer cl js c owner repo b) =
    (if u64_of_len (length x) > MAX_MANIFEST_BYTES
     then Inl (HydrateLimit (''object manifests/'' @ d @ '' is '' @ show_u64 (u64_of_len (length x)) @
            '' bytes (max '' @ show_u64 MAX_MANIFEST_BYTES @ '')''))
     else Inr (Some (ETag e, d, m)))"
proof -
  obtain b1 where g: "get_pointer cl (pointer_key c owner repo) b = (Inr (Some (ETag e, d)), b1)"
    using rd p(1) unfolding answers_reads_def get_pointer_def
    by (cases "s3_get cl b (pointer_key c owner repo)") fastforce
  have b1: "view b1 = view b" using get_pointer_view [OF laws, of "pointer_key c owner repo" b] g by simp
  obtain r b2 where l: "get_limited cl (''manifests/'' @ d) MAX_MANIFEST_BYTES b1 = (r, b2)"
    by (cases "get_limited cl (''manifests/'' @ d) MAX_MANIFEST_BYTES b1")
  have r: "r = (if u64_of_len (length x) > MAX_MANIFEST_BYTES
      then Inl (ObjectTooLarge (''manifests/'' @ d) (u64_of_len (length x)) MAX_MANIFEST_BYTES)
      else Inr x)"
    using get_limited_reads [OF laws rd, of b1] x(1) b1 l by (metis fst_conv)
  have v: "validate m = Inr ()" using m(2) by (simp add: validate_Ok)
  show ?thesis
    using r l g digest_pointer [OF p(2)] x(2) m(1) v
    by (auto simp: load_pointer_def hydrate_get_verified_def get_verified_limited_def check_digest_def
        simp del: append.simps)
qed

definition collision_free :: "'b s3_client \<Rightarrow> json_lib \<Rightarrow> s3_view \<Rightarrow> Manifest \<Rightarrow> bool" where
  "collision_free cl js v m \<longleftrightarrow>
     (\<forall>x e y. canonical_bytes js m = Inr x \<longrightarrow>
        v (''manifests/'' @ s3_sha256_hex cl x) = Some (e, y) \<longrightarrow> y = x)"

lemma committed_parses:
  assumes js: "json_laws js" and ok: "committed cl js g pkey ps th v v' ok"
  obtains x where "canonical_bytes js (cs_manifest ok) = Inr x"
    "from_bytes js x = Inr (cs_manifest ok)" "wf_manifest (cs_manifest ok)"
proof -
  let ?m = "cs_manifest ok"
  have pr: "proposes v' g ps th ?m" and wf: "wf_manifest ?m"
    using ok by (auto simp: committed_def staged_def)
  have "bt_ok (m_refs ?m)" using pr snapshot_sorted by (auto simp: proposes_def)
  then obtain x where "canonical_bytes js ?m = Inr x"
    "js_from_slice js x = Inr (?m\<lparr>m_packs := sort_dedup (m_packs ?m)\<rparr>)"
    using canonical_bytes_Ok [OF js wf_manifest_value [OF wf]] by blast
  with pr wf show thesis by (intro that) (auto simp: proposes_def from_bytes_def)
qed

section \<open>A concrete store and serialiser\<close>

text \<open>
  A key-value map whose ETag is the body and which answers every request, and a serialiser that
  escapes each character. The digest is constant, which the laws allow.
\<close>

type_synonym mem = "(string \<times> string) list"

definition mem_view :: "mem \<Rightarrow> s3_view" where
  "mem_view b k = map_option (\<lambda>x. (x, x)) (map_of b k)"

definition mem_precond :: "Precond \<Rightarrow> string option \<Rightarrow> bool" where
  "mem_precond p cur = (case p of IfNoneMatchStar \<Rightarrow> cur = None | IfMatch (ETag e) \<Rightarrow> cur = Some e)"

definition mem_client :: "mem s3_client" where
  "mem_client =
     \<lparr>s3_get = (\<lambda>b k. (case map_of b k of
          None \<Rightarrow> Inl (HttpFailWithBody 404 [])
        | Some x \<Rightarrow> Inr \<lparr>rs_status = 200, rs_etag = Some x, rs_body = x\<rparr>, b)),
      s3_head = (\<lambda>b k. (case map_of b k of
          None \<Rightarrow> Inl (HttpFailWithBody 404 [])
        | Some x \<Rightarrow> Inr (Some (int (length x)), 200), b)),
      s3_put = (\<lambda>b k x p.
        if mem_precond p (map_of b k)
        then (Inr \<lparr>rs_status = 200, rs_etag = Some x, rs_body = []\<rparr>, (k, x) # b)
        else (Inl (HttpFailWithBody 412 []), b)),
      s3_sha256_hex = (\<lambda>_. replicate 64 CHR ''a''),
      s3_header_value = (\<lambda>_. True)\<rparr>"

lemma mem_laws: "s3_laws mem_client mem_view"
proof -
  have d: "is_manifest_digest (replicate 64 CHR ''a'')"
    by (simp add: is_manifest_digest_def is_lower_hexdigit_def list_all_iff)
  show ?thesis
    unfolding s3_laws_def
    by (intro conjI allI; (simp add: mem_client_def d; fail)?)
      (auto simp: mem_client_def mem_view_def get_answer_def put_answer_def write_effect_def
        mem_precond_def precond_holds_def is_2xx_def fun_eq_iff d
        split: option.splits Precond.splits ETag.splits, metis not_Some_eq)
qed

lemma mem_answers: "answers_reads mem_client mem_view"
  by (auto simp: answers_reads_def mem_client_def mem_view_def)

fun enc_string :: "string \<Rightarrow> string" where
  "enc_string [] = ''-''"
| "enc_string (c # s) = CHR ''+'' # c # enc_string s"

fun dec_strings :: "string \<Rightarrow> string list" where
  "dec_strings (t # s) =
     (if t = CHR ''-'' then [] # dec_strings s
      else (case s of
              c # s' \<Rightarrow> (case dec_strings s' of w # ws \<Rightarrow> (c # w) # ws | [] \<Rightarrow> [])
            | [] \<Rightarrow> []))"
| "dec_strings [] = []"

lemma dec_enc: "dec_strings (enc_string s @ r) = s # dec_strings r"
  by (induction s) simp_all

lemma dec_enc_list: "dec_strings (concat (map enc_string ss)) = ss"
  by (induction ss) (simp_all add: dec_enc)

fun dec_refs :: "nat \<Rightarrow> string list \<Rightarrow> (string \<times> string) list \<times> string list" where
  "dec_refs n (a # b # ss) =
     (if n = 0 then ([], a # b # ss)
      else (case dec_refs (n - 1) ss of (rs, rest) \<Rightarrow> ((a, b) # rs, rest)))"
| "dec_refs n ss = ([], ss)"

lemma dec_refs_enc: "dec_refs (length rs) (concat (map (\<lambda>(a, b). [a, b]) rs) @ ps) = (rs, ps)"
proof (induction rs)
  case Nil
  show ?case by (cases ps rule: remdups_adj.cases) simp_all
qed auto

definition mem_json :: "string \<Rightarrow> json_lib" where
  "mem_json pad =
     \<lparr>js_to_vec = (\<lambda>m. Inr (concat (map enc_string
        ([pad, show_nat (unat (m_version m)), m_head m,
          (case m_parent m of None \<Rightarrow> [] | Some p \<Rightarrow> CHR ''p'' # p), show_nat (length (m_refs m))] @
         concat (map (\<lambda>(a, b). [a, b]) (m_refs m)) @ m_packs m)))),
      js_from_slice = (\<lambda>s. case dec_strings s of
          _ # v # h # p # n # rest \<Rightarrow>
            (case dec_refs (digits_value n) rest of (refs, packs) \<Rightarrow>
               Inr \<lparr>m_version = of_nat (digits_value v), m_head = h, m_refs = refs, m_packs = packs,
                    m_parent = (if p = [] then None else Some (tl p))\<rparr>)
        | _ \<Rightarrow> Inl ''truncated'')\<rparr>"

lemma mem_json_laws: "json_laws (mem_json pad)"
  unfolding json_laws_def mem_json_def
  by (auto simp: dec_enc dec_enc_list [unfolded o_def] dec_refs_enc simp flip: concat_append map_append
      split: option.splits)

text \<open>A workspace with one branch and a pack, and the state of the store after its first push.\<close>

definition ex_git :: git_ops where
  "ex_git = \<lparr>go_for_each_ref = Inr (''refs/heads/main '' @ replicate 40 CHR ''1'' @ newline),
     go_symbolic_ref = Inr (Some (''refs/heads/master'' @ newline)),
     go_pack_objects = (\<lambda>_. Inr ''PACK''), go_index_pack = (\<lambda>_. Inr ''IDX''),
     go_count_objects = Inr [], go_compact = (\<lambda>_. Inr []), go_permit_error = None,
     go_timeout = None\<rparr>"

definition ex_limits :: PublishLimits where
  "ex_limits = \<lparr>pl_parent_hydrated_bytes = 0, pl_max_pack_bytes = 1000, pl_max_repo_bytes = 1000\<rparr>"

definition ex_community :: CommunityId where "ex_community = CommunityId ''c1''"

definition ex_manifest :: Manifest where
  "ex_manifest = \<lparr>m_version = 1, m_head = ''refs/heads/main'',
     m_refs = [(''refs/heads/main'', replicate 40 CHR ''1'')],
     m_packs = [''packs/'' @ replicate 64 CHR ''a''], m_parent = None\<rparr>"

definition ex_digest :: string where "ex_digest = replicate 64 CHR ''a''"

definition ex_ok :: CasSuccess where
  "ex_ok = \<lparr>cs_manifest = ex_manifest, cs_manifest_key = ''manifests/'' @ ex_digest\<rparr>"

definition ex_pointer :: string where "ex_pointer = ''repos/c1/alice/app/pointer''"

definition ex_packed :: mem where
  "ex_packed = [(''idx/'' @ ex_digest, ''IDX''), (''packs/'' @ ex_digest, ''PACK'')]"

lemma ex_pointer_key: "pointer_key ex_community ''alice'' ''app'' = ex_pointer"
  by code_simp

lemma ex_compose:
  "compose_publish mem_client ex_git ParentState_fresh ex_limits PACK_COMPACTION_THRESHOLD [] =
     (Inr ex_manifest, ex_packed)"
  by code_simp

lemma ex_validate: "validate ex_manifest = Inr ()"
  by code_simp

definition ex_staged :: "string \<Rightarrow> mem" where
  "ex_staged x = (''manifests/'' @ ex_digest, x) # ex_packed"

definition ex_published :: "string \<Rightarrow> mem" where
  "ex_published x = (ex_pointer, ex_digest) # ex_staged x"

lemma ex_put_manifest:
  "put_manifest mem_client x ex_packed = (Inr (''manifests/'' @ ex_digest), ex_staged x)"
  by (simp add: put_manifest_def put_immutable_def create_only_def content_key_def mem_client_def
      mem_precond_def is_2xx_def ex_packed_def ex_staged_def flip: ex_digest_def)

lemma ex_stage:
  assumes "canonical_bytes (mem_json pad) ex_manifest = Inr x"
  shows "stage_manifest mem_client (mem_json pad) ex_manifest ex_packed =
    (Inr (''manifests/'' @ ex_digest, ex_digest), ex_staged x)"
proof -
  have "digest_from_manifest_key (''manifests/'' @ ex_digest) = Inr ex_digest"
    by (simp only: digest_from_manifest_key_Inr)
  then show ?thesis
    by (simp add: stage_manifest_def assms ex_validate ex_put_manifest
        del: append.simps digest_from_manifest_key_Inr)
qed

lemma ex_swap:
  "swap_pointer mem_client ex_pointer ParentState_fresh ex_digest (ex_staged x) =
    (Inr (Won (ETag ex_digest)), ex_published x)"
  by (simp add: swap_pointer_def put_pointer_def cas_precond_def ParentState_fresh_def mem_client_def
      mem_precond_def classify_cas_def is_2xx_def ex_staged_def ex_packed_def ex_published_def
      ex_pointer_def)

lemma ex_publish:
  assumes "canonical_bytes (mem_json pad) ex_manifest = Inr x"
  shows "cas_publish mem_client (mem_json pad) ex_git ex_community ''alice'' ''app''
      ParentState_fresh ex_limits [] = (Inr ex_ok, ex_published x)"
  by (simp add: cas_publish_def cas_publish_inner_def ex_compose ex_pointer_key ex_stage [OF assms]
      ex_swap conclude_publish_def ex_ok_def)

lemma ex_bytes: "\<exists>x. canonical_bytes (mem_json pad) ex_manifest = Inr x \<and> length pad < length x"
proof -
  have "length pad < length (enc_string pad)" by (induction pad) simp_all
  then show ?thesis by (simp add: canonical_bytes_def mem_json_def)
qed

section \<open>Properties\<close>

text \<open>
  C37. A publish that succeeds has committed exactly what it says: the pointer names the digest of a
  stored, valid manifest, whose refs are the snapshot of the workspace, whose HEAD is resolved from
  it, whose parent is the digest the push was hydrated from and whose packs extend the parent's
  packs or, when the parent had reached the compaction threshold, are all stored compacted packs.
  The pointer satisfied the condition on the ETag just before. No other pointer changes, and no
  object changes or disappears.
\<close>

theorem cas_publish_commits:
  assumes "s3_laws cl view"
    and "cas_publish cl js g community owner repo ps limits b = (Inr ok, b')"
  shows "committed cl js g (pointer_key community owner repo) ps PACK_COMPACTION_THRESHOLD
    (view b) (view b') ok"
  using cas_publish_inner_Inr [OF assms(1)] assms(2) by (simp add: cas_publish_def)

theorem cas_publish_commits_witness:
  "\<exists>x. committed mem_client (mem_json []) ex_git (pointer_key ex_community ''alice'' ''app'')
     ParentState_fresh PACK_COMPACTION_THRESHOLD (mem_view []) (mem_view (ex_published x)) ex_ok"
  using ex_bytes [of "[]"] cas_publish_commits [OF mem_laws ex_publish] by blast

text \<open>
  A publish answers Conflict only when the pointer no longer satisfied the condition of the push,
  and then it has added content-addressed objects at most: no pointer has changed. The manifest it
  reports is the one the pointer names, checked against its digest.
\<close>

theorem cas_publish_conflict:
  assumes "s3_laws cl view"
    and "cas_publish cl js g community owner repo ps limits b = (Inl (Conflict w key), b')"
  shows "creates (view b) (view b') \<and>
    \<not> precond_holds (cas_precond ps) (view b (pointer_key community owner repo)) \<and>
    winner_shown cl js (view b') (pointer_key community owner repo) w key"
  using cas_publish_inner_Conflict [OF assms(1)] assms(2) by (simp add: cas_publish_def)

text \<open>
  C3. Any interleaving of concurrent pushes publishes one linear history: every manifest the pointer has
  named carries as its parent the digest of the one before it, the first has none, the pointer names
  the newest, and all of them stay stored and are valid. No publish is lost and no fork arises.
\<close>

theorem publish_history_linear:
  assumes "s3_laws cl view" "view b (pointer_key community owner repo) = None"
    and "(publish_step cl js view community owner repo)\<^sup>*\<^sup>* (start b) w"
  shows "linear_history (w_log w) \<and>
    pointer_at (view (w_store w)) (pointer_key community owner repo) (w_log w) \<and>
    (\<forall>(d, m)\<in>set (w_log w). staged cl js (view (w_store w)) m d)"
  using history_inv_reachable [OF assms] by (simp add: history_inv_def)

text \<open>
  C5. What a publish wrote can be read back: on a store that answers reads, and with no other object
  under the same digest, loading the pointer after a successful publish returns the very manifest
  published, unless its serialised form exceeds the limit that readers impose.
\<close>

theorem published_reads_back:
  assumes laws: "s3_laws cl view" and js: "json_laws js" and rd: "answers_reads cl view"
    and run: "cas_publish cl js g community owner repo ps limits b = (Inr ok, b')"
    and fresh: "collision_free cl js (view b') (cs_manifest ok)"
    and x: "canonical_bytes js (cs_manifest ok) = Inr x"
  shows "if u64_of_len (length x) > MAX_MANIFEST_BYTES
    then \<exists>msg. fst (load_pointer cl js community owner repo b') = Inl (HydrateLimit msg)
    else \<exists>etag d. fst (load_pointer cl js community owner repo b') =
           Inr (Some (etag, d, cs_manifest ok))"
proof -
  let ?m = "cs_manifest ok"
  have c: "committed cl js g (pointer_key community owner repo) ps PACK_COMPACTION_THRESHOLD
      (view b) (view b') ok"
    using cas_publish_inner_Inr [OF laws] run by (simp add: cas_publish_def)
  then obtain d e where p: "view b' (pointer_key community owner repo) = Some (e, d)"
    and st: "staged cl js (view b') ?m d" by (auto simp: committed_def)
  obtain e' y where y: "view b' (''manifests/'' @ d) = Some (e', y)" and d: "d = s3_sha256_hex cl x"
    using st x by (auto simp: staged_def)
  have "y = x" using fresh x y d unfolding collision_free_def by blast
  with y have xs: "view b' (''manifests/'' @ d) = Some (e', x)" by simp
  obtain x' where "canonical_bytes js ?m = Inr x'" "from_bytes js x' = Inr ?m" "wf_manifest ?m"
    by (rule committed_parses [OF js c])
  with x have m: "from_bytes js x = Inr ?m" "wf_manifest ?m" by simp_all
  show ?thesis
    using load_pointer_reads [OF laws rd p staged_digest [OF laws st] xs d [symmetric] m] by auto
qed

lemma ex_collision_free:
  assumes "canonical_bytes (mem_json pad) ex_manifest = Inr x"
  shows "collision_free mem_client (mem_json pad) (mem_view (ex_published x)) ex_manifest"
  using assms
  by (auto simp: collision_free_def mem_client_def mem_view_def ex_published_def ex_staged_def
      ex_pointer_def simp flip: ex_digest_def)

lemma ex_small: "\<exists>x. canonical_bytes (mem_json []) ex_manifest = Inr x \<and>
    \<not> u64_of_len (length x) > MAX_MANIFEST_BYTES"
proof -
  have "case canonical_bytes (mem_json []) ex_manifest of
      Inr x \<Rightarrow> \<not> u64_of_len (length x) > MAX_MANIFEST_BYTES | Inl _ \<Rightarrow> False"
    by code_simp
  then show ?thesis by (auto split: sum.splits)
qed

text \<open>One manifest small enough to read back, one that is published and cannot be read.\<close>

theorem published_reads_back_witness:
  "(\<exists>x etag d. fst (load_pointer mem_client (mem_json []) ex_community ''alice'' ''app''
      (ex_published x)) = Inr (Some (etag, d, ex_manifest))) \<and>
   (\<exists>x msg. fst (cas_publish mem_client (mem_json (replicate 4194305 CHR ''x'')) ex_git ex_community
        ''alice'' ''app'' ParentState_fresh ex_limits []) = Inr ex_ok \<and>
      fst (load_pointer mem_client (mem_json (replicate 4194305 CHR ''x'')) ex_community
        ''alice'' ''app'' (ex_published x)) = Inl (HydrateLimit msg))"
proof
  obtain x where x: "canonical_bytes (mem_json []) ex_manifest = Inr x"
    "\<not> u64_of_len (length x) > MAX_MANIFEST_BYTES" using ex_small by blast
  have "\<exists>etag d. fst (load_pointer mem_client (mem_json []) ex_community ''alice'' ''app''
      (ex_published x)) = Inr (Some (etag, d, ex_manifest))"
    using published_reads_back [OF mem_laws mem_json_laws mem_answers ex_publish [OF x(1)]]
      ex_collision_free [OF x(1)] x by (simp add: ex_ok_def)
  then show "\<exists>x etag d. fst (load_pointer mem_client (mem_json []) ex_community ''alice'' ''app''
      (ex_published x)) = Inr (Some (etag, d, ex_manifest))" by blast
next
  let ?js = "mem_json (replicate 4194305 CHR ''x'')"
  obtain x where x: "canonical_bytes ?js ex_manifest = Inr x"
    "length (replicate 4194305 CHR ''x'') < length x" using ex_bytes by blast
  then have "MAX_MANIFEST_BYTES < u64_of_len (length x)" by (intro oversized) simp
  then have "\<exists>msg. fst (load_pointer mem_client ?js ex_community ''alice'' ''app'' (ex_published x)) =
      Inl (HydrateLimit msg)"
    using published_reads_back [OF mem_laws mem_json_laws mem_answers ex_publish [OF x(1)]]
      ex_collision_free [OF x(1)] x(1) by (simp add: ex_ok_def)
  then show "\<exists>x msg. fst (cas_publish mem_client ?js ex_git ex_community
        ''alice'' ''app'' ParentState_fresh ex_limits []) = Inr ex_ok \<and>
      fst (load_pointer mem_client ?js ex_community ''alice'' ''app'' (ex_published x)) =
        Inl (HydrateLimit msg)"
    using ex_publish [OF x(1)] by auto
qed

text \<open>Two pushes load the empty repository; the first publishes, the second is told it lost.\<close>

lemma ex_load: "load_pointer mem_client js ex_community ''alice'' ''app'' [] = (Inr None, [])"
  by (simp add: load_pointer_def get_pointer_def mem_client_def)

lemma ex_history:
  assumes x: "canonical_bytes (mem_json []) ex_manifest = Inr x"
  shows "\<exists>w. (publish_step mem_client (mem_json []) mem_view ex_community ''alice'' ''app'')\<^sup>*\<^sup>*
      (start []) w \<and> w_store w = ex_published x \<and> w_log w = [(ex_digest, ex_manifest)]"
proof -
  let ?step = "publish_step mem_client (mem_json []) mem_view ex_community ''alice'' ''app''"
  let ?f = "ParentState_fresh"
  let ?w1 = "(start [] :: mem world)\<lparr>w_store := [], w_loaded := {?f}\<rparr>"
  let ?w2 = "?w1\<lparr>w_store := ex_packed, w_composed := {(?f, ex_manifest)}\<rparr>"
  let ?w3 = "?w2\<lparr>w_store := ex_staged x, w_staged := {(?f, ex_manifest, ex_digest)}\<rparr>"
  let ?w4 = "?w3\<lparr>w_store := ex_published x, w_log := [(ex_digest, ex_manifest)]\<rparr>"
  have "?step (start []) ?w1"
    using publish_step.load [where cl = mem_client and js = "mem_json []" and view = mem_view
        and c = ex_community and owner = "''alice''" and repo = "''app''"
        and w = "start []" and p = None and b' = "[]"] ex_load
    by (simp add: start_def parent_state_of_def)
  moreover have "?step ?w1 ?w2"
    using publish_step.compose [where cl = mem_client and js = "mem_json []" and view = mem_view
        and c = ex_community and owner = "''alice''" and repo = "''app''"
        and w = ?w1 and ps = ?f and g = ex_git and limits = ex_limits
        and m = ex_manifest and b' = ex_packed] ex_compose by (simp add: start_def)
  moreover have "?step ?w2 ?w3"
    using publish_step.stage [where cl = mem_client and js = "mem_json []" and view = mem_view
        and c = ex_community and owner = "''alice''" and repo = "''app''"
        and w = ?w2 and ps = ?f and m = ex_manifest and d = ex_digest
        and key = "''manifests/'' @ ex_digest" and b' = "ex_staged x"] ex_stage [OF x]
    by (simp add: start_def)
  moreover have "?step ?w3 ?w4"
    using publish_step.swap [where cl = mem_client and js = "mem_json []" and view = mem_view
        and c = ex_community and owner = "''alice''" and repo = "''app''"
        and w = ?w3 and ps = ?f and m = ex_manifest and d = ex_digest
        and r = "Inr (Won (ETag ex_digest))" and b' = "ex_published x"] ex_swap
    by (simp add: start_def ex_pointer_key installed_def)
  ultimately have "?step\<^sup>*\<^sup>* (start []) ?w4"
    by (meson converse_rtranclp_into_rtranclp rtranclp.rtrancl_refl)
  then show ?thesis by force
qed

theorem publish_history_linear_witness:
  "\<exists>x. pointer_at (mem_view (ex_published x)) ex_pointer [(ex_digest, ex_manifest)] \<and>
     staged mem_client (mem_json []) (mem_view (ex_published x)) ex_manifest ex_digest"
proof -
  obtain x where x: "canonical_bytes (mem_json []) ex_manifest = Inr x" using ex_bytes by blast
  obtain w where w: "(publish_step mem_client (mem_json []) mem_view ex_community ''alice'' ''app'')\<^sup>*\<^sup>*
      (start []) w" "w_store w = ex_published x" "w_log w = [(ex_digest, ex_manifest)]"
    using ex_history [OF x] by blast
  have "mem_view [] k = None" for k by (simp add: mem_view_def)
  from publish_history_linear [OF mem_laws this w(1)] w(2,3) show ?thesis
    by (auto simp: ex_pointer_key)
qed

text \<open>The second push conflicts, and is shown the first one's manifest.\<close>

lemma ex_conflict:
  "\<exists>x b'. cas_publish mem_client (mem_json []) ex_git ex_community ''alice'' ''app''
     ParentState_fresh ex_limits (ex_published x) =
     (Inl (Conflict ex_manifest (''manifests/'' @ ex_digest)), b')"
proof -
  have "case canonical_bytes (mem_json []) ex_manifest of Inr x \<Rightarrow>
      fst (cas_publish mem_client (mem_json []) ex_git ex_community ''alice'' ''app''
        ParentState_fresh ex_limits (ex_published x)) =
      Inl (Conflict ex_manifest (''manifests/'' @ ex_digest)) | Inl _ \<Rightarrow> False"
    by code_simp
  then show ?thesis by (auto split: sum.splits) (metis prod.collapse)
qed

theorem cas_publish_conflict_witness:
  "\<exists>x b'. creates (mem_view (ex_published x)) (mem_view b') \<and>
     winner_shown mem_client (mem_json []) (mem_view b') (pointer_key ex_community ''alice'' ''app'')
       ex_manifest (''manifests/'' @ ex_digest)"
  using ex_conflict cas_publish_conflict [OF mem_laws] by blast

lemma install_refs_Inr:
  "install_refs rs = Inr fs \<Longrightarrow>
     fs = map (\<lambda>(n, oid). (n, oid @ newline)) rs \<and> list_all (\<lambda>(n, _). is_safe_refname n) rs"
  by (induction rs arbitrary: fs rule: install_refs.induct) (auto simp: and_then_eq_Ok split: if_splits)

lemma materialize_packs_bound:
  "materialize_packs cache opt ks acc b = (Inr n, b') \<Longrightarrow> acc \<le> ho_max_repo_bytes opt \<Longrightarrow>
     n \<le> ho_max_repo_bytes opt"
  by (induction cache opt ks acc b rule: materialize_packs.induct)
    (auto simp: io_bind_Ok split: if_splits simp del: io_simps)

text \<open>
  Reading fails closed: whatever the store holds, a load that succeeds returns a manifest that was
  checked against the digest in the pointer, parsed, validated, and no larger than the limit; and
  the files materialised from it are exactly one file per ref with its object id, then HEAD, at most
  the configured number of bytes, with no path that leaves the repository.
\<close>

theorem hydrate_fails_closed:
  assumes laws: "s3_laws cl view"
    and run: "hydrate_for_write cl js cache opt community owner repo b = (Inr (h, ps), b')"
    and old: "ps_if_match ps = Some etag"
  shows "\<exists>d m. ps = ParentState_from_loaded etag d m \<and> authentic cl js (view b) d m \<and>
    hr_files h = map (\<lambda>(n, oid). (n, oid @ newline)) (m_refs m) @
      [(''HEAD'', ''ref: '' @ m_head m @ newline)] \<and>
    (\<forall>n\<in>fst ` set (m_refs m). \<forall>part\<in>set (split_on CHR ''/'' n). part \<noteq> [] \<and> part \<noteq> ''..'') \<and>
    hr_hydrated_bytes h \<le> ho_max_repo_bytes opt"
proof -
  obtain p b1 where l: "load_pointer cl js community owner repo b = (Inr p, b1)"
    and ps: "ps = parent_state_of p" by (rule hydrate_for_write_parent [OF run])
  obtain d m where p: "p = Some (etag, d, m)" and ps': "ps = ParentState_from_loaded etag d m"
    using ps old
    by (auto simp: parent_state_of_def ParentState_fresh_def ParentState_from_loaded_def
        split: option.splits)
  have a: "authentic cl js (view b) d m" using load_pointer_Some [OF laws l [unfolded p]] by blast
  have mat: "fst (materialize_manifest cache opt m b1) = Inr h"
    using run l p by (auto simp: hydrate_for_write_def io_bind_Ok simp del: io_simps)
  then obtain n b2 fs where n: "materialize_packs cache opt (m_packs m) 0 b1 = (Inr n, b2)"
    and fs: "install_refs (m_refs m) = Inr fs"
    and h: "hr_files h = fs @ [(''HEAD'', ''ref: '' @ m_head m @ newline)]" "hr_hydrated_bytes h = n"
    by (auto simp: materialize_manifest_def io_bind_def io_lift_def
        split: prod.splits sum.splits if_splits)
  have "\<forall>x\<in>fst ` set (m_refs m). is_safe_refname x"
    using install_refs_Inr [OF fs] by (auto simp: list_all_iff)
  then have "\<forall>x\<in>fst ` set (m_refs m). \<forall>part\<in>set (split_on CHR ''/'' x). part \<noteq> [] \<and> part \<noteq> ''..''"
    using safe_refname_components by blast
  moreover have "n \<le> ho_max_repo_bytes opt" by (rule materialize_packs_bound [OF n]) simp
  ultimately show ?thesis using ps' a h install_refs_Inr [OF fs] by blast
qed

definition ex_hydrate :: "string \<Rightarrow> (HydrateError + HydratedRepo \<times> ParentState) \<times> mem" where
  "ex_hydrate x = hydrate_for_write mem_client (mem_json []) (\<lambda>_ _ _ b. (Inr 4, b))
     \<lparr>ho_max_pack_bytes = 100, ho_max_repo_bytes = 100\<rparr> ex_community ''alice'' ''app''
     (ex_published x)"

lemma ex_hydrate_run:
  "\<exists>x h b'. ex_hydrate x = (Inr (h, ParentState_from_loaded (ETag ex_digest) ex_digest ex_manifest), b')"
proof -
  have "case canonical_bytes (mem_json []) ex_manifest of Inr x \<Rightarrow>
      (case fst (ex_hydrate x) of
         Inr (h, ps) \<Rightarrow> ps = ParentState_from_loaded (ETag ex_digest) ex_digest ex_manifest
       | Inl _ \<Rightarrow> False) | Inl _ \<Rightarrow> False"
    by code_simp
  then show ?thesis by (auto split: sum.splits) (metis prod.collapse)
qed

theorem hydrate_fails_closed_witness:
  "\<exists>x d m. authentic mem_client (mem_json []) (mem_view (ex_published x)) d m \<and>
     m_head m = ''refs/heads/main''"
proof -
  obtain x h b' where "ex_hydrate x =
      (Inr (h, ParentState_from_loaded (ETag ex_digest) ex_digest ex_manifest), b')"
    using ex_hydrate_run by blast
  from hydrate_fails_closed [OF mem_laws this [unfolded ex_hydrate_def], of "ETag ex_digest"]
  obtain d m where "ParentState_from_loaded (ETag ex_digest) ex_digest ex_manifest =
      ParentState_from_loaded (ETag ex_digest) d m"
    "authentic mem_client (mem_json []) (mem_view (ex_published x)) d m"
    by (auto simp: ParentState_from_loaded_def)
  then have "authentic mem_client (mem_json []) (mem_view (ex_published x)) ex_digest ex_manifest"
    by (simp add: ParentState_from_loaded_def)
  moreover have "m_head ex_manifest = ''refs/heads/main''" by (simp add: ex_manifest_def)
  ultimately show ?thesis by blast
qed

end
