(* ===== verification/GitPolicy.thy ===== *)
theory GitPolicy
  imports GitPerms Nostr
begin

text \<open>
  The push policy of the git server: \<open>crates/buzz-relay/src/api/git/binding.rs\<close> (which channel a
  repository is bound to) and \<open>policy.rs\<close> (the callback of the pre-receive hook, its HMAC and its
  decision). The database, the HMAC and the parsers of the crates \<open>hex\<close> and \<open>uuid\<close> are parameters.
\<close>

section \<open>Channel binding\<close>

datatype RepoBinding = NotBound | Bound uuid | Broken

record policy_lib =
  pl_hmac :: "string \<Rightarrow> string \<Rightarrow> string"
  pl_hex_decode :: "string \<Rightarrow> string option"
  pl_hex_encode :: "string \<Rightarrow> string"
  pl_uuid_parse :: "string \<Rightarrow> uuid option"

definition resolve_repo_binding :: "policy_lib \<Rightarrow> nostr_event \<Rightarrow> RepoBinding" where
  "resolve_repo_binding lib event =
     (case List.find (\<lambda>t. tag_slice t \<noteq> [] \<and> hd (tag_slice t) = ''buzz-channel'') (ev_tags event) of
        None \<Rightarrow> NotBound
      | Some first \<Rightarrow>
          (case tag_slice first of
             _ # v # _ \<Rightarrow> (case pl_uuid_parse lib v of Some u \<Rightarrow> Bound u | None \<Rightarrow> Broken)
           | _ \<Rightarrow> Broken))"

section \<open>The callback\<close>

definition MAX_CALLBACK_AGE_SECS :: u64 where "MAX_CALLBACK_AGE_SECS = 30"

record HookRefUpdate =
  hu_old_oid :: string
  hu_new_oid :: string
  hu_ref_name :: string
  hu_is_ancestor :: bool

record HookCallbackRequest =
  hc_repo_id :: string
  hc_repo_owner :: string
  hc_community_id :: string
  hc_pusher_pubkey :: string
  hc_ref_updates :: "HookRefUpdate list"
  hc_timestamp :: u64
  hc_signature :: string

definition hmac_ref :: "HookRefUpdate \<Rightarrow> string" where
  "hmac_ref r =
     hu_old_oid r @ hu_new_oid r @ show_nat (length (hu_ref_name r)) @ '':'' @ hu_ref_name r @
     (if hu_is_ancestor r then ''1'' else ''0'')"

definition hmac_payload :: "HookCallbackRequest \<Rightarrow> string" where
  "hmac_payload req =
     show_nat (length (hc_repo_id req)) @ '':'' @ hc_repo_id req @ ''|'' @
     hc_repo_owner req @ ''|'' @ hc_community_id req @ ''|'' @ hc_pusher_pubkey req @ ''|'' @
     concat (map hmac_ref (sort_key hu_ref_name (hc_ref_updates req))) @ ''|'' @
     show_nat (unat (hc_timestamp req))"

definition compute_hmac :: "policy_lib \<Rightarrow> string \<Rightarrow> HookCallbackRequest \<Rightarrow> string" where
  "compute_hmac lib secret req = pl_hmac lib secret (hmac_payload req)"

definition verify_hmac :: "policy_lib \<Rightarrow> string \<Rightarrow> HookCallbackRequest \<Rightarrow> bool" where
  "verify_hmac lib secret req =
     (case pl_hex_decode lib (hc_signature req) of
        Some bytes \<Rightarrow> compute_hmac lib secret req = bytes
      | None \<Rightarrow> False)"

definition generate_hook_hmac ::
  "policy_lib \<Rightarrow> string \<Rightarrow> string \<Rightarrow> string \<Rightarrow> string \<Rightarrow> string \<Rightarrow> HookRefUpdate list \<Rightarrow> u64 \<Rightarrow> string"
where
  "generate_hook_hmac lib secret repo_id repo_owner community_id pusher_pubkey ref_updates timestamp =
     pl_hex_encode lib (compute_hmac lib secret
       \<lparr>hc_repo_id = repo_id, hc_repo_owner = repo_owner, hc_community_id = community_id,
        hc_pusher_pubkey = pusher_pubkey, hc_ref_updates = ref_updates, hc_timestamp = timestamp,
        hc_signature = []\<rparr>)"

section \<open>Structural checks\<close>

definition is_lower_hex_key :: "string \<Rightarrow> bool" where
  "is_lower_hex_key s \<longleftrightarrow>
     length s = 64 \<and>
     list_all (\<lambda>c. is_ascii_hexdigit c \<and> \<not> (65 \<le> (of_char c :: nat) \<and> (of_char c :: nat) \<le> 90)) s"

fun check_ref_updates :: "HookRefUpdate list \<Rightarrow> string + unit" where
  "check_ref_updates [] = Ok ()"
| "check_ref_updates (r # rest) =
     (if length (hu_old_oid r) \<noteq> 40 \<or> \<not> list_all is_ascii_hexdigit (hu_old_oid r)
      then Err ''invalid old_oid''
      else if length (hu_new_oid r) \<noteq> 40 \<or> \<not> list_all is_ascii_hexdigit (hu_new_oid r)
      then Err ''invalid new_oid''
      else if hu_ref_name r = [] \<or> length (hu_ref_name r) > 256 \<or>
              \<not> starts_with (hu_ref_name r) ''refs/'' \<or> contains (hu_ref_name r) ''..'' \<or>
              list_ex (\<lambda>b. (of_char b :: nat) \<le> 32 \<or> (of_char b :: nat) = 127) (hu_ref_name r)
      then Err ''invalid ref_name''
      else check_ref_updates rest)"

definition check_request :: "policy_lib \<Rightarrow> HookCallbackRequest \<Rightarrow> string + uuid" where
  "check_request lib req =
     (if hc_repo_id req = [] \<or> length (hc_repo_id req) > 64 then Err ''invalid repo_id''
      else if \<not> is_lower_hex_key (hc_repo_owner req) then Err ''invalid repo_owner''
      else if \<not> is_lower_hex_key (hc_pusher_pubkey req) then Err ''invalid pusher_pubkey''
      else
        and_then (ok_or (pl_uuid_parse lib (hc_community_id req)) ''invalid community_id'') (\<lambda>u.
        if hc_ref_updates req = [] \<or> length (hc_ref_updates req) > 500
        then Err ''invalid ref_updates count''
        else and_then (check_ref_updates (hc_ref_updates req)) (\<lambda>_. Ok u)))"

definition saturating_sub :: "u64 \<Rightarrow> u64 \<Rightarrow> u64" where
  "saturating_sub a b = (if a \<ge> b then a - b else 0)"

definition check_timestamp :: "u64 \<Rightarrow> u64 \<Rightarrow> string + unit" where
  "check_timestamp now ts =
     (if saturating_sub now ts > MAX_CALLBACK_AGE_SECS then Err ''callback expired''
      else if saturating_sub ts now > 5 then Err ''callback timestamp invalid''
      else Ok ())"

section \<open>The decision\<close>

text \<open>
  The four lookups, each of which can fail: the announcement of a repository (kind 30617), whether a
  channel is archived, whether a key owns an agent, the role of a member.
\<close>

record policy_db =
  db_query_repo :: "CommunityId \<Rightarrow> string \<Rightarrow> string \<Rightarrow> unit + nostr_event option"
  db_get_channel :: "CommunityId \<Rightarrow> uuid \<Rightarrow> unit + bool"
  db_is_agent_owner :: "CommunityId \<Rightarrow> string \<Rightarrow> string \<Rightarrow> unit + bool"
  db_get_member_role :: "CommunityId \<Rightarrow> uuid \<Rightarrow> string \<Rightarrow> unit + string option"

datatype PolicyResponse = Forbidden string | Denied "Denial list" | Allowed

definition GIT_NO_CHANNEL_BINDING_BODY :: string where
  "GIT_NO_CHANNEL_BINDING_BODY = ''no_channel_binding: repository has no channel binding''"

definition decode_key :: "policy_lib \<Rightarrow> string \<Rightarrow> string \<Rightarrow> string + string" where
  "decode_key lib hex msg =
     (case pl_hex_decode lib hex of
        Some bs \<Rightarrow> if length bs = 32 then Ok bs else Err msg
      | None \<Rightarrow> Err msg)"

definition find_repo ::
  "policy_db \<Rightarrow> CommunityId \<Rightarrow> string \<Rightarrow> string \<Rightarrow> string + nostr_event" where
  "find_repo db community owner_bytes repo_id =
     (case db_query_repo db community owner_bytes repo_id of
        Inr (Some event) \<Rightarrow> Ok event
      | Inr None \<Rightarrow> Err ''repository not found''
      | Inl _ \<Rightarrow> Err ''internal error'')"

definition resolve_channel ::
  "policy_lib \<Rightarrow> policy_db \<Rightarrow> CommunityId \<Rightarrow> nostr_event \<Rightarrow> string + uuid option" where
  "resolve_channel lib db community event =
     (case resolve_repo_binding lib event of
        Broken \<Rightarrow> Err ''invalid channel binding''
      | NotBound \<Rightarrow> Ok None
      | Bound ch_id \<Rightarrow>
          (case db_get_channel db community ch_id of
             Inr True \<Rightarrow> Err ''channel is archived (read-only)''
           | Inl _ \<Rightarrow> Err ''internal error''
           | Inr False \<Rightarrow> Ok (Some ch_id)))"

definition resolve_role ::
  "policy_lib \<Rightarrow> policy_db \<Rightarrow> CommunityId \<Rightarrow> nostr_event \<Rightarrow> string \<Rightarrow> string \<Rightarrow> uuid option
     \<Rightarrow> string + MemberRole" where
  "resolve_role lib db community event owner_bytes pusher_pubkey channel_id =
     and_then (decode_key lib pusher_pubkey ''invalid pusher pubkey'') (\<lambda>pusher_bytes.
     let is_repo_owner = (pusher_pubkey = ev_pubkey event) in
     and_then (if is_repo_owner then Ok False
               else map_err (\<lambda>_. ''internal error'')
                      (db_is_agent_owner db community owner_bytes pusher_bytes))
       (\<lambda>is_managed_agent_owner.
     if is_repo_owner \<or> is_managed_agent_owner then Ok Owner
     else case channel_id of
       None \<Rightarrow> Err GIT_NO_CHANNEL_BINDING_BODY
     | Some ch_id \<Rightarrow>
         (case db_get_member_role db community ch_id pusher_bytes of
            Inr (Some role_str) \<Rightarrow>
              map_err (\<lambda>_. ''internal error'') (MemberRole_from_str role_str)
          | Inr None \<Rightarrow> Err ''not a channel member''
          | Inl _ \<Rightarrow> Err ''internal error'')))"

definition git_role_of :: "MemberRole \<Rightarrow> MemberRole" where
  "git_role_of role = (case role of Bot \<Rightarrow> Member | other \<Rightarrow> other)"

definition hook_updates :: "HookCallbackRequest \<Rightarrow> RefUpdate list" where
  "hook_updates req =
     map (\<lambda>r. \<lparr>ru_ref_name = hu_ref_name r,
               ru_kind = UpdateKind_classify (hu_old_oid r) (hu_new_oid r) (hu_is_ancestor r),
               ru_old_oid = hu_old_oid r, ru_new_oid = hu_new_oid r\<rparr>) (hc_ref_updates req)"

definition authorise_push ::
  "policy_lib \<Rightarrow> policy_db \<Rightarrow> string \<Rightarrow> u64 \<Rightarrow> HookCallbackRequest
     \<Rightarrow> string + ProtectionRule list \<times> MemberRole" where
  "authorise_push lib db secret now req =
     and_then (check_request lib req) (\<lambda>community_uuid.
     let community = CommunityId community_uuid in
     and_then (guard_that (verify_hmac lib secret req) ''signature verification failed'') (\<lambda>_.
     and_then (check_timestamp now (hc_timestamp req)) (\<lambda>_.
     and_then (decode_key lib (hc_repo_owner req) ''invalid repo owner'') (\<lambda>owner_bytes.
     and_then (find_repo db community owner_bytes (hc_repo_id req)) (\<lambda>event.
     and_then (map_err (\<lambda>_. ''malformed protection rules'')
         (parse_protection_tags (map tag_slice (ev_tags event)))) (\<lambda>parsed.
     and_then (resolve_channel lib db community event) (\<lambda>channel_id.
     and_then (resolve_role lib db community event owner_bytes (hc_pusher_pubkey req) channel_id)
       (\<lambda>role.
     Ok (pp_rules parsed, role)))))))))"

definition hook_policy_check ::
  "policy_lib \<Rightarrow> policy_db \<Rightarrow> string \<Rightarrow> u64 \<Rightarrow> HookCallbackRequest \<Rightarrow> PolicyResponse" where
  "hook_policy_check lib db secret now req =
     (case authorise_push lib db secret now req of
        Inl msg \<Rightarrow> Forbidden msg
      | Inr (rules, role) \<Rightarrow>
          (case evaluate_push (hook_updates req) (git_role_of role) rules of
             Inr _ \<Rightarrow> Allowed
           | Inl denials \<Rightarrow> Denied denials))"

section \<open>The signed payload\<close>

text \<open>No form of a UUID that the crate parses holds a vertical bar.\<close>

definition uuid_laws :: "policy_lib \<Rightarrow> bool" where
  "uuid_laws lib \<longleftrightarrow> (\<forall>s u. pl_uuid_parse lib s = Some u \<longrightarrow> CHR ''|'' \<notin> set s)"

lemma sep_inject:
  "c \<notin> set a \<Longrightarrow> c \<notin> set b \<Longrightarrow> a @ c # x = b @ c # y \<longleftrightarrow> a = b \<and> x = y"
proof
  assume c: "c \<notin> set a" "c \<notin> set b" and e: "a @ c # x = b @ c # y"
  have "split_once c (b @ c # y) = Some (a, x)"
    using split_once_append [OF c(1), of x] unfolding e .
  then show "a = b \<and> x = y" using split_once_append [OF c(2), of y] by simp
qed simp

lemma show_nat_no_char: "\<not> is_digit c \<Longrightarrow> c \<notin> set (show_nat n)"
  using show_nat_digits [of n] by (auto simp: list_all_iff)

text \<open>A length, a colon and that many bytes: parsed in one way only.\<close>

lemma length_prefixed_inject:
  assumes "show_nat (length s) @ '':'' @ s @ x = show_nat (length t) @ '':'' @ t @ y"
  shows "s = t \<and> x = y"
proof -
  have c: "CHR '':'' \<notin> set (show_nat n)" for n
    by (rule show_nat_no_char) (simp add: is_digit_def)
  have "show_nat (length s) = show_nat (length t) \<and> s @ x = t @ y"
    using assms sep_inject [OF c c, of "length s" "s @ x" "length t" "t @ y"] by simp
  then have "length s = length t" "s @ x = t @ y" by simp_all
  then show ?thesis by simp
qed

definition ref_ok :: "HookRefUpdate \<Rightarrow> bool" where
  "ref_ok r \<longleftrightarrow>
     length (hu_old_oid r) = 40 \<and> list_all is_ascii_hexdigit (hu_old_oid r) \<and>
     length (hu_new_oid r) = 40 \<and> list_all is_ascii_hexdigit (hu_new_oid r) \<and>
     starts_with (hu_ref_name r) ''refs/'' \<and> \<not> contains (hu_ref_name r) ''..''"

lemma check_ref_updates_ok: "check_ref_updates rs = Ok u \<Longrightarrow> list_all ref_ok rs"
  by (induction rs) (auto simp: ref_ok_def split: if_splits)

lemma hmac_ref_inject:
  assumes "ref_ok r" "ref_ok s" "hmac_ref r @ x = hmac_ref s @ y"
  shows "r = s \<and> x = y"
proof -
  have "hu_old_oid r = hu_old_oid s \<and> hu_new_oid r = hu_new_oid s \<and>
      show_nat (length (hu_ref_name r)) @ '':'' @ hu_ref_name r @ (if hu_is_ancestor r then ''1'' else ''0'') @ x =
      show_nat (length (hu_ref_name s)) @ '':'' @ hu_ref_name s @ (if hu_is_ancestor s then ''1'' else ''0'') @ y"
    using assms by (simp add: hmac_ref_def ref_ok_def)
  then have "hu_old_oid r = hu_old_oid s" "hu_new_oid r = hu_new_oid s"
    "hu_ref_name r = hu_ref_name s"
    "(if hu_is_ancestor r then ''1'' else ''0'') @ x = (if hu_is_ancestor s then ''1'' else ''0'') @ y"
    using length_prefixed_inject by blast+
  then show ?thesis by (cases r; cases s) (auto split: if_splits)
qed

lemma hmac_ref_hd:
  assumes "ref_ok r"
  obtains c t where "hmac_ref r = c # t" "c \<noteq> CHR ''|''"
proof -
  obtain c t where "hu_old_oid r = c # t"
    using assms by (cases "hu_old_oid r") (auto simp: ref_ok_def)
  moreover from this have "c \<noteq> CHR ''|''"
    using assms by (auto simp: ref_ok_def is_ascii_hexdigit_def)
  ultimately show thesis using that by (simp add: hmac_ref_def)
qed

lemma hmac_refs_inject:
  assumes "list_all ref_ok rs" "list_all ref_ok ss"
    "concat (map hmac_ref rs) @ ''|'' @ x = concat (map hmac_ref ss) @ ''|'' @ y"
  shows "rs = ss \<and> x = y"
  using assms
proof (induction rs arbitrary: ss)
  case Nil
  then show ?case
    by (cases ss) (auto elim: hmac_ref_hd)
next
  case (Cons r rs)
  show ?case
  proof (cases ss)
    case Nil
    with Cons.prems show ?thesis by (auto elim: hmac_ref_hd)
  next
    case (Cons s ss')
    have "r = s \<and> concat (map hmac_ref rs) @ ''|'' @ x = concat (map hmac_ref ss') @ ''|'' @ y"
      using Cons.prems Cons by (intro hmac_ref_inject) simp_all
    with Cons.IH [of ss'] Cons.prems Cons show ?thesis by simp
  qed
qed

lemma check_request_Ok:
  assumes "check_request lib req = Ok u"
  shows "hc_repo_id req \<noteq> [] \<and> length (hc_repo_id req) \<le> 64 \<and> is_lower_hex_key (hc_repo_owner req) \<and>
    is_lower_hex_key (hc_pusher_pubkey req) \<and> pl_uuid_parse lib (hc_community_id req) = Some u \<and>
    hc_ref_updates req \<noteq> [] \<and> length (hc_ref_updates req) \<le> 500 \<and>
    list_all ref_ok (hc_ref_updates req)"
  using assms
  by (auto simp: check_request_def and_then_eq_Ok split: if_splits intro: check_ref_updates_ok)

text \<open>
  C25. The bytes that the HMAC of a hook callback covers are structurally unambiguous: two requests that
  pass the structural checks and give the same payload agree on the repository, its owner, the
  community, the pusher, the time and, up to order, on every ref update. So a signature for one push
  never authenticates another.
\<close>

theorem hmac_payload_injective:
  assumes laws: "uuid_laws lib" and r: "check_request lib r = Ok u" and s: "check_request lib s = Ok v"
    and eq: "hmac_payload r = hmac_payload s"
  shows "hc_repo_id r = hc_repo_id s \<and> hc_repo_owner r = hc_repo_owner s \<and>
    hc_community_id r = hc_community_id s \<and> hc_pusher_pubkey r = hc_pusher_pubkey s \<and>
    hc_timestamp r = hc_timestamp s \<and> mset (hc_ref_updates r) = mset (hc_ref_updates s)"
proof -
  note R = check_request_Ok [OF r] and S = check_request_Ok [OF s]
  have bars: "CHR ''|'' \<notin> set (hc_community_id r)" "CHR ''|'' \<notin> set (hc_community_id s)"
    using laws R S by (auto simp: uuid_laws_def)
  have oks: "list_all ref_ok (sort_key hu_ref_name (hc_ref_updates r))"
    "list_all ref_ok (sort_key hu_ref_name (hc_ref_updates s))"
    using R S by (auto simp: list_all_iff)
  from eq have 1: "hc_repo_id r = hc_repo_id s"
    "''|'' @ hc_repo_owner r @ ''|'' @ hc_community_id r @ ''|'' @ hc_pusher_pubkey r @ ''|'' @
     concat (map hmac_ref (sort_key hu_ref_name (hc_ref_updates r))) @ ''|'' @ show_nat (unat (hc_timestamp r)) =
     ''|'' @ hc_repo_owner s @ ''|'' @ hc_community_id s @ ''|'' @ hc_pusher_pubkey s @ ''|'' @
     concat (map hmac_ref (sort_key hu_ref_name (hc_ref_updates s))) @ ''|'' @ show_nat (unat (hc_timestamp s))"
    unfolding hmac_payload_def by (blast dest: length_prefixed_inject)+
  from 1(2) R S have 2: "hc_repo_owner r = hc_repo_owner s"
    "hc_community_id r @ ''|'' @ hc_pusher_pubkey r @ ''|'' @
     concat (map hmac_ref (sort_key hu_ref_name (hc_ref_updates r))) @ ''|'' @ show_nat (unat (hc_timestamp r)) =
     hc_community_id s @ ''|'' @ hc_pusher_pubkey s @ ''|'' @
     concat (map hmac_ref (sort_key hu_ref_name (hc_ref_updates s))) @ ''|'' @ show_nat (unat (hc_timestamp s))"
    by (simp_all add: is_lower_hex_key_def)
  from 2(2) have 3: "hc_community_id r = hc_community_id s"
    "hc_pusher_pubkey r @ ''|'' @
     concat (map hmac_ref (sort_key hu_ref_name (hc_ref_updates r))) @ ''|'' @ show_nat (unat (hc_timestamp r)) =
     hc_pusher_pubkey s @ ''|'' @
     concat (map hmac_ref (sort_key hu_ref_name (hc_ref_updates s))) @ ''|'' @ show_nat (unat (hc_timestamp s))"
    using sep_inject [OF bars] by simp_all
  from 3(2) R S have 4: "hc_pusher_pubkey r = hc_pusher_pubkey s"
    "concat (map hmac_ref (sort_key hu_ref_name (hc_ref_updates r))) @ ''|'' @ show_nat (unat (hc_timestamp r)) =
     concat (map hmac_ref (sort_key hu_ref_name (hc_ref_updates s))) @ ''|'' @ show_nat (unat (hc_timestamp s))"
    by (simp_all add: is_lower_hex_key_def)
  from hmac_refs_inject [OF oks 4(2)]
  have 5: "sort_key hu_ref_name (hc_ref_updates r) = sort_key hu_ref_name (hc_ref_updates s)"
    "hc_timestamp r = hc_timestamp s" by (auto simp: unsigned_word_eqI)
  from 5(1) have "mset (hc_ref_updates r) = mset (hc_ref_updates s)" by (metis mset_sort)
  with 1 2 3 4 5 show ?thesis by simp
qed

definition ex_lib :: policy_lib where
  "ex_lib = \<lparr>pl_hmac = (\<lambda>k p. k @ p), pl_hex_decode = (\<lambda>s. Some (take 32 s)), pl_hex_encode = (\<lambda>s. s),
     pl_uuid_parse = (\<lambda>s. if length s = 36 \<and> CHR ''|'' \<notin> set s then Some s else None)\<rparr>"

definition ex_request :: "string \<Rightarrow> HookCallbackRequest" where
  "ex_request sig = \<lparr>hc_repo_id = ''app'', hc_repo_owner = replicate 64 CHR ''a'',
     hc_community_id = replicate 36 CHR ''c'', hc_pusher_pubkey = replicate 64 CHR ''b'',
     hc_ref_updates = [\<lparr>hu_old_oid = replicate 40 CHR ''1'', hu_new_oid = replicate 40 CHR ''2'',
       hu_ref_name = ''refs/heads/main'', hu_is_ancestor = True\<rparr>],
     hc_timestamp = 100, hc_signature = sig\<rparr>"

lemma ex_request_ok: "check_request ex_lib (ex_request sig) = Ok (replicate 36 CHR ''c'')"
proof -
  have "check_request ex_lib (ex_request []) = Ok (replicate 36 CHR ''c'')" by code_simp
  moreover have "check_request ex_lib (ex_request sig) = check_request ex_lib (ex_request [])"
    unfolding check_request_def ex_request_def by simp
  ultimately show ?thesis by simp
qed

theorem hmac_payload_injective_witness:
  "hc_timestamp (ex_request ''x'') = hc_timestamp (ex_request ''y'')"
proof -
  have "uuid_laws ex_lib" by (simp add: uuid_laws_def ex_lib_def)
  moreover have "hmac_payload (ex_request ''x'') = hmac_payload (ex_request ''y'')"
    by (simp add: hmac_payload_def ex_request_def)
  ultimately show ?thesis
    using hmac_payload_injective [OF _ ex_request_ok ex_request_ok] by blast
qed

section \<open>The decision\<close>

lemma authorise_push_Ok:
  assumes "authorise_push lib db secret now req = Ok (rules, role)"
  obtains u owner_bytes event parsed channel_id where
    "check_request lib req = Ok u" "verify_hmac lib secret req"
    "check_timestamp now (hc_timestamp req) = Ok ()"
    "decode_key lib (hc_repo_owner req) ''invalid repo owner'' = Ok owner_bytes"
    "find_repo db (CommunityId u) owner_bytes (hc_repo_id req) = Ok event"
    "parse_protection_tags (map tag_slice (ev_tags event)) = Ok parsed" "rules = pp_rules parsed"
    "resolve_channel lib db (CommunityId u) event = Ok channel_id"
    "resolve_role lib db (CommunityId u) event owner_bytes (hc_pusher_pubkey req) channel_id = Ok role"
  using assms by (auto simp: authorise_push_def and_then_eq_Ok Let_def map_err_eq)

lemma timestamp_fresh:
  "check_timestamp now ts = Ok u \<longleftrightarrow> unat now \<le> unat ts + 30 \<and> unat ts \<le> unat now + 5"
proof -
  have sub: "unat (saturating_sub a b) = unat a - unat b" for a b
    by (auto simp: saturating_sub_def unat_sub word_le_nat_alt)
  show ?thesis
    by (auto simp: check_timestamp_def MAX_CALLBACK_AGE_SECS_def word_less_nat_alt sub split: if_splits)
qed

lemma decode_key_Ok: "decode_key lib h msg = Ok k \<longleftrightarrow> pl_hex_decode lib h = Some k \<and> length k = 32"
  by (auto simp: decode_key_def split: option.splits if_splits)

text \<open>
  As what a pusher is admitted to the repository that \<open>event\<close> announces and that is looked up under the
  owner key \<open>ow\<close>: as owner with the key of the announcement; as owner when the database says that the
  pusher owns the agent whose key is \<open>ow\<close>; else in the role the pusher has in the bound channel.
\<close>

definition admitted_as ::
  "policy_lib \<Rightarrow> policy_db \<Rightarrow> uuid \<Rightarrow> nostr_event \<Rightarrow> string \<Rightarrow> string \<Rightarrow> MemberRole \<Rightarrow> bool" where
  "admitted_as lib db u event ow pusher role \<longleftrightarrow>
     (\<exists>pb. pl_hex_decode lib pusher = Some pb \<and> length pb = 32 \<and>
        (if pusher = ev_pubkey event \<or> db_is_agent_owner db (CommunityId u) ow pb = Ok True
         then role = Owner
         else db_is_agent_owner db (CommunityId u) ow pb = Ok False \<and>
           (\<exists>ch. resolve_repo_binding lib event = Bound ch \<and>
              db_get_member_role db (CommunityId u) ch pb = Ok (Some (MemberRole_as_str role)))))"

lemma resolve_role_Ok:
  assumes "resolve_role lib db c event ow pusher ch = Ok role"
  obtains pb where "pl_hex_decode lib pusher = Some pb" "length pb = 32"
    "if pusher = ev_pubkey event \<or> db_is_agent_owner db c ow pb = Ok True then role = Owner
     else db_is_agent_owner db c ow pb = Ok False \<and>
       (\<exists>k. ch = Some k \<and> db_get_member_role db c k pb = Ok (Some (MemberRole_as_str role)))"
proof -
  obtain pb where pb: "pl_hex_decode lib pusher = Some pb" "length pb = 32"
    using assms by (auto simp: resolve_role_def and_then_eq_Ok decode_key_Ok)
  then have "decode_key lib pusher ''invalid pusher pubkey'' = Ok pb" by (simp add: decode_key_Ok)
  note r = assms [unfolded resolve_role_def this and_then_simps Let_def]
  show thesis
  proof (rule that [OF pb])
    show "if pusher = ev_pubkey event \<or> db_is_agent_owner db c ow pb = Ok True then role = Owner
     else db_is_agent_owner db c ow pb = Ok False \<and>
       (\<exists>k. ch = Some k \<and> db_get_member_role db c k pb = Ok (Some (MemberRole_as_str role)))"
    proof (cases "pusher = ev_pubkey event")
      case True
      with r show ?thesis by simp
    next
      case False
      note r = r [unfolded if_not_P [OF False]]
      show ?thesis
      proof (cases "db_is_agent_owner db c ow pb")
        case (Inr owner)
        with r False show ?thesis
          by (cases owner; cases ch)
            (auto simp: map_err_eq MemberRole_roundtrip split: sum.splits option.splits)
      qed (use r False in simp)
    qed
  qed
qed

text \<open>
  C9. The hook endpoint allows a push only when every check passed: the request is well formed and its
  signature is the HMAC of its own payload, it is at most 30 seconds old and 5 seconds ahead, the
  repository is announced in that community under the owner key of the request, its rules parse, its
  channel binding is not broken and the channel not archived, and the pusher's key is one of three:
  the key that signed the announcement, the key that the database records as owner of the agent with
  the repository's owner key, or a member of the bound channel. The rules allow every update for that
  role, the first two counting as owner and a bot as a member. Everything else is refused.
\<close>

theorem push_allowed_only_if:
  assumes "hook_policy_check lib db secret now req = Allowed"
  shows "\<exists>u ow event parsed role.
    check_request lib req = Ok u \<and>
    pl_hex_decode lib (hc_signature req) = Some (pl_hmac lib secret (hmac_payload req)) \<and>
    unat now \<le> unat (hc_timestamp req) + 30 \<and> unat (hc_timestamp req) \<le> unat now + 5 \<and>
    pl_hex_decode lib (hc_repo_owner req) = Some ow \<and> length ow = 32 \<and>
    db_query_repo db (CommunityId u) ow (hc_repo_id req) = Ok (Some event) \<and>
    parse_protection_tags (map tag_slice (ev_tags event)) = Ok parsed \<and>
    resolve_repo_binding lib event \<noteq> Broken \<and>
    (\<forall>ch. resolve_repo_binding lib event = Bound ch \<longrightarrow>
       db_get_channel db (CommunityId u) ch = Ok False) \<and>
    admitted_as lib db u event ow (hc_pusher_pubkey req) role \<and>
    evaluate_push (hook_updates req) (git_role_of role) (pp_rules parsed) = Ok ()"
proof -
  obtain rules role where a: "authorise_push lib db secret now req = Ok (rules, role)"
    and e: "evaluate_push (hook_updates req) (git_role_of role) rules = Ok ()"
    using assms by (auto simp: hook_policy_check_def split: sum.splits)
  from a show ?thesis
  proof (rule authorise_push_Ok)
    fix u ow event parsed ch
    assume c: "check_request lib req = Ok u" and v: "verify_hmac lib secret req"
      and t: "check_timestamp now (hc_timestamp req) = Ok ()"
      and o: "decode_key lib (hc_repo_owner req) ''invalid repo owner'' = Ok ow"
      and f: "find_repo db (CommunityId u) ow (hc_repo_id req) = Ok event"
      and p: "parse_protection_tags (map tag_slice (ev_tags event)) = Ok parsed" "rules = pp_rules parsed"
      and rc: "resolve_channel lib db (CommunityId u) event = Ok ch"
      and rr: "resolve_role lib db (CommunityId u) event ow (hc_pusher_pubkey req) ch = Ok role"
    have "pl_hex_decode lib (hc_signature req) = Some (pl_hmac lib secret (hmac_payload req))"
      using v by (auto simp: verify_hmac_def compute_hmac_def split: option.splits)
    moreover have "db_query_repo db (CommunityId u) ow (hc_repo_id req) = Ok (Some event)"
      using f by (auto simp: find_repo_def split: sum.splits option.splits)
    moreover have b: "resolve_repo_binding lib event \<noteq> Broken"
      "\<And>k. resolve_repo_binding lib event = Bound k \<Longrightarrow>
         db_get_channel db (CommunityId u) k = Ok False \<and> ch = Some k"
      "resolve_repo_binding lib event = NotBound \<Longrightarrow> ch = None"
      using rc by (auto simp: resolve_channel_def split: RepoBinding.splits sum.splits bool.splits)
    moreover have "admitted_as lib db u event ow (hc_pusher_pubkey req) role"
      using rr
    proof (rule resolve_role_Ok)
      fix pb
      assume "pl_hex_decode lib (hc_pusher_pubkey req) = Some pb" "length pb = 32"
        and "if hc_pusher_pubkey req = ev_pubkey event \<or> db_is_agent_owner db (CommunityId u) ow pb = Ok True
          then role = Owner
          else db_is_agent_owner db (CommunityId u) ow pb = Ok False \<and>
            (\<exists>k. ch = Some k \<and>
               db_get_member_role db (CommunityId u) k pb = Ok (Some (MemberRole_as_str role)))"
      moreover have "resolve_repo_binding lib event = Bound k" if "ch = Some k" for k
        using that b by (cases "resolve_repo_binding lib event") auto
      ultimately show ?thesis unfolding admitted_as_def by (auto split: if_splits)
    qed
    ultimately show ?thesis using c t p e o by (auto simp: timestamp_fresh decode_key_Ok)
  qed
qed

text \<open>A callback signed by the relay itself verifies, whatever the payload.\<close>

theorem hook_hmac_roundtrip:
  assumes "\<And>x. pl_hex_decode lib (pl_hex_encode lib x) = Some x"
  shows "verify_hmac lib secret
    (req\<lparr>hc_signature := generate_hook_hmac lib secret (hc_repo_id req) (hc_repo_owner req)
       (hc_community_id req) (hc_pusher_pubkey req) (hc_ref_updates req) (hc_timestamp req)\<rparr>)"
  by (simp add: verify_hmac_def generate_hook_hmac_def assms compute_hmac_def hmac_payload_def)

definition ex_db :: policy_db where
  "ex_db = \<lparr>db_query_repo = (\<lambda>_ _ _. Ok (Some \<lparr>ev_id = [], ev_pubkey = replicate 64 CHR ''a'',
       ev_created_at = 0, ev_kind = 30617,
       ev_tags = [\<lparr>tag_kind = ''buzz-channel'', tag_content = None,
         tag_slice = [''buzz-channel'', replicate 36 CHR ''d'']\<rparr>], ev_content = []\<rparr>)),
     db_get_channel = (\<lambda>_ _. Ok False), db_is_agent_owner = (\<lambda>_ _ _. Ok False),
     db_get_member_role = (\<lambda>_ _ _. Ok (Some ''bot''))\<rparr>"

definition ex_hook_lib :: policy_lib where
  "ex_hook_lib = ex_lib\<lparr>pl_hmac := \<lambda>_ p. replicate 32 CHR ''m''\<rparr>"

lemma ex_bot_push:
  "hook_policy_check ex_hook_lib ex_db [] 100 (ex_request (replicate 32 CHR ''m'')) = Allowed"
  by code_simp

theorem push_allowed_only_if_witness:
  "\<exists>u ow event role. admitted_as ex_hook_lib ex_db u event ow (replicate 64 CHR ''b'') role"
  using push_allowed_only_if [OF ex_bot_push] by (auto simp: ex_request_def)

theorem hook_hmac_roundtrip_witness:
  "verify_hmac (ex_lib\<lparr>pl_hex_decode := Some\<rparr>) ''k'' (ex_request
     (generate_hook_hmac (ex_lib\<lparr>pl_hex_decode := Some\<rparr>) ''k'' ''app'' (replicate 64 CHR ''a'')
       (replicate 36 CHR ''c'') (replicate 64 CHR ''b'') (hc_ref_updates (ex_request [])) 100))"
  using hook_hmac_roundtrip [of "ex_lib\<lparr>pl_hex_decode := Some\<rparr>" "''k''" "ex_request []"]
  by (simp add: ex_lib_def ex_request_def)

end
