(* ===== verification/MeshWire.thy ===== *)
theory MeshWire
  imports Text Nostr
begin

text \<open>
  The wire types of the relay mesh, \<open>crates/buzz-relay-mesh/src/wire.rs\<close>, and its errors,
  \<open>lib.rs\<close>. The \<open>postcard\<close> serialiser is a parameter of \<open>wire_encode\<close> and \<open>wire_decode\<close>. A byte
  vector is a string; a \<open>RuntimeId\<close> holds its 32 bytes.
\<close>

datatype RuntimeId = RuntimeId (rt_bytes: string)

definition runtime_ok :: "RuntimeId \<Rightarrow> bool" where
  "runtime_ok r \<longleftrightarrow> length (rt_bytes r) = 32"

record FencedHeader =
  fh_session_id :: uuid
  fh_generation :: u64
  fh_owner_runtime_id :: RuntimeId

datatype Profile = ReliableStream | RealtimeMedia | HuddleControl

datatype GoodbyeReason = SessionEnded | Draining | StaleGenerationReason

datatype StreamRole = Control | Session FencedHeader Profile

record StreamHello =
  sh_sender :: RuntimeId
  sh_role :: StreamRole

record MeshDatagram =
  md_fenced :: FencedHeader
  md_seq :: u64
  md_payload :: string

datatype MeshStreamFrame =
    Hello StreamHello
  | DataFrame FencedHeader string
  | GoodbyeFrame FencedHeader GoodbyeReason
  | GossipFrame string

datatype MeshError =
    Encode string
  | Decode string
  | UnknownWireVersion char
  | EmptyFrame
  | FrameTooLarge nat nat
  | DatagramTooLarge nat nat
  | PeerNotConnected RuntimeId
  | PeerDraining RuntimeId
  | StaleGeneration uuid u64 u64
  | NoActiveLease uuid u64 u64 RuntimeId
  | OwnerMismatch uuid u64 RuntimeId RuntimeId
  | FutureGeneration uuid u64 u64
  | Disabled
  | Transport string
  | RedisError string

definition WIRE_VERSION :: char where "WIRE_VERSION = char_of (1 :: nat)"
definition MAX_STREAM_FRAME :: nat where "MAX_STREAM_FRAME = 16 * 1024 * 1024"

record 'f postcard =
  pc_to_extend :: "'f \<Rightarrow> string \<Rightarrow> string + string"
  pc_from_bytes :: "string \<Rightarrow> string + 'f"

definition wire_encode :: "'f postcard \<Rightarrow> 'f \<Rightarrow> MeshError + string" where
  "wire_encode pc frame = map_err Encode (pc_to_extend pc frame [WIRE_VERSION])"

definition wire_decode :: "'f postcard \<Rightarrow> string \<Rightarrow> MeshError + 'f" where
  "wire_decode pc bytes =
     (case bytes of
        v # rest \<Rightarrow>
          if v = WIRE_VERSION then map_err Decode (pc_from_bytes pc rest)
          else Err (UnknownWireVersion v)
      | [] \<Rightarrow> Err EmptyFrame)"

definition encode_datagram_checked ::
  "MeshDatagram postcard \<Rightarrow> MeshDatagram \<Rightarrow> nat \<Rightarrow> MeshError + string" where
  "encode_datagram_checked pc dgram max_datagram_size =
     and_then (wire_encode pc dgram) (\<lambda>bytes.
     if length bytes > max_datagram_size
     then Err (DatagramTooLarge (length bytes) max_datagram_size) else Ok bytes)"

text \<open>The serialiser appends to the buffer, and reads back what it appended.\<close>

definition postcard_laws :: "'f postcard \<Rightarrow> bool" where
  "postcard_laws pc \<longleftrightarrow>
     (\<forall>f buf out. pc_to_extend pc f buf = Ok out \<longrightarrow>
        (\<exists>bytes. out = buf @ bytes \<and> pc_from_bytes pc bytes = Ok f))"

lemma wire_roundtrip:
  "postcard_laws pc \<Longrightarrow> wire_encode pc f = Ok bytes \<Longrightarrow> wire_decode pc bytes = Ok f"
  by (fastforce simp: postcard_laws_def wire_encode_def wire_decode_def map_err_eq)

end
