(* ===== verification/Redis.thy ===== *)
theory Redis
  imports Text
begin

text \<open>
  The Redis commands the crates use. A server is a map from keys to values with an optional deadline,
  read at its clock in milliseconds; a key whose deadline has passed is absent. A call from the relay
  may find no connection, fail before the server ran it, or lose the answer of a command that ran.
\<close>

section \<open>Keys with deadlines\<close>

type_synonym redis = "(string \<times> string \<times> nat option) list"

definition r_get :: "nat \<Rightarrow> redis \<Rightarrow> string \<Rightarrow> string option" where
  "r_get now r k =
     (case map_of r k of
        Some (v, Some deadline) \<Rightarrow> if deadline \<le> now then None else Some v
      | Some (v, None) \<Rightarrow> Some v
      | None \<Rightarrow> None)"

definition r_ttl :: "redis \<Rightarrow> string \<Rightarrow> nat option" where
  "r_ttl r k = (case map_of r k of Some (_, d) \<Rightarrow> d | None \<Rightarrow> None)"

definition r_set_px :: "nat \<Rightarrow> string \<Rightarrow> string \<Rightarrow> nat \<Rightarrow> redis \<Rightarrow> redis" where
  "r_set_px now k v ttl r = AList.update k (v, Some (now + ttl)) r"

definition r_pexpire :: "nat \<Rightarrow> string \<Rightarrow> nat \<Rightarrow> redis \<Rightarrow> redis" where
  "r_pexpire now k ttl r =
     (case r_get now r k of Some v \<Rightarrow> AList.update k (v, Some (now + ttl)) r | None \<Rightarrow> r)"

definition r_del :: "string \<Rightarrow> redis \<Rightarrow> redis" where
  "r_del k r = AList.delete k r"

text \<open>\<open>INCR\<close> counts from 0, keeps the deadline, and refuses what is not a 64-bit integer.\<close>

definition r_incr :: "nat \<Rightarrow> string \<Rightarrow> redis \<Rightarrow> string + nat \<times> redis" where
  "r_incr now k r =
     (case r_get now r k of
        None \<Rightarrow> Ok (1, AList.update k (show_nat 1, None) r)
      | Some v \<Rightarrow>
          (case parse_uint 63 v of
             Some n \<Rightarrow>
               if show_nat n = v \<and> n + 1 < 2 ^ 63
               then Ok (n + 1, AList.update k (show_nat (n + 1), r_ttl r k) r)
               else Err ''ERR value is not an integer or out of range''
           | None \<Rightarrow> Err ''ERR value is not an integer or out of range''))"

definition or_empty :: "string option \<Rightarrow> string" where
  "or_empty x = (case x of Some v \<Rightarrow> v | None \<Rightarrow> [])"

definition r_expire :: "nat \<Rightarrow> string \<Rightarrow> int \<Rightarrow> redis \<Rightarrow> redis" where
  "r_expire now k secs r =
     (if secs \<le> 0 then AList.delete k r else r_pexpire now k (nat secs * 1000) r)"

text \<open>\<open>TTL\<close> in whole seconds, rounded; -1 without a deadline and -2 without the key.\<close>

definition r_ttl_secs :: "nat \<Rightarrow> redis \<Rightarrow> string \<Rightarrow> int" where
  "r_ttl_secs now r k =
     (if r_get now r k = None then -2
      else case r_ttl r k of Some deadline \<Rightarrow> (int deadline - int now + 500) div 1000 | None \<Rightarrow> -1)"

text \<open>\<open>SET k v NX EX ttl\<close>: the answer is \<open>OK\<close>, or nil when the key is there.\<close>

definition r_set_nx_ex :: "nat \<Rightarrow> string \<Rightarrow> string \<Rightarrow> nat \<Rightarrow> redis \<Rightarrow> string option \<times> redis" where
  "r_set_nx_ex now k v ttl r =
     (if r_get now r k = None then (Some ''OK'', r_set_px now k v (ttl * 1000) r) else (None, r))"

datatype redis_fault = Reached | NoPool string | NotRun string | AnswerLost string

section \<open>Lookups after a command\<close>

lemma r_get_update [simp]:
  "r_get now (AList.update k (v, d) r) k' =
     (if k' = k then (case d of Some deadline \<Rightarrow> if deadline \<le> now then None else Some v | None \<Rightarrow> Some v)
      else r_get now r k')"
  by (simp add: r_get_def split: option.splits)

lemma r_get_delete [simp]: "r_get now (AList.delete k r) k' = (if k' = k then None else r_get now r k')"
  by (simp add: r_get_def)

lemma r_ttl_update [simp]: "r_ttl (AList.update k (v, d) r) k' = (if k' = k then d else r_ttl r k')"
  by (simp add: r_ttl_def)

lemma r_ttl_delete [simp]: "r_ttl (AList.delete k r) k' = (if k' = k then None else r_ttl r k')"
  by (simp add: r_ttl_def)

end
