(* ===== verification/TunnelDirectory.thy ===== *)
theory TunnelDirectory
  imports MeshWire Redis
begin

text \<open>
  The fenced session directory of the tunnels, \<open>crates/buzz-relay/src/tunnel/directory.rs\<close>: its four
  Lua scripts on Redis and the operations around them; a script runs atomically. Lua's \<open>tostring\<close>
  and the crate \<open>hex\<close> are parameters. A failed connection, where the call either did not run or ran
  without its answer arriving, is left to the step relation.
\<close>

section \<open>The scripts\<close>

record tunnel_lib =
  tl_hex_encode :: "string \<Rightarrow> string"
  tl_hex_decode :: "string \<Rightarrow> string option"
  tl_lua_tostring :: "nat \<Rightarrow> string"
  tl_uuid_bytes :: "uuid \<Rightarrow> string"
  tl_uuid_of_bytes :: "string \<Rightarrow> uuid"

definition acquire_script ::
  "tunnel_lib \<Rightarrow> nat \<Rightarrow> string \<Rightarrow> string \<Rightarrow> string \<Rightarrow> string \<Rightarrow> nat \<Rightarrow> redis
     \<Rightarrow> (string + string \<times> string \<times> string) \<times> redis" where
  "acquire_script lib now lease_key generation_key owner profile ttl r =
     (case r_get now r lease_key of
        Some current \<Rightarrow> (Ok (''exists'', current, or_empty (r_get now r generation_key)), r)
      | None \<Rightarrow>
          (case r_incr now generation_key r of
             Inl e \<Rightarrow> (Err e, r)
           | Inr (generation, r1) \<Rightarrow>
               let value = owner @ ''|'' @ tl_lua_tostring lib generation @ ''|'' @ profile
               in (Ok (''acquired'', value, tl_lua_tostring lib generation),
                   r_set_px now lease_key value ttl r1)))"

text \<open>\<open>string.match\<close> with the pattern \<open>^([^|]+)|([^|]+)|([^|]+)$\<close>.\<close>

definition lua_match3 :: "string \<Rightarrow> (string \<times> string \<times> string) option" where
  "lua_match3 v =
     (case split_on CHR ''|'' v of
        [a, b, c] \<Rightarrow> if a \<noteq> [] \<and> b \<noteq> [] \<and> c \<noteq> [] then Some (a, b, c) else None
      | _ \<Rightarrow> None)"

definition owned_by :: "string \<Rightarrow> string \<Rightarrow> string \<Rightarrow> bool" where
  "owned_by current owner generation \<longleftrightarrow>
     (case lua_match3 current of
        Some (current_owner, current_generation, _) \<Rightarrow>
          current_owner = owner \<and> current_generation = generation
      | None \<Rightarrow> False)"

definition known_or :: "string option \<Rightarrow> string \<Rightarrow> string" where
  "known_or known current =
     (case known of
        Some g \<Rightarrow> g
      | None \<Rightarrow> (case lua_match3 current of Some (_, g, _) \<Rightarrow> g | None \<Rightarrow> []))"

definition renew_script ::
  "nat \<Rightarrow> string \<Rightarrow> string \<Rightarrow> string \<Rightarrow> string \<Rightarrow> nat \<Rightarrow> redis \<Rightarrow> (string \<times> string \<times> string) \<times> redis"
where
  "renew_script now lease_key generation_key owner generation ttl r =
     (case r_get now r lease_key of
        None \<Rightarrow> ((''missing'', [], or_empty (r_get now r generation_key)), r)
      | Some current \<Rightarrow>
          if owned_by current owner generation
          then ((''renewed'', current, known_or (r_get now r generation_key) current),
                r_pexpire now lease_key ttl r)
          else ((''lost'', current, known_or (r_get now r generation_key) current), r))"

definition release_script ::
  "nat \<Rightarrow> string \<Rightarrow> string \<Rightarrow> string \<Rightarrow> string \<Rightarrow> redis \<Rightarrow> (string \<times> string \<times> string) \<times> redis"
where
  "release_script now lease_key generation_key owner generation r =
     (case r_get now r lease_key of
        None \<Rightarrow> ((''missing'', [], or_empty (r_get now r generation_key)), r)
      | Some current \<Rightarrow>
          if owned_by current owner generation
          then ((''released'', current, known_or (r_get now r generation_key) current),
                r_del lease_key r)
          else ((''lost'', current, known_or (r_get now r generation_key) current), r))"

definition validate_script :: "nat \<Rightarrow> string \<Rightarrow> string \<Rightarrow> redis \<Rightarrow> string \<times> string" where
  "validate_script now lease_key generation_key r =
     (or_empty (r_get now r lease_key), or_empty (r_get now r generation_key))"

section \<open>Leases\<close>

record SessionLease =
  sl_community_id :: CommunityId
  sl_session_id :: uuid
  sl_owner_runtime_id :: RuntimeId
  sl_generation :: u64
  sl_profile :: Profile

datatype AcquireResult = Acquired SessionLease | Exists SessionLease

datatype RenewResult = Renewed SessionLease | Lost "SessionLease option" "u64 option"

datatype ReleaseResult = Released SessionLease | NotOwner "SessionLease option" "u64 option"

datatype DirectoryError =
    PoolError string
  | RedisFailed string
  | MalformedLease CommunityId uuid string
  | MalformedGeneration CommunityId uuid string
  | UnexpectedScriptStatus string
  | InvalidLeaseTtl

definition as_wire_str :: "Profile \<Rightarrow> string" where
  "as_wire_str p =
     (case p of
        ReliableStream \<Rightarrow> ''reliable-stream''
      | RealtimeMedia \<Rightarrow> ''realtime-media''
      | HuddleControl \<Rightarrow> ''huddle-control'')"

definition profile_from_wire :: "string \<Rightarrow> Profile option" where
  "profile_from_wire value =
     (if value = ''reliable-stream'' then Some ReliableStream
      else if value = ''realtime-media'' then Some RealtimeMedia
      else if value = ''huddle-control'' then Some HuddleControl
      else None)"

definition fenced_header :: "SessionLease \<Rightarrow> FencedHeader" where
  "fenced_header l = \<lparr>fh_session_id = sl_session_id l, fh_generation = sl_generation l,
     fh_owner_runtime_id = sl_owner_runtime_id l\<rparr>"

definition lease_key :: "CommunityId \<Rightarrow> uuid \<Rightarrow> string" where
  "lease_key c s = ''buzz:'' @ community_uuid c @ '':tunnel:'' @ s @ '':lease''"

definition generation_key :: "CommunityId \<Rightarrow> uuid \<Rightarrow> string" where
  "generation_key c s = ''buzz:'' @ community_uuid c @ '':tunnel:'' @ s @ '':generation''"

definition parse_runtime :: "tunnel_lib \<Rightarrow> string \<Rightarrow> RuntimeId option" where
  "parse_runtime lib owner_hex =
     (case tl_hex_decode lib owner_hex of
        Some bytes \<Rightarrow> if length bytes = 32 then Some (RuntimeId bytes) else None
      | None \<Rightarrow> None)"

definition parse_lease ::
  "tunnel_lib \<Rightarrow> CommunityId \<Rightarrow> uuid \<Rightarrow> string \<Rightarrow> DirectoryError + SessionLease" where
  "parse_lease lib c s value =
     (case split_on CHR ''|'' value of
        [owner_hex, generation, profile] \<Rightarrow>
          (case (parse_u64 generation, profile_from_wire profile, parse_runtime lib owner_hex) of
             (Some g, Some p, Some owner) \<Rightarrow>
               if g = 0 then Err (MalformedLease c s value)
               else Ok \<lparr>sl_community_id = c, sl_session_id = s, sl_owner_runtime_id = owner,
                        sl_generation = g, sl_profile = p\<rparr>
           | _ \<Rightarrow> Err (MalformedLease c s value))
      | _ \<Rightarrow> Err (MalformedLease c s value))"

definition parse_optional_lease ::
  "tunnel_lib \<Rightarrow> CommunityId \<Rightarrow> uuid \<Rightarrow> string \<Rightarrow> DirectoryError + SessionLease option" where
  "parse_optional_lease lib c s value =
     (if value = [] then Ok None
      else and_then (parse_lease lib c s value) (\<lambda>l. Ok (Some l)))"

definition parse_optional_generation ::
  "CommunityId \<Rightarrow> uuid \<Rightarrow> string \<Rightarrow> DirectoryError + u64 option" where
  "parse_optional_generation c s value =
     (if value = [] then Ok None
      else case parse_u64 value of
        None \<Rightarrow> Err (MalformedGeneration c s value)
      | Some g \<Rightarrow> if g = 0 then Err (MalformedGeneration c s value) else Ok (Some g))"

definition ttl_ms :: "nat \<Rightarrow> DirectoryError + nat" where
  "ttl_ms ms = (if ms < 2 ^ 63 \<and> 0 < ms then Ok ms else Err InvalidLeaseTtl)"

section \<open>The operations\<close>

text \<open>The time to live is the directory's, in milliseconds.\<close>

definition acquire ::
  "tunnel_lib \<Rightarrow> nat \<Rightarrow> CommunityId \<Rightarrow> uuid \<Rightarrow> RuntimeId \<Rightarrow> Profile \<Rightarrow> nat \<Rightarrow> redis
     \<Rightarrow> (DirectoryError + AcquireResult) \<times> redis" where
  "acquire lib lease_ttl c s owner profile now r =
     (case ttl_ms lease_ttl of
        Inl e \<Rightarrow> (Err e, r)
      | Inr ms \<Rightarrow>
          (case acquire_script lib now (lease_key c s) (generation_key c s)
                  (tl_hex_encode lib (rt_bytes owner)) (as_wire_str profile) ms r of
             (Inl e, r') \<Rightarrow> (Err (RedisFailed e), r')
           | (Inr (status, value, _), r') \<Rightarrow>
               (and_then (parse_lease lib c s value) (\<lambda>lease.
                if status = ''acquired'' then Ok (Acquired lease)
                else if status = ''exists'' then Ok (Exists lease)
                else Err (UnexpectedScriptStatus status)), r')))"

definition takeover ::
  "tunnel_lib \<Rightarrow> nat \<Rightarrow> CommunityId \<Rightarrow> uuid \<Rightarrow> RuntimeId \<Rightarrow> Profile \<Rightarrow> nat \<Rightarrow> redis
     \<Rightarrow> (DirectoryError + AcquireResult) \<times> redis" where
  "takeover lib lease_ttl c s owner profile now r = acquire lib lease_ttl c s owner profile now r"

text \<open>\<open>None\<close> is the panic of \<open>expect\<close>.\<close>

definition renew ::
  "tunnel_lib \<Rightarrow> nat \<Rightarrow> SessionLease \<Rightarrow> nat \<Rightarrow> redis
     \<Rightarrow> (DirectoryError + RenewResult) option \<times> redis" where
  "renew lib lease_ttl lease now r =
     (let c = sl_community_id lease; s = sl_session_id lease in
      case ttl_ms lease_ttl of
        Inl e \<Rightarrow> (Some (Err e), r)
      | Inr ms \<Rightarrow>
          (let ((status, value, known), r') =
             renew_script now (lease_key c s) (generation_key c s)
               (tl_hex_encode lib (rt_bytes (sl_owner_runtime_id lease)))
               (show_u64 (sl_generation lease)) ms r
           in (case parse_optional_lease lib c s value of
                 Inl e \<Rightarrow> Some (Err e)
               | Inr current \<Rightarrow>
                   if status = ''renewed''
                   then (case current of Some l \<Rightarrow> Some (Ok (Renewed l)) | None \<Rightarrow> None)
                   else if status = ''missing'' \<or> status = ''lost''
                   then Some (and_then (parse_optional_generation c s known) (\<lambda>g. Ok (Lost current g)))
                   else Some (Err (UnexpectedScriptStatus status)), r')))"

definition release ::
  "tunnel_lib \<Rightarrow> SessionLease \<Rightarrow> nat \<Rightarrow> redis \<Rightarrow> (DirectoryError + ReleaseResult) option \<times> redis" where
  "release lib lease now r =
     (let c = sl_community_id lease; s = sl_session_id lease;
          ((status, value, known), r') =
            release_script now (lease_key c s) (generation_key c s)
              (tl_hex_encode lib (rt_bytes (sl_owner_runtime_id lease)))
              (show_u64 (sl_generation lease)) r
      in (case parse_optional_lease lib c s value of
            Inl e \<Rightarrow> Some (Err e)
          | Inr current \<Rightarrow>
              if status = ''released''
              then (case current of Some l \<Rightarrow> Some (Ok (Released l)) | None \<Rightarrow> None)
              else if status = ''missing'' \<or> status = ''lost''
              then Some (and_then (parse_optional_generation c s known) (\<lambda>g. Ok (NotOwner current g)))
              else Some (Err (UnexpectedScriptStatus status)), r'))"

definition lookup_lease ::
  "tunnel_lib \<Rightarrow> CommunityId \<Rightarrow> uuid \<Rightarrow> nat \<Rightarrow> redis \<Rightarrow> DirectoryError + SessionLease option" where
  "lookup_lease lib c s now r =
     (case r_get now r (lease_key c s) of
        Some v \<Rightarrow> and_then (parse_lease lib c s v) (\<lambda>l. Ok (Some l))
      | None \<Rightarrow> Ok None)"

definition known_generation ::
  "CommunityId \<Rightarrow> uuid \<Rightarrow> nat \<Rightarrow> redis \<Rightarrow> DirectoryError + u64 option" where
  "known_generation c s now r =
     (case r_get now r (generation_key c s) of
        Some v \<Rightarrow> parse_optional_generation c s v
      | None \<Rightarrow> Ok None)"

definition validate_fenced_header ::
  "tunnel_lib \<Rightarrow> CommunityId \<Rightarrow> FencedHeader \<Rightarrow> nat \<Rightarrow> redis \<Rightarrow> MeshError + unit" where
  "validate_fenced_header lib c fenced now r =
     (let s = fh_session_id fenced;
          (lease_value, known_generation) =
            validate_script now (lease_key c s) (generation_key c s) r
      in
      and_then (map_err (\<lambda>_. Transport ''malformed session generation'')
          (parse_optional_generation c s known_generation)) (\<lambda>counter.
      and_then (map_err (\<lambda>_. Transport ''malformed session lease'')
          (parse_optional_lease lib c s lease_value)) (\<lambda>current.
      let known_from_counter = (case counter of Some g \<Rightarrow> g | None \<Rightarrow> 0);
          known = max (case current of Some l \<Rightarrow> sl_generation l | None \<Rightarrow> known_from_counter)
                    known_from_counter
      in
      if known > 0 \<and> fh_generation fenced < known
      then Err (StaleGeneration s (fh_generation fenced) known)
      else case current of
        None \<Rightarrow> Err (NoActiveLease s (fh_generation fenced) known (fh_owner_runtime_id fenced))
      | Some l \<Rightarrow>
          if fh_generation fenced \<noteq> sl_generation l
          then Err (FutureGeneration s (fh_generation fenced) (sl_generation l))
          else if fh_owner_runtime_id fenced \<noteq> sl_owner_runtime_id l
          then Err (OwnerMismatch s (fh_generation fenced) (fh_owner_runtime_id fenced)
                 (sl_owner_runtime_id l))
          else Ok ())))"

end
