(* ===== verification/TunnelProps.thy ===== *)
theory TunnelProps
  imports TunnelDirectory "HOL-Library.Code_Target_Nat"
begin

text \<open>
  The fencing law of the session directory. \<open>dir_step\<close> is one action on the two keys of a session by
  any runtime, at any time; \<open>dd_grants\<close> records the leases acquired, newest first. A call whose
  answer was lost is the same step.
\<close>

section \<open>Lease values\<close>

definition tunnel_laws :: "tunnel_lib \<Rightarrow> bool" where
  "tunnel_laws lib \<longleftrightarrow>
     (\<forall>b. tl_hex_decode lib (tl_hex_encode lib b) = Some b \<and> CHR ''|'' \<notin> set (tl_hex_encode lib b) \<and>
          (b \<noteq> [] \<longrightarrow> tl_hex_encode lib b \<noteq> [])) \<and>
     (\<forall>n < 10 ^ 14. tl_lua_tostring lib n = show_nat n)"

definition lease_value :: "tunnel_lib \<Rightarrow> SessionLease \<Rightarrow> string" where
  "lease_value lib l =
     tl_hex_encode lib (rt_bytes (sl_owner_runtime_id l)) @ ''|'' @ show_u64 (sl_generation l) @ ''|'' @
     as_wire_str (sl_profile l)"

lemma no_bar [simp]: "CHR ''|'' \<notin> set (show_nat n)" "CHR ''|'' \<notin> set (as_wire_str p)"
  using show_nat_digits [of n]
  by (auto simp: list_all_iff is_digit_def as_wire_str_def split: Profile.splits)

lemma profile_roundtrip [simp]: "profile_from_wire (as_wire_str p) = Some p"
  by (cases p) (simp_all add: profile_from_wire_def as_wire_str_def)

lemma as_wire_str_not_Nil [simp]: "as_wire_str p \<noteq> []"
  by (simp add: as_wire_str_def split: Profile.splits)

lemma split_lease_value:
  "tunnel_laws lib \<Longrightarrow> split_on CHR ''|'' (lease_value lib l) =
     [tl_hex_encode lib (rt_bytes (sl_owner_runtime_id l)), show_u64 (sl_generation l),
      as_wire_str (sl_profile l)]"
  by (simp add: lease_value_def tunnel_laws_def split_on_append split_on_no_sep show_u64_def)

lemma lease_value_not_Nil [simp]: "lease_value lib l \<noteq> []"
  by (simp add: lease_value_def)

text \<open>A stored lease is read back as it was written.\<close>

lemma parse_lease_value:
  assumes "tunnel_laws lib" "runtime_ok (sl_owner_runtime_id l)" "sl_generation l \<noteq> 0"
    "sl_community_id l = c" "sl_session_id l = s"
  shows "parse_lease lib c s (lease_value lib l) = Ok l"
  using assms
  by (auto simp: parse_lease_def split_lease_value parse_runtime_def runtime_ok_def tunnel_laws_def)

lemma owned_lease_value:
  assumes "tunnel_laws lib" "runtime_ok (sl_owner_runtime_id l)"
  shows "owned_by (lease_value lib l) owner g \<longleftrightarrow>
    owner = tl_hex_encode lib (rt_bytes (sl_owner_runtime_id l)) \<and> g = show_u64 (sl_generation l)"
proof -
  have "tl_hex_encode lib (rt_bytes (sl_owner_runtime_id l)) \<noteq> []"
    using assms unfolding tunnel_laws_def runtime_ok_def by (metis list.size(3) zero_neq_numeral)
  then show ?thesis
    using assms(1) by (auto simp: owned_by_def lua_match3_def split_lease_value show_u64_def)
qed

section \<open>The steps\<close>

record dir_state =
  dd_redis :: redis
  dd_now :: nat
  dd_grants :: "SessionLease list"

definition granted :: "DirectoryError + AcquireResult \<Rightarrow> SessionLease list" where
  "granted r = (case r of Inr (Acquired l) \<Rightarrow> [l] | _ \<Rightarrow> [])"

inductive dir_step :: "tunnel_lib \<Rightarrow> nat \<Rightarrow> CommunityId \<Rightarrow> uuid \<Rightarrow> dir_state \<Rightarrow> dir_state \<Rightarrow> bool"
  for lib ttl c s where
  tick: "dd_now st \<le> t \<Longrightarrow> dir_step lib ttl c s st (st\<lparr>dd_now := t\<rparr>)"
| acquire_step: "runtime_ok owner \<Longrightarrow>
    acquire lib ttl c s owner p (dd_now st) (dd_redis st) = (res, r') \<Longrightarrow>
    dir_step lib ttl c s st (st\<lparr>dd_redis := r', dd_grants := granted res @ dd_grants st\<rparr>)"
| renew_step: "sl_community_id l = c \<Longrightarrow> sl_session_id l = s \<Longrightarrow>
    renew lib ttl l (dd_now st) (dd_redis st) = (rres, r') \<Longrightarrow>
    dir_step lib ttl c s st (st\<lparr>dd_redis := r'\<rparr>)"
| release_step: "sl_community_id l = c \<Longrightarrow> sl_session_id l = s \<Longrightarrow>
    release lib l (dd_now st) (dd_redis st) = (lres, r') \<Longrightarrow>
    dir_step lib ttl c s st (st\<lparr>dd_redis := r'\<rparr>)"
| other_session: "map_of r' (lease_key c s) = map_of (dd_redis st) (lease_key c s) \<Longrightarrow>
    map_of r' (generation_key c s) = map_of (dd_redis st) (generation_key c s) \<Longrightarrow>
    dir_step lib ttl c s st (st\<lparr>dd_redis := r'\<rparr>)"

definition dir_start :: "redis \<Rightarrow> nat \<Rightarrow> dir_state" where
  "dir_start r now = \<lparr>dd_redis = r, dd_now = now, dd_grants = []\<rparr>"

text \<open>The grants of a session are numbered 1, 2, 3, \<dots>: no generation is granted twice.\<close>

fun grants_ok :: "CommunityId \<Rightarrow> uuid \<Rightarrow> SessionLease list \<Rightarrow> bool" where
  "grants_ok c s [] = True"
| "grants_ok c s (l # ls) \<longleftrightarrow>
     sl_generation l = of_nat (Suc (length ls)) \<and> runtime_ok (sl_owner_runtime_id l) \<and>
     sl_community_id l = c \<and> sl_session_id l = s \<and> grants_ok c s ls"

definition dir_inv :: "tunnel_lib \<Rightarrow> CommunityId \<Rightarrow> uuid \<Rightarrow> dir_state \<Rightarrow> bool" where
  "dir_inv lib c s st \<longleftrightarrow>
     grants_ok c s (dd_grants st) \<and>
     map_of (dd_redis st) (generation_key c s) =
       (if dd_grants st = [] then None else Some (show_nat (length (dd_grants st)), None)) \<and>
     (\<forall>v d. map_of (dd_redis st) (lease_key c s) = Some (v, d) \<longrightarrow>
        dd_grants st \<noteq> [] \<and> v = lease_value lib (hd (dd_grants st)))"

lemma keys_differ [simp]:
  "lease_key c s \<noteq> generation_key c s" "generation_key c s \<noteq> lease_key c s"
  by (simp_all add: lease_key_def generation_key_def)

lemma grants_ok_generation:
  "grants_ok c s ls \<Longrightarrow> l \<in> set ls \<Longrightarrow>
     \<exists>k. 0 < k \<and> k \<le> length ls \<and> sl_generation l = of_nat k \<and> runtime_ok (sl_owner_runtime_id l) \<and>
       sl_community_id l = c \<and> sl_session_id l = s"
  by (induction ls) fastforce+

lemma small_generation:
  "k < 10 ^ 14 \<Longrightarrow> unat (of_nat k :: u64) = k"
  by (simp add: unat_of_nat take_bit_nat_eq_self)

lemma acquire_redis:
  assumes laws: "tunnel_laws lib" and inv: "dir_inv lib c s st"
    and n: "length (dd_grants st) + 1 < 10 ^ 14" and ok: "runtime_ok owner"
    and run: "acquire lib ttl c s owner p (dd_now st) (dd_redis st) = (res, r')"
  shows "dir_inv lib c s (st\<lparr>dd_redis := r', dd_grants := granted res @ dd_grants st\<rparr>)"
proof (cases "r_get (dd_now st) (dd_redis st) (lease_key c s) \<noteq> None \<or> ttl_ms ttl = Inl InvalidLeaseTtl")
  case True
  then have "r' = dd_redis st \<and> granted res = []"
    using run
    by (auto simp: acquire_def acquire_script_def granted_def ttl_ms_def and_then_def
        split: if_splits sum.splits)
  with inv show ?thesis by (simp add: dir_inv_def)
next
  case False
  let ?n = "Suc (length (dd_grants st))"
  let ?l = "\<lparr>sl_community_id = c, sl_session_id = s, sl_owner_runtime_id = owner,
    sl_generation = of_nat ?n, sl_profile = p\<rparr>"
  let ?r1 = "AList.update (generation_key c s) (show_nat ?n, None) (dd_redis st)"
  obtain ms where ms: "ttl_ms ttl = Inr ms" using False by (auto simp: ttl_ms_def split: if_splits)
  have g: "r_get (dd_now st) (dd_redis st) (generation_key c s) =
      (if dd_grants st = [] then None else Some (show_nat (length (dd_grants st))))"
    using inv by (simp add: r_get_def dir_inv_def)
  have big: "?n < 10 ^ 14" using n by simp
  then have "r_incr (dd_now st) (generation_key c s) (dd_redis st) = Ok (?n, ?r1)"
    using g inv by (auto simp: r_incr_def parse_uint_show r_ttl_def dir_inv_def)
  moreover have "tl_lua_tostring lib ?n = show_nat ?n" using laws big by (simp add: tunnel_laws_def)
  moreover have "show_u64 (of_nat ?n) = show_nat ?n"
    using small_generation [OF big] by (simp add: show_u64_def)
  ultimately have sc: "acquire_script lib (dd_now st) (lease_key c s) (generation_key c s)
      (tl_hex_encode lib (rt_bytes owner)) (as_wire_str p) ms (dd_redis st) =
      (Ok (''acquired'', lease_value lib ?l, show_nat ?n),
       r_set_px (dd_now st) (lease_key c s) (lease_value lib ?l) ms ?r1)"
    using False by (simp add: acquire_script_def lease_value_def Let_def)
  have "(of_nat ?n :: u64) \<noteq> 0"
    using small_generation [OF big] by (metis nat.distinct(1) unsigned_0)
  then have "parse_lease lib c s (lease_value lib ?l) = Ok ?l"
    using ok by (intro parse_lease_value laws) simp_all
  then have "granted res = [?l]"
    and r': "r' = r_set_px (dd_now st) (lease_key c s) (lease_value lib ?l) ms ?r1"
    using run ms sc by (auto simp: acquire_def granted_def)
  then show ?thesis using inv ok by (simp add: dir_inv_def r_set_px_def)
qed

lemma renew_redis:
  assumes "sl_community_id l = c" "sl_session_id l = s" "renew lib ttl l now r = (res, r')"
  shows "(\<exists>v d. r_get now r (lease_key c s) = Some v \<and> r' = AList.update (lease_key c s) (v, d) r) \<or> r' = r"
  using assms
  by (auto simp: renew_def renew_script_def r_pexpire_def Let_def split: sum.splits option.splits
      if_splits prod.splits)

lemma release_redis:
  assumes "sl_community_id l = c" "sl_session_id l = s" "release lib l now r = (res, r')"
  shows "r' = AList.delete (lease_key c s) r \<or> r' = r"
  using assms
  by (auto simp: release_def release_script_def r_del_def Let_def split: sum.splits option.splits
      if_splits prod.splits)

lemma dir_inv_same_lease:
  assumes "dir_inv lib c s st"
    "(\<exists>v d. r_get (dd_now st) (dd_redis st) (lease_key c s) = Some v \<and>
       r' = AList.update (lease_key c s) (v, d) (dd_redis st)) \<or>
     r' = AList.delete (lease_key c s) (dd_redis st) \<or> r' = dd_redis st"
  shows "dir_inv lib c s (st\<lparr>dd_redis := r'\<rparr>)"
  using assms by (auto simp: dir_inv_def r_get_def split: option.splits prod.splits if_splits)

lemma dir_step_grants:
  "dir_step lib ttl c s st st' \<Longrightarrow> length (dd_grants st) \<le> length (dd_grants st')"
  by (induction rule: dir_step.induct) simp_all

lemma dir_inv_step:
  assumes laws: "tunnel_laws lib"
  shows "dir_step lib ttl c s st st' \<Longrightarrow> length (dd_grants st') + 1 < 10 ^ 14 \<Longrightarrow>
    dir_inv lib c s st \<Longrightarrow> dir_inv lib c s st'"
proof (induction rule: dir_step.induct)
  case (tick st t)
  then show ?case by (simp add: dir_inv_def)
next
  case (acquire_step owner p st res r')
  then have "length (dd_grants st) + 1 < 10 ^ 14" by simp
  with acquire_redis [OF laws] acquire_step show ?case by blast
next
  case (renew_step l st rres r')
  then show ?case using renew_redis by (intro dir_inv_same_lease) blast+
next
  case (release_step l st lres r')
  then show ?case using release_redis by (intro dir_inv_same_lease) blast+
next
  case (other_session r' st)
  then show ?case by (simp add: dir_inv_def)
qed

lemma dir_inv_reachable:
  assumes "tunnel_laws lib" "map_of r (lease_key c s) = None" "map_of r (generation_key c s) = None"
    and "(dir_step lib ttl c s)\<^sup>*\<^sup>* (dir_start r now) st"
    and "length (dd_grants st) + 1 < 10 ^ 14"
  shows "dir_inv lib c s st"
  using assms(4,5)
proof (induction rule: rtranclp_induct)
  case base
  show ?case using assms(2,3) by (simp add: dir_inv_def dir_start_def)
next
  case (step st st')
  then show ?case using dir_step_grants dir_inv_step [OF assms(1)] by (metis add_le_mono1 le_less_trans)
qed

section \<open>The fencing law\<close>

lemma validate_inv:
  assumes laws: "tunnel_laws lib" and inv: "dir_inv lib c s st"
    and n: "length (dd_grants st) + 1 < 10 ^ 14" and h: "fh_session_id h = s"
  shows "validate_fenced_header lib c h (dd_now st) (dd_redis st) =
    (let n = of_nat (length (dd_grants st)) in
     if fh_generation h < n then Err (StaleGeneration s (fh_generation h) n)
     else case r_get (dd_now st) (dd_redis st) (lease_key c s) of
       None \<Rightarrow> Err (NoActiveLease s (fh_generation h) n (fh_owner_runtime_id h))
     | Some _ \<Rightarrow>
         if fh_generation h \<noteq> n then Err (FutureGeneration s (fh_generation h) n)
         else if fh_owner_runtime_id h \<noteq> sl_owner_runtime_id (hd (dd_grants st))
         then Err (OwnerMismatch s (fh_generation h) (fh_owner_runtime_id h)
                (sl_owner_runtime_id (hd (dd_grants st))))
         else Ok ())"
proof (cases "dd_grants st")
  case Nil
  with inv have "map_of (dd_redis st) (lease_key c s) = None"
    "map_of (dd_redis st) (generation_key c s) = None"
    by (cases "map_of (dd_redis st) (lease_key c s)"; auto simp: dir_inv_def)+
  then show ?thesis
    by (simp add: Nil h validate_fenced_header_def validate_script_def r_get_def or_empty_def
        parse_optional_generation_def parse_optional_lease_def)
next
  case (Cons l ls)
  let ?n = "Suc (length ls)"
  have n0: "?n < 10 ^ 14" using n Cons by simp
  then have w: "(of_nat ?n :: u64) \<noteq> 0" "show_u64 (of_nat ?n) = show_nat ?n"
    using small_generation [OF n0] by (metis nat.distinct(1) unsigned_0, simp add: show_u64_def)
  have ok: "sl_generation l = of_nat ?n" "runtime_ok (sl_owner_runtime_id l)"
    "sl_community_id l = c" "sl_session_id l = s"
    using inv by (simp_all add: dir_inv_def Cons)
  have gen: "r_get (dd_now st) (dd_redis st) (generation_key c s) = Some (show_nat ?n)"
    using inv by (simp add: dir_inv_def Cons r_get_def)
  have pg: "parse_optional_generation c s (show_nat ?n) = Ok (Some (of_nat ?n))"
    using w parse_show_u64 [of "of_nat ?n"] by (simp add: parse_optional_generation_def)
  have pl: "parse_lease lib c s (lease_value lib l) = Ok l"
    using ok w(1) by (intro parse_lease_value laws) simp_all
  have pos: "(0 :: u64) < of_nat ?n" using w(1) by (simp add: word_neq_0_conv)
  show ?thesis
  proof (cases "r_get (dd_now st) (dd_redis st) (lease_key c s)")
    case None
    then show ?thesis
      using gen pg pos
      by (simp add: Cons h validate_fenced_header_def validate_script_def or_empty_def
          parse_optional_lease_def Let_def del: of_nat_Suc)
  next
    case (Some v)
    then have v: "v = lease_value lib l"
      using inv by (auto simp: dir_inv_def Cons r_get_def split: option.splits prod.splits if_splits)
    then show ?thesis
      using gen pg pl Some pos ok(1)
      by (simp add: Cons h validate_fenced_header_def validate_script_def or_empty_def
          parse_optional_lease_def Let_def del: of_nat_Suc)
  qed
qed

lemma fenced_header_eq:
  "h = fenced_header l \<longleftrightarrow> fh_session_id h = sl_session_id l \<and> fh_generation h = sl_generation l \<and>
     fh_owner_runtime_id h = sl_owner_runtime_id l"
  by (cases h) (simp add: fenced_header_def)

lemma validate_accepts_latest:
  assumes "tunnel_laws lib" "dir_inv lib c s st" "length (dd_grants st) + 1 < 10 ^ 14"
    "fh_session_id h = s"
  shows "validate_fenced_header lib c h (dd_now st) (dd_redis st) = Ok () \<longleftrightarrow>
     dd_grants st \<noteq> [] \<and> h = fenced_header (hd (dd_grants st)) \<and>
     r_get (dd_now st) (dd_redis st) (lease_key c s) \<noteq> None"
proof -
  have hd: "dd_grants st \<noteq> [] \<Longrightarrow> sl_generation (hd (dd_grants st)) = of_nat (length (dd_grants st)) \<and>
      sl_session_id (hd (dd_grants st)) = s"
    using assms(2) by (cases "dd_grants st") (simp_all add: dir_inv_def)
  have live: "r_get (dd_now st) (dd_redis st) (lease_key c s) \<noteq> None \<Longrightarrow> dd_grants st \<noteq> []"
    using assms(2) by (auto simp: dir_inv_def r_get_def split: option.splits)
  show ?thesis
    unfolding validate_inv [OF assms] fenced_header_eq Let_def
    using hd live assms(4) by (auto split: option.splits)
qed

text \<open>
  C4. Whatever runtimes do and however long leases live, the generations granted for a session are 1, 2,
  3, \<dots>, each to one runtime, and a frame passes the directory only if it carries the generation and
  owner of the latest grant: every earlier owner is fenced out as stale from the moment the next
  lease is granted, even while it still believes it owns the session. The latest owner passes as
  long as its lease lives. (Bounded by the numbers that Lua prints exactly.)
\<close>

theorem session_fencing:
  assumes "tunnel_laws lib" "map_of r (lease_key c s) = None" "map_of r (generation_key c s) = None"
    and "(dir_step lib ttl c s)\<^sup>*\<^sup>* (dir_start r now) st"
    and "length (dd_grants st) + 1 < 10 ^ 14"
  shows "grants_ok c s (dd_grants st) \<and>
    (\<forall>h. fh_session_id h = s \<longrightarrow>
       (validate_fenced_header lib c h (dd_now st) (dd_redis st) = Ok () \<longleftrightarrow>
          dd_grants st \<noteq> [] \<and> h = fenced_header (hd (dd_grants st)) \<and>
          r_get (dd_now st) (dd_redis st) (lease_key c s) \<noteq> None)) \<and>
    (\<forall>l\<in>set (tl (dd_grants st)).
       validate_fenced_header lib c (fenced_header l) (dd_now st) (dd_redis st) =
         Err (StaleGeneration s (sl_generation l) (of_nat (length (dd_grants st)))))"
proof (intro conjI allI impI ballI)
  have inv: "dir_inv lib c s st" by (rule dir_inv_reachable [OF assms])
  then show ok: "grants_ok c s (dd_grants st)" by (simp add: dir_inv_def)
  note val = validate_inv [OF assms(1) inv assms(5)]
  {
    fix h :: FencedHeader
    assume "fh_session_id h = s"
    then show "validate_fenced_header lib c h (dd_now st) (dd_redis st) = Ok () \<longleftrightarrow>
          dd_grants st \<noteq> [] \<and> h = fenced_header (hd (dd_grants st)) \<and>
          r_get (dd_now st) (dd_redis st) (lease_key c s) \<noteq> None"
      by (rule validate_accepts_latest [OF assms(1) inv assms(5)])
  next
    fix l assume l: "l \<in> set (tl (dd_grants st))"
    then obtain g ls where g: "dd_grants st = g # ls" by (cases "dd_grants st") auto
    with ok l grants_ok_generation [of c s ls l] obtain k where
      k: "0 < k" "k \<le> length ls" "sl_generation l = of_nat k" "sl_session_id l = s"
      by auto
    have n: "Suc (length ls) < 10 ^ 14" "k < 10 ^ 14" using assms(5) k(2) g by simp_all
    have "(of_nat k :: u64) < of_nat (Suc (length ls))"
      using small_generation [OF n(1)] small_generation [OF n(2)] k(2)
      unfolding word_less_nat_alt by simp
    then show "validate_fenced_header lib c (fenced_header l) (dd_now st) (dd_redis st) =
         Err (StaleGeneration s (sl_generation l) (of_nat (length (dd_grants st))))"
      using val [of "fenced_header l"] k(3,4)
      by (simp add: fenced_header_def g Let_def del: of_nat_Suc)
  }
qed

text \<open>A run: one runtime acquires, its lease expires, another takes over.\<close>

definition half_byte :: "nat \<Rightarrow> char" where "half_byte n = char_of (97 + n)"

definition ex_hex :: "string \<Rightarrow> string" where
  "ex_hex s = concat (map (\<lambda>c. [half_byte (of_char c div 16), half_byte (of_char c mod 16)]) s)"

fun ex_unhex :: "string \<Rightarrow> string" where
  "ex_unhex (a # b # s) = char_of (16 * (of_char a - 97) + (of_char b - 97) :: nat) # ex_unhex s"
| "ex_unhex _ = []"

lemma half_byte_less: "n < 16 \<Longrightarrow> (of_char (half_byte n) :: nat) = 97 + n"
  by (simp add: half_byte_def)

lemma ex_unhex_hex: "ex_unhex (ex_hex s) = s"
proof (induction s)
  case (Cons c s)
  have "(of_char c :: nat) < 16 * 16" using nat_of_char_less_256 [of c] by simp
  then have "(of_char c div 16 :: nat) < 16" "(of_char c mod 16 :: nat) < 16"
    by (simp_all add: less_mult_imp_div_less)
  with Cons show ?case by (simp add: ex_hex_def half_byte_less)
qed (simp add: ex_hex_def)

definition ex_tunnel :: tunnel_lib where
  "ex_tunnel = \<lparr>tl_hex_encode = ex_hex, tl_hex_decode = (\<lambda>s. Some (ex_unhex s)),
     tl_lua_tostring = show_nat, tl_uuid_bytes = (\<lambda>u. u), tl_uuid_of_bytes = (\<lambda>b. b)\<rparr>"

lemma ex_tunnel_laws: "tunnel_laws ex_tunnel"
proof -
  have "CHR ''|'' \<noteq> half_byte n" if n: "n < 16" for n
  proof
    assume "CHR ''|'' = half_byte n"
    then have "(of_char CHR ''|'' :: nat) = of_char (half_byte n)" by simp
    then show False using n unfolding half_byte_less [OF n] by simp
  qed
  moreover have "(of_char c div 16 :: nat) < 16" for c :: char
    using nat_of_char_less_256 [of c] by (simp add: less_mult_imp_div_less)
  ultimately have "CHR ''|'' \<notin> set (ex_hex b)" for b by (auto simp: ex_hex_def)
  moreover have "b \<noteq> [] \<longrightarrow> ex_hex b \<noteq> []" for b by (cases b) (auto simp: ex_hex_def)
  ultimately show ?thesis by (simp add: tunnel_laws_def ex_tunnel_def ex_unhex_hex)
qed

definition ex_a :: RuntimeId where "ex_a = RuntimeId (replicate 32 CHR ''A'')"
definition ex_b :: RuntimeId where "ex_b = RuntimeId (replicate 32 CHR ''B'')"
definition ex_c :: CommunityId where "ex_c = CommunityId ''c''"

definition ex_lease :: "RuntimeId \<Rightarrow> u64 \<Rightarrow> SessionLease" where
  "ex_lease owner g = \<lparr>sl_community_id = ex_c, sl_session_id = ''s'', sl_owner_runtime_id = owner,
     sl_generation = g, sl_profile = ReliableStream\<rparr>"

definition ex_redis1 :: redis where
  "ex_redis1 = snd (acquire ex_tunnel 30 ex_c ''s'' ex_a ReliableStream 0 [])"

definition ex_redis2 :: redis where
  "ex_redis2 = snd (acquire ex_tunnel 30 ex_c ''s'' ex_b ReliableStream 40 ex_redis1)"

lemma ex_acquire:
  "fst (acquire ex_tunnel 30 ex_c ''s'' ex_a ReliableStream 0 []) = Ok (Acquired (ex_lease ex_a 1))"
  "fst (acquire ex_tunnel 30 ex_c ''s'' ex_b ReliableStream 40 ex_redis1) =
     Ok (Acquired (ex_lease ex_b 2))"
  by code_simp+

lemma ex_takeover:
  "(dir_step ex_tunnel 30 ex_c ''s'')\<^sup>*\<^sup>* (dir_start [] 0)
     \<lparr>dd_redis = ex_redis2, dd_now = 40, dd_grants = [ex_lease ex_b 2, ex_lease ex_a 1]\<rparr>"
proof -
  let ?step = "dir_step ex_tunnel 30 ex_c ''s''"
  have ok: "runtime_ok ex_a" "runtime_ok ex_b" by (simp_all add: runtime_ok_def ex_a_def ex_b_def)
  let ?s1 = "\<lparr>dd_redis = ex_redis1, dd_now = 0, dd_grants = [ex_lease ex_a 1]\<rparr>"
  have "?step (dir_start [] 0) ?s1"
    using dir_step.acquire_step [of ex_a ex_tunnel 30 ex_c "''s''" ReliableStream "dir_start [] 0"
        "Ok (Acquired (ex_lease ex_a 1))" ex_redis1] ok ex_acquire(1)
    by (simp add: dir_start_def granted_def ex_redis1_def prod_eq_iff)
  moreover have "?step ?s1 (?s1\<lparr>dd_now := 40\<rparr>)" by (rule dir_step.tick) simp
  moreover have "?step (?s1\<lparr>dd_now := 40\<rparr>)
     \<lparr>dd_redis = ex_redis2, dd_now = 40, dd_grants = [ex_lease ex_b 2, ex_lease ex_a 1]\<rparr>"
    using dir_step.acquire_step [of ex_b ex_tunnel 30 ex_c "''s''" ReliableStream "?s1\<lparr>dd_now := 40\<rparr>"
        "Ok (Acquired (ex_lease ex_b 2))" ex_redis2] ok ex_acquire(2)
    by (simp add: granted_def ex_redis2_def prod_eq_iff)
  ultimately show ?thesis by (meson converse_rtranclp_into_rtranclp rtranclp.rtrancl_refl)
qed

theorem session_fencing_witness:
  "validate_fenced_header ex_tunnel ex_c (fenced_header (ex_lease ex_a 1)) 40 ex_redis2 =
     Err (StaleGeneration ''s'' 1 2) \<and>
   validate_fenced_header ex_tunnel ex_c (fenced_header (ex_lease ex_b 2)) 40 ex_redis2 = Ok ()"
proof -
  have live: "r_get 40 ex_redis2 (lease_key ex_c ''s'') \<noteq> None" by code_simp
  show ?thesis
    using session_fencing [OF ex_tunnel_laws _ _ ex_takeover] live
    by (auto simp: ex_lease_def fenced_header_def)
qed

end
