(* ===== verification/TunnelReliable.thy ===== *)
theory TunnelReliable
  imports TunnelProps
begin

text \<open>
  The reliable-stream tunnel, \<open>crates/buzz-relay/src/tunnel/reliable.rs\<close>: who owns a session, what a
  stream sends and what it accepts. The mesh transport is outside: an operation that sends gives the
  frames in order, an operation that receives takes the frame received. Transport failures end a
  stream and are left out.
\<close>

definition MAX_RELIABLE_PAYLOAD_BYTES :: nat where "MAX_RELIABLE_PAYLOAD_BYTES = 1024 * 1024"

datatype ReliableStreamError =
    DirectoryFailed DirectoryError
  | MeshFailed MeshError
  | ProfileMismatch uuid Profile Profile
  | SenderMismatch RuntimeId RuntimeId
  | UnexpectedStreamRole
  | OwnerIsNotLocal uuid RuntimeId RuntimeId
  | UnexpectedFrame string
  | FrameFenceMismatch FencedHeader FencedHeader
  | CommunityMismatch CommunityId CommunityId
  | MalformedReliableFrame string

section \<open>Wire frames\<close>

datatype ReliableWireFrame = RData CommunityId string | RGoodbye CommunityId GoodbyeReason

fun frame_community_id :: "ReliableWireFrame \<Rightarrow> CommunityId" where
  "frame_community_id (RData c _) = c"
| "frame_community_id (RGoodbye c _) = c"

definition to_wire_byte :: "GoodbyeReason \<Rightarrow> char" where
  "to_wire_byte r =
     (case r of
        SessionEnded \<Rightarrow> char_of (1 :: nat)
      | Draining \<Rightarrow> char_of (2 :: nat)
      | StaleGenerationReason \<Rightarrow> char_of (3 :: nat))"

definition from_wire_byte :: "char \<Rightarrow> ReliableStreamError + GoodbyeReason" where
  "from_wire_byte b =
     (if b = char_of (1 :: nat) then Ok SessionEnded
      else if b = char_of (2 :: nat) then Ok Draining
      else if b = char_of (3 :: nat) then Ok StaleGenerationReason
      else Err (MalformedReliableFrame ''unknown goodbye reason''))"

definition RW_VERSION :: char where "RW_VERSION = char_of (1 :: nat)"
definition RW_DATA :: char where "RW_DATA = char_of (1 :: nat)"
definition RW_GOODBYE :: char where "RW_GOODBYE = char_of (2 :: nat)"

fun encode_frame :: "tunnel_lib \<Rightarrow> ReliableWireFrame \<Rightarrow> string" where
  "encode_frame lib (RData c payload) =
     [RW_VERSION, RW_DATA] @ tl_uuid_bytes lib (community_uuid c) @ payload"
| "encode_frame lib (RGoodbye c reason) =
     [RW_VERSION, RW_GOODBYE] @ tl_uuid_bytes lib (community_uuid c) @ [to_wire_byte reason]"

definition decode_frame :: "tunnel_lib \<Rightarrow> string \<Rightarrow> ReliableStreamError + ReliableWireFrame" where
  "decode_frame lib bytes =
     (if length bytes < 18 then Err (MalformedReliableFrame ''too short'')
      else if bytes ! 0 \<noteq> RW_VERSION then Err (MalformedReliableFrame ''unknown version'')
      else
        (let c = CommunityId (tl_uuid_of_bytes lib (take 16 (drop 2 bytes))) in
         if bytes ! 1 = RW_DATA then Ok (RData c (drop 18 bytes))
         else if bytes ! 1 = RW_GOODBYE then
           (if length bytes \<noteq> 19 then Err (MalformedReliableFrame ''bad goodbye length'')
            else and_then (from_wire_byte (bytes ! 18)) (\<lambda>reason. Ok (RGoodbye c reason)))
         else Err (MalformedReliableFrame ''unknown kind'')))"

section \<open>Joining\<close>

datatype ReliableJoin = Owned SessionLease | Forwarded SessionLease RuntimeId StreamHello

definition join_session ::
  "tunnel_lib \<Rightarrow> nat \<Rightarrow> RuntimeId \<Rightarrow> CommunityId \<Rightarrow> uuid \<Rightarrow> nat \<Rightarrow> redis
     \<Rightarrow> (ReliableStreamError + ReliableJoin) \<times> redis" where
  "join_session lib lease_ttl local c s now r =
     (let (res, r') = acquire lib lease_ttl c s local ReliableStream now r
      in (and_then (map_err DirectoryFailed res) (\<lambda>a.
          case a of
            Acquired lease \<Rightarrow> Ok (Owned lease)
          | Exists lease \<Rightarrow>
              if sl_profile lease \<noteq> ReliableStream
              then Err (ProfileMismatch s ReliableStream (sl_profile lease))
              else if sl_owner_runtime_id lease = local then Ok (Owned lease)
              else Ok (Forwarded lease (sl_owner_runtime_id lease)
                     \<lparr>sh_sender = local, sh_role = Session (fenced_header lease) ReliableStream\<rparr>)),
          r'))"

text \<open>A stream pinned to a fence, with the community latched so far.\<close>

record ReliableMeshStream =
  rm_fenced :: FencedHeader
  rm_community_id :: "CommunityId option"

definition ReliableMeshStream_new :: "FencedHeader \<Rightarrow> ReliableMeshStream" where
  "ReliableMeshStream_new fenced = \<lparr>rm_fenced = fenced, rm_community_id = None\<rparr>"

definition with_community :: "CommunityId \<Rightarrow> ReliableMeshStream \<Rightarrow> ReliableMeshStream" where
  "with_community c st = st\<lparr>rm_community_id := Some c\<rparr>"

definition accept_inbound ::
  "RuntimeId \<Rightarrow> RuntimeId \<Rightarrow> StreamHello \<Rightarrow> ReliableStreamError + ReliableMeshStream" where
  "accept_inbound local from_peer hello =
     (if sh_sender hello \<noteq> from_peer then Err (SenderMismatch from_peer (sh_sender hello))
      else case sh_role hello of
        Control \<Rightarrow> Err UnexpectedStreamRole
      | Session fenced profile \<Rightarrow>
          if profile \<noteq> ReliableStream
          then Err (ProfileMismatch (fh_session_id fenced) ReliableStream profile)
          else if fh_owner_runtime_id fenced \<noteq> local
          then Err (OwnerIsNotLocal (fh_session_id fenced) (fh_owner_runtime_id fenced) local)
          else Ok (ReliableMeshStream_new fenced))"

section \<open>Sending\<close>

definition ensure_outbound_community ::
  "CommunityId \<Rightarrow> ReliableMeshStream \<Rightarrow> (ReliableStreamError + unit) \<times> ReliableMeshStream" where
  "ensure_outbound_community c st =
     (case rm_community_id st of
        Some expected \<Rightarrow>
          if expected \<noteq> c then (Err (CommunityMismatch expected c), st) else (Ok (), st)
      | None \<Rightarrow> (Ok (), st\<lparr>rm_community_id := Some c\<rparr>))"

function chunks :: "nat \<Rightarrow> 'a list \<Rightarrow> 'a list list" where
  "chunks n xs = (if xs = [] \<or> n = 0 then [] else take n xs # chunks n (drop n xs))"
  by pat_completeness auto
termination by (relation "measure (\<lambda>(n, xs). length xs)") auto

declare chunks.simps [simp del]

definition send_bytes ::
  "tunnel_lib \<Rightarrow> CommunityId \<Rightarrow> string \<Rightarrow> ReliableMeshStream
     \<Rightarrow> (ReliableStreamError + MeshStreamFrame list) \<times> ReliableMeshStream" where
  "send_bytes lib c bytes st =
     (let (res, st') = ensure_outbound_community c st
      in (and_then res (\<lambda>_. Ok (map (\<lambda>chunk.
            DataFrame (rm_fenced st') (encode_frame lib (RData c chunk)))
          (chunks MAX_RELIABLE_PAYLOAD_BYTES bytes))), st'))"

definition send_goodbye ::
  "tunnel_lib \<Rightarrow> CommunityId \<Rightarrow> GoodbyeReason \<Rightarrow> ReliableMeshStream
     \<Rightarrow> (ReliableStreamError + MeshStreamFrame list) \<times> ReliableMeshStream" where
  "send_goodbye lib c reason st =
     (let (res, st') = ensure_outbound_community c st
      in (and_then res (\<lambda>_. Ok [DataFrame (rm_fenced st') (encode_frame lib (RGoodbye c reason))]), st'))"

section \<open>Receiving\<close>

datatype ReliableFrame = FData string | FGoodbye GoodbyeReason

definition validate_frame_fence ::
  "tunnel_lib \<Rightarrow> CommunityId \<Rightarrow> FencedHeader \<Rightarrow> nat \<Rightarrow> redis \<Rightarrow> ReliableMeshStream
     \<Rightarrow> (ReliableStreamError + unit) \<times> ReliableMeshStream" where
  "validate_frame_fence lib c fenced now r st =
     (if fenced \<noteq> rm_fenced st then (Err (FrameFenceMismatch (rm_fenced st) fenced), st)
      else case rm_community_id st of
        Some expected \<Rightarrow>
          if expected \<noteq> c then (Err (CommunityMismatch expected c), st)
          else (map_err MeshFailed (validate_fenced_header lib c fenced now r), st)
      | None \<Rightarrow>
          (case validate_fenced_header lib c fenced now r of
             Inl e \<Rightarrow> (Err (MeshFailed e), st)
           | Inr _ \<Rightarrow> (Ok (), st\<lparr>rm_community_id := Some c\<rparr>)))"

definition recv_validated ::
  "tunnel_lib \<Rightarrow> MeshStreamFrame option \<Rightarrow> nat \<Rightarrow> redis \<Rightarrow> ReliableMeshStream
     \<Rightarrow> (ReliableStreamError + ReliableFrame option) \<times> ReliableMeshStream" where
  "recv_validated lib frame now r st =
     (case frame of
        None \<Rightarrow> (Ok None, st)
      | Some (DataFrame fenced payload) \<Rightarrow>
          try_op (decode_frame lib payload) st (\<lambda>f.
          let (res, st') = validate_frame_fence lib (frame_community_id f) fenced now r st
          in try_op res st' (\<lambda>_.
             (Ok (Some (case f of RData _ p \<Rightarrow> FData p | RGoodbye _ reason \<Rightarrow> FGoodbye reason)), st')))
      | Some (GoodbyeFrame _ _) \<Rightarrow> (Err (UnexpectedFrame ''goodbye''), st)
      | Some (Hello _) \<Rightarrow> (Err (UnexpectedFrame ''hello''), st)
      | Some (GossipFrame _) \<Rightarrow> (Err (UnexpectedFrame ''gossip''), st))"

section \<open>Renewing\<close>

text \<open>
  One tick of the background renewer: \<open>None\<close> goes on, \<open>Some\<close> ends the loop without the caller
  having cancelled. Then the lease is released; the result says whether ownership was lost.
\<close>

definition renewer_tick ::
  "tunnel_lib \<Rightarrow> nat \<Rightarrow> SessionLease \<Rightarrow> nat \<Rightarrow> redis \<Rightarrow> bool \<times> redis" where
  "renewer_tick lib lease_ttl lease now r =
     (let (res, r') = renew lib lease_ttl lease now r
      in (case res of Some (Inr (Renewed _)) \<Rightarrow> True | _ \<Rightarrow> False, r'))"

definition renewer_exit ::
  "tunnel_lib \<Rightarrow> SessionLease \<Rightarrow> bool \<Rightarrow> nat \<Rightarrow> redis \<Rightarrow> bool \<times> redis" where
  "renewer_exit lib lease caller_cancelled now r =
     (let (res, r') = release lib lease now r
      in (case res of
            Some (Inr (Released _)) \<Rightarrow> \<not> caller_cancelled
          | Some (Inr (NotOwner _ _)) \<Rightarrow> True
          | Some (Inl _) \<Rightarrow> \<not> caller_cancelled
          | None \<Rightarrow> \<not> caller_cancelled, r'))"

section \<open>Lemmas\<close>

definition uuid_bytes_ok :: "tunnel_lib \<Rightarrow> CommunityId \<Rightarrow> bool" where
  "uuid_bytes_ok lib c \<longleftrightarrow>
     length (tl_uuid_bytes lib (community_uuid c)) = 16 \<and>
     tl_uuid_of_bytes lib (tl_uuid_bytes lib (community_uuid c)) = community_uuid c"

lemma wire_byte_roundtrip [simp]: "from_wire_byte (to_wire_byte r) = Ok r"
  by (cases r) (simp_all add: from_wire_byte_def to_wire_byte_def)

lemma kinds_differ [simp]: "RW_GOODBYE \<noteq> RW_DATA" "RW_DATA \<noteq> RW_GOODBYE"
  by (simp_all add: RW_GOODBYE_def RW_DATA_def)

lemma frame_roundtrip:
  "uuid_bytes_ok lib (frame_community_id f) \<Longrightarrow> decode_frame lib (encode_frame lib f) = Ok f"
  by (cases f) (simp_all add: uuid_bytes_ok_def decode_frame_def nth_append)

lemma concat_chunks: "0 < n \<Longrightarrow> concat (chunks n xs) = xs"
  by (induction n xs rule: chunks.induct) (subst chunks.simps, auto)

lemma chunks_nonempty: "c \<in> set (chunks n xs) \<Longrightarrow> c \<noteq> []"
  by (induction n xs rule: chunks.induct) (subst (asm) (2) chunks.simps, auto split: if_splits)

lemma chunks_bound: "c \<in> set (chunks n xs) \<Longrightarrow> length c \<le> n"
  by (induction n xs rule: chunks.induct) (subst (asm) (2) chunks.simps, auto split: if_splits)

lemma recv_validated_Some:
  assumes "recv_validated lib frame now r st = (Ok (Some f), st')"
  obtains payload w where "frame = Some (DataFrame (rm_fenced st) payload)"
    "decode_frame lib payload = Ok w"
    "validate_fenced_header lib (frame_community_id w) (rm_fenced st) now r = Ok ()"
    "rm_community_id st = None \<or> rm_community_id st = Some (frame_community_id w)"
    "st' = st\<lparr>rm_community_id := Some (frame_community_id w)\<rparr>"
    "f = (case w of RData _ p \<Rightarrow> FData p | RGoodbye _ reason \<Rightarrow> FGoodbye reason)"
proof (cases frame)
  case (Some m)
  then obtain fenced payload where m: "frame = Some (DataFrame fenced payload)"
    using assms by (cases m) (auto simp: recv_validated_def)
  obtain w where w: "decode_frame lib payload = Ok w"
    using assms by (cases "decode_frame lib payload") (auto simp: recv_validated_def m)
  obtain res st1 where v: "validate_frame_fence lib (frame_community_id w) fenced now r st = (res, st1)"
    by (cases "validate_frame_fence lib (frame_community_id w) fenced now r st")
  have res: "res = Ok ()" "st' = st1"
    "f = (case w of RData _ p \<Rightarrow> FData p | RGoodbye _ reason \<Rightarrow> FGoodbye reason)"
    using assms w v by (cases res; auto simp: recv_validated_def m)+
  have "fenced = rm_fenced st \<and>
    validate_fenced_header lib (frame_community_id w) fenced now r = Ok () \<and>
    (rm_community_id st = None \<or> rm_community_id st = Some (frame_community_id w)) \<and>
    st1 = st\<lparr>rm_community_id := Some (frame_community_id w)\<rparr>"
    using v res(1)
    by (auto simp: validate_frame_fence_def map_err_eq split: if_splits option.splits sum.splits)
  with m w res show thesis by (intro that) auto
qed (use assms in \<open>simp add: recv_validated_def\<close>)

lemma recv_validated_frame:
  assumes "uuid_bytes_ok lib c" "rm_community_id st = None \<or> rm_community_id st = Some c"
    "validate_fenced_header lib c (rm_fenced st) now r = Ok ()"
  shows "recv_validated lib (Some (DataFrame (rm_fenced st) (encode_frame lib (RData c p)))) now r st =
    (Ok (Some (FData p)), st\<lparr>rm_community_id := Some c\<rparr>)"
proof -
  have "decode_frame lib (encode_frame lib (RData c p)) = Ok (RData c p)"
    using assms(1) by (intro frame_roundtrip) simp
  then show ?thesis
    using assms(2,3)
    by (auto simp: recv_validated_def validate_frame_fence_def simp del: encode_frame.simps)
qed

text \<open>The owner side reads the frames one by one, each against the directory of that moment.\<close>

fun recv_all ::
  "tunnel_lib \<Rightarrow> (MeshStreamFrame \<times> nat \<times> redis) list \<Rightarrow> ReliableMeshStream
     \<Rightarrow> (ReliableStreamError + string) \<times> ReliableMeshStream" where
  "recv_all lib [] st = (Ok [], st)"
| "recv_all lib ((frame, now, r) # rest) st =
     (case recv_validated lib (Some frame) now r st of
        (Inr (Some (FData p)), st') \<Rightarrow>
          (let (res, st'') = recv_all lib rest st' in (and_then res (\<lambda>ps. Ok (p @ ps)), st''))
      | (Inl e, st') \<Rightarrow> (Err e, st')
      | (_, st') \<Rightarrow> (Ok [], st'))"

lemma recv_all_data:
  assumes "uuid_bytes_ok lib c" "length ms = length ps"
    "\<forall>(now, r)\<in>set ms. validate_fenced_header lib c (rm_fenced st) now r = Ok ()"
    "rm_community_id st = None \<or> rm_community_id st = Some c"
  shows "fst (recv_all lib (zip (map (\<lambda>p. DataFrame (rm_fenced st) (encode_frame lib (RData c p))) ps) ms) st) =
    Ok (concat ps)"
  using assms(2-)
proof (induction ps arbitrary: ms st)
  case (Cons p ps)
  obtain now r ms' where ms: "ms = (now, r) # ms'" using Cons.prems(1) by (cases ms) auto
  let ?st = "st\<lparr>rm_community_id := Some c\<rparr>"
  have "fst (recv_all lib (zip (map (\<lambda>p. DataFrame (rm_fenced ?st) (encode_frame lib (RData c p))) ps) ms') ?st) =
      Ok (concat ps)"
    using Cons.prems by (intro Cons.IH) (auto simp: ms)
  moreover have "recv_validated lib (Some (DataFrame (rm_fenced st) (encode_frame lib (RData c p)))) now r st =
      (Ok (Some (FData p)), ?st)"
    using Cons.prems by (intro recv_validated_frame assms(1)) (auto simp: ms)
  ultimately show ?case
    by (simp add: ms case_prod_beta del: encode_frame.simps)
qed simp

section \<open>Properties\<close>

text \<open>
  C26. Bytes sent on a reliable stream arrive unchanged and in order. The sender cuts a message into
  chunks, none of them empty or above one mebibyte, that make up the message, and sends one frame for
  each with its fence and community; encoded by the sender and decoded by the owner they concatenate
  to the message, as long as both streams are pinned to the same fence, the receiver has latched no other community and
  the directory accepts the fence at each frame.
\<close>

theorem reliable_stream_roundtrip:
  assumes "uuid_bytes_ok lib c" "rm_fenced rcv = rm_fenced sender"
    "rm_community_id rcv = None \<or> rm_community_id rcv = Some c"
    "send_bytes lib c bytes sender = (Ok frames, sender')" "length moments = length frames"
    "\<forall>(now, r)\<in>set moments. validate_fenced_header lib c (rm_fenced rcv) now r = Ok ()"
  shows "fst (recv_all lib (zip frames moments) rcv) = Ok bytes \<and>
    (\<exists>ps. concat ps = bytes \<and> (\<forall>p\<in>set ps. p \<noteq> [] \<and> length p \<le> 2 ^ 20) \<and>
       frames = map (\<lambda>p. DataFrame (rm_fenced sender) (encode_frame lib (RData c p))) ps)"
proof -
  let ?cs = "chunks MAX_RELIABLE_PAYLOAD_BYTES bytes"
  have f: "frames = map (\<lambda>p. DataFrame (rm_fenced rcv) (encode_frame lib (RData c p))) ?cs"
    using assms(2,4)
    by (auto simp: send_bytes_def ensure_outbound_community_def split: option.splits if_splits)
  have all: "concat ?cs = bytes" by (rule concat_chunks) (simp add: MAX_RELIABLE_PAYLOAD_BYTES_def)
  moreover have "fst (recv_all lib (zip frames moments) rcv) = Ok bytes"
    using recv_all_data [OF assms(1) _ assms(6,3), of ?cs] assms(5) all unfolding f by simp
  moreover have "\<forall>p\<in>set ?cs. p \<noteq> [] \<and> length p \<le> 2 ^ 20"
    using chunks_bound [of _ MAX_RELIABLE_PAYLOAD_BYTES bytes] chunks_nonempty [of _ MAX_RELIABLE_PAYLOAD_BYTES bytes]
    by (auto simp: MAX_RELIABLE_PAYLOAD_BYTES_def)
  ultimately show ?thesis using f assms(2) by auto
qed

text \<open>
  A payload is delivered to the owner only from the latest owner's fence: when a stream yields a
  frame, its pinned fence is that of the newest lease granted for the session in the community the
  frame names, that community is latched from then on, and it equals the one latched before.
\<close>

theorem delivered_only_from_latest_owner:
  assumes "recv_validated lib frame (dd_now st) (dd_redis st) stream = (Ok (Some f), stream')"
    and "tunnel_laws lib" "map_of r (lease_key c (fh_session_id (rm_fenced stream))) = None"
    "map_of r (generation_key c (fh_session_id (rm_fenced stream))) = None"
    and "(dir_step lib ttl c (fh_session_id (rm_fenced stream)))\<^sup>*\<^sup>* (dir_start r now) st"
    and "length (dd_grants st) + 1 < 10 ^ 14" and "rm_community_id stream' = Some c"
  shows "dd_grants st \<noteq> [] \<and> rm_fenced stream = fenced_header (hd (dd_grants st)) \<and>
    rm_community_id stream \<in> {None, Some c} \<and> rm_fenced stream' = rm_fenced stream"
proof -
  obtain payload w where
    v: "validate_fenced_header lib (frame_community_id w) (rm_fenced stream) (dd_now st) (dd_redis st) = Ok ()"
    and l: "rm_community_id stream = None \<or> rm_community_id stream = Some (frame_community_id w)"
    and s': "stream' = stream\<lparr>rm_community_id := Some (frame_community_id w)\<rparr>"
    by (rule recv_validated_Some [OF assms(1)])
  have w: "frame_community_id w = c" using s' assms(7) by simp
  have inv: "dir_inv lib c (fh_session_id (rm_fenced stream)) st"
    by (rule dir_inv_reachable [OF assms(2-6)])
  have "dd_grants st \<noteq> [] \<and> rm_fenced stream = fenced_header (hd (dd_grants st))"
    using validate_accepts_latest [OF assms(2) inv assms(6)] v w by simp
  with l s' w show ?thesis by auto
qed

text \<open>
  The two ends of a forwarded join fit: when a runtime joins a session another runtime owns, the
  greeting it sends is accepted by that owner, and the two streams are pinned to the same fence, the
  one in the lease.
\<close>

theorem forwarded_join_is_accepted:
  assumes "join_session lib ttl local c s now r = (Ok (Forwarded lease to hello), r')"
  shows "to = sl_owner_runtime_id lease \<and> to \<noteq> local \<and> sl_profile lease = ReliableStream \<and>
    accept_inbound to local hello = Ok (ReliableMeshStream_new (fenced_header lease))"
proof -
  obtain res r1 where a: "acquire lib ttl c s local ReliableStream now r = (res, r1)"
    by (cases "acquire lib ttl c s local ReliableStream now r")
  obtain x where x: "res = Ok x" using assms a by (cases res) (auto simp: join_session_def)
  obtain l where "x = Exists l" using assms a x by (cases x) (auto simp: join_session_def)
  then show ?thesis
    using assms a x by (auto simp: join_session_def accept_inbound_def fenced_header_def split: if_splits)
qed

definition ex_c16 :: CommunityId where "ex_c16 = CommunityId (replicate 16 CHR ''c'')"

definition ex_redis3 :: redis where
  "ex_redis3 = snd (acquire ex_tunnel 30 ex_c16 ''s'' ex_a ReliableStream 0 [])"

definition ex_fence :: FencedHeader where
  "ex_fence = \<lparr>fh_session_id = ''s'', fh_generation = 1, fh_owner_runtime_id = ex_a\<rparr>"

definition ex_sent :: MeshStreamFrame where
  "ex_sent = DataFrame ex_fence (encode_frame ex_tunnel (RData ex_c16 ''hello''))"

lemma ex_send:
  "send_bytes ex_tunnel ex_c16 ''hello'' (ReliableMeshStream_new ex_fence) =
     (Ok [ex_sent], \<lparr>rm_fenced = ex_fence, rm_community_id = Some ex_c16\<rparr>)"
proof -
  have "chunks MAX_RELIABLE_PAYLOAD_BYTES ''hello'' = [''hello'']"
    by (simp add: chunks.simps MAX_RELIABLE_PAYLOAD_BYTES_def)
  then show ?thesis
    by (simp add: send_bytes_def ensure_outbound_community_def ReliableMeshStream_new_def ex_sent_def)
qed

lemma ex_valid: "validate_fenced_header ex_tunnel ex_c16 ex_fence 1 ex_redis3 = Ok ()"
  by code_simp

lemma ex_uuid_bytes: "uuid_bytes_ok ex_tunnel ex_c16"
  by (simp add: uuid_bytes_ok_def ex_tunnel_def ex_c16_def)

theorem reliable_stream_roundtrip_witness:
  "fst (recv_all ex_tunnel [(ex_sent, 1, ex_redis3)] (ReliableMeshStream_new ex_fence)) = Ok ''hello''"
  using reliable_stream_roundtrip [OF ex_uuid_bytes _ _ ex_send,
      of "ReliableMeshStream_new ex_fence" "[(1, ex_redis3)]"] ex_valid
  by (simp add: ReliableMeshStream_new_def)

definition ex_st :: dir_state where
  "ex_st = \<lparr>dd_redis = ex_redis3, dd_now = 1,
      dd_grants = [\<lparr>sl_community_id = ex_c16, sl_session_id = ''s'', sl_owner_runtime_id = ex_a,
        sl_generation = 1, sl_profile = ReliableStream\<rparr>]\<rparr>"

lemma ex_first_grant:
  "(dir_step ex_tunnel 30 ex_c16 ''s'')\<^sup>*\<^sup>* (dir_start [] 0) ex_st"
proof -
  let ?step = "dir_step ex_tunnel 30 ex_c16 ''s''"
  let ?l = "\<lparr>sl_community_id = ex_c16, sl_session_id = ''s'', sl_owner_runtime_id = ex_a,
        sl_generation = 1, sl_profile = ReliableStream\<rparr>"
  let ?s1 = "\<lparr>dd_redis = ex_redis3, dd_now = 0, dd_grants = [?l]\<rparr>"
  have "fst (acquire ex_tunnel 30 ex_c16 ''s'' ex_a ReliableStream 0 []) = Ok (Acquired ?l)"
    by code_simp
  then have "?step (dir_start [] 0) ?s1"
    using dir_step.acquire_step [of ex_a ex_tunnel 30 ex_c16 "''s''" ReliableStream "dir_start [] 0"
        "Ok (Acquired ?l)" ex_redis3]
    by (simp add: dir_start_def granted_def ex_redis3_def prod_eq_iff runtime_ok_def ex_a_def)
  moreover have "?step ?s1 (?s1\<lparr>dd_now := 1\<rparr>)" by (rule dir_step.tick) simp
  ultimately show ?thesis by (simp add: ex_st_def converse_rtranclp_into_rtranclp)
qed

theorem delivered_only_from_latest_owner_witness:
  "\<exists>l. ex_fence = fenced_header l \<and> sl_owner_runtime_id l = ex_a"
proof -
  have "recv_validated ex_tunnel (Some ex_sent) 1 ex_redis3 (ReliableMeshStream_new ex_fence) =
      (Ok (Some (FData ''hello'')), \<lparr>rm_fenced = ex_fence, rm_community_id = Some ex_c16\<rparr>)"
    using recv_validated_frame [OF ex_uuid_bytes, of "ReliableMeshStream_new ex_fence"] ex_valid
    by (simp add: ReliableMeshStream_new_def ex_sent_def)
  moreover have "fh_session_id (rm_fenced (ReliableMeshStream_new ex_fence)) = ''s''"
    by (simp add: ReliableMeshStream_new_def ex_fence_def)
  ultimately have "rm_fenced (ReliableMeshStream_new ex_fence) = fenced_header (hd (dd_grants ex_st))"
    using delivered_only_from_latest_owner [where st = ex_st and lib = ex_tunnel and r = "[]"
        and c = ex_c16 and ttl = 30 and now = 0 and stream = "ReliableMeshStream_new ex_fence"
        and frame = "Some ex_sent" and f = "FData ''hello''"
        and stream' = "\<lparr>rm_fenced = ex_fence, rm_community_id = Some ex_c16\<rparr>"]
      ex_tunnel_laws ex_first_grant by (simp add: ex_st_def)
  then show ?thesis by (auto simp: ReliableMeshStream_new_def ex_st_def)
qed

definition ex_hello :: StreamHello where
  "ex_hello = \<lparr>sh_sender = ex_b, sh_role = Session ex_fence ReliableStream\<rparr>"

theorem forwarded_join_is_accepted_witness:
  "accept_inbound ex_a ex_b ex_hello = Ok (ReliableMeshStream_new ex_fence)"
proof -
  let ?l = "\<lparr>sl_community_id = ex_c16, sl_session_id = ''s'', sl_owner_runtime_id = ex_a,
        sl_generation = 1, sl_profile = ReliableStream\<rparr>"
  have "fst (join_session ex_tunnel 30 ex_b ex_c16 ''s'' 1 ex_redis3) = Ok (Forwarded ?l ex_a ex_hello)"
    by code_simp
  then obtain r' where "join_session ex_tunnel 30 ex_b ex_c16 ''s'' 1 ex_redis3 =
      (Ok (Forwarded ?l ex_a ex_hello), r')" by (metis prod.collapse)
  from forwarded_join_is_accepted [OF this] show ?thesis
    by (simp add: fenced_header_def ex_fence_def)
qed

end
