(* ===== verification/MeshGossip.thy ===== *)
theory MeshGossip
  imports MeshWire
begin

text \<open>
  The membership of the relay mesh, crate \<open>buzz-relay-mesh\<close>: the gossip state and its digests and
  deltas (\<open>gossip.rs\<close>), the attested ready records (\<open>registry.rs\<close>), the membership table
  (\<open>membership.rs\<close>) and, of \<open>runtime.rs\<close>, the gossip exchange, the connections and the
  reconciliation with the registry. Signatures, hashing and hexadecimal are parameters, and so is the
  suspicion level, a floating-point function of the heartbeats. Clocks are read from an argument.
\<close>

section \<open>Gossip state\<close>

definition GOSSIP_PAYLOAD_VERSION :: u8 where "GOSSIP_PAYLOAD_VERSION = 1"

definition sat_incr :: "u64 \<Rightarrow> u64" where
  "sat_incr n = (if n = 18446744073709551615 then n else n + 1)"

text \<open>The load is the bit pattern of an \<open>f32\<close>.\<close>

record GossipRecord =
  gr_runtime_id :: RuntimeId
  gr_endpoint_addrs :: "string list"
  gr_proto_version :: u16
  gr_load :: u32
  gr_draining :: bool
  gr_capabilities :: "string list"
  gr_version :: u64
  gr_heartbeat_millis :: u64

definition GossipRecord_new :: "u64 \<Rightarrow> RuntimeId \<Rightarrow> string list \<Rightarrow> u16 \<Rightarrow> GossipRecord" where
  "GossipRecord_new now rid addrs proto =
     \<lparr>gr_runtime_id = rid, gr_endpoint_addrs = addrs, gr_proto_version = proto, gr_load = 0,
      gr_draining = False, gr_capabilities = [], gr_version = 1, gr_heartbeat_millis = now\<rparr>"

record GossipDigestEntry =
  ge_runtime_id :: RuntimeId
  ge_version :: u64

datatype GossipMessage = Digest u8 "GossipDigestEntry list" | Delta u8 "GossipRecord list"

fun message_version :: "GossipMessage \<Rightarrow> u8" where
  "message_version (Digest v _) = v"
| "message_version (Delta v _) = v"

definition decode_message :: "GossipMessage postcard \<Rightarrow> string \<Rightarrow> MeshError + GossipMessage" where
  "decode_message pc bytes =
     and_then (map_err Decode (pc_from_bytes pc bytes)) (\<lambda>message.
     if message_version message \<noteq> GOSSIP_PAYLOAD_VERSION
     then Err (Transport (''unknown gossip payload version '' @
            show_nat (unat (message_version message))))
     else Ok message)"

definition encode_message :: "GossipMessage postcard \<Rightarrow> GossipMessage \<Rightarrow> MeshError + string" where
  "encode_message pc message = map_err Encode (pc_to_extend pc message [])"

type_synonym records = "(RuntimeId \<times> GossipRecord) list"

definition GossipState_new :: "GossipRecord \<Rightarrow> records" where
  "GossipState_new local = [(gr_runtime_id local, local)]"

definition bump :: "u64 \<Rightarrow> (GossipRecord \<Rightarrow> GossipRecord) \<Rightarrow> GossipRecord \<Rightarrow> GossipRecord" where
  "bump now update r =
     (let r = update r in r\<lparr>gr_version := sat_incr (gr_version r), gr_heartbeat_millis := now\<rparr>)"

definition GossipState_update_local ::
  "u64 \<Rightarrow> RuntimeId \<Rightarrow> (GossipRecord \<Rightarrow> GossipRecord) \<Rightarrow> records \<Rightarrow> GossipRecord option \<times> records"
where
  "GossipState_update_local now rid update m =
     (case map_of m rid of
        None \<Rightarrow> (None, m)
      | Some r \<Rightarrow> (Some (bump now update r), AList.update rid (bump now update r) m))"

definition digest_of :: "(string \<Rightarrow> string) \<Rightarrow> GossipRecord list \<Rightarrow> GossipMessage" where
  "digest_of to_hex rs =
     Digest GOSSIP_PAYLOAD_VERSION
       (sort_key (\<lambda>e. to_hex (rt_bytes (ge_runtime_id e)))
         (map (\<lambda>r. \<lparr>ge_runtime_id = gr_runtime_id r, ge_version = gr_version r\<rparr>) rs))"

definition GossipState_digest :: "(string \<Rightarrow> string) \<Rightarrow> records \<Rightarrow> GossipMessage" where
  "GossipState_digest to_hex m = digest_of to_hex (map snd m)"

text \<open>Collecting the entries into a map: the last one of a runtime counts.\<close>

definition remote_versions :: "GossipDigestEntry list \<Rightarrow> (RuntimeId \<times> u64) list" where
  "remote_versions digest = map (\<lambda>e. (ge_runtime_id e, ge_version e)) (rev digest)"

definition delta_of ::
  "(string \<Rightarrow> string) \<Rightarrow> GossipRecord list \<Rightarrow> GossipDigestEntry list \<Rightarrow> GossipMessage" where
  "delta_of to_hex rs digest =
     Delta GOSSIP_PAYLOAD_VERSION
       (sort_key (\<lambda>r. to_hex (rt_bytes (gr_runtime_id r)))
         (filter (\<lambda>r. case map_of (remote_versions digest) (gr_runtime_id r) of
                        None \<Rightarrow> True | Some remote \<Rightarrow> remote < gr_version r) rs))"

definition GossipState_delta_for ::
  "(string \<Rightarrow> string) \<Rightarrow> records \<Rightarrow> GossipDigestEntry list \<Rightarrow> GossipMessage" where
  "GossipState_delta_for to_hex m digest = delta_of to_hex (map snd m) digest"

definition apply_record :: "GossipRecord \<Rightarrow> records \<Rightarrow> records" where
  "apply_record r m =
     (case map_of m (gr_runtime_id r) of
        None \<Rightarrow> AList.update (gr_runtime_id r) r m
      | Some existing \<Rightarrow>
          if gr_version r > gr_version existing then AList.update (gr_runtime_id r) r m else m)"

fun apply_delta :: "GossipRecord list \<Rightarrow> records \<Rightarrow> RuntimeId list \<times> records" where
  "apply_delta [] m = ([], m)"
| "apply_delta (r # rs) m =
     (let should_apply =
        (case map_of m (gr_runtime_id r) of
           None \<Rightarrow> True | Some existing \<Rightarrow> gr_version r > gr_version existing);
        (changed, m') = apply_delta rs (apply_record r m)
      in (if should_apply then gr_runtime_id r # changed else changed, m'))"

section \<open>Heartbeats\<close>

text \<open>Instants and intervals in nanoseconds; \<open>duration_since\<close> fails when the clock went back.\<close>

record PhiAccrual =
  pa_samples :: "nat list"
  pa_last_heartbeat :: "nat option"
  pa_max_samples :: nat

definition PhiAccrual_new :: "nat \<Rightarrow> PhiAccrual" where
  "PhiAccrual_new n = \<lparr>pa_samples = [], pa_last_heartbeat = None, pa_max_samples = max n 1\<rparr>"

definition observe :: "nat \<Rightarrow> PhiAccrual \<Rightarrow> PhiAccrual" where
  "observe at' phi =
     (let samples =
        (case pa_last_heartbeat phi of
           None \<Rightarrow> pa_samples phi
         | Some prev \<Rightarrow>
             if prev < at' then
               (let ss = pa_samples phi @ [at' - prev]
                in if length ss > pa_max_samples phi then tl ss else ss)
             else pa_samples phi)
      in phi\<lparr>pa_samples := samples, pa_last_heartbeat := Some at'\<rparr>)"

definition system_time_from_millis :: "u64 \<Rightarrow> nat" where
  "system_time_from_millis m = unat m * 1000000"

section \<open>Ready records\<close>

record mesh_lib =
  ml_to_hex :: "string \<Rightarrow> string"
  ml_pubkey_from_hex :: "string \<Rightarrow> string option"
  ml_sig_from_str :: "string \<Rightarrow> string option"
  ml_sha256 :: "string \<Rightarrow> string"
  ml_verify_schnorr :: "string \<Rightarrow> string \<Rightarrow> string \<Rightarrow> bool"

record ReadyRecord =
  rr_runtime_id :: RuntimeId
  rr_runtime_pubkey :: string
  rr_relay_pubkey :: string
  rr_relay_sig :: string
  rr_endpoint_addrs :: "string list"
  rr_proto_version :: u16
  rr_capabilities :: "string list"

definition line_feed :: string where "line_feed = [char_of (10 :: nat)]"

definition attestation_preimage :: "mesh_lib \<Rightarrow> RuntimeId \<Rightarrow> string \<Rightarrow> string" where
  "attestation_preimage lib rid relay_pubkey =
     ''buzz-relay-mesh-ready-v1'' @ line_feed @ ''runtime_pubkey='' @ ml_to_hex lib (rt_bytes rid) @
     line_feed @ ''relay_pubkey='' @ relay_pubkey"

text \<open>A parsed public key is its canonical hexadecimal form.\<close>

definition verify_relay_attestation ::
  "mesh_lib \<Rightarrow> RuntimeId \<Rightarrow> string \<Rightarrow> string \<Rightarrow> MeshError + unit" where
  "verify_relay_attestation lib rid relay_pubkey relay_sig =
     and_then (ok_or (ml_pubkey_from_hex lib relay_pubkey)
       (Transport ''ready registry attestation invalid relay_pubkey'')) (\<lambda>pk.
     and_then (ok_or (ml_sig_from_str lib relay_sig)
       (Transport ''ready registry attestation invalid relay_sig'')) (\<lambda>sig.
     guard_that (ml_verify_schnorr lib sig (ml_sha256 lib (attestation_preimage lib rid pk)) pk)
       (Transport ''ready registry attestation signature verification failed'')))"

definition verify_attestation :: "mesh_lib \<Rightarrow> ReadyRecord \<Rightarrow> MeshError + unit" where
  "verify_attestation lib r =
     (if rr_runtime_pubkey r \<noteq> ml_to_hex lib (rt_bytes (rr_runtime_id r))
      then Err (Transport ''ready registry runtime_id/runtime_pubkey mismatch'')
      else verify_relay_attestation lib (rr_runtime_id r) (rr_relay_pubkey r) (rr_relay_sig r))"

definition ready_key :: "mesh_lib \<Rightarrow> RuntimeId \<Rightarrow> string" where
  "ready_key lib rid = ''mesh:ready:'' @ ml_to_hex lib (rt_bytes rid)"

text \<open>What a scan of the registry keeps of the keys and parsed values it found.\<close>

definition scan_ready :: "mesh_lib \<Rightarrow> (string \<times> ReadyRecord option) list \<Rightarrow> ReadyRecord list" where
  "scan_ready lib entries =
     List.map_filter (\<lambda>(key, value). case value of
         None \<Rightarrow> None
       | Some r \<Rightarrow> if ready_key lib (rr_runtime_id r) = key \<and> is_ok (verify_attestation lib r)
                  then Some r else None) entries"

section \<open>The membership table\<close>

datatype ConnectionState = Disconnected | Connecting | Connected | Suspect

record MeshPeerCounters =
  pc_streams_opened :: u64
  pc_streams_received :: u64
  pc_datagrams_sent :: u64
  pc_datagrams_received :: u64
  pc_gossip_frames_sent :: u64
  pc_gossip_frames_received :: u64
  pc_stale_generation_rejections :: u64

definition zero_counters :: MeshPeerCounters where
  "zero_counters = \<lparr>pc_streams_opened = 0, pc_streams_received = 0, pc_datagrams_sent = 0,
     pc_datagrams_received = 0, pc_gossip_frames_sent = 0, pc_gossip_frames_received = 0,
     pc_stale_generation_rejections = 0\<rparr>"

record PeerState =
  ps_record :: GossipRecord
  ps_phi :: PhiAccrual
  ps_connection_state :: ConnectionState
  ps_counters :: MeshPeerCounters

record MeshMembership =
  mm_local_runtime_id :: RuntimeId
  mm_local_record :: GossipRecord
  mm_peers :: "(RuntimeId \<times> PeerState) list"
  mm_draining :: bool
  mm_stale_generation_rejections :: u64
  mm_foreign_relay_rejections :: u64
  mm_expected_relay_pubkey :: "string option"

definition MeshMembership_new :: "GossipRecord \<Rightarrow> MeshMembership" where
  "MeshMembership_new local =
     \<lparr>mm_local_runtime_id = gr_runtime_id local, mm_local_record = local, mm_peers = [],
      mm_draining = False, mm_stale_generation_rejections = 0, mm_foreign_relay_rejections = 0,
      mm_expected_relay_pubkey = None\<rparr>"

definition with_expected_relay_pubkey :: "string \<Rightarrow> MeshMembership \<Rightarrow> MeshMembership" where
  "with_expected_relay_pubkey pk m = m\<lparr>mm_expected_relay_pubkey := Some pk\<rparr>"

definition apply_gossip_record :: "GossipRecord \<Rightarrow> MeshMembership \<Rightarrow> bool \<times> MeshMembership" where
  "apply_gossip_record r m =
     (if gr_runtime_id r = mm_local_runtime_id m then (False, m)
      else
        (let heartbeat = system_time_from_millis (gr_heartbeat_millis r) in
         case map_of (mm_peers m) (gr_runtime_id r) of
           Some peer \<Rightarrow>
             if gr_version r \<le> gr_version (ps_record peer) then (False, m)
             else (True, m\<lparr>mm_peers := AList.update (gr_runtime_id r)
                    (peer\<lparr>ps_record := r, ps_connection_state := Connected,
                       ps_phi := observe heartbeat (ps_phi peer)\<rparr>) (mm_peers m)\<rparr>)
         | None \<Rightarrow>
             (True, m\<lparr>mm_peers := AList.update (gr_runtime_id r)
                \<lparr>ps_record = r, ps_phi = observe heartbeat (PhiAccrual_new 100),
                 ps_connection_state = Connected, ps_counters = zero_counters\<rparr> (mm_peers m)\<rparr>)))"

definition apply_ready_record ::
  "mesh_lib \<Rightarrow> u64 \<Rightarrow> ReadyRecord \<Rightarrow> MeshMembership \<Rightarrow> MeshMembership" where
  "apply_ready_record lib now ready m =
     (if rr_runtime_id ready = mm_local_runtime_id m then m
      else if mm_expected_relay_pubkey m \<noteq> Some (rr_relay_pubkey ready)
      then m\<lparr>mm_foreign_relay_rejections := mm_foreign_relay_rejections m + 1\<rparr>
      else if \<not> is_ok (verify_attestation lib ready) then m
      else snd (apply_gossip_record
        ((GossipRecord_new now (rr_runtime_id ready) (rr_endpoint_addrs ready) (rr_proto_version ready))
          \<lparr>gr_capabilities := rr_capabilities ready\<rparr>) m))"

definition apply_ready_records ::
  "mesh_lib \<Rightarrow> u64 \<Rightarrow> ReadyRecord list \<Rightarrow> MeshMembership \<Rightarrow> MeshMembership" where
  "apply_ready_records lib now rs m = fold (apply_ready_record lib now) rs m"

definition mark_connection_state :: "RuntimeId \<Rightarrow> ConnectionState \<Rightarrow> MeshMembership \<Rightarrow> MeshMembership"
where
  "mark_connection_state rid st m =
     (case map_of (mm_peers m) rid of
        None \<Rightarrow> m
      | Some peer \<Rightarrow>
          m\<lparr>mm_peers := AList.update rid (peer\<lparr>ps_connection_state := st\<rparr>) (mm_peers m)\<rparr>)"

definition mm_update_local ::
  "u64 \<Rightarrow> (GossipRecord \<Rightarrow> GossipRecord) \<Rightarrow> MeshMembership \<Rightarrow> GossipRecord \<times> MeshMembership" where
  "mm_update_local now update m =
     (bump now update (mm_local_record m),
      m\<lparr>mm_local_record := bump now update (mm_local_record m)\<rparr>)"

definition has_peer :: "MeshMembership \<Rightarrow> RuntimeId \<Rightarrow> bool" where
  "has_peer m rid = has_key (mm_peers m) rid"

definition mm_records :: "MeshMembership \<Rightarrow> GossipRecord list" where
  "mm_records m = map (\<lambda>(_, p). ps_record p) (mm_peers m) @ [mm_local_record m]"

definition mm_digest :: "mesh_lib \<Rightarrow> MeshMembership \<Rightarrow> GossipMessage" where
  "mm_digest lib m = digest_of (ml_to_hex lib) (mm_records m)"

definition mm_delta_for :: "mesh_lib \<Rightarrow> MeshMembership \<Rightarrow> GossipDigestEntry list \<Rightarrow> GossipMessage" where
  "mm_delta_for lib m digest = delta_of (ml_to_hex lib) (mm_records m) digest"

definition update_peer_counters ::
  "RuntimeId \<Rightarrow> (MeshPeerCounters \<Rightarrow> MeshPeerCounters) \<Rightarrow> MeshMembership \<Rightarrow> MeshMembership" where
  "update_peer_counters rid f m =
     (case map_of (mm_peers m) rid of
        None \<Rightarrow> m
      | Some peer \<Rightarrow>
          m\<lparr>mm_peers := AList.update rid (peer\<lparr>ps_counters := f (ps_counters peer)\<rparr>) (mm_peers m)\<rparr>)"

definition record_stream_opened :: "RuntimeId \<Rightarrow> MeshMembership \<Rightarrow> MeshMembership" where
  "record_stream_opened rid =
     update_peer_counters rid (\<lambda>c. c\<lparr>pc_streams_opened := sat_incr (pc_streams_opened c)\<rparr>)"

definition record_stream_received :: "RuntimeId \<Rightarrow> MeshMembership \<Rightarrow> MeshMembership" where
  "record_stream_received rid =
     update_peer_counters rid (\<lambda>c. c\<lparr>pc_streams_received := sat_incr (pc_streams_received c)\<rparr>)"

definition record_datagram_sent :: "RuntimeId \<Rightarrow> MeshMembership \<Rightarrow> MeshMembership" where
  "record_datagram_sent rid =
     update_peer_counters rid (\<lambda>c. c\<lparr>pc_datagrams_sent := sat_incr (pc_datagrams_sent c)\<rparr>)"

definition record_datagram_received :: "RuntimeId \<Rightarrow> MeshMembership \<Rightarrow> MeshMembership" where
  "record_datagram_received rid =
     update_peer_counters rid (\<lambda>c. c\<lparr>pc_datagrams_received := sat_incr (pc_datagrams_received c)\<rparr>)"

definition record_gossip_frame_sent :: "RuntimeId \<Rightarrow> MeshMembership \<Rightarrow> MeshMembership" where
  "record_gossip_frame_sent rid =
     update_peer_counters rid (\<lambda>c. c\<lparr>pc_gossip_frames_sent := sat_incr (pc_gossip_frames_sent c)\<rparr>)"

definition record_gossip_frame_received :: "RuntimeId \<Rightarrow> MeshMembership \<Rightarrow> MeshMembership" where
  "record_gossip_frame_received rid =
     update_peer_counters rid
       (\<lambda>c. c\<lparr>pc_gossip_frames_received := sat_incr (pc_gossip_frames_received c)\<rparr>)"

definition record_stale_generation_rejection ::
  "RuntimeId option \<Rightarrow> MeshMembership \<Rightarrow> MeshMembership" where
  "record_stale_generation_rejection rid m =
     (let m = m\<lparr>mm_stale_generation_rejections := mm_stale_generation_rejections m + 1\<rparr>
      in case rid of
           None \<Rightarrow> m
         | Some rid \<Rightarrow> update_peer_counters rid
             (\<lambda>c. c\<lparr>pc_stale_generation_rejections := sat_incr (pc_stale_generation_rejections c)\<rparr>) m)"

text \<open>The routable peers: those not suspected at this moment.\<close>

definition mm_routable ::
  "(PhiAccrual \<Rightarrow> nat \<Rightarrow> bool) \<Rightarrow> nat \<Rightarrow> MeshMembership \<Rightarrow> (RuntimeId \<times> bool \<times> u32) list" where
  "mm_routable suspected now m =
     map (\<lambda>(_, p). (gr_runtime_id (ps_record p), gr_draining (ps_record p), gr_load (ps_record p)))
       (filter (\<lambda>(_, p). \<not> suspected (ps_phi p) now) (mm_peers m))"

definition begin_drain :: "u64 \<Rightarrow> MeshMembership \<Rightarrow> MeshMembership" where
  "begin_drain now m =
     snd (mm_update_local now (\<lambda>r. r\<lparr>gr_draining := True\<rparr>) (m\<lparr>mm_draining := True\<rparr>))"

section \<open>The runtime\<close>

text \<open>
  One gossip message on a control stream: the answer to send, and the new table; and the same from
  the frame's payload, which is counted for the peer it came from.
\<close>

definition on_gossip ::
  "mesh_lib \<Rightarrow> GossipMessage \<Rightarrow> MeshMembership \<Rightarrow> GossipMessage option \<times> MeshMembership" where
  "on_gossip lib msg m =
     (case msg of
        Digest _ entries \<Rightarrow> (Some (mm_delta_for lib m entries), m)
      | Delta _ rs \<Rightarrow> (None, fold (\<lambda>r m. snd (apply_gossip_record r m)) rs m))"

definition on_gossip_frame ::
  "mesh_lib \<Rightarrow> GossipMessage postcard \<Rightarrow> RuntimeId \<Rightarrow> string \<Rightarrow> MeshMembership
     \<Rightarrow> string option \<times> MeshMembership" where
  "on_gossip_frame lib pc remote payload m =
     (let m = record_gossip_frame_received remote m in
      case decode_message pc payload of
        Inl _ \<Rightarrow> (None, m)
      | Inr msg \<Rightarrow>
          (let (answer, m') = on_gossip lib msg m
           in (case answer of
                 None \<Rightarrow> None
               | Some a \<Rightarrow> (case encode_message pc a of Inr bytes \<Rightarrow> Some bytes | Inl _ \<Rightarrow> None), m')))"

definition gossip_tick :: "mesh_lib \<Rightarrow> u64 \<Rightarrow> MeshMembership \<Rightarrow> GossipMessage \<times> MeshMembership" where
  "gossip_tick lib now m =
     (let m' = snd (mm_update_local now (\<lambda>r. r) m) in (mm_digest lib m', m'))"

text \<open>A scan of the registry that failed is \<open>None\<close>, as is a runtime without a registry.\<close>

definition rescan ::
  "mesh_lib \<Rightarrow> u64 \<Rightarrow> (string \<times> ReadyRecord option) list option \<Rightarrow> MeshMembership \<Rightarrow> MeshMembership"
where
  "rescan lib now registry m =
     (case registry of
        Some entries \<Rightarrow> apply_ready_records lib now (scan_ready lib entries) m
      | None \<Rightarrow> m)"

definition is_known_peer ::
  "mesh_lib \<Rightarrow> u64 \<Rightarrow> (string \<times> ReadyRecord option) list option \<Rightarrow> RuntimeId \<Rightarrow> MeshMembership
     \<Rightarrow> bool \<times> MeshMembership" where
  "is_known_peer lib now registry rid m =
     (if has_peer m rid then (True, m)
      else (let m' = rescan lib now registry m in (has_peer m' rid, m')))"

definition new_connection_wins :: "RuntimeId \<Rightarrow> RuntimeId \<Rightarrow> bool \<Rightarrow> bool" where
  "new_connection_wins local remote new_dialed_by_us =
     (if rt_bytes local < rt_bytes remote then new_dialed_by_us else \<not> new_dialed_by_us)"

text \<open>
  A connection is recorded as whether this runtime dialed it, and whether it has the writer queue of
  a control stream.
\<close>

record PeerEntry =
  pe_dialed_by_us :: bool
  pe_control_tx :: bool

record MeshRuntime =
  mr_runtime_id :: RuntimeId
  mr_peers :: "(RuntimeId \<times> PeerEntry) list"
  mr_membership :: MeshMembership

definition MeshRuntime_start :: "RuntimeId \<Rightarrow> MeshMembership \<Rightarrow> MeshRuntime" where
  "MeshRuntime_start rid m = \<lparr>mr_runtime_id = rid, mr_peers = [], mr_membership = m\<rparr>"

definition mark_peer :: "RuntimeId \<Rightarrow> ConnectionState \<Rightarrow> MeshRuntime \<Rightarrow> MeshRuntime" where
  "mark_peer remote st rt =
     rt\<lparr>mr_membership := mark_connection_state remote st (mr_membership rt)\<rparr>"

definition install_peer :: "RuntimeId \<Rightarrow> bool \<Rightarrow> MeshRuntime \<Rightarrow> bool \<times> MeshRuntime" where
  "install_peer remote dialed_by_us rt =
     (if has_key (mr_peers rt) remote \<and> \<not> new_connection_wins (mr_runtime_id rt) remote dialed_by_us
      then (False, rt)
      else
        (True, mark_peer remote Connected (rt\<lparr>mr_peers := AList.update remote
           \<lparr>pe_dialed_by_us = dialed_by_us, pe_control_tx = dialed_by_us\<rparr> (mr_peers rt)\<rparr>)))"

definition remove_peer :: "RuntimeId \<Rightarrow> MeshRuntime \<Rightarrow> MeshRuntime" where
  "remove_peer remote rt =
     (if has_key (mr_peers rt) remote
      then mark_peer remote Disconnected (rt\<lparr>mr_peers := AList.delete remote (mr_peers rt)\<rparr>)
      else rt)"

text \<open>An accepted connection, and the control stream its dialer then opens.\<close>

definition accept_connection ::
  "mesh_lib \<Rightarrow> u64 \<Rightarrow> (string \<times> ReadyRecord option) list option \<Rightarrow> RuntimeId \<Rightarrow> MeshRuntime
     \<Rightarrow> MeshRuntime" where
  "accept_connection lib now registry remote rt =
     (let (known, m) = is_known_peer lib now registry remote (mr_membership rt);
          rt = rt\<lparr>mr_membership := m\<rparr>
      in if known then snd (install_peer remote False rt) else rt)"

definition accept_control_stream :: "RuntimeId \<Rightarrow> MeshRuntime \<Rightarrow> MeshRuntime" where
  "accept_control_stream remote rt =
     (case map_of (mr_peers rt) remote of
        None \<Rightarrow> rt
      | Some entry \<Rightarrow>
          rt\<lparr>mr_peers := AList.update remote (entry\<lparr>pe_control_tx := True\<rparr>) (mr_peers rt)\<rparr>)"

text \<open>Dialing: what parsing an address and connecting to it gives is a parameter.\<close>

datatype dial_outcome = BadAddr | BadPeerId | DialFailed | Dialed

fun dial_addrs ::
  "(string \<Rightarrow> dial_outcome) \<Rightarrow> RuntimeId \<Rightarrow> string list \<Rightarrow> MeshRuntime \<Rightarrow> MeshRuntime" where
  "dial_addrs connect remote [] rt = mark_peer remote Disconnected rt"
| "dial_addrs connect remote (addr # rest) rt =
     (case connect addr of
        BadAddr \<Rightarrow> dial_addrs connect remote rest rt
      | BadPeerId \<Rightarrow> rt
      | DialFailed \<Rightarrow> dial_addrs connect remote rest (mark_peer remote Connecting rt)
      | Dialed \<Rightarrow> snd (install_peer remote True (mark_peer remote Connecting rt)))"

definition dial_peer ::
  "(RuntimeId \<Rightarrow> string \<Rightarrow> dial_outcome) \<Rightarrow> GossipRecord \<Rightarrow> MeshRuntime \<Rightarrow> MeshRuntime" where
  "dial_peer connect r rt =
     dial_addrs (connect (gr_runtime_id r)) (gr_runtime_id r) (gr_endpoint_addrs r) rt"

definition reconcile_once ::
  "mesh_lib \<Rightarrow> u64 \<Rightarrow> (string \<times> ReadyRecord option) list option
     \<Rightarrow> (RuntimeId \<Rightarrow> string \<Rightarrow> dial_outcome) \<Rightarrow> MeshRuntime \<Rightarrow> MeshRuntime" where
  "reconcile_once lib now registry connect rt =
     (let rt = rt\<lparr>mr_membership := rescan lib now registry (mr_membership rt)\<rparr>;
          candidates = filter (\<lambda>r. gr_runtime_id r \<noteq> mr_runtime_id rt \<and> \<not> gr_draining r)
            (mm_records (mr_membership rt))
      in fold (\<lambda>r rt. if has_key (mr_peers rt) (gr_runtime_id r) then rt else dial_peer connect r rt)
           candidates rt)"

end
