(* ===== verification/MeshProps.thy ===== *)
theory MeshProps
  imports MeshGossip
begin

text \<open>
  Properties of the mesh membership. A table whose entries carry versions and where only a newer
  version replaces an older one is \<open>versioned_table\<close>; the gossip state and the membership table are
  two instances of it.
\<close>

section \<open>Versioned tables\<close>

definition newer :: "('r \<Rightarrow> 'v :: linorder) \<Rightarrow> 'r option \<Rightarrow> 'r \<Rightarrow> bool" where
  "newer ver old r \<longleftrightarrow> (case old of None \<Rightarrow> True | Some e \<Rightarrow> ver e < ver r)"

lemma newer_simps [simp]: "newer ver None r" "newer ver (Some e) r \<longleftrightarrow> ver e < ver r"
  by (simp_all add: newer_def)

locale versioned_table =
  fixes look :: "'s \<Rightarrow> 'k \<Rightarrow> 'r option"
    and put :: "'r \<Rightarrow> 's \<Rightarrow> 's"
    and key :: "'r \<Rightarrow> 'k"
    and ver :: "'r \<Rightarrow> 'v :: linorder"
    and open_to :: "'s \<Rightarrow> 'k \<Rightarrow> bool"
  assumes look_put: "look (put r s) k =
      (if k = key r \<and> open_to s k \<and> newer ver (look s k) r then Some r else look s k)"
    and open_put: "open_to (put r s) = open_to s"
begin

lemma open_fold: "open_to (fold put rs s) = open_to s"
  by (induction rs arbitrary: s) (simp_all add: open_put)

lemma never_older: "look s k = Some e \<Longrightarrow> \<exists>e'. look (fold put rs s) k = Some e' \<and> ver e \<le> ver e'"
proof (induction rs arbitrary: s e)
  case (Cons r rs)
  have "\<exists>e1. look (put r s) k = Some e1 \<and> ver e \<le> ver e1"
    using Cons.prems by (auto simp: look_put)
  then show ?case using Cons.IH [of "put r s"] order_trans by fastforce
qed simp

text \<open>The entry after a run of records is one of the newest of those offered for its key.\<close>

lemma look_fold:
  "look (fold put rs s) k = Some e \<Longrightarrow>
     (e \<in> set rs \<and> key e = k \<or> look s k = Some e) \<and>
     (\<forall>r\<in>set rs. key r = k \<longrightarrow> open_to s k \<longrightarrow> ver r \<le> ver e) \<and>
     (\<forall>e0. look s k = Some e0 \<longrightarrow> ver e0 \<le> ver e)"
proof (induction rs arbitrary: s)
  case (Cons r rs)
  have e: "look (fold put rs (put r s)) k = Some e" using Cons.prems by simp
  note IH = Cons.IH [OF e, unfolded open_put]
  have "\<exists>e1. look (put r s) k = Some e1 \<and> ver r \<le> ver e1" if "key r = k" "open_to s k"
    using that by (cases "look s k") (auto simp: look_put)
  then have r: "ver r \<le> ver e" if "key r = k" "open_to s k"
    using that IH by fastforce
  have "ver e0 \<le> ver e" if "look s k = Some e0" for e0
    using that never_older [of s k e0 "r # rs"] Cons.prems by simp
  with IH r show ?case by (auto simp: look_put split: if_splits)
qed simp

lemma look_fold_None:
  "look (fold put rs s) k = None \<longleftrightarrow> look s k = None \<and> (open_to s k \<longrightarrow> (\<forall>r\<in>set rs. key r \<noteq> k))"
proof (induction rs arbitrary: s)
  case (Cons r rs)
  show ?case by (simp add: Cons.IH look_put open_put) auto
qed simp

lemma fold_foreign: "(open_to s k \<longrightarrow> (\<forall>r\<in>set rs. key r \<noteq> k)) \<Longrightarrow> look (fold put rs s) k = look s k"
  by (induction rs arbitrary: s) (auto simp: look_put open_put)

text \<open>Records of one key and version are the same: only their owner makes them.\<close>

definition single_writer :: "'r set \<Rightarrow> bool" where
  "single_writer R \<longleftrightarrow> (\<forall>x\<in>R. \<forall>y\<in>R. key x = key y \<longrightarrow> ver x = ver y \<longrightarrow> x = y)"

lemma order_irrelevant:
  assumes same: "set rs = set qs" and sw: "single_writer (set rs \<union> {e. look s k = Some e})"
    and keyed: "\<And>e. look s k = Some e \<Longrightarrow> key e = k"
  shows "look (fold put rs s) k = look (fold put qs s) k"
proof (cases "open_to s k \<and> (\<exists>r\<in>set rs. key r = k)")
  case False
  then show ?thesis using fold_foreign [of s k rs] fold_foreign [of s k qs] same by auto
next
  case True
  then obtain x y where x: "look (fold put rs s) k = Some x" and y: "look (fold put qs s) k = Some y"
    using look_fold_None [of rs s k] look_fold_None [of qs s k] same by auto
  note X = look_fold [OF x] and Y = look_fold [OF y]
  have kx: "key x = k" "key y = k" using X Y keyed by auto
  have "ver y \<le> ver x" using X Y same True by auto
  moreover have "ver x \<le> ver y" using X Y same True by auto
  moreover have "x \<in> set rs \<union> {e. look s k = Some e}" "y \<in> set rs \<union> {e. look s k = Some e}"
    using X Y same by auto
  ultimately have "x = y" using sw kx unfolding single_writer_def by (metis order_antisym)
  with x y show ?thesis by simp
qed

end

definition mm_peer_record :: "MeshMembership \<Rightarrow> RuntimeId \<Rightarrow> GossipRecord option" where
  "mm_peer_record m k = map_option ps_record (map_of (mm_peers m) k)"

interpretation gs: versioned_table map_of apply_record gr_runtime_id gr_version "\<lambda>_ _. True"
  by unfold_locales (auto simp: apply_record_def newer_def split: option.splits)

lemma apply_gossip_local [simp]:
  "mm_local_runtime_id (snd (apply_gossip_record r m)) = mm_local_runtime_id m"
  "mm_local_record (snd (apply_gossip_record r m)) = mm_local_record m"
  "mm_expected_relay_pubkey (snd (apply_gossip_record r m)) = mm_expected_relay_pubkey m"
  by (auto simp: apply_gossip_record_def Let_def split: option.splits)

interpretation mm: versioned_table mm_peer_record "\<lambda>r m. snd (apply_gossip_record r m)"
  gr_runtime_id gr_version "\<lambda>m k. k \<noteq> mm_local_runtime_id m"
proof
  fix r m k
  show "mm_peer_record (snd (apply_gossip_record r m)) k =
      (if k = gr_runtime_id r \<and> k \<noteq> mm_local_runtime_id m \<and> newer gr_version (mm_peer_record m k) r
       then Some r else mm_peer_record m k)"
    by (auto simp: apply_gossip_record_def mm_peer_record_def newer_def Let_def split: option.splits)
qed auto

lemma apply_delta_fold: "snd (apply_delta rs m) = fold apply_record rs m"
  by (induction rs arbitrary: m) (simp_all add: case_prod_beta Let_def)

section \<open>Well-formed tables\<close>

definition mm_ok :: "MeshMembership \<Rightarrow> bool" where
  "mm_ok m \<longleftrightarrow>
     gr_runtime_id (mm_local_record m) = mm_local_runtime_id m \<and> keys_distinct (mm_peers m) \<and>
     (\<forall>k p. map_of (mm_peers m) k = Some p \<longrightarrow>
        gr_runtime_id (ps_record p) = k \<and> k \<noteq> mm_local_runtime_id m)"

text \<open>All a runtime knows: its own record and its peers'.\<close>

definition mm_known :: "MeshMembership \<Rightarrow> RuntimeId \<Rightarrow> GossipRecord option" where
  "mm_known m k =
     (if k = mm_local_runtime_id m then Some (mm_local_record m) else mm_peer_record m k)"

lemma mm_ok_gossip: "mm_ok m \<Longrightarrow> mm_ok (snd (apply_gossip_record r m))"
  by (auto simp: mm_ok_def apply_gossip_record_def Let_def split: option.splits if_splits
      simp del: map_of_eq_Some_iff)

lemma mm_ok_fold_gossip: "mm_ok m \<Longrightarrow> mm_ok (fold (\<lambda>r m. snd (apply_gossip_record r m)) rs m)"
  by (induction rs arbitrary: m) (simp_all add: mm_ok_gossip)

lemma mm_ok_ready: "mm_ok m \<Longrightarrow> mm_ok (apply_ready_record lib now r m)"
  by (simp add: apply_ready_record_def mm_ok_gossip) (simp add: mm_ok_def)

lemma mm_ok_readies: "mm_ok m \<Longrightarrow> mm_ok (apply_ready_records lib now rs m)"
  unfolding apply_ready_records_def by (induction rs arbitrary: m) (simp_all add: mm_ok_ready)

lemma mm_records_ids:
  assumes "mm_ok m"
  shows "distinct (map gr_runtime_id (mm_records m))"
    "r \<in> set (mm_records m) \<longleftrightarrow> mm_known m (gr_runtime_id r) = Some r"
proof -
  have id: "gr_runtime_id (ps_record p) = k \<and> k \<noteq> mm_local_runtime_id m" if "(k, p) \<in> set (mm_peers m)" for k p
    using assms that by (auto simp: mm_ok_def)
  have "map (\<lambda>x. gr_runtime_id (case x of (_, p) \<Rightarrow> ps_record p)) (mm_peers m) = map fst (mm_peers m)"
    using id by (auto simp: map_eq_conv)
  then have "map gr_runtime_id (mm_records m) = map fst (mm_peers m) @ [mm_local_runtime_id m]"
    using assms by (simp add: mm_records_def mm_ok_def o_def)
  moreover have "mm_local_runtime_id m \<notin> fst ` set (mm_peers m)" using id by fastforce
  ultimately show "distinct (map gr_runtime_id (mm_records m))"
    using assms by (simp add: mm_ok_def)
  have d: "map_of (mm_peers m) k = Some p \<longleftrightarrow> (k, p) \<in> set (mm_peers m)" for k p
    using assms by (simp add: mm_ok_def)
  show "r \<in> set (mm_records m) \<longleftrightarrow> mm_known m (gr_runtime_id r) = Some r"
  proof (cases "gr_runtime_id r = mm_local_runtime_id m")
    case True
    then have "r \<notin> ps_record ` (snd ` set (mm_peers m))" using id by fastforce
    then have "r \<in> set (mm_records m) \<longleftrightarrow> r = mm_local_record m"
      by (auto simp: mm_records_def image_iff)
    then show ?thesis using True by (auto simp: mm_known_def)
  next
    case False
    then have "r \<noteq> mm_local_record m" using assms by (auto simp: mm_ok_def)
    then have "r \<in> set (mm_records m) \<longleftrightarrow> (\<exists>k p. (k, p) \<in> set (mm_peers m) \<and> ps_record p = r)"
      by (force simp: mm_records_def image_iff)
    also have "\<dots> \<longleftrightarrow> (\<exists>p. (gr_runtime_id r, p) \<in> set (mm_peers m) \<and> ps_record p = r)"
      using id by blast
    also have "\<dots> \<longleftrightarrow> mm_known m (gr_runtime_id r) = Some r"
      using False d by (auto simp: mm_known_def mm_peer_record_def)
    finally show ?thesis .
  qed
qed

lemma known_version:
  assumes "distinct (map gr_runtime_id rs)" "digest_of to_hex rs = Digest v es"
  shows "map_of (remote_versions es) k = Some n \<longleftrightarrow> (\<exists>r\<in>set rs. gr_runtime_id r = k \<and> gr_version r = n)"
proof -
  let ?f = "\<lambda>r. \<lparr>ge_runtime_id = gr_runtime_id r, ge_version = gr_version r\<rparr>"
  have es: "mset es = mset (map ?f rs)" using assms(2) by (auto simp: digest_of_def)
  then have s: "set es = ?f ` set rs" by (metis list.set_map mset_eq_setD)
  have "mset (map ge_runtime_id es) = image_mset ge_runtime_id (mset es)" by simp
  also have "\<dots> = mset (map gr_runtime_id rs)" unfolding es by (simp add: multiset.map_comp o_def)
  finally have "distinct (map ge_runtime_id es)" using assms(1) mset_eq_imp_distinct_iff by blast
  then have "distinct (map fst (remote_versions es))"
    by (simp add: remote_versions_def o_def flip: rev_map)
  then have "map_of (remote_versions es) k = Some n \<longleftrightarrow> (k, n) \<in> set (remote_versions es)" by simp
  also have "\<dots> \<longleftrightarrow> (\<exists>r\<in>set rs. gr_runtime_id r = k \<and> gr_version r = n)"
    by (force simp: remote_versions_def s)
  finally show ?thesis .
qed

lemma delta_records:
  assumes "distinct (map gr_runtime_id rs)" "digest_of to_hex rs = Digest v es"
    and "delta_of to_hex qs es = Delta v' ds"
  shows "set ds = {q \<in> set qs. \<forall>r\<in>set rs. gr_runtime_id r = gr_runtime_id q \<longrightarrow> gr_version r < gr_version q}"
proof -
  have ds: "set ds = {q \<in> set qs. case map_of (remote_versions es) (gr_runtime_id q) of
      None \<Rightarrow> True | Some remote \<Rightarrow> remote < gr_version q}"
    using assms(3) by (auto simp: delta_of_def)
  have "(case map_of (remote_versions es) k of None \<Rightarrow> True | Some remote \<Rightarrow> remote < n) \<longleftrightarrow>
      (\<forall>r\<in>set rs. gr_runtime_id r = k \<longrightarrow> gr_version r < n)" for k n
  proof (cases "map_of (remote_versions es) k")
    case None
    then have "\<forall>r\<in>set rs. gr_runtime_id r \<noteq> k"
      using known_version [OF assms(1,2), of k] by auto
    with None show ?thesis by simp
  next
    case (Some a)
    then obtain r where "r \<in> set rs" "gr_runtime_id r = k" "gr_version r = a"
      using known_version [OF assms(1,2), of k a] by auto
    moreover have "gr_version r = a" if "r \<in> set rs" "gr_runtime_id r = k" for r
      using known_version [OF assms(1,2), of k "gr_version r"] that Some by auto
    ultimately show ?thesis using Some by auto
  qed
  then show ?thesis unfolding ds by blast
qed

lemma mm_peer_known: "k \<noteq> mm_local_runtime_id m \<Longrightarrow> mm_peer_record m k = mm_known m k"
  by (simp add: mm_known_def)

definition newest :: "GossipRecord option \<Rightarrow> GossipRecord option \<Rightarrow> GossipRecord option" where
  "newest x y =
     (case (x, y) of
        (None, _) \<Rightarrow> y
      | (_, None) \<Rightarrow> x
      | (Some a, Some b) \<Rightarrow> if gr_version a < gr_version b then y else x)"

lemma mm_known_id: "mm_ok m \<Longrightarrow> mm_known m k = Some r \<Longrightarrow> gr_runtime_id r = k"
  by (auto simp: mm_known_def mm_peer_record_def mm_ok_def split: if_splits simp del: map_of_eq_Some_iff)

text \<open>
  What a record known by the other end makes of a peer: one that is not newer changes nothing, a newer
  one replaces the record, counts as a heartbeat and marks the peer connected, and a first one enters
  the peer with fresh statistics.
\<close>

definition merged_peer :: "PeerState option \<Rightarrow> GossipRecord option \<Rightarrow> PeerState option" where
  "merged_peer old offered =
     (case (old, offered) of
        (_, None) \<Rightarrow> old
      | (None, Some r) \<Rightarrow>
          Some \<lparr>ps_record = r,
                ps_phi = observe (system_time_from_millis (gr_heartbeat_millis r)) (PhiAccrual_new 100),
                ps_connection_state = Connected, ps_counters = zero_counters\<rparr>
      | (Some p, Some r) \<Rightarrow>
          Some (if gr_version (ps_record p) < gr_version r
                then p\<lparr>ps_record := r,
                       ps_phi := observe (system_time_from_millis (gr_heartbeat_millis r)) (ps_phi p),
                       ps_connection_state := Connected\<rparr>
                else p))"

lemma merged_peer_None [simp]: "merged_peer p None = p"
  by (simp add: merged_peer_def split: option.splits)

lemma same_peers: "\<exists>ps. (m :: MeshMembership) = m\<lparr>mm_peers := ps\<rparr>"
  by (rule exI [of _ "mm_peers m"]) simp

lemma gossip_frame: "\<exists>ps. snd (apply_gossip_record r m) = m\<lparr>mm_peers := ps\<rparr>"
  using same_peers [of m] by (auto simp: apply_gossip_record_def Let_def split: option.splits)

lemma gossip_peer:
  "map_of (mm_peers (snd (apply_gossip_record r m))) k =
     (if k = gr_runtime_id r \<and> k \<noteq> mm_local_runtime_id m
      then merged_peer (map_of (mm_peers m) k) (Some r) else map_of (mm_peers m) k)"
  by (auto simp: apply_gossip_record_def merged_peer_def Let_def split: option.splits)

abbreviation gossip_all :: "GossipRecord list \<Rightarrow> MeshMembership \<Rightarrow> MeshMembership" where
  "gossip_all rs m \<equiv> fold (\<lambda>r m. snd (apply_gossip_record r m)) rs m"

lemma gossip_fold_frame: "\<exists>ps. gossip_all rs m = m\<lparr>mm_peers := ps\<rparr>"
proof (induction rs arbitrary: m)
  case Nil
  show ?case using same_peers by simp
next
  case (Cons r rs)
  obtain ps where "snd (apply_gossip_record r m) = m\<lparr>mm_peers := ps\<rparr>" using gossip_frame by blast
  then show ?case using Cons.IH [of "m\<lparr>mm_peers := ps\<rparr>"] by simp
qed

lemma gossip_fold_other:
  "(\<forall>r\<in>set rs. gr_runtime_id r \<noteq> k) \<or> k = mm_local_runtime_id m \<Longrightarrow>
     map_of (mm_peers (gossip_all rs m)) k = map_of (mm_peers m) k"
  by (induction rs arbitrary: m) (auto simp: gossip_peer)

lemma gossip_fold_peer:
  assumes "distinct (map gr_runtime_id rs)" "r \<in> set rs" "gr_runtime_id r \<noteq> mm_local_runtime_id m"
  shows "map_of (mm_peers (gossip_all rs m)) (gr_runtime_id r) =
    merged_peer (map_of (mm_peers m) (gr_runtime_id r)) (Some r)"
  using assms
proof (induction rs arbitrary: m)
  case (Cons q rs)
  show ?case
  proof (cases "r = q")
    case True
    then have "\<forall>x\<in>set rs. gr_runtime_id x \<noteq> gr_runtime_id r"
      using Cons.prems(1) by (auto simp: image_iff)
    then show ?thesis using True Cons.prems(3)
      by (simp add: gossip_fold_other gossip_peer)
  next
    case False
    then have "r \<in> set rs" "gr_runtime_id q \<noteq> gr_runtime_id r"
      using Cons.prems(1,2) by (auto simp: image_iff)
    then show ?thesis using Cons.IH [of "snd (apply_gossip_record q m)"] Cons.prems(1,3)
      by (simp add: gossip_peer)
  qed
qed simp

text \<open>The answer to a digest offers each record at most once, and exactly the newer ones.\<close>

lemma answered_records:
  assumes a: "mm_ok a" and b: "mm_ok b"
    and answer: "fst (on_gossip lib (mm_digest lib a) b) = Some (Delta v ds)"
  shows "distinct (map gr_runtime_id ds)"
    "q \<in> set ds \<longleftrightarrow> mm_known b (gr_runtime_id q) = Some q \<and>
       newer gr_version (mm_known a (gr_runtime_id q)) q"
proof -
  obtain w es where dg: "mm_digest lib a = Digest w es" by (simp add: mm_digest_def digest_of_def)
  have delta: "mm_delta_for lib b es = Delta v ds" using answer by (simp add: on_gossip_def dg)
  define P where "P = (\<lambda>r :: GossipRecord. case map_of (remote_versions es) (gr_runtime_id r) of
      None \<Rightarrow> True | Some remote \<Rightarrow> remote < gr_version r)"
  have "mset ds = mset (filter P (mm_records b))"
    using delta by (auto simp: mm_delta_for_def delta_of_def P_def)
  then have "mset (map gr_runtime_id ds) = mset (map gr_runtime_id (filter P (mm_records b)))"
    by simp
  moreover have "distinct (map gr_runtime_id (filter P (mm_records b)))"
    using mm_records_ids(1) [OF b] by (rule distinct_map_filter)
  ultimately show "distinct (map gr_runtime_id ds)" using mset_eq_imp_distinct_iff by blast
  have ds: "set ds = {q \<in> set (mm_records b). \<forall>r\<in>set (mm_records a).
      gr_runtime_id r = gr_runtime_id q \<longrightarrow> gr_version r < gr_version q}"
    using delta_records [OF mm_records_ids(1) [OF a]] dg delta
    by (auto simp: mm_digest_def mm_delta_for_def)
  have "(\<forall>r\<in>set (mm_records a). gr_runtime_id r = gr_runtime_id q \<longrightarrow> gr_version r < gr_version q) \<longleftrightarrow>
      newer gr_version (mm_known a (gr_runtime_id q)) q"
  proof (cases "mm_known a (gr_runtime_id q)")
    case None
    then show ?thesis using mm_records_ids(2) [OF a] by auto
  next
    case (Some e)
    then have "gr_runtime_id e = gr_runtime_id q" by (rule mm_known_id [OF a])
    with Some have "r \<in> set (mm_records a) \<and> gr_runtime_id r = gr_runtime_id q \<longleftrightarrow> r = e" for r
      using mm_records_ids(2) [OF a, of r] by auto
    then show ?thesis using Some by (metis newer_simps(2))
  qed
  then show "q \<in> set ds \<longleftrightarrow> mm_known b (gr_runtime_id q) = Some q \<and>
       newer gr_version (mm_known a (gr_runtime_id q)) q"
    unfolding ds using mm_records_ids(2) [OF b, of q] by simp
qed

lemma merged_record:
  "map_option ps_record (merged_peer p r) = newest (map_option ps_record p) r"
  by (auto simp: merged_peer_def newest_def split: option.splits)


text \<open>
  Gossip converges whatever the order of arrival: two deltas with the same records, in any order and
  with any repetition, lead to the same table of records, provided that records of one runtime and
  version are the same, as they are when only their owner makes them.
\<close>

theorem gossip_order_irrelevant:
  assumes "mm_ok m" "set rs = set qs"
    and "\<And>x y. x \<in> set rs \<union> set (mm_records m) \<Longrightarrow> y \<in> set rs \<union> set (mm_records m) \<Longrightarrow>
      gr_runtime_id x = gr_runtime_id y \<Longrightarrow> gr_version x = gr_version y \<Longrightarrow> x = y"
  shows "mm_known (snd (on_gossip lib (Delta v rs) m)) = mm_known (snd (on_gossip lib (Delta v qs) m))"
proof
  fix k
  let ?apply = "\<lambda>r m. snd (apply_gossip_record r m)"
  have loc: "mm_local_runtime_id (fold ?apply xs m) = mm_local_runtime_id m \<and>
      mm_local_record (fold ?apply xs m) = mm_local_record m" for xs
    by (induction xs arbitrary: m) simp_all
  have "mm_peer_record (fold ?apply rs m) k = mm_peer_record (fold ?apply qs m) k"
    if "k \<noteq> mm_local_runtime_id m"
  proof (rule mm.order_irrelevant [OF assms(2)])
    have id: "mm_peer_record m k = Some e \<Longrightarrow> gr_runtime_id e = k \<and> e \<in> set (mm_records m)" for e
      using that mm_records_ids(2) [OF assms(1)] mm_known_id [OF assms(1)] mm_peer_known by metis
    then show "mm.single_writer (set rs \<union> {e. mm_peer_record m k = Some e})"
      unfolding mm.single_writer_def using assms(3) by blast
    show "\<And>e. mm_peer_record m k = Some e \<Longrightarrow> gr_runtime_id e = k" using id by blast
  qed
  then show "mm_known (snd (on_gossip lib (Delta v rs) m)) k =
      mm_known (snd (on_gossip lib (Delta v qs) m)) k"
    using loc by (simp add: mm_known_def on_gossip_def)
qed

text \<open>
  C38. Seeds are admitted only on the deployment's own attestation: a runtime that enters the table
  through ready records appears in one of them with the expected relay key and a binding of its
  runtime key that verifies; a table without an anchor admits none. (Gossip asks for no such proof,
  see \<open>gossip_admits_unattested\<close>.)
\<close>

theorem ready_admission:
  assumes "has_peer (apply_ready_records lib now rs m) k" "\<not> has_peer m k"
  shows "\<exists>r\<in>set rs. rr_runtime_id r = k \<and> k \<noteq> mm_local_runtime_id m \<and>
    mm_expected_relay_pubkey m = Some (rr_relay_pubkey r) \<and> verify_attestation lib r = Ok ()"
  using assms unfolding apply_ready_records_def
proof (induction rs arbitrary: m)
  case (Cons r rs)
  have exp: "mm_expected_relay_pubkey (apply_ready_record lib now r m) = mm_expected_relay_pubkey m \<and>
      mm_local_runtime_id (apply_ready_record lib now r m) = mm_local_runtime_id m"
    by (simp add: apply_ready_record_def)
  show ?case
  proof (cases "has_peer (apply_ready_record lib now r m) k")
    case False
    with Cons.IH [of "apply_ready_record lib now r m"] Cons.prems exp show ?thesis by auto
  next
    case True
    have "rr_runtime_id r = k \<and> k \<noteq> mm_local_runtime_id m \<and>
        mm_expected_relay_pubkey m = Some (rr_relay_pubkey r) \<and> is_ok (verify_attestation lib r)"
      using True Cons.prems(2)
      by (auto simp: apply_ready_record_def has_peer_def apply_gossip_record_def GossipRecord_new_def
          Let_def split: if_splits option.splits)
    then show ?thesis by (auto simp: is_ok_iff)
  qed
qed simp

lemma gossip_admits_unattested:
  "gr_runtime_id r \<noteq> mm_local_runtime_id m \<Longrightarrow>
     has_peer (snd (on_gossip lib (Delta v [r]) m)) (gr_runtime_id r)"
  by (auto simp: on_gossip_def has_peer_def apply_gossip_record_def has_key_def Let_def split: option.splits)

text \<open>The connection a runtime keeps when both ends dialed, and the order in which it installs them.\<close>

definition kept_after_race :: "RuntimeId \<Rightarrow> RuntimeId \<Rightarrow> bool \<Rightarrow> MeshMembership \<Rightarrow> bool option" where
  "kept_after_race local remote own_first m =
     map_option pe_dialed_by_us
       (map_of (mr_peers (snd (install_peer remote (\<not> own_first)
          (snd (install_peer remote own_first (MeshRuntime_start local m)))))) remote)"

text \<open>
  When two runtimes dial each other at once, both ends keep the same connection, whichever each of
  them installs first: the one dialed by the runtime with the smaller id.
\<close>

theorem simultaneous_dial_agrees:
  assumes "rt_bytes x \<noteq> rt_bytes y"
  shows "\<exists>x_dialed. \<forall>fx fy mx my. kept_after_race x y fx mx = Some x_dialed \<and>
    kept_after_race y x fy my = Some (\<not> x_dialed)"
proof (rule exI [of _ "rt_bytes x < rt_bytes y"])
  have "rt_bytes y < rt_bytes x \<longleftrightarrow> \<not> rt_bytes x < rt_bytes y" using assms by auto
  then show "\<forall>fx fy mx my. kept_after_race x y fx mx = Some (rt_bytes x < rt_bytes y) \<and>
      kept_after_race y x fy my = Some (\<not> rt_bytes x < rt_bytes y)"
    by (auto simp: kept_after_race_def install_peer_def mark_peer_def MeshRuntime_start_def
        new_connection_wins_def has_key_def)
qed

text \<open>An inbound connection is installed only for a runtime the table knows by then.\<close>

lemma accepted_is_known:
  assumes "map_of (mr_peers (accept_connection lib now registry k rt)) k \<noteq> map_of (mr_peers rt) k"
  shows "has_peer (mr_membership (accept_connection lib now registry k rt)) k"
proof -
  have "has_peer (mark_connection_state k st m) k' \<longleftrightarrow> has_peer m k'" for st m k'
    by (auto simp: mark_connection_state_def has_peer_def has_key_def update_conv' split: option.splits)
  then show ?thesis
    using assms
    by (auto simp: accept_connection_def install_peer_def mark_peer_def is_known_peer_def Let_def
        split: if_splits prod.splits)
qed

section \<open>Examples\<close>

definition ex_rid :: "char \<Rightarrow> RuntimeId" where "ex_rid c = RuntimeId (replicate 32 c)"

definition ex_rec :: "char \<Rightarrow> u64 \<Rightarrow> GossipRecord" where
  "ex_rec c v = (GossipRecord_new 0 (ex_rid c) [[c]] 1)\<lparr>gr_version := v\<rparr>"

definition ex_table :: "char \<Rightarrow> (char \<times> u64) list \<Rightarrow> MeshMembership" where
  "ex_table c rs = fold (\<lambda>(d, v) m. snd (apply_gossip_record (ex_rec d v) m)) rs
     (MeshMembership_new (ex_rec c 1))"

definition ex_mesh :: mesh_lib where
  "ex_mesh = \<lparr>ml_to_hex = (\<lambda>s. s), ml_pubkey_from_hex = Some, ml_sig_from_str = Some,
     ml_sha256 = (\<lambda>s. s), ml_verify_schnorr = (\<lambda>sig msg pk. sig = pk)\<rparr>"

lemma ex_rid_eq [simp]: "ex_rid c = ex_rid d \<longleftrightarrow> c = d"
  by (simp add: ex_rid_def)

lemma ex_rec_simps [simp]: "gr_runtime_id (ex_rec c v) = ex_rid c" "gr_version (ex_rec c v) = v"
  by (simp_all add: ex_rec_def GossipRecord_new_def)

lemmas ex_table_eval = ex_table_def MeshMembership_new_def apply_gossip_record_def mm_known_def
  mm_peer_record_def newest_def Let_def

lemma ex_table_ok: "mm_ok (ex_table c rs)"
proof -
  have "mm_ok (fold (\<lambda>(d, v) m. snd (apply_gossip_record (ex_rec d v) m)) rs m)" if "mm_ok m" for m
    using that by (induction rs arbitrary: m) (auto simp: mm_ok_gossip)
  moreover have "mm_ok (MeshMembership_new (ex_rec c 1))"
    by (simp add: mm_ok_def MeshMembership_new_def)
  ultimately show ?thesis unfolding ex_table_def by blast
qed


theorem gossip_order_irrelevant_witness:
  "mm_known (snd (on_gossip ex_mesh (Delta 1 [ex_rec CHR ''c'' 7, ex_rec CHR ''c'' 3])
       (ex_table CHR ''a'' []))) =
   mm_known (snd (on_gossip ex_mesh (Delta 1 [ex_rec CHR ''c'' 3, ex_rec CHR ''c'' 7, ex_rec CHR ''c'' 3])
       (ex_table CHR ''a'' [])))"
proof (rule gossip_order_irrelevant [OF ex_table_ok])
  fix x y :: GossipRecord
  assume "x \<in> set [ex_rec CHR ''c'' 7, ex_rec CHR ''c'' 3] \<union> set (mm_records (ex_table CHR ''a'' []))"
    "y \<in> set [ex_rec CHR ''c'' 7, ex_rec CHR ''c'' 3] \<union> set (mm_records (ex_table CHR ''a'' []))"
    "gr_runtime_id x = gr_runtime_id y" "gr_version x = gr_version y"
  then show "x = y"
    by (auto simp: ex_table_def mm_records_def MeshMembership_new_def ex_rec_def GossipRecord_new_def
        ex_rid_def)
qed auto

definition ex_ready :: "char \<Rightarrow> string \<Rightarrow> ReadyRecord" where
  "ex_ready c relay = \<lparr>rr_runtime_id = ex_rid c, rr_runtime_pubkey = replicate 32 c,
     rr_relay_pubkey = relay, rr_relay_sig = relay, rr_endpoint_addrs = [], rr_proto_version = 1,
     rr_capabilities = []\<rparr>"

theorem ready_admission_witness:
  "\<exists>r\<in>set [ex_ready CHR ''b'' ''other'', ex_ready CHR ''c'' ''relay'']. rr_runtime_id r = ex_rid CHR ''c'' \<and>
     Some ''relay'' = Some (rr_relay_pubkey r) \<and> verify_attestation ex_mesh r = Ok ()"
proof -
  let ?m = "with_expected_relay_pubkey ''relay'' (ex_table CHR ''a'' [])"
  have "has_peer (apply_ready_records ex_mesh 0 [ex_ready CHR ''b'' ''other'', ex_ready CHR ''c'' ''relay''] ?m)
      (ex_rid CHR ''c'')"
    "\<not> has_peer ?m (ex_rid CHR ''c'')"
    by (simp_all add: apply_ready_records_def apply_ready_record_def has_peer_def ex_table_eval
        has_key_def with_expected_relay_pubkey_def ex_ready_def ex_mesh_def verify_attestation_def ok_or_def
        verify_relay_attestation_def GossipRecord_new_def ex_rid_def)
  from ready_admission [OF this]
  show ?thesis by (auto simp: with_expected_relay_pubkey_def)
qed

theorem simultaneous_dial_agrees_witness:
  "\<exists>x_dialed. \<forall>fx fy mx my. kept_after_race (ex_rid CHR ''a'') (ex_rid CHR ''b'') fx mx = Some x_dialed \<and>
    kept_after_race (ex_rid CHR ''b'') (ex_rid CHR ''a'') fy my = Some (\<not> x_dialed)"
  by (rule simultaneous_dial_agrees) (simp add: ex_rid_def)

end
