(* ===== verification/Json.thy ===== *)
theory Json
  imports Text
begin

text \<open>
  JSON values as \<open>serde_json::Value\<close> holds them, and the accessors the crates use. A number is its text,
  which the parser has checked; the keys of an object are distinct.
\<close>

datatype json =
    JNull
  | JBool bool
  | JNumber string
  | JString string
  | JArray "json list"
  | JObject "(string \<times> json) list"

definition jv_str :: "json \<Rightarrow> string option" where
  "jv_str v = (case v of JString s \<Rightarrow> Some s | _ \<Rightarrow> None)"

definition jv_array :: "json \<Rightarrow> json list option" where
  "jv_array v = (case v of JArray vs \<Rightarrow> Some vs | _ \<Rightarrow> None)"

definition jv_object :: "json \<Rightarrow> (string \<times> json) list option" where
  "jv_object v = (case v of JObject m \<Rightarrow> Some m | _ \<Rightarrow> None)"

definition digits_below :: "nat \<Rightarrow> string \<Rightarrow> nat option" where
  "digits_below bound s =
     (if s \<noteq> [] \<and> list_all is_digit s \<and> digits_value s < bound then Some (digits_value s) else None)"

definition jv_u64 :: "json \<Rightarrow> nat option" where
  "jv_u64 v = (case v of JNumber s \<Rightarrow> digits_below (2 ^ 64) s | _ \<Rightarrow> None)"

text \<open>A negative integer; the text \<open>-0\<close> is a floating-point number.\<close>

definition jv_i64 :: "json \<Rightarrow> int option" where
  "jv_i64 v =
     (case v of
        JNumber (c # ds) \<Rightarrow>
          if c = CHR ''-''
          then (case digits_below (2 ^ 63 + 1) ds of
                  Some n \<Rightarrow> if n = 0 then None else Some (- int n)
                | None \<Rightarrow> None)
          else map_option int (digits_below (2 ^ 63) (c # ds))
      | _ \<Rightarrow> None)"

definition json_get :: "json \<Rightarrow> string \<Rightarrow> json option" where
  "json_get v k = (case v of JObject m \<Rightarrow> map_of m k | _ \<Rightarrow> None)"

text \<open>\<open>opt.and_then(f)\<close>.\<close>

definition opt_then :: "'a option \<Rightarrow> ('a \<Rightarrow> 'b option) \<Rightarrow> 'b option" where
  "opt_then x g = (case x of Some a \<Rightarrow> g a | None \<Rightarrow> None)"

definition show_int :: "int \<Rightarrow> string" where
  "show_int n = (if n < 0 then CHR ''-'' # show_nat (nat (- n)) else show_nat (nat n))"

lemma digits_below_show [simp]: "n < b \<Longrightarrow> digits_below b (show_nat n) = Some n"
  by (simp add: digits_below_def show_nat_digits)

lemma as_u64_show [simp]: "n < 2 ^ 64 \<Longrightarrow> jv_u64 (JNumber (show_nat n)) = Some n"
  by (simp add: jv_u64_def)

end
