(* ===== verification/AuditLog.thy ===== *)
theory AuditLog
  imports Json Nostr
begin

text \<open>
  The audit log, crate \<open>buzz-audit\<close>: actions, entries, the hash of an entry over its canonical JSON
  (\<open>hash.rs\<close>), and the service that appends to a community's chain and verifies it
  (\<open>service.rs\<close>). The table \<open>audit_log\<close> is the list of its rows in order of insertion, with its two
  unique indexes. Postgres is a parameter where it changes a value it stores (\<open>TIMESTAMPTZ\<close>, \<open>JSONB\<close>), and
  a \<open>db_fault\<close> says how a call fails; the advisory lock makes a call atomic. SHA-256, the text of
  timestamps and the text of JSON scalars are parameters. Times are nanoseconds since the epoch.
\<close>

section \<open>Actions and entries\<close>

datatype AuditAction =
    EventCreated | EventDeleted | ChannelCreated | ChannelUpdated | ChannelDeleted | MemberAdded
  | MemberRemoved | AuthSuccess | AuthFailure | RateLimitExceeded | MediaUploaded

definition AuditAction_as_str :: "AuditAction \<Rightarrow> string" where
  "AuditAction_as_str a =
     (case a of
        EventCreated \<Rightarrow> ''event_created''
      | EventDeleted \<Rightarrow> ''event_deleted''
      | ChannelCreated \<Rightarrow> ''channel_created''
      | ChannelUpdated \<Rightarrow> ''channel_updated''
      | ChannelDeleted \<Rightarrow> ''channel_deleted''
      | MemberAdded \<Rightarrow> ''member_added''
      | MemberRemoved \<Rightarrow> ''member_removed''
      | AuthSuccess \<Rightarrow> ''auth_success''
      | AuthFailure \<Rightarrow> ''auth_failure''
      | RateLimitExceeded \<Rightarrow> ''rate_limit_exceeded''
      | MediaUploaded \<Rightarrow> ''media_uploaded'')"

definition AuditAction_ALL :: "AuditAction list" where
  "AuditAction_ALL =
     [EventCreated, EventDeleted, ChannelCreated, ChannelUpdated, ChannelDeleted, MemberAdded,
      MemberRemoved, AuthSuccess, AuthFailure, RateLimitExceeded, MediaUploaded]"

definition AuditAction_from_str :: "string \<Rightarrow> string + AuditAction" where
  "AuditAction_from_str s =
     ok_or (List.find (\<lambda>a. AuditAction_as_str a = s) AuditAction_ALL)
       (''unknown audit action: '' @ s)"

record AuditEntry =
  ae_community_id :: uuid
  ae_seq :: int
  ae_hash :: string
  ae_prev_hash :: "string option"
  ae_action :: AuditAction
  ae_actor_pubkey :: "string option"
  ae_object_id :: "string option"
  ae_detail :: json
  ae_created_at :: int

record NewAuditEntry =
  ne_community_id :: CommunityId
  ne_action :: AuditAction
  ne_actor_pubkey :: "string option"
  ne_object_id :: "string option"
  ne_detail :: json

datatype AuditError =
    Database string
  | ChainViolation int
  | HashMismatch int
  | UnknownAction
  | Serialization string

section \<open>The hash of an entry\<close>

record audit_lib =
  al_sha256 :: "string \<Rightarrow> string"
  al_uuid_bytes :: "uuid \<Rightarrow> string"
  al_rfc3339 :: "int \<Rightarrow> string"
  al_json_to_string :: "json \<Rightarrow> string + string"
  al_timestamptz :: "int \<Rightarrow> int"
  al_jsonb :: "json \<Rightarrow> json option"

definition GENESIS_HASH :: string where "GENESIS_HASH = replicate 32 (char_of (0 :: nat))"

definition to_storage_precision :: "int \<Rightarrow> int" where
  "to_storage_precision t = t - t mod 1000"

fun sequence :: "('e + 'a) list \<Rightarrow> 'e + 'a list" where
  "sequence [] = Ok []"
| "sequence (r # rs) = and_then r (\<lambda>a. and_then (sequence rs) (\<lambda>as. Ok (a # as)))"

definition delimited :: "string \<Rightarrow> string list \<Rightarrow> string \<Rightarrow> string" where
  "delimited l parts r = l @ join_with CHR '','' parts @ r"

text \<open>Objects are written with their keys in order, each a JSON string.\<close>

fun canonical_json :: "audit_lib \<Rightarrow> json \<Rightarrow> string + string" where
  "canonical_json lib (JObject m) =
     and_then (sequence (map (\<lambda>(k, r). and_then (al_json_to_string lib (JString k)) (\<lambda>k'.
         and_then r (\<lambda>v. Ok (k' @ '':'' @ v))))
       (sort_key fst (map (\<lambda>kv. (fst kv, canonical_json lib (snd kv))) m))))
     (\<lambda>parts. Ok (delimited ''{'' parts ''}''))"
| "canonical_json lib (JArray vs) =
     and_then (sequence (map (canonical_json lib) vs)) (\<lambda>parts. Ok (delimited ''['' parts '']''))"
| "canonical_json lib other = al_json_to_string lib other"

definition be_bytes :: "int \<Rightarrow> string" where
  "be_bytes n =
     map (\<lambda>i. char_of (nat (n mod 2 ^ 64 div 2 ^ (8 * i) mod 256))) [7, 6, 5, 4, 3, 2, 1, 0]"

definition tagged :: "string option \<Rightarrow> string" where
  "tagged x = (case x of Some s \<Rightarrow> char_of (1 :: nat) # s | None \<Rightarrow> [char_of (0 :: nat)])"

definition prev_bytes :: "string option \<Rightarrow> string" where
  "prev_bytes h = (case h of Some h \<Rightarrow> h | None \<Rightarrow> GENESIS_HASH)"

definition hash_input :: "audit_lib \<Rightarrow> AuditEntry \<Rightarrow> AuditError + string" where
  "hash_input lib e =
     and_then (map_err Serialization (canonical_json lib (ae_detail e))) (\<lambda>detail.
     Ok (al_uuid_bytes lib (ae_community_id e) @ be_bytes (ae_seq e) @
         al_rfc3339 lib (to_storage_precision (ae_created_at e)) @
         AuditAction_as_str (ae_action e) @ tagged (ae_actor_pubkey e) @ tagged (ae_object_id e) @
         detail @ prev_bytes (ae_prev_hash e)))"

definition compute_hash :: "audit_lib \<Rightarrow> AuditEntry \<Rightarrow> AuditError + string" where
  "compute_hash lib e = and_then (hash_input lib e) (\<lambda>bytes. Ok (al_sha256 lib bytes))"

section \<open>The table\<close>

text \<open>A row holds an entry, with the action as text.\<close>

record audit_row =
  rw_entry :: AuditEntry
  rw_action :: string

abbreviation "rw_community r \<equiv> ae_community_id (rw_entry r)"
abbreviation "rw_seq r \<equiv> ae_seq (rw_entry r)"

definition row_to_audit_entry :: "audit_row \<Rightarrow> AuditError + AuditEntry" where
  "row_to_audit_entry row =
     and_then (map_err (\<lambda>_. UnknownAction) (AuditAction_from_str (rw_action row))) (\<lambda>action.
     Ok ((rw_entry row)\<lparr>ae_action := action\<rparr>))"

definition chain_rows :: "uuid \<Rightarrow> audit_row list \<Rightarrow> audit_row list" where
  "chain_rows c table = filter (\<lambda>r. rw_community r = c) table"

definition chain_head :: "uuid \<Rightarrow> audit_row list \<Rightarrow> (int \<times> string) option" where
  "chain_head c table =
     (case sort_key (\<lambda>r. - rw_seq r) (chain_rows c table) of
        [] \<Rightarrow> None
      | row # _ \<Rightarrow> Some (rw_seq row, ae_hash (rw_entry row)))"

definition violates_unique :: "AuditEntry \<Rightarrow> audit_row list \<Rightarrow> bool" where
  "violates_unique e table =
     list_ex (\<lambda>r. rw_seq r = ae_seq e \<or> ae_hash (rw_entry r) = ae_hash e)
       (chain_rows (ae_community_id e) table)"

section \<open>Appending\<close>

text \<open>
  A connection that breaks before the commit reports an error and changes nothing; one that breaks
  after it reports an error although the row is there.
\<close>

datatype db_fault = NoFault | NotApplied string | Applied string

definition wrap_i64 :: "int \<Rightarrow> int" where
  "wrap_i64 n = (n + 2 ^ 63) mod 2 ^ 64 - 2 ^ 63"

definition insert_entry ::
  "audit_lib \<Rightarrow> AuditEntry \<Rightarrow> audit_row list \<Rightarrow> (AuditError + unit) \<times> audit_row list" where
  "insert_entry lib e table =
     (case al_jsonb lib (ae_detail e) of
        None \<Rightarrow> (Err (Database ''unsupported JSON''), table)
      | Some stored \<Rightarrow>
          if violates_unique e table then (Err (Database ''duplicate key''), table)
          else (Ok (), table @ [\<lparr>rw_entry = e\<lparr>ae_detail := stored,
                 ae_created_at := al_timestamptz lib (ae_created_at e)\<rparr>,
                 rw_action = AuditAction_as_str (ae_action e)\<rparr>]))"

definition log_inner ::
  "audit_lib \<Rightarrow> db_fault \<Rightarrow> int \<Rightarrow> NewAuditEntry \<Rightarrow> audit_row list
     \<Rightarrow> (AuditError + AuditEntry) \<times> audit_row list" where
  "log_inner lib fault now new table =
     (case fault of
        NotApplied err \<Rightarrow> (Err (Database err), table)
      | _ \<Rightarrow>
          (let community_id = community_uuid (ne_community_id new);
               (prev_seq, prev_hash) = (case chain_head community_id table of
                   Some (seq, h) \<Rightarrow> (seq, Some h)
                 | None \<Rightarrow> (0, None));
               audit_entry = \<lparr>ae_community_id = community_id, ae_seq = wrap_i64 (prev_seq + 1),
                 ae_hash = [], ae_prev_hash = prev_hash, ae_action = ne_action new,
                 ae_actor_pubkey = ne_actor_pubkey new, ae_object_id = ne_object_id new,
                 ae_detail = ne_detail new, ae_created_at = to_storage_precision now\<rparr>
           in try_op (compute_hash lib audit_entry) table (\<lambda>h.
              let audit_entry = audit_entry\<lparr>ae_hash := h\<rparr>;
                  (inserted, table') = insert_entry lib audit_entry table
              in (and_then inserted (\<lambda>_. case fault of
                    Applied err \<Rightarrow> Err (Database err)
                  | _ \<Rightarrow> Ok audit_entry), table'))))"

text \<open>The advisory lock is taken first, and a failure to take it ends the call.\<close>

definition log_entry ::
  "audit_lib \<Rightarrow> string option \<Rightarrow> db_fault \<Rightarrow> int \<Rightarrow> NewAuditEntry \<Rightarrow> audit_row list
     \<Rightarrow> (AuditError + AuditEntry) \<times> audit_row list" where
  "log_entry lib lock_error fault now new table =
     (case lock_error of
        Some err \<Rightarrow> (Err (Database err), table)
      | None \<Rightarrow> log_inner lib fault now new table)"

section \<open>Reading\<close>

fun verify_rows ::
  "audit_lib \<Rightarrow> string option \<Rightarrow> audit_row list \<Rightarrow> AuditError + bool" where
  "verify_rows lib expected_prev [] = Ok True"
| "verify_rows lib expected_prev (row # rows) =
     and_then (row_to_audit_entry row) (\<lambda>entry.
     if expected_prev \<noteq> None \<and> ae_prev_hash entry \<noteq> expected_prev
     then Err (ChainViolation (ae_seq entry))
     else
       and_then (compute_hash lib entry) (\<lambda>computed.
       if computed \<noteq> ae_hash entry then Err (HashMismatch (ae_seq entry))
       else verify_rows lib (Some (ae_hash entry)) rows))"

definition segment :: "uuid \<Rightarrow> int \<Rightarrow> int \<Rightarrow> audit_row list \<Rightarrow> audit_row list" where
  "segment c from_seq to_seq table =
     sort_key (\<lambda>r. rw_seq r) (filter (\<lambda>r. from_seq \<le> rw_seq r \<and> rw_seq r \<le> to_seq) (chain_rows c table))"

definition verify_chain ::
  "audit_lib \<Rightarrow> CommunityId \<Rightarrow> int \<Rightarrow> int \<Rightarrow> audit_row list \<Rightarrow> AuditError + bool" where
  "verify_chain lib community from_seq to_seq table =
     (let rows = segment (community_uuid community) from_seq to_seq table
      in if rows = [] then Ok False else verify_rows lib None rows)"

definition get_entries ::
  "CommunityId \<Rightarrow> int \<Rightarrow> int \<Rightarrow> audit_row list \<Rightarrow> AuditError + AuditEntry list" where
  "get_entries community from_seq limit table =
     (if limit < 0 then Err (Database ''LIMIT must not be negative'')
      else sequence (map row_to_audit_entry (take (nat limit)
        (sort_key (\<lambda>r. rw_seq r)
          (filter (\<lambda>r. from_seq \<le> rw_seq r) (chain_rows (community_uuid community) table))))))"

end
