(* ===== verification/AuditProps.thy ===== *)
theory AuditProps
  imports AuditLog "HOL-Library.Code_Target_Nat" "HOL-Library.Code_Target_Int"
begin

text \<open>
  Properties of the audit log: what the service writes verifies, whatever fails in between; a chain
  that verifies is fixed by its last hash; and what the hash of an entry does not tell apart.
\<close>

section \<open>Chains\<close>

definition row_ok :: "audit_lib \<Rightarrow> audit_row \<Rightarrow> bool" where
  "row_ok lib r \<longleftrightarrow>
     rw_action r = AuditAction_as_str (ae_action (rw_entry r)) \<and>
     compute_hash lib (rw_entry r) = Ok (ae_hash (rw_entry r))"

fun chain_from :: "audit_lib \<Rightarrow> int \<Rightarrow> string option \<Rightarrow> audit_row list \<Rightarrow> bool" where
  "chain_from lib n prev [] = True"
| "chain_from lib n prev (r # rows) =
     (rw_seq r = n \<and> ae_prev_hash (rw_entry r) = prev \<and> row_ok lib r \<and>
      chain_from lib (n + 1) (Some (ae_hash (rw_entry r))) rows)"

lemma action_roundtrip [simp]: "AuditAction_from_str (AuditAction_as_str a) = Ok a"
  by (cases a) (simp_all add: AuditAction_from_str_def AuditAction_ALL_def AuditAction_as_str_def)

lemma row_ok_entry: "row_ok lib r \<Longrightarrow> row_to_audit_entry r = Ok (rw_entry r)"
  by (simp add: row_ok_def row_to_audit_entry_def)

lemma chain_from_snoc:
  "chain_from lib n prev (rows @ [r]) \<longleftrightarrow>
     chain_from lib n prev rows \<and> rw_seq r = n + int (length rows) \<and>
     ae_prev_hash (rw_entry r) = (if rows = [] then prev else Some (ae_hash (rw_entry (last rows)))) \<and>
     row_ok lib r"
  by (induction rows arbitrary: n prev) (auto simp: algebra_simps)

lemma chain_from_seqs: "chain_from lib n prev rows \<Longrightarrow> map (\<lambda>r. rw_seq r) rows = [n..n + int (length rows) - 1]"
proof (induction rows arbitrary: n prev)
  case (Cons r rows)
  then have "map (\<lambda>r. rw_seq r) rows = [n + 1..n + 1 + int (length rows) - 1]"
    using Cons.IH [of "n + 1" "Some (ae_hash (rw_entry r))"] by simp
  then show ?case using Cons.prems upto_rec1 [of n "n + int (length rows)"] by (simp add: algebra_simps)
qed simp

lemma chain_from_verifies:
  "chain_from lib n prev rows \<Longrightarrow> expected = None \<or> expected = prev \<Longrightarrow>
     verify_rows lib expected rows = Ok True"
  by (induction rows arbitrary: n prev expected) (auto simp: row_ok_entry row_ok_def row_ok_entry [unfolded row_ok_def])

lemma chain_from_upper:
  "chain_from lib n prev rows \<Longrightarrow> l \<le> n \<Longrightarrow>
     chain_from lib n prev (filter (\<lambda>r. l \<le> rw_seq r \<and> rw_seq r \<le> h) rows)"
proof (induction rows arbitrary: n prev)
  case (Cons r rows)
  have "x > h" if "n > h" "x \<in> (\<lambda>r. rw_seq r) ` set rows" for x
  proof -
    have "set (map (\<lambda>r. rw_seq r) rows) = set [n + 1..n + 1 + int (length rows) - 1]"
      using Cons.prems chain_from_seqs [of lib "n + 1" "Some (ae_hash (rw_entry r))" rows] by simp
    then show ?thesis using that by auto
  qed
  then have "filter (\<lambda>r. l \<le> rw_seq r \<and> rw_seq r \<le> h) rows = []" if "n > h"
    using that by (force simp: filter_empty_conv)
  then show ?case using Cons by (cases "n > h") auto
qed simp

lemma chain_from_range:
  "chain_from lib n prev rows \<Longrightarrow>
     \<exists>n' prev'. chain_from lib n' prev' (filter (\<lambda>r. l \<le> rw_seq r \<and> rw_seq r \<le> h) rows)"
proof (induction rows arbitrary: n prev)
  case (Cons r rows)
  show ?case
  proof (cases "l \<le> n")
    case True
    then show ?thesis using chain_from_upper [OF Cons.prems] by blast
  next
    case False
    then show ?thesis using Cons by auto
  qed
qed simp

lemma chain_seq_inj: "chain_from lib n prev rows \<Longrightarrow> inj_on (\<lambda>r. rw_seq r) (set rows)"
  using chain_from_seqs [of lib n prev rows] distinct_map [of "\<lambda>r. rw_seq r" rows] by simp

lemma chain_sort: "chain_from lib n prev rows \<Longrightarrow> sort_key (\<lambda>r. rw_seq r) rows = rows"
  by (rule sort_key_inj_key_eq) (auto simp: chain_seq_inj chain_from_seqs)

lemma chain_head_last:
  assumes "chain_from lib n prev (chain_rows c table)"
  shows "chain_head c table =
    (if chain_rows c table = [] then None
     else Some (rw_seq (last (chain_rows c table)), ae_hash (rw_entry (last (chain_rows c table)))))"
proof -
  let ?rows = "chain_rows c table"
  have "inj_on (\<lambda>r. - rw_seq r) (set ?rows)"
    using chain_seq_inj [OF assms] by (auto simp: inj_on_def)
  moreover have "sorted (map (\<lambda>r. - rw_seq r) (rev ?rows))"
  proof -
    have "sorted (map (\<lambda>r. rw_seq r) ?rows)" by (simp add: chain_from_seqs [OF assms])
    then show ?thesis by (auto simp: sorted_wrt_map sorted_wrt_rev rev_map)
  qed
  ultimately have "sort_key (\<lambda>r. - rw_seq r) ?rows = rev ?rows"
    by (intro sort_key_inj_key_eq) simp_all
  then show ?thesis
    by (cases ?rows rule: rev_cases) (simp_all add: chain_head_def)
qed

section \<open>What the service writes\<close>

text \<open>Storing a JSON value may change it, but not its canonical form.\<close>

definition json_stable :: "audit_lib \<Rightarrow> json \<Rightarrow> bool" where
  "json_stable lib d \<longleftrightarrow> (\<forall>s. al_jsonb lib d = Some s \<longrightarrow> canonical_json lib s = canonical_json lib d)"

lemma storage_precision_idem [simp]:
  "to_storage_precision (to_storage_precision t) = to_storage_precision t"
  "to_storage_precision t mod 1000 = 0"
  by (simp_all add: to_storage_precision_def mod_diff_left_eq [symmetric])

type_synonym audit_op = "string option \<times> db_fault \<times> int \<times> NewAuditEntry"

definition audit_step :: "audit_lib \<Rightarrow> audit_op \<Rightarrow> audit_row list \<Rightarrow> audit_row list" where
  "audit_step lib op table =
     (case op of (lock_error, fault, now, new) \<Rightarrow> snd (log_entry lib lock_error fault now new table))"

definition audit_run :: "audit_lib \<Rightarrow> audit_op list \<Rightarrow> audit_row list" where
  "audit_run lib ops = fold (audit_step lib) ops []"

definition chains_ok :: "audit_lib \<Rightarrow> audit_row list \<Rightarrow> bool" where
  "chains_ok lib table \<longleftrightarrow> (\<forall>c. chain_from lib 1 None (chain_rows c table))"

lemma stored_row_ok:
  assumes ts: "\<And>t. t mod 1000 = 0 \<Longrightarrow> al_timestamptz lib t = t"
    and js: "json_stable lib (ae_detail e)" "al_jsonb lib (ae_detail e) = Some stored"
    and pr: "ae_created_at e mod 1000 = 0" and h: "compute_hash lib e = Ok (ae_hash e)"
  shows "row_ok lib \<lparr>rw_entry = e\<lparr>ae_detail := stored, ae_created_at := al_timestamptz lib (ae_created_at e)\<rparr>,
    rw_action = AuditAction_as_str (ae_action e)\<rparr>"
proof -
  have "canonical_json lib stored = canonical_json lib (ae_detail e)"
    using js by (simp add: json_stable_def)
  then show ?thesis using h by (simp add: row_ok_def compute_hash_def hash_input_def ts [OF pr])
qed

lemma audit_step_cases:
  obtains "audit_step lib op table = table"
  | lock fault now new row where "op = (lock, fault, now, new)"
      "audit_step lib op table = table @ [row]"
proof (cases op)
  case (fields lock fault now new)
  have "snd (insert_entry lib e table) = table \<or> (\<exists>row. snd (insert_entry lib e table) = table @ [row])" for e
    by (auto simp: insert_entry_def split: option.splits)
  then have "audit_step lib op table = table \<or> (\<exists>row. audit_step lib op table = table @ [row])"
    by (simp add: fields audit_step_def log_entry_def log_inner_def Let_def try_op_def case_prod_beta
        split: option.splits db_fault.splits sum.splits)
  with that fields show thesis by blast
qed

lemma audit_step_length: "length (audit_step lib op table) \<le> Suc (length table)"
  by (rule audit_step_cases [of lib op table]) simp_all

lemma audit_step_ok:
  assumes ts: "\<And>t. t mod 1000 = 0 \<Longrightarrow> al_timestamptz lib t = t"
    and js: "json_stable lib (ne_detail new)" and ok: "chains_ok lib table"
    and small: "int (length table) < 2 ^ 63 - 1"
  shows "chains_ok lib (audit_step lib (lock, fault, now, new) table)"
proof -
  let ?c = "community_uuid (ne_community_id new)"
  let ?rows = "chain_rows ?c table"
  have ch: "chain_from lib 1 None ?rows" using ok by (simp add: chains_ok_def)
  define e0 where "e0 = \<lparr>ae_community_id = ?c, ae_seq = wrap_i64 (int (length ?rows) + 1),
    ae_hash = [], ae_prev_hash = (if ?rows = [] then None else Some (ae_hash (rw_entry (last ?rows)))),
    ae_action = ne_action new, ae_actor_pubkey = ne_actor_pubkey new, ae_object_id = ne_object_id new,
    ae_detail = ne_detail new, ae_created_at = to_storage_precision now\<rparr>"
  have len: "length ?rows \<le> length table" by (simp add: chain_rows_def)
  have seq: "ae_seq e0 = int (length ?rows) + 1"
    using len small by (simp add: e0_def wrap_i64_def)
  have last_seq: "rw_seq (last ?rows) = int (length ?rows)" if "?rows \<noteq> []"
    using ch that by (cases ?rows rule: rev_cases) (simp_all add: chain_from_snoc)
  have step: "audit_step lib (lock, fault, now, new) table = table \<or>
    (\<exists>h. compute_hash lib e0 = Ok h \<and>
      audit_step lib (lock, fault, now, new) table = snd (insert_entry lib (e0\<lparr>ae_hash := h\<rparr>) table))"
    using last_seq
    by (cases "?rows = []"; cases "compute_hash lib e0")
      (auto simp: audit_step_def log_entry_def log_inner_def chain_head_last [OF ch] e0_def Let_def
        case_prod_beta split: option.splits db_fault.splits)
  show ?thesis
  proof (cases "audit_step lib (lock, fault, now, new) table = table")
    case True
    with ok show ?thesis by simp
  next
    case False
    then obtain h where h: "compute_hash lib e0 = Ok h"
      and s: "audit_step lib (lock, fault, now, new) table = snd (insert_entry lib (e0\<lparr>ae_hash := h\<rparr>) table)"
      using step by blast
    let ?e = "e0\<lparr>ae_hash := h\<rparr>"
    obtain stored where st: "al_jsonb lib (ae_detail ?e) = Some stored"
      and t: "audit_step lib (lock, fault, now, new) table = table @
        [\<lparr>rw_entry = ?e\<lparr>ae_detail := stored, ae_created_at := al_timestamptz lib (ae_created_at ?e)\<rparr>,
          rw_action = AuditAction_as_str (ae_action ?e)\<rparr>]" (is "_ = table @ [?row]")
      using False s by (auto simp: insert_entry_def split: option.splits if_splits)
    have hash: "compute_hash lib ?e = Ok (ae_hash ?e)"
      using h by (simp add: compute_hash_def hash_input_def)
    have "row_ok lib ?row"
      by (rule stored_row_ok [OF ts _ st _ hash]) (use js in \<open>simp_all add: e0_def\<close>)
    then have "chain_from lib 1 None (?rows @ [?row])"
      using ch seq by (simp add: chain_from_snoc) (simp add: e0_def)
    then show ?thesis
      using ok unfolding t chains_ok_def by (auto simp: chain_rows_def e0_def)
  qed
qed

text \<open>
  C10. Whatever the service is asked to log, whatever the clock says and whichever calls fail, before or
  after their commit: the chain of every community is numbered 1, 2, 3 and so on without a gap, and
  verifying any range of it succeeds exactly when the range has an entry. The timestamps and JSON
  values logged are those that Postgres gives back in the same canonical form.
\<close>

theorem audit_log_verifies:
  assumes ts: "\<And>t. t mod 1000 = 0 \<Longrightarrow> al_timestamptz lib t = t"
    and js: "\<And>lock fault now new. (lock, fault, now, new) \<in> set ops \<Longrightarrow> json_stable lib (ne_detail new)"
    and small: "int (length ops) < 2 ^ 63"
  shows "map (\<lambda>r. rw_seq r) (chain_rows c (audit_run lib ops)) =
      [1..int (length (chain_rows c (audit_run lib ops)))] \<and>
    verify_chain lib (CommunityId c) from_seq to_seq (audit_run lib ops) =
      Ok (\<exists>r\<in>set (chain_rows c (audit_run lib ops)). from_seq \<le> rw_seq r \<and> rw_seq r \<le> to_seq)"
proof -
  have "chains_ok lib (audit_run lib ops) \<and> length (audit_run lib ops) \<le> length ops"
    using js small unfolding audit_run_def
  proof (induction ops rule: rev_induct)
    case (snoc op ops)
    let ?t = "fold (audit_step lib) ops []"
    have ih: "chains_ok lib ?t" "length ?t \<le> length ops" using snoc.IH snoc.prems by auto
    obtain lock fault now new where op: "op = (lock, fault, now, new)" by (cases op)
    have "chains_ok lib (audit_step lib op ?t)"
      unfolding op by (rule audit_step_ok [OF ts _ ih(1)]) (use snoc.prems ih(2) op in auto)
    moreover have "length (audit_step lib op ?t) \<le> Suc (length ops)"
      using audit_step_length [of lib op ?t] ih(2) by simp
    ultimately show ?case by simp
  qed (simp add: chains_ok_def chain_rows_def)
  then have ch: "chain_from lib 1 None (chain_rows c (audit_run lib ops))" by (simp add: chains_ok_def)
  let ?seg = "filter (\<lambda>r. from_seq \<le> rw_seq r \<and> rw_seq r \<le> to_seq) (chain_rows c (audit_run lib ops))"
  obtain n p where sg: "chain_from lib n p ?seg" using chain_from_range [OF ch] by blast
  have "verify_rows lib None ?seg = Ok True" by (rule chain_from_verifies [OF sg]) simp
  then have "verify_chain lib (CommunityId c) from_seq to_seq (audit_run lib ops) = Ok (?seg \<noteq> [])"
    by (simp add: verify_chain_def segment_def chain_sort [OF sg] Let_def)
  then show ?thesis using chain_from_seqs [OF ch] by (auto simp: filter_empty_conv)
qed

text \<open>A community's chain is its own: logging for another community changes no verification of it.\<close>

lemma audit_isolated:
  assumes "community_uuid (ne_community_id new) \<noteq> c"
  shows "verify_chain lib (CommunityId c) from_seq to_seq (snd (log_entry lib lock fault now new table)) =
    verify_chain lib (CommunityId c) from_seq to_seq table"
proof -
  have "chain_rows c (snd (insert_entry lib e table)) = chain_rows c table" if "ae_community_id e \<noteq> c" for e
    using that by (auto simp: insert_entry_def chain_rows_def split: option.splits)
  then have "chain_rows c (snd (log_entry lib lock fault now new table)) = chain_rows c table"
    using assms
    by (simp add: log_entry_def log_inner_def Let_def try_op_def case_prod_beta
        split: option.splits db_fault.splits sum.splits)
  then show ?thesis by (simp add: verify_chain_def segment_def)
qed

section \<open>Tampering\<close>

abbreviation row_hash :: "audit_row \<Rightarrow> string" where "row_hash r \<equiv> ae_hash (rw_entry r)"

text \<open>What was hashed for a row, as the verification recomputes it.\<close>

definition row_input :: "audit_lib \<Rightarrow> audit_row \<Rightarrow> AuditError + string" where
  "row_input lib r = and_then (row_to_audit_entry r) (hash_input lib)"

lemma row_to_entry_Ok:
  "row_to_audit_entry r = Ok e \<Longrightarrow> ae_hash e = row_hash r \<and> ae_prev_hash e = ae_prev_hash (rw_entry r) \<and>
     ae_seq e = rw_seq r \<and> ae_community_id e = rw_community r"
  by (auto simp: row_to_audit_entry_def and_then_eq_Ok)

lemma verify_rows_snoc:
  "verify_rows lib expected (rows @ [r]) = Ok True \<longleftrightarrow>
     verify_rows lib expected rows = Ok True \<and>
     (\<exists>x. row_input lib r = Ok x \<and> row_hash r = al_sha256 lib x) \<and>
     (rows \<noteq> [] \<longrightarrow> ae_prev_hash (rw_entry r) = Some (row_hash (last rows))) \<and>
     (rows = [] \<longrightarrow> expected \<noteq> None \<longrightarrow> ae_prev_hash (rw_entry r) = expected)"
proof (induction rows arbitrary: expected)
  case Nil
  show ?case
  proof (cases "row_to_audit_entry r")
    case (Inr e)
    with row_to_entry_Ok [OF this] show ?thesis
      by (auto simp: and_then_eq_Ok row_input_def compute_hash_def)
  qed (simp add: row_input_def)
next
  case (Cons r' rows)
  show ?case
  proof (cases "row_to_audit_entry r'")
    case (Inr e)
    with row_to_entry_Ok [OF this] show ?thesis
      by (cases "compute_hash lib e") (auto simp: Cons.IH)
  qed simp
qed

lemma hash_input_suffix:
  assumes "row_input lib r = Ok x" "ae_prev_hash (rw_entry r) = Some h"
  shows "\<exists>y. x = y @ h"
  using assms by (auto simp: row_input_def hash_input_def and_then_eq_Ok prev_bytes_def dest: row_to_entry_Ok)

lemma char_of_int_inject:
  assumes "(char_of (nat a) :: char) = char_of (nat b)" "0 \<le> a" "a < 256" "0 \<le> b" "b < 256"
  shows "a = b"
proof -
  have "(of_char (char_of (nat a) :: char) :: nat) = of_char (char_of (nat b) :: char)"
    using assms(1) by simp
  then have "nat a mod 256 = nat b mod 256" by (simp only: of_char_of)
  moreover have "nat a < 256" "nat b < 256" using assms by auto
  ultimately have "nat a = nat b" by simp
  then show ?thesis using assms by simp
qed

lemma be_bytes_inject: "be_bytes m = be_bytes n \<Longrightarrow> m mod 2 ^ 64 = n mod 2 ^ 64"
proof -
  assume eq: "be_bytes m = be_bytes n"
  define x y :: int where "x = m mod 2 ^ 64" and "y = n mod 2 ^ 64"
  have b: "0 \<le> x" "x < 2 ^ 64" "0 \<le> y" "y < 2 ^ 64" by (simp_all add: x_def y_def)
  have dig: "x div 2 ^ (8 * i) mod 256 = y div 2 ^ (8 * i) mod 256" if "i \<in> {7, 6, 5, 4, 3, 2, 1, 0 :: nat}" for i
  proof -
    have "\<forall>i\<in>set [7, 6, 5, 4, 3, 2, 1, 0 :: nat].
        (char_of (nat (x div 2 ^ (8 * i) mod 256)) :: char) = char_of (nat (y div 2 ^ (8 * i) mod 256))"
      using eq unfolding be_bytes_def map_eq_conv x_def y_def .
    then have "(char_of (nat (x div 2 ^ (8 * i) mod 256)) :: char) = char_of (nat (y div 2 ^ (8 * i) mod 256))"
      by (rule bspec) (simp only: list.set that)
    then show ?thesis by (rule char_of_int_inject) simp_all
  qed
  have up: "x div 2 ^ (8 * i) = y div 2 ^ (8 * i)" if "x div 2 ^ (8 * Suc i) = y div 2 ^ (8 * Suc i)" "i < 8" for i
  proof -
    have "(2 :: int) ^ (8 * Suc i) = 2 ^ (8 * i) * 256" by (simp add: power_add)
    then have q: "z div 2 ^ (8 * Suc i) = z div 2 ^ (8 * i) div 256" for z :: int
      by (metis zdiv_zmult2_eq zero_le_numeral)
    have "i \<in> {7, 6, 5, 4, 3, 2, 1, 0}" using that(2) by auto
    from dig [OF this] show ?thesis using that(1) unfolding q by (metis div_mult_mod_eq)
  qed
  have "x div 2 ^ (8 * 8) = y div 2 ^ (8 * 8)" using b by simp
  then have "x div 2 ^ (8 * (8 - k)) = y div 2 ^ (8 * (8 - k))" if "k \<le> 8" for k
    using that
  proof (induction k)
    case (Suc k)
    then have "Suc (8 - Suc k) = 8 - k" "8 - Suc k < 8" by simp_all
    moreover have "x div 2 ^ (8 * (8 - k)) = y div 2 ^ (8 * (8 - k))" by (rule Suc.IH [OF Suc.prems(1) Suc_leD [OF Suc.prems(2)]])
    ultimately show ?case using up [of "8 - Suc k"] by (simp only: simp_thms)
  qed simp
  from this [of 8] show ?thesis by (simp add: x_def y_def)
qed

lemma hash_input_prefix:
  assumes "hash_input lib e = Ok x" "hash_input lib e' = Ok x" "\<And>u. length (al_uuid_bytes lib u) = 16"
  shows "al_uuid_bytes lib (ae_community_id e) = al_uuid_bytes lib (ae_community_id e') \<and>
    be_bytes (ae_seq e) = be_bytes (ae_seq e')"
proof -
  obtain u where u: "x = al_uuid_bytes lib (ae_community_id e) @ be_bytes (ae_seq e) @ u"
    using assms(1) unfolding hash_input_def and_then_eq_Ok by blast
  obtain v where v: "x = al_uuid_bytes lib (ae_community_id e') @ be_bytes (ae_seq e') @ v"
    using assms(2) unfolding hash_input_def and_then_eq_Ok by blast
  have "length (be_bytes n) = 8" for n by (simp add: be_bytes_def)
  with u v assms(3) show ?thesis by (metis append_eq_append_conv)
qed

lemma rev_list_induct2 [consumes 1, case_names Nil snoc]:
  assumes "length xs = length ys" "P [] []"
    and "\<And>x xs y ys. length xs = length ys \<Longrightarrow> P xs ys \<Longrightarrow> P (xs @ [x]) (ys @ [y])"
  shows "P xs ys"
  using assms(1)
proof (induction xs arbitrary: ys rule: rev_induct)
  case (snoc x xs)
  then show ?case by (cases ys rule: rev_cases) (auto intro: assms(3))
qed (simp add: assms(2))

text \<open>
  C11. The last hash fixes the chain: if two versions of a range verify, have equally many entries and
  end in the same hash, and SHA-256 has no collision among what was hashed for them, then the same
  bytes were hashed at every position; in particular the communities and the sequence numbers agree.
\<close>

theorem audit_tamper_evident:
  assumes "verify_rows lib None rows = Ok True" "verify_rows lib None rows' = Ok True"
    and "length rows = length rows'" "rows \<noteq> []" "row_hash (last rows) = row_hash (last rows')"
    and sha: "\<And>x. length (al_sha256 lib x) = 32" and uuid: "\<And>u. length (al_uuid_bytes lib u) = 16"
    and coll: "\<And>x y. Ok x \<in> row_input lib ` set (rows @ rows') \<Longrightarrow>
      Ok y \<in> row_input lib ` set (rows @ rows') \<Longrightarrow> al_sha256 lib x = al_sha256 lib y \<Longrightarrow> x = y"
  shows "list_all2 (\<lambda>r r'. row_input lib r = row_input lib r' \<and>
      al_uuid_bytes lib (rw_community r) = al_uuid_bytes lib (rw_community r') \<and>
      rw_seq r mod 2 ^ 64 = rw_seq r' mod 2 ^ 64) rows rows'"
  using assms(3,1,2,4,5) coll
proof (induction rows rows' rule: rev_list_induct2)
  case (snoc r rows r' rows')
  obtain x where x: "row_input lib r = Ok x" "row_hash r = al_sha256 lib x"
    using snoc.prems(1) by (auto simp: verify_rows_snoc)
  obtain x' where x': "row_input lib r' = Ok x'" "row_hash r' = al_sha256 lib x'"
    using snoc.prems(2) by (auto simp: verify_rows_snoc)
  have eq: "x = x'"
    by (rule snoc.prems(5)) (use x x' snoc.prems(4) in \<open>auto simp: image_iff\<close>)
  obtain e e' where e: "row_to_audit_entry r = Ok e" "row_to_audit_entry r' = Ok e'"
    "hash_input lib e = Ok x" "hash_input lib e' = Ok x'"
    using x(1) x'(1) by (auto simp: row_input_def and_then_eq_Ok)
  have "al_uuid_bytes lib (ae_community_id e) = al_uuid_bytes lib (ae_community_id e') \<and>
      be_bytes (ae_seq e) = be_bytes (ae_seq e')"
    by (rule hash_input_prefix [OF e(3) _ uuid]) (use e(4) eq in simp)
  then have ids: "al_uuid_bytes lib (rw_community r) = al_uuid_bytes lib (rw_community r')"
    "be_bytes (rw_seq r) = be_bytes (rw_seq r')"
    using row_to_entry_Ok [OF e(1)] row_to_entry_Ok [OF e(2)] by simp_all
  have now: "row_input lib r = row_input lib r' \<and>
      al_uuid_bytes lib (rw_community r) = al_uuid_bytes lib (rw_community r') \<and>
      rw_seq r mod 2 ^ 64 = rw_seq r' mod 2 ^ 64"
    using ids(1) be_bytes_inject [OF ids(2)] x(1) x'(1) eq by simp
  show ?case
  proof (cases "rows = []")
    case True
    with now snoc.hyps show ?thesis by simp
  next
    case False
    then have ne: "rows' \<noteq> []" using snoc.hyps by auto
    have "\<exists>z. row_hash (last rows) = al_sha256 lib z" "\<exists>z. row_hash (last rows') = al_sha256 lib z"
      using snoc.prems(1,2) False ne verify_rows_snoc [of lib None "butlast rows" "last rows"]
        verify_rows_snoc [of lib None "butlast rows'" "last rows'"]
      by (auto simp: verify_rows_snoc [of lib None rows r] verify_rows_snoc [of lib None rows' r'])
    then have len: "length (row_hash (last rows)) = 32" "length (row_hash (last rows')) = 32"
      using sha by auto
    have "\<exists>y. x = y @ row_hash (last rows)" "\<exists>y. x' = y @ row_hash (last rows')"
      using hash_input_suffix [OF x(1)] hash_input_suffix [OF x'(1)] snoc.prems(1,2) False ne
      by (auto simp: verify_rows_snoc)
    then have last: "row_hash (last rows) = row_hash (last rows')" using eq len by auto
    have v: "verify_rows lib None rows = Ok True" "verify_rows lib None rows' = Ok True"
      using snoc.prems(1,2) by (simp_all add: verify_rows_snoc)
    have "set (rows @ rows') \<subseteq> set ((rows @ [r]) @ (rows' @ [r']))" by auto
    then have sub: "z \<in> row_input lib ` set (rows @ rows') \<Longrightarrow>
        z \<in> row_input lib ` set ((rows @ [r]) @ (rows' @ [r']))" for z by blast
    have "list_all2 (\<lambda>r r'. row_input lib r = row_input lib r' \<and>
      al_uuid_bytes lib (rw_community r) = al_uuid_bytes lib (rw_community r') \<and>
      rw_seq r mod 2 ^ 64 = rw_seq r' mod 2 ^ 64) rows rows'"
      by (rule snoc.IH [OF v False last]) (rule snoc.prems(5) [OF sub sub])
    with now show ?thesis by (simp add: list_all2_appendI)
  qed
qed simp_all

text \<open>
  The fields are hashed without their lengths, so bytes can move from the object id to the detail:
  two different entries with the same hash.
\<close>

lemma audit_hash_ambiguous:
  assumes "\<And>s. al_json_to_string lib (JNumber s) = Ok s"
  shows "compute_hash lib (e\<lparr>ae_object_id := Some (x @ y), ae_detail := JNumber z\<rparr>) =
    compute_hash lib (e\<lparr>ae_object_id := Some x, ae_detail := JNumber (y @ z)\<rparr>)"
  by (simp add: compute_hash_def hash_input_def assms tagged_def)

section \<open>Examples\<close>

text \<open>A shortcut for evaluation.\<close>

lemma be_bytes_code [code]:
  "be_bytes n =
     (if 0 \<le> n \<and> n < 256 then replicate 7 (char_of (0 :: nat)) @ [char_of (nat n)]
      else map (\<lambda>i. char_of (nat (n mod 2 ^ 64 div 2 ^ (8 * i) mod 256))) [7, 6, 5, 4, 3, 2, 1, 0])"
proof (cases "0 \<le> n \<and> n < 256")
  case True
  then show ?thesis by (simp add: be_bytes_def eval_nat_numeral)
next
  case False
  then show ?thesis unfolding be_bytes_def by (simp only: if_False)
qed

definition ex_json :: "json \<Rightarrow> string" where
  "ex_json j =
     (case j of
        JNull \<Rightarrow> ''null''
      | JBool b \<Rightarrow> (if b then ''true'' else ''false'')
      | JNumber n \<Rightarrow> n
      | JString s \<Rightarrow> delimited ''~'' [s] ''~''
      | _ \<Rightarrow> [])"

definition ex_sha :: "string \<Rightarrow> string" where
  "ex_sha s = take 32 (drop 24 s @ replicate 32 CHR ''0'')"

definition ex_audit_lib :: audit_lib where
  "ex_audit_lib = \<lparr>al_sha256 = ex_sha,
     al_uuid_bytes = (\<lambda>u. take 16 (u @ replicate 16 CHR ''0'')), al_rfc3339 = (\<lambda>t. show_nat (nat t)),
     al_json_to_string = (\<lambda>j. Ok (ex_json j)), al_timestamptz = to_storage_precision,
     al_jsonb = Some\<rparr>"

definition ex_new :: "uuid \<Rightarrow> AuditAction \<Rightarrow> json \<Rightarrow> NewAuditEntry" where
  "ex_new c a d = \<lparr>ne_community_id = CommunityId c, ne_action = a, ne_actor_pubkey = None,
     ne_object_id = Some ''obj'', ne_detail = d\<rparr>"

definition ex_ops :: "audit_op list" where
  "ex_ops = [(None, NoFault, 1500, ex_new ''a'' EventCreated (JArray [JNull])),
     (None, Applied ''reset'', 1600, ex_new ''b'' AuthFailure JNull),
     (None, NotApplied ''reset'', 1700, ex_new ''a'' EventDeleted JNull),
     (None, NoFault, 1800, ex_new ''a'' ChannelCreated (JObject [(''k'', JBool True)]))]"

theorem audit_log_verifies_witness:
  "verify_chain ex_audit_lib (CommunityId ''a'') 1 2 (audit_run ex_audit_lib ex_ops) =
     Ok (\<exists>r\<in>set (chain_rows ''a'' (audit_run ex_audit_lib ex_ops)). 1 \<le> rw_seq r \<and> rw_seq r \<le> 2)"
proof -
  have ts: "al_timestamptz ex_audit_lib t = t" if "t mod 1000 = 0" for t
    using that by (simp add: ex_audit_lib_def to_storage_precision_def)
  have js: "json_stable ex_audit_lib d" for d by (simp add: json_stable_def ex_audit_lib_def)
  have n: "int (length ex_ops) < 2 ^ 63" by (simp add: ex_ops_def)
  show ?thesis using audit_log_verifies [OF ts js n, of "''a''" 1 2] by blast
qed

text \<open>One byte moved from the object id to the detail of the second entry.\<close>

definition ex_moved :: "string \<Rightarrow> string \<Rightarrow> audit_row list" where
  "ex_moved obj num = chain_rows ''a'' (audit_run ex_audit_lib
     [(None, NoFault, 1500, ex_new ''a'' EventCreated JNull),
      (None, NoFault, 1600, (ex_new ''a'' EventDeleted (JNumber num))\<lparr>ne_object_id := Some obj\<rparr>)])"

theorem audit_tamper_evident_witness:
  "ex_moved ''o1'' ''2'' \<noteq> ex_moved ''o'' ''12'' \<and>
   list_all2 (\<lambda>r r'. row_input ex_audit_lib r = row_input ex_audit_lib r' \<and>
      al_uuid_bytes ex_audit_lib (rw_community r) = al_uuid_bytes ex_audit_lib (rw_community r') \<and>
      rw_seq r mod 2 ^ 64 = rw_seq r' mod 2 ^ 64) (ex_moved ''o1'' ''2'') (ex_moved ''o'' ''12'')"
proof
  let ?a = "ex_moved ''o1'' ''2''" and ?b = "ex_moved ''o'' ''12''"
  show "?a \<noteq> ?b" by code_simp
  have v: "verify_rows ex_audit_lib None ?a = Ok True" "verify_rows ex_audit_lib None ?b = Ok True"
    "length ?a = length ?b" "?a \<noteq> []" "row_hash (last ?a) = row_hash (last ?b)"
    by code_simp+
  have len: "length (al_sha256 ex_audit_lib x) = 32" "length (al_uuid_bytes ex_audit_lib u) = 16" for x u
    by (simp_all add: ex_audit_lib_def ex_sha_def)
  have "list_all (\<lambda>x. list_all (\<lambda>y. ex_sha (projr x) = ex_sha (projr y) \<longrightarrow> x = y)
      (map (row_input ex_audit_lib) (?a @ ?b))) (map (row_input ex_audit_lib) (?a @ ?b))"
    by code_simp
  then have inj: "x = y" if "x \<in> row_input ex_audit_lib ` set (?a @ ?b)"
      "y \<in> row_input ex_audit_lib ` set (?a @ ?b)" "ex_sha (projr x) = ex_sha (projr y)" for x y
    using that unfolding list_all_iff set_map by blast
  have coll: "x = y" if "Ok x \<in> row_input ex_audit_lib ` set (?a @ ?b)"
      "Ok y \<in> row_input ex_audit_lib ` set (?a @ ?b)" "al_sha256 ex_audit_lib x = al_sha256 ex_audit_lib y" for x y
    using inj [OF that(1,2)] that(3) by (simp add: ex_audit_lib_def)
  show "list_all2 (\<lambda>r r'. row_input ex_audit_lib r = row_input ex_audit_lib r' \<and>
      al_uuid_bytes ex_audit_lib (rw_community r) = al_uuid_bytes ex_audit_lib (rw_community r') \<and>
      rw_seq r mod 2 ^ 64 = rw_seq r' mod 2 ^ 64) ?a ?b"
    by (rule audit_tamper_evident [OF v len]) (rule coll)
qed

end
