(* ===== verification/Auth.thy ===== *)
theory Auth
  imports Redis Nostr Network
begin

text \<open>
  Authentication and admission: the crate \<open>buzz-auth\<close> (scopes, NIP-42 and NIP-98 checks, access checks,
  rate-limit keys), its Redis back ends in \<open>buzz-pubsub\<close> (\<open>nip98_replay.rs\<close>, \<open>rate_limiter.rs\<close>), and
  the relay code that admits a request with them (\<open>tenant.rs\<close>, \<open>admission.rs\<close>, \<open>api/bridge.rs\<close>,
  \<open>api/operator.rs\<close>, \<open>api/invites.rs\<close>). The crates \<open>nostr\<close>, \<open>url\<close>, \<open>base64\<close>, \<open>sha2\<close> and the database of
  hosts are parameters. The clock of a call is in milliseconds.
\<close>

section \<open>Scopes\<close>

datatype Scope =
    MessagesRead | MessagesWrite | ChannelsRead | ChannelsWrite | AdminChannels | UsersRead
  | UsersWrite | AdminUsers | JobsRead | JobsWrite | SubscriptionsRead | SubscriptionsWrite
  | FilesRead | FilesWrite | ReposRead | ReposWrite | Unknown string

definition all_known :: "Scope list" where
  "all_known =
     [MessagesRead, MessagesWrite, ChannelsRead, ChannelsWrite, AdminChannels, UsersRead,
      UsersWrite, AdminUsers, JobsRead, JobsWrite, SubscriptionsRead, SubscriptionsWrite,
      FilesRead, FilesWrite, ReposRead, ReposWrite]"

definition all_non_admin :: "Scope list" where
  "all_non_admin =
     [MessagesRead, MessagesWrite, ChannelsRead, ChannelsWrite, UsersRead, UsersWrite, JobsRead,
      JobsWrite, SubscriptionsRead, SubscriptionsWrite, FilesRead, FilesWrite, ReposRead, ReposWrite]"

definition Scope_as_str :: "Scope \<Rightarrow> string" where
  "Scope_as_str s =
     (case s of
        MessagesRead \<Rightarrow> ''messages:read''
      | MessagesWrite \<Rightarrow> ''messages:write''
      | ChannelsRead \<Rightarrow> ''channels:read''
      | ChannelsWrite \<Rightarrow> ''channels:write''
      | AdminChannels \<Rightarrow> ''admin:channels''
      | UsersRead \<Rightarrow> ''users:read''
      | UsersWrite \<Rightarrow> ''users:write''
      | AdminUsers \<Rightarrow> ''admin:users''
      | JobsRead \<Rightarrow> ''jobs:read''
      | JobsWrite \<Rightarrow> ''jobs:write''
      | SubscriptionsRead \<Rightarrow> ''subscriptions:read''
      | SubscriptionsWrite \<Rightarrow> ''subscriptions:write''
      | FilesRead \<Rightarrow> ''files:read''
      | FilesWrite \<Rightarrow> ''files:write''
      | ReposRead \<Rightarrow> ''repos:read''
      | ReposWrite \<Rightarrow> ''repos:write''
      | Unknown t \<Rightarrow> t)"

definition Scope_from_str :: "string \<Rightarrow> Scope" where
  "Scope_from_str s =
     (if s = ''messages:read'' then MessagesRead
      else if s = ''messages:write'' then MessagesWrite
      else if s = ''channels:read'' then ChannelsRead
      else if s = ''channels:write'' then ChannelsWrite
      else if s = ''admin:channels'' then AdminChannels
      else if s = ''users:read'' then UsersRead
      else if s = ''users:write'' then UsersWrite
      else if s = ''admin:users'' then AdminUsers
      else if s = ''jobs:read'' then JobsRead
      else if s = ''jobs:write'' then JobsWrite
      else if s = ''subscriptions:read'' then SubscriptionsRead
      else if s = ''subscriptions:write'' then SubscriptionsWrite
      else if s = ''files:read'' then FilesRead
      else if s = ''files:write'' then FilesWrite
      else if s = ''repos:read'' then ReposRead
      else if s = ''repos:write'' then ReposWrite
      else Unknown s)"

definition parse_scopes :: "string list \<Rightarrow> Scope list" where
  "parse_scopes raw = map Scope_from_str raw"

section \<open>Events and errors\<close>

record signed_event = nostr_event +
  ev_sig :: string

datatype VerificationError = InvalidId string string | InvalidSignature

datatype AuthError =
    InvalidSignature
  | ChallengeMismatch
  | RelayUrlMismatch
  | EventExpired
  | Nip98Invalid string
  | Nip98Replay
  | PubkeyMismatch
  | InsufficientScope string "string list"
  | ChannelAccessDenied
  | Internal string

record 'u auth_lib =
  hl_verify_id :: "signed_event \<Rightarrow> bool"
  hl_event_id :: "signed_event \<Rightarrow> string"
  hl_verify_signature :: "signed_event \<Rightarrow> bool"
  hl_event_of_json :: "string \<Rightarrow> string + signed_event"
  hl_base64_decode :: "string \<Rightarrow> string option"
  hl_sha256_hex :: "string \<Rightarrow> string"
  hl_pubkey_from_hex :: "string \<Rightarrow> pubkey option"
  hl_to_lowercase :: "string \<Rightarrow> string"
  hl_debug :: "string list \<Rightarrow> string"
  hl_url_parse :: "string \<Rightarrow> 'u option"
  hl_host_str :: "'u \<Rightarrow> string option"
  hl_set_host :: "'u \<Rightarrow> string \<Rightarrow> 'u"
  hl_path :: "'u \<Rightarrow> string"
  hl_set_path :: "'u \<Rightarrow> string \<Rightarrow> 'u"
  hl_url_string :: "'u \<Rightarrow> string"

definition verify_event :: "'u auth_lib \<Rightarrow> signed_event \<Rightarrow> VerificationError + unit" where
  "verify_event lib e =
     (if \<not> hl_verify_id lib e then Err (InvalidId (hl_event_id lib e) (ev_id e))
      else if \<not> hl_verify_signature lib e then Err VerificationError.InvalidSignature
      else Ok ())"

text \<open>\<open>Tags::find(kind).and_then(|t| t.content())\<close>: the first tag of the kind decides.\<close>

definition tag_value :: "string \<Rightarrow> 'a nostr_event_scheme \<Rightarrow> string option" where
  "tag_value kind e = Option.bind (List.find (\<lambda>t. tag_kind t = kind) (ev_tags e)) tag_content"

definition TIMESTAMP_TOLERANCE_SECS :: nat where "TIMESTAMP_TOLERANCE_SECS = 60"

definition abs_diff :: "nat \<Rightarrow> nat \<Rightarrow> nat" where
  "abs_diff a b = (if a \<le> b then b - a else a - b)"

definition as_secs :: "nat \<Rightarrow> nat" where "as_secs now = now div 1000"

definition trim_end_slashes :: "string \<Rightarrow> string" where
  "trim_end_slashes s = rev (dropWhile (\<lambda>c. c = CHR ''/'') (rev s))"

section \<open>NIP-42\<close>

definition normalize_relay_url :: "'u auth_lib \<Rightarrow> string \<Rightarrow> string" where
  "normalize_relay_url lib raw =
     (case hl_url_parse lib raw of
        None \<Rightarrow> raw
      | Some parsed \<Rightarrow>
          let parsed = (case hl_host_str lib parsed of
                Some host \<Rightarrow>
                  if host = ''localhost'' \<or> host = ''::1''
                  then hl_set_host lib parsed ''127.0.0.1'' else parsed
              | None \<Rightarrow> parsed)
          in hl_url_string lib (hl_set_path lib parsed (trim_end_slashes (hl_path lib parsed))))"

definition verify_nip42_event ::
  "'u auth_lib \<Rightarrow> nat \<Rightarrow> signed_event \<Rightarrow> string \<Rightarrow> string \<Rightarrow> AuthError + unit" where
  "verify_nip42_event lib now e expected_challenge relay_url =
     (if ev_kind e \<noteq> 22242 then Err AuthError.InvalidSignature
      else and_then (map_err (\<lambda>_. AuthError.InvalidSignature) (verify_event lib e)) (\<lambda>_.
        and_then (ok_or (tag_value ''challenge'' e) ChallengeMismatch) (\<lambda>challenge.
        if challenge \<noteq> expected_challenge then Err ChallengeMismatch
        else and_then (ok_or (tag_value ''relay'' e) RelayUrlMismatch) (\<lambda>relay.
          if normalize_relay_url lib relay \<noteq> normalize_relay_url lib relay_url
          then Err RelayUrlMismatch
          else if abs_diff (as_secs now) (ev_created_at e) > TIMESTAMP_TOLERANCE_SECS
          then Err EventExpired
          else Ok ()))))"

datatype AuthMethod = Nip42 | Nip98

record AuthContext =
  ac_pubkey :: pubkey
  ac_scopes :: "Scope list"
  ac_channel_ids :: "uuid list option"
  ac_auth_method :: AuthMethod
  ac_agent_owner_pubkey :: "pubkey option"

definition has_scope :: "AuthContext \<Rightarrow> Scope \<Rightarrow> bool" where
  "has_scope ctx s \<longleftrightarrow> s \<in> set (ac_scopes ctx)"

definition verify_auth_event ::
  "'u auth_lib \<Rightarrow> nat \<Rightarrow> signed_event \<Rightarrow> string \<Rightarrow> string \<Rightarrow> AuthError + AuthContext" where
  "verify_auth_event lib now e expected_challenge relay_url =
     and_then (verify_nip42_event lib now e expected_challenge relay_url) (\<lambda>_.
     Ok \<lparr>ac_pubkey = ev_pubkey e, ac_scopes = all_known, ac_channel_ids = None,
         ac_auth_method = Nip42, ac_agent_owner_pubkey = None\<rparr>)"

section \<open>NIP-98\<close>

definition normalize_url :: "'u auth_lib \<Rightarrow> string \<Rightarrow> string" where
  "normalize_url lib raw =
     (case hl_url_parse lib raw of
        None \<Rightarrow> hl_to_lowercase lib raw
      | Some parsed \<Rightarrow>
          hl_url_string lib (hl_set_path lib parsed (trim_end_slashes (hl_path lib parsed))))"

definition eq_ignore_ascii_case :: "string \<Rightarrow> string \<Rightarrow> bool" where
  "eq_ignore_ascii_case a b \<longleftrightarrow> to_ascii_lowercase a = to_ascii_lowercase b"

definition plus_minus :: string where "plus_minus = [CHR 0xC2, CHR 0xB1]"

definition check_payload :: "'u auth_lib \<Rightarrow> signed_event \<Rightarrow> string option \<Rightarrow> AuthError + unit" where
  "check_payload lib e body =
     (case (tag_value ''payload'' e, body) of
        (Some payload_hex, Some body_bytes) \<Rightarrow>
          guard_that (hl_sha256_hex lib body_bytes = payload_hex)
            (Nip98Invalid ''payload tag SHA-256 mismatch: request body does not match signed hash'')
      | _ \<Rightarrow> Ok ())"

definition check_method :: "signed_event \<Rightarrow> string \<Rightarrow> AuthError + unit" where
  "check_method e expected_method =
     and_then (ok_or (tag_value ''method'' e) (Nip98Invalid ''missing `method` tag'')) (\<lambda>method_tag.
     guard_that (eq_ignore_ascii_case method_tag expected_method)
       (Nip98Invalid (''method mismatch: event has `'' @ method_tag @ ''`, expected `'' @
          expected_method @ ''`'')))"

definition check_url :: "'u auth_lib \<Rightarrow> signed_event \<Rightarrow> string \<Rightarrow> AuthError + unit" where
  "check_url lib e expected_url =
     and_then (ok_or (tag_value ''u'' e) (Nip98Invalid ''missing `u` tag'')) (\<lambda>u_tag.
     guard_that (normalize_url lib u_tag = normalize_url lib expected_url)
       (Nip98Invalid (''URL mismatch: event has `'' @ u_tag @ ''`, expected `'' @ expected_url @ ''`'')))"

definition check_freshness :: "nat \<Rightarrow> signed_event \<Rightarrow> AuthError + unit" where
  "check_freshness now e =
     (let delta = abs_diff (as_secs now) (ev_created_at e)
      in guard_that (delta \<le> TIMESTAMP_TOLERANCE_SECS)
           (Nip98Invalid (''event timestamp outside '' @ plus_minus @
              show_nat TIMESTAMP_TOLERANCE_SECS @ ''s window (delta: '' @ show_nat delta @ ''s)'')))"

definition verify_nip98_event ::
  "'u auth_lib \<Rightarrow> nat \<Rightarrow> string \<Rightarrow> string \<Rightarrow> string \<Rightarrow> string option \<Rightarrow> AuthError + pubkey" where
  "verify_nip98_event lib now event_json expected_url expected_method body =
     and_then (map_err (\<lambda>err. Nip98Invalid (''event JSON parse error: '' @ err))
       (hl_event_of_json lib event_json)) (\<lambda>e.
     and_then (guard_that (ev_kind e = 27235)
       (Nip98Invalid (''expected kind 27235, got '' @ show_nat (unat (ev_kind e))))) (\<lambda>_.
     and_then (map_err (\<lambda>_. Nip98Invalid ''invalid Schnorr signature'') (verify_event lib e)) (\<lambda>_.
     and_then (check_freshness now e) (\<lambda>_.
     and_then (check_url lib e expected_url) (\<lambda>_.
     and_then (check_method e expected_method) (\<lambda>_.
     and_then (check_payload lib e body) (\<lambda>_.
     Ok (ev_pubkey e))))))))"

section \<open>Access checks\<close>

definition require_scope :: "Scope list \<Rightarrow> Scope \<Rightarrow> AuthError + unit" where
  "require_scope scopes required =
     (if required \<in> set scopes then Ok ()
      else Err (InsufficientScope (Scope_as_str required) (map Scope_as_str scopes)))"

text \<open>The checker is a parameter: it answers for a community, a key and a channel.\<close>

definition check_access ::
  "Scope \<Rightarrow> (TenantContext \<Rightarrow> pubkey \<Rightarrow> uuid \<Rightarrow> AuthError + bool)
     \<Rightarrow> TenantContext \<Rightarrow> pubkey \<Rightarrow> uuid \<Rightarrow> Scope list \<Rightarrow> AuthError + unit" where
  "check_access required can_access ctx pk channel_id scopes =
     and_then (require_scope scopes required) (\<lambda>_.
     and_then (can_access ctx pk channel_id) (\<lambda>accessible.
     if accessible then Ok () else Err ChannelAccessDenied))"

definition check_read_access ::
  "(TenantContext \<Rightarrow> pubkey \<Rightarrow> uuid \<Rightarrow> AuthError + bool) \<Rightarrow> TenantContext \<Rightarrow> pubkey \<Rightarrow> uuid
     \<Rightarrow> Scope list \<Rightarrow> AuthError + unit" where
  "check_read_access = check_access MessagesRead"

definition check_write_access ::
  "(TenantContext \<Rightarrow> pubkey \<Rightarrow> uuid \<Rightarrow> AuthError + bool) \<Rightarrow> TenantContext \<Rightarrow> pubkey \<Rightarrow> uuid
     \<Rightarrow> Scope list \<Rightarrow> AuthError + unit" where
  "check_write_access = check_access MessagesWrite"

text \<open>The default \<open>can_access\<close> of the trait, over the set of accessible channels.\<close>

definition can_access_default ::
  "(TenantContext \<Rightarrow> pubkey \<Rightarrow> AuthError + uuid list) \<Rightarrow> TenantContext \<Rightarrow> pubkey \<Rightarrow> uuid
     \<Rightarrow> AuthError + bool" where
  "can_access_default accessible_channel_ids ctx pk channel_id =
     and_then (accessible_channel_ids ctx pk) (\<lambda>ids. Ok (channel_id \<in> set ids))"

section \<open>The replay guard\<close>

definition DEFAULT_REPLAY_TTL_SECS :: nat where "DEFAULT_REPLAY_TTL_SECS = 120"
definition MAX_REPLAY_TTL_SECS :: nat where "MAX_REPLAY_TTL_SECS = 3600"

definition nip98_replay_key_for_scope :: "string \<Rightarrow> event_id \<Rightarrow> string" where
  "nip98_replay_key_for_scope scope event_id = ''buzz:'' @ scope @ '':nip98:'' @ event_id"

definition nip98_replay_key :: "TenantContext \<Rightarrow> event_id \<Rightarrow> string" where
  "nip98_replay_key ctx event_id =
     nip98_replay_key_for_scope (community_uuid (tc_community ctx)) event_id"

definition try_mark_in_scope ::
  "redis_fault \<Rightarrow> nat \<Rightarrow> string \<Rightarrow> event_id \<Rightarrow> nat \<Rightarrow> redis \<Rightarrow> (AuthError + bool) \<times> redis" where
  "try_mark_in_scope fault now scope event_id ttl_secs r =
     (let ttl = max DEFAULT_REPLAY_TTL_SECS (min ttl_secs MAX_REPLAY_TTL_SECS);
          key = nip98_replay_key_for_scope scope event_id;
          (result, r') = r_set_nx_ex now key ''1'' ttl r
      in case fault of
           NoPool e \<Rightarrow> (Err (Internal (''Redis pool: '' @ e)), r)
         | NotRun e \<Rightarrow> (Err (Internal (''Redis SET NX EX: '' @ e)), r)
         | AnswerLost e \<Rightarrow> (Err (Internal (''Redis SET NX EX: '' @ e)), r')
         | Reached \<Rightarrow>
             (case result of
                None \<Rightarrow> Ok False
              | Some reply \<Rightarrow>
                  if reply = ''OK'' then Ok True
                  else Err (Internal (''unexpected SET NX EX reply: '' @ reply)), r'))"

definition try_mark ::
  "redis_fault \<Rightarrow> nat \<Rightarrow> TenantContext \<Rightarrow> event_id \<Rightarrow> nat \<Rightarrow> redis \<Rightarrow> (AuthError + bool) \<times> redis"
where
  "try_mark fault now ctx event_id ttl_secs r =
     try_mark_in_scope fault now (community_uuid (tc_community ctx)) event_id ttl_secs r"

section \<open>Rate limits\<close>

datatype LimitType = Messages | ApiCalls | WsEvents | IpConnections

definition key_suffix :: "LimitType \<Rightarrow> string" where
  "key_suffix t =
     (case t of Messages \<Rightarrow> ''msg'' | ApiCalls \<Rightarrow> ''api'' | WsEvents \<Rightarrow> ''ws'' | IpConnections \<Rightarrow> ''conn'')"

record RateLimitConfig =
  human_messages_per_min :: u64
  human_api_calls_per_min :: u64
  human_ws_events_per_sec :: u64
  agent_standard_messages_per_min :: u64
  agent_standard_api_calls_per_min :: u64
  agent_elevated_messages_per_min :: u64
  agent_platform_messages_per_min :: u64

definition RateLimitConfig_default :: RateLimitConfig where
  "RateLimitConfig_default =
     \<lparr>human_messages_per_min = 60, human_api_calls_per_min = 300, human_ws_events_per_sec = 10,
      agent_standard_messages_per_min = 120, agent_standard_api_calls_per_min = 600,
      agent_elevated_messages_per_min = 300, agent_platform_messages_per_min = 600\<rparr>"

record RateLimitResult =
  rr_allowed :: bool
  rr_current :: nat
  rr_limit :: u64
  rr_reset_in_secs :: nat

definition rate_limit_key :: "TenantContext \<Rightarrow> pubkey \<Rightarrow> LimitType \<Rightarrow> string" where
  "rate_limit_key ctx pk t =
     ''buzz:'' @ community_uuid (tc_community ctx) @ '':ratelimit:'' @ pk @ '':'' @ key_suffix t"

definition ip_rate_limit_key :: "string \<Rightarrow> string" where
  "ip_rate_limit_key ip = ''buzz:ratelimit:ip:'' @ ip @ '':conn''"

definition rate_limit_script ::
  "nat \<Rightarrow> string \<Rightarrow> int \<Rightarrow> redis \<Rightarrow> (string + nat \<times> int) \<times> redis" where
  "rate_limit_script now key window r =
     (case r_incr now key r of
        Inl e \<Rightarrow> (Err e, r)
      | Inr (n, r1) \<Rightarrow>
          let r2 = (if n = 1 then r_expire now key window r1 else r1)
          in (Ok (n, r_ttl_secs now r2 key), r2))"

text \<open>The answer, with the second round trip that repairs a counter without a deadline.\<close>

definition repair_window ::
  "redis_fault \<Rightarrow> nat \<Rightarrow> string \<Rightarrow> u64 \<Rightarrow> int \<Rightarrow> redis \<Rightarrow> (AuthError + nat) \<times> redis" where
  "repair_window fault now key window_secs ttl r =
     (if ttl < 0 then
        (case fault of
           NoPool e \<Rightarrow> (Err (Internal (''Redis EXPIRE repair: '' @ e)), r)
         | NotRun e \<Rightarrow> (Err (Internal (''Redis EXPIRE repair: '' @ e)), r)
         | AnswerLost e \<Rightarrow>
             (Err (Internal (''Redis EXPIRE repair: '' @ e)), r_expire now key (sint window_secs) r)
         | Reached \<Rightarrow> (Ok (unat window_secs), r_expire now key (sint window_secs) r))
      else (Ok (nat (max ttl 0)), r))"

definition run_rate_limit ::
  "redis_fault \<Rightarrow> redis_fault \<Rightarrow> nat \<Rightarrow> string \<Rightarrow> u64 \<Rightarrow> u64 \<Rightarrow> redis
     \<Rightarrow> (AuthError + RateLimitResult) \<times> redis" where
  "run_rate_limit fault repair_fault now key window_secs limit r =
     (case fault of
        NoPool e \<Rightarrow> (Err (Internal (''Redis pool: '' @ e)), r)
      | NotRun e \<Rightarrow> (Err (Internal (''Redis rate limit script: '' @ e)), r)
      | AnswerLost e \<Rightarrow>
          (Err (Internal (''Redis rate limit script: '' @ e)),
           (case rate_limit_script now key (sint window_secs) r of (_, r') \<Rightarrow> r'))
      | Reached \<Rightarrow>
          (case rate_limit_script now key (sint window_secs) r of
             (Inl e, r') \<Rightarrow> (Err (Internal (''Redis rate limit script: '' @ e)), r')
           | (Inr (n, ttl), r') \<Rightarrow>
               (case repair_window repair_fault now key window_secs ttl r' of
                  (Inl e, r'') \<Rightarrow> (Err e, r'')
                | (Inr reset_in_secs, r'') \<Rightarrow>
                    (Ok \<lparr>rr_allowed = n \<le> unat limit, rr_current = n, rr_limit = limit,
                         rr_reset_in_secs = reset_in_secs\<rparr>, r''))))"

definition check_and_increment ::
  "redis_fault \<Rightarrow> redis_fault \<Rightarrow> nat \<Rightarrow> TenantContext \<Rightarrow> pubkey \<Rightarrow> LimitType \<Rightarrow> u64 \<Rightarrow> u64 \<Rightarrow> redis
     \<Rightarrow> (AuthError + RateLimitResult) \<times> redis" where
  "check_and_increment fault repair_fault now ctx pk t window_secs limit r =
     run_rate_limit fault repair_fault now (rate_limit_key ctx pk t) window_secs limit r"

definition check_ip_connection ::
  "redis_fault \<Rightarrow> redis_fault \<Rightarrow> nat \<Rightarrow> string \<Rightarrow> u64 \<Rightarrow> u64 \<Rightarrow> redis
     \<Rightarrow> (AuthError + RateLimitResult) \<times> redis" where
  "check_ip_connection fault repair_fault now ip window_secs limit r =
     run_rate_limit fault repair_fault now (ip_rate_limit_key ip) window_secs limit r"

datatype AdmissionError = Exceeded nat | Unavailable

definition check_principal ::
  "redis_fault \<Rightarrow> redis_fault \<Rightarrow> nat \<Rightarrow> TenantContext \<Rightarrow> pubkey \<Rightarrow> LimitType \<Rightarrow> u64 \<Rightarrow> u64 \<Rightarrow> redis
     \<Rightarrow> (AdmissionError + unit) \<times> redis" where
  "check_principal fault repair_fault now tenant pk t window_secs limit r =
     (case check_and_increment fault repair_fault now tenant pk t window_secs limit r of
        (Inr result, r') \<Rightarrow>
          (if rr_allowed result then Ok () else Err (Exceeded (rr_reset_in_secs result)), r')
      | (Inl _, r') \<Rightarrow> (Err Unavailable, r'))"

definition WS_BURST_WINDOW_SECS :: u64 where "WS_BURST_WINDOW_SECS = 5"

definition saturating_mul :: "u64 \<Rightarrow> u64 \<Rightarrow> u64" where
  "saturating_mul a b = (if unat a * unat b < 2 ^ 64 then a * b else - 1)"

definition ws_admission_budget :: "u64 \<Rightarrow> u64 \<times> u64" where
  "ws_admission_budget per_second_limit =
     (WS_BURST_WINDOW_SECS, saturating_mul per_second_limit WS_BURST_WINDOW_SECS)"

section \<open>Binding a host and admitting a request\<close>

datatype BindError = UnmappedHost | Lookup string

definition bind_community ::
  "(string \<Rightarrow> string + CommunityId option) \<Rightarrow> string \<Rightarrow> BindError + TenantContext" where
  "bind_community resolve_host raw_host =
     (let host = normalize_host raw_host
      in if host = [] then Err UnmappedHost
         else case resolve_host host of
             Inr (Some community) \<Rightarrow> Ok (TenantContext_resolved community host)
           | Inr None \<Rightarrow> Err UnmappedHost
           | Inl e \<Rightarrow> Err (Lookup e))"

type_synonym api_error = "nat \<times> string"

text \<open>\<open>headers.get(name).and_then(|v| v.to_str().ok())\<close> is an argument.\<close>

type_synonym header_map = "string \<Rightarrow> string option"

definition nip98_expected_url :: "string \<Rightarrow> TenantContext \<Rightarrow> string \<Rightarrow> string" where
  "nip98_expected_url config_relay_url tenant path =
     (let scheme = (if starts_with (dropWhile is_space config_relay_url) ''wss://''
                    then ''https'' else ''http'')
      in scheme @ ''://'' @ tc_host tenant @ path)"

definition nip42_expected_relay_url :: "string \<Rightarrow> TenantContext \<Rightarrow> string" where
  "nip42_expected_relay_url config_relay_url tenant =
     (let scheme = (if starts_with (dropWhile is_space config_relay_url) ''wss://''
                    then ''wss'' else ''ws'')
      in scheme @ ''://'' @ tc_host tenant)"

definition AuthError_display :: "'u auth_lib \<Rightarrow> AuthError \<Rightarrow> string" where
  "AuthError_display lib e =
     (case e of
        AuthError.InvalidSignature \<Rightarrow> ''invalid signature or malformed auth event''
      | ChallengeMismatch \<Rightarrow> ''challenge mismatch''
      | RelayUrlMismatch \<Rightarrow> ''relay url mismatch''
      | EventExpired \<Rightarrow> ''auth event timestamp outside '' @ plus_minus @ ''60s window''
      | Nip98Invalid m \<Rightarrow> ''NIP-98 HTTP Auth verification failed: '' @ m
      | Nip98Replay \<Rightarrow> ''NIP-98 replay: event id already seen within window''
      | PubkeyMismatch \<Rightarrow> ''pubkey mismatch: event pubkey does not match authenticated identity''
      | InsufficientScope required have_scopes \<Rightarrow>
          ''insufficient scope: required '' @ required @ '', have '' @ hl_debug lib have_scopes
      | ChannelAccessDenied \<Rightarrow> ''channel access denied''
      | Internal m \<Rightarrow> ''internal auth error: '' @ m)"

definition zero_event_id :: event_id where "zero_event_id = replicate 64 CHR ''0''"

definition decode_nostr_auth :: "'u auth_lib \<Rightarrow> string \<Rightarrow> api_error + string" where
  "decode_nostr_auth lib auth_str =
     and_then (ok_or (hl_base64_decode lib auth_str) (401, ''invalid base64 in Nostr auth'')) (\<lambda>bytes.
     if utf8_valid bytes then Ok bytes else Err (401, ''invalid UTF-8 in Nostr auth''))"

definition verify_bridge_auth_with_options ::
  "'u auth_lib \<Rightarrow> nat \<Rightarrow> header_map \<Rightarrow> string \<Rightarrow> string \<Rightarrow> string option \<Rightarrow> bool \<Rightarrow> bool
     \<Rightarrow> api_error + pubkey \<times> event_id" where
  "verify_bridge_auth_with_options lib now headers http_method url body require_auth_token
     require_payload =
     (case Option.bind (headers ''authorization'') (\<lambda>s. strip_prefix s ''Nostr '') of
        Some auth_str \<Rightarrow>
          and_then (decode_nostr_auth lib auth_str) (\<lambda>event_json.
          and_then (map_err (\<lambda>_. (401, ''invalid NIP-98 event JSON''))
            (hl_event_of_json lib event_json)) (\<lambda>e.
          if require_payload \<and> \<not> list_ex (\<lambda>t. tag_kind t = ''payload'') (ev_tags e)
          then Err (401, ''NIP-98: missing payload tag'')
          else and_then (map_err (\<lambda>err. (401, ''NIP-98: '' @ AuthError_display lib err))
            (verify_nip98_event lib now event_json url http_method body)) (\<lambda>pk.
          Ok (pk, ev_id e))))
      | None \<Rightarrow>
          (case (if require_auth_token then None else headers ''x-pubkey'') of
             Some hex_val \<Rightarrow>
               and_then (ok_or (hl_pubkey_from_hex lib hex_val) (401, ''invalid X-Pubkey hex''))
                 (\<lambda>pk. Ok (pk, zero_event_id))
           | None \<Rightarrow> Err (401, ''missing Nostr auth'')))"

definition verify_bridge_auth ::
  "'u auth_lib \<Rightarrow> nat \<Rightarrow> header_map \<Rightarrow> string \<Rightarrow> string \<Rightarrow> string option \<Rightarrow> bool
     \<Rightarrow> api_error + pubkey \<times> event_id" where
  "verify_bridge_auth lib now headers http_method url body require_auth_token =
     verify_bridge_auth_with_options lib now headers http_method url body require_auth_token False"

definition check_nip98_replay ::
  "redis_fault \<Rightarrow> nat \<Rightarrow> TenantContext \<Rightarrow> event_id \<Rightarrow> redis \<Rightarrow> (api_error + unit) \<times> redis" where
  "check_nip98_replay fault now tenant event_id r =
     (if event_id = zero_event_id then (Ok (), r)
      else case try_mark fault now tenant event_id DEFAULT_REPLAY_TTL_SECS r of
          (Inr True, r') \<Rightarrow> (Ok (), r')
        | (Inr False, r') \<Rightarrow> (Err (401, ''NIP-98: replay detected''), r')
        | (Inl _, r') \<Rightarrow> (Err (401, ''NIP-98: replay check unavailable''), r'))"

definition enforce_http_admission ::
  "redis_fault \<Rightarrow> redis_fault \<Rightarrow> nat \<Rightarrow> RateLimitConfig \<Rightarrow> TenantContext \<Rightarrow> pubkey \<Rightarrow> redis
     \<Rightarrow> (api_error + unit) \<times> redis" where
  "enforce_http_admission fault repair_fault now config tenant pk r =
     (case check_principal fault repair_fault now tenant pk ApiCalls 60
         (human_api_calls_per_min config) r of
        (Inr _, r') \<Rightarrow> (Ok (), r')
      | (Inl (Exceeded reset_in_secs), r') \<Rightarrow>
          (Err (429, ''rate-limited: quota exceeded; retry in '' @ show_nat reset_in_secs @ ''s''), r')
      | (Inl Unavailable, r') \<Rightarrow> (Err (503, ''rate-limited: shared admission unavailable''), r'))"

definition bind_request ::
  "(string \<Rightarrow> string + CommunityId option) \<Rightarrow> header_map \<Rightarrow> api_error + TenantContext" where
  "bind_request resolve_host headers =
     map_err (\<lambda>_. (404, ''relay: no community is configured for this host''))
       (bind_community resolve_host (case headers ''host'' of Some h \<Rightarrow> h | None \<Rightarrow> []))"

text \<open>The shared prelude of the invite endpoints; the two clocks are those of the relay and of Redis.\<close>

definition authenticate ::
  "'u auth_lib \<Rightarrow> (string \<Rightarrow> string + CommunityId option) \<Rightarrow> redis_fault \<Rightarrow> nat \<Rightarrow> nat \<Rightarrow> string
     \<Rightarrow> header_map \<Rightarrow> string \<Rightarrow> string \<Rightarrow> redis \<Rightarrow> (api_error + TenantContext \<times> pubkey) \<times> redis" where
  "authenticate lib resolve_host fault now redis_now config_relay_url headers path body r =
     try_op (bind_request resolve_host headers) r (\<lambda>tenant.
     try_op (verify_bridge_auth_with_options lib now headers ''POST''
         (nip98_expected_url config_relay_url tenant path) (Some body) True True) r
       (\<lambda>(pk, event_id).
         (case check_nip98_replay fault redis_now tenant event_id r of
            (Inl e, r') \<Rightarrow> (Err e, r')
          | (Inr _, r') \<Rightarrow> (Ok (tenant, pk), r'))))"

definition OPERATOR_REPLAY_SCOPE :: string where "OPERATOR_REPLAY_SCOPE = ''operator-management''"

definition check_operator_replay ::
  "redis_fault \<Rightarrow> nat \<Rightarrow> event_id \<Rightarrow> redis \<Rightarrow> (api_error + unit) \<times> redis" where
  "check_operator_replay fault now event_id r =
     (case try_mark_in_scope fault now OPERATOR_REPLAY_SCOPE event_id DEFAULT_REPLAY_TTL_SECS r of
        (Inr True, r') \<Rightarrow> (Ok (), r')
      | (Inr False, r') \<Rightarrow> (Err (401, ''NIP-98: replay detected''), r')
      | (Inl _, r') \<Rightarrow> (Err (401, ''NIP-98: replay check unavailable''), r'))"

definition with_query :: "string \<Rightarrow> string option \<Rightarrow> string" where
  "with_query path raw_query =
     (case raw_query of
        Some q \<Rightarrow> if q \<noteq> [] then path @ ''?'' @ q else path
      | None \<Rightarrow> path)"

definition authorize_operator_request ::
  "'u auth_lib \<Rightarrow> redis_fault \<Rightarrow> nat \<Rightarrow> nat \<Rightarrow> string option \<Rightarrow> pubkey list \<Rightarrow> header_map \<Rightarrow> string
     \<Rightarrow> string \<Rightarrow> string option \<Rightarrow> string option \<Rightarrow> redis \<Rightarrow> (api_error + pubkey) \<times> redis" where
  "authorize_operator_request lib fault now redis_now api_origin operator_pubkeys headers http_method
     path raw_query body r =
     try_op (ok_or api_origin (500, ''internal server error'')) r (\<lambda>origin.
     try_op (verify_bridge_auth_with_options lib now headers http_method
         (origin @ with_query path raw_query) body True (body \<noteq> None)) r
       (\<lambda>(pk, event_id).
         (case check_operator_replay fault redis_now event_id r of
            (Inl e, r') \<Rightarrow> (Err e, r')
          | (Inr _, r') \<Rightarrow>
              (if pk \<in> set operator_pubkeys then Ok pk
               else Err (403, ''actor not authorized: not a relay operator''), r'))))"

end
