(* ===== verification/AuthProps.thy ===== *)
theory AuthProps
  imports Auth "HOL-Library.Code_Target_Nat"
begin

text \<open>
  Authentication and admission are correct: scopes round-trip, NIP-42 and NIP-98 accept exactly what
  they document, an authenticated request is signed for the community and body it is used for, a
  signed request is accepted twice only at the very edges of its time window, and a rate limit holds
  over every interval of the length of its window.
\<close>

section \<open>Scopes\<close>

lemma as_str_step: "Scope_as_str a = l \<Longrightarrow> Scope_as_str x = s \<Longrightarrow> Scope_as_str (if s = l then a else x) = s"
  by simp

lemma scope_as_from_str [simp]: "Scope_as_str (Scope_from_str s) = s"
  unfolding Scope_from_str_def
  apply (intro as_str_step)
  apply (simp_all add: Scope_as_str_def)
  done

lemma scope_from_as_str: "s \<in> set all_known \<Longrightarrow> Scope_from_str (Scope_as_str s) = s"
proof -
  have "list_all (\<lambda>s. Scope_from_str (Scope_as_str s) = s) all_known" by code_simp
  then show "s \<in> set all_known \<Longrightarrow> Scope_from_str (Scope_as_str s) = s" by (simp add: list_all_iff)
qed

lemma all_non_admin_is: "all_non_admin = filter (\<lambda>s. s \<notin> {AdminChannels, AdminUsers}) all_known"
  by (simp add: all_non_admin_def all_known_def)

section \<open>Exact acceptance\<close>

lemma verify_event_Ok [simp]: "verify_event lib e = Ok u \<longleftrightarrow> hl_verify_id lib e \<and> hl_verify_signature lib e"
  by (simp add: verify_event_def)

definition fresh_at :: "nat \<Rightarrow> 'a nostr_event_scheme \<Rightarrow> bool" where
  "fresh_at now e \<longleftrightarrow>
     1000 * ev_created_at e \<le> now + 60000 \<and> now < 1000 * ev_created_at e + 61000"

lemma abs_diff_le: "abs_diff a b \<le> n \<longleftrightarrow> a \<le> b + n \<and> b \<le> a + n"
  by (auto simp: abs_diff_def)

lemma fresh_at_iff: "abs_diff (as_secs now) (ev_created_at e) \<le> TIMESTAMP_TOLERANCE_SECS \<longleftrightarrow> fresh_at now e"
proof -
  have "now div 1000 \<le> c + 60 \<longleftrightarrow> now div 1000 < c + 61" for c :: nat by auto
  then have "now div 1000 \<le> c + 60 \<longleftrightarrow> now < 1000 * c + 61000" for c :: nat
    by (simp add: div_less_iff_less_mult distrib_right mult.commute)
  moreover have "c \<le> now div 1000 + 60 \<longleftrightarrow> 1000 * c \<le> now + 60000" for c :: nat
  proof -
    have "now div 1000 + 60 = (now + 60 * 1000) div 1000" by simp
    then show ?thesis by (simp add: less_eq_div_iff_mult_less_eq mult.commute)
  qed
  ultimately show ?thesis
    by (simp add: abs_diff_le as_secs_def TIMESTAMP_TOLERANCE_SECS_def fresh_at_def conj_commute)
qed

theorem nip98_accepts_iff:
  "verify_nip98_event lib now event_json url http_method body = Ok pk \<longleftrightarrow>
     (\<exists>e u m. hl_event_of_json lib event_json = Ok e \<and> pk = ev_pubkey e \<and> ev_kind e = 27235 \<and>
        hl_verify_id lib e \<and> hl_verify_signature lib e \<and> fresh_at now e \<and>
        tag_value ''u'' e = Some u \<and> normalize_url lib u = normalize_url lib url \<and>
        tag_value ''method'' e = Some m \<and> eq_ignore_ascii_case m http_method \<and>
        (\<forall>h b. tag_value ''payload'' e = Some h \<and> body = Some b \<longrightarrow> h = hl_sha256_hex lib b))"
proof -
  have pl: "check_payload lib e body = Ok () \<longleftrightarrow>
      (\<forall>h b. tag_value ''payload'' e = Some h \<and> body = Some b \<longrightarrow> h = hl_sha256_hex lib b)" for e
    by (auto simp: check_payload_def split: option.splits)
  have fr: "check_freshness now e = Ok () \<longleftrightarrow> fresh_at now e" for e
    by (simp add: check_freshness_def Let_def fresh_at_iff)
  show ?thesis
    unfolding verify_nip98_event_def check_url_def check_method_def
    by (auto simp: and_then_eq_Ok map_err_eq pl fr)
qed

theorem nip42_accepts_iff:
  "verify_nip42_event lib now e challenge url = Ok () \<longleftrightarrow>
     ev_kind e = 22242 \<and> hl_verify_id lib e \<and> hl_verify_signature lib e \<and>
     tag_value ''challenge'' e = Some challenge \<and>
     (\<exists>relay. tag_value ''relay'' e = Some relay \<and>
        normalize_relay_url lib relay = normalize_relay_url lib url) \<and>
     fresh_at now e"
  unfolding verify_nip42_event_def
  by (auto simp: and_then_eq_Ok map_err_eq fresh_at_iff [symmetric])

section \<open>Replays\<close>

definition marked :: "string \<Rightarrow> nat \<Rightarrow> redis \<Rightarrow> bool" where
  "marked k d r \<longleftrightarrow> (\<exists>v d'. map_of r k = Some (v, Some d') \<and> d \<le> d')"

lemma marked_set_nx_ex:
  "marked k d r \<Longrightarrow> r_set_nx_ex now k' v ttl r = (res, r') \<Longrightarrow> marked k d r'"
  by (auto simp: marked_def r_set_nx_ex_def r_set_px_def r_get_def split: if_splits)

lemma marked_try_mark:
  "marked k d r \<Longrightarrow> try_mark_in_scope fault now scope eid ttl r = (res, r') \<Longrightarrow> marked k d r'"
  unfolding try_mark_in_scope_def Let_def
  by (auto split: prod.splits redis_fault.splits dest: marked_set_nx_ex)

lemma try_mark_True:
  assumes "try_mark_in_scope fault now scope eid ttl r = (Ok True, r')"
  shows "r_get now r (nip98_replay_key_for_scope scope eid) = None"
    "marked (nip98_replay_key_for_scope scope eid) (now + 120000) r'"
proof -
  have t: "120000 \<le> max 120 (min ttl 3600) * 1000" by simp
  then show "r_get now r (nip98_replay_key_for_scope scope eid) = None"
    "marked (nip98_replay_key_for_scope scope eid) (now + 120000) r'"
    using assms
    by (auto simp: try_mark_in_scope_def Let_def r_set_nx_ex_def r_set_px_def marked_def
        DEFAULT_REPLAY_TTL_SECS_def MAX_REPLAY_TTL_SECS_def split: redis_fault.splits if_splits)
qed

lemma marked_check_replay:
  "marked k d r \<Longrightarrow> check_nip98_replay fault now tenant eid r = (res, r') \<Longrightarrow> marked k d r'"
  unfolding check_nip98_replay_def try_mark_def
  by (auto split: if_splits prod.splits sum.splits bool.splits dest: marked_try_mark)

lemma check_replay_Ok:
  assumes "check_nip98_replay fault now tenant eid r = (Ok u, r')" "eid \<noteq> zero_event_id"
  shows "r_get now r (nip98_replay_key tenant eid) = None"
    "marked (nip98_replay_key tenant eid) (now + 120000) r'"
  using assms try_mark_True unfolding check_nip98_replay_def try_mark_def nip98_replay_key_def
  by (fastforce split: if_splits prod.splits sum.splits bool.splits)+

lemma marked_absent: "marked k d r \<Longrightarrow> r_get now r k = None \<Longrightarrow> d \<le> now"
  by (auto simp: marked_def r_get_def split: if_splits)

record auth_request =
  rq_headers :: header_map
  rq_path :: string
  rq_body :: string
  rq_now :: nat
  rq_redis_now :: nat
  rq_fault :: redis_fault

definition request_event :: "'u auth_lib \<Rightarrow> auth_request \<Rightarrow> signed_event option" where
  "request_event lib q =
     (case Option.bind (rq_headers q ''authorization'') (\<lambda>s. strip_prefix s ''Nostr '') of
        Some auth_str \<Rightarrow>
          (case and_then (decode_nostr_auth lib auth_str)
             (\<lambda>j. map_err (\<lambda>_. (401, [])) (hl_event_of_json lib j)) of
             Inr e \<Rightarrow> Some e
           | Inl _ \<Rightarrow> None)
      | None \<Rightarrow> None)"

definition auth_step ::
  "'u auth_lib \<Rightarrow> (string \<Rightarrow> string + CommunityId option) \<Rightarrow> string \<Rightarrow> auth_request \<Rightarrow> redis
     \<Rightarrow> (api_error + TenantContext \<times> pubkey) \<times> redis" where
  "auth_step lib resolve conf q r =
     authenticate lib resolve (rq_fault q) (rq_now q) (rq_redis_now q) conf (rq_headers q)
       (rq_path q) (rq_body q) r"

text \<open>The state of Redis after a sequence of requests.\<close>

definition after_requests ::
  "'u auth_lib \<Rightarrow> (string \<Rightarrow> string + CommunityId option) \<Rightarrow> string \<Rightarrow> auth_request list \<Rightarrow> redis
     \<Rightarrow> redis" where
  "after_requests lib resolve conf qs r =
     fold (\<lambda>q r. case auth_step lib resolve conf q r of (_, r') \<Rightarrow> r') qs r"

lemma marked_auth_step:
  "marked k d r \<Longrightarrow> auth_step lib resolve conf q r = (res, r') \<Longrightarrow> marked k d r'"
  unfolding auth_step_def authenticate_def try_op_def
  by (auto split: sum.splits prod.splits dest: marked_check_replay)

lemma marked_after_requests: "marked k d r \<Longrightarrow> marked k d (after_requests lib resolve conf qs r)"
proof (induction qs arbitrary: r)
  case (Cons q qs)
  obtain res r' where q: "auth_step lib resolve conf q r = (res, r')" by (cases "auth_step lib resolve conf q r")
  from Cons.IH [OF marked_auth_step [OF Cons.prems q]] show ?case
    by (simp add: after_requests_def q)
qed (simp add: after_requests_def)

lemma normalize_host_Nil [simp]: "normalize_host [] = []"
  by code_simp

lemma bind_request_Ok:
  "bind_request resolve h = Ok t \<Longrightarrow>
     \<exists>raw c. h ''host'' = Some raw \<and> normalize_host raw \<noteq> [] \<and> resolve (normalize_host raw) = Ok (Some c) \<and>
       t = TenantContext_resolved c (normalize_host raw)"
  unfolding bind_request_def bind_community_def
  by (cases "h ''host''") (auto simp: map_err_eq Let_def split: option.splits if_splits sum.splits)

lemma bridge_auth_nip98:
  assumes "verify_bridge_auth_with_options lib now h m url body True payload = Ok (pk, eid)"
    and q: "rq_headers q = h"
  obtains e j where "request_event lib q = Some e" "eid = ev_id e" "hl_event_of_json lib j = Ok e"
    "verify_nip98_event lib now j url m body = Ok pk"
    "payload \<Longrightarrow> \<exists>t\<in>set (ev_tags e). tag_kind t = ''payload''"
proof -
  obtain s j e where "Option.bind (h ''authorization'') (\<lambda>s. strip_prefix s ''Nostr '') = Some s"
    "decode_nostr_auth lib s = Ok j" "hl_event_of_json lib j = Ok e" "eid = ev_id e"
    "verify_nip98_event lib now j url m body = Ok pk"
    "payload \<Longrightarrow> \<exists>t\<in>set (ev_tags e). tag_kind t = ''payload''"
    using assms(1) unfolding verify_bridge_auth_with_options_def
    by (auto simp: and_then_eq_Ok map_err_eq list_ex_iff split: option.splits if_splits)
  then show ?thesis by (intro that [of e j]) (simp_all add: request_event_def q)
qed

lemma authenticate_Ok:
  assumes "auth_step lib resolve conf q r = (Ok (tenant, pk), r')"
  obtains e j where "request_event lib q = Some e" "hl_event_of_json lib j = Ok e"
    "bind_request resolve (rq_headers q) = Ok tenant"
    "verify_nip98_event lib (rq_now q) j (nip98_expected_url conf tenant (rq_path q)) ''POST''
       (Some (rq_body q)) = Ok pk"
    "\<exists>t\<in>set (ev_tags e). tag_kind t = ''payload''"
    "check_nip98_replay (rq_fault q) (rq_redis_now q) tenant (ev_id e) r = (Ok (), r')"
proof -
  obtain eid where a: "bind_request resolve (rq_headers q) = Ok tenant"
    "verify_bridge_auth_with_options lib (rq_now q) (rq_headers q) ''POST''
       (nip98_expected_url conf tenant (rq_path q)) (Some (rq_body q)) True True = Ok (pk, eid)"
    "check_nip98_replay (rq_fault q) (rq_redis_now q) tenant eid r = (Ok (), r')"
    using assms unfolding auth_step_def authenticate_def
    by (auto simp: try_op_def split: sum.splits prod.splits)
  obtain e j where e: "request_event lib q = Some e" "eid = ev_id e" "hl_event_of_json lib j = Ok e"
    "verify_nip98_event lib (rq_now q) j (nip98_expected_url conf tenant (rq_path q)) ''POST''
       (Some (rq_body q)) = Ok pk"
    "\<exists>t\<in>set (ev_tags e). tag_kind t = ''payload''"
    by (rule bridge_auth_nip98 [OF a(2) refl]) (simp only:)
  show ?thesis by (rule that [OF e(1,3) a(1) e(4,5)]) (use a(3) e(2) in simp)
qed

text \<open>
  C12. A request that the invite endpoints authenticate for a community was sent to a host of that
  community and carries an event of kind 27235, signed by the key it is authenticated as, within a
  minute of now, whose \<open>u\<close> tag is the URL of this path on the community's own host, whose method is
  POST, whose payload tag, when it has a value, is the hash of the body, and whose id had no live
  replay mark in this community; the mark is set for the next 120 seconds.
\<close>

theorem authenticated_request:
  assumes "auth_step lib resolve conf q r = (Ok (tenant, pk), r')"
  shows "\<exists>e u m raw. request_event lib q = Some e \<and> pk = ev_pubkey e \<and> ev_kind e = 27235 \<and>
    hl_verify_id lib e \<and> hl_verify_signature lib e \<and> fresh_at (rq_now q) e \<and>
    rq_headers q ''host'' = Some raw \<and> tc_host tenant = normalize_host raw \<and>
    resolve (normalize_host raw) = Ok (Some (tc_community tenant)) \<and>
    tag_value ''u'' e = Some u \<and>
    normalize_url lib u = normalize_url lib (nip98_expected_url conf tenant (rq_path q)) \<and>
    tag_value ''method'' e = Some m \<and> eq_ignore_ascii_case m ''POST'' \<and>
    (\<exists>t\<in>set (ev_tags e). tag_kind t = ''payload'') \<and>
    (\<forall>h. tag_value ''payload'' e = Some h \<longrightarrow> h = hl_sha256_hex lib (rq_body q)) \<and>
    (ev_id e \<noteq> zero_event_id \<longrightarrow>
       r_get (rq_redis_now q) r (nip98_replay_key tenant (ev_id e)) = None \<and>
       marked (nip98_replay_key tenant (ev_id e)) (rq_redis_now q + 120000) r')"
proof -
  obtain e j where a: "request_event lib q = Some e" "hl_event_of_json lib j = Ok e"
    "bind_request resolve (rq_headers q) = Ok tenant"
    "verify_nip98_event lib (rq_now q) j (nip98_expected_url conf tenant (rq_path q)) ''POST''
       (Some (rq_body q)) = Ok pk"
    "\<exists>t\<in>set (ev_tags e). tag_kind t = ''payload''"
    "check_nip98_replay (rq_fault q) (rq_redis_now q) tenant (ev_id e) r = (Ok (), r')"
    using authenticate_Ok [OF assms] by blast
  obtain raw c where "rq_headers q ''host'' = Some raw" "resolve (normalize_host raw) = Ok (Some c)"
    "tenant = TenantContext_resolved c (normalize_host raw)"
    using bind_request_Ok [OF a(3)] by blast
  then have "rq_headers q ''host'' = Some raw" "tc_host tenant = normalize_host raw"
    "resolve (normalize_host raw) = Ok (Some (tc_community tenant))"
    by (simp_all add: TenantContext_resolved_def)
  with a(1,2,5) check_replay_Ok [OF a(6)] show ?thesis
    using a(4) [unfolded nip98_accepts_iff] by auto
qed

text \<open>
  C13. A signed request is authenticated twice in a community only when the first use was at least 120
  seconds before the second, by the clock of Redis, while both uses fall into the 121 seconds around
  its creation that the freshness check accepts; so where the clocks agree the first use is in the
  first and the second in the last second of that span. It is assumed that ids that verify
  determine the creation time.
\<close>

theorem nip98_replay_only_at_edge:
  assumes "auth_step lib resolve conf q (after_requests lib resolve conf before r) = (Ok (t, pk), r1)"
    and "auth_step lib resolve conf q' (after_requests lib resolve conf between r1) = (Ok (t', pk'), r2)"
    and "request_event lib q = Some e" "request_event lib q' = Some e'"
    and ids: "ev_id e' = ev_id e" "ev_id e \<noteq> zero_event_id" "tc_community t' = tc_community t"
    and hash: "hl_verify_id lib e \<Longrightarrow> hl_verify_id lib e' \<Longrightarrow> ev_created_at e' = ev_created_at e"
  shows "rq_redis_now q + 120000 \<le> rq_redis_now q' \<and>
    1000 * ev_created_at e \<le> rq_now q + 60000 \<and> rq_now q' < 1000 * ev_created_at e + 61000"
proof -
  from authenticated_request [OF assms(1)] assms(3) ids have 1: "hl_verify_id lib e" "fresh_at (rq_now q) e"
    "marked (nip98_replay_key t (ev_id e)) (rq_redis_now q + 120000) r1" by auto
  from authenticated_request [OF assms(2)] assms(4) ids have 2: "hl_verify_id lib e'" "fresh_at (rq_now q') e'"
    "r_get (rq_redis_now q') (after_requests lib resolve conf between r1) (nip98_replay_key t (ev_id e)) = None"
    by (auto simp: nip98_replay_key_def)
  have "rq_redis_now q + 120000 \<le> rq_redis_now q'"
    by (rule marked_absent [OF marked_after_requests [OF 1(3)] 2(3)])
  then show ?thesis using 1 2 hash by (simp add: fresh_at_def)
qed

section \<open>Rate limits\<close>

record limit_call =
  lc_fault :: redis_fault
  lc_repair :: redis_fault
  lc_now :: nat
  lc_tenant :: TenantContext
  lc_pubkey :: pubkey
  lc_type :: LimitType
  lc_window :: u64
  lc_limit :: u64

definition lc_key :: "limit_call \<Rightarrow> string" where
  "lc_key c = rate_limit_key (lc_tenant c) (lc_pubkey c) (lc_type c)"

definition limit_step :: "limit_call \<Rightarrow> redis \<Rightarrow> (AdmissionError + unit) \<times> redis" where
  "limit_step c r =
     check_principal (lc_fault c) (lc_repair c) (lc_now c) (lc_tenant c) (lc_pubkey c) (lc_type c)
       (lc_window c) (lc_limit c) r"

text \<open>The times at which calls that count under a key are admitted.\<close>

fun admitted :: "string \<Rightarrow> limit_call list \<Rightarrow> redis \<Rightarrow> nat list" where
  "admitted k [] r = []"
| "admitted k (c # cs) r =
     (case limit_step c r of
        (res, r') \<Rightarrow> (if is_ok res \<and> lc_key c = k then [lc_now c] else []) @ admitted k cs r')"

lemma r_expire_other: "k' \<noteq> k \<Longrightarrow> map_of (r_expire now k secs r) k' = map_of r k'"
  by (simp add: r_expire_def r_pexpire_def split: option.splits)

lemma r_incr_other: "r_incr now k r = Ok (n, r') \<Longrightarrow> k' \<noteq> k \<Longrightarrow> map_of r' k' = map_of r k'"
  by (auto simp: r_incr_def split: option.splits if_splits)

lemma rate_limit_script_other:
  "rate_limit_script now k w r = (res, r') \<Longrightarrow> k' \<noteq> k \<Longrightarrow> map_of r' k' = map_of r k'"
  unfolding rate_limit_script_def Let_def
  by (auto simp: r_expire_other r_incr_other split: sum.splits prod.splits if_splits)

lemma repair_window_other:
  "repair_window f now k w ttl r = (res, r') \<Longrightarrow> k' \<noteq> k \<Longrightarrow> map_of r' k' = map_of r k'"
  unfolding repair_window_def by (auto simp: r_expire_other split: redis_fault.splits if_splits)

lemma run_rate_limit_other:
  assumes "run_rate_limit f f' now k w l r = (res, r')" "k' \<noteq> k"
  shows "map_of r' k' = map_of r k'"
proof -
  obtain a r1 where s: "rate_limit_script now k (sint w) r = (a, r1)"
    by (cases "rate_limit_script now k (sint w) r")
  have 1: "map_of r1 k' = map_of r k'" by (rule rate_limit_script_other [OF s assms(2)])
  have 2: "map_of r2 k' = map_of r k'" if "repair_window f' now k w ttl r1 = (b, r2)" for ttl b r2
    using repair_window_other [OF that assms(2)] 1 by simp
  show ?thesis
    using assms(1) 1 2 by (auto simp: run_rate_limit_def s split: redis_fault.splits sum.splits prod.splits)
qed

lemma limit_step_run:
  "limit_step c r = (res, r') \<Longrightarrow>
     \<exists>a. run_rate_limit (lc_fault c) (lc_repair c) (lc_now c) (lc_key c) (lc_window c) (lc_limit c) r = (a, r') \<and>
       is_ok res = (\<exists>x. a = Ok x \<and> rr_allowed x)"
  unfolding limit_step_def check_principal_def check_and_increment_def lc_key_def
  by (auto split: prod.splits sum.splits if_splits)

lemma limit_step_other: "limit_step c r = (res, r') \<Longrightarrow> lc_key c \<noteq> k \<Longrightarrow> map_of r' k = map_of r k"
  using limit_step_run run_rate_limit_other by metis

text \<open>What a call does to its own counter: live, absent or expired, or left without a deadline.\<close>

abbreviation counter :: "redis \<Rightarrow> string \<Rightarrow> nat \<Rightarrow> nat option \<Rightarrow> bool" where
  "counter r k n d \<equiv> map_of r k = Some (show_nat n, d) \<and> 0 < n \<and> n < 2 ^ 63"

abbreviation allowed :: "AuthError + RateLimitResult \<Rightarrow> bool" where
  "allowed a \<equiv> (\<exists>x. a = Ok x \<and> rr_allowed x)"

definition window_ms :: "u64 \<Rightarrow> nat" where "window_ms w = nat (sint w) * 1000"

lemma window_pos: "0 < sint w \<Longrightarrow> 0 < window_ms w"
  by (simp add: window_ms_def)

lemma incr_counter:
  assumes "counter r k n d" "\<And>t. d = Some t \<Longrightarrow> now < t"
  shows "r_incr now k r =
    (if n + 1 < 2 ^ 63 then Ok (n + 1, AList.update k (show_nat (n + 1), d) r)
     else Err ''ERR value is not an integer or out of range'')"
  using assms by (cases d) (auto simp: r_incr_def r_get_def r_ttl_def parse_uint_show)

lemma ttl_live: "map_of r k = Some (v, Some d) \<Longrightarrow> now < d \<Longrightarrow> 0 \<le> r_ttl_secs now r k"
  by (simp add: r_ttl_secs_def r_get_def r_ttl_def)

lemma ttl_persistent: "map_of r k = Some (v, None) \<Longrightarrow> r_ttl_secs now r k = -1"
  by (simp add: r_ttl_secs_def r_get_def r_ttl_def)

lemma run_live:
  assumes "run_rate_limit f f' now k w l r = (a, r')" "counter r k n (Some d)" "now < d"
  shows "\<exists>n'. counter r' k n' (Some d) \<and> n \<le> n' \<and> (allowed a \<longrightarrow> n < n' \<and> n' \<le> unat l)"
proof (cases "n + 1 < 2 ^ 63")
  case True
  let ?r = "AList.update k (show_nat (n + 1), Some d) r"
  have s: "rate_limit_script now k (sint w) r = (Ok (n + 1, r_ttl_secs now ?r k), ?r)"
    using incr_counter [OF assms(2)] assms(2,3) True by (simp add: rate_limit_script_def)
  have c: "counter ?r k (n + 1) (Some d)" using True by simp
  have "0 \<le> r_ttl_secs now ?r k" by (rule ttl_live) (use assms(3) in simp_all)
  then have "r' = r \<and> \<not> allowed a \<or> r' = ?r \<and> (allowed a \<longrightarrow> n + 1 \<le> unat l)"
    using assms(1) by (auto simp: run_rate_limit_def s repair_window_def split: redis_fault.splits)
  then show ?thesis using c assms(2) by (metis le_add1 less_add_one order_refl)
next
  case False
  then have "rate_limit_script now k (sint w) r = (Err ''ERR value is not an integer or out of range'', r)"
    using incr_counter [OF assms(2)] assms(3) by (simp add: rate_limit_script_def)
  then have "r' = r \<and> \<not> allowed a"
    using assms(1) by (auto simp: run_rate_limit_def split: redis_fault.splits)
  then show ?thesis using assms(2) by blast
qed

lemma run_dead:
  assumes "run_rate_limit f f' now k w l r = (a, r')" "r_get now r k = None" "0 < sint w"
  shows "r' = r \<and> \<not> allowed a \<or>
    counter r' k 1 (Some (now + window_ms w)) \<and> (allowed a \<longrightarrow> 1 \<le> unat l)"
proof -
  let ?r = "AList.update k (show_nat 1, Some (now + window_ms w)) r"
  have s: "rate_limit_script now k (sint w) r = (Ok (1, r_ttl_secs now ?r k), ?r)"
    using assms(2,3)
    by (simp add: rate_limit_script_def r_incr_def r_expire_def r_pexpire_def window_ms_def Let_def)
  have "now < now + window_ms w" using window_pos [OF assms(3)] by linarith
  then have "0 \<le> r_ttl_secs now ?r k" by (intro ttl_live [of _ _ "show_nat 1" "now + window_ms w"]) simp_all
  then have "r' = r \<and> \<not> allowed a \<or> r' = ?r \<and> (allowed a \<longrightarrow> 1 \<le> unat l)"
    using assms(1) by (auto simp: run_rate_limit_def s repair_window_def split: redis_fault.splits)
  then show ?thesis by auto
qed

lemma run_persistent:
  assumes "run_rate_limit f f' now k w l r = (a, r')" "counter r k n None" "0 < sint w"
  shows "\<exists>n'. counter r' k n' None \<and> \<not> allowed a \<or>
    counter r' k n' (Some (now + window_ms w)) \<and> (allowed a \<longrightarrow> n' \<le> unat l)"
proof (cases "n + 1 < 2 ^ 63")
  case True
  let ?r = "AList.update k (show_nat (Suc n), None) r"
  have s: "rate_limit_script now k (sint w) r = (Ok (Suc n, -1), ?r)"
    using incr_counter [OF assms(2)] assms(2) True ttl_persistent [of ?r k]
    by (simp add: rate_limit_script_def Let_def)
  let ?r' = "AList.update k (show_nat (Suc n), Some (now + window_ms w)) r"
  have e: "r_expire now k (sint w) ?r = ?r'"
    using assms(3) by (simp add: r_expire_def r_pexpire_def window_ms_def)
  have "r' \<in> {r, ?r} \<and> \<not> allowed a \<or> r' = ?r' \<and> (allowed a \<longrightarrow> Suc n \<le> unat l)"
    using assms(1) by (auto simp: run_rate_limit_def s repair_window_def e split: redis_fault.splits)
  moreover have "counter ?r k (Suc n) None" "counter ?r' k (Suc n) (Some (now + window_ms w))"
    using True by simp_all
  ultimately show ?thesis using assms(2) by blast
next
  case False
  then have "rate_limit_script now k (sint w) r = (Err ''ERR value is not an integer or out of range'', r)"
    using incr_counter [OF assms(2)] by (simp add: rate_limit_script_def)
  then have "r' = r \<and> \<not> allowed a"
    using assms(1) by (auto simp: run_rate_limit_def split: redis_fault.splits)
  then show ?thesis using assms(2) by blast
qed

section \<open>Admissions over time\<close>

definition same_budget :: "string \<Rightarrow> u64 \<Rightarrow> u64 \<Rightarrow> limit_call list \<Rightarrow> bool" where
  "same_budget k w l cs \<longleftrightarrow> (\<forall>c\<in>set cs. lc_key c = k \<longrightarrow> lc_window c = w \<and> lc_limit c = l)"

lemma same_budget_simps [simp]:
  "same_budget k w l []"
  "same_budget k w l (c # cs) \<longleftrightarrow> (lc_key c = k \<longrightarrow> lc_window c = w \<and> lc_limit c = l) \<and> same_budget k w l cs"
  "same_budget k w l (cs @ ds) \<longleftrightarrow> same_budget k w l cs \<and> same_budget k w l ds"
  by (auto simp: same_budget_def)

abbreviation admitted_before :: "nat \<Rightarrow> string \<Rightarrow> limit_call list \<Rightarrow> redis \<Rightarrow> nat" where
  "admitted_before t k cs r \<equiv> length (filter (\<lambda>s. s < t) (admitted k cs r))"

lemma admitted_times: "s \<in> set (admitted k cs r) \<Longrightarrow> s \<in> lc_now ` set cs"
  by (induction cs arbitrary: r) (auto split: prod.splits if_splits)

lemma none_before: "(\<And>c. c \<in> set cs \<Longrightarrow> t \<le> lc_now c) \<Longrightarrow> admitted_before t k cs r = 0"
  using admitted_times [of _ k cs r] by (fastforce simp: filter_empty_conv)

lemma sublist_count: "t \<le> t' \<Longrightarrow> admitted_before t k cs r \<le> admitted_before t' k cs r"
proof -
  have "length (filter (\<lambda>s. s < t) xs) \<le> length (filter (\<lambda>s. s < t') xs)" if "t \<le> t'" for xs
    using that by (induction xs) auto
  then show "t \<le> t' \<Longrightarrow> ?thesis" by blast
qed

lemma admitted_live:
  assumes "sorted (map lc_now cs)" "same_budget k w l cs" "counter r k n (Some d)"
  shows "admitted_before d k cs r \<le> unat l - n"
  using assms
proof (induction cs arbitrary: r n)
  case (Cons c cs)
  obtain res r' where s: "limit_step c r = (res, r')" by (cases "limit_step c r")
  show ?case
  proof (cases "lc_now c < d")
    case late: False
    then have "admitted_before d k (c # cs) r = 0"
      by (intro none_before) (use Cons.prems(1) in fastforce)
    then show ?thesis by simp
  next
    case now: True
    show ?thesis
    proof (cases "lc_key c = k")
      case False
      then have "counter r' k n (Some d)" using Cons.prems(3) limit_step_other [OF s] by simp
      from Cons.IH [OF _ _ this] Cons.prems(1,2) False show ?thesis by (simp add: s)
    next
      case True
      obtain a where a: "run_rate_limit (lc_fault c) (lc_repair c) (lc_now c) k w l r = (a, r')"
        "is_ok res = allowed a"
        using limit_step_run [OF s] True Cons.prems(2) by auto
      obtain n' where n': "counter r' k n' (Some d)" "n \<le> n'" "allowed a \<longrightarrow> n < n' \<and> n' \<le> unat l"
        using run_live [OF a(1) Cons.prems(3) now] by blast
      have "admitted_before d k cs r' \<le> unat l - n'"
        by (rule Cons.IH [OF _ _ n'(1)]) (use Cons.prems(1,2) in simp_all)
      then show ?thesis using n'(2,3) a(2) now True by (cases "is_ok res") (auto simp: s)
    qed
  qed
qed simp

text \<open>A key is idle at a time when no window is running there.\<close>

definition idle :: "redis \<Rightarrow> string \<Rightarrow> nat \<Rightarrow> bool" where
  "idle r k t \<longleftrightarrow> map_of r k = None \<or> (\<exists>v d. map_of r k = Some (v, Some d) \<and> d \<le> t) \<or>
     (\<exists>n. counter r k n None)"

lemma run_idle:
  assumes "run_rate_limit f f' now k w l r = (a, r')" "idle r k t" "t \<le> now" "0 < sint w"
  shows "idle r' k t \<and> \<not> allowed a \<or>
    (\<exists>n. counter r' k n (Some (now + window_ms w)) \<and> (allowed a \<longrightarrow> n \<le> unat l))"
proof (cases "r_get now r k")
  case None
  from run_dead [OF assms(1) None assms(4)] show ?thesis using assms(2) by auto
next
  case (Some v)
  then obtain n where "counter r k n None"
    using assms(2,3) by (auto simp: idle_def r_get_def split: option.splits if_splits)
  from run_persistent [OF assms(1) this assms(4)] show ?thesis by (auto simp: idle_def)
qed

lemma admitted_idle:
  assumes "sorted (map lc_now cs)" "same_budget k w l cs" "idle r k t" "0 < sint w"
    and "\<forall>c\<in>set cs. t \<le> lc_now c"
  shows "admitted_before (t + window_ms w) k cs r \<le> unat l"
  using assms
proof (induction cs arbitrary: r)
  case (Cons c cs)
  obtain res r' where s: "limit_step c r = (res, r')" by (cases "limit_step c r")
  have prems: "sorted (map lc_now cs)" "same_budget k w l cs" "\<forall>c\<in>set cs. t \<le> lc_now c" "t \<le> lc_now c"
    using Cons.prems(1,2,5) by simp_all
  show ?case
  proof (cases "lc_key c = k")
    case False
    then have "idle r' k t" using Cons.prems(3) limit_step_other [OF s False] by (simp add: idle_def)
    from Cons.IH [OF prems(1,2) this Cons.prems(4) prems(3)] False show ?thesis by (simp add: s)
  next
    case True
    obtain a where a: "run_rate_limit (lc_fault c) (lc_repair c) (lc_now c) k w l r = (a, r')"
      "is_ok res = allowed a"
      using limit_step_run [OF s] True Cons.prems(2) by auto
    from run_idle [OF a(1) Cons.prems(3) prems(4) Cons.prems(4)] show ?thesis
    proof (elim disjE exE conjE)
      assume i: "idle r' k t" and "\<not> allowed a"
      then have "\<not> is_ok res" using a(2) by blast
      then show ?thesis
        using Cons.IH [OF prems(1,2) i Cons.prems(4) prems(3)] by (simp add: s)
    next
      fix n
      let ?d = "lc_now c + window_ms w"
      assume n: "map_of r' k = Some (show_nat n, Some ?d)" "0 < n" "n < 2 ^ 63" "allowed a \<longrightarrow> n \<le> unat l"
      have "admitted_before (t + window_ms w) k cs r' \<le> admitted_before ?d k cs r'"
        using prems(4) by (intro sublist_count) simp
      also have "\<dots> \<le> unat l - n" by (rule admitted_live [OF prems(1,2)]) (use n in simp)
      finally show ?thesis using n(2,4) a(2) by (cases "is_ok res") (auto simp: s)
    qed
  qed
qed simp

definition counter_ok :: "redis \<Rightarrow> string \<Rightarrow> bool" where
  "counter_ok r k \<longleftrightarrow> map_of r k = None \<or> (\<exists>n d. counter r k n d)"

lemma counter_okI: "counter r k n d \<Longrightarrow> counter_ok r k"
  unfolding counter_ok_def by blast

lemma counter_ok_step:
  assumes "limit_step c r = (res, r')" "counter_ok r k" "lc_key c = k \<Longrightarrow> 0 < sint (lc_window c)"
  shows "counter_ok r' k"
proof (cases "lc_key c = k")
  case False
  then show ?thesis using limit_step_other [OF assms(1)] assms(2) by (simp add: counter_ok_def)
next
  case True
  obtain a where a: "run_rate_limit (lc_fault c) (lc_repair c) (lc_now c) k (lc_window c) (lc_limit c) r = (a, r')"
    using limit_step_run [OF assms(1)] True by blast
  note w = assms(3) [OF True]
  consider "map_of r k = None" | n where "counter r k n None" | n d where "counter r k n (Some d)"
    using assms(2) unfolding counter_ok_def by (metis not_None_eq)
  then show ?thesis
  proof cases
    case 1
    then have "r_get (lc_now c) r k = None" by (simp add: r_get_def)
    from run_dead [OF a this w] have "r' = r \<or> counter_ok r' k" using counter_okI by blast
      then show ?thesis using assms(2) by auto
  next
    case 2
    from run_persistent [OF a 2 w] show ?thesis unfolding counter_ok_def by blast
  next
    case 3
    show ?thesis
    proof (cases "lc_now c < d")
      case True
      from run_live [OF a 3 True] show ?thesis unfolding counter_ok_def by blast
    next
      case False
      then have "r_get (lc_now c) r k = None" using 3 by (simp add: r_get_def)
      from run_dead [OF a this w] have "r' = r \<or> counter_ok r' k" using counter_okI by blast
      then show ?thesis using assms(2) by auto
    qed
  qed
qed

definition limit_state :: "limit_call list \<Rightarrow> redis \<Rightarrow> redis" where
  "limit_state cs r = fold (\<lambda>c r. case limit_step c r of (_, r') \<Rightarrow> r') cs r"

lemma admitted_append: "admitted k (cs @ ds) r = admitted k cs r @ admitted k ds (limit_state cs r)"
  by (induction cs arbitrary: r) (auto simp: limit_state_def split: prod.splits)

lemma live_state:
  assumes "counter r k n (Some d)" "same_budget k w l cs" "\<forall>c\<in>set cs. lc_now c < d"
  shows "\<exists>n'. counter (limit_state cs r) k n' (Some d)"
  using assms
proof (induction cs arbitrary: r n)
  case (Cons c cs)
  obtain res r' where s: "limit_step c r = (res, r')" by (cases "limit_step c r")
  have "\<exists>n'. counter r' k n' (Some d)"
  proof (cases "lc_key c = k")
    case False
    then show ?thesis using limit_step_other [OF s False] Cons.prems(1) by auto
  next
    case True
    then obtain a where "run_rate_limit (lc_fault c) (lc_repair c) (lc_now c) k w l r = (a, r')"
      using limit_step_run [OF s] Cons.prems(2) by auto
    from run_live [OF this Cons.prems(1)] Cons.prems(3) show ?thesis by auto
  qed
  then show ?case using Cons.IH Cons.prems(2,3) by (auto simp: limit_state_def s)
qed (auto simp: limit_state_def)

lemma counter_ok_state:
  "counter_ok r k \<Longrightarrow> same_budget k w l cs \<Longrightarrow> 0 < sint w \<Longrightarrow> counter_ok (limit_state cs r) k"
proof (induction cs arbitrary: r)
  case (Cons c cs)
  obtain res r' where s: "limit_step c r = (res, r')" by (cases "limit_step c r")
  have "counter_ok r' k" by (rule counter_ok_step [OF s]) (use Cons.prems in auto)
  from Cons.IH [OF this] Cons.prems show ?case by (simp add: limit_state_def s)
qed (simp add: limit_state_def)

lemma split_at_time:
  assumes "sorted (map lc_now cs)"
  obtains xs ys where "cs = xs @ ys" "\<forall>c\<in>set xs. lc_now c < t" "\<forall>c\<in>set ys. t \<le> lc_now c"
  using assms
proof (induction cs arbitrary: thesis)
  case (Cons c cs)
  show ?case
  proof (cases "lc_now c < t")
    case True
    from Cons.prems(2) obtain xs ys where "cs = xs @ ys" "\<forall>c\<in>set xs. lc_now c < t" "\<forall>c\<in>set ys. t \<le> lc_now c"
      using Cons.IH by auto
    with True show ?thesis by (intro Cons.prems(1) [of "c # xs" ys]) simp_all
  next
    case False
    with Cons.prems(2) show ?thesis by (intro Cons.prems(1) [of "[]" "c # cs"]) auto
  qed
qed simp

lemma admitted_from:
  assumes cs: "sorted (map lc_now cs)" "same_budget k w l cs" "0 < sint w" "\<forall>c\<in>set cs. t \<le> lc_now c"
    and r: "counter_ok r k"
  shows "admitted_before (t + window_ms w) k cs r \<le> 2 * unat l"
proof (cases "idle r k t")
  case True
  from admitted_idle [OF cs(1,2) True cs(3,4)] show ?thesis by simp
next
  case False
  then obtain n d where n: "counter r k n (Some d)" "t < d"
    using r by (auto simp: idle_def counter_ok_def split: option.splits)
  obtain xs ys where xy: "cs = xs @ ys" "\<forall>c\<in>set xs. lc_now c < d" "\<forall>c\<in>set ys. d \<le> lc_now c"
    using split_at_time [OF cs(1)] by blast
  have prems: "sorted (map lc_now xs)" "sorted (map lc_now ys)" "same_budget k w l xs" "same_budget k w l ys"
    using cs(1,2) xy(1) by (simp_all add: sorted_append)
  have "admitted_before (t + window_ms w) k xs r \<le> length (admitted k xs r)" by simp
  also have "\<dots> = admitted_before d k xs r"
    using admitted_times [of _ k xs r] xy(2) by (subst filter_True) auto
  also have "\<dots> \<le> unat l - n" by (rule admitted_live [OF prems(1,3) n(1)])
  finally have 1: "admitted_before (t + window_ms w) k xs r \<le> unat l - n" .
  obtain n' where n': "counter (limit_state xs r) k n' (Some d)"
    using live_state [OF n(1) prems(3) xy(2)] by blast
  have "idle (limit_state xs r) k d" using n' by (simp add: idle_def)
  from admitted_idle [OF prems(2,4) this cs(3) xy(3)] sublist_count [of "t + window_ms w" "d + window_ms w" k ys]
  have 2: "admitted_before (t + window_ms w) k ys (limit_state xs r) \<le> unat l"
    using n(2) by (meson add_le_mono1 less_imp_le order_trans)
  show ?thesis using 1 2 by (simp add: xy(1) admitted_append)
qed

text \<open>
  C14. A limit holds over every interval as long as its window: whatever other keys do, whichever calls
  fail, and however an expired or damaged counter is found, no more than twice the limit of a
  principal's calls are admitted within one window length, as the documentation of the fixed-window
  algorithm says. Within one window, from the call that opens it to its expiry, it is the limit.
\<close>

theorem rate_limit_bound:
  assumes "sorted (map lc_now cs)" "same_budget k w l cs" "0 < sint w" "counter_ok r k"
  shows "length (filter (\<lambda>s. t \<le> s \<and> s < t + window_ms w) (admitted k cs r)) \<le> 2 * unat l \<and>
    (idle r k t \<and> (\<forall>c\<in>set cs. t \<le> lc_now c) \<longrightarrow>
       length (filter (\<lambda>s. s < t + window_ms w) (admitted k cs r)) \<le> unat l)"
proof
  obtain xs ys where xy: "cs = xs @ ys" "\<forall>c\<in>set xs. lc_now c < t" "\<forall>c\<in>set ys. t \<le> lc_now c"
    using split_at_time [OF assms(1)] by blast
  have "filter (\<lambda>s. t \<le> s \<and> s < t + window_ms w) (admitted k xs r) = []"
    using admitted_times [of _ k xs r] xy(2) by (fastforce simp: filter_empty_conv)
  then have "filter (\<lambda>s. t \<le> s \<and> s < t + window_ms w) (admitted k cs r) =
      filter (\<lambda>s. t \<le> s \<and> s < t + window_ms w) (admitted k ys (limit_state xs r))"
    by (simp add: xy(1) admitted_append)
  moreover have "length (filter (\<lambda>s. t \<le> s \<and> s < t + window_ms w) zs) \<le>
      length (filter (\<lambda>s. s < t + window_ms w) zs)" for zs
    by (induction zs) auto
  moreover have "admitted_before (t + window_ms w) k ys (limit_state xs r) \<le> 2 * unat l"
    using assms xy by (intro admitted_from counter_ok_state) (auto simp: sorted_append)
  ultimately show "length (filter (\<lambda>s. t \<le> s \<and> s < t + window_ms w) (admitted k cs r)) \<le> 2 * unat l"
    by (metis order_trans)
  show "idle r k t \<and> (\<forall>c\<in>set cs. t \<le> lc_now c) \<longrightarrow>
       length (filter (\<lambda>s. s < t + window_ms w) (admitted k cs r)) \<le> unat l"
    using admitted_idle [OF assms(1,2) _ assms(3)] by blast
qed

text \<open>Communities, keys and kinds of limit never share a counter, nor replay marks.\<close>

lemma colon_split: "CHR '':'' \<notin> set a \<Longrightarrow> CHR '':'' \<notin> set b \<Longrightarrow>
    a @ CHR '':'' # x = b @ CHR '':'' # y \<longleftrightarrow> a = b \<and> x = y"
  by (metis split_once_append option.inject prod.inject)

lemma rate_limit_key_inject:
  assumes "\<forall>c\<in>{tc_community t, tc_community t'}. CHR '':'' \<notin> set (community_uuid c)"
    and "CHR '':'' \<notin> set pk" "CHR '':'' \<notin> set pk'"
  shows "rate_limit_key t pk l = rate_limit_key t' pk' l' \<longleftrightarrow>
    tc_community t = tc_community t' \<and> pk = pk' \<and> l = l'"
proof -
  have s: "key_suffix l = key_suffix l' \<longleftrightarrow> l = l'"
    by (cases l; cases l') (simp_all add: key_suffix_def)
  have "rate_limit_key t pk l = rate_limit_key t' pk' l' \<longleftrightarrow>
      community_uuid (tc_community t) @ CHR '':'' # ''ratelimit'' @ CHR '':'' # pk @ CHR '':'' # key_suffix l =
      community_uuid (tc_community t') @ CHR '':'' # ''ratelimit'' @ CHR '':'' # pk' @ CHR '':'' # key_suffix l'"
    by (simp add: rate_limit_key_def)
  also have "\<dots> \<longleftrightarrow> tc_community t = tc_community t' \<and> pk = pk' \<and> l = l'"
    using assms by (simp add: colon_split s) (cases "tc_community t"; cases "tc_community t'"; simp)
  finally show ?thesis .
qed

lemma nip98_replay_key_inject:
  assumes "CHR '':'' \<notin> set s" "CHR '':'' \<notin> set s'"
  shows "nip98_replay_key_for_scope s e = nip98_replay_key_for_scope s' e' \<longleftrightarrow> s = s' \<and> e = e'"
  using colon_split [OF assms, of "''nip98:'' @ e" "''nip98:'' @ e'"]
  by (simp add: nip98_replay_key_for_scope_def)

lemma ws_budget:
  "ws_admission_budget l = (5, m) \<Longrightarrow> unat m = min (5 * unat l) (2 ^ 64 - 1)"
proof -
  assume "ws_admission_budget l = (5, m)"
  then have m: "m = (if unat l * 5 < 2 ^ 64 then l * 5 else - 1)"
    by (simp add: ws_admission_budget_def saturating_mul_def WS_BURST_WINDOW_SECS_def)
  have "unat (l * 5) = unat l * 5 mod 2 ^ 64" by (simp add: unat_word_ariths)
  moreover have "unat (- 1 :: u64) = 2 ^ 64 - 1" by code_simp
  ultimately show "unat m = min (5 * unat l) (2 ^ 64 - 1)"
    unfolding m by (cases "unat l * 5 < 2 ^ 64") (simp_all add: min_def)
qed

section \<open>Examples\<close>

text \<open>A library in which a signature is the text \<open>sig\<close> and an event travels as its id.\<close>

definition toy_event :: "nat \<Rightarrow> string \<Rightarrow> signed_event" where
  "toy_event at eid =
     \<lparr>ev_id = eid, ev_pubkey = ''alice'', ev_created_at = at, ev_kind = 27235,
      ev_tags = [\<lparr>tag_kind = ''u'', tag_content = Some ''https://a.example/api/invites'', tag_slice = []\<rparr>,
        \<lparr>tag_kind = ''method'', tag_content = Some ''post'', tag_slice = []\<rparr>,
        \<lparr>tag_kind = ''payload'', tag_content = Some ''h:body'', tag_slice = []\<rparr>],
      ev_content = [], ev_sig = ''sig''\<rparr>"

definition toy_auth :: "string auth_lib" where
  "toy_auth = \<lparr>hl_verify_id = (\<lambda>_. True), hl_event_id = ev_id,
     hl_verify_signature = (\<lambda>e. ev_sig e = ''sig''),
     hl_event_of_json = (\<lambda>j. Ok (toy_event 100 j)), hl_base64_decode = Some,
     hl_sha256_hex = (\<lambda>b. ''h:'' @ b), hl_pubkey_from_hex = Some, hl_to_lowercase = to_ascii_lowercase,
     hl_debug = concat, hl_url_parse = Some, hl_host_str = (\<lambda>_. None), hl_set_host = (\<lambda>u _. u),
     hl_path = (\<lambda>u. u), hl_set_path = (\<lambda>_ p. p), hl_url_string = (\<lambda>u. u)\<rparr>"

definition toy_request :: "nat \<Rightarrow> auth_request" where
  "toy_request now = \<lparr>rq_headers = map_of [(''authorization'', ''Nostr e1''), (''host'', ''A.example:443'')],
     rq_path = ''/api/invites'', rq_body = ''body'', rq_now = now, rq_redis_now = now, rq_fault = Reached\<rparr>"

definition toy_hosts :: "string \<Rightarrow> string + CommunityId option" where
  "toy_hosts h = Ok (if h = ''a.example'' then Some (CommunityId ''c1'') else None)"

abbreviation "toy_tenant \<equiv> \<lparr>tc_community = CommunityId ''c1'', tc_host = ''a.example''\<rparr>"

abbreviation "toy_marked now \<equiv> [(''buzz:c1:nip98:e1'', ''1'', Some (now + 120000))]"

lemma toy_first_use:
  "auth_step toy_auth toy_hosts ''wss://relay'' (toy_request 40500) [] =
     (Ok (toy_tenant, ''alice''), toy_marked 40500)"
  by code_simp

lemma authenticated_request_witness:
  "r_get 40500 [] (nip98_replay_key toy_tenant ''e1'') = None \<and>
    (\<exists>e. request_event toy_auth (toy_request 40500) = Some e \<and> ev_pubkey e = ''alice'' \<and> fresh_at 40500 e)"
  using authenticated_request [OF toy_first_use]
  by (auto simp: toy_request_def r_get_def)

text \<open>The same event is admitted at 40.5 and at 160.9 seconds: both uses are within a minute of 100.\<close>

lemma toy_second_use:
  "auth_step toy_auth toy_hosts ''wss://relay'' (toy_request 160900)
     (after_requests toy_auth toy_hosts ''wss://relay'' [] (toy_marked 40500)) =
     (Ok (toy_tenant, ''alice''), toy_marked 160900)"
  by code_simp

lemma toy_request_event: "request_event toy_auth (toy_request now) = Some (toy_event 100 ''e1'')"
  by (simp add: request_event_def toy_request_def toy_auth_def decode_nostr_auth_def strip_prefix_def
      starts_with_def byte_in_def)

lemma nip98_replay_only_at_edge_witness: "(40500 :: nat) + 120000 \<le> 160900"
proof -
  have first: "auth_step toy_auth toy_hosts ''wss://relay'' (toy_request 40500)
      (after_requests toy_auth toy_hosts ''wss://relay'' [] []) = (Ok (toy_tenant, ''alice''), toy_marked 40500)"
    using toy_first_use by (simp add: after_requests_def)
  have "ev_id (toy_event 100 ''e1'') \<noteq> zero_event_id" by code_simp
  from nip98_replay_only_at_edge [OF first toy_second_use toy_request_event toy_request_event refl this refl]
  show ?thesis by (simp add: toy_request_def)
qed

definition toy_call :: "nat \<Rightarrow> limit_call" where
  "toy_call now = \<lparr>lc_fault = Reached, lc_repair = Reached, lc_now = now, lc_tenant = toy_tenant,
     lc_pubkey = ''alice'', lc_type = WsEvents, lc_window = 5, lc_limit = 2\<rparr>"

text \<open>Three calls pass within 5 seconds at a limit of 2, two at the end of one window and one in the next.\<close>

lemma rate_limit_bound_witness:
  "admitted ''buzz:c1:ratelimit:alice:ws'' (map toy_call [1000, 5900, 5950, 6000, 6100, 6200]) [] =
     [1000, 5900, 6000, 6100] \<and>
   length (filter (\<lambda>s. 5000 \<le> s \<and> s < 5000 + window_ms 5) [1000, 5900, 6000, 6100]) \<le> 4"
proof
  have w: "sint (5 :: u64) = 5" by code_simp
  show a: "admitted ''buzz:c1:ratelimit:alice:ws'' (map toy_call [1000, 5900, 5950, 6000, 6100, 6200]) [] =
      [1000, 5900, 6000, 6100]"
    by code_simp
  have "unat (2 :: u64) = 2" by simp
  moreover have "same_budget ''buzz:c1:ratelimit:alice:ws'' 5 2 (map toy_call [1000, 5900, 5950, 6000, 6100, 6200])"
    by (simp add: toy_call_def)
  ultimately show "length (filter (\<lambda>s. 5000 \<le> s \<and> s < 5000 + window_ms 5) [1000, 5900, 6000, 6100]) \<le> 4"
    using rate_limit_bound [of "map toy_call [1000, 5900, 5950, 6000, 6100, 6200]"
        "''buzz:c1:ratelimit:alice:ws''" 5 2 "[]" 5000] a w
    by (simp add: toy_call_def counter_ok_def)
qed

end
