(* ===== verification/EventStore.thy ===== *)
theory EventStore
  imports FilterMatch Network
begin

text \<open>
  Stored events: the tables \<open>events\<close> and \<open>event_mentions\<close> and the operations of
  \<open>crates/buzz-db/src/event.rs\<close> and \<open>lib.rs\<close> that the read path of the relay rests on. A table is the
  list of its rows; a SQL statement is the list comprehension its text says. A row keeps the columns
  of its event as the event itself, with the second it was created as the signed number Postgres
  holds. The range of timestamps of the \<open>chrono\<close> crate is a parameter.
\<close>

section \<open>Tables\<close>

record event_row =
  er_community :: CommunityId
  er_event :: nostr_event
  er_created_at :: int
  er_channel_id :: "uuid option"
  er_d_tag :: "string option"
  er_received_at :: instant
  er_deleted :: bool
  er_not_before :: "int option"
  er_delivered_at :: "int option"

record mention_row =
  mr_community :: CommunityId
  mr_pubkey_hex :: string
  mr_event_id :: event_id

text \<open>A coordinate: the key of a parameterized replaceable event, with the kind as a signed number.\<close>

type_synonym coordinate = "CommunityId \<times> int \<times> pubkey \<times> string"

record event_db =
  db_events :: "event_row list"
  db_mentions :: "mention_row list"
  db_watermarks :: "(coordinate \<times> int \<times> event_id) list"

datatype DbError =
    Sqlx string
  | AuthEventRejected
  | EphemeralEventRejected u16
  | InvalidData string
  | InvalidTimestamp int

text \<open>The cast of an unsigned 64-bit number to a signed one.\<close>

definition as_i64 :: "nat \<Rightarrow> int" where
  "as_i64 n = sint (word_of_nat n :: u64)"

section \<open>Inserting\<close>

fun first_tag_value :: "string \<Rightarrow> nostr_tag list \<Rightarrow> string option" where
  "first_tag_value k [] = None"
| "first_tag_value k (t # ts) =
     (case tag_slice t of
        k' # v # _ \<Rightarrow> if k' = k then Some v else first_tag_value k ts
      | _ \<Rightarrow> first_tag_value k ts)"

definition extract_d_tag :: "nostr_event \<Rightarrow> string option" where
  "extract_d_tag ev =
     (if \<not> is_parameterized_replaceable (event_kind_u32 ev) then None
      else Some (case first_tag_value ''d'' (ev_tags ev) of Some v \<Rightarrow> v | None \<Rightarrow> []))"

text \<open>\<open>i64::from_str\<close>: an optional sign and digits, in range.\<close>

definition parse_i64 :: "string \<Rightarrow> int option" where
  "parse_i64 s =
     (case s of
        c # ds \<Rightarrow>
          if c = CHR ''-''
          then (case parse_uint 64 (if ds \<noteq> [] \<and> hd ds = CHR ''+'' then [] else ds) of
                  Some n \<Rightarrow> if n \<le> 2 ^ 63 then Some (- int n) else None
                | None \<Rightarrow> None)
          else (case parse_uint 63 s of Some n \<Rightarrow> Some (int n) | None \<Rightarrow> None)
      | [] \<Rightarrow> None)"

fun find_not_before :: "nostr_tag list \<Rightarrow> int option" where
  "find_not_before [] = None"
| "find_not_before (t # ts) =
     (case tag_slice t of
        k # v # _ \<Rightarrow>
          (if k = ''not_before''
           then (case parse_i64 v of Some n \<Rightarrow> Some n | None \<Rightarrow> find_not_before ts)
           else find_not_before ts)
      | _ \<Rightarrow> find_not_before ts)"

definition extract_not_before :: "nostr_event \<Rightarrow> int option" where
  "extract_not_before ev =
     (if event_kind_u32 ev \<noteq> KIND_EVENT_REMINDER then None else find_not_before (ev_tags ev))"

text \<open>
  \<open>INSERT .. ON CONFLICT DO NOTHING\<close>: the primary key is the community, the time and the id; the first
  component says whether the row was inserted.
\<close>

definition insert_row :: "event_row \<Rightarrow> event_db \<Rightarrow> bool \<times> event_db" where
  "insert_row row db =
     (if list_ex (\<lambda>r. er_community r = er_community row \<and> er_created_at r = er_created_at row \<and>
           ev_id (er_event r) = ev_id (er_event row)) (db_events db)
      then (False, db) else (True, db\<lparr>db_events := db_events db @ [row]\<rparr>))"

definition new_row ::
  "instant \<Rightarrow> CommunityId \<Rightarrow> nostr_event \<Rightarrow> uuid option \<Rightarrow> string option \<Rightarrow> int option \<Rightarrow> event_row" where
  "new_row now c ev channel d_tag not_before =
     \<lparr>er_community = c, er_event = ev, er_created_at = as_i64 (ev_created_at ev), er_channel_id = channel,
      er_d_tag = d_tag, er_received_at = now, er_deleted = False, er_not_before = not_before,
      er_delivered_at = None\<rparr>"

definition insert_event ::
  "(int \<Rightarrow> bool) \<Rightarrow> instant \<Rightarrow> CommunityId \<Rightarrow> nostr_event \<Rightarrow> uuid option \<Rightarrow> event_db
     \<Rightarrow> (DbError + stored_event \<times> bool) \<times> event_db" where
  "insert_event timestamp_ok now c ev channel db =
     (if event_kind_u32 ev = KIND_AUTH then (Err AuthEventRejected, db)
      else if is_ephemeral (event_kind_u32 ev) then (Err (EphemeralEventRejected (ev_kind ev)), db)
      else
        let secs = as_i64 (ev_created_at ev) in
        if \<not> timestamp_ok secs then (Err (InvalidTimestamp secs), db)
        else
          let (inserted, db') = insert_row (new_row now c ev channel (extract_d_tag ev) (extract_not_before ev)) db
          in (Ok (with_received_at ev now channel True, inserted), db'))"

definition valid_mention :: "string \<Rightarrow> bool" where
  "valid_mention pk \<longleftrightarrow> length pk = 64 \<and> list_all is_ascii_hexdigit pk"

definition p_tag_values :: "nostr_event \<Rightarrow> string list" where
  "p_tag_values ev =
     List.map_filter (\<lambda>t. case tag_slice t of k # v # _ \<Rightarrow> if k = ''p'' then Some v else None | _ \<Rightarrow> None)
       (ev_tags ev)"

text \<open>Each mention once: \<open>ON CONFLICT DO NOTHING\<close> on the primary key.\<close>

definition add_mention :: "CommunityId \<Rightarrow> event_id \<Rightarrow> string \<Rightarrow> mention_row list \<Rightarrow> mention_row list" where
  "add_mention c eid pk ms =
     (let m = \<lparr>mr_community = c, mr_pubkey_hex = pk, mr_event_id = eid\<rparr>
      in if m \<in> set ms then ms else ms @ [m])"

definition insert_mentions ::
  "(int \<Rightarrow> bool) \<Rightarrow> CommunityId \<Rightarrow> nostr_event \<Rightarrow> event_db \<Rightarrow> (DbError + unit) \<times> event_db" where
  "insert_mentions timestamp_ok c ev db =
     (let p_tags = p_tag_values ev
      in if p_tags = [] then (Ok (), db)
         else
           let secs = as_i64 (ev_created_at ev) in
           if \<not> timestamp_ok secs then (Err (InvalidTimestamp secs), db)
           else
             let valid_pubkeys = map to_ascii_lowercase (filter valid_mention p_tags)
             in (Ok (), db\<lparr>db_mentions :=
                   fold (\<lambda>pk ms. add_mention c (ev_id ev) pk ms) valid_pubkeys (db_mentions db)\<rparr>))"

text \<open>
  \<open>Db::insert_event\<close>: the mentions are written for a new row, and a failure there is only logged; the
  argument says whether the statement reached the database.
\<close>

definition db_insert_event ::
  "(int \<Rightarrow> bool) \<Rightarrow> bool \<Rightarrow> instant \<Rightarrow> CommunityId \<Rightarrow> nostr_event \<Rightarrow> uuid option \<Rightarrow> event_db
     \<Rightarrow> (DbError + stored_event \<times> bool) \<times> event_db" where
  "db_insert_event timestamp_ok mentions_reached now c ev channel db =
     (case insert_event timestamp_ok now c ev channel db of
        (Inl e, db') \<Rightarrow> (Err e, db')
      | (Inr (stored, inserted), db') \<Rightarrow>
          (Ok (stored, inserted),
           if inserted \<and> mentions_reached
           then (case insert_mentions timestamp_ok c ev db' of (_, db'') \<Rightarrow> db'') else db'))"

text \<open>Setting the deletion time of the rows of a condition; the first component says whether any row changed.\<close>

definition retire :: "(event_row \<Rightarrow> bool) \<Rightarrow> event_db \<Rightarrow> bool \<times> event_db" where
  "retire hit db =
     (list_ex hit (db_events db),
      db\<lparr>db_events := map (\<lambda>r. if hit r then r\<lparr>er_deleted := True\<rparr> else r) (db_events db)\<rparr>)"

definition soft_delete_event :: "CommunityId \<Rightarrow> event_id \<Rightarrow> event_db \<Rightarrow> bool \<times> event_db" where
  "soft_delete_event c eid db =
     retire (\<lambda>r. er_community r = c \<and> ev_id (er_event r) = eid \<and> \<not> er_deleted r) db"

definition soft_delete_by_coordinate :: "coordinate \<Rightarrow> event_db \<Rightarrow> bool \<times> event_db" where
  "soft_delete_by_coordinate k db =
     retire (\<lambda>r. (er_community r, event_kind_i32 (er_event r), ev_pubkey (er_event r)) =
         (fst k, fst (snd k), fst (snd (snd k))) \<and> er_d_tag r = Some (snd (snd (snd k))) \<and> \<not> er_deleted r) db"

section \<open>Queries\<close>

record EventQuery =
  eq_community_id :: CommunityId
  eq_channel_id :: "uuid option"
  eq_kinds :: "int list option"
  eq_pubkey :: "pubkey option"
  eq_since :: "int option"
  eq_until :: "int option"
  eq_limit :: "int option"
  eq_offset :: "int option"
  eq_p_tag_hex :: "string option"
  eq_d_tag :: "string option"
  eq_d_tags :: "string list option"
  eq_before_id :: "event_id option"
  eq_global_only :: bool
  eq_authors :: "pubkey list option"
  eq_ids :: "event_id list option"
  eq_e_tags :: "string list option"
  eq_channel_ids :: "uuid list option"
  eq_max_limit :: "int option"
  eq_shared_gated_reader :: "pubkey option"

definition for_community :: "CommunityId \<Rightarrow> EventQuery" where
  "for_community c =
     \<lparr>eq_community_id = c, eq_channel_id = None, eq_kinds = None, eq_pubkey = None, eq_since = None,
      eq_until = None, eq_limit = None, eq_offset = None, eq_p_tag_hex = None, eq_d_tag = None,
      eq_d_tags = None, eq_before_id = None, eq_global_only = False, eq_authors = None,
      eq_ids = None, eq_e_tags = None, eq_channel_ids = None, eq_max_limit = None,
      eq_shared_gated_reader = None\<rparr>"

definition DEFAULT_MAX_PAGE_LIMIT :: int where "DEFAULT_MAX_PAGE_LIMIT = 1000"

text \<open>A list in a query that is present and empty matches nothing.\<close>

definition empty_list :: "'a list option \<Rightarrow> bool" where
  "empty_list x \<longleftrightarrow> (case x of Some l \<Rightarrow> l = [] | None \<Rightarrow> False)"

definition matches_nothing :: "EventQuery \<Rightarrow> bool" where
  "matches_nothing q \<longleftrightarrow>
     empty_list (eq_kinds q) \<or> empty_list (eq_authors q) \<or> empty_list (eq_ids q) \<or> empty_list (eq_e_tags q)"

definition opt_is :: "'a option \<Rightarrow> ('a \<Rightarrow> bool) \<Rightarrow> bool" where
  "opt_is x p \<longleftrightarrow> (case x of Some a \<Rightarrow> p a | None \<Rightarrow> True)"

text \<open>\<open>tags @> [[a, b]]\<close>: containment of arrays ignores position.\<close>

definition tags_contain :: "nostr_event \<Rightarrow> string \<Rightarrow> string \<Rightarrow> bool" where
  "tags_contain ev a b \<longleftrightarrow> list_ex (\<lambda>t. a \<in> set (tag_slice t) \<and> b \<in> set (tag_slice t)) (ev_tags ev)"

text \<open>The conditions the two statements share.\<close>

definition channel_clause :: "EventQuery \<Rightarrow> event_row \<Rightarrow> bool" where
  "channel_clause q r \<longleftrightarrow>
     (case eq_channel_id q of
        Some ch \<Rightarrow> er_channel_id r = Some ch
      | None \<Rightarrow> if eq_global_only q then er_channel_id r = None else True) \<and>
     opt_is (eq_channel_ids q) (\<lambda>chs.
       case er_channel_id r of None \<Rightarrow> True | Some ch \<Rightarrow> ch \<in> set chs)"

definition d_tag_clause :: "EventQuery \<Rightarrow> event_row \<Rightarrow> bool" where
  "d_tag_clause q r \<longleftrightarrow>
     (case eq_d_tag q of
        Some d \<Rightarrow> er_d_tag r = Some d
      | None \<Rightarrow> opt_is (eq_d_tags q) (\<lambda>ds. ds \<noteq> [] \<longrightarrow> (\<exists>d\<in>set ds. er_d_tag r = Some d)))"

definition base_clauses :: "EventQuery \<Rightarrow> event_row \<Rightarrow> bool" where
  "base_clauses q r \<longleftrightarrow>
     er_community r = eq_community_id q \<and> \<not> er_deleted r \<and> channel_clause q r \<and>
     opt_is (eq_kinds q) (\<lambda>ks. ks \<noteq> [] \<longrightarrow> event_kind_i32 (er_event r) \<in> set ks) \<and>
     opt_is (eq_pubkey q) (\<lambda>pk. ev_pubkey (er_event r) = pk) \<and>
     opt_is (eq_authors q) (\<lambda>as. as \<noteq> [] \<longrightarrow> ev_pubkey (er_event r) \<in> set as) \<and>
     opt_is (eq_ids q) (\<lambda>ids. ids \<noteq> [] \<longrightarrow> ev_id (er_event r) \<in> set ids) \<and>
     opt_is (eq_e_tags q) (\<lambda>es. es \<noteq> [] \<longrightarrow> (\<exists>e\<in>set es. tags_contain (er_event r) ''e'' e)) \<and>
     opt_is (eq_since q) (\<lambda>s. s \<le> er_created_at r) \<and> d_tag_clause q r"

definition until_clause :: "EventQuery \<Rightarrow> event_row \<Rightarrow> bool" where
  "until_clause q r \<longleftrightarrow> opt_is (eq_until q) (\<lambda>u.
     case eq_before_id q of
       Some bid \<Rightarrow> er_created_at r < u \<or> er_created_at r = u \<and> bid < ev_id (er_event r)
     | None \<Rightarrow> er_created_at r \<le> u)"

definition shared_clause :: "EventQuery \<Rightarrow> event_row \<Rightarrow> bool" where
  "shared_clause q r \<longleftrightarrow> opt_is (eq_shared_gated_reader q) (\<lambda>reader.
     event_kind_i32 (er_event r) \<notin> (\<lambda>k. sint k) ` set SHARED_GATED_KINDS \<or>
     ev_pubkey (er_event r) = reader \<or> tags_contain (er_event r) ''shared'' ''true'')"

text \<open>The join with the mentions gives a row once for each mention of the key.\<close>

definition joined :: "EventQuery \<Rightarrow> mention_row list \<Rightarrow> event_row \<Rightarrow> event_row list" where
  "joined q ms r =
     (case eq_p_tag_hex q of
        None \<Rightarrow> [r]
      | Some p \<Rightarrow> map (\<lambda>_. r) (filter (\<lambda>m. mr_community m = eq_community_id q \<and>
          mr_event_id m = ev_id (er_event r) \<and> mr_pubkey_hex m = to_ascii_lowercase p) ms))"

definition newest_first :: "event_row list \<Rightarrow> event_row list" where
  "newest_first rows = sort_key (\<lambda>r. - er_created_at r) (sort_key (\<lambda>r. ev_id (er_event r)) rows)"

text \<open>A row whose time is negative is no Nostr event and is skipped.\<close>

definition row_to_stored_event :: "event_row \<Rightarrow> stored_event option" where
  "row_to_stored_event r =
     (if er_created_at r < 0 then None
      else Some (with_received_at ((er_event r)\<lparr>ev_created_at := nat (er_created_at r)\<rparr>)
                   (er_received_at r) (er_channel_id r) True))"

definition query_rows :: "EventQuery \<Rightarrow> event_db \<Rightarrow> event_row list" where
  "query_rows q db =
     newest_first (concat (map (joined q (db_mentions db))
       (filter (\<lambda>r. base_clauses q r \<and> until_clause q r \<and> shared_clause q r) (db_events db))))"

definition query_events :: "event_db \<Rightarrow> EventQuery \<Rightarrow> DbError + stored_event list" where
  "query_events db q =
     (if eq_before_id q \<noteq> None \<and> eq_until q = None
      then Err (InvalidData ''before_id requires until to be set'')
      else if eq_global_only q \<and> eq_channel_id q \<noteq> None
      then Err (InvalidData ''global_only and channel_id are mutually exclusive'')
      else if matches_nothing q then Ok []
      else
        let clamp = (case eq_max_limit q of Some m \<Rightarrow> m | None \<Rightarrow> DEFAULT_MAX_PAGE_LIMIT);
            limit_val = min (case eq_limit q of Some l \<Rightarrow> l | None \<Rightarrow> 100) clamp;
            offset_val = (case eq_offset q of Some n \<Rightarrow> n | None \<Rightarrow> 0)
        in if limit_val < 0 \<or> offset_val < 0 then Err (InvalidData ''LIMIT must not be negative'')
           else Ok (List.map_filter row_to_stored_event
                  (take (nat limit_val) (drop (nat offset_val) (query_rows q db)))))"

definition count_events :: "event_db \<Rightarrow> EventQuery \<Rightarrow> DbError + nat" where
  "count_events db q =
     (if matches_nothing q then Ok 0
      else Ok (length (concat (map (joined q (db_mentions db))
             (filter (\<lambda>r. base_clauses q r \<and> opt_is (eq_until q) (\<lambda>u. er_created_at r \<le> u))
               (db_events db))))))"

definition get_events_by_ids :: "event_db \<Rightarrow> CommunityId \<Rightarrow> event_id list \<Rightarrow> stored_event list" where
  "get_events_by_ids db c ids =
     (if ids = [] then []
      else List.map_filter row_to_stored_event
             (filter (\<lambda>r. er_community r = c \<and> \<not> er_deleted r \<and> ev_id (er_event r) \<in> set ids) (db_events db)))"

text \<open>The first row in an order, as a stored event: \<open>LIMIT 1\<close>.\<close>

definition first_stored :: "event_row list \<Rightarrow> stored_event option" where
  "first_stored rows = (case rows of [] \<Rightarrow> None | r # _ \<Rightarrow> row_to_stored_event r)"

definition get_event_by_id :: "event_db \<Rightarrow> CommunityId \<Rightarrow> event_id \<Rightarrow> stored_event option" where
  "get_event_by_id db c eid =
     first_stored (sort_key (\<lambda>r. - er_created_at r)
       (filter (\<lambda>r. er_community r = c \<and> ev_id (er_event r) = eid \<and> \<not> er_deleted r) (db_events db)))"

definition get_event_by_id_including_deleted :: "event_db \<Rightarrow> CommunityId \<Rightarrow> event_id \<Rightarrow> stored_event option" where
  "get_event_by_id_including_deleted db c eid =
     first_stored (sort_key (\<lambda>r. - er_created_at r)
       (filter (\<lambda>r. er_community r = c \<and> ev_id (er_event r) = eid) (db_events db)))"

definition get_latest_global_replaceable :: "event_db \<Rightarrow> CommunityId \<Rightarrow> int \<Rightarrow> pubkey \<Rightarrow> stored_event option" where
  "get_latest_global_replaceable db c kind pk =
     first_stored (newest_first (filter (\<lambda>r. er_community r = c \<and> event_kind_i32 (er_event r) = kind \<and>
       ev_pubkey (er_event r) = pk \<and> er_channel_id r = None \<and> \<not> er_deleted r) (db_events db)))"

definition get_last_message_at :: "event_db \<Rightarrow> CommunityId \<Rightarrow> uuid \<Rightarrow> int option" where
  "get_last_message_at db c ch =
     (case sort_key (\<lambda>t. - t) (map er_created_at (filter (\<lambda>r. er_community r = c \<and> er_channel_id r = Some ch \<and>
         \<not> er_deleted r) (db_events db))) of
        [] \<Rightarrow> None
      | t # _ \<Rightarrow> Some t)"

end
