(* ===== verification/Reads.thy ===== *)
theory Reads
  imports EventStore Subscription Auth
begin

text \<open>
  The read path of the relay, \<open>crates/buzz-relay/src/handlers/req.rs\<close> and \<open>count.rs\<close>: the gates a
  filter must pass, the translation of a filter into a query, historical delivery, search and counts.
  The database is a state of \<open>EventStore\<close>; the access cache, the membership lookup and the full-text
  search are parameters, and so is the parser of UUIDs. \<open>accepts n\<close> says whether the connection takes
  the \<open>n\<close>-th event it is sent, \<open>en_up n\<close> whether the query of the \<open>n\<close>-th filter reaches the database.
\<close>

section \<open>Filters\<close>

record read_filter = nostr_filter +
  rf_limit :: "nat option"
  rf_search :: "string option"

definition base_filter :: "read_filter \<Rightarrow> nostr_filter" where
  "base_filter f = nostr_filter.truncate f"

definition get_tag :: "read_filter \<Rightarrow> string \<Rightarrow> string list option" where
  "get_tag f key = map_of (f_generic_tags f) key"

definition k32 :: "u16 \<Rightarrow> u32" where "k32 k = ucast k"

text \<open>\<open>is_none_or\<close> and \<open>is_some_and\<close> of an option.\<close>

definition is_none_or :: "'a option \<Rightarrow> ('a \<Rightarrow> bool) \<Rightarrow> bool" where
  "is_none_or x p \<longleftrightarrow> (case x of None \<Rightarrow> True | Some a \<Rightarrow> p a)"

definition is_some_and :: "'a option \<Rightarrow> ('a \<Rightarrow> bool) \<Rightarrow> bool" where
  "is_some_and x p \<longleftrightarrow> (case x of None \<Rightarrow> False | Some a \<Rightarrow> p a)"

section \<open>Gates on filters\<close>

definition p_is_self :: "read_filter \<Rightarrow> pubkey \<Rightarrow> bool" where
  "p_is_self f authed \<longleftrightarrow>
     is_some_and (get_tag f ''p'') (\<lambda>vals. vals \<noteq> [] \<and> list_all (\<lambda>v. v = authed) vals)"

definition authors_are_self :: "read_filter \<Rightarrow> pubkey \<Rightarrow> bool" where
  "authors_are_self f authed \<longleftrightarrow>
     is_some_and (f_authors f) (\<lambda>as. as \<noteq> [] \<and> list_all (\<lambda>a. eq_ignore_ascii_case a authed) as)"

definition names_ids :: "read_filter \<Rightarrow> bool" where
  "names_ids f \<longleftrightarrow> is_some_and (f_ids f) (\<lambda>ids. ids \<noteq> [])"

definition p_gated_filter_authorized :: "pubkey \<Rightarrow> read_filter \<Rightarrow> bool" where
  "p_gated_filter_authorized authed f \<longleftrightarrow>
     (if \<not> is_none_or (f_kinds f) (\<lambda>ks. list_ex (\<lambda>k. k32 k \<in> set P_GATED_KINDS) ks) then True
      else
        let explicitly_no_ids_exemption = is_some_and (f_kinds f) (\<lambda>ks.
              list_ex (\<lambda>k. k32 k = KIND_DM_VISIBILITY \<or> k32 k = KIND_AGENT_TURN_METRIC) ks)
        in if \<not> explicitly_no_ids_exemption \<and> names_ids f then True else p_is_self f authed)"

definition p_gated_filters_authorized :: "read_filter list \<Rightarrow> pubkey \<Rightarrow> bool" where
  "p_gated_filters_authorized filters authed \<longleftrightarrow> list_all (p_gated_filter_authorized authed) filters"

definition engram_filter_authorized :: "pubkey \<Rightarrow> read_filter \<Rightarrow> bool" where
  "engram_filter_authorized authed f \<longleftrightarrow>
     (if names_ids f then True
      else if \<not> is_none_or (f_kinds f) (\<lambda>ks. list_ex (\<lambda>k. k32 k = KIND_AGENT_ENGRAM) ks) then True
      else if authors_are_self f authed then True
      else p_is_self f authed)"

definition engram_filters_authorized :: "read_filter list \<Rightarrow> pubkey \<Rightarrow> bool" where
  "engram_filters_authorized filters authed \<longleftrightarrow> list_all (engram_filter_authorized authed) filters"

definition author_only_filter_authorized :: "pubkey \<Rightarrow> read_filter \<Rightarrow> bool" where
  "author_only_filter_authorized authed f \<longleftrightarrow>
     (if \<not> is_some_and (f_kinds f) (\<lambda>ks. ks \<noteq> [] \<and> list_all (\<lambda>k. k32 k \<in> set AUTHOR_ONLY_KINDS) ks)
      then True else authors_are_self f authed)"

definition author_only_filters_authorized :: "read_filter list \<Rightarrow> pubkey \<Rightarrow> bool" where
  "author_only_filters_authorized filters authed \<longleftrightarrow> list_all (author_only_filter_authorized authed) filters"

definition filter_can_match :: "u32 list \<Rightarrow> read_filter \<Rightarrow> bool" where
  "filter_can_match gated f \<longleftrightarrow> is_none_or (f_kinds f) (\<lambda>ks. list_ex (\<lambda>k. k32 k \<in> set gated) ks)"

definition filter_can_match_author_only_kinds :: "read_filter \<Rightarrow> bool" where
  "filter_can_match_author_only_kinds = filter_can_match AUTHOR_ONLY_KINDS"

definition filter_can_match_shared_gated_kinds :: "read_filter \<Rightarrow> bool" where
  "filter_can_match_shared_gated_kinds = filter_can_match SHARED_GATED_KINDS"

definition filter_can_match_result_gated_kinds :: "read_filter \<Rightarrow> bool" where
  "filter_can_match_result_gated_kinds = filter_can_match RESULT_GATED_KINDS"

definition result_gated_count_safe_for_pushdown :: "read_filter \<Rightarrow> pubkey \<Rightarrow> bool" where
  "result_gated_count_safe_for_pushdown f authed \<longleftrightarrow> p_is_self f authed"

section \<open>Gates on events\<close>

definition is_author_only_event :: "nostr_event \<Rightarrow> pubkey \<Rightarrow> bool" where
  "is_author_only_event ev requester \<longleftrightarrow>
     event_kind_u32 ev \<in> set AUTHOR_ONLY_KINDS \<and> ev_pubkey ev \<noteq> requester"

definition event_visible_to_reader :: "nostr_event \<Rightarrow> pubkey \<Rightarrow> bool" where
  "event_visible_to_reader ev requester \<longleftrightarrow>
     (if is_author_only_event ev requester then False
      else if is_unshared_gated_event ev requester then False
      else if \<not> reader_authorized_for_event ev requester then False
      else True)"

section \<open>From filters to queries\<close>

definition h_values :: "read_filter \<Rightarrow> string list" where
  "h_values f = concat (map (\<lambda>kv. if fst kv = ''h'' then snd kv else []) (f_generic_tags f))"

fun find_map :: "('a \<Rightarrow> 'b option) \<Rightarrow> 'a list \<Rightarrow> 'b option" where
  "find_map g [] = None"
| "find_map g (x # xs) = (case g x of Some y \<Rightarrow> Some y | None \<Rightarrow> find_map g xs)"

definition extract_channel_id_from_filter :: "(string \<Rightarrow> uuid option) \<Rightarrow> read_filter \<Rightarrow> uuid option" where
  "extract_channel_id_from_filter parse f = find_map parse (h_values f)"

text \<open>The channel of a single \<open>#h\<close> value, \<open>extract_channel_from_filter\<close> of the bridge.\<close>

definition extract_channel_from_filter :: "(string \<Rightarrow> uuid option) \<Rightarrow> read_filter \<Rightarrow> uuid option" where
  "extract_channel_from_filter parse f =
     (case get_tag f ''h'' of Some [v] \<Rightarrow> parse v | _ \<Rightarrow> None)"

text \<open>One filter of \<open>extract_channel_id_from_filters\<close>: \<open>None\<close> is the early return.\<close>

fun scan_channels :: "(string \<Rightarrow> uuid option) \<Rightarrow> uuid option \<Rightarrow> bool \<Rightarrow> string list \<Rightarrow> (uuid option \<times> bool) option" where
  "scan_channels parse found has [] = Some (found, has)"
| "scan_channels parse found has (v # vs) =
     (case parse v of
        None \<Rightarrow> scan_channels parse found has vs
      | Some ch \<Rightarrow>
          (case found of
             Some existing \<Rightarrow>
               if existing \<noteq> ch then None else scan_channels parse (Some ch) True vs
           | None \<Rightarrow> scan_channels parse (Some ch) True vs))"

fun scan_filters :: "(string \<Rightarrow> uuid option) \<Rightarrow> uuid option \<Rightarrow> read_filter list \<Rightarrow> uuid option" where
  "scan_filters parse found [] = found"
| "scan_filters parse found (f # fs) =
     (case scan_channels parse found False (h_values f) of
        Some (found', True) \<Rightarrow> scan_filters parse found' fs
      | _ \<Rightarrow> None)"

definition extract_channel_id_from_filters :: "(string \<Rightarrow> uuid option) \<Rightarrow> read_filter list \<Rightarrow> uuid option" where
  "extract_channel_id_from_filters parse filters = scan_filters parse None filters"

definition filters_are_nip43_membership_only :: "read_filter list \<Rightarrow> bool" where
  "filters_are_nip43_membership_only filters \<longleftrightarrow>
     filters \<noteq> [] \<and> list_all (\<lambda>f. is_some_and (f_kinds f) (\<lambda>ks.
       ks \<noteq> [] \<and> list_all (\<lambda>k. k32 k = KIND_NIP43_MEMBERSHIP_LIST) ks)) filters"

definition nip33_only :: "read_filter \<Rightarrow> bool" where
  "nip33_only f \<longleftrightarrow> is_some_and (f_kinds f) (\<lambda>ks.
     ks \<noteq> [] \<and> list_all (\<lambda>k. is_parameterized_replaceable (k32 k)) ks)"

text \<open>The pushability of one generic tag of a filter.\<close>

definition tag_pushable :: "bool \<Rightarrow> string \<times> string list \<Rightarrow> bool" where
  "tag_pushable is_nip33_only kv \<longleftrightarrow>
     (let key = fst kv; vals = snd kv
      in if key = ''h'' then length vals \<le> 1
         else if key = ''p'' then length vals \<le> 1
         else if key = ''d'' then vals = [] \<or> is_nip33_only
         else if key = ''e'' then True
         else vals = [])"

definition filter_fully_pushable :: "read_filter \<Rightarrow> bool" where
  "filter_fully_pushable f \<longleftrightarrow>
     list_all (tag_pushable (nip33_only f)) (f_generic_tags f) \<and> rf_search f = None"

definition non_empty :: "'a list option \<Rightarrow> 'a list option" where
  "non_empty x = (case x of Some (a # as) \<Rightarrow> Some (a # as) | _ \<Rightarrow> None)"

definition in_range :: "(int \<Rightarrow> bool) \<Rightarrow> nat option \<Rightarrow> int option" where
  "in_range timestamp_ok t =
     (case t of
        Some s \<Rightarrow> if timestamp_ok (as_i64 s) then Some (as_i64 s) else None
      | None \<Rightarrow> None)"

definition filter_to_query_params ::
  "(int \<Rightarrow> bool) \<Rightarrow> read_filter \<Rightarrow> uuid option \<Rightarrow> CommunityId \<Rightarrow> EventQuery" where
  "filter_to_query_params timestamp_ok f channel_id c =
     (let (pubkey, authors) = (case f_authors f of
            Some [a] \<Rightarrow> (Some a, None)
          | Some (a # b # as) \<Rightarrow> (None, Some (a # b # as))
          | _ \<Rightarrow> (None, None));
          (d_tag, d_tags) = (if nip33_only f then
            (case get_tag f ''d'' of
               Some [d] \<Rightarrow> (Some d, None)
             | Some (d # d' # ds) \<Rightarrow> (None, Some (d # d' # ds))
             | _ \<Rightarrow> (None, None)) else (None, None))
      in (for_community c)\<lparr>
           eq_channel_id := channel_id,
           eq_kinds := map_option (map (\<lambda>k. uint k)) (f_kinds f),
           eq_pubkey := pubkey,
           eq_since := in_range timestamp_ok (f_since f),
           eq_until := in_range timestamp_ok (f_until f),
           eq_limit := Some (case rf_limit f of
             Some l \<Rightarrow> min (as_i64 l) DEFAULT_MAX_PAGE_LIMIT
           | None \<Rightarrow> DEFAULT_MAX_PAGE_LIMIT),
           eq_p_tag_hex := (case get_tag f ''p'' of Some [v] \<Rightarrow> Some v | _ \<Rightarrow> None),
           eq_d_tag := d_tag,
           eq_d_tags := d_tags,
           eq_authors := authors,
           eq_ids := non_empty (f_ids f),
           eq_e_tags := non_empty (get_tag f ''e'')\<rparr>)"

definition apply_access_scope_to_query :: "EventQuery \<Rightarrow> uuid option \<Rightarrow> uuid list \<Rightarrow> EventQuery" where
  "apply_access_scope_to_query q channel_id accessible =
     (if channel_id = None then q\<lparr>eq_channel_ids := Some accessible\<rparr> else q)"

definition build_event_query_from_filter ::
  "(string \<Rightarrow> uuid option) \<Rightarrow> (int \<Rightarrow> bool) \<Rightarrow> read_filter \<Rightarrow> CommunityId \<Rightarrow> EventQuery" where
  "build_event_query_from_filter parse timestamp_ok f c =
     filter_to_query_params timestamp_ok f (extract_channel_id_from_filter parse f) c"

definition COUNT_FALLBACK_CANDIDATE_LIMIT :: int where "COUNT_FALLBACK_CANDIDATE_LIMIT = 5000"

definition apply_count_fallback_limit :: "EventQuery \<Rightarrow> EventQuery" where
  "apply_count_fallback_limit q =
     (let fetch_limit = COUNT_FALLBACK_CANDIDATE_LIMIT + 1
      in q\<lparr>eq_limit := Some fetch_limit, eq_max_limit := Some fetch_limit\<rparr>)"

definition count_fallback_exceeded :: "nat \<Rightarrow> bool" where
  "count_fallback_exceeded n \<longleftrightarrow> int n > COUNT_FALLBACK_CANDIDATE_LIMIT"

section \<open>Access\<close>

definition resolve_request_local_access ::
  "uuid list \<Rightarrow> uuid \<Rightarrow> bool \<Rightarrow> bool option \<Rightarrow> bool \<times> uuid list" where
  "resolve_request_local_access accessible ch token_allows db_is_member =
     (if \<not> token_allows then (False, accessible)
      else if ch \<in> set accessible then (True, accessible)
      else if db_is_member = Some True then (True, accessible @ [ch])
      else (False, accessible))"

datatype AuthState = Pending string | Authenticated AuthContext | Failed

record conn_state =
  cn_conn_id :: ConnId
  cn_tenant :: TenantContext
  cn_auth_state :: AuthState
  cn_subscriptions :: "(string \<times> read_filter list) list"

datatype relay_message =
    EventMsg string nostr_event
  | EoseMsg string
  | ClosedMsg string string
  | NoticeMsg string
  | CountMsg string nat
  | OkMsg event_id bool string

record read_env =
  en_parse_uuid :: "string \<Rightarrow> uuid option"
  en_timestamp_ok :: "int \<Rightarrow> bool"
  en_accessible :: "CommunityId \<Rightarrow> pubkey \<Rightarrow> string + uuid list"
  en_is_member :: "CommunityId \<Rightarrow> uuid \<Rightarrow> pubkey \<Rightarrow> string + bool"
  en_up :: "nat \<Rightarrow> bool"
  en_db :: event_db

definition narrow_to_token :: "uuid list option \<Rightarrow> uuid list \<Rightarrow> uuid list" where
  "narrow_to_token token chs =
     (case token of Some allowed \<Rightarrow> filter (\<lambda>ch. ch \<in> set allowed) chs | None \<Rightarrow> chs)"

definition token_allows :: "uuid list option \<Rightarrow> uuid \<Rightarrow> bool" where
  "token_allows token ch \<longleftrightarrow> is_none_or token (\<lambda>allowed. ch \<in> set allowed)"

text \<open>The confirmation of a channel that the cache does not list; \<open>None\<close> is a failed lookup.\<close>

definition confirm_channel ::
  "read_env \<Rightarrow> CommunityId \<Rightarrow> pubkey \<Rightarrow> uuid list option \<Rightarrow> bool \<Rightarrow> uuid \<Rightarrow> uuid list
     \<Rightarrow> (bool \<times> uuid list) option" where
  "confirm_channel env c pk token skip_denied ch accessible =
     (if skip_denied \<and> \<not> token_allows token ch \<or> ch \<in> set accessible
      then Some (resolve_request_local_access accessible ch (token_allows token ch) None)
      else case en_is_member env c ch pk of
          Inr member \<Rightarrow>
            Some (resolve_request_local_access accessible ch (token_allows token ch) (Some member))
        | Inl _ \<Rightarrow> None)"

section \<open>Historical delivery\<close>

definition per_filter_channel :: "(string \<Rightarrow> uuid option) \<Rightarrow> uuid option \<Rightarrow> read_filter \<Rightarrow> uuid option" where
  "per_filter_channel parse channel_id f =
     (case extract_channel_from_filter parse f of Some ch \<Rightarrow> Some ch | None \<Rightarrow> channel_id)"

definition historical_query ::
  "read_env \<Rightarrow> CommunityId \<Rightarrow> pubkey \<Rightarrow> uuid option \<Rightarrow> uuid list \<Rightarrow> read_filter \<Rightarrow> EventQuery" where
  "historical_query env c pk channel_id accessible f =
     (let ch = per_filter_channel (en_parse_uuid env) channel_id f;
          params = apply_access_scope_to_query
            (filter_to_query_params (en_timestamp_ok env) f ch c) ch accessible
      in if filter_can_match_shared_gated_kinds f
         then params\<lparr>eq_shared_gated_reader := Some pk\<rparr> else params)"

text \<open>What every lane tests on a row before it is sent or counted.\<close>

definition row_accepted :: "pubkey \<Rightarrow> uuid list \<Rightarrow> read_filter \<Rightarrow> stored_event \<Rightarrow> bool" where
  "row_accepted pk accessible f s \<longleftrightarrow>
     (if \<not> filters_match [base_filter f] s then False
      else if (case se_channel_id s of Some ch \<Rightarrow> ch \<notin> set accessible | None \<Rightarrow> False) then False
      else event_visible_to_reader (se_event s) pk)"

text \<open>The rows of one filter; the first component says that the connection refused an event.\<close>

fun deliver_rows ::
  "pubkey \<Rightarrow> uuid list \<Rightarrow> (nat \<Rightarrow> bool) \<Rightarrow> read_filter \<Rightarrow> stored_event list \<Rightarrow> nostr_event list
     \<Rightarrow> bool \<times> nostr_event list" where
  "deliver_rows pk accessible accepts f [] sent = (False, sent)"
| "deliver_rows pk accessible accepts f (s # ss) sent =
     (if \<not> row_accepted pk accessible f s then deliver_rows pk accessible accepts f ss sent
      else if ev_id (se_event s) \<in> ev_id ` set sent then deliver_rows pk accessible accepts f ss sent
      else if accepts (length sent) then deliver_rows pk accessible accepts f ss (sent @ [se_event s])
      else (True, sent))"

definition query_routed :: "read_env \<Rightarrow> nat \<Rightarrow> EventQuery \<Rightarrow> DbError + stored_event list" where
  "query_routed env n q =
     (if en_up env n then query_events (en_db env) q else Err (InvalidData ''database unavailable''))"

definition count_routed :: "read_env \<Rightarrow> nat \<Rightarrow> EventQuery \<Rightarrow> DbError + nat" where
  "count_routed env n q =
     (if en_up env n then count_events (en_db env) q else Err (InvalidData ''database unavailable''))"

text \<open>All filters in order, numbered; the first component is false when the connection refused an event.\<close>

fun deliver_filters ::
  "read_env \<Rightarrow> CommunityId \<Rightarrow> pubkey \<Rightarrow> uuid option \<Rightarrow> uuid list \<Rightarrow> (nat \<Rightarrow> bool) \<Rightarrow> nat
     \<Rightarrow> read_filter list \<Rightarrow> nostr_event list \<Rightarrow> bool \<times> nostr_event list" where
  "deliver_filters env c pk channel_id accessible accepts n [] sent = (True, sent)"
| "deliver_filters env c pk channel_id accessible accepts n (f # fs) sent =
     (case query_routed env n (historical_query env c pk channel_id accessible f) of
        Inl _ \<Rightarrow> (True, sent)
      | Inr rows \<Rightarrow>
          (case deliver_rows pk accessible accepts f rows sent of
             (True, sent') \<Rightarrow> (False, sent')
           | (False, sent') \<Rightarrow>
               deliver_filters env c pk channel_id accessible accepts (n + 1) fs sent'))"

section \<open>Search\<close>

datatype ChannelScope = ChannelsOrChannelLess "uuid list" | Channels "uuid list" | ChannelLessOnly

definition build_search_channel_scope_filter :: "uuid list \<Rightarrow> bool \<Rightarrow> ChannelScope option" where
  "build_search_channel_scope_filter accessible include_global =
     (if accessible = [] then (if include_global then Some ChannelLessOnly else None)
      else Some (if include_global then ChannelsOrChannelLess accessible else Channels accessible))"

record SearchQuery =
  sq_community :: CommunityId
  sq_q :: string
  sq_channel_scope :: ChannelScope
  sq_kinds :: "int list option"
  sq_authors :: "pubkey list option"
  sq_since :: "int option"
  sq_until :: "int option"
  sq_page :: nat
  sq_per_page :: nat

definition SEARCH_PAGE_SIZE :: nat where "SEARCH_PAGE_SIZE = 100"

definition MAX_SEARCH_PAGES :: nat where
  "MAX_SEARCH_PAGES = (nat DEFAULT_MAX_PAGE_LIMIT + SEARCH_PAGE_SIZE - 1) div SEARCH_PAGE_SIZE"

definition search_limit :: "read_filter \<Rightarrow> nat" where
  "search_limit f =
     (case rf_limit f of
        Some l \<Rightarrow> min (l mod 2 ^ 32) (nat DEFAULT_MAX_PAGE_LIMIT)
      | None \<Rightarrow> nat DEFAULT_MAX_PAGE_LIMIT)"

text \<open>\<open>None\<close> skips the filter: no \<open>#h\<close> value of it is a channel the reader can access.\<close>

definition search_scope ::
  "(string \<Rightarrow> uuid option) \<Rightarrow> uuid list \<Rightarrow> ChannelScope \<Rightarrow> read_filter \<Rightarrow> ChannelScope option" where
  "search_scope parse accessible all_channels f =
     (case get_tag f ''h'' of
        Some (v # vs) \<Rightarrow>
          (let valid = filter (\<lambda>ch. ch \<in> set accessible) (List.map_filter parse (v # vs))
           in if valid = [] then None else Some (Channels valid))
      | _ \<Rightarrow> Some all_channels)"

definition search_query :: "CommunityId \<Rightarrow> string \<Rightarrow> ChannelScope \<Rightarrow> read_filter \<Rightarrow> nat \<Rightarrow> SearchQuery" where
  "search_query c text scope f page =
     \<lparr>sq_community = c, sq_q = text, sq_channel_scope = scope,
      sq_kinds = map_option (map (\<lambda>k. uint k)) (non_empty (f_kinds f)),
      sq_authors = non_empty (f_authors f), sq_since = map_option as_i64 (f_since f),
      sq_until = map_option as_i64 (f_until f), sq_page = page, sq_per_page = SEARCH_PAGE_SIZE\<rparr>"

text \<open>
  The hits of a page, looked up by id (the last row of an id counts): sent are those that pass the
  tests of a row, until the limit is reached.
\<close>

fun deliver_hits ::
  "pubkey \<Rightarrow> uuid list \<Rightarrow> (nat \<Rightarrow> bool) \<Rightarrow> read_filter \<Rightarrow> nat \<Rightarrow> stored_event list \<Rightarrow> event_id list
     \<Rightarrow> nat \<Rightarrow> nostr_event list \<Rightarrow> bool \<times> nat \<times> nostr_event list" where
  "deliver_hits pk accessible accepts f limit events [] emitted sent = (False, emitted, sent)"
| "deliver_hits pk accessible accepts f limit events (i # is) emitted sent =
     (if emitted \<ge> limit then (False, emitted, sent)
      else case List.find (\<lambda>s. ev_id (se_event s) = i) (rev events) of
          None \<Rightarrow> deliver_hits pk accessible accepts f limit events is emitted sent
        | Some s \<Rightarrow>
            if \<not> row_accepted pk accessible f s
            then deliver_hits pk accessible accepts f limit events is emitted sent
            else if ev_id (se_event s) \<in> ev_id ` set sent
            then deliver_hits pk accessible accepts f limit events is emitted sent
            else if accepts (length sent)
            then deliver_hits pk accessible accepts f limit events is (emitted + 1) (sent @ [se_event s])
            else (True, emitted, sent))"

fun search_pages ::
  "read_env \<Rightarrow> (SearchQuery \<Rightarrow> string + event_id list) \<Rightarrow> CommunityId \<Rightarrow> pubkey \<Rightarrow> uuid list
     \<Rightarrow> (nat \<Rightarrow> bool) \<Rightarrow> read_filter \<Rightarrow> string \<Rightarrow> ChannelScope \<Rightarrow> nat list \<Rightarrow> nat \<Rightarrow> nostr_event list
     \<Rightarrow> bool \<times> nostr_event list" where
  "search_pages env search c pk accessible accepts f text scope [] emitted sent = (False, sent)"
| "search_pages env search c pk accessible accepts f text scope (page # pages) emitted sent =
     (if emitted \<ge> search_limit f then (False, sent)
      else case search (search_query c text scope f page) of
          Inl _ \<Rightarrow> (False, sent)
        | Inr hits \<Rightarrow>
            if hits \<noteq> [] \<and> \<not> en_up env page then (False, sent)
            else case deliver_hits pk accessible accepts f (search_limit f)
                (get_events_by_ids (en_db env) c hits) hits emitted sent of
                (True, emitted', sent') \<Rightarrow> (True, sent')
              | (False, emitted', sent') \<Rightarrow>
                  if hits = [] \<or> length hits < SEARCH_PAGE_SIZE then (False, sent')
                  else search_pages env search c pk accessible accepts f text scope pages emitted' sent')"

fun search_filters ::
  "read_env \<Rightarrow> (SearchQuery \<Rightarrow> string + event_id list) \<Rightarrow> CommunityId \<Rightarrow> pubkey \<Rightarrow> uuid list
     \<Rightarrow> ChannelScope \<Rightarrow> (nat \<Rightarrow> bool) \<Rightarrow> read_filter list \<Rightarrow> nostr_event list \<Rightarrow> bool \<times> nostr_event list"
where
  "search_filters env search c pk accessible all_channels accepts [] sent = (True, sent)"
| "search_filters env search c pk accessible all_channels accepts (f # fs) sent =
     (case (rf_search f, search_scope (en_parse_uuid env) accessible all_channels f) of
        (Some (t # ts), Some scope) \<Rightarrow>
          if search_limit f = 0
          then search_filters env search c pk accessible all_channels accepts fs sent
          else (case search_pages env search c pk accessible accepts f (t # ts) scope
                  [1..<Suc MAX_SEARCH_PAGES] 0 sent of
                 (True, sent') \<Rightarrow> (False, sent')
               | (False, sent') \<Rightarrow>
                   search_filters env search c pk accessible all_channels accepts fs sent')
      | _ \<Rightarrow> search_filters env search c pk accessible all_channels accepts fs sent)"

text \<open>Events in the order they are sent, then EOSE unless the connection refused one.\<close>

definition event_messages :: "string \<Rightarrow> bool \<times> nostr_event list \<Rightarrow> relay_message list" where
  "event_messages sub_id res =
     map (EventMsg sub_id) (snd res) @ (if fst res then [EoseMsg sub_id] else [])"

definition handle_search_req ::
  "read_env \<Rightarrow> (SearchQuery \<Rightarrow> string + event_id list) \<Rightarrow> (nat \<Rightarrow> bool) \<Rightarrow> CommunityId \<Rightarrow> pubkey \<Rightarrow> string
     \<Rightarrow> read_filter list \<Rightarrow> uuid list \<Rightarrow> bool \<Rightarrow> relay_message list" where
  "handle_search_req env search accepts c pk sub_id filters accessible include_global =
     (case build_search_channel_scope_filter accessible include_global of
        None \<Rightarrow> [EoseMsg sub_id]
      | Some scope \<Rightarrow>
          event_messages sub_id (search_filters env search c pk accessible scope accepts filters []))"

section \<open>REQ\<close>

datatype topic_op = ReleaseTopic CommunityId "uuid option" | RetainTopic CommunityId "uuid option"

record req_outcome =
  ro_messages :: "relay_message list"
  ro_topics :: "topic_op list"
  ro_conn :: conn_state
  ro_registry :: SubscriptionRegistry

definition MAX_SUBSCRIPTIONS :: nat where "MAX_SUBSCRIPTIONS = 1024"

definition req_gates :: "read_filter list \<Rightarrow> pubkey \<Rightarrow> string \<Rightarrow> relay_message list" where
  "req_gates filters authed sub_id =
     (if \<not> p_gated_filters_authorized filters authed
      then [ClosedMsg sub_id ''restricted: p-gated events require #p matching your pubkey'']
      else if \<not> engram_filters_authorized filters authed
      then [ClosedMsg sub_id ''restricted: agent-engram reads require authors=[self] or #p=[self]'']
      else if \<not> author_only_filters_authorized filters authed
      then [ClosedMsg sub_id ''restricted: author-only kinds require authors=[self]'']
      else [])"

definition register_subscription ::
  "conn_state \<Rightarrow> string \<Rightarrow> read_filter list \<Rightarrow> uuid option \<Rightarrow> SubscriptionRegistry
     \<Rightarrow> topic_op list \<times> conn_state \<times> SubscriptionRegistry" where
  "register_subscription conn sub_id filters channel_id registry =
     (let c = tc_community (cn_tenant conn);
          conn' = conn\<lparr>cn_subscriptions := AList.update sub_id filters (cn_subscriptions conn)\<rparr>;
          (replaced, registry') = register_scoped c (cn_conn_id conn) sub_id
            (map base_filter filters) channel_id registry;
          released = (case replaced of
              Some r \<Rightarrow> [ReleaseTopic c (rs_channel_id r)]
            | None \<Rightarrow> [])
      in (released @ [RetainTopic c channel_id], conn', registry'))"

text \<open>After the access checks: the gates, search, or registration and historical delivery.\<close>

definition serve_req ::
  "read_env \<Rightarrow> (SearchQuery \<Rightarrow> string + event_id list) \<Rightarrow> (nat \<Rightarrow> bool) \<Rightarrow> AuthContext \<Rightarrow> string
     \<Rightarrow> read_filter list \<Rightarrow> uuid option \<Rightarrow> uuid list \<Rightarrow> conn_state \<Rightarrow> SubscriptionRegistry \<Rightarrow> req_outcome"
where
  "serve_req env search accepts ctx sub_id filters channel_id accessible conn registry =
     (let c = tc_community (cn_tenant conn); pk = ac_pubkey ctx;
          stop = (\<lambda>msgs. \<lparr>ro_messages = msgs, ro_topics = [], ro_conn = conn, ro_registry = registry\<rparr>);
          refused = (if channel_id = None then req_gates filters pk sub_id else [])
      in if refused \<noteq> [] then stop refused
         else if list_ex (\<lambda>f. rf_search f \<noteq> None) filters
         then (if list_ex (\<lambda>f. rf_search f = None) filters
               then stop [ClosedMsg sub_id ''error: mixed search and non-search filters not supported'']
               else stop (handle_search_req env search accepts c pk sub_id filters accessible
                      (ac_channel_ids ctx = None)))
         else
           let (topics, conn', registry') = register_subscription conn sub_id filters channel_id registry
           in \<lparr>ro_messages = event_messages sub_id
                 (deliver_filters env c pk channel_id accessible accepts 0 filters []),
               ro_topics = topics, ro_conn = conn', ro_registry = registry'\<rparr>)"

definition handle_req ::
  "read_env \<Rightarrow> (SearchQuery \<Rightarrow> string + event_id list) \<Rightarrow> (nat \<Rightarrow> bool) \<Rightarrow> string \<Rightarrow> read_filter list
     \<Rightarrow> conn_state \<Rightarrow> SubscriptionRegistry \<Rightarrow> req_outcome" where
  "handle_req env search accepts sub_id filters conn registry =
     (let stop = (\<lambda>msgs. \<lparr>ro_messages = msgs, ro_topics = [], ro_conn = conn, ro_registry = registry\<rparr>);
          c = tc_community (cn_tenant conn)
      in case cn_auth_state conn of
          Authenticated ctx \<Rightarrow>
            if ac_scopes ctx \<noteq> [] \<and> MessagesRead \<notin> set (ac_scopes ctx)
            then stop [NoticeMsg ''restricted: insufficient scope'',
                   ClosedMsg sub_id ''restricted: insufficient scope'']
            else if \<not> has_key (cn_subscriptions conn) sub_id \<and>
                length (cn_subscriptions conn) \<ge> MAX_SUBSCRIPTIONS
            then stop [ClosedMsg sub_id ''error: too many subscriptions'']
            else
              (case (if filters_are_nip43_membership_only filters then Ok []
                     else en_accessible env c (ac_pubkey ctx)) of
                 Inl _ \<Rightarrow> stop [ClosedMsg sub_id ''error: database error'']
               | Inr cached \<Rightarrow>
                   let accessible = narrow_to_token (ac_channel_ids ctx) cached;
                       channel_id = extract_channel_id_from_filters (en_parse_uuid env) filters
                   in case channel_id of
                        None \<Rightarrow> serve_req env search accepts ctx sub_id filters None accessible conn registry
                      | Some ch \<Rightarrow>
                          (case confirm_channel env c (ac_pubkey ctx) (ac_channel_ids ctx) True ch accessible of
                             None \<Rightarrow> stop [ClosedMsg sub_id ''error: database error'']
                           | Some (False, _) \<Rightarrow> stop [ClosedMsg sub_id ''restricted: not a channel member'']
                           | Some (True, accessible') \<Rightarrow>
                               serve_req env search accepts ctx sub_id filters (Some ch) accessible'
                                 conn registry))
        | _ \<Rightarrow> stop [NoticeMsg ''auth-required: authenticate before subscribing'',
                 ClosedMsg sub_id ''auth-required: not authenticated''])"

section \<open>COUNT\<close>

definition count_gates :: "read_filter list \<Rightarrow> pubkey \<Rightarrow> string \<Rightarrow> relay_message list" where
  "count_gates filters authed sub_id =
     (if \<not> p_gated_filters_authorized filters authed
      then [ClosedMsg sub_id ''restricted: p-gated kinds require #p tag matching your pubkey'']
      else if \<not> engram_filters_authorized filters authed
      then [ClosedMsg sub_id ''restricted: agent-engram reads require authors=[self] or #p=[self]'']
      else if \<not> author_only_filters_authorized filters authed
      then [ClosedMsg sub_id ''restricted: author-only kinds require authors=[self]'']
      else [])"

definition count_fast_path :: "read_filter \<Rightarrow> pubkey \<Rightarrow> bool" where
  "count_fast_path f authed \<longleftrightarrow>
     (let needs_author_only = filter_can_match_author_only_kinds f;
          needs_shared_gate = filter_can_match_shared_gated_kinds f;
          needs_result_gated = filter_can_match_result_gated_kinds f \<and>
            \<not> result_gated_count_safe_for_pushdown f authed
      in filter_fully_pushable f \<and> (\<not> needs_author_only \<or> authors_are_self f authed) \<and>
         \<not> needs_result_gated \<and> \<not> needs_shared_gate)"

text \<open>The count of one filter by its query: exact in SQL, or over a bounded candidate set.\<close>

definition count_filter ::
  "read_env \<Rightarrow> nat \<Rightarrow> pubkey \<Rightarrow> EventQuery \<Rightarrow> read_filter \<Rightarrow> string + nat" where
  "count_filter env n pk q f =
     (if count_fast_path f pk then map_err (\<lambda>_. ''error: '') (count_routed env n q)
      else
        (case query_routed env n (apply_count_fallback_limit q) of
           Inl _ \<Rightarrow> Err ''error: ''
         | Inr rows \<Rightarrow>
             if count_fallback_exceeded (length rows)
             then Err ''restricted: count filter requires narrower constraints''
             else Ok (length (filter (\<lambda>s. filters_match [base_filter f] s \<and>
                    event_visible_to_reader (se_event s) pk) rows))))"

definition count_query ::
  "read_env \<Rightarrow> CommunityId \<Rightarrow> pubkey \<Rightarrow> uuid option \<Rightarrow> uuid list \<Rightarrow> read_filter \<Rightarrow> EventQuery" where
  "count_query env c pk channel accessible f =
     (let q = build_event_query_from_filter (en_parse_uuid env) (en_timestamp_ok env) f c;
          q = (if channel = None then q\<lparr>eq_channel_ids := Some accessible\<rparr> else q)
      in if filter_can_match_shared_gated_kinds f then q\<lparr>eq_shared_gated_reader := Some pk\<rparr> else q)"

text \<open>The filters in order, with the accessible channels as they are repaired on the way.\<close>

fun count_filters ::
  "read_env \<Rightarrow> CommunityId \<Rightarrow> pubkey \<Rightarrow> uuid list option \<Rightarrow> nat \<Rightarrow> uuid list \<Rightarrow> read_filter list \<Rightarrow> nat
     \<Rightarrow> string + nat" where
  "count_filters env c pk token n accessible [] acc = Ok acc"
| "count_filters env c pk token n accessible (f # fs) acc =
     (case extract_channel_from_filter (en_parse_uuid env) f of
        Some ch \<Rightarrow>
          (case confirm_channel env c pk token False ch accessible of
             None \<Rightarrow> Err ''error: database error''
           | Some (False, accessible') \<Rightarrow> count_filters env c pk token (n + 1) accessible' fs acc
           | Some (True, accessible') \<Rightarrow>
               and_then (count_filter env n pk (count_query env c pk (Some ch) accessible' f) f) (\<lambda>k.
               count_filters env c pk token (n + 1) accessible' fs (acc + k)))
      | None \<Rightarrow>
          and_then (count_filter env n pk (count_query env c pk None accessible f) f) (\<lambda>k.
          count_filters env c pk token (n + 1) accessible fs (acc + k)))"

definition handle_count ::
  "read_env \<Rightarrow> string \<Rightarrow> read_filter list \<Rightarrow> conn_state \<Rightarrow> relay_message list" where
  "handle_count env sub_id filters conn =
     (case cn_auth_state conn of
        Authenticated ctx \<Rightarrow>
          (let c = tc_community (cn_tenant conn); pk = ac_pubkey ctx; refused = count_gates filters pk sub_id
           in if refused \<noteq> [] then refused
              else case en_accessible env c pk of
                  Inl _ \<Rightarrow> [ClosedMsg sub_id ''error: database error'']
                | Inr cached \<Rightarrow>
                    (case count_filters env c pk (ac_channel_ids ctx) 0
                        (narrow_to_token (ac_channel_ids ctx) cached) filters 0 of
                       Inl e \<Rightarrow> [ClosedMsg sub_id e]
                     | Inr total_count \<Rightarrow> [CountMsg sub_id total_count]))
      | _ \<Rightarrow> [ClosedMsg sub_id ''auth-required: not authenticated''])"

end
