(* ===== verification/ReadsProps.thy ===== *)
theory ReadsProps
  imports Reads "HOL-Library.Code_Target_Nat"
begin

text \<open>
  What the read path promises: the gates on filters, the visibility of an event, and that every event a
  REQ sends is a live event of the tenant that the reader may see. The exactness of the translation of
  filters into queries is the subject of \<open>ReadsExact\<close>.
\<close>

section \<open>Gates\<close>

lemma k32_event: "k32 (ev_kind e) = event_kind_u32 e"
  by (simp add: k32_def event_kind_u32_def)

lemma f_base_filter [simp]:
  "f_ids (base_filter f) = f_ids f" "f_authors (base_filter f) = f_authors f"
  "f_kinds (base_filter f) = f_kinds f" "f_since (base_filter f) = f_since f"
  "f_until (base_filter f) = f_until f" "f_generic_tags (base_filter f) = f_generic_tags f"
  by (cases f; simp add: base_filter_def nostr_filter.truncate_def)+

lemma match_kind:
  "filter_match_one (base_filter f) s \<Longrightarrow> is_none_or (f_kinds f) (\<lambda>ks. ev_kind (se_event s) \<in> set ks)"
  by (auto simp: filter_match_one_iff is_none_or_def split: option.splits)

lemma match_p_self:
  assumes "filter_match_one (base_filter f) s" "p_is_self f pk"
  shows "pk \<in> set (tag_values (ev_tags (se_event s)) ''p'')"
proof -
  obtain vals where v: "map_of (f_generic_tags f) ''p'' = Some vals" "\<forall>v\<in>set vals. v = pk" "vals \<noteq> []"
    using assms(2) by (auto simp: p_is_self_def is_some_and_def get_tag_def list_all_iff split: option.splits)
  then have "generic_tag_ok s (''p'', vals)"
    using assms(1) map_of_SomeD [OF v(1)] by (auto simp: filter_match_one_iff)
  then show ?thesis using v(2) generic_tag_ok_own [of s "''p''" vals] by auto
qed

lemma match_authors_self:
  assumes "filter_match_one (base_filter f) s" "authors_are_self f pk"
  shows "eq_ignore_ascii_case (ev_pubkey (se_event s)) pk"
  using assms by (auto simp: authors_are_self_def is_some_and_def filter_match_one_iff list_all_iff split: option.splits)

lemma match_names_ids:
  assumes "filter_match_one (base_filter f) s" "names_ids f"
  shows "\<exists>ids i. f_ids f = Some ids \<and> i \<in> set ids \<and> starts_with (ev_id (se_event s)) i"
  using assms by (auto simp: names_ids_def is_some_and_def filter_match_one_iff split: option.splits)

text \<open>
  C24. The gates keep their promise: when a request passes them, every event of a p-gated kind that one of
  its filters matches names the reader in a \<open>p\<close> tag or is named by its id in the filter, and the
  latter is not possible for visibility snapshots and turn metrics that the filter asks for by kind;
  every engram it matches was written by the reader, names the reader, or is named by its id.
\<close>

theorem gates_sound:
  assumes gates: "p_gated_filters_authorized filters pk" "engram_filters_authorized filters pk"
    and f: "f \<in> set filters" and m: "filter_match_one (base_filter f) s"
  shows "(event_kind_u32 (se_event s) \<in> set P_GATED_KINDS \<longrightarrow>
       pk \<in> set (tag_values (ev_tags (se_event s)) ''p'') \<or>
       (\<exists>ids i. f_ids f = Some ids \<and> i \<in> set ids \<and> starts_with (ev_id (se_event s)) i) \<and>
       (event_kind_u32 (se_event s) \<in> {KIND_DM_VISIBILITY, KIND_AGENT_TURN_METRIC} \<longrightarrow> f_kinds f = None)) \<and>
    (event_kind_u32 (se_event s) = KIND_AGENT_ENGRAM \<longrightarrow>
       eq_ignore_ascii_case (ev_pubkey (se_event s)) pk \<or>
       pk \<in> set (tag_values (ev_tags (se_event s)) ''p'') \<or>
       (\<exists>ids i. f_ids f = Some ids \<and> i \<in> set ids \<and> starts_with (ev_id (se_event s)) i))"
proof (intro conjI impI)
  have k: "is_none_or (f_kinds f) (\<lambda>ks. ev_kind (se_event s) \<in> set ks)" by (rule match_kind [OF m])
  have p: "p_gated_filter_authorized pk f" and e: "engram_filter_authorized pk f"
    using gates f by (simp_all add: p_gated_filters_authorized_def engram_filters_authorized_def list_all_iff)
  note self = match_p_self [OF m]
  {
    assume g: "event_kind_u32 (se_event s) \<in> set P_GATED_KINDS"
    then have can: "is_none_or (f_kinds f) (\<lambda>ks. list_ex (\<lambda>k. k32 k \<in> set P_GATED_KINDS) ks)"
      using k by (auto simp: is_none_or_def list_ex_iff k32_event [symmetric] split: option.splits)
    show "pk \<in> set (tag_values (ev_tags (se_event s)) ''p'') \<or>
      (\<exists>ids i. f_ids f = Some ids \<and> i \<in> set ids \<and> starts_with (ev_id (se_event s)) i) \<and>
      (event_kind_u32 (se_event s) \<in> {KIND_DM_VISIBILITY, KIND_AGENT_TURN_METRIC} \<longrightarrow> f_kinds f = None)"
    proof (cases "p_is_self f pk")
      case False
      then have n: "names_ids f" and x: "\<not> is_some_and (f_kinds f) (\<lambda>ks.
          list_ex (\<lambda>k. k32 k = KIND_DM_VISIBILITY \<or> k32 k = KIND_AGENT_TURN_METRIC) ks)"
        using p can by (auto simp: p_gated_filter_authorized_def Let_def split: if_splits)
      have "event_kind_u32 (se_event s) \<in> {KIND_DM_VISIBILITY, KIND_AGENT_TURN_METRIC} \<longrightarrow> f_kinds f = None"
        using x k by (auto simp: is_some_and_def is_none_or_def list_ex_iff k32_event [symmetric] split: option.splits)
      then show ?thesis using match_names_ids [OF m n] by blast
    qed (use self in blast)
  }
  assume "event_kind_u32 (se_event s) = KIND_AGENT_ENGRAM"
  then have "is_none_or (f_kinds f) (\<lambda>ks. list_ex (\<lambda>k. k32 k = KIND_AGENT_ENGRAM) ks)"
    using k by (auto simp: is_none_or_def list_ex_iff k32_event [symmetric] split: option.splits)
  then have "names_ids f \<or> authors_are_self f pk \<or> p_is_self f pk"
    using e by (auto simp: engram_filter_authorized_def split: if_splits)
  then show "eq_ignore_ascii_case (ev_pubkey (se_event s)) pk \<or>
      pk \<in> set (tag_values (ev_tags (se_event s)) ''p'') \<or>
      (\<exists>ids i. f_ids f = Some ids \<and> i \<in> set ids \<and> starts_with (ev_id (se_event s)) i)"
    using match_names_ids [OF m] match_authors_self [OF m] self by blast
qed

lemma event_visible_iff:
  "event_visible_to_reader ev pk \<longleftrightarrow>
     (event_kind_u32 ev \<in> set AUTHOR_ONLY_KINDS \<longrightarrow> ev_pubkey ev = pk) \<and>
     (event_kind_u32 ev \<in> set SHARED_GATED_KINDS \<longrightarrow> ev_pubkey ev = pk \<or> event_is_shared ev) \<and>
     (event_kind_u32 ev \<in> {KIND_DM_VISIBILITY, KIND_AGENT_TURN_METRIC} \<longrightarrow>
        (\<exists>t\<in>set (ev_tags ev). tag_kind t = ''p'' \<and> tag_content t = Some pk))"
  by (auto simp: event_visible_to_reader_def is_author_only_event_def is_unshared_gated_event_def
      is_shared_gated_kind_def reader_authorized_for_event_def Let_def list_ex_iff)

section \<open>What is delivered\<close>

definition live_row :: "CommunityId \<Rightarrow> event_db \<Rightarrow> stored_event \<Rightarrow> bool" where
  "live_row c db s \<longleftrightarrow> (\<exists>r\<in>set (db_events db). er_community r = c \<and> \<not> er_deleted r \<and>
     row_to_stored_event r = Some s)"

lemma set_newest_first [simp]: "set (newest_first rows) = set rows"
  by (simp add: newest_first_def)

lemma set_joined: "set (joined q ms r) \<subseteq> {r}"
  by (auto simp: joined_def split: option.splits)

lemma query_rows_set: "r \<in> set (query_rows q db) \<Longrightarrow> r \<in> set (db_events db) \<and> base_clauses q r"
  using set_joined by (fastforce simp: query_rows_def)

lemma query_events_live:
  assumes "query_events db q = Ok rows" "s \<in> set rows"
  shows "live_row (eq_community_id q) db s"
proof -
  obtain r where r: "r \<in> set (query_rows q db)" and s: "row_to_stored_event r = Some s"
    using assms by (auto simp: query_events_def Let_def set_map_filter
        dest!: in_set_takeD in_set_dropD split: if_splits)
  show ?thesis
    unfolding live_row_def using query_rows_set [OF r] s by (intro bexI [of _ r]) (auto simp: base_clauses_def)
qed

lemma historical_query_community [simp]: "eq_community_id (historical_query env c pk ch acc f) = c"
  by (simp add: historical_query_def apply_access_scope_to_query_def filter_to_query_params_def
      for_community_def Let_def split: prod.splits)

lemma get_events_by_ids_live: "s \<in> set (get_events_by_ids db c ids) \<Longrightarrow> live_row c db s"
  by (auto simp: get_events_by_ids_def live_row_def set_map_filter split: if_splits)

definition permitted :: "CommunityId \<Rightarrow> event_db \<Rightarrow> pubkey \<Rightarrow> uuid list \<Rightarrow> read_filter list \<Rightarrow> nostr_event \<Rightarrow> bool" where
  "permitted c db pk accessible filters ev \<longleftrightarrow>
     (\<exists>s f. se_event s = ev \<and> live_row c db s \<and> f \<in> set filters \<and> row_accepted pk accessible f s)"

definition sound_output :: "CommunityId \<Rightarrow> event_db \<Rightarrow> pubkey \<Rightarrow> uuid list \<Rightarrow> read_filter list \<Rightarrow> nostr_event list \<Rightarrow> bool" where
  "sound_output c db pk accessible filters sent \<longleftrightarrow>
     (\<forall>ev\<in>set sent. permitted c db pk accessible filters ev) \<and> distinct (map ev_id sent)"

lemma sound_output_snoc:
  "sound_output c db pk acc fs sent \<Longrightarrow> live_row c db s \<Longrightarrow> f \<in> set fs \<Longrightarrow> row_accepted pk acc f s \<Longrightarrow>
     ev_id (se_event s) \<notin> ev_id ` set sent \<Longrightarrow> sound_output c db pk acc fs (sent @ [se_event s])"
  by (auto simp: sound_output_def permitted_def)

lemma deliver_rows_sound:
  assumes "sound_output c db pk acc fs sent" "\<forall>s\<in>set rows. live_row c db s" "f \<in> set fs"
    and "deliver_rows pk acc accepts f rows sent = (b, sent')"
  shows "sound_output c db pk acc fs sent'"
  using assms
proof (induction rows arbitrary: sent)
  case (Cons s rows)
  then show ?case using sound_output_snoc [OF Cons.prems(1) _ Cons.prems(3)] by (auto split: if_splits)
qed simp

lemma deliver_filters_sound:
  assumes "sound_output c (en_db env) pk acc all sent" "set fs \<subseteq> set all"
    and "deliver_filters env c pk ch acc accepts n fs sent = (b, sent')"
  shows "sound_output c (en_db env) pk acc all sent'"
  using assms
proof (induction fs arbitrary: n sent)
  case (Cons f fs)
  show ?case
  proof (cases "query_routed env n (historical_query env c pk ch acc f)")
    case (Inl e)
    then show ?thesis using Cons.prems by simp
  next
    case (Inr rows)
    then have "\<forall>s\<in>set rows. live_row c (en_db env) s"
      using query_events_live by (fastforce simp: query_routed_def split: if_splits)
    moreover obtain b1 sent1 where d: "deliver_rows pk acc accepts f rows sent = (b1, sent1)" by fastforce
    ultimately have "sound_output c (en_db env) pk acc all sent1"
      using deliver_rows_sound [OF Cons.prems(1)] Cons.prems(2) by auto
    then show ?thesis using Cons.IH Cons.prems(2,3) by (auto simp: Inr d split: bool.splits)
  qed
qed simp

lemma deliver_hits_sound:
  assumes "sound_output c db pk acc fs sent" "\<forall>s\<in>set events. live_row c db s" "f \<in> set fs"
    and "deliver_hits pk acc accepts f limit events hits n sent = (b, n', sent')"
  shows "sound_output c db pk acc fs sent'"
  using assms
proof (induction hits arbitrary: n sent)
  case (Cons i hits)
  show ?case
  proof (cases "List.find (\<lambda>s. ev_id (se_event s) = i) (rev events)")
    case None
    then show ?thesis using Cons by (auto split: if_splits)
  next
    case (Some s)
    then have "live_row c db s" using Cons.prems(2) by (auto simp: find_Some_iff) (metis nth_mem set_rev length_rev)
    then show ?thesis
      using Cons.IH Cons.prems sound_output_snoc [OF Cons.prems(1) _ Cons.prems(3)]
      by (auto simp: Some split: if_splits)
  qed
qed simp

lemma search_pages_sound:
  assumes "sound_output c (en_db env) pk acc fs sent" "f \<in> set fs"
    and "search_pages env search c pk acc accepts f text scope pages n sent = (b, sent')"
  shows "sound_output c (en_db env) pk acc fs sent'"
  using assms
proof (induction pages arbitrary: n sent)
  case (Cons p pages)
  show ?case
  proof (cases "search (search_query c text scope f p)")
    case (Inl e)
    then show ?thesis using Cons.prems by (auto split: if_splits)
  next
    case (Inr hits)
    obtain b1 n1 sent1 where d: "deliver_hits pk acc accepts f (search_limit f)
        (get_events_by_ids (en_db env) c hits) hits n sent = (b1, n1, sent1)" by (metis prod_cases3)
    have "sound_output c (en_db env) pk acc fs sent1"
      by (rule deliver_hits_sound [OF Cons.prems(1) _ Cons.prems(2) d]) (simp add: get_events_by_ids_live)
    then show ?thesis using Cons by (auto simp: Inr d split: if_splits bool.splits)
  qed
qed simp

lemma search_filters_sound:
  assumes "sound_output c (en_db env) pk acc all sent" "set fs \<subseteq> set all"
    and "search_filters env search c pk acc scope accepts fs sent = (b, sent')"
  shows "sound_output c (en_db env) pk acc all sent'"
  using assms
proof (induction fs arbitrary: sent)
  case (Cons f fs)
  have f: "f \<in> set all" "set fs \<subseteq> set all" using Cons.prems(2) by auto
  show ?case
  proof (cases "\<exists>t ts sc. rf_search f = Some (t # ts) \<and> search_scope (en_parse_uuid env) acc scope f = Some sc \<and> search_limit f \<noteq> 0")
    case False
    then have "search_filters env search c pk acc scope accepts (f # fs) sent =
        search_filters env search c pk acc scope accepts fs sent"
      by (auto split: option.splits list.splits)
    then show ?thesis using Cons.IH [OF Cons.prems(1) f(2)] Cons.prems(3) by simp
  next
    case True
    then obtain t ts sc where t: "rf_search f = Some (t # ts)"
      "search_scope (en_parse_uuid env) acc scope f = Some sc" "search_limit f \<noteq> 0" by blast
    obtain b1 sent1 where d: "search_pages env search c pk acc accepts f (t # ts) sc [1..<Suc MAX_SEARCH_PAGES] 0 sent = (b1, sent1)"
      by fastforce
    have "sound_output c (en_db env) pk acc all sent1" by (rule search_pages_sound [OF Cons.prems(1) f(1) d])
    then show ?thesis using Cons.IH [OF _ f(2)] Cons.prems(3) t d by (auto split: bool.splits)
  qed
qed simp

section \<open>Safety of a REQ\<close>

definition sent_events :: "relay_message list \<Rightarrow> nostr_event list" where
  "sent_events msgs = List.map_filter (\<lambda>m. case m of EventMsg _ ev \<Rightarrow> Some ev | _ \<Rightarrow> None) msgs"

lemma sent_events_simps [simp]:
  "sent_events [] = []" "sent_events (EventMsg i ev # ms) = ev # sent_events ms"
  "sent_events (ClosedMsg i e # ms) = sent_events ms" "sent_events (NoticeMsg e # ms) = sent_events ms"
  "sent_events (EoseMsg i # ms) = sent_events ms"
  by (simp_all add: sent_events_def map_filter_simps)

lemma sent_events_append [simp]: "sent_events (xs @ ys) = sent_events xs @ sent_events ys"
  by (simp add: sent_events_def map_filter_def)

lemma sent_event_messages [simp]: "sent_events (event_messages i (b, evs)) = evs"
proof -
  have "sent_events (map (EventMsg i) evs) = evs" by (induction evs) auto
  then show ?thesis by (simp add: event_messages_def)
qed

lemma sent_gates [simp]: "sent_events (req_gates fs pk i) = []"
  by (simp add: req_gates_def)

lemma sound_output_Nil [simp]: "sound_output c db pk acc fs []"
  by (simp add: sound_output_def)

lemma serve_req_sound:
  assumes "c = tc_community (cn_tenant conn)"
  shows "sound_output c (en_db env) (ac_pubkey ctx) acc filters
     (sent_events (ro_messages (serve_req env search accepts ctx sid filters ch acc conn reg)))"
proof -
  let ?o = "sound_output c (en_db env) (ac_pubkey ctx) acc filters"
  have h: "?o (sent_events (handle_search_req env search accepts c (ac_pubkey ctx) sid filters acc g))" for g
  proof (cases "build_search_channel_scope_filter acc g")
    case (Some scope)
    obtain b evs where r: "search_filters env search c (ac_pubkey ctx) acc scope accepts filters [] = (b, evs)"
      by fastforce
    show ?thesis using search_filters_sound [OF _ _ r] by (simp add: handle_search_req_def Some r)
  qed (simp add: handle_search_req_def)
  obtain b evs where d: "deliver_filters env c (ac_pubkey ctx) ch acc accepts 0 filters [] = (b, evs)"
    by fastforce
  have "?o evs" using deliver_filters_sound [OF _ _ d] by simp
  then show ?thesis using h d
    by (auto simp: serve_req_def Let_def assms [symmetric] split: prod.splits)
qed

text \<open>The channels a reader may see: listed for the reader or confirmed, and covered by the token.\<close>

definition may_read :: "read_env \<Rightarrow> CommunityId \<Rightarrow> AuthContext \<Rightarrow> uuid \<Rightarrow> bool" where
  "may_read env c ctx ch \<longleftrightarrow> token_allows (ac_channel_ids ctx) ch \<and>
     ((\<exists>chs. en_accessible env c (ac_pubkey ctx) = Ok chs \<and> ch \<in> set chs) \<or>
      en_is_member env c ch (ac_pubkey ctx) = Ok True)"

lemma narrow_may_read:
  "en_accessible env c (ac_pubkey ctx) = Ok chs \<Longrightarrow>
     ch \<in> set (narrow_to_token (ac_channel_ids ctx) chs) \<Longrightarrow> may_read env c ctx ch"
  by (auto simp: may_read_def narrow_to_token_def token_allows_def is_none_or_def split: option.splits)

lemma confirm_may_read:
  assumes "\<forall>ch\<in>set acc. may_read env c ctx ch"
    and "confirm_channel env c (ac_pubkey ctx) (ac_channel_ids ctx) skip x acc = Some (b, acc')"
  shows "\<forall>ch\<in>set acc'. may_read env c ctx ch"
proof
  fix y assume y: "y \<in> set acc'"
  show "may_read env c ctx y"
  proof (cases "y \<in> set acc")
    case False
    then have "y = x" "token_allows (ac_channel_ids ctx) x" "en_is_member env c x (ac_pubkey ctx) = Ok True"
      using y assms(2)
      by (auto simp: confirm_channel_def resolve_request_local_access_def split: if_splits sum.splits)
    then show ?thesis by (simp add: may_read_def)
  qed (use assms(1) in blast)
qed

lemma permitted_may_read:
  assumes "permitted c db pk acc fs ev" "\<forall>ch\<in>set acc. may_read env c ctx ch"
  shows "\<exists>s f. se_event s = ev \<and> live_row c db s \<and> f \<in> set fs \<and> filter_match_one (base_filter f) s \<and>
     event_visible_to_reader ev pk \<and> is_none_or (se_channel_id s) (may_read env c ctx)"
proof -
  obtain s f where s: "se_event s = ev" "live_row c db s" "f \<in> set fs" "row_accepted pk acc f s"
    using assms(1) unfolding permitted_def by blast
  have "filter_match_one (base_filter f) s" "event_visible_to_reader (se_event s) pk"
    "is_none_or (se_channel_id s) (\<lambda>ch. ch \<in> set acc)"
    using s(4) by (auto simp: row_accepted_def filters_match_iff is_none_or_def split: if_splits option.splits)
  then show ?thesis using s assms(2)
    by (intro exI [of _ s] exI [of _ f]) (auto simp: is_none_or_def split: option.splits)
qed

lemma handle_req_sound:
  assumes ctx: "cn_auth_state conn = Authenticated ctx" and c: "c = tc_community (cn_tenant conn)"
  shows "\<exists>acc. (\<forall>ch\<in>set acc. may_read env c ctx ch) \<and>
     sound_output c (en_db env) (ac_pubkey ctx) acc filters
       (sent_events (ro_messages (handle_req env search accepts sid filters conn reg)))"
proof -
  let ?acc = "(if filters_are_nip43_membership_only filters then Ok [] else en_accessible env c (ac_pubkey ctx))"
  let ?out = "sent_events (ro_messages (handle_req env search accepts sid filters conn reg))"
  show ?thesis
  proof (cases ?acc)
    case (Inl e)
    have "?out = []" using Inl by (auto simp: handle_req_def ctx c Let_def split: sum.splits if_splits)
    then show ?thesis by (intro exI [of _ "[]"]) simp
  next
    case (Inr chs)
    let ?n = "narrow_to_token (ac_channel_ids ctx) chs"
    let ?ch = "extract_channel_id_from_filters (en_parse_uuid env) filters"
    have n: "\<forall>ch\<in>set ?n. may_read env c ctx ch"
    proof (cases "filters_are_nip43_membership_only filters")
      case False
      then show ?thesis using Inr narrow_may_read by auto
    next
      case True
      then have "chs = []" using Inr by simp
      then show ?thesis by (auto simp: narrow_to_token_def split: option.splits)
    qed
    show ?thesis
    proof (cases "?out = []")
      case True
      then show ?thesis by (intro exI [of _ "[]"]) simp
    next
      case False
      have "?out = sent_events (ro_messages (serve_req env search accepts ctx sid filters None ?n conn reg)) \<or>
         (\<exists>ch b acc'. confirm_channel env c (ac_pubkey ctx) (ac_channel_ids ctx) True ch ?n = Some (b, acc') \<and>
            ?out = sent_events (ro_messages (serve_req env search accepts ctx sid filters (Some ch) acc' conn reg)))"
        using False Inr unfolding handle_req_def Let_def
        by (auto simp: ctx c split: if_splits option.splits prod.splits bool.splits sum.splits)
      then show ?thesis
        using serve_req_sound [OF c] n confirm_may_read [OF n] by (elim disjE exE conjE) (metis, metis)
    qed
  qed
qed

section \<open>Examples\<close>

definition ex_key :: "char \<Rightarrow> string" where "ex_key x = replicate 64 x"

definition ex_tag :: "string list \<Rightarrow> nostr_tag" where
  "ex_tag s = \<lparr>tag_kind = hd s, tag_content = (case tl s of [] \<Rightarrow> None | v # _ \<Rightarrow> Some v), tag_slice = s\<rparr>"

definition ex_row :: "char \<Rightarrow> pubkey \<Rightarrow> u16 \<Rightarrow> string list list \<Rightarrow> uuid option \<Rightarrow> event_row" where
  "ex_row i author kind tags ch =
     (let ev = \<lparr>ev_id = ex_key i, ev_pubkey = author, ev_created_at = 100, ev_kind = kind,
        ev_tags = map ex_tag tags, ev_content = []\<rparr>
      in new_row 0 (CommunityId ''c'') ev ch (extract_d_tag ev) None)"

definition ex_store :: event_db where
  "ex_store = \<lparr>db_events =
     [ex_row CHR ''1'' (ex_key CHR ''a'') 9 [[''h'', ''room'']] (Some ''room''),
      ex_row CHR ''2'' (ex_key CHR ''b'') 9 [[''h'', ''room''], [''p'', ex_key CHR ''a'']] (Some ''room''),
      ex_row CHR ''3'' (ex_key CHR ''b'') 9 [[''h'', ''cave'']] (Some ''cave'')],
     db_mentions = [\<lparr>mr_community = CommunityId ''c'', mr_pubkey_hex = ex_key CHR ''a'', mr_event_id = ex_key CHR ''2''\<rparr>], db_watermarks = []\<rparr>"

definition ex_env :: read_env where
  "ex_env = \<lparr>en_parse_uuid = (\<lambda>s. if s \<in> {''room'', ''cave''} then Some s else None),
     en_timestamp_ok = (\<lambda>_. True), en_accessible = (\<lambda>_ _. Ok [''room'']),
     en_is_member = (\<lambda>_ _ _. Ok False), en_up = (\<lambda>_. True), en_db = ex_store\<rparr>"

definition ex_filter :: "u16 list \<Rightarrow> (string \<times> string list) list \<Rightarrow> read_filter" where
  "ex_filter ks tags = \<lparr>f_ids = None, f_authors = None, f_kinds = Some ks, f_since = None, f_until = None,
     f_generic_tags = tags, rf_limit = None, rf_search = None\<rparr>"

definition ex_conn :: conn_state where
  "ex_conn = \<lparr>cn_conn_id = ''n'', cn_tenant = \<lparr>tc_community = CommunityId ''c'', tc_host = ''h''\<rparr>,
     cn_auth_state = Authenticated \<lparr>ac_pubkey = ex_key CHR ''a'', ac_scopes = [], ac_channel_ids = None, ac_auth_method = Nip42, ac_agent_owner_pubkey = None\<rparr>,
     cn_subscriptions = []\<rparr>"

text \<open>
  C18. A REQ sends only what its reader may see: the connection is authenticated, and each event sent is a
  live row of the tenant's community that one of the filters matches and the visibility rules of its
  kind show to the reader; it belongs to no channel, or to a channel that the token covers and that is
  listed for the reader or confirmed by a membership lookup. No event is sent twice. This holds for
  stored events and for search hits, whatever the search service answers.
\<close>

theorem req_delivers_only_permitted:
  assumes "evs = sent_events (ro_messages (handle_req env search accepts sid filters conn reg))"
    and "c = tc_community (cn_tenant conn)"
  shows "distinct (map ev_id evs) \<and> (\<forall>ev\<in>set evs. \<exists>ctx s f. cn_auth_state conn = Authenticated ctx \<and>
     se_event s = ev \<and> live_row c (en_db env) s \<and> f \<in> set filters \<and> filter_match_one (base_filter f) s \<and>
     event_visible_to_reader ev (ac_pubkey ctx) \<and> is_none_or (se_channel_id s) (may_read env c ctx))"
proof (cases "cn_auth_state conn")
  case (Authenticated ctx)
  obtain acc where acc: "\<forall>ch\<in>set acc. may_read env c ctx ch"
    and out: "sound_output c (en_db env) (ac_pubkey ctx) acc filters evs"
    using handle_req_sound [OF Authenticated assms(2)] unfolding assms(1) by blast
  show ?thesis
    using out permitted_may_read [OF _ acc] Authenticated unfolding sound_output_def by blast
qed (simp_all add: assms(1) handle_req_def Let_def)

lemma req_delivers_example:
  "map ev_id (sent_events (ro_messages (handle_req ex_env (\<lambda>_. Ok []) (\<lambda>_. True) ''s'' [ex_filter [9] []]
     ex_conn registry_new))) = [ex_key CHR ''1'', ex_key CHR ''2'']"
  by code_simp

text \<open>The example reader is sent the two messages of its channel and not the one of the other channel.\<close>

theorem req_delivers_only_permitted_witness:
  "let evs = sent_events (ro_messages (handle_req ex_env (\<lambda>_. Ok []) (\<lambda>_. True) ''s'' [ex_filter [9] []]
       ex_conn registry_new))
   in distinct (map ev_id evs) \<and> map ev_id evs = [ex_key CHR ''1'', ex_key CHR ''2'']"
  unfolding Let_def
  by (rule conjI [OF conjunct1 [OF req_delivers_only_permitted [OF refl refl]] req_delivers_example])

lemma gates_example: "\<not> p_gated_filters_authorized [ex_filter [30622] []] (ex_key CHR ''a'')"
  by code_simp

definition ex_wrap :: stored_event where
  "ex_wrap = StoredEvent_new 0 (er_event (ex_row CHR ''4'' (ex_key CHR ''b'') 1059 [[''p'', ex_key CHR ''a'']] None)) None"

theorem gates_sound_witness:
  "ex_key CHR ''a'' \<in> set (tag_values (ev_tags (se_event ex_wrap)) ''p'')"
proof -
  let ?f = "ex_filter [1059] [(''p'', [ex_key CHR ''a''])]"
  have g: "p_gated_filters_authorized [?f] (ex_key CHR ''a'')" "engram_filters_authorized [?f] (ex_key CHR ''a'')"
    "filter_match_one (base_filter ?f) ex_wrap"
    by code_simp+
  have "event_kind_u32 (se_event ex_wrap) \<in> set P_GATED_KINDS" by code_simp
  moreover have "f_ids ?f = None" by (simp add: ex_filter_def)
  ultimately show ?thesis
    using gates_sound [OF g(1,2) list.set_intros(1) g(3)] by simp
qed

end
