(* ===== verification/ReadsExact.thy ===== *)
theory ReadsExact
  imports ReadsProps
begin

text \<open>
  Filters and their queries. For a filter in the ordinary form and rows as the store writes them for
  events with ordinary tags, the query of a filter finds every event the filter matches, and the filters
  the relay counts in SQL find no other: counts are exact and history is complete. The conditions
  \<open>plain_filter\<close> and \<open>plain_row\<close> name what the translation relies on; the examples at the end show
  counts that go wrong without them.
\<close>

section \<open>The conditions under which a filter is its query\<close>

definition tag_value_set :: "nostr_event \<Rightarrow> string \<Rightarrow> string set" where
  "tag_value_set ev k = set (tag_values (ev_tags ev) k)"

definition timely :: "(int \<Rightarrow> bool) \<Rightarrow> nat option \<Rightarrow> bool" where
  "timely timestamp_ok t \<longleftrightarrow> is_none_or t (\<lambda>s. s < 2 ^ 63 \<and> timestamp_ok (int s))"

definition plain_filter :: "(string \<Rightarrow> uuid option) \<Rightarrow> (int \<Rightarrow> bool) \<Rightarrow> read_filter \<Rightarrow> bool" where
  "plain_filter parse timestamp_ok f \<longleftrightarrow>
     keys_distinct (f_generic_tags f) \<and> list_all (\<lambda>kv. snd kv \<noteq> []) (f_generic_tags f) \<and>
     is_none_or (f_ids f) (\<lambda>ids. ids \<noteq> [] \<and> list_all (\<lambda>i. length i = 64) ids) \<and>
     f_kinds f \<noteq> Some [] \<and> f_authors f \<noteq> Some [] \<and> timely timestamp_ok (f_since f) \<and> timely timestamp_ok (f_until f) \<and>
     is_none_or (get_tag f ''h'') (\<lambda>vs. length vs = 1 \<and> list_all (\<lambda>v. parse v = Some v) vs) \<and>
     is_none_or (get_tag f ''p'') (\<lambda>vs. length vs = 1 \<longrightarrow>
       list_all (\<lambda>v. valid_mention v \<and> to_ascii_lowercase v = v) vs)"

definition plain_tag :: "nostr_tag \<Rightarrow> bool" where
  "plain_tag t \<longleftrightarrow>
     (case tag_slice t of
        [] \<Rightarrow> False
      | k # rest \<Rightarrow> tag_kind t = k \<and> tag_content t = (case rest of [] \<Rightarrow> None | v # _ \<Rightarrow> Some v))"

definition mentions_of :: "mention_row list \<Rightarrow> CommunityId \<Rightarrow> nostr_event \<Rightarrow> mention_row list" where
  "mentions_of ms c ev = filter (\<lambda>m. mr_community m = c \<and> mr_event_id m = ev_id ev) ms"

text \<open>A row as the store writes it for an event with ordinary tags, seen by a filter's \<open>e\<close> values.\<close>

definition plain_row :: "mention_row list \<Rightarrow> string list \<Rightarrow> event_row \<Rightarrow> bool" where
  "plain_row ms es r \<longleftrightarrow>
     (let ev = er_event r in
      list_all plain_tag (ev_tags ev) \<and> er_created_at r = int (ev_created_at ev) \<and>
      length (ev_id ev) = 64 \<and> to_ascii_lowercase (ev_pubkey ev) = ev_pubkey ev \<and> er_d_tag r = extract_d_tag ev \<and>
      (is_parameterized_replaceable (event_kind_u32 ev) \<longrightarrow>
         is_some_and (er_d_tag r) (\<lambda>d. tag_value_set ev ''d'' = {d})) \<and>
      list_all (\<lambda>t. tag_kind t = ''h'' \<longrightarrow> tag_content t \<noteq> None \<and> tag_content t = er_channel_id r) (ev_tags ev) \<and>
      list_all (\<lambda>t. list_all (\<lambda>e. {''e'', e} \<subseteq> set (tag_slice t) \<longrightarrow>
        tag_kind t = ''e'' \<and> tag_content t = Some e) es) (ev_tags ev) \<and>
      map mr_pubkey_hex (mentions_of ms (er_community r) ev) =
        remdups (filter valid_mention (p_tag_values ev)) \<and>
      list_all (\<lambda>p. to_ascii_lowercase p = p) (p_tag_values ev))"

definition e_values :: "read_filter \<Rightarrow> string list" where
  "e_values f = (case get_tag f ''e'' of Some vs \<Rightarrow> vs | None \<Rightarrow> [])"

section \<open>Fields of the query\<close>

lemma query_fields [simp]:
  "eq_community_id (filter_to_query_params t f ch c) = c"
  "eq_channel_id (filter_to_query_params t f ch c) = ch"
  "eq_kinds (filter_to_query_params t f ch c) = map_option (map uint) (f_kinds f)"
  "eq_since (filter_to_query_params t f ch c) = in_range t (f_since f)"
  "eq_until (filter_to_query_params t f ch c) = in_range t (f_until f)"
  "eq_ids (filter_to_query_params t f ch c) = non_empty (f_ids f)"
  "eq_e_tags (filter_to_query_params t f ch c) = non_empty (get_tag f ''e'')"
  "eq_p_tag_hex (filter_to_query_params t f ch c) = (case get_tag f ''p'' of Some [v] \<Rightarrow> Some v | _ \<Rightarrow> None)"
  "eq_channel_ids (filter_to_query_params t f ch c) = None"
  "eq_global_only (filter_to_query_params t f ch c) = False"
  "eq_before_id (filter_to_query_params t f ch c) = None"
  "eq_max_limit (filter_to_query_params t f ch c) = None"
  "eq_offset (filter_to_query_params t f ch c) = None"
  "eq_shared_gated_reader (filter_to_query_params t f ch c) = None"
  by (simp_all add: filter_to_query_params_def for_community_def Let_def split: prod.splits)

lemma query_limit [simp]:
  "eq_limit (filter_to_query_params t f ch c) =
     Some (case rf_limit f of Some l \<Rightarrow> min (as_i64 l) DEFAULT_MAX_PAGE_LIMIT | None \<Rightarrow> DEFAULT_MAX_PAGE_LIMIT)"
  by (simp add: filter_to_query_params_def for_community_def Let_def split: prod.splits)

lemma query_authors:
  "opt_is (eq_pubkey (filter_to_query_params t f ch c)) (\<lambda>k. pk = k) \<and>
   opt_is (eq_authors (filter_to_query_params t f ch c)) (\<lambda>as. as \<noteq> [] \<longrightarrow> pk \<in> set as) \<longleftrightarrow>
     is_none_or (f_authors f) (\<lambda>as. as \<noteq> [] \<longrightarrow> pk \<in> set as)"
  "empty_list (eq_authors (filter_to_query_params t f ch c)) \<longleftrightarrow> False"
  by (auto simp: filter_to_query_params_def for_community_def Let_def opt_is_def is_none_or_def empty_list_def
      split: prod.splits option.splits list.splits)

lemma query_d_tag:
  "d_tag_clause (filter_to_query_params t f ch c) r \<longleftrightarrow>
     (nip33_only f \<longrightarrow> is_none_or (get_tag f ''d'') (\<lambda>ds. ds \<noteq> [] \<longrightarrow> (\<exists>d\<in>set ds. er_d_tag r = Some d)))"
  by (auto simp: filter_to_query_params_def for_community_def Let_def opt_is_def is_none_or_def d_tag_clause_def
      split: prod.splits option.splits list.splits if_splits)

section \<open>Each clause\<close>

lemma as_i64_small: "n < 2 ^ 63 \<Longrightarrow> as_i64 n = int n"
  by (simp add: as_i64_def signed_of_nat signed_take_bit_int_eq_self_iff)

lemma since_clause:
  "timely t (f_since f) \<Longrightarrow> er_created_at r = int (ev_created_at (er_event r)) \<Longrightarrow>
     opt_is (in_range t (f_since f)) (\<lambda>s. s \<le> er_created_at r) \<longleftrightarrow>
     is_none_or (f_since f) (\<lambda>s. s \<le> ev_created_at (er_event r))"
  by (auto simp: timely_def in_range_def opt_is_def is_none_or_def as_i64_small split: option.splits)

lemma until_plain:
  "timely t (f_until f) \<Longrightarrow> er_created_at r = int (ev_created_at (er_event r)) \<Longrightarrow>
     opt_is (in_range t (f_until f)) (\<lambda>u. er_created_at r \<le> u) \<longleftrightarrow>
     is_none_or (f_until f) (\<lambda>u. ev_created_at (er_event r) \<le> u)"
  by (auto simp: timely_def in_range_def opt_is_def is_none_or_def as_i64_small split: option.splits)

lemma kind_i32_uint: "event_kind_i32 ev = uint (ev_kind ev)"
  by (simp add: event_kind_i32_eq)

lemma kinds_clause:
  "f_kinds f = Some ks \<Longrightarrow> event_kind_i32 ev \<in> set (map uint ks) \<longleftrightarrow> ev_kind ev \<in> set ks"
  by (auto simp: kind_i32_uint word_uint_eq_iff [symmetric])

lemma ids_clause:
  assumes "is_none_or (f_ids f) (\<lambda>ids. ids \<noteq> [] \<and> list_all (\<lambda>i. length i = 64) ids)" "length (ev_id ev) = 64"
  shows "opt_is (non_empty (f_ids f)) (\<lambda>ids. ids \<noteq> [] \<longrightarrow> ev_id ev \<in> set ids) \<longleftrightarrow>
     is_none_or (f_ids f) (\<lambda>ids. \<exists>i\<in>set ids. starts_with (ev_id ev) i)"
proof (cases "f_ids f")
  case (Some ids)
  then have "i \<in> set ids \<Longrightarrow> starts_with (ev_id ev) i \<longleftrightarrow> ev_id ev = i" for i
    using assms by (auto simp: is_none_or_def starts_with_def list_all_iff)
  then show ?thesis using assms Some
    by (cases ids) (auto simp: is_none_or_def opt_is_def non_empty_def)
qed (simp add: opt_is_def is_none_or_def non_empty_def)

lemma plain_tag_slice:
  "plain_tag t \<Longrightarrow> tag_kind t = k \<and> tag_content t = Some v \<longleftrightarrow> (\<exists>rest. tag_slice t = k # v # rest)"
  by (cases "tag_slice t"; cases "tl (tag_slice t)") (auto simp: plain_tag_def)

lemma plain_values:
  "list_all plain_tag (ev_tags ev) \<Longrightarrow>
     tag_value_set ev k = {v. \<exists>t\<in>set (ev_tags ev). \<exists>rest. tag_slice t = k # v # rest}"
  using plain_tag_slice by (auto simp: tag_value_set_def set_tag_values list_all_iff)

lemma e_clause:
  assumes "plain_row ms es r" "set vs \<subseteq> set es" "vs \<noteq> []"
  shows "(\<exists>e\<in>set vs. tags_contain (er_event r) ''e'' e) \<longleftrightarrow>
     (\<exists>v\<in>set vs. v \<in> tag_value_set (er_event r) ''e'')"
proof -
  have w: "list_all plain_tag (ev_tags (er_event r))"
    and e: "\<forall>t\<in>set (ev_tags (er_event r)). \<forall>e\<in>set es. {''e'', e} \<subseteq> set (tag_slice t) \<longrightarrow>
      tag_kind t = ''e'' \<and> tag_content t = Some e"
    using assms(1) by (simp_all add: plain_row_def Let_def list_all_iff)
  have "tags_contain (er_event r) ''e'' e \<longleftrightarrow> e \<in> tag_value_set (er_event r) ''e''" if "e \<in> set es" for e
  proof
    assume "tags_contain (er_event r) ''e'' e"
    then obtain t where "t \<in> set (ev_tags (er_event r))" "{''e'', e} \<subseteq> set (tag_slice t)"
      by (auto simp: tags_contain_def list_ex_iff)
    then show "e \<in> tag_value_set (er_event r) ''e''"
      using bspec [OF bspec [OF e] that] by (auto simp: tag_value_set_def set_tag_values)
  next
    assume "e \<in> tag_value_set (er_event r) ''e''"
    then obtain t rest where "t \<in> set (ev_tags (er_event r))" "tag_slice t = ''e'' # e # rest"
      using plain_values [OF w] by auto
    then show "tags_contain (er_event r) ''e'' e"
      by (force simp: tags_contain_def list_ex_iff)
  qed
  then show ?thesis using assms(2) by blast
qed

lemma slice_value:
  "(case xs of k # v # _ \<Rightarrow> if k = key then Some v else None | _ \<Rightarrow> None) = Some y \<longleftrightarrow>
     (\<exists>rest. xs = key # y # rest)"
  by (cases xs; cases "tl xs") auto

lemma p_tag_values_set:
  "list_all plain_tag (ev_tags ev) \<Longrightarrow> set (p_tag_values ev) = tag_value_set ev ''p''"
  by (simp add: plain_values p_tag_values_def set_map_filter slice_value)

lemma joined_plain:
  assumes r: "plain_row ms es r" and c: "er_community r = eq_community_id q"
  shows "joined q ms r = (case eq_p_tag_hex q of None \<Rightarrow> [r]
     | Some p \<Rightarrow> if valid_mention (to_ascii_lowercase p) \<and> to_ascii_lowercase p \<in> tag_value_set (er_event r) ''p''
         then [r] else [])"
proof (cases "eq_p_tag_hex q")
  case (Some p)
  let ?low = "to_ascii_lowercase p"
  let ?ks = "remdups (filter valid_mention (p_tag_values (er_event r)))"
  have m: "map mr_pubkey_hex (mentions_of ms (er_community r) (er_event r)) = ?ks"
    and w: "list_all plain_tag (ev_tags (er_event r))"
    using r by (simp_all add: plain_row_def Let_def)
  have "length (filter (\<lambda>x. mr_community x = eq_community_id q \<and> mr_event_id x = ev_id (er_event r) \<and>
      mr_pubkey_hex x = ?low) ms) = length (filter (\<lambda>k. k = ?low) ?ks)"
    unfolding m [symmetric] by (simp add: mentions_of_def c filter_map o_def conj_ac)
  also have "\<dots> = (if ?low \<in> set ?ks then 1 else 0)"
    using distinct_remdups [of "filter valid_mention (p_tag_values (er_event r))"]
    by (simp add: distinct_length_filter)
  finally show ?thesis
    using p_tag_values_set [OF w] Some
    by (auto simp: joined_def map_replicate_const split: if_splits)
qed (simp add: joined_def)

section \<open>A filter and its query\<close>

definition stored_of :: "event_row \<Rightarrow> stored_event" where
  "stored_of r = with_received_at (er_event r) (er_received_at r) (er_channel_id r) True"

lemma stored_of_simps [simp]: "se_event (stored_of r) = er_event r" "se_channel_id (stored_of r) = er_channel_id r"
  by (simp_all add: stored_of_def with_received_at_def)

lemma plain_row_stored: "plain_row ms es r \<Longrightarrow> row_to_stored_event r = Some (stored_of r)"
  by (simp add: plain_row_def Let_def row_to_stored_event_def stored_of_def)

lemma match_parts:
  assumes "keys_distinct (f_generic_tags f)"
  shows "filter_match_one (base_filter f) (stored_of r) \<longleftrightarrow>
     is_none_or (f_kinds f) (\<lambda>ks. ev_kind (er_event r) \<in> set ks) \<and>
     is_none_or (f_authors f) (\<lambda>as. ev_pubkey (er_event r) \<in> set as) \<and>
     is_none_or (f_since f) (\<lambda>s. s \<le> ev_created_at (er_event r)) \<and>
     is_none_or (f_until f) (\<lambda>u. ev_created_at (er_event r) \<le> u) \<and>
     is_none_or (f_ids f) (\<lambda>ids. \<exists>i\<in>set ids. starts_with (ev_id (er_event r)) i) \<and>
     (\<forall>k vs. get_tag f k = Some vs \<longrightarrow> generic_tag_ok (stored_of r) (k, vs))"
  using assms by (auto simp: filter_match_one_iff is_none_or_def get_tag_def split: option.splits)

lemma tag_ok_value: "k \<noteq> ''h'' \<Longrightarrow> generic_tag_ok (stored_of r) (k, vs) \<longleftrightarrow> (\<exists>v\<in>set vs. v \<in> tag_value_set (er_event r) k)"
  by (simp add: generic_tag_ok_iff tag_value_set_def)

lemma tag_ok_h:
  assumes "plain_row ms es r"
  shows "generic_tag_ok (stored_of r) (''h'', [v]) \<longleftrightarrow> er_channel_id r = Some v"
proof -
  have h: "\<forall>t\<in>set (ev_tags (er_event r)). tag_kind t = ''h'' \<longrightarrow>
      tag_content t \<noteq> None \<and> tag_content t = er_channel_id r"
    using assms unfolding plain_row_def Let_def list_all_iff by (elim conjE)
  show ?thesis
  proof (cases "\<exists>t\<in>set (ev_tags (er_event r)). tag_kind t = ''h''")
    case True
    then show ?thesis using h by (auto simp: generic_tag_ok_iff set_tag_values)
  qed (auto simp: generic_tag_ok_iff set_tag_values)
qed

lemma tag_ok_d:
  assumes "plain_row ms es r" "nip33_only f" "is_none_or (f_kinds f) (\<lambda>ks. ev_kind (er_event r) \<in> set ks)"
  shows "generic_tag_ok (stored_of r) (''d'', ds) \<longleftrightarrow> (\<exists>d\<in>set ds. er_d_tag r = Some d)"
proof -
  have "is_parameterized_replaceable (event_kind_u32 (er_event r))"
    using assms(2,3) by (auto simp: nip33_only_def is_some_and_def is_none_or_def list_all_iff k32_event [symmetric]
        split: option.splits)
  then obtain d where "tag_value_set (er_event r) ''d'' = {d}" "er_d_tag r = Some d"
    using assms(1) by (auto simp: plain_row_def Let_def is_some_and_def split: option.splits)
  then show ?thesis by (simp add: tag_ok_value)
qed

lemma plain_filter_values:
  assumes "plain_filter parse t f" "get_tag f k = Some vs"
  shows "vs \<noteq> []" "k = ''h'' \<Longrightarrow> \<exists>v. vs = [v] \<and> parse v = Some v"
    "k = ''p'' \<Longrightarrow> vs = [v] \<Longrightarrow> valid_mention v \<and> to_ascii_lowercase v = v"
proof -
  have "(k, vs) \<in> set (f_generic_tags f)" using assms(2) by (simp add: get_tag_def map_of_SomeD)
  then show "vs \<noteq> []" using assms(1) by (auto simp: plain_filter_def list_all_iff)
  show "k = ''h'' \<Longrightarrow> \<exists>v. vs = [v] \<and> parse v = Some v"
    using assms by (auto simp: plain_filter_def is_none_or_def length_Suc_conv)
  show "k = ''p'' \<Longrightarrow> vs = [v] \<Longrightarrow> valid_mention v \<and> to_ascii_lowercase v = v"
    using assms by (auto simp: plain_filter_def is_none_or_def)
qed

text \<open>The conditions of the query of a plain filter, read on a plain row.\<close>

definition query_holds :: "read_filter \<Rightarrow> event_row \<Rightarrow> bool" where
  "query_holds f r \<longleftrightarrow>
     is_none_or (f_kinds f) (\<lambda>ks. ks \<noteq> [] \<longrightarrow> ev_kind (er_event r) \<in> set ks) \<and>
     is_none_or (f_authors f) (\<lambda>as. ev_pubkey (er_event r) \<in> set as) \<and>
     is_none_or (f_since f) (\<lambda>s. s \<le> ev_created_at (er_event r)) \<and>
     is_none_or (f_until f) (\<lambda>u. ev_created_at (er_event r) \<le> u) \<and>
     is_none_or (f_ids f) (\<lambda>ids. \<exists>i\<in>set ids. starts_with (ev_id (er_event r)) i) \<and>
     is_none_or (get_tag f ''e'') (\<lambda>vs. \<exists>v\<in>set vs. v \<in> tag_value_set (er_event r) ''e'') \<and>
     (nip33_only f \<longrightarrow> is_none_or (get_tag f ''d'') (\<lambda>ds. \<exists>d\<in>set ds. er_d_tag r = Some d))"

definition scoped_query ::
  "(int \<Rightarrow> bool) \<Rightarrow> read_filter \<Rightarrow> uuid option \<Rightarrow> CommunityId \<Rightarrow> uuid list option \<Rightarrow> pubkey option \<Rightarrow> EventQuery" where
  "scoped_query t f ch c chs reader =
     (filter_to_query_params t f ch c)\<lparr>eq_channel_ids := chs, eq_shared_gated_reader := reader\<rparr>"

lemma scoped_query_fields [simp]:
  "eq_community_id (scoped_query t f ch c chs reader) = c"
  "eq_p_tag_hex (scoped_query t f ch c chs reader) = (case get_tag f ''p'' of Some [v] \<Rightarrow> Some v | _ \<Rightarrow> None)"
  "eq_kinds (scoped_query t f ch c chs reader) = map_option (map uint) (f_kinds f)"
  "eq_shared_gated_reader (scoped_query t f ch c chs reader) = reader"
  "eq_before_id (scoped_query t f ch c chs reader) = None"
  "eq_global_only (scoped_query t f ch c chs reader) = False"
  "eq_until (scoped_query t f ch c chs reader) = in_range t (f_until f)"
  by (simp_all add: scoped_query_def)

lemma scoped_channel_clause:
  "channel_clause (scoped_query t f ch c chs reader) r \<longleftrightarrow>
     is_none_or ch (\<lambda>x. er_channel_id r = Some x) \<and>
     is_none_or chs (\<lambda>l. is_none_or (er_channel_id r) (\<lambda>x. x \<in> set l))"
  by (auto simp: channel_clause_def scoped_query_def opt_is_def is_none_or_def split: option.splits)

lemma d_tag_clause_scoped:
  "d_tag_clause (scoped_query t f ch c chs reader) r \<longleftrightarrow> d_tag_clause (filter_to_query_params t f ch c) r"
  by (simp add: scoped_query_def d_tag_clause_def split: option.splits)

lemma opt_is_map: "opt_is (map_option g x) p \<longleftrightarrow> is_none_or x (\<lambda>a. p (g a))"
  by (simp add: opt_is_def is_none_or_def split: option.splits)

lemma is_none_or_cong: "(\<And>a. x = Some a \<Longrightarrow> p a = q a) \<Longrightarrow> is_none_or x p \<longleftrightarrow> is_none_or x q"
  by (simp add: is_none_or_def split: option.splits)

lemma scoped_clauses:
  assumes f: "plain_filter parse t f" and r: "plain_row ms (e_values f) r"
  shows "base_clauses (scoped_query t f ch c chs reader) r \<and>
      opt_is (in_range t (f_until f)) (\<lambda>u. er_created_at r \<le> u) \<longleftrightarrow>
    er_community r = c \<and> \<not> er_deleted r \<and> channel_clause (scoped_query t f ch c chs reader) r \<and> query_holds f r"
proof -
  let ?Q = "filter_to_query_params t f ch c" and ?ev = "er_event r"
  have at: "er_created_at r = int (ev_created_at ?ev)" and len: "length (ev_id ?ev) = 64"
    using r by (simp_all add: plain_row_def Let_def)
  have fs: "timely t (f_since f)" "timely t (f_until f)" "f_authors f \<noteq> Some []"
    "is_none_or (f_ids f) (\<lambda>ids. ids \<noteq> [] \<and> list_all (\<lambda>i. length i = 64) ids)"
    using f by (simp_all add: plain_filter_def)
  have k: "opt_is (eq_kinds ?Q) (\<lambda>ks. ks \<noteq> [] \<longrightarrow> event_kind_i32 ?ev \<in> set ks) \<longleftrightarrow>
      is_none_or (f_kinds f) (\<lambda>ks. ks \<noteq> [] \<longrightarrow> ev_kind ?ev \<in> set ks)"
    using kinds_clause [of f _ ?ev] by (simp add: opt_is_map cong: is_none_or_cong)
  have a: "is_none_or (f_authors f) (\<lambda>as. as \<noteq> [] \<longrightarrow> ev_pubkey ?ev \<in> set as) \<longleftrightarrow>
      is_none_or (f_authors f) (\<lambda>as. ev_pubkey ?ev \<in> set as)"
    using fs(3) by (auto simp: is_none_or_def split: option.splits)
  have e: "opt_is (eq_e_tags ?Q) (\<lambda>es. es \<noteq> [] \<longrightarrow> (\<exists>e\<in>set es. tags_contain ?ev ''e'' e)) \<longleftrightarrow>
      is_none_or (get_tag f ''e'') (\<lambda>vs. \<exists>v\<in>set vs. v \<in> tag_value_set ?ev ''e'')"
  proof (cases "get_tag f ''e''")
    case (Some vs)
    then have "vs \<noteq> []" "set vs \<subseteq> set (e_values f)" "eq_e_tags ?Q = Some vs"
      using plain_filter_values(1) [OF f Some] by (auto simp: e_values_def non_empty_def split: list.splits)
    then show ?thesis using e_clause [OF r] Some by (simp add: opt_is_def is_none_or_def)
  qed (simp add: opt_is_def is_none_or_def non_empty_def)
  have d: "d_tag_clause ?Q r \<longleftrightarrow>
      (nip33_only f \<longrightarrow> is_none_or (get_tag f ''d'') (\<lambda>ds. \<exists>d\<in>set ds. er_d_tag r = Some d))"
    using plain_filter_values(1) [OF f] by (auto simp: query_d_tag is_none_or_def split: option.splits)
  show ?thesis
    unfolding base_clauses_def d_tag_clause_scoped query_holds_def
    using k a e d since_clause [OF fs(1) at] until_plain [OF fs(2) at] ids_clause [OF fs(4) len]
      query_authors(1) [of t f ch c "ev_pubkey ?ev"]
    by (simp add: scoped_query_def) blast
qed

lemma joined_mem: "x \<in> set (joined q ms r) \<longleftrightarrow> x = r \<and> joined q ms r \<noteq> []"
  by (auto simp: joined_def filter_empty_conv split: option.splits)

lemma query_rows_scoped_set:
  assumes "plain_filter parse t f" "\<forall>r\<in>set (db_events db). er_community r = c \<longrightarrow> plain_row (db_mentions db) (e_values f) r"
  shows "r \<in> set (query_rows (scoped_query t f ch c chs reader) db) \<longleftrightarrow>
     r \<in> set (db_events db) \<and> er_community r = c \<and> \<not> er_deleted r \<and> query_holds f r \<and>
     channel_clause (scoped_query t f ch c chs reader) r \<and> shared_clause (scoped_query t f ch c chs reader) r \<and>
     joined (scoped_query t f ch c chs reader) (db_mentions db) r \<noteq> []"
proof -
  let ?q = "scoped_query t f ch c chs reader"
  have "r \<in> set (query_rows ?q db) \<longleftrightarrow> r \<in> set (db_events db) \<and> base_clauses ?q r \<and>
      opt_is (in_range t (f_until f)) (\<lambda>u. er_created_at r \<le> u) \<and> shared_clause ?q r \<and>
      joined ?q (db_mentions db) r \<noteq> []"
    by (auto simp: query_rows_def until_clause_def joined_mem)
  moreover have "base_clauses ?q r \<Longrightarrow> er_community r = c" by (simp add: base_clauses_def)
  ultimately show ?thesis using scoped_clauses [OF assms(1), of "db_mentions db" r ch c chs reader] assms(2) by blast
qed

lemma plain_row_lower: "plain_row ms es r \<Longrightarrow> to_ascii_lowercase (ev_pubkey (er_event r)) = ev_pubkey (er_event r)"
  by (simp add: plain_row_def Let_def)

lemma joined_scoped:
  assumes f: "plain_filter parse t f" and r: "plain_row ms es r" and c: "er_community r = c"
  shows "joined (scoped_query t f ch c chs reader) ms r =
     (if \<forall>v. get_tag f ''p'' = Some [v] \<longrightarrow> v \<in> tag_value_set (er_event r) ''p'' then [r] else [])"
proof (cases "\<exists>v. get_tag f ''p'' = Some [v]")
  case True
  then obtain v where v: "get_tag f ''p'' = Some [v]" by blast
  have "valid_mention v \<and> to_ascii_lowercase v = v" by (rule plain_filter_values(3) [OF f v]) simp_all
  then show ?thesis by (simp add: joined_plain [OF r] c v)
qed (auto simp: joined_plain [OF r] c split: option.splits list.splits)

lemma match_query:
  assumes f: "plain_filter parse t f" and r: "plain_row ms es r" and c: "er_community r = c"
    and m: "filter_match_one (base_filter f) (stored_of r)"
  shows "query_holds f r" "joined (scoped_query t f ch c chs reader) ms r = [r]"
    "get_tag f ''h'' = Some [v] \<Longrightarrow> er_channel_id r = Some v"
proof -
  have kd: "keys_distinct (f_generic_tags f)" using f by (simp add: plain_filter_def)
  have k: "is_none_or (f_kinds f) (\<lambda>ks. ev_kind (er_event r) \<in> set ks)"
    and tags: "\<And>k vs. get_tag f k = Some vs \<Longrightarrow> generic_tag_ok (stored_of r) (k, vs)"
    using m match_parts [OF kd] by blast+
  have e: "is_none_or (get_tag f ''e'') (\<lambda>vs. \<exists>v\<in>set vs. v \<in> tag_value_set (er_event r) ''e'')"
    using tags [of "''e''"] by (auto simp: is_none_or_def tag_ok_value split: option.splits)
  have d: "is_none_or (get_tag f ''d'') (\<lambda>ds. \<exists>d\<in>set ds. er_d_tag r = Some d)" if "nip33_only f"
    using tags [of "''d''"] tag_ok_d [OF r that k] by (auto simp: is_none_or_def split: option.splits)
  show "query_holds f r"
    using m e d unfolding match_parts [OF kd] query_holds_def
    by (auto simp: is_none_or_def split: option.splits)
  show "joined (scoped_query t f ch c chs reader) ms r = [r]"
    using tags [of "''p''"] by (auto simp: joined_scoped [OF f r c] tag_ok_value)
  show "er_channel_id r = Some v" if "get_tag f ''h'' = Some [v]"
    using tags [OF that] tag_ok_h [OF r] by simp
qed

lemma query_match:
  assumes f: "plain_filter parse t f" and r: "plain_row ms es r" and c: "er_community r = c"
    and push: "filter_fully_pushable f" and q: "query_holds f r" "joined (scoped_query t f ch c chs reader) ms r \<noteq> []"
    and h: "\<forall>v. get_tag f ''h'' = Some [v] \<longrightarrow> er_channel_id r = Some v"
  shows "filter_match_one (base_filter f) (stored_of r)"
proof -
  have kd: "keys_distinct (f_generic_tags f)" and ks: "f_kinds f \<noteq> Some []"
    using f by (simp_all add: plain_filter_def)
  have k: "is_none_or (f_kinds f) (\<lambda>ks. ev_kind (er_event r) \<in> set ks)"
    using q(1) ks by (auto simp: query_holds_def is_none_or_def split: option.splits)
  have "generic_tag_ok (stored_of r) (k, vs)" if g: "get_tag f k = Some vs" for k vs
  proof -
    have ne: "vs \<noteq> []" by (rule plain_filter_values(1) [OF f g])
    have "tag_pushable (nip33_only f) (k, vs)"
      using push g map_of_SomeD [of "f_generic_tags f" k vs]
      by (auto simp: filter_fully_pushable_def get_tag_def list_all_iff)
    then consider "k = ''h''" | v where "k = ''p''" "vs = [v]" | "k = ''d''" "nip33_only f" | "k = ''e''"
      using ne by (cases vs; cases "tl vs") (auto simp: tag_pushable_def split: if_splits)
    then show ?thesis
    proof cases
      case 1
      then obtain v where "vs = [v]" using plain_filter_values(2) [OF f g] by blast
      then show ?thesis using 1 g h tag_ok_h [OF r] by simp
    next
      case 2
      then show ?thesis using q(2) g by (auto simp: joined_scoped [OF f r c] tag_ok_value split: if_splits)
    next
      case 3
      then show ?thesis using q(1) g tag_ok_d [OF r 3(2) k] by (simp add: query_holds_def is_none_or_def)
    next
      case 4
      then show ?thesis using q(1) g by (simp add: query_holds_def is_none_or_def tag_ok_value)
    qed
  qed
  then show ?thesis using q(1) k unfolding match_parts [OF kd] query_holds_def by blast
qed

text \<open>The shared clause loses no event the reader may see.\<close>

lemma visible_shared:
  assumes "event_visible_to_reader (er_event r) pk" "eq_shared_gated_reader q \<in> {None, Some pk}"
  shows "shared_clause q r"
proof -
  have "tags_contain (er_event r) ''shared'' ''true''" if "event_is_shared (er_event r)"
  proof -
    have "[''shared'', ''true''] \<in> set (shared_claims (ev_tags (er_event r)))"
      using that by (simp add: event_is_shared_iff)
    then obtain t where "t \<in> set (ev_tags (er_event r))" "tag_slice t = [''shared'', ''true'']"
      by (auto simp: shared_claims_def)
    then show ?thesis unfolding tags_contain_def list_ex_iff by (intro bexI [of _ t]) simp_all
  qed
  moreover have "event_kind_i32 (er_event r) \<in> (\<lambda>k. sint k) ` set SHARED_GATED_KINDS \<Longrightarrow>
      event_kind_u32 (er_event r) \<in> set SHARED_GATED_KINDS"
    by (auto simp: event_kind_i32_def event_kind_u32_def dest!: signed_word_eqI)
  ultimately show ?thesis
    using assms by (auto simp: shared_clause_def opt_is_def event_visible_iff split: option.splits)
qed

text \<open>On the fast path of a count every matching event is visible to the reader.\<close>

lemma fast_path_visible:
  assumes fast: "count_fast_path f pk" and m: "filter_match_one (base_filter f) (stored_of r)"
    and r: "plain_row ms es r" and pk: "to_ascii_lowercase pk = pk"
  shows "event_visible_to_reader (er_event r) pk"
proof -
  let ?k = "event_kind_u32 (er_event r)"
  have k: "is_none_or (f_kinds f) (\<lambda>ks. ev_kind (er_event r) \<in> set ks)" using match_kind [OF m] by simp
  have can: "filter_can_match ks f" if "?k \<in> set ks" for ks
    using k that by (auto simp: filter_can_match_def is_none_or_def list_ex_iff k32_event [symmetric] split: option.splits)
  have "ev_pubkey (er_event r) = pk" if "?k \<in> set AUTHOR_ONLY_KINDS"
  proof -
    have "authors_are_self f pk"
      using fast can [OF that] by (simp add: count_fast_path_def filter_can_match_author_only_kinds_def Let_def)
    from match_authors_self [OF m this] show ?thesis
      using plain_row_lower [OF r] pk by (simp add: eq_ignore_ascii_case_def)
  qed
  moreover have "?k \<notin> set SHARED_GATED_KINDS"
    using fast can [of SHARED_GATED_KINDS]
    by (auto simp: count_fast_path_def filter_can_match_shared_gated_kinds_def Let_def)
  moreover have "reader_authorized_for_event (er_event r) pk"
  proof (cases "?k \<in> {KIND_DM_VISIBILITY, KIND_AGENT_TURN_METRIC}")
    case True
    then have "?k \<in> set RESULT_GATED_KINDS" by (auto simp: RESULT_GATED_KINDS_def)
    then have "p_is_self f pk"
      using fast can [of RESULT_GATED_KINDS]
      by (auto simp: count_fast_path_def filter_can_match_result_gated_kinds_def
          result_gated_count_safe_for_pushdown_def Let_def)
    then show ?thesis using match_p_self [OF m] by (simp add: reader_gate_iff)
  qed (simp add: reader_gate_iff)
  ultimately show ?thesis
    by (simp add: event_visible_to_reader_def is_author_only_event_def is_unshared_gated_event_def is_shared_gated_kind_def)
qed

section \<open>Counts\<close>

text \<open>The rows a reader may count under a filter: what the count of the filter should be.\<close>

definition countable :: "CommunityId \<Rightarrow> pubkey \<Rightarrow> uuid option \<Rightarrow> uuid list \<Rightarrow> read_filter \<Rightarrow> event_row \<Rightarrow> bool" where
  "countable c pk ch accessible f r \<longleftrightarrow>
     er_community r = c \<and> \<not> er_deleted r \<and> filter_match_one (base_filter f) (stored_of r) \<and>
     (ch = None \<longrightarrow> is_none_or (er_channel_id r) (\<lambda>x. x \<in> set accessible)) \<and>
     event_visible_to_reader (er_event r) pk"

text \<open>The community's rows are as the store writes them for events with ordinary tags.\<close>

definition plain_store :: "CommunityId \<Rightarrow> read_filter \<Rightarrow> event_db \<Rightarrow> bool" where
  "plain_store c f db \<longleftrightarrow>
     list_all (\<lambda>r. er_community r = c \<longrightarrow> plain_row (db_mentions db) (e_values f) r) (db_events db)"

lemma plain_storeD: "plain_store c f db \<Longrightarrow> r \<in> set (db_events db) \<Longrightarrow> er_community r = c \<Longrightarrow>
    plain_row (db_mentions db) (e_values f) r"
  by (simp add: plain_store_def list_all_iff)

lemma h_values_get:
  assumes "keys_distinct (f_generic_tags f)"
  shows "h_values f = (case get_tag f ''h'' of Some vs \<Rightarrow> vs | None \<Rightarrow> [])"
proof -
  have "concat (map (\<lambda>kv. if fst kv = k then snd kv else []) xs) = (case map_of xs k of Some vs \<Rightarrow> vs | None \<Rightarrow> [])"
    if "keys_distinct xs" for xs :: "(string \<times> string list) list" and k
    using that
  proof (induction xs)
    case (Cons x xs)
    then have "fst x = k \<Longrightarrow> map_of xs k = None" by (auto simp: map_of_eq_None_iff)
    then show ?case using Cons by (cases x) auto
  qed simp
  then show ?thesis using assms by (simp add: h_values_def get_tag_def)
qed

lemma channel_of_filter:
  assumes f: "plain_filter parse t f"
  shows "extract_channel_from_filter parse f = (case get_tag f ''h'' of Some vs \<Rightarrow> Some (hd vs) | None \<Rightarrow> None)"
    "extract_channel_id_from_filter parse f = extract_channel_from_filter parse f"
proof -
  have kd: "keys_distinct (f_generic_tags f)" using f by (simp add: plain_filter_def)
  have "\<exists>v. vs = [v] \<and> parse v = Some v" if "get_tag f ''h'' = Some vs" for vs
    by (rule plain_filter_values(2) [OF f that]) simp
  then show "extract_channel_from_filter parse f = (case get_tag f ''h'' of Some vs \<Rightarrow> Some (hd vs) | None \<Rightarrow> None)"
    "extract_channel_id_from_filter parse f = extract_channel_from_filter parse f"
    by (fastforce simp: extract_channel_from_filter_def extract_channel_id_from_filter_def h_values_get [OF kd]
        split: option.splits)+
qed

lemma scoped_restore: "(filter_to_query_params t f ch c)\<lparr>eq_channel_ids := None, eq_shared_gated_reader := reader\<rparr> =
    (filter_to_query_params t f ch c)\<lparr>eq_shared_gated_reader := reader\<rparr>"
  "(filter_to_query_params t f ch c)\<lparr>eq_channel_ids := chs, eq_shared_gated_reader := None\<rparr> =
    (filter_to_query_params t f ch c)\<lparr>eq_channel_ids := chs\<rparr>"
proof -
  let ?Q = "filter_to_query_params t f ch c"
  have "?Q\<lparr>eq_channel_ids := eq_channel_ids ?Q\<rparr> = ?Q" by (cases ?Q) simp
  then show "?Q\<lparr>eq_channel_ids := None, eq_shared_gated_reader := reader\<rparr> = ?Q\<lparr>eq_shared_gated_reader := reader\<rparr>"
    by simp
  have "?Q\<lparr>eq_channel_ids := chs, eq_shared_gated_reader := eq_shared_gated_reader ?Q\<rparr> = ?Q\<lparr>eq_channel_ids := chs\<rparr>"
    by (cases ?Q) simp
  then show "?Q\<lparr>eq_channel_ids := chs, eq_shared_gated_reader := None\<rparr> = ?Q\<lparr>eq_channel_ids := chs\<rparr>"
    by simp
qed

definition reader_of :: "read_filter \<Rightarrow> pubkey \<Rightarrow> pubkey option" where
  "reader_of f pk = (if filter_can_match_shared_gated_kinds f then Some pk else None)"

definition scope_of :: "uuid option \<Rightarrow> uuid list \<Rightarrow> uuid list option" where
  "scope_of ch accessible = (if ch = None then Some accessible else None)"

lemma count_query_scoped:
  assumes "plain_filter (en_parse_uuid env) (en_timestamp_ok env) f" "ch = extract_channel_from_filter (en_parse_uuid env) f"
  shows "count_query env c pk ch acc f =
     scoped_query (en_timestamp_ok env) f ch c (scope_of ch acc) (reader_of f pk)"
  using channel_of_filter(2) [OF assms(1)] assms(2)
  by (cases "ch = None"; cases "filter_can_match_shared_gated_kinds f")
    (simp_all add: count_query_def build_event_query_from_filter_def scoped_query_def scope_of_def reader_of_def
      scoped_restore Let_def)

lemma map_filter_all: "(\<And>x. x \<in> set xs \<Longrightarrow> g x = Some (h x)) \<Longrightarrow> List.map_filter g xs = map h xs"
  by (induction xs) (simp_all add: map_filter_simps)

lemma concat_joined:
  "(\<And>r. r \<in> set rows \<Longrightarrow> p r \<Longrightarrow> j r = (if b r then [r] else [])) \<Longrightarrow>
     concat (map j (filter p rows)) = filter (\<lambda>r. p r \<and> b r) rows"
  by (induction rows) auto

lemma length_filter_newest [simp]: "length (filter p (newest_first rows)) = length (filter p rows)"
  by (simp add: newest_first_def filter_sort)

lemma length_newest [simp]: "length (newest_first rows) = length rows"
  by (simp add: newest_first_def)

definition p_joined :: "read_filter \<Rightarrow> event_row \<Rightarrow> bool" where
  "p_joined f r \<longleftrightarrow> (\<forall>v. get_tag f ''p'' = Some [v] \<longrightarrow> v \<in> tag_value_set (er_event r) ''p'')"

text \<open>The rows of the two statements, without the join.\<close>

lemma scoped_rows:
  assumes f: "plain_filter parse t f" and db: "plain_store c f db"
  shows "concat (map (joined (scoped_query t f ch c chs reader) (db_mentions db))
      (filter (\<lambda>r. base_clauses (scoped_query t f ch c chs reader) r \<and>
         opt_is (in_range t (f_until f)) (\<lambda>u. er_created_at r \<le> u) \<and> x r) (db_events db))) =
    filter (\<lambda>r. (er_community r = c \<and> \<not> er_deleted r \<and> channel_clause (scoped_query t f ch c chs reader) r \<and>
      query_holds f r) \<and> x r \<and> p_joined f r) (db_events db)"
proof -
  let ?q = "scoped_query t f ch c chs reader"
  let ?b = "\<lambda>r. base_clauses ?q r \<and> opt_is (in_range t (f_until f)) (\<lambda>u. er_created_at r \<le> u)"
  have com: "?b r \<Longrightarrow> er_community r = c" for r by (simp add: base_clauses_def)
  have b: "?b r \<longleftrightarrow> er_community r = c \<and> \<not> er_deleted r \<and> channel_clause ?q r \<and> query_holds f r"
    if "r \<in> set (db_events db)" for r
    using scoped_clauses [OF f plain_storeD [OF db that], of ch c chs reader] com by blast
  have "concat (map (joined ?q (db_mentions db)) (filter (\<lambda>r. ?b r \<and> x r) (db_events db))) =
      filter (\<lambda>r. (?b r \<and> x r) \<and> p_joined f r) (db_events db)"
    using com joined_scoped [OF f plain_storeD [OF db]]
    by (intro concat_joined) (simp add: p_joined_def)
  also have "\<dots> = filter (\<lambda>r. (er_community r = c \<and> \<not> er_deleted r \<and> channel_clause ?q r \<and> query_holds f r) \<and>
      x r \<and> p_joined f r) (db_events db)"
    using b by (intro filter_cong) auto
  finally show ?thesis by (simp add: conj_assoc)
qed

lemma scoped_matches_something: "plain_filter parse t f \<Longrightarrow> \<not> matches_nothing (scoped_query t f ch c chs reader)"
  using query_authors(2) [of t f ch c]
  by (auto simp: matches_nothing_def scoped_query_def empty_list_def plain_filter_def non_empty_def
      split: option.splits list.splits)

text \<open>A countable row lies in the channel its filter names, and is one of the query's.\<close>

lemma countable_channel:
  assumes f: "plain_filter parse t f" and db: "plain_store c f db" and r: "r \<in> set (db_events db)"
    and ch: "ch = extract_channel_from_filter parse f" and n: "countable c pk ch acc f r"
  shows "is_none_or ch (\<lambda>x. er_channel_id r = Some x)"
proof (cases "get_tag f ''h''")
  case (Some vs)
  have c: "er_community r = c" and m: "filter_match_one (base_filter f) (stored_of r)"
    using n by (simp_all add: countable_def)
  obtain v where vs: "vs = [v]" using plain_filter_values(2) [OF f Some] by blast
  then show ?thesis using match_query(3) [OF f plain_storeD [OF db r c] c m] Some
    by (simp add: ch channel_of_filter(1) [OF f] is_none_or_def)
qed (simp add: ch channel_of_filter(1) [OF f] is_none_or_def)

lemma countable_in_query:
  assumes f: "plain_filter parse t f" and db: "plain_store c f db" and r: "r \<in> set (db_events db)"
    and ch: "is_none_or ch (\<lambda>x. er_channel_id r = Some x)" and n: "countable c pk ch acc f r"
  shows "er_community r = c \<and> \<not> er_deleted r \<and>
    channel_clause (scoped_query t f ch c (scope_of ch acc) (reader_of f pk)) r \<and> query_holds f r \<and>
    shared_clause (scoped_query t f ch c (scope_of ch acc) (reader_of f pk)) r \<and> p_joined f r"
proof -
  have c: "er_community r = c" and d: "\<not> er_deleted r" and m: "filter_match_one (base_filter f) (stored_of r)"
    and s: "ch = None \<longrightarrow> is_none_or (er_channel_id r) (\<lambda>x. x \<in> set acc)"
    and v: "event_visible_to_reader (er_event r) pk"
    using n by (simp_all add: countable_def)
  note pr = plain_storeD [OF db r c]
  have "p_joined f r"
    using match_query(2) [OF f pr c m] by (auto simp: p_joined_def joined_scoped [OF f pr c] split: if_splits)
  moreover have "shared_clause (scoped_query t f ch c (scope_of ch acc) (reader_of f pk)) r"
    by (rule visible_shared [OF v]) (simp add: reader_of_def)
  ultimately show ?thesis
    using c d s ch match_query(1) [OF f pr c m]
    by (simp add: scoped_channel_clause scope_of_def) (simp add: is_none_or_def)
qed

lemma query_rows_limit: "query_rows (q\<lparr>eq_limit := l, eq_max_limit := m\<rparr>) db = query_rows q db"
  by (cases q) (simp add: query_rows_def joined_def [abs_def] base_clauses_def until_clause_def shared_clause_def
      channel_clause_def d_tag_clause_def cong: option.case_cong)

text \<open>
  C19. A count is exact: for a filter in the ordinary form, on rows as the store writes them, the count of a
  filter is the number of live rows of the community that match it, lie in its channel scope and are
  visible to the reader, whether it is taken in SQL or by fetching the candidates; the only other
  answer is the refusal of more than 5000 candidates, and never on the fast path.
\<close>

theorem count_filter_exact:
  assumes f: "plain_filter (en_parse_uuid env) (en_timestamp_ok env) f" and db: "plain_store c f (en_db env)"
    and pk: "to_ascii_lowercase pk = pk" and up: "en_up env n"
    and ch: "ch = extract_channel_from_filter (en_parse_uuid env) f"
  shows "count_filter env n pk (count_query env c pk ch acc f) f =
     (if count_fast_path f pk \<or> length (query_rows (count_query env c pk ch acc f) (en_db env)) \<le> 5000
      then Ok (length (filter (countable c pk ch acc f) (db_events (en_db env))))
      else Err ''restricted: count filter requires narrower constraints'')"
proof -
  let ?t = "en_timestamp_ok env" and ?db = "en_db env"
  let ?q = "scoped_query ?t f ch c (scope_of ch acc) (reader_of f pk)"
  let ?in = "\<lambda>r. er_community r = c \<and> \<not> er_deleted r \<and> channel_clause ?q r \<and> query_holds f r"
  note q = count_query_scoped [OF f ch, of c pk acc]
  note some = scoped_matches_something [OF f, of ch c "scope_of ch acc" "reader_of f pk"]
  have rows: "query_rows ?q ?db = newest_first (filter (\<lambda>r. ?in r \<and> shared_clause ?q r \<and> p_joined f r) (db_events ?db))"
    using scoped_rows [OF f db, of ch "scope_of ch acc" "reader_of f pk" "shared_clause ?q"]
    by (simp add: query_rows_def until_clause_def)
  have sub: "?in r \<and> shared_clause ?q r \<and> p_joined f r" if "r \<in> set (db_events ?db)" "countable c pk ch acc f r" for r
    using countable_in_query [OF f db that(1) countable_channel [OF f db that(1) ch that(2)] that(2)] by blast
  show ?thesis
  proof (cases "count_fast_path f pk")
    case fast: True
    have eq: "?in r \<and> p_joined f r \<longleftrightarrow> countable c pk ch acc f r" if r: "r \<in> set (db_events ?db)" for r
    proof
      assume i: "?in r \<and> p_joined f r"
      then have c: "er_community r = c" by simp
      note pr = plain_storeD [OF db r c]
      have push: "filter_fully_pushable f" using fast by (simp add: count_fast_path_def Let_def)
      have h: "\<forall>v. get_tag f ''h'' = Some [v] \<longrightarrow> er_channel_id r = Some v"
        using i by (auto simp: scoped_channel_clause ch channel_of_filter(1) [OF f] is_none_or_def)
      have "joined ?q (db_mentions ?db) r \<noteq> []"
        using i joined_scoped [OF f pr c] by (simp add: p_joined_def)
      then have m: "filter_match_one (base_filter f) (stored_of r)"
        using query_match [OF f pr c push _ _ h] i by blast
      show "countable c pk ch acc f r"
        using i m fast_path_visible [OF fast m pr pk]
        by (auto simp: countable_def scoped_channel_clause scope_of_def is_none_or_def)
    qed (use sub [OF r] in blast)
    then have fe: "filter (\<lambda>r. ?in r \<and> p_joined f r) (db_events ?db) = filter (countable c pk ch acc f) (db_events ?db)"
      by (intro filter_cong) auto
    have "count_events ?db ?q = Ok (length (filter (countable c pk ch acc f) (db_events ?db)))"
      using scoped_rows [OF f db, of ch "scope_of ch acc" "reader_of f pk" "\<lambda>_. True"] some fe
      by (simp add: count_events_def conj_assoc)
    then show ?thesis using fast up by (simp add: count_filter_def q count_routed_def)
  next
    case False
    let ?p = "\<lambda>s. filters_match [base_filter f] s \<and> event_visible_to_reader (se_event s) pk"
    let ?l = "apply_count_fallback_limit ?q"
    have "?l = ?q\<lparr>eq_limit := Some 5001, eq_max_limit := Some 5001\<rparr>"
      by (simp add: apply_count_fallback_limit_def COUNT_FALLBACK_CANDIDATE_LIMIT_def)
    then have "query_rows ?l ?db = query_rows ?q ?db" "\<not> matches_nothing ?l" "eq_offset ?l = None"
        "eq_limit ?l = Some 5001" "eq_max_limit ?l = Some 5001" "eq_before_id ?l = None" "eq_global_only ?l = False"
      using some by (simp_all add: query_rows_limit matches_nothing_def scoped_query_def)
    then have ev: "query_events ?db ?l = Ok (List.map_filter row_to_stored_event (take 5001 (query_rows ?q ?db)))"
      by (simp add: query_events_def)
    have st: "row_to_stored_event r = Some (stored_of r)" if "r \<in> set (query_rows ?q ?db)" for r
      using that rows plain_row_stored plain_storeD [OF db] by auto
    have mf: "List.map_filter row_to_stored_event (take n (query_rows ?q ?db)) = map stored_of (take n (query_rows ?q ?db))" for n
      by (rule map_filter_all) (blast intro: st dest: in_set_takeD)
    have "length (filter ?p (map stored_of (query_rows ?q ?db))) = length (filter (countable c pk ch acc f) (db_events ?db))"
    proof -
      have "?in r \<and> shared_clause ?q r \<and> p_joined f r \<and> ?p (stored_of r) \<longleftrightarrow> countable c pk ch acc f r"
        if "r \<in> set (db_events ?db)" for r
        using sub [OF that]
        by (auto simp: countable_def filters_match_iff scoped_channel_clause scope_of_def is_none_or_def)
      then show ?thesis
        by (simp add: rows filter_map o_def conj_assoc cong: filter_cong)
    qed
    then show ?thesis
      using False up by (auto simp: count_filter_def q query_routed_def ev mf count_fallback_exceeded_def
          COUNT_FALLBACK_CANDIDATE_LIMIT_def)
  qed
qed

section \<open>History\<close>

lemma historical_query_scoped:
  "historical_query env c pk ch acc f =
     (let p = per_filter_channel (en_parse_uuid env) ch f
      in scoped_query (en_timestamp_ok env) f p c (scope_of p acc) (reader_of f pk))"
  by (simp add: historical_query_def apply_access_scope_to_query_def scoped_query_def scope_of_def reader_of_def
      scoped_restore Let_def)

text \<open>Everything a filter's query gives fits in its limit.\<close>

definition within_limit :: "read_env \<Rightarrow> CommunityId \<Rightarrow> pubkey \<Rightarrow> uuid option \<Rightarrow> uuid list \<Rightarrow> read_filter \<Rightarrow> bool" where
  "within_limit env c pk ch acc f \<longleftrightarrow>
     (let q = historical_query env c pk ch acc f
      in is_none_or (eq_limit q) (\<lambda>l. int (length (query_rows q (en_db env))) \<le> l))"

lemma history_rows:
  assumes f: "plain_filter (en_parse_uuid env) (en_timestamp_ok env) f" and db: "plain_store c f (en_db env)"
    and fits: "within_limit env c pk ch acc f" and up: "en_up env n"
  shows "query_routed env n (historical_query env c pk ch acc f) =
     Ok (map stored_of (query_rows (historical_query env c pk ch acc f) (en_db env)))"
proof -
  let ?t = "en_timestamp_ok env" and ?p = "per_filter_channel (en_parse_uuid env) ch f"
  let ?q = "scoped_query ?t f ?p c (scope_of ?p acc) (reader_of f pk)"
  have q: "historical_query env c pk ch acc f = ?q" by (simp add: historical_query_scoped Let_def)
  obtain l where l: "eq_limit ?q = Some l" "l \<le> DEFAULT_MAX_PAGE_LIMIT"
    by (auto simp: scoped_query_def split: option.splits)
  then have n: "int (length (query_rows ?q (en_db env))) \<le> l"
    using fits by (simp add: within_limit_def q is_none_or_def)
  have st: "row_to_stored_event r = Some (stored_of r)" if "r \<in> set (query_rows ?q (en_db env))" for r
    using that query_rows_set plain_row_stored plain_storeD [OF db] by (fastforce simp: base_clauses_def)
  have "query_events (en_db env) ?q = Ok (List.map_filter row_to_stored_event (query_rows ?q (en_db env)))"
    using scoped_matches_something [OF f] l n
    by (simp add: query_events_def min_absorb1 scoped_query_def)
  then show ?thesis using up map_filter_all [OF st] by (simp add: q query_routed_def)
qed

lemma deliver_rows_ids:
  "\<exists>sent'. deliver_rows pk acc (\<lambda>_. True) f rows sent = (False, sent') \<and>
     ev_id ` set sent' = ev_id ` set sent \<union> {ev_id (se_event s) | s. s \<in> set rows \<and> row_accepted pk acc f s}"
proof (induction rows arbitrary: sent)
  case (Cons s rows)
  show ?case
  proof (cases "row_accepted pk acc f s \<and> ev_id (se_event s) \<notin> ev_id ` set sent")
    case True
    then show ?thesis using Cons.IH [of "sent @ [se_event s]"] by auto
  next
    case False
    then show ?thesis using Cons.IH [of sent] by auto
  qed
qed simp

lemma deliver_filters_ids:
  assumes "\<And>n f. f \<in> set fs \<Longrightarrow> query_routed env n (historical_query env c pk ch acc f) = Ok (rows f)"
  shows "\<exists>sent'. deliver_filters env c pk ch acc (\<lambda>_. True) n fs sent = (True, sent') \<and>
     ev_id ` set sent' = ev_id ` set sent \<union>
       {ev_id (se_event s) | s f. f \<in> set fs \<and> s \<in> set (rows f) \<and> row_accepted pk acc f s}"
  using assms
proof (induction fs arbitrary: n sent)
  case (Cons f fs)
  obtain sent1 where 1: "deliver_rows pk acc (\<lambda>_. True) f (rows f) sent = (False, sent1)"
    "ev_id ` set sent1 = ev_id ` set sent \<union> {ev_id (se_event s) | s. s \<in> set (rows f) \<and> row_accepted pk acc f s}"
    using deliver_rows_ids by blast
  obtain sent2 where 2: "deliver_filters env c pk ch acc (\<lambda>_. True) (n + 1) fs sent1 = (True, sent2)"
    "ev_id ` set sent2 = ev_id ` set sent1 \<union>
       {ev_id (se_event s) | s f. f \<in> set fs \<and> s \<in> set (rows f) \<and> row_accepted pk acc f s}"
    using Cons.IH [of "n + 1" sent1] Cons.prems by auto
  show ?case using Cons.prems 1 2 by (intro exI [of _ sent2]) auto
qed simp

text \<open>
  C20. Historical delivery is complete: when every filter of a request is in the ordinary form, its rows fit
  in its limit, the database answers and the connection takes every event, then each live event of the
  community that matches one of the filters, lies in a channel the reader can access and is visible to
  the reader is sent before the end of stored events.
\<close>

theorem historical_delivery_complete:
  assumes fs: "\<forall>f\<in>set fs. plain_filter (en_parse_uuid env) (en_timestamp_ok env) f \<and>
      plain_store c f (en_db env) \<and> within_limit env c pk ch acc f" and up: "\<forall>n. en_up env n"
    and f: "f \<in> set fs" and r: "r \<in> set (db_events (en_db env))"
    and live: "er_community r = c" "\<not> er_deleted r" and m: "filter_match_one (base_filter f) (stored_of r)"
    and acc: "is_none_or (er_channel_id r) (\<lambda>x. x \<in> set acc)"
    and chan: "is_none_or (per_filter_channel (en_parse_uuid env) ch f) (\<lambda>x. er_channel_id r = Some x)"
    and v: "event_visible_to_reader (er_event r) pk"
  shows "\<exists>sent. deliver_filters env c pk ch acc (\<lambda>_. True) 0 fs [] = (True, sent) \<and>
     ev_id (er_event r) \<in> ev_id ` set sent"
proof -
  let ?rows = "\<lambda>f. query_rows (historical_query env c pk ch acc f) (en_db env)"
  let ?p = "per_filter_channel (en_parse_uuid env) ch f"
  have pf: "plain_filter (en_parse_uuid env) (en_timestamp_ok env) f" and db: "plain_store c f (en_db env)"
    using fs f by blast+
  have n: "countable c pk ?p acc f r" using live m v acc by (simp add: countable_def)
  have "er_community r = c" using live by simp
  have rin: "r \<in> set (?rows f)"
    using countable_in_query [OF pf db r chan n] r plain_storeD [OF db r live(1)]
      query_rows_scoped_set [OF pf, of "en_db env" c] db joined_scoped [OF pf plain_storeD [OF db r live(1)] live(1)]
    by (auto simp: historical_query_scoped Let_def plain_store_def list_all_iff p_joined_def)
  have ra: "row_accepted pk acc f (stored_of r)"
    using m v acc by (auto simp: row_accepted_def filters_match_iff is_none_or_def split: option.splits)
  have routed: "\<And>n g. g \<in> set fs \<Longrightarrow> query_routed env n (historical_query env c pk ch acc g) = Ok (map stored_of (?rows g))"
    using history_rows fs up by blast
  have all: "\<exists>sent'. deliver_filters env c pk ch acc (\<lambda>_. True) 0 fs [] = (True, sent') \<and>
      ev_id ` set sent' = ev_id ` set ([] :: nostr_event list) \<union>
        {ev_id (se_event s) | s f. f \<in> set fs \<and> s \<in> set (map stored_of (?rows f)) \<and> row_accepted pk acc f s}"
    by (rule deliver_filters_ids [where rows = "\<lambda>f. map stored_of (?rows f)"]) (rule routed)
  have "ev_id (er_event r) \<in> {ev_id (se_event s) | s f. f \<in> set fs \<and> s \<in> set (map stored_of (?rows f)) \<and>
      row_accepted pk acc f s}"
    using f rin ra by (intro CollectI exI [of _ "stored_of r"] exI [of _ f]) simp
  then have "\<And>A. ev_id (er_event r) \<in> A \<union> {ev_id (se_event s) | s f. f \<in> set fs \<and>
      s \<in> set (map stored_of (?rows f)) \<and> row_accepted pk acc f s}" by (rule UnI2)
  with all show ?thesis by (elim exE conjE, intro exI conjI) (assumption, simp only:)
qed

section \<open>Examples\<close>

definition ex_p_filter :: read_filter where
  "ex_p_filter = ex_filter [9] [(''h'', [''room'']), (''p'', [ex_key CHR ''a''])]"

lemma ex_p_filter_plain:
  "plain_filter (en_parse_uuid ex_env) (en_timestamp_ok ex_env) ex_p_filter"
  "plain_store (CommunityId ''c'') ex_p_filter (en_db ex_env)"
  by code_simp+

theorem count_filter_exact_witness:
  "count_filter ex_env 0 (ex_key CHR ''a'') (count_query ex_env (CommunityId ''c'') (ex_key CHR ''a'')
     (Some ''room'') [''room''] ex_p_filter) ex_p_filter =
   Ok (length (filter (countable (CommunityId ''c'') (ex_key CHR ''a'') (Some ''room'') [''room''] ex_p_filter)
     (db_events ex_store)))"
proof -
  have "count_fast_path ex_p_filter (ex_key CHR ''a'')" by code_simp
  moreover have "to_ascii_lowercase (ex_key CHR ''a'') = ex_key CHR ''a''"
    "Some ''room'' = extract_channel_from_filter (en_parse_uuid ex_env) ex_p_filter" "en_up ex_env 0"
    "en_db ex_env = ex_store"
    by code_simp+
  ultimately show ?thesis
    using count_filter_exact [OF ex_p_filter_plain, of "ex_key CHR ''a''" 0 "Some ''room''" "[''room'']"] by simp
qed

theorem historical_delivery_complete_witness:
  "\<exists>sent. deliver_filters ex_env (CommunityId ''c'') (ex_key CHR ''a'') None [''room''] (\<lambda>_. True) 0 [ex_p_filter] [] =
     (True, sent) \<and> ev_id (er_event (db_events ex_store ! 1)) \<in> ev_id ` set sent"
proof (rule historical_delivery_complete [where f = ex_p_filter])
  have "within_limit ex_env (CommunityId ''c'') (ex_key CHR ''a'') None [''room''] ex_p_filter" by code_simp
  then show "\<forall>f\<in>set [ex_p_filter]. plain_filter (en_parse_uuid ex_env) (en_timestamp_ok ex_env) f \<and>
      plain_store (CommunityId ''c'') f (en_db ex_env) \<and>
      within_limit ex_env (CommunityId ''c'') (ex_key CHR ''a'') None [''room''] f"
    using ex_p_filter_plain by simp
  show "\<forall>n. en_up ex_env n" by (simp add: ex_env_def)
  show "db_events ex_store ! 1 \<in> set (db_events (en_db ex_env))" by (simp add: ex_env_def ex_store_def)
  show "er_community (db_events ex_store ! 1) = CommunityId ''c''" by code_simp
  show "\<not> er_deleted (db_events ex_store ! 1)" by code_simp
  show "filter_match_one (base_filter ex_p_filter) (stored_of (db_events ex_store ! 1))" by code_simp
  show "is_none_or (er_channel_id (db_events ex_store ! 1)) (\<lambda>x. x \<in> set [''room''])" by code_simp
  show "is_none_or (per_filter_channel (en_parse_uuid ex_env) None ex_p_filter)
      (\<lambda>x. er_channel_id (db_events ex_store ! 1) = Some x)" by code_simp
  show "event_visible_to_reader (er_event (db_events ex_store ! 1)) (ex_key CHR ''a'')" by code_simp
qed simp

text \<open>
  A filter with a present and empty list of authors matches no event, so a REQ sends nothing, and yet
  COUNT answers with the number of all events the rest of the filter selects.
\<close>

lemma count_ignores_empty_authors:
  "handle_count ex_env ''s'' [(ex_filter [9] [])\<lparr>f_authors := Some []\<rparr>] ex_conn = [CountMsg ''s'' 2]"
  "sent_events (ro_messages (handle_req ex_env (\<lambda>_. Ok []) (\<lambda>_. True) ''s''
     [(ex_filter [9] [])\<lparr>f_authors := Some []\<rparr>] ex_conn registry_new)) = []"
  by code_simp+

text \<open>
  A filter that names two channels is counted in the first of them only, although a REQ with the same
  filter sends the events of both.
\<close>

lemma count_takes_first_channel:
  "handle_count (ex_env\<lparr>en_accessible := \<lambda>_ _. Ok [''room'', ''cave'']\<rparr>) ''s''
     [ex_filter [9] [(''h'', [''room'', ''cave''])]] ex_conn = [CountMsg ''s'' 2]"
  "length (sent_events (ro_messages (handle_req (ex_env\<lparr>en_accessible := \<lambda>_ _. Ok [''room'', ''cave'']\<rparr>)
     (\<lambda>_. Ok []) (\<lambda>_. True) ''s'' [ex_filter [9] [(''h'', [''room'', ''cave''])]] ex_conn registry_new))) = 3"
  by code_simp+

text \<open>An upper bound beyond the signed range is read as a time before the epoch, and nothing is found.\<close>

lemma far_until_finds_nothing:
  "sent_events (ro_messages (handle_req ex_env (\<lambda>_. Ok []) (\<lambda>_. True) ''s''
     [(ex_filter [9] [])\<lparr>f_until := Some 18446744073709551615\<rparr>] ex_conn registry_new)) = []"
  "filter_match_one (base_filter ((ex_filter [9] [])\<lparr>f_until := Some 18446744073709551615\<rparr>))
     (stored_of (db_events ex_store ! 0))"
  by code_simp+

text \<open>
  A REQ needs the read scope for messages; a COUNT does not look at the scopes at all.
\<close>

lemma count_ignores_scopes:
  "handle_count env sid filters (conn\<lparr>cn_auth_state := Authenticated (ctx\<lparr>ac_scopes := scopes\<rparr>)\<rparr>) =
     handle_count env sid filters (conn\<lparr>cn_auth_state := Authenticated ctx\<rparr>)"
  by (simp add: handle_count_def Let_def split: sum.split)

end
