(* ===== verification/EventReplace.thy ===== *)
theory EventReplace
  imports EventStore
begin

text \<open>
  Replaceable events, \<open>replace_addressable_event\<close> and \<open>replace_parameterized_event\<close> of
  \<open>crates/buzz-db/src/lib.rs\<close>, and the claiming of due reminders in \<open>event.rs\<close>. The advisory lock makes
  a replacement atomic; how its transaction fares is an argument.
\<close>

section \<open>Order of replacement\<close>

text \<open>An accepted time and id dominate an incoming one that is older, or as old with an id not below.\<close>

definition dominates :: "int \<times> event_id \<Rightarrow> int \<times> event_id \<Rightarrow> bool" where
  "dominates accepted incoming \<longleftrightarrow>
     fst incoming < fst accepted \<or> fst incoming = fst accepted \<and> snd accepted \<le> snd incoming"

definition dominated_by :: "(int \<times> event_id) option \<Rightarrow> int \<times> event_id \<Rightarrow> bool" where
  "dominated_by accepted incoming \<longleftrightarrow> (case accepted of Some a \<Rightarrow> dominates a incoming | None \<Rightarrow> False)"

definition event_rank :: "nostr_event \<Rightarrow> int \<times> event_id" where
  "event_rank ev = (as_i64 (ev_created_at ev), ev_id ev)"

definition row_rank :: "event_row \<Rightarrow> int \<times> event_id" where
  "row_rank r = (er_created_at r, ev_id (er_event r))"

definition live_head :: "(event_row \<Rightarrow> bool) \<Rightarrow> event_db \<Rightarrow> (int \<times> event_id) option" where
  "live_head at db =
     (case newest_first (filter (\<lambda>r. at r \<and> \<not> er_deleted r) (db_events db)) of
        [] \<Rightarrow> None
      | r # _ \<Rightarrow> Some (row_rank r))"

text \<open>
  How the transaction fares: it commits (or rolls back) and says so, it fails before the commit, or it
  commits and the answer is lost.
\<close>

datatype tx_fate = TxAnswers | TxFails string | TxAnswerLost string

definition settle :: "tx_fate \<Rightarrow> event_db \<Rightarrow> (stored_event \<times> bool) \<times> event_db \<Rightarrow> (DbError + stored_event \<times> bool) \<times> event_db" where
  "settle fate db res =
     (case fate of
        TxAnswers \<Rightarrow> (Ok (fst res), snd res)
      | TxFails e \<Rightarrow> (Err (Sqlx e), db)
      | TxAnswerLost e \<Rightarrow> (Err (Sqlx e), snd res))"

text \<open>The mentions of an event that was inserted, outside the transaction.\<close>

definition with_mentions ::
  "(int \<Rightarrow> bool) \<Rightarrow> bool \<Rightarrow> CommunityId \<Rightarrow> nostr_event
     \<Rightarrow> (DbError + stored_event \<times> bool) \<times> event_db \<Rightarrow> (DbError + stored_event \<times> bool) \<times> event_db" where
  "with_mentions timestamp_ok mentions_reached c ev res =
     (case fst res of
        Inr (stored, True) \<Rightarrow>
          if mentions_reached then (fst res, snd (insert_mentions timestamp_ok c ev (snd res))) else res
      | _ \<Rightarrow> res)"

section \<open>Replaceable events\<close>

definition at_address :: "CommunityId \<Rightarrow> int \<Rightarrow> pubkey \<Rightarrow> uuid option \<Rightarrow> event_row \<Rightarrow> bool" where
  "at_address c kind pk channel r \<longleftrightarrow>
     er_community r = c \<and> event_kind_i32 (er_event r) = kind \<and> ev_pubkey (er_event r) = pk \<and>
     er_channel_id r = channel"

definition replace_addressable_tx ::
  "instant \<Rightarrow> CommunityId \<Rightarrow> nostr_event \<Rightarrow> uuid option \<Rightarrow> event_db \<Rightarrow> (stored_event \<times> bool) \<times> event_db" where
  "replace_addressable_tx now c ev channel db =
     (let at = at_address c (event_kind_i32 ev) (ev_pubkey ev) channel;
          incoming = event_rank ev;
          refused = ((with_received_at ev now channel False, False), db)
      in if dominated_by (live_head at db) incoming
         then refused
         else
           let db1 = snd (retire (\<lambda>r. at r \<and> \<not> er_deleted r) db);
               (was_inserted, db2) = insert_row (new_row now c ev channel (extract_d_tag ev) None) db1
           in if \<not> was_inserted then refused else ((with_received_at ev now channel True, True), db2))"

definition replace_addressable_event ::
  "(int \<Rightarrow> bool) \<Rightarrow> tx_fate \<Rightarrow> bool \<Rightarrow> instant \<Rightarrow> CommunityId \<Rightarrow> nostr_event \<Rightarrow> uuid option \<Rightarrow> event_db
     \<Rightarrow> (DbError + stored_event \<times> bool) \<times> event_db" where
  "replace_addressable_event timestamp_ok fate mentions_reached now c ev channel db =
     (if \<not> timestamp_ok (as_i64 (ev_created_at ev))
      then (Err (InvalidTimestamp (as_i64 (ev_created_at ev))), db)
      else with_mentions timestamp_ok mentions_reached c ev
             (settle fate db (replace_addressable_tx now c ev channel db)))"

section \<open>Parameterized replaceable events\<close>

definition at_coordinate :: "coordinate \<Rightarrow> event_row \<Rightarrow> bool" where
  "at_coordinate k r \<longleftrightarrow>
     (er_community r, event_kind_i32 (er_event r), ev_pubkey (er_event r)) = (fst k, fst (snd k), fst (snd (snd k))) \<and>
     er_d_tag r = Some (snd (snd (snd k)))"

definition READ_STATE_PREFIX :: string where "READ_STATE_PREFIX = ''read-state:''"

definition is_nip_rs :: "nostr_event \<Rightarrow> string \<Rightarrow> bool" where
  "is_nip_rs ev d_tag \<longleftrightarrow>
     (let slices = map tag_slice (ev_tags ev);
          d_tag_count = length (filter (\<lambda>s. s \<noteq> [] \<and> hd s = ''d'') slices);
          has_exact_d_tag = list_ex (\<lambda>s. length s \<ge> 2 \<and> s ! 0 = ''d'' \<and> s ! 1 = d_tag) slices;
          read_state_t_tag_count =
            length (filter (\<lambda>s. length s = 2 \<and> s ! 0 = ''t'' \<and> s ! 1 = ''read-state'') slices);
          slot = drop (length READ_STATE_PREFIX) d_tag
      in event_kind_i32 ev = uint KIND_READ_STATE \<and> d_tag_count = 1 \<and> has_exact_d_tag \<and>
         starts_with d_tag READ_STATE_PREFIX \<and> length slot = 32 \<and> list_all is_lower_hexdigit slot \<and>
         read_state_t_tag_count = 1)"

definition is_buzz_mesh_status :: "nostr_event \<Rightarrow> string \<Rightarrow> bool" where
  "is_buzz_mesh_status ev d_tag \<longleftrightarrow>
     event_kind_i32 ev = uint KIND_BOOKMARK_SET \<and> starts_with d_tag ''buzz-mesh-member-status:'' \<and>
     list_ex (\<lambda>t. length (tag_slice t) = 2 \<and> tag_slice t ! 0 = ''k'' \<and> tag_slice t ! 1 = ''buzz-mesh-status'')
       (ev_tags ev)"

text \<open>The superseded head leaves the table, softly or for good with its mentions.\<close>

definition supersede :: "bool \<Rightarrow> coordinate \<Rightarrow> event_id \<Rightarrow> event_db \<Rightarrow> event_db" where
  "supersede hard k existing_id db =
     (if hard
      then db\<lparr>db_events := filter (\<lambda>r. \<not> (at_coordinate k r \<and> \<not> er_deleted r)) (db_events db),
              db_mentions := filter (\<lambda>m. \<not> (mr_community m = fst k \<and> mr_event_id m = existing_id)) (db_mentions db)\<rparr>
      else snd (retire (\<lambda>r. at_coordinate k r \<and> \<not> er_deleted r) db))"

definition replace_parameterized_tx ::
  "instant \<Rightarrow> CommunityId \<Rightarrow> nostr_event \<Rightarrow> string \<Rightarrow> uuid option \<Rightarrow> event_db \<Rightarrow> (stored_event \<times> bool) \<times> event_db" where
  "replace_parameterized_tx now c ev d_tag channel db =
     (let k = (c, event_kind_i32 ev, ev_pubkey ev, d_tag);
          nip_rs = is_nip_rs ev d_tag;
          hard_delete_superseded = (nip_rs \<or> is_buzz_mesh_status ev d_tag);
          incoming = event_rank ev;
          existing = live_head (at_coordinate k) db;
          watermark = (if nip_rs then map_of (db_watermarks db) k else None);
          refused = ((with_received_at ev now channel False, False), db)
      in if dominated_by existing incoming \<or> dominated_by watermark incoming
         then refused
         else
           let db1 = (case existing of
                 Some (_, existing_id) \<Rightarrow> supersede hard_delete_superseded k existing_id db
               | None \<Rightarrow> db);
               (was_inserted, db2) = insert_row (new_row now c ev channel (Some d_tag) (extract_not_before ev)) db1
           in if \<not> was_inserted then refused
              else ((with_received_at ev now channel True, True),
                    if nip_rs then db2\<lparr>db_watermarks := AList.update k incoming (db_watermarks db2)\<rparr> else db2))"

definition replace_parameterized_event ::
  "(int \<Rightarrow> bool) \<Rightarrow> tx_fate \<Rightarrow> bool \<Rightarrow> instant \<Rightarrow> CommunityId \<Rightarrow> nostr_event \<Rightarrow> string \<Rightarrow> uuid option \<Rightarrow> event_db
     \<Rightarrow> (DbError + stored_event \<times> bool) \<times> event_db" where
  "replace_parameterized_event timestamp_ok fate mentions_reached now c ev d_tag channel db =
     (if \<not> timestamp_ok (as_i64 (ev_created_at ev))
      then (Err (InvalidTimestamp (as_i64 (ev_created_at ev))), db)
      else with_mentions timestamp_ok mentions_reached c ev
             (settle fate db (replace_parameterized_tx now c ev d_tag channel db)))"

section \<open>Due reminders\<close>

text \<open>\<open>DISTINCT ON\<close> of rows sorted by a key: the first of each group of equal keys.\<close>

fun distinct_on :: "('a \<Rightarrow> 'k) \<Rightarrow> 'a list \<Rightarrow> 'a list" where
  "distinct_on g [] = []"
| "distinct_on g (x # xs) = x # distinct_on g (filter (\<lambda>y. g y \<noteq> g x) xs)"

definition due :: "int \<Rightarrow> event_row \<Rightarrow> bool" where
  "due now r \<longleftrightarrow>
     event_kind_i32 (er_event r) = uint KIND_EVENT_REMINDER \<and>
     (case er_not_before r of Some n \<Rightarrow> n \<le> now | None \<Rightarrow> False) \<and> \<not> er_deleted r \<and> er_delivered_at r = None"

definition reminder_address :: "event_row \<Rightarrow> CommunityId \<times> pubkey \<times> string option" where
  "reminder_address r = (er_community r, ev_pubkey (er_event r), er_d_tag r)"

text \<open>The communities that are not archived are an argument; the order of the groups is not modelled.\<close>

definition query_due_reminders :: "(CommunityId \<Rightarrow> bool) \<Rightarrow> int \<Rightarrow> nat \<Rightarrow> event_db \<Rightarrow> event_row list" where
  "query_due_reminders active now batch_limit db =
     take batch_limit (distinct_on reminder_address
       (newest_first (filter (\<lambda>r. due now r \<and> active (er_community r)) (db_events db))))"

definition is_row :: "CommunityId \<Rightarrow> event_id \<Rightarrow> int \<Rightarrow> event_row \<Rightarrow> bool" where
  "is_row c eid t r \<longleftrightarrow> er_community r = c \<and> er_created_at r = t \<and> ev_id (er_event r) = eid"

text \<open>\<open>UPDATE events SET delivered_at\<close> on the rows of a condition: whether any row changed.\<close>

definition set_delivered :: "int option \<Rightarrow> (event_row \<Rightarrow> bool) \<Rightarrow> event_db \<Rightarrow> nat \<times> event_db" where
  "set_delivered v hit db =
     (length (filter hit (db_events db)),
      db\<lparr>db_events := map (\<lambda>r. if hit r then r\<lparr>er_delivered_at := v\<rparr> else r) (db_events db)\<rparr>)"

definition claim_due_reminder_with_stamp :: "CommunityId \<Rightarrow> event_id \<Rightarrow> int \<Rightarrow> int \<Rightarrow> event_db \<Rightarrow> bool \<times> event_db" where
  "claim_due_reminder_with_stamp c eid t stamp db =
     (case set_delivered (Some stamp) (\<lambda>r. is_row c eid t r \<and> er_delivered_at r = None) db of
        (n, db') \<Rightarrow> (n > 0, db'))"

definition release_due_reminder :: "CommunityId \<Rightarrow> event_id \<Rightarrow> int \<Rightarrow> int \<Rightarrow> event_db \<Rightarrow> bool \<times> event_db" where
  "release_due_reminder c eid t stamp db =
     (case set_delivered None (\<lambda>r. is_row c eid t r \<and> er_delivered_at r = Some stamp) db of
        (n, db') \<Rightarrow> (n = 1, db'))"

end
