(* ===== verification/ReplaceProps.thy ===== *)
theory ReplaceProps
  imports EventReplace
begin

text \<open>
  Replacement keeps the newest event. The contract that both replacement operations share is the locale
  \<open>newest_wins\<close>; it is interpreted on the model of either. The watermark of a read state outlives
  deletions.
\<close>

section \<open>The order\<close>

lemma dominates_refl [simp]: "dominates a a"
  by (simp add: dominates_def)

lemma dominates_trans: "dominates a b \<Longrightarrow> dominates b c \<Longrightarrow> dominates a c"
  by (auto simp: dominates_def)

lemma dominates_total: "dominates a b \<or> dominates b a"
  by (auto simp: dominates_def)

lemma dominates_antisym: "dominates a b \<Longrightarrow> dominates b a \<Longrightarrow> a = b"
  by (auto simp: dominates_def prod_eq_iff)

section \<open>The contract\<close>

locale newest_wins =
  fixes put :: "'e \<Rightarrow> 'd \<Rightarrow> bool \<times> 'd"
    and head :: "'d \<Rightarrow> (int \<times> event_id) option"
    and rank :: "'e \<Rightarrow> int \<times> event_id"
    and sound :: "'d \<Rightarrow> bool"
    and fits :: "'e \<Rightarrow> bool"
  assumes put_dominated: "sound d \<Longrightarrow> fits e \<Longrightarrow> dominated_by (head d) (rank e) \<Longrightarrow>
      \<not> fst (put e d) \<and> head (snd (put e d)) = head d"
    and put_newer: "sound d \<Longrightarrow> fits e \<Longrightarrow> \<not> dominated_by (head d) (rank e) \<Longrightarrow>
      fst (put e d) \<and> head (snd (put e d)) = Some (rank e)"
    and put_sound: "sound d \<Longrightarrow> fits e \<Longrightarrow> sound (snd (put e d))"
begin

definition put_all :: "'e list \<Rightarrow> 'd \<Rightarrow> 'd" where
  "put_all es d = fold (\<lambda>e d. snd (put e d)) es d"

lemma put_all_sound: "sound d \<Longrightarrow> \<forall>e\<in>set es. fits e \<Longrightarrow> sound (put_all es d)"
  unfolding put_all_def by (induction es arbitrary: d) (simp_all add: put_sound)

lemma head_put:
  assumes "sound d" "fits e"
  shows "\<exists>h. head (snd (put e d)) = Some h \<and> dominates h (rank e) \<and> (\<forall>a. head d = Some a \<longrightarrow> dominates h a) \<and>
    (h = rank e \<or> head d = Some h)"
proof (cases "dominated_by (head d) (rank e)")
  case True
  then show ?thesis using put_dominated [OF assms True] by (auto simp: dominated_by_def split: option.splits)
next
  case False
  then show ?thesis using put_newer [OF assms False] dominates_total [of "rank e"]
    by (auto simp: dominated_by_def split: option.splits)
qed

text \<open>After any sequence of events the head is the newest of them, and of the head before.\<close>

lemma head_put_all:
  assumes "sound d" "\<forall>e\<in>set es. fits e" "es \<noteq> [] \<or> head d \<noteq> None"
  shows "\<exists>h. head (put_all es d) = Some h \<and> (\<forall>e\<in>set es. dominates h (rank e)) \<and>
    (\<forall>a. head d = Some a \<longrightarrow> dominates h a) \<and> (h \<in> rank ` set es \<or> head d = Some h)"
  using assms
proof (induction es arbitrary: d)
  case (Cons e es)
  obtain h where h: "head (snd (put e d)) = Some h" "dominates h (rank e)"
    "\<forall>a. head d = Some a \<longrightarrow> dominates h a" "h = rank e \<or> head d = Some h"
    using head_put [of d e] Cons.prems by auto
  obtain g where g: "head (put_all es (snd (put e d))) = Some g" "\<forall>e\<in>set es. dominates g (rank e)"
    "dominates g h" "g \<in> rank ` set es \<or> g = h"
    using Cons.IH [of "snd (put e d)"] Cons.prems h(1) put_sound [of d e] by auto
  have "put_all (e # es) d = put_all es (snd (put e d))" by (simp add: put_all_def)
  then show ?case using g h dominates_trans [OF g(3)] by auto
qed (auto simp: put_all_def)

text \<open>The order of the events does not matter.\<close>

lemma head_order_irrelevant:
  assumes "sound d" "\<forall>e\<in>set es. fits e" "set es' = set es"
  shows "head (put_all es' d) = head (put_all es d)"
proof (cases "es = [] \<and> head d = None")
  case True
  then show ?thesis using assms(3) by (simp add: put_all_def)
next
  case False
  obtain h where h: "head (put_all es d) = Some h" "\<forall>e\<in>set es. dominates h (rank e)"
    "\<forall>a. head d = Some a \<longrightarrow> dominates h a" "h \<in> rank ` set es \<or> head d = Some h"
    using head_put_all [OF assms(1,2)] False by blast
  have ne: "es' \<noteq> [] \<or> head d \<noteq> None" using False assms(3) by auto
  obtain g where g: "head (put_all es' d) = Some g" "\<forall>e\<in>set es. dominates g (rank e)"
    "\<forall>a. head d = Some a \<longrightarrow> dominates g a" "g \<in> rank ` set es \<or> head d = Some g"
    using head_put_all [OF assms(1), of es', unfolded assms(3), OF assms(2) ne] by blast
  have "dominates h g" using h g(4) by blast
  moreover have "dominates g h" using g h(4) by blast
  ultimately show ?thesis using h(1) g(1) dominates_antisym by auto
qed

end

section \<open>Both replacements under the contract\<close>

definition live_at :: "(event_row \<Rightarrow> bool) \<Rightarrow> event_db \<Rightarrow> event_row list" where
  "live_at at db = filter (\<lambda>r. at r \<and> \<not> er_deleted r) (db_events db)"

text \<open>
  At an address there is at most one live row, it dominates every row there is or was, and its event is
  one of the given set, whose ids are not used elsewhere in the community.
\<close>

definition one_head :: "(event_row \<Rightarrow> bool) \<Rightarrow> CommunityId \<Rightarrow> nostr_event set \<Rightarrow> event_db \<Rightarrow> bool" where
  "one_head at c evs db \<longleftrightarrow>
     (\<forall>r\<in>set (db_events db). at r \<longrightarrow> er_event r \<in> evs \<and> row_rank r = event_rank (er_event r) \<and>
        (\<exists>h. live_at at db = [h] \<and> dominates (row_rank h) (row_rank r))) \<and>
     (\<forall>r\<in>set (db_events db). er_community r = c \<longrightarrow> ev_id (er_event r) \<in> ev_id ` evs \<longrightarrow> at r)"

lemma live_head_single: "live_at at db = [h] \<Longrightarrow> live_head at db = Some (row_rank h)"
  by (simp add: live_head_def live_at_def newest_first_def)

lemma live_head_Nil: "live_at at db = [] \<Longrightarrow> live_head at db = None"
  by (simp add: live_head_def live_at_def newest_first_def)

lemma one_head_cases:
  assumes "one_head at c evs db"
  obtains "live_at at db = []" "live_head at db = None" "\<forall>r\<in>set (db_events db). \<not> at r"
  | h where "live_at at db = [h]" "live_head at db = Some (row_rank h)"
    "\<forall>r\<in>set (db_events db). at r \<longrightarrow> dominates (row_rank h) (row_rank r)"
proof (cases "\<exists>r\<in>set (db_events db). at r")
  case True
  then obtain h where h: "live_at at db = [h]" using assms by (auto simp: one_head_def)
  then have "\<forall>r\<in>set (db_events db). at r \<longrightarrow> dominates (row_rank h) (row_rank r)"
    using assms by (auto simp: one_head_def)
  then show thesis using h live_head_single [OF h] that(2) by blast
next
  case False
  then have n: "live_at at db = []" by (auto simp: live_at_def filter_empty_conv)
  show thesis by (rule that(1) [OF n live_head_Nil [OF n]]) (use False in blast)
qed

lemma head_is_event:
  assumes one: "one_head at c evs db" and h: "live_head at db = Some h"
  shows "\<exists>ev\<in>evs. h = event_rank ev \<and> map er_event (live_at at db) = [ev]"
proof (rule one_head_cases [OF one])
  fix r assume r: "live_at at db = [r]" "live_head at db = Some (row_rank r)"
  then have "r \<in> set (live_at at db)" by simp
  then have "r \<in> set (db_events db)" "at r" by (simp_all add: live_at_def)
  then have "er_event r \<in> evs" "row_rank r = event_rank (er_event r)" using one unfolding one_head_def by blast+
  then show ?thesis using h r by auto
qed (use h in simp)

text \<open>A newer event is never in conflict with a row of its address.\<close>

lemma newer_inserts:
  assumes one: "one_head at c evs db" and ev: "ev \<in> evs" and new: "\<not> dominated_by (live_head at db) (event_rank ev)"
    and r: "r \<in> set (db_events db)" "er_community r = c" "ev_id (er_event r) = ev_id ev"
  shows "er_created_at r \<noteq> as_i64 (ev_created_at ev)"
proof
  assume t: "er_created_at r = as_i64 (ev_created_at ev)"
  have "at r" using one r ev by (auto simp: one_head_def)
  moreover have "row_rank r = event_rank ev" using t r(3) by (simp add: row_rank_def event_rank_def)
  ultimately show False
    using one_head_cases [OF one] r(1) new by (metis dominated_by_def option.simps(5))
qed

text \<open>The rows after the head was retired or removed: the rows from before, none of them live at the address.\<close>

definition retired_from :: "(event_row \<Rightarrow> bool) \<Rightarrow> event_db \<Rightarrow> event_db \<Rightarrow> bool" where
  "retired_from at db db1 \<longleftrightarrow>
     (\<forall>r\<in>set (db_events db1). r \<in> set (db_events db) \<or> (\<exists>r0\<in>set (db_events db). r = r0\<lparr>er_deleted := True\<rparr>)) \<and>
     live_at at db1 = []"

lemma retired_row:
  assumes "retired_from at db db1" "r \<in> set (db_events db1)" "\<And>r. at (r\<lparr>er_deleted := True\<rparr>) = at r"
  obtains r0 where "r0 \<in> set (db_events db)" "er_event r0 = er_event r" "er_created_at r0 = er_created_at r"
    "er_community r0 = er_community r" "at r0 = at r" "row_rank r0 = row_rank r"
  using assms by (force simp: retired_from_def row_rank_def)

lemma retire_retired: "retired_from at db (snd (retire (\<lambda>r. at r \<and> \<not> er_deleted r) db))"
  by (auto simp: retired_from_def retire_def live_at_def filter_empty_conv)

lemma newer_inserted:
  assumes one: "one_head at c evs db" and ev: "ev \<in> evs" and new: "\<not> dominated_by (live_head at db) (event_rank ev)"
    and at: "\<And>r. at (r\<lparr>er_deleted := True\<rparr>) = at r" and re: "retired_from at db db1"
    and nr: "er_event nr = ev" "er_community nr = c" "er_created_at nr = as_i64 (ev_created_at ev)"
  shows "insert_row nr db1 = (True, db1\<lparr>db_events := db_events db1 @ [nr]\<rparr>)"
proof -
  have "\<not> (er_community r = c \<and> er_created_at r = as_i64 (ev_created_at ev) \<and> ev_id (er_event r) = ev_id ev)"
    if r: "r \<in> set (db_events db1)" for r
    using newer_inserts [OF one ev new] by (rule_tac retired_row [OF re r at]) auto
  then show ?thesis using nr by (auto simp: insert_row_def list_ex_iff)
qed

lemma newer_one_head:
  assumes one: "one_head at c evs db" and ev: "ev \<in> evs" and new: "\<not> dominated_by (live_head at db) (event_rank ev)"
    and at: "\<And>r. at (r\<lparr>er_deleted := True\<rparr>) = at r" and re: "retired_from at db db1"
    and nr: "er_event nr = ev" "er_community nr = c" "er_created_at nr = as_i64 (ev_created_at ev)" "at nr"
      "\<not> er_deleted nr"
    and db2: "db_events db2 = db_events db1 @ [nr]"
  shows "one_head at c evs db2" "live_at at db2 = [nr]"
proof -
  have rank: "row_rank nr = event_rank ev" using nr by (simp add: row_rank_def event_rank_def)
  show live: "live_at at db2 = [nr]"
    using re nr by (simp add: live_at_def retired_from_def db2)
  have dom: "dominates (event_rank ev) (row_rank r)" if "r \<in> set (db_events db)" "at r" for r
    using one_head_cases [OF one]
  proof cases
    case (2 h)
    then have "dominates (row_rank h) (row_rank r)" "dominates (event_rank ev) (row_rank h)"
      using that new dominates_total [of "row_rank h" "event_rank ev"] by (auto simp: dominated_by_def)
    then show ?thesis using dominates_trans by blast
  qed (use that in blast)
  have old: "at r \<longrightarrow> er_event r \<in> evs \<and> row_rank r = event_rank (er_event r) \<and>
      dominates (event_rank ev) (row_rank r)" "er_community r = c \<longrightarrow> ev_id (er_event r) \<in> ev_id ` evs \<longrightarrow> at r"
    if r: "r \<in> set (db_events db1)" for r
  proof -
    obtain r0 where r0: "r0 \<in> set (db_events db)" "er_event r0 = er_event r" "er_community r0 = er_community r"
      "at r0 = at r" "row_rank r0 = row_rank r"
      by (rule retired_row [OF re r at])
    then show "at r \<longrightarrow> er_event r \<in> evs \<and> row_rank r = event_rank (er_event r) \<and>
      dominates (event_rank ev) (row_rank r)"
      using one dom [of r0] by (auto simp: one_head_def)
    show "er_community r = c \<longrightarrow> ev_id (er_event r) \<in> ev_id ` evs \<longrightarrow> at r"
      using one r0 by (auto simp: one_head_def)
  qed
  show "one_head at c evs db2"
    unfolding one_head_def live using old nr ev rank by (auto simp: db2) metis
qed

text \<open>Replaceable events.\<close>

definition put_addressable ::
  "(int \<Rightarrow> bool) \<Rightarrow> bool \<Rightarrow> CommunityId \<Rightarrow> uuid option \<Rightarrow> instant \<times> nostr_event \<Rightarrow> event_db \<Rightarrow> bool \<times> event_db" where
  "put_addressable timestamp_ok mentions_reached c channel e db =
     (case replace_addressable_event timestamp_ok TxAnswers mentions_reached (fst e) c (snd e) channel db of
        (res, db') \<Rightarrow> (case res of Inr (_, was_inserted) \<Rightarrow> was_inserted | Inl _ \<Rightarrow> False, db'))"

lemma mentions_rows [simp]: "db_events (snd (insert_mentions t c ev db)) = db_events db"
  by (simp add: insert_mentions_def Let_def)

lemma rows_only: "db_events db' = db_events db \<Longrightarrow> one_head at c evs db' = one_head at c evs db \<and>
    live_at at db' = live_at at db \<and> live_head at db' = live_head at db"
  by (simp add: one_head_def live_at_def live_head_def)

lemma with_mentions_fst [simp]: "fst (with_mentions t m c ev res) = fst res"
  by (auto simp: with_mentions_def split: sum.splits prod.splits bool.splits)

lemma with_mentions_rows [simp]: "db_events (snd (with_mentions t m c ev res)) = db_events (snd res)"
  by (auto simp: with_mentions_def split: sum.splits prod.splits bool.splits)

lemma put_addressable_rows:
  assumes "timestamp_ok (as_i64 (ev_created_at (snd e)))"
  shows "fst (put_addressable timestamp_ok m c ch e db) = snd (fst (replace_addressable_tx (fst e) c (snd e) ch db))"
    "db_events (snd (put_addressable timestamp_ok m c ch e db)) = db_events (snd (replace_addressable_tx (fst e) c (snd e) ch db))"
  using assms by (auto simp: put_addressable_def replace_addressable_event_def settle_def case_prod_beta)

lemma at_address_deleted: "at_address c k pk ch (r\<lparr>er_deleted := True\<rparr>) = at_address c k pk ch r"
  by (simp add: at_address_def)

lemma addressable_tx:
  assumes one: "one_head (at_address c kind pk ch) c evs db" and ev: "ev \<in> evs"
    and k: "event_kind_i32 ev = kind" "ev_pubkey ev = pk"
    and tx: "replace_addressable_tx now c ev ch db = ((s, inserted), db')"
  shows "inserted \<longleftrightarrow> \<not> dominated_by (live_head (at_address c kind pk ch) db) (event_rank ev)"
    "inserted \<Longrightarrow> one_head (at_address c kind pk ch) c evs db' \<and>
       live_at (at_address c kind pk ch) db' = [new_row now c ev ch (extract_d_tag ev) None]"
    "\<not> inserted \<Longrightarrow> db' = db"
proof -
  let ?at = "at_address c kind pk ch" and ?nr = "new_row now c ev ch (extract_d_tag ev) None"
  let ?db1 = "snd (retire (\<lambda>r. ?at r \<and> \<not> er_deleted r) db)"
  have at: "?at ?nr" using k by (simp add: new_row_def at_address_def)
  have ins: "insert_row ?nr ?db1 = (True, ?db1\<lparr>db_events := db_events ?db1 @ [?nr]\<rparr>)"
    if "\<not> dominated_by (live_head ?at db) (event_rank ev)"
    by (rule newer_inserted [OF one ev that at_address_deleted retire_retired]) (simp_all add: new_row_def)
  show i: "inserted \<longleftrightarrow> \<not> dominated_by (live_head ?at db) (event_rank ev)"
    using tx ins by (auto simp: replace_addressable_tx_def Let_def k split: if_splits)
  show "\<not> inserted \<Longrightarrow> db' = db"
    using tx ins by (auto simp: replace_addressable_tx_def Let_def k split: if_splits)
  show "one_head ?at c evs db' \<and> live_at ?at db' = [?nr]" if inserted
  proof -
    have new: "\<not> dominated_by (live_head ?at db) (event_rank ev)" using i that by blast
    then have "db' = ?db1\<lparr>db_events := db_events ?db1 @ [?nr]\<rparr>"
      using tx ins [OF new] by (simp add: replace_addressable_tx_def Let_def k)
    then have "db_events db' = db_events ?db1 @ [?nr]" by simp
    from newer_one_head [OF one ev new at_address_deleted retire_retired _ _ _ at _ this]
    show ?thesis by (simp add: new_row_def)
  qed
qed

interpretation addressable: newest_wins
  "put_addressable timestamp_ok m c ch" "live_head (at_address c kind pk ch)" "\<lambda>e. event_rank (snd e)"
  "one_head (at_address c kind pk ch) c evs"
  "\<lambda>e. snd e \<in> evs \<and> event_kind_i32 (snd e) = kind \<and> ev_pubkey (snd e) = pk \<and>
     timestamp_ok (as_i64 (ev_created_at (snd e)))"
  for timestamp_ok m c ch kind pk evs
proof
  fix d :: event_db and e :: "instant \<times> nostr_event"
  let ?at = "at_address c kind pk ch"
  assume d: "one_head ?at c evs d" and e: "snd e \<in> evs \<and> event_kind_i32 (snd e) = kind \<and> ev_pubkey (snd e) = pk \<and>
     timestamp_ok (as_i64 (ev_created_at (snd e)))"
  obtain s ins d' where tx: "replace_addressable_tx (fst e) c (snd e) ch d = ((s, ins), d')" by (metis surj_pair)
  note put = put_addressable_rows [of timestamp_ok e m c ch d] and step = addressable_tx [OF d _ _ _ tx]
  have rows: "fst (put_addressable timestamp_ok m c ch e d) = ins"
    "db_events (snd (put_addressable timestamp_ok m c ch e d)) = db_events d'"
    using put e tx by simp_all
  show "\<not> fst (put_addressable timestamp_ok m c ch e d) \<and>
      live_head ?at (snd (put_addressable timestamp_ok m c ch e d)) = live_head ?at d"
    if "dominated_by (live_head ?at d) (event_rank (snd e))"
    using that step e rows rows_only [OF rows(2)] by auto
  show "fst (put_addressable timestamp_ok m c ch e d) \<and>
      live_head ?at (snd (put_addressable timestamp_ok m c ch e d)) = Some (event_rank (snd e))"
    if "\<not> dominated_by (live_head ?at d) (event_rank (snd e))"
    using that step e rows rows_only [OF rows(2), of ?at] live_head_single [of ?at d']
    by (auto simp: row_rank_def event_rank_def new_row_def)
  show "one_head ?at c evs (snd (put_addressable timestamp_ok m c ch e d))"
    using step e d rows rows_only [OF rows(2), of ?at c evs] by (cases ins) auto
qed

text \<open>
  C22. The newest event wins: when events of one replaceable kind, author and channel are stored, in any order
  and any number of times, on a store without such events, exactly one of them is live afterwards, the one
  with the latest second and of those the lowest id.
\<close>

theorem addressable_newest_wins:
  assumes new: "\<forall>r\<in>set (db_events db). er_community r = c \<longrightarrow> ev_id (er_event r) \<notin> (\<lambda>e. ev_id (snd e)) ` set es"
    and empty: "\<forall>r\<in>set (db_events db). \<not> at_address c kind pk ch r"
    and es: "es \<noteq> []" "\<forall>e\<in>set es. event_kind_i32 (snd e) = kind \<and> ev_pubkey (snd e) = pk \<and>
      timestamp_ok (as_i64 (ev_created_at (snd e)))"
    and ids: "inj_on ev_id (snd ` set es)"
  shows "\<exists>e\<in>set es. (\<forall>e'\<in>set es. dominates (event_rank (snd e)) (event_rank (snd e'))) \<and>
     map er_event (live_at (at_address c kind pk ch)
       (fold (\<lambda>e d. snd (put_addressable timestamp_ok m c ch e d)) es db)) = [snd e]"
proof -
  let ?evs = "snd ` set es" and ?at = "at_address c kind pk ch"
  let ?db = "fold (\<lambda>e d. snd (put_addressable timestamp_ok m c ch e d)) es db"
  have one: "one_head ?at c ?evs db"
    using new empty by (auto simp: one_head_def image_image)
  have fits: "\<forall>e\<in>set es. snd e \<in> ?evs \<and> event_kind_i32 (snd e) = kind \<and> ev_pubkey (snd e) = pk \<and>
      timestamp_ok (as_i64 (ev_created_at (snd e)))"
    using es(2) by blast
  note all = addressable.put_all_def [of timestamp_ok m c ch es db]
  obtain h where h: "live_head ?at ?db = Some h" "\<forall>e\<in>set es. dominates h (event_rank (snd e))"
    using addressable.head_put_all [where m = m, OF one fits] es(1) unfolding all by blast
  have one': "one_head ?at c ?evs ?db"
    using addressable.put_all_sound [where m = m, OF one fits] unfolding all by blast
  show ?thesis using head_is_event [OF one' h(1)] h(2) by auto
qed

section \<open>Parameterized events\<close>

definition put_parameterized ::
  "(int \<Rightarrow> bool) \<Rightarrow> bool \<Rightarrow> CommunityId \<Rightarrow> string \<Rightarrow> instant \<times> uuid option \<times> nostr_event \<Rightarrow> event_db \<Rightarrow> bool \<times> event_db" where
  "put_parameterized timestamp_ok mentions_reached c d_tag e db =
     (case replace_parameterized_event timestamp_ok TxAnswers mentions_reached (fst e) c (snd (snd e)) d_tag
         (fst (snd e)) db of
        (res, db') \<Rightarrow> (case res of Inr (_, was_inserted) \<Rightarrow> was_inserted | Inl _ \<Rightarrow> False, db'))"

lemma mentions_marks [simp]: "db_watermarks (snd (insert_mentions t c ev db)) = db_watermarks db"
  by (simp add: insert_mentions_def Let_def)

lemma with_mentions_marks [simp]: "db_watermarks (snd (with_mentions t m c ev res)) = db_watermarks (snd res)"
  by (auto simp: with_mentions_def split: sum.splits prod.splits bool.splits)

lemma put_parameterized_rows:
  assumes "timestamp_ok (as_i64 (ev_created_at (snd (snd e))))"
  shows "fst (put_parameterized timestamp_ok m c d e db) =
      snd (fst (replace_parameterized_tx (fst e) c (snd (snd e)) d (fst (snd e)) db))"
    "db_events (snd (put_parameterized timestamp_ok m c d e db)) =
      db_events (snd (replace_parameterized_tx (fst e) c (snd (snd e)) d (fst (snd e)) db))"
    "db_watermarks (snd (put_parameterized timestamp_ok m c d e db)) =
      db_watermarks (snd (replace_parameterized_tx (fst e) c (snd (snd e)) d (fst (snd e)) db))"
  using assms by (auto simp: put_parameterized_def replace_parameterized_event_def settle_def case_prod_beta)

lemma at_coordinate_deleted: "at_coordinate k (r\<lparr>er_deleted := True\<rparr>) = at_coordinate k r"
  by (simp add: at_coordinate_def)

lemma supersede_retired: "retired_from (at_coordinate k) db (supersede hard k i db)"
  using retire_retired [of "at_coordinate k" db]
  by (auto simp: supersede_def retired_from_def live_at_def filter_empty_conv)

lemma supersede_marks [simp]: "db_watermarks (supersede hard k i db) = db_watermarks db"
  by (simp add: supersede_def retire_def)

text \<open>The watermark of a coordinate, if any, is dominated by its head.\<close>

definition mark_below :: "coordinate \<Rightarrow> event_db \<Rightarrow> bool" where
  "mark_below k db \<longleftrightarrow> (\<forall>w. map_of (db_watermarks db) k = Some w \<longrightarrow>
     (\<exists>h. live_head (at_coordinate k) db = Some h \<and> dominates h w))"

lemma parameterized_tx:
  assumes one: "one_head (at_coordinate k) c evs db" and mark: "mark_below k db" and ev: "ev \<in> evs"
    and k: "k = (c, event_kind_i32 ev, ev_pubkey ev, d)"
    and tx: "replace_parameterized_tx now c ev d ch db = ((s, inserted), db')"
  shows "inserted \<longleftrightarrow> \<not> dominated_by (live_head (at_coordinate k) db) (event_rank ev)"
    "inserted \<Longrightarrow> one_head (at_coordinate k) c evs db' \<and> mark_below k db' \<and>
       live_at (at_coordinate k) db' = [new_row now c ev ch (Some d) (extract_not_before ev)]"
    "\<not> inserted \<Longrightarrow> db' = db"
proof -
  let ?at = "at_coordinate k" and ?nr = "new_row now c ev ch (Some d) (extract_not_before ev)"
  let ?hard = "is_nip_rs ev d \<or> is_buzz_mesh_status ev d"
  let ?db1 = "case live_head ?at db of Some (_, i) \<Rightarrow> supersede ?hard k i db | None \<Rightarrow> db"
  let ?old = "if is_nip_rs ev d then map_of (db_watermarks db) k else None"
  have at: "?at ?nr" using k by (simp add: new_row_def at_coordinate_def)
  have re: "retired_from ?at db ?db1"
  proof (rule one_head_cases [OF one])
    assume "live_at ?at db = []" "live_head ?at db = None"
    then show ?thesis by (simp add: retired_from_def)
  next
    fix h assume "live_head ?at db = Some (row_rank h)"
    then show ?thesis by (simp add: row_rank_def supersede_retired)
  qed
  have wm: "dominated_by (live_head ?at db) (event_rank ev)" if d: "dominated_by ?old (event_rank ev)"
  proof -
    obtain w where w: "map_of (db_watermarks db) k = Some w" "dominates w (event_rank ev)"
      using d by (auto simp: dominated_by_def split: option.splits if_splits)
    then obtain h where "live_head ?at db = Some h" "dominates h w" using mark unfolding mark_below_def by blast
    then show ?thesis using dominates_trans [OF _ w(2)] by (simp add: dominated_by_def)
  qed
  have ins: "insert_row ?nr ?db1 = (True, ?db1\<lparr>db_events := db_events ?db1 @ [?nr]\<rparr>)"
    if "\<not> dominated_by (live_head ?at db) (event_rank ev)"
    by (rule newer_inserted [OF one ev that at_coordinate_deleted re]) (simp_all add: new_row_def)
  show i: "inserted \<longleftrightarrow> \<not> dominated_by (live_head ?at db) (event_rank ev)"
    using tx ins wm unfolding k by (auto simp: replace_parameterized_tx_def Let_def split: if_splits)
  show "\<not> inserted \<Longrightarrow> db' = db"
    using tx ins unfolding k by (auto simp: replace_parameterized_tx_def Let_def split: if_splits)
  show "one_head ?at c evs db' \<and> mark_below k db' \<and> live_at ?at db' = [?nr]" if inserted
  proof -
    have new: "\<not> dominated_by (live_head ?at db) (event_rank ev)" using i that by blast
    have "db' = (let db2 = ?db1\<lparr>db_events := db_events ?db1 @ [?nr]\<rparr>
        in if is_nip_rs ev d then db2\<lparr>db_watermarks := AList.update k (event_rank ev) (db_watermarks db2)\<rparr> else db2)"
      using tx ins [OF new] new wm unfolding k by (auto simp: replace_parameterized_tx_def Let_def split: if_splits)
    moreover have "db_watermarks ?db1 = db_watermarks db" by (auto split: option.splits)
    ultimately have rows: "db_events db' = db_events ?db1 @ [?nr]"
      and marks: "map_of (db_watermarks db') k \<in> {Some (event_rank ev), map_of (db_watermarks db) k}"
      by (auto simp: Let_def update_conv')
    note nr = newer_one_head [OF one ev new at_coordinate_deleted re _ _ _ at _ rows]
    have live: "live_at ?at db' = [?nr]" "one_head ?at c evs db'" using nr by (simp_all add: new_row_def)
    have "dominates (event_rank ev) w" if "map_of (db_watermarks db') k = Some w" for w
    proof (cases "map_of (db_watermarks db) k = Some w")
      case True
      then obtain h where "live_head ?at db = Some h" "dominates h w" using mark by (auto simp: mark_below_def)
      then show ?thesis using new dominates_total dominates_trans by (metis dominated_by_def option.simps(5))
    qed (use marks that in auto)
    then show ?thesis
      using live live_head_single [OF live(1)] by (auto simp: mark_below_def row_rank_def event_rank_def new_row_def)
  qed
qed

interpretation parameterized: newest_wins
  "put_parameterized timestamp_ok m c d" "live_head (at_coordinate (c, kind, pk, d))"
  "\<lambda>e. event_rank (snd (snd e))"
  "\<lambda>db. one_head (at_coordinate (c, kind, pk, d)) c evs db \<and> mark_below (c, kind, pk, d) db"
  "\<lambda>e. snd (snd e) \<in> evs \<and> event_kind_i32 (snd (snd e)) = kind \<and> ev_pubkey (snd (snd e)) = pk \<and>
     timestamp_ok (as_i64 (ev_created_at (snd (snd e))))"
  for timestamp_ok m c d kind pk evs
proof
  fix db :: event_db and e :: "instant \<times> uuid option \<times> nostr_event"
  let ?k = "(c, kind, pk, d)"
  let ?at = "at_coordinate ?k" and ?put = "put_parameterized timestamp_ok m c d e db"
  assume one: "one_head ?at c evs db \<and> mark_below ?k db"
    and e: "snd (snd e) \<in> evs \<and> event_kind_i32 (snd (snd e)) = kind \<and> ev_pubkey (snd (snd e)) = pk \<and>
      timestamp_ok (as_i64 (ev_created_at (snd (snd e))))"
  obtain s ins db' where tx: "replace_parameterized_tx (fst e) c (snd (snd e)) d (fst (snd e)) db = ((s, ins), db')"
    by (metis surj_pair)
  have k: "?k = (c, event_kind_i32 (snd (snd e)), ev_pubkey (snd (snd e)), d)" using e by simp
  note step = parameterized_tx [OF conjunct1 [OF one] conjunct2 [OF one] conjunct1 [OF e] k tx]
  have rows: "fst ?put = ins" "db_events (snd ?put) = db_events db'" "db_watermarks (snd ?put) = db_watermarks db'"
    using put_parameterized_rows [of timestamp_ok e m c d db] e tx by simp_all
  have same: "one_head ?at c evs (snd ?put) = one_head ?at c evs db'" "live_head ?at (snd ?put) = live_head ?at db'"
    "mark_below ?k (snd ?put) = mark_below ?k db'"
    using rows_only [OF rows(2), of ?at c evs] rows(3) by (simp_all add: mark_below_def)
  show "\<not> fst ?put \<and> live_head ?at (snd ?put) = live_head ?at db"
    if "dominated_by (live_head ?at db) (event_rank (snd (snd e)))"
    using that step rows(1) same(2) by simp
  show "fst ?put \<and> live_head ?at (snd ?put) = Some (event_rank (snd (snd e)))"
    if "\<not> dominated_by (live_head ?at db) (event_rank (snd (snd e)))"
    using that step rows(1) same(2) live_head_single [of ?at db']
    by (simp add: row_rank_def event_rank_def new_row_def)
  show "one_head ?at c evs (snd ?put) \<and> mark_below ?k (snd ?put)"
    using step one same by (cases ins) auto
qed

text \<open>
  C21. The newest event wins, whatever the order and the channels: when events of one coordinate are stored
  on a store without such events, exactly one of them is live afterwards, the latest and of those with
  its second the one with the lowest id.
\<close>

theorem parameterized_newest_wins:
  assumes new: "\<forall>r\<in>set (db_events db). er_community r = c \<longrightarrow> ev_id (er_event r) \<notin> (\<lambda>e. ev_id (snd (snd e))) ` set es"
    and empty: "\<forall>r\<in>set (db_events db). \<not> at_coordinate (c, kind, pk, d) r"
      "map_of (db_watermarks db) (c, kind, pk, d) = None"
    and es: "es \<noteq> []" "\<forall>e\<in>set es. event_kind_i32 (snd (snd e)) = kind \<and> ev_pubkey (snd (snd e)) = pk \<and>
      timestamp_ok (as_i64 (ev_created_at (snd (snd e))))"
  shows "\<exists>e\<in>set es. (\<forall>e'\<in>set es. dominates (event_rank (snd (snd e))) (event_rank (snd (snd e')))) \<and>
     map er_event (live_at (at_coordinate (c, kind, pk, d))
       (fold (\<lambda>e d'. snd (put_parameterized timestamp_ok m c d e d')) es db)) = [snd (snd e)]"
proof -
  let ?evs = "(\<lambda>e. snd (snd e)) ` set es" and ?k = "(c, kind, pk, d)"
  let ?db = "fold (\<lambda>e d'. snd (put_parameterized timestamp_ok m c d e d')) es db"
  have one: "one_head (at_coordinate ?k) c ?evs db \<and> mark_below ?k db"
    using new empty by (auto simp: one_head_def mark_below_def image_image)
  have fits: "\<forall>e\<in>set es. snd (snd e) \<in> ?evs \<and> event_kind_i32 (snd (snd e)) = kind \<and> ev_pubkey (snd (snd e)) = pk \<and>
      timestamp_ok (as_i64 (ev_created_at (snd (snd e))))"
    using es(2) by blast
  note all = parameterized.put_all_def [of timestamp_ok m c d es db]
  obtain h where h: "live_head (at_coordinate ?k) ?db = Some h" "\<forall>e\<in>set es. dominates h (event_rank (snd (snd e)))"
    using parameterized.head_put_all [where m = m, OF one fits] es(1) unfolding all by blast
  have one': "one_head (at_coordinate ?k) c ?evs ?db"
    using parameterized.put_all_sound [where m = m, OF one fits] unfolding all by blast
  show ?thesis using head_is_event [OF one' h(1)] h(2) by auto
qed

section \<open>Read states never go back\<close>

text \<open>
  What can happen to a read-state coordinate: an event is submitted, with any fate of the transaction, the
  coordinate is deleted, or an event is deleted by its id.
\<close>

datatype read_state_op =
    Submit tx_fate bool instant "uuid option" nostr_event
  | DeleteCoordinate
  | DeleteEvent event_id

fun read_state_step ::
  "(int \<Rightarrow> bool) \<Rightarrow> CommunityId \<Rightarrow> pubkey \<Rightarrow> string \<Rightarrow> read_state_op \<Rightarrow> (int \<times> event_id) list \<times> event_db
     \<Rightarrow> (int \<times> event_id) list \<times> event_db" where
  "read_state_step ok c pk d (Submit fate m now ch ev) (acc, db) =
     (case replace_parameterized_event ok fate m now c ev d ch db of
        (res, db') \<Rightarrow> (case res of Inr (_, True) \<Rightarrow> acc @ [event_rank ev] | _ \<Rightarrow> acc, db'))"
| "read_state_step ok c pk d DeleteCoordinate (acc, db) =
     (acc, snd (soft_delete_by_coordinate (c, uint KIND_READ_STATE, pk, d) db))"
| "read_state_step ok c pk d (DeleteEvent i) (acc, db) = (acc, snd (soft_delete_event c i db))"

lemma retire_marks [simp]: "db_watermarks (snd (retire p db)) = db_watermarks db"
  by (simp add: retire_def)

lemma insert_row_marks: "insert_row r db = (b, db') \<Longrightarrow> db_watermarks db' = db_watermarks db"
  by (auto simp: insert_row_def split: if_splits)

lemma nip_rs_tx:
  assumes rs: "is_nip_rs ev d" and pk: "ev_pubkey ev = pk"
    and tx: "replace_parameterized_tx now c ev d ch db = ((s, inserted), db')"
  shows "inserted \<Longrightarrow> map_of (db_watermarks db') (c, uint KIND_READ_STATE, pk, d) = Some (event_rank ev) \<and>
      \<not> dominated_by (map_of (db_watermarks db) (c, uint KIND_READ_STATE, pk, d)) (event_rank ev)"
    "\<not> inserted \<Longrightarrow> db' = db"
proof -
  have k: "event_kind_i32 ev = uint KIND_READ_STATE" using rs by (simp add: is_nip_rs_def Let_def)
  show "inserted \<Longrightarrow> map_of (db_watermarks db') (c, uint KIND_READ_STATE, pk, d) = Some (event_rank ev) \<and>
      \<not> dominated_by (map_of (db_watermarks db) (c, uint KIND_READ_STATE, pk, d)) (event_rank ev)"
    using tx rs by (auto simp: replace_parameterized_tx_def Let_def k pk update_conv' split: if_splits prod.splits)
  show "\<not> inserted \<Longrightarrow> db' = db"
    using tx rs by (auto simp: replace_parameterized_tx_def Let_def split: if_splits prod.splits)
qed

definition mark_covers :: "coordinate \<Rightarrow> (int \<times> event_id) list \<times> event_db \<Rightarrow> bool" where
  "mark_covers k s \<longleftrightarrow> sorted_wrt (\<lambda>a b. \<not> dominates a b) (fst s) \<and>
     (\<forall>a\<in>set (fst s). \<exists>w. map_of (db_watermarks (snd s)) k = Some w \<and> dominates w a)"

definition read_state_event :: "pubkey \<Rightarrow> string \<Rightarrow> read_state_op \<Rightarrow> bool" where
  "read_state_event pk d op \<longleftrightarrow>
     (case op of Submit _ _ _ _ ev \<Rightarrow> is_nip_rs ev d \<and> ev_pubkey ev = pk | _ \<Rightarrow> True)"

lemma mark_covers_newer:
  assumes mc: "mark_covers k (acc, db)" and new: "\<not> dominated_by (map_of (db_watermarks db) k) x"
    and w: "map_of (db_watermarks db') k = Some x"
  shows "mark_covers k (acc, db')" "mark_covers k (acc @ [x], db')"
proof -
  have "\<not> dominates a x \<and> dominates x a" if "a \<in> set acc" for a
  proof -
    obtain w where w: "map_of (db_watermarks db) k = Some w" "dominates w a"
      using mc \<open>a \<in> set acc\<close> by (auto simp: mark_covers_def)
    then have "\<not> dominates w x" using new by (simp add: dominated_by_def)
    then show ?thesis using dominates_trans [OF w(2)] dominates_total [of a x] by blast
  qed
  then show "mark_covers k (acc, db')" "mark_covers k (acc @ [x], db')"
    using mc w by (auto simp: mark_covers_def sorted_wrt_append)
qed

lemma read_state_step_covers:
  assumes "mark_covers (c, uint KIND_READ_STATE, pk, d) s" "read_state_event pk d op"
  shows "mark_covers (c, uint KIND_READ_STATE, pk, d) (read_state_step ok c pk d op s)"
proof (cases op)
  case (Submit fate m now ch ev)
  let ?k = "(c, uint KIND_READ_STATE, pk, d)"
  obtain acc db where s: "s = (acc, db)" by fastforce
  obtain st ins db' where tx: "replace_parameterized_tx now c ev d ch db = ((st, ins), db')" by (metis surj_pair)
  have rs: "is_nip_rs ev d" "ev_pubkey ev = pk" using assms(2) by (simp_all add: read_state_event_def Submit)
  note step = nip_rs_tx [OF rs tx]
  have marks: "db_watermarks a = db_watermarks b \<Longrightarrow> mark_covers ?k (l, a) = mark_covers ?k (l, b)" for a b l
    by (simp add: mark_covers_def)
  have mc: "mark_covers ?k (acc, db)" "ins \<Longrightarrow> mark_covers ?k (acc, db')"
      "ins \<Longrightarrow> mark_covers ?k (acc @ [event_rank ev], db')" "\<not> ins \<Longrightarrow> db' = db"
    using assms(1) step mark_covers_newer [of ?k acc db "event_rank ev" db'] by (auto simp: s)
  let ?r = "with_mentions ok m c ev (settle fate db (replace_parameterized_tx now c ev d ch db))"
  have w: "db_watermarks (snd ?r) = (case fate of TxFails _ \<Rightarrow> db_watermarks db | _ \<Rightarrow> db_watermarks db')"
    "fst ?r = (case fate of TxAnswers \<Rightarrow> Inr (st, ins) | TxFails e \<Rightarrow> Inl (Sqlx e) | TxAnswerLost e \<Rightarrow> Inl (Sqlx e))"
    by (simp_all add: settle_def tx split: tx_fate.splits)
  show ?thesis
  proof (cases "ok (as_i64 (ev_created_at ev))")
    case False
    then show ?thesis using mc(1) by (simp add: s Submit replace_parameterized_event_def)
  next
    case True
    then have "read_state_step ok c pk d op s =
        (case fst ?r of Inr (_, True) \<Rightarrow> acc @ [event_rank ev] | _ \<Rightarrow> acc, snd ?r)"
      by (simp add: s Submit replace_parameterized_event_def case_prod_beta)
    then show ?thesis
      using mc w marks [of "snd ?r" db] marks [of "snd ?r" db'] by (cases fate; cases ins) auto
  qed
next
  case DeleteCoordinate
  then show ?thesis using assms(1) by (cases s) (simp add: mark_covers_def soft_delete_by_coordinate_def)
next
  case (DeleteEvent i)
  then show ?thesis using assms(1) by (cases s) (simp add: mark_covers_def soft_delete_event_def)
qed

text \<open>
  C23. A read state never goes back: of the events accepted for one read-state coordinate, each is newer than
  all accepted before it, even when the coordinate or its events were deleted in between, transactions
  failed or their answers were lost.
\<close>

theorem read_state_never_goes_back:
  assumes "\<forall>op\<in>set ops. read_state_event pk d op"
  shows "sorted_wrt (\<lambda>a b. \<not> dominates a b) (fst (fold (read_state_step ok c pk d) ops ([], db)))"
proof -
  have "mark_covers (c, uint KIND_READ_STATE, pk, d) (fold (read_state_step ok c pk d) ops s)"
    if "mark_covers (c, uint KIND_READ_STATE, pk, d) s" for s
    using that assms by (induction ops arbitrary: s) (simp_all add: read_state_step_covers)
  then show ?thesis by (simp add: mark_covers_def)
qed

section \<open>Reminders\<close>

text \<open>
  A reminder is claimed by one pod at a time: a claim succeeds only on a row that is not marked delivered
  and marks it, so a second claim fails until the first is released with its own stamp.
\<close>

lemma claim_excludes:
  assumes "claim_due_reminder_with_stamp c i t a db = (True, db')"
  shows "fst (claim_due_reminder_with_stamp c i t b db') = False"
proof -
  have db': "db_events db' = map (\<lambda>r. if is_row c i t r \<and> er_delivered_at r = None then r\<lparr>er_delivered_at := Some a\<rparr> else r) (db_events db)"
    using assms by (auto simp: claim_due_reminder_with_stamp_def set_delivered_def)
  have "\<not> (is_row c i t (if is_row c i t r \<and> er_delivered_at r = None then r\<lparr>er_delivered_at := Some a\<rparr> else r) \<and>
      er_delivered_at (if is_row c i t r \<and> er_delivered_at r = None then r\<lparr>er_delivered_at := Some a\<rparr> else r) = None)" for r
    by simp
  then have "filter (\<lambda>r. is_row c i t r \<and> er_delivered_at r = None) (db_events db') = []"
    unfolding db' filter_empty_conv set_map by blast
  then show ?thesis
    by (simp add: claim_due_reminder_with_stamp_def set_delivered_def)
qed

lemma release_needs_stamp:
  assumes "\<forall>r\<in>set (db_events db). is_row c i t r \<longrightarrow> er_delivered_at r \<noteq> Some b"
  shows "release_due_reminder c i t b db = (False, db)"
proof -
  have "filter (\<lambda>r. is_row c i t r \<and> er_delivered_at r = Some b) (db_events db) = []"
    using assms by (simp add: filter_empty_conv)
  moreover have "map (\<lambda>r. if is_row c i t r \<and> er_delivered_at r = Some b then r\<lparr>er_delivered_at := None\<rparr> else r) (db_events db) = db_events db"
    using assms by (intro map_idI) auto
  ultimately show ?thesis by (simp add: release_due_reminder_def set_delivered_def)
qed

section \<open>Examples\<close>

definition rep_event :: "string \<Rightarrow> nat \<Rightarrow> nostr_event" where
  "rep_event i t = \<lparr>ev_id = i, ev_pubkey = ''p'', ev_created_at = t, ev_kind = 30023, ev_tags = [], ev_content = []\<rparr>"

definition no_rows :: event_db where "no_rows = \<lparr>db_events = [], db_mentions = [], db_watermarks = []\<rparr>"

lemma rep_kind: "event_kind_i32 (rep_event i t) = 30023" "ev_pubkey (rep_event i t) = ''p''" "ev_id (rep_event i t) = i"
  by (simp_all add: rep_event_def event_kind_i32_eq)

definition rep_events :: "(instant \<times> nostr_event) list" where
  "rep_events = [(0, rep_event ''b'' 5), (1, rep_event ''a'' 5), (2, rep_event ''c'' 4)]"

theorem addressable_newest_wins_witness:
  "\<exists>e\<in>set rep_events. map er_event (live_at (at_address (CommunityId ''c'') 30023 ''p'' None)
     (fold (\<lambda>e d. snd (put_addressable (\<lambda>_. True) True (CommunityId ''c'') None e d)) rep_events no_rows)) = [snd e]"
proof -
  have es: "rep_events \<noteq> []" "\<forall>e\<in>set rep_events. event_kind_i32 (snd e) = 30023 \<and> ev_pubkey (snd e) = ''p'' \<and> True"
    "inj_on ev_id (snd ` set rep_events)"
    by (auto simp: rep_events_def rep_kind inj_on_def)
  have no: "\<forall>r\<in>set (db_events no_rows). er_community r = CommunityId ''c'' \<longrightarrow> ev_id (er_event r) \<notin> (\<lambda>e. ev_id (snd e)) ` set rep_events"
    "\<forall>r\<in>set (db_events no_rows). \<not> at_address (CommunityId ''c'') 30023 ''p'' None r"
    by (simp_all add: no_rows_def)
  show ?thesis
    using addressable_newest_wins [where timestamp_ok = "\<lambda>_. True" and m = True, OF no es]
    by (elim bexE conjE) (rule bexI)
qed

theorem parameterized_newest_wins_witness:
  "\<exists>e\<in>set rep_events. map er_event (live_at (at_coordinate (CommunityId ''c'', 30023, ''p'', ''d''))
     (fold (\<lambda>e d'. snd (put_parameterized (\<lambda>_. True) True (CommunityId ''c'') ''d'' e d'))
       (map (\<lambda>e. (fst e, None, snd e)) rep_events) no_rows)) = [snd e]"
proof -
  let ?es = "map (\<lambda>e. (fst e, None :: uuid option, snd e)) rep_events"
  have es: "?es \<noteq> []" "\<forall>e\<in>set ?es. event_kind_i32 (snd (snd e)) = 30023 \<and> ev_pubkey (snd (snd e)) = ''p'' \<and> True"
    by (simp_all add: rep_events_def rep_kind)
  have no: "\<forall>r\<in>set (db_events no_rows). er_community r = CommunityId ''c'' \<longrightarrow> ev_id (er_event r) \<notin> (\<lambda>e. ev_id (snd (snd e))) ` set ?es"
    "\<forall>r\<in>set (db_events no_rows). \<not> at_coordinate (CommunityId ''c'', 30023, ''p'', ''d'') r"
    "map_of (db_watermarks no_rows) (CommunityId ''c'', 30023, ''p'', ''d'') = None"
    by (simp_all add: no_rows_def)
  obtain e where e: "e \<in> set ?es" "map er_event (live_at (at_coordinate (CommunityId ''c'', 30023, ''p'', ''d''))
     (fold (\<lambda>e d'. snd (put_parameterized (\<lambda>_. True) True (CommunityId ''c'') ''d'' e d')) ?es no_rows)) = [snd (snd e)]"
    using parameterized_newest_wins [where timestamp_ok = "\<lambda>_. True" and m = True, OF no es]
    by (rule bexE) (erule conjE, rule that)
  then obtain e' where e': "e' \<in> set rep_events" "snd e' = snd (snd e)" by auto
  show ?thesis using e(2) unfolding e'(2) [symmetric] by (rule bexI [OF _ e'(1)])
qed

lemma newest_wins_example:
  "map (\<lambda>r. ev_id (er_event r)) (live_at (at_address (CommunityId ''c'') 30023 ''p'' None)
     (fold (\<lambda>e d. snd (put_addressable (\<lambda>_. True) True (CommunityId ''c'') None e d))
       rep_events no_rows)) = [''a'']"
  by code_simp

definition rs_event :: "string \<Rightarrow> nat \<Rightarrow> nostr_event" where
  "rs_event i t = \<lparr>ev_id = i, ev_pubkey = ''p'', ev_created_at = t, ev_kind = 30078,
     ev_tags = [\<lparr>tag_kind = ''d'', tag_content = Some (READ_STATE_PREFIX @ replicate 32 CHR ''0''),
         tag_slice = [''d'', READ_STATE_PREFIX @ replicate 32 CHR ''0'']\<rparr>,
       \<lparr>tag_kind = ''t'', tag_content = Some ''read-state'', tag_slice = [''t'', ''read-state'']\<rparr>], ev_content = []\<rparr>"

lemma rs_example:
  "fst (fold (read_state_step (\<lambda>_. True) (CommunityId ''c'') ''p'' (READ_STATE_PREFIX @ replicate 32 CHR ''0''))
     [Submit TxAnswers True 0 None (rs_event ''b'' 5), DeleteCoordinate, Submit TxAnswers True 1 None (rs_event ''a'' 4),
      Submit TxAnswers True 2 None (rs_event ''c'' 6)] ([], no_rows)) = [(5, ''b''), (6, ''c'')]"
  by code_simp

theorem read_state_never_goes_back_witness:
  "sorted_wrt (\<lambda>a b. \<not> dominates a b) [(5, ''b''), (6, ''c'')]"
proof -
  have "\<forall>op\<in>set [Submit TxAnswers True 0 None (rs_event ''b'' 5), DeleteCoordinate,
      Submit TxAnswers True 1 None (rs_event ''a'' 4), Submit TxAnswers True 2 None (rs_event ''c'' 6)].
      read_state_event ''p'' (READ_STATE_PREFIX @ replicate 32 CHR ''0'') op"
    by code_simp
  from read_state_never_goes_back [OF this, of "\<lambda>_. True" "CommunityId ''c''" no_rows]
  show ?thesis unfolding rs_example .
qed

end
