(* ===== verification/PairRelay.thy ===== *)
theory PairRelay
  imports Json "HOL-Library.Word" Prelude
begin

text \<open>
  The sidecar relay for pairing handshakes, crate \<open>buzz-pair-relay\<close>: validation of filters and events,
  the shared state (subscriptions, ids seen, deliveries per recipient, connection count), and the state
  of a connection with its handler. A connection and its frames are handled in the steps between which
  other connections may act: a request counts itself and, when there are too many, discounts itself; the
  upgrade follows, and the handler starts; an EVENT is validated, then reserves its id, then delivers,
  then, if that failed, gives the id back; a handler that ends removes its subscription and later drops
  its guard. Signatures, SHA-256 and the text of JSON are parameters; \<open>room n\<close> says whether the \<open>n\<close>-th
  message a step puts into a connection's channel finds room. Two clocks are read, each where the code
  reads it: instants (\<open>tokio::time::Instant\<close>, nanoseconds, never going back) and the wall clock
  (\<open>SystemTime\<close>, seconds, any value). Counters are natural numbers.
\<close>

unbundle bit_operations_syntax

section \<open>Limits\<close>

definition SECOND :: nat where "SECOND = 10 ^ 9"

definition MAX_CONNS :: nat where "MAX_CONNS = 128"
definition CONN_TIMEOUT :: nat where "CONN_TIMEOUT = 120 * SECOND"
definition KIND_PAIR :: nat where "KIND_PAIR = 24134"
definition RATE_WINDOW :: nat where "RATE_WINDOW = 10 * SECOND"
definition RATE_MSG_MAX :: nat where "RATE_MSG_MAX = 20"
definition RATE_EVENT_MAX :: nat where "RATE_EVENT_MAX = 10"
definition SUB_ID_MAX :: nat where "SUB_ID_MAX = 64"
definition MAX_EVENTS_PER_CONN :: nat where "MAX_EVENTS_PER_CONN = 6"
definition MAX_DELIVERED_PER_P :: nat where "MAX_DELIVERED_PER_P = 12"
definition DEDUP_CAP :: nat where "DEDUP_CAP = 1024"
definition DELIVERED_MAP_CAP :: nat where "DELIVERED_MAP_CAP = 4096"
definition ENTRY_TTL :: nat where "ENTRY_TTL = 300 * SECOND"
definition FRESHNESS_SECS :: int where "FRESHNESS_SECS = 120"

section \<open>Hex\<close>

type_synonym bytes = "8 word list"

definition is_lower_hex :: "string \<Rightarrow> nat \<Rightarrow> bool" where
  "is_lower_hex s len \<longleftrightarrow> length s = len \<and> list_all is_lower_hexdigit s"

text \<open>\<open>char::to_digit(16)\<close>.\<close>

definition to_digit16 :: "char \<Rightarrow> nat option" where
  "to_digit16 c =
     (let n = of_char c :: nat
      in if 48 \<le> n \<and> n \<le> 57 then Some (n - 48)
         else if 97 \<le> n \<and> n \<le> 102 then Some (n - 87)
         else if 65 \<le> n \<and> n \<le> 70 then Some (n - 55) else None)"

fun hex_pairs :: "string \<Rightarrow> bytes option" where
  "hex_pairs [] = Some []"
| "hex_pairs [c] = None"
| "hex_pairs (a # b # s) =
     (case (to_digit16 a, to_digit16 b) of
        (Some hi, Some lo) \<Rightarrow> map_option ((#) (word_of_nat (hi * 16 + lo))) (hex_pairs s)
      | _ \<Rightarrow> None)"

definition decode_hex32 :: "string \<Rightarrow> bytes option" where
  "decode_hex32 s = (if \<not> is_lower_hex s 64 then None else hex_pairs s)"

definition decode_hex64 :: "string \<Rightarrow> bytes option" where
  "decode_hex64 s = (if \<not> is_lower_hex s 128 then None else hex_pairs s)"

section \<open>Validation\<close>

definition validate_filter :: "json \<Rightarrow> string + bytes" where
  "validate_filter f =
     (case jv_object f of
        None \<Rightarrow> Err ''filter must be an object''
      | Some obj \<Rightarrow>
          if \<not> list_all (\<lambda>kv. fst kv = ''kinds'' \<or> fst kv = ''#p'') obj then Err ''unsupported filter field''
          else
            let p_arr = opt_then (map_of obj ''#p'') jv_array;
                rest = (case p_arr of
                    None \<Rightarrow> Err ''#p filter required''
                  | Some ps \<Rightarrow>
                      if length ps \<noteq> 1 then Err ''#p must have exactly one value''
                      else case jv_str (hd ps) of
                          None \<Rightarrow> Err ''#p value must be a string''
                        | Some p_str \<Rightarrow> ok_or (decode_hex32 p_str) ''#p value must be 64 lowercase hex chars'')
            in case map_of obj ''kinds'' of
                 None \<Rightarrow> rest
               | Some kinds \<Rightarrow>
                   (case jv_array kinds of
                      None \<Rightarrow> Err ''kinds must be an array''
                    | Some arr \<Rightarrow>
                        if length arr \<noteq> 1 \<or> jv_u64 (hd arr) \<noteq> Some KIND_PAIR then Err ''kinds must be [24134]''
                        else rest))"

definition is_base64_char :: "char \<Rightarrow> bool" where
  "is_base64_char c \<longleftrightarrow> is_ascii_alphanumeric c \<or> c = CHR ''+'' \<or> c = CHR ''/''"

text \<open>The loop over the characters: position, length and padding seen; the result is the padding.\<close>

fun check_base64 :: "nat \<Rightarrow> nat \<Rightarrow> nat \<Rightarrow> string \<Rightarrow> nat option" where
  "check_base64 len i pad_count [] = Some pad_count"
| "check_base64 len i pad_count (b # bs) =
     (if is_base64_char b
      then (if pad_count > 0 then None else check_base64 len (i + 1) pad_count bs)
      else if b = CHR ''=''
      then (if i + 2 < len then None
            else if pad_count + 1 > 2 then None
            else check_base64 len (i + 1) (pad_count + 1) bs)
      else None)"

definition b64_val :: "char \<Rightarrow> nat option" where
  "b64_val c =
     (let n = of_char c :: nat
      in if 65 \<le> n \<and> n \<le> 90 then Some (n - 65)
         else if 97 \<le> n \<and> n \<le> 122 then Some (n - 97 + 26)
         else if 48 \<le> n \<and> n \<le> 57 then Some (n - 48 + 52)
         else if c = CHR ''+'' then Some 62
         else if c = CHR ''/'' then Some 63
         else None)"

definition validate_nip44_content :: "string \<Rightarrow> string + unit" where
  "validate_nip44_content content =
     (if content = [] then Err ''content must not be empty''
      else
        let len = length content
        in if len mod 4 \<noteq> 0 then Err ''content is not valid base64''
           else case check_base64 len 0 0 content of
               None \<Rightarrow> Err ''content is not valid base64''
             | Some pad_count \<Rightarrow>
                 if len div 4 * 3 - pad_count < 99 then Err ''content too short for NIP-44 v2''
                 else case (b64_val (content ! 0), b64_val (content ! 1)) of
                     (Some v0, Some v1) \<Rightarrow>
                       if (push_bit 2 (word_of_nat v0) OR drop_bit 4 (word_of_nat v1) :: 8 word) \<noteq> 2
                       then Err ''content is not NIP-44 v2 (expected 0x02 prefix)'' else Ok ()
                   | _ \<Rightarrow> Err ''content is not valid base64'')"

definition ALLOWED_KEYS :: "string list" where
  "ALLOWED_KEYS = [''id'', ''pubkey'', ''created_at'', ''kind'', ''tags'', ''content'', ''sig'']"

text \<open>The string under a key of an object.\<close>

definition str_field :: "(string \<times> json) list \<Rightarrow> string \<Rightarrow> string option" where
  "str_field obj k = opt_then (map_of obj k) jv_str"

definition validate_tag :: "json list \<Rightarrow> string + bytes" where
  "validate_tag tags =
     (if length tags \<noteq> 1 then Err ''event must have exactly one p tag''
      else case jv_array (hd tags) of
          None \<Rightarrow> Err ''tag must be an array''
        | Some tag \<Rightarrow>
            if length tag \<noteq> 2 then Err ''p tag must have exactly 2 elements''
            else if jv_str (tag ! 0) \<noteq> Some ''p'' then Err ''event must have exactly one p tag''
            else case jv_str (tag ! 1) of
                None \<Rightarrow> Err ''p tag value must be a string''
              | Some p_str \<Rightarrow> ok_or (decode_hex32 p_str) ''p tag value must be 64 lowercase hex chars'')"

definition require :: "bool \<Rightarrow> string \<Rightarrow> string + unit" where
  "require b e = (if b then Ok () else Err e)"

definition validate_event :: "int \<Rightarrow> json \<Rightarrow> string + string \<times> bytes \<times> bytes" where
  "validate_event wall ev =
     and_then (ok_or (jv_object ev) ''event must be an object'') (\<lambda>obj.
     and_then (require (list_all (\<lambda>kv. fst kv \<in> set ALLOWED_KEYS) obj) ''unknown top-level field'') (\<lambda>_.
     and_then (ok_or (str_field obj ''id'') ''missing id'') (\<lambda>eid.
     and_then (require (is_lower_hex eid 64) ''id must be 64 lowercase hex chars'') (\<lambda>_.
     and_then (ok_or (decode_hex32 eid) ''id must be 64 lowercase hex chars'') (\<lambda>id_bytes.
     and_then (ok_or (str_field obj ''pubkey'') ''missing pubkey'') (\<lambda>pubkey.
     and_then (require (is_lower_hex pubkey 64) ''pubkey must be 64 lowercase hex chars'') (\<lambda>_.
     and_then (require (opt_then (map_of obj ''kind'') jv_u64 = Some KIND_PAIR) ''kind must be 24134'') (\<lambda>_.
     and_then (ok_or (opt_then (map_of obj ''created_at'') jv_i64) ''missing created_at'') (\<lambda>created_at.
     and_then (require (\<not> \<bar>created_at - wall\<bar> > FRESHNESS_SECS) ''created_at outside freshness window'') (\<lambda>_.
     and_then (ok_or (str_field obj ''content'') ''missing content'') (\<lambda>content.
     and_then (validate_nip44_content content) (\<lambda>_.
     and_then (ok_or (str_field obj ''sig'') ''missing sig'') (\<lambda>sig.
     and_then (require (is_lower_hex sig 128) ''sig must be 128 lowercase hex chars'') (\<lambda>_.
     and_then (ok_or (opt_then (map_of obj ''tags'') jv_array) ''missing tags'') (\<lambda>tags.
     and_then (validate_tag tags) (\<lambda>p_bytes.
     Ok (eid, id_bytes, p_bytes)))))))))))))))))"

definition safe_event_id :: "json \<Rightarrow> string" where
  "safe_event_id ev =
     (case opt_then (json_get ev ''id'') jv_str of
        Some s \<Rightarrow> if is_lower_hex s 64 then s else []
      | None \<Rightarrow> [])"

record pair_lib =
  pl_json_to_string :: "json \<Rightarrow> string option"
  pl_sha256 :: "string \<Rightarrow> bytes"
  pl_xonly_ok :: "bytes \<Rightarrow> bool"
  pl_verify_schnorr :: "bytes \<Rightarrow> bytes \<Rightarrow> bytes \<Rightarrow> bool"

definition verify_event_sig :: "pair_lib \<Rightarrow> json \<Rightarrow> string + unit" where
  "verify_event_sig lib ev =
     and_then (ok_or (jv_object ev) ''event must be an object'') (\<lambda>obj.
     and_then (ok_or (str_field obj ''pubkey'') ''missing pubkey'') (\<lambda>pubkey_str.
     and_then (ok_or (opt_then (map_of obj ''created_at'') jv_i64) ''missing created_at'') (\<lambda>created_at.
     and_then (ok_or (opt_then (map_of obj ''kind'') jv_u64) ''missing kind'') (\<lambda>kind.
     and_then (ok_or (map_of obj ''tags'') ''missing tags'') (\<lambda>tags.
     and_then (ok_or (str_field obj ''content'') ''missing content'') (\<lambda>content.
     and_then (ok_or (str_field obj ''id'') ''missing id'') (\<lambda>id_str.
     and_then (ok_or (str_field obj ''sig'') ''missing sig'') (\<lambda>sig_str.
     let commitment = JArray [JNumber ''0'', JString pubkey_str, JNumber (show_int created_at),
           JNumber (show_nat kind), tags, JString content]
     in
     and_then (ok_or (pl_json_to_string lib commitment) ''failed to serialize commitment'') (\<lambda>commitment_json.
     let hash = pl_sha256 lib commitment_json
     in
     and_then (ok_or (decode_hex32 id_str) ''id must be 64 lowercase hex chars'') (\<lambda>id_bytes.
     and_then (require (hash = id_bytes) ''invalid: event id mismatch'') (\<lambda>_.
     and_then (ok_or (decode_hex32 pubkey_str) ''pubkey must be 64 lowercase hex chars'') (\<lambda>pubkey_bytes.
     and_then (require (pl_xonly_ok lib pubkey_bytes) ''invalid: bad pubkey'') (\<lambda>_.
     and_then (ok_or (decode_hex64 sig_str) ''sig must be 128 lowercase hex chars'') (\<lambda>sig_bytes.
     require (pl_verify_schnorr lib sig_bytes hash pubkey_bytes) ''invalid: signature verification failed''))))))))))))))"

section \<open>The shared state\<close>

type_synonym conn_id = nat

record pair_sub =
  ps_conn_id :: conn_id
  ps_sub_id :: string
  ps_p_value :: bytes

record rate_window =
  rw_count :: nat
  rw_window_start :: nat

text \<open>
  Where a connection stands: before its handler starts, between frames, after an EVENT passed validation,
  after the reservation of its id, after a delivery that failed with the answer it will give, or past the
  loop with the guard still to be dropped.
\<close>

datatype handler_phase =
    Upgrading
  | BetweenFrames
  | Validated string bytes bytes json
  | Reserved string bytes bytes json
  | Failed string bytes string
  | Leaving

record pair_conn =
  pc_msg_rate :: rate_window
  pc_event_rate :: rate_window
  pc_sub_id :: "string option"
  pc_events_attempted :: nat
  pc_deadline :: nat
  pc_phase :: handler_phase

text \<open>Beside the fields of \<open>Relay\<close>: the requests counted and about to be refused, and the connections.\<close>

record pair_relay =
  pr_subs :: "pair_sub list"
  pr_conn_count :: nat
  pr_refusing :: nat
  pr_next_conn_id :: nat
  pr_seen_ids :: "(bytes \<times> nat) list"
  pr_delivered :: "(bytes \<times> nat \<times> nat) list"
  pr_conns :: "(conn_id \<times> pair_conn) list"

definition Relay_new :: pair_relay where
  "Relay_new = \<lparr>pr_subs = [], pr_conn_count = 0, pr_refusing = 0, pr_next_conn_id = 0, pr_seen_ids = [], pr_delivered = [],
     pr_conns = []\<rparr>"

definition fresh_entry :: "nat \<Rightarrow> nat \<Rightarrow> bool" where
  "fresh_entry now ts \<longleftrightarrow> now - ts < ENTRY_TTL"

datatype reservation = Duplicate | New | AtCapacity

definition reserve_id :: "nat \<Rightarrow> bytes \<Rightarrow> pair_relay \<Rightarrow> reservation \<times> pair_relay" where
  "reserve_id now i st =
     (let vec = filter (\<lambda>e. fresh_entry now (snd e)) (pr_seen_ids st); st' = st\<lparr>pr_seen_ids := vec\<rparr>
      in if list_ex (\<lambda>e. fst e = i) vec then (Duplicate, st')
         else if length vec \<ge> DEDUP_CAP then (AtCapacity, st')
         else (New, st\<lparr>pr_seen_ids := vec @ [(i, now)]\<rparr>))"

text \<open>\<open>position\<close> and \<open>swap_remove\<close>: the last element takes the place of the removed one.\<close>

definition swap_remove :: "nat \<Rightarrow> 'a list \<Rightarrow> 'a list" where
  "swap_remove k xs = butlast (xs[k := last xs])"

fun position :: "('a \<Rightarrow> bool) \<Rightarrow> 'a list \<Rightarrow> nat option" where
  "position p [] = None"
| "position p (x # xs) = (if p x then Some 0 else map_option Suc (position p xs))"

definition unreserve_id :: "bytes \<Rightarrow> pair_relay \<Rightarrow> pair_relay" where
  "unreserve_id i st =
     (case position (\<lambda>e. fst e = i) (pr_seen_ids st) of
        Some pos \<Rightarrow> st\<lparr>pr_seen_ids := swap_remove pos (pr_seen_ids st)\<rparr>
      | None \<Rightarrow> st)"

datatype out_msg = Text json | Pong string | Close

text \<open>What a step puts into channels, in order: the connection and the message.\<close>

type_synonym pair_out = "(conn_id \<times> out_msg) list"

definition try_send :: "bool \<Rightarrow> conn_id \<Rightarrow> out_msg \<Rightarrow> pair_out" where
  "try_send room c m = (if room then [(c, m)] else [])"

text \<open>The result of a delivery: a message delivered or not, or the reason it is rejected.\<close>

definition deliver_single ::
  "pair_lib \<Rightarrow> nat \<Rightarrow> bool \<Rightarrow> bytes \<Rightarrow> json \<Rightarrow> pair_relay \<Rightarrow> (string + bool) \<times> pair_out \<times> pair_relay" where
  "deliver_single lib now room p ev st =
     (case filter (\<lambda>s. ps_p_value s = p) (pr_subs st) of
        [] \<Rightarrow> (Err ''no live subscriber'', [], st)
      | [sub] \<Rightarrow>
          (let delivered = filter (\<lambda>e. fresh_entry now (snd (snd e))) (pr_delivered st);
               st' = st\<lparr>pr_delivered := delivered\<rparr>;
               count = (case map_of delivered p of Some (n, _) \<Rightarrow> n | None \<Rightarrow> 0);
               msg = JArray [JString ''EVENT'', JString (ps_sub_id sub), ev]
           in if count \<ge> MAX_DELIVERED_PER_P then (Err ''recipient session budget exhausted'', [], st')
              else if length delivered \<ge> DELIVERED_MAP_CAP \<and> map_of delivered p = None
              then (Err ''relay at capacity'', [], st')
              else if pl_json_to_string lib msg = None then (Ok False, [], st')
              else if room
              then (Ok True, [(ps_conn_id sub, Text msg)],
                    st\<lparr>pr_delivered := AList.update p (count + 1, now) delivered\<rparr>)
              else (Ok False, [], st'))
      | _ \<Rightarrow> (Err ''ambiguous recipient'', [], st))"

definition remove_sub :: "conn_id \<Rightarrow> pair_relay \<Rightarrow> pair_relay" where
  "remove_sub c st = st\<lparr>pr_subs := filter (\<lambda>s. ps_conn_id s \<noteq> c) (pr_subs st)\<rparr>"

definition RateWindow_new :: "nat \<Rightarrow> rate_window" where
  "RateWindow_new now = \<lparr>rw_count = 0, rw_window_start = now\<rparr>"

definition tick :: "nat \<Rightarrow> rate_window \<Rightarrow> rate_window" where
  "tick now w =
     (let w' = (if now - rw_window_start w \<ge> RATE_WINDOW then \<lparr>rw_count = 0, rw_window_start = now\<rparr> else w)
      in w'\<lparr>rw_count := rw_count w' + 1\<rparr>)"

definition make_ok :: "string \<Rightarrow> bool \<Rightarrow> string \<Rightarrow> out_msg" where
  "make_ok i ok msg = Text (JArray [JString ''OK'', JString i, JBool ok, JString msg])"

definition make_closed :: "string \<Rightarrow> string \<Rightarrow> out_msg" where
  "make_closed s msg = Text (JArray [JString ''CLOSED'', JString s, JString msg])"

definition make_eose :: "string \<Rightarrow> out_msg" where
  "make_eose s = Text (JArray [JString ''EOSE'', JString s])"

definition make_notice :: "string \<Rightarrow> out_msg" where
  "make_notice msg = Text (JArray [JString ''NOTICE'', JString msg])"

section \<open>Connections\<close>

text \<open>
  The request counts itself before it looks at the count. A connection that gets a slot waits for its
  upgrade; its windows and its deadline start with its handler.
\<close>

definition open_conn :: "pair_relay \<Rightarrow> conn_id option \<times> pair_relay" where
  "open_conn st =
     (let before = pr_conn_count st; st1 = st\<lparr>pr_conn_count := before + 1\<rparr>
      in if before \<ge> MAX_CONNS then (None, st1\<lparr>pr_refusing := pr_refusing st + 1\<rparr>)
         else
           let c = pr_next_conn_id st;
               conn = \<lparr>pc_msg_rate = RateWindow_new 0, pc_event_rate = RateWindow_new 0, pc_sub_id = None,
                 pc_events_attempted = 0, pc_deadline = 0, pc_phase = Upgrading\<rparr>
           in (Some c, st1\<lparr>pr_next_conn_id := c + 1, pr_conns := (c, conn) # pr_conns st\<rparr>))"

text \<open>A request that found no slot discounts itself and answers 503.\<close>

definition refuse_conn :: "pair_relay \<Rightarrow> pair_relay" where
  "refuse_conn st =
     (if pr_refusing st = 0 then st
      else st\<lparr>pr_conn_count := pr_conn_count st - 1, pr_refusing := pr_refusing st - 1\<rparr>)"

text \<open>An upgrade that fails gives the slot back without a handler.\<close>

definition fail_upgrade :: "conn_id \<Rightarrow> pair_relay \<Rightarrow> pair_relay" where
  "fail_upgrade c st =
     st\<lparr>pr_conn_count := pr_conn_count st - 1, pr_conns := filter (\<lambda>e. fst e \<noteq> c) (pr_conns st)\<rparr>"

text \<open>The drop of the handler's guard.\<close>

definition close_conn :: "conn_id \<Rightarrow> pair_relay \<Rightarrow> pair_relay" where
  "close_conn c st =
     (let st' = remove_sub c st
      in st'\<lparr>pr_conn_count := pr_conn_count st' - 1, pr_conns := filter (\<lambda>e. fst e \<noteq> c) (pr_conns st')\<rparr>)"

definition set_conn :: "conn_id \<Rightarrow> pair_conn \<Rightarrow> pair_relay \<Rightarrow> pair_relay" where
  "set_conn c conn st = st\<lparr>pr_conns := AList.update c conn (pr_conns st)\<rparr>"

datatype frame = BinaryFrame | PingFrame string | PongFrame | CloseFrame | TextFrame "json option" | FrameError

text \<open>The start of the handler after the upgrade.\<close>

definition on_upgraded :: "nat \<Rightarrow> conn_id \<Rightarrow> pair_relay \<Rightarrow> pair_relay" where
  "on_upgraded now c st =
     (case map_of (pr_conns st) c of
        None \<Rightarrow> st
      | Some conn \<Rightarrow>
          if pc_phase conn \<noteq> Upgrading then st
          else set_conn c (conn\<lparr>pc_msg_rate := RateWindow_new now, pc_event_rate := RateWindow_new now,
                 pc_deadline := now + CONN_TIMEOUT, pc_phase := BetweenFrames\<rparr>) st)"

definition on_upgrade_failed :: "conn_id \<Rightarrow> pair_relay \<Rightarrow> pair_relay" where
  "on_upgrade_failed c st =
     (case map_of (pr_conns st) c of
        None \<Rightarrow> st
      | Some conn \<Rightarrow> if pc_phase conn \<noteq> Upgrading then st else fail_upgrade c st)"

text \<open>
  Leaving the loop: the subscription goes and a Close message is sent when it finds room. The handler
  then waits for its writer before its guard is dropped.
\<close>

definition leave :: "bool \<Rightarrow> conn_id \<Rightarrow> pair_conn \<Rightarrow> pair_relay \<Rightarrow> pair_out \<times> pair_relay" where
  "leave room c conn st =
     (try_send room c Close,
      set_conn c (conn\<lparr>pc_sub_id := None, pc_phase := Leaving\<rparr>) (remove_sub c st))"

definition on_drop :: "conn_id \<Rightarrow> pair_relay \<Rightarrow> pair_relay" where
  "on_drop c st =
     (case map_of (pr_conns st) c of
        None \<Rightarrow> st
      | Some conn \<Rightarrow> if pc_phase conn \<noteq> Leaving then st else close_conn c st)"

definition on_req :: "(nat \<Rightarrow> bool) \<Rightarrow> conn_id \<Rightarrow> pair_conn \<Rightarrow> json list \<Rightarrow> pair_relay \<Rightarrow> pair_out \<times> pair_relay" where
  "on_req room c conn arr st =
     (case (if length arr < 3 then None else jv_str (arr ! 1)) of
        None \<Rightarrow> (try_send (room 0) c (make_notice ''error: invalid REQ''), st)
      | Some client_sub_id \<Rightarrow>
          if \<not> length client_sub_id \<le> SUB_ID_MAX
          then (try_send (room 0) c (make_closed [] ''error: sub_id too long''), st)
          else if length arr > 3
          then (try_send (room 0) c (make_closed client_sub_id ''error: multiple filters not supported''), st)
          else if jv_object (arr ! 2) = None
          then (try_send (room 0) c (make_closed client_sub_id ''error: invalid filter''), st)
          else if pc_sub_id conn \<noteq> None
          then (try_send (room 0) c (make_closed client_sub_id ''error: already subscribed, send CLOSE first''), st)
          else case validate_filter (arr ! 2) of
              Inl reason \<Rightarrow> (try_send (room 0) c (make_closed client_sub_id (''error: '' @ reason)), st)
            | Inr p_value \<Rightarrow>
                if list_ex (\<lambda>s. ps_p_value s = p_value) (pr_subs st)
                then (try_send (room 0) c (make_closed client_sub_id ''error: #p already has a live subscriber''), st)
                else if \<not> room 0 then leave (room 1) c conn st
                else (try_send (room 0) c (make_eose client_sub_id),
                      set_conn c (conn\<lparr>pc_sub_id := Some client_sub_id\<rparr>)
                        (st\<lparr>pr_subs := pr_subs st @ [\<lparr>ps_conn_id = c, ps_sub_id = client_sub_id,
                           ps_p_value = p_value\<rparr>]\<rparr>)))"

text \<open>An EVENT up to the end of its validation and of the verification of its signature.\<close>

definition on_event ::
  "pair_lib \<Rightarrow> nat \<Rightarrow> int \<Rightarrow> bool \<Rightarrow> conn_id \<Rightarrow> pair_conn \<Rightarrow> json list \<Rightarrow> pair_relay \<Rightarrow> pair_out \<times> pair_relay" where
  "on_event lib now wall room c conn arr st =
     (if length arr \<noteq> 2 then (try_send room c (make_notice ''error: invalid EVENT''), st)
      else
        let ev = arr ! 1; conn1 = conn\<lparr>pc_event_rate := tick now (pc_event_rate conn)\<rparr>;
            st1 = set_conn c conn1 st;
            answer = (\<lambda>i msg. (try_send room c (make_ok i False msg), st1))
        in if rw_count (pc_event_rate conn1) > RATE_EVENT_MAX then answer (safe_event_id ev) ''rate-limited''
           else if pc_events_attempted conn1 \<ge> MAX_EVENTS_PER_CONN
           then answer (safe_event_id ev) ''error: session event limit reached''
           else if jv_object ev = None then answer [] ''invalid: malformed event''
           else case validate_event wall ev of
               Inl reason \<Rightarrow> answer (safe_event_id ev) (''invalid: '' @ reason)
             | Inr (event_id, id_bytes, p_value) \<Rightarrow>
                 (case verify_event_sig lib ev of
                    Inl reason \<Rightarrow> answer event_id reason
                  | Inr _ \<Rightarrow>
                      ([], set_conn c (conn1\<lparr>pc_events_attempted := pc_events_attempted conn1 + 1,
                         pc_phase := Validated event_id id_bytes p_value ev\<rparr>) st)))"

text \<open>The reservation of the id, under the lock of the table.\<close>

definition on_reserve :: "nat \<Rightarrow> bool \<Rightarrow> conn_id \<Rightarrow> pair_relay \<Rightarrow> pair_out \<times> pair_relay" where
  "on_reserve now room c st =
     (case map_of (pr_conns st) c of
        None \<Rightarrow> ([], st)
      | Some conn \<Rightarrow>
          (case pc_phase conn of
             Validated event_id id_bytes p_value ev \<Rightarrow>
               (case reserve_id now id_bytes st of
                  (Duplicate, st') \<Rightarrow>
                    (try_send room c (make_ok event_id False ''duplicate: already seen''),
                     set_conn c (conn\<lparr>pc_phase := BetweenFrames\<rparr>) st')
                | (AtCapacity, st') \<Rightarrow>
                    (try_send room c (make_ok event_id False ''relay at capacity''),
                     set_conn c (conn\<lparr>pc_phase := BetweenFrames\<rparr>) st')
                | (New, st') \<Rightarrow>
                    ([], set_conn c (conn\<lparr>pc_phase := Reserved event_id id_bytes p_value ev\<rparr>) st'))
           | _ \<Rightarrow> ([], st)))"

definition on_close :: "bool \<Rightarrow> conn_id \<Rightarrow> pair_conn \<Rightarrow> json list \<Rightarrow> pair_relay \<Rightarrow> pair_out \<times> pair_relay" where
  "on_close room c conn arr st =
     (if length arr \<noteq> 2 then (try_send room c (make_notice ''error: invalid CLOSE''), st)
      else case jv_str (arr ! 1) of
          Some sid \<Rightarrow>
            if pc_sub_id conn = Some sid
            then ([], set_conn c (conn\<lparr>pc_sub_id := None\<rparr>) (remove_sub c st)) else ([], st)
        | None \<Rightarrow> (try_send room c (make_notice ''error: invalid CLOSE''), st))"

definition on_text ::
  "pair_lib \<Rightarrow> nat \<Rightarrow> int \<Rightarrow> (nat \<Rightarrow> bool) \<Rightarrow> conn_id \<Rightarrow> pair_conn \<Rightarrow> json option \<Rightarrow> pair_relay \<Rightarrow> pair_out \<times> pair_relay" where
  "on_text lib now wall room c conn parsed st =
     (case opt_then parsed jv_array of
        Some (v # vs) \<Rightarrow>
          (case jv_str v of
             None \<Rightarrow> (try_send (room 0) c (make_notice ''error: invalid message''), st)
           | Some verb \<Rightarrow>
               if verb = ''REQ'' then on_req room c conn (v # vs) st
               else if verb = ''EVENT'' then on_event lib now wall (room 0) c conn (v # vs) st
               else if verb = ''CLOSE'' then on_close (room 0) c conn (v # vs) st
               else (try_send (room 0) c (make_notice ''error: unsupported message''), st))
      | _ \<Rightarrow> (try_send (room 0) c (make_notice ''error: invalid message''), st))"

text \<open>A frame that arrives between frames.\<close>

definition on_frame ::
  "pair_lib \<Rightarrow> nat \<Rightarrow> int \<Rightarrow> (nat \<Rightarrow> bool) \<Rightarrow> conn_id \<Rightarrow> frame \<Rightarrow> pair_relay \<Rightarrow> pair_out \<times> pair_relay" where
  "on_frame lib now wall room c f st =
     (case map_of (pr_conns st) c of
        None \<Rightarrow> ([], st)
      | Some conn0 \<Rightarrow>
          if pc_phase conn0 \<noteq> BetweenFrames then ([], st)
          else
            let conn = conn0\<lparr>pc_msg_rate := tick now (pc_msg_rate conn0)\<rparr>; st1 = set_conn c conn st
            in if rw_count (pc_msg_rate conn) > RATE_MSG_MAX then leave (room 0) c conn st1
               else case f of
                   FrameError \<Rightarrow> leave (room 0) c conn st1
                 | BinaryFrame \<Rightarrow> leave (room 0) c conn st1
                 | PingFrame d \<Rightarrow> if room 0 then ([(c, Pong d)], st1) else leave (room 1) c conn st1
                 | PongFrame \<Rightarrow> ([], st1)
                 | CloseFrame \<Rightarrow>
                     (let (out, st2) = leave (room 1) c conn st1 in (try_send (room 0) c Close @ out, st2))
                 | TextFrame parsed \<Rightarrow> on_text lib now wall room c conn parsed st1)"

text \<open>The delivery after a reservation, and the return of the id after a delivery that failed.\<close>

definition on_deliver ::
  "pair_lib \<Rightarrow> nat \<Rightarrow> (nat \<Rightarrow> bool) \<Rightarrow> conn_id \<Rightarrow> pair_relay \<Rightarrow> pair_out \<times> pair_relay" where
  "on_deliver lib now room c st =
     (case map_of (pr_conns st) c of
        None \<Rightarrow> ([], st)
      | Some conn \<Rightarrow>
          (case pc_phase conn of
             Reserved event_id id_bytes p_value ev \<Rightarrow>
               (case deliver_single lib now (room 0) p_value ev st of
                  (Inr True, out, st') \<Rightarrow>
                    (out @ try_send (room 1) c (make_ok event_id True []),
                     set_conn c (conn\<lparr>pc_phase := BetweenFrames\<rparr>) st')
                | (Inr False, out, st') \<Rightarrow>
                    (out, set_conn c (conn\<lparr>pc_phase := Failed event_id id_bytes ''delivery failed''\<rparr>) st')
                | (Inl reason, out, st') \<Rightarrow>
                    (out, set_conn c (conn\<lparr>pc_phase := Failed event_id id_bytes reason\<rparr>) st'))
           | _ \<Rightarrow> ([], st)))"

definition on_unreserve :: "bool \<Rightarrow> conn_id \<Rightarrow> pair_relay \<Rightarrow> pair_out \<times> pair_relay" where
  "on_unreserve room c st =
     (case map_of (pr_conns st) c of
        None \<Rightarrow> ([], st)
      | Some conn \<Rightarrow>
          (case pc_phase conn of
             Failed event_id id_bytes reason \<Rightarrow>
               (try_send room c (make_ok event_id False reason),
                set_conn c (conn\<lparr>pc_phase := BetweenFrames\<rparr>) (unreserve_id id_bytes st))
           | _ \<Rightarrow> ([], st)))"

text \<open>The deadline, the end of the writer or of the stream, between frames.\<close>

definition on_end :: "bool \<Rightarrow> conn_id \<Rightarrow> pair_relay \<Rightarrow> pair_out \<times> pair_relay" where
  "on_end room c st =
     (case map_of (pr_conns st) c of
        Some conn \<Rightarrow> if pc_phase conn = BetweenFrames then leave room c conn st else ([], st)
      | None \<Rightarrow> ([], st))"

end
