(* ===== verification/PairRelayProps.thy ===== *)
theory PairRelayProps
  imports PairRelay
begin

text \<open>
  The sidecar relay runs: its connections' steps interleave in any order, at instants that do not go back
  and with a wall clock that may show anything. The shared state keeps its shape and its bounds, and what
  a handler has validated was validated with the wall clock of the moment its frame was handled.
\<close>

section \<open>Validation\<close>

definition event_id_of :: "json \<Rightarrow> string option" where
  "event_id_of ev = opt_then (jv_object ev) (\<lambda>obj. str_field obj ''id'')"

definition created_at_of :: "json \<Rightarrow> int option" where
  "created_at_of ev = opt_then (jv_object ev) (\<lambda>obj. opt_then (map_of obj ''created_at'') jv_i64)"

lemma opt_then_simps [simp]: "opt_then None g = None" "opt_then (Some a) g = g a"
  by (simp_all add: opt_then_def)

lemma require_Ok [simp]: "require b e = Inr u \<longleftrightarrow> b"
  by (simp add: require_def)

lemma hex_pairs_length: "hex_pairs s = Some bs \<Longrightarrow> length s = 2 * length bs"
  by (induction s arbitrary: bs rule: hex_pairs.induct) (auto split: option.splits)

lemma decode_hex32_length: "decode_hex32 s = Some bs \<Longrightarrow> length bs = 32"
  by (auto simp: decode_hex32_def is_lower_hex_def dest: hex_pairs_length split: if_splits)

lemma validate_event_Ok:
  assumes "validate_event wall ev = Inr (e, i, p)"
  shows "event_id_of ev = Some e" "decode_hex32 e = Some i" "length p = 32"
    and "\<exists>ca. created_at_of ev = Some ca \<and> \<bar>ca - wall\<bar> \<le> FRESHNESS_SECS"
  using assms
  by (auto simp: validate_event_def and_then_eq_Ok event_id_of_def created_at_of_def validate_tag_def
      dest: decode_hex32_length split: if_splits option.splits)

lemma validate_filter_Ok: "validate_filter f = Inr p \<Longrightarrow> length p = 32"
  by (auto simp: validate_filter_def Let_def dest: decode_hex32_length split: if_splits option.splits)

section \<open>The shape of the state\<close>

definition checked :: "pair_lib \<Rightarrow> int \<Rightarrow> json \<Rightarrow> string \<Rightarrow> bytes \<Rightarrow> bytes \<Rightarrow> bool" where
  "checked lib wall ev e i p \<longleftrightarrow> validate_event wall ev = Inr (e, i, p) \<and> verify_event_sig lib ev = Inr ()"

definition conn_ok :: "pair_lib \<Rightarrow> pair_conn \<Rightarrow> bool" where
  "conn_ok lib conn \<longleftrightarrow> pc_events_attempted conn \<le> MAX_EVENTS_PER_CONN \<and>
     (case pc_phase conn of
        Validated e i p ev \<Rightarrow> (\<exists>wall. checked lib wall ev e i p)
      | Reserved e i p ev \<Rightarrow> (\<exists>wall. checked lib wall ev e i p)
      | Upgrading \<Rightarrow> pc_sub_id conn = None
      | Leaving \<Rightarrow> pc_sub_id conn = None
      | _ \<Rightarrow> True)"

definition pair_conns_ok :: "pair_lib \<Rightarrow> pair_relay \<Rightarrow> bool" where
  "pair_conns_ok lib st \<longleftrightarrow> keys_distinct (pr_conns st) \<and>
     (\<forall>e \<in> set (pr_conns st). fst e < pr_next_conn_id st \<and> conn_ok lib (snd e)) \<and>
     pr_conn_count st = length (pr_conns st) + pr_refusing st \<and> length (pr_conns st) \<le> MAX_CONNS"

definition pair_subs_ok :: "pair_relay \<Rightarrow> bool" where
  "pair_subs_ok st \<longleftrightarrow> distinct (map ps_p_value (pr_subs st)) \<and> distinct (map ps_conn_id (pr_subs st)) \<and>
     (\<forall>s \<in> set (pr_subs st). length (ps_sub_id s) \<le> SUB_ID_MAX \<and> length (ps_p_value s) = 32) \<and>
     (\<forall>c. map_of (map (\<lambda>s. (ps_conn_id s, ps_sub_id s)) (pr_subs st)) c =
            opt_then (map_of (pr_conns st) c) pc_sub_id)"

definition seen_ok :: "pair_relay \<Rightarrow> bool" where
  "seen_ok st \<longleftrightarrow> keys_distinct (pr_seen_ids st) \<and> length (pr_seen_ids st) \<le> DEDUP_CAP"

definition delivered_ok :: "pair_relay \<Rightarrow> bool" where
  "delivered_ok st \<longleftrightarrow> keys_distinct (pr_delivered st) \<and> length (pr_delivered st) \<le> DELIVERED_MAP_CAP \<and>
     (\<forall>e \<in> set (pr_delivered st). fst (snd e) \<le> MAX_DELIVERED_PER_P)"

definition pair_ok :: "pair_lib \<Rightarrow> pair_relay \<Rightarrow> bool" where
  "pair_ok lib st \<longleftrightarrow> pair_conns_ok lib st \<and> pair_subs_ok st \<and> seen_ok st \<and> delivered_ok st"

lemmas pair_ok_defs = pair_ok_def pair_conns_ok_def pair_subs_ok_def seen_ok_def delivered_ok_def

lemma Relay_new_ok: "pair_ok lib Relay_new"
  by (simp add: pair_ok_defs Relay_new_def MAX_CONNS_def)

section \<open>Every operation keeps it\<close>

lemma keys_distinct_filtered: "keys_distinct m \<Longrightarrow> keys_distinct (filter P m)"
  by (rule distinct_map_filter)

lemma distinct_map_filter_subs: "distinct (map f xs) \<Longrightarrow> distinct (map f (filter P xs))"
  by (rule distinct_map_filter)

lemma set_AList_update:
  "keys_distinct m \<Longrightarrow> set (AList.update k v m) = {e \<in> set m. fst e \<noteq> k} \<union> {(k, v)}"
proof -
  assume d: "keys_distinct m"
  then have d': "keys_distinct (AList.update k v m)" by simp
  have "(a, b) \<in> set (AList.update k v m) \<longleftrightarrow> (a, b) \<in> {e \<in> set m. fst e \<noteq> k} \<union> {(k, v)}" for a b
  proof -
    have "(a, b) \<in> set (AList.update k v m) \<longleftrightarrow> map_of (AList.update k v m) a = Some b"
      by (rule map_of_eq_Some_iff [OF d', symmetric])
    also have "\<dots> \<longleftrightarrow> (if a = k then b = v else map_of m a = Some b)" by auto
    finally show ?thesis using d by (auto simp: map_of_eq_Some_iff)
  qed
  then show ?thesis by auto
qed

lemma length_AList_update:
  "length (AList.update k v m) = (if map_of m k = None then Suc (length m) else length m)"
  by (induction m) auto

lemma set_conn_ok:
  assumes "pair_ok lib st" "map_of (pr_conns st) c = Some conn" "pc_sub_id conn' = pc_sub_id conn"
    "conn_ok lib conn'"
  shows "pair_ok lib (set_conn c conn' st)"
  using assms map_of_SomeD [OF assms(2)]
  by (auto simp: pair_ok_defs set_conn_def set_AList_update length_AList_update opt_then_def)

lemma map_of_filter_ne: "map_of (filter (\<lambda>e. fst e \<noteq> c) m) x = (if x = c then None else map_of m x)"
  by (induction m) auto

lemma map_of_filter_subs:
  "map_of (map (\<lambda>s. (ps_conn_id s, f s)) (filter (\<lambda>s. ps_conn_id s \<noteq> c) xs)) x =
     (if x = c then None else map_of (map (\<lambda>s. (ps_conn_id s, f s)) xs) x)"
  by (induction xs) auto

lemma remove_key_length:
  "keys_distinct m \<Longrightarrow> map_of m c = Some v \<Longrightarrow> length (filter (\<lambda>e. fst e \<noteq> c) m) = length m - 1"
proof (induction m)
  case (Cons e m)
  then show ?case
  proof (cases "fst e = c")
    case True
    have "c \<notin> fst ` set m" using Cons.prems(1) True by auto
    then have "\<forall>x \<in> set m. fst x \<noteq> c" by blast
    then have "filter (\<lambda>e. fst e \<noteq> c) m = m" by (rule filter_id_conv [THEN iffD2])
    with True show ?thesis by simp
  next
    case False
    with Cons show ?thesis by (cases m) auto
  qed
qed simp

lemma close_conn_ok:
  assumes "pair_ok lib st" "map_of (pr_conns st) c = Some conn"
  shows "pair_ok lib (close_conn c st)"
proof -
  have "0 < length (pr_conns st)" using map_of_SomeD [OF assms(2)] by (rule length_pos_if_in_set)
  then have "length (pr_conns st) + r - Suc 0 = length (pr_conns st) - Suc 0 + r" for r by linarith
  then show ?thesis
    using assms remove_key_length [of "pr_conns st" c conn] length_filter_le [of _ "pr_conns st"]
    by (auto simp: pair_ok_defs close_conn_def remove_sub_def Let_def keys_distinct_filtered distinct_map_filter_subs
        map_of_filter_ne map_of_filter_subs intro: order_trans)
qed

lemma open_conn_ok:
  assumes "pair_ok lib st" shows "pair_ok lib (snd (open_conn st))"
proof -
  have "map_of (pr_conns st) (pr_next_conn_id st) = None"
    using assms by (force simp: pair_ok_defs map_of_None_iff)
  then show ?thesis
    using assms by (auto simp: pair_ok_defs open_conn_def Let_def conn_ok_def less_SucI)
qed

lemma refuse_conn_ok: "pair_ok lib st \<Longrightarrow> pair_ok lib (refuse_conn st)"
  by (simp add: pair_ok_defs refuse_conn_def)

lemma reserve_id_ok:
  assumes "pair_ok lib st" shows "pair_ok lib (snd (reserve_id now i st))"
proof -
  let ?v = "filter (\<lambda>e. fresh_entry now (snd e)) (pr_seen_ids st)"
  have "keys_distinct ?v" "length ?v \<le> DEDUP_CAP"
    using assms by (simp_all add: pair_ok_defs keys_distinct_filtered order_trans [OF length_filter_le])
  then show ?thesis
    using assms by (auto simp: pair_ok_defs reserve_id_def Let_def list_ex_iff)
qed

lemma reserve_id_conns [simp]:
  "pr_conns (snd (reserve_id now i st)) = pr_conns st" "pr_subs (snd (reserve_id now i st)) = pr_subs st"
  by (simp_all add: reserve_id_def Let_def)

lemma swap_remove_split:
  "swap_remove (length ys) (ys @ x # zs) = (if zs = [] then ys else ys @ last zs # butlast zs)"
  by (simp add: swap_remove_def butlast_append)

lemma without_key: "fst a \<notin> fst ` A \<Longrightarrow> {e \<in> insert a A. fst e \<noteq> fst a} = A"
  by (auto intro: rev_image_eqI)

lemma swap_remove_props:
  assumes "k < length m" "keys_distinct m"
  shows "set (swap_remove k m) = {e \<in> set m. fst e \<noteq> fst (m ! k)}" "keys_distinct (swap_remove k m)"
    "length (swap_remove k m) = length m - 1"
proof -
  have split: "m = take k m @ m ! k # drop (Suc k) m" using assms(1) by (rule id_take_nth_drop)
  let ?ys = "take k m" and ?zs = "drop (Suc k) m"
  have "swap_remove (length ?ys) (?ys @ m ! k # ?zs) = (if ?zs = [] then ?ys else ?ys @ last ?zs # butlast ?zs)"
    by (rule swap_remove_split)
  then have sw: "swap_remove k m = (if ?zs = [] then ?ys else ?ys @ last ?zs # butlast ?zs)"
    using assms(1) split by simp
  have "mset (last zs # butlast zs) = mset zs" if "zs \<noteq> []" for zs :: "('a \<times> 'b) list"
  proof -
    have "mset zs = mset (butlast zs @ [last zs])" using append_butlast_last_id [OF that] by simp
    then show ?thesis by simp
  qed
  then have ms: "mset (swap_remove k m) = mset (?ys @ ?zs)" by (simp add: sw del: last_drop butlast_drop)
  have d: "keys_distinct (?ys @ m ! k # ?zs)" using assms(2) split by simp
  have "set (swap_remove k m) = set ?ys \<union> set ?zs" using mset_eq_setD [OF ms] by simp
  moreover have "set m = insert (m ! k) (set ?ys \<union> set ?zs)" by (subst split) auto
  moreover have "fst (m ! k) \<notin> fst ` (set ?ys \<union> set ?zs)" using d by (auto simp: image_Un)
  then have "{e \<in> insert (m ! k) (set ?ys \<union> set ?zs). fst e \<noteq> fst (m ! k)} = set ?ys \<union> set ?zs"
    by (rule without_key)
  ultimately show "set (swap_remove k m) = {e \<in> set m. fst e \<noteq> fst (m ! k)}" by simp
  have "mset (map fst (swap_remove k m)) = mset (map fst (?ys @ ?zs))" using ms by (simp only: mset_map)
  then have "keys_distinct (swap_remove k m) = keys_distinct (?ys @ ?zs)" by (rule mset_eq_imp_distinct_iff)
  moreover have "keys_distinct (?ys @ ?zs)" using d by simp
  ultimately show "keys_distinct (swap_remove k m)" by (rule iffD2)
  show "length (swap_remove k m) = length m - 1" by (simp add: swap_remove_def)
qed

lemma position_Some: "position q xs = Some k \<Longrightarrow> k < length xs \<and> q (xs ! k)"
  by (induction xs arbitrary: k) (auto split: if_splits)

lemma position_None: "position q xs = None \<longleftrightarrow> (\<forall>x \<in> set xs. \<not> q x)"
  by (induction xs) auto

lemma unreserve_seen:
  assumes "keys_distinct (pr_seen_ids st)"
  shows "set (pr_seen_ids (unreserve_id i st)) = {e \<in> set (pr_seen_ids st). fst e \<noteq> i}"
    "keys_distinct (pr_seen_ids (unreserve_id i st))"
    "length (pr_seen_ids (unreserve_id i st)) \<le> length (pr_seen_ids st)"
  using assms swap_remove_props [of _ "pr_seen_ids st"]
  by (auto simp: unreserve_id_def position_None dest!: position_Some split: option.splits)

lemma unreserve_others [simp]:
  "pr_conns (unreserve_id i st) = pr_conns st" "pr_subs (unreserve_id i st) = pr_subs st"
  "pr_delivered (unreserve_id i st) = pr_delivered st" "pr_conn_count (unreserve_id i st) = pr_conn_count st"
  "pr_next_conn_id (unreserve_id i st) = pr_next_conn_id st" "pr_refusing (unreserve_id i st) = pr_refusing st"
  by (simp_all add: unreserve_id_def split: option.splits)

lemma unreserve_ok: "pair_ok lib st \<Longrightarrow> pair_ok lib (unreserve_id i st)"
  using unreserve_seen [of st i] by (simp add: pair_ok_defs)

lemma deliver_others [simp]:
  "deliver_single lib now room p ev st = (r, out, st') \<Longrightarrow>
     pr_conns st' = pr_conns st \<and> pr_subs st' = pr_subs st \<and> pr_seen_ids st' = pr_seen_ids st \<and>
     pr_conn_count st' = pr_conn_count st \<and> pr_next_conn_id st' = pr_next_conn_id st \<and> pr_refusing st' = pr_refusing st"
  by (auto simp: deliver_single_def Let_def split: list.splits if_splits)

lemma deliver_budget_cases:
  assumes "deliver_single lib now room p ev st = (r, out, st')"
    and "d = filter (\<lambda>e. fresh_entry now (snd (snd e))) (pr_delivered st)"
  obtains "pr_delivered st' = pr_delivered st"
  | "pr_delivered st' = d"
  | n where "pr_delivered st' = AList.update p (n + 1, now) d" "n < MAX_DELIVERED_PER_P"
      "length d < DELIVERED_MAP_CAP \<or> map_of d p \<noteq> None"
proof -
  let ?n = "case map_of d p of Some (n, _) \<Rightarrow> n | None \<Rightarrow> 0"
  have "pr_delivered st' = pr_delivered st \<or> pr_delivered st' = d \<or>
      (pr_delivered st' = AList.update p (?n + 1, now) d \<and> ?n < MAX_DELIVERED_PER_P \<and>
       (length d < DELIVERED_MAP_CAP \<or> map_of d p \<noteq> None))"
    using assms(1) unfolding deliver_single_def Let_def assms(2) [symmetric]
    by (simp split: list.splits if_split_asm) auto
  then show thesis using that by blast
qed

lemma delivered_ok_filter: "delivered_ok st \<Longrightarrow> pr_delivered st' = filter P (pr_delivered st) \<Longrightarrow> delivered_ok st'"
  by (simp add: delivered_ok_def keys_distinct_filtered order_trans [OF length_filter_le])

lemma delivered_ok_update:
  assumes "delivered_ok st" "pr_delivered st' = AList.update p (n + 1, now) (pr_delivered st)"
    "n < MAX_DELIVERED_PER_P" "length (pr_delivered st) < DELIVERED_MAP_CAP \<or> map_of (pr_delivered st) p \<noteq> None"
  shows "delivered_ok st'"
  using assms by (auto simp: delivered_ok_def set_AList_update length_AList_update)

lemma deliver_keeps_budget:
  assumes ok: "delivered_ok st" and run: "deliver_single lib now room p ev st = (r, out, st')"
  shows "delivered_ok st'"
proof -
  let ?d = "filter (\<lambda>e. fresh_entry now (snd (snd e))) (pr_delivered st)"
  have d: "delivered_ok (st\<lparr>pr_delivered := ?d\<rparr>)" using ok by (rule delivered_ok_filter) simp
  show ?thesis
  proof (cases rule: deliver_budget_cases [OF run refl])
    case 1
    with ok show ?thesis by (simp add: delivered_ok_def)
  next
    case 2
    with ok show ?thesis by (rule delivered_ok_filter)
  next
    case (3 n)
    with d show ?thesis by (intro delivered_ok_update [OF d]) simp_all
  qed
qed

lemma deliver_ok:
  assumes "pair_ok lib st" "deliver_single lib now room p ev st = (r, out, st')"
  shows "pair_ok lib st'"
  using assms deliver_keeps_budget [of st lib now room p ev r out st'] deliver_others [OF assms(2)]
  by (simp add: pair_ok_def pair_conns_ok_def pair_subs_ok_def seen_ok_def)

lemma set_conn_lookup [simp]: "map_of (pr_conns (set_conn c conn st)) x = (if x = c then Some conn else map_of (pr_conns st) x)"
  by (simp add: set_conn_def)

lemma conn_ok_of: "pair_ok lib st \<Longrightarrow> map_of (pr_conns st) c = Some conn \<Longrightarrow> conn_ok lib conn"
  by (auto simp: pair_ok_def pair_conns_ok_def dest: map_of_SomeD)

lemma no_sub_of:
  assumes "pair_ok lib st" "map_of (pr_conns st) c = Some conn" "pc_sub_id conn = None"
  shows "c \<notin> ps_conn_id ` set (pr_subs st)"
proof -
  have "map_of (map (\<lambda>s. (ps_conn_id s, ps_sub_id s)) (pr_subs st)) c = None"
    using assms by (simp add: pair_ok_def pair_subs_ok_def)
  then show ?thesis by (auto simp: map_of_eq_None_iff image_image)
qed

lemma register_ok:
  assumes ok: "pair_ok lib st" and c: "map_of (pr_conns st) c = Some conn" "pc_sub_id conn = None"
      "pc_phase conn = BetweenFrames"
    and p: "p \<notin> ps_p_value ` set (pr_subs st)" "length p = 32" "length sid \<le> SUB_ID_MAX"
  shows "pair_ok lib (set_conn c (conn\<lparr>pc_sub_id := Some sid\<rparr>)
    (st\<lparr>pr_subs := pr_subs st @ [\<lparr>ps_conn_id = c, ps_sub_id = sid, ps_p_value = p\<rparr>]\<rparr>))"
proof -
  have n: "c \<notin> ps_conn_id ` set (pr_subs st)" by (rule no_sub_of [OF ok c(1,2)])
  have "conn_ok lib (conn\<lparr>pc_sub_id := Some sid\<rparr>)" using conn_ok_of [OF ok c(1)] c(3) by (simp add: conn_ok_def)
  moreover have "map_of (map (\<lambda>s. (ps_conn_id s, ps_sub_id s)) (pr_subs st)) c = None"
    using n by (auto simp: map_of_eq_None_iff image_image)
  ultimately show ?thesis
    using ok c p n map_of_SomeD [OF c(1)]
    by (auto simp: pair_ok_defs set_conn_def set_AList_update length_AList_update opt_then_def map_add_def
        split: option.splits)
qed

lemma unregister_ok:
  assumes ok: "pair_ok lib st" and c: "map_of (pr_conns st) c = Some conn"
  shows "pair_ok lib (set_conn c (conn\<lparr>pc_sub_id := None\<rparr>) (remove_sub c st))"
proof -
  have "conn_ok lib (conn\<lparr>pc_sub_id := None\<rparr>)"
    using conn_ok_of [OF ok c] by (simp add: conn_ok_def split: handler_phase.splits)
  then show ?thesis
    using ok c map_of_SomeD [OF c]
    by (auto simp: pair_ok_defs set_conn_def remove_sub_def set_AList_update length_AList_update opt_then_def
        map_of_filter_subs distinct_map_filter_subs)
qed

lemma conn_ok_update:
  "conn_ok lib conn \<Longrightarrow> conn_ok lib (conn\<lparr>pc_msg_rate := w\<rparr>)"
  "conn_ok lib conn \<Longrightarrow> conn_ok lib (conn\<lparr>pc_event_rate := w\<rparr>)"
  "conn_ok lib conn \<Longrightarrow> conn_ok lib (conn\<lparr>pc_deadline := t\<rparr>)"
  "conn_ok lib conn \<Longrightarrow> n \<le> MAX_EVENTS_PER_CONN \<Longrightarrow> conn_ok lib (conn\<lparr>pc_events_attempted := n\<rparr>)"
  "conn_ok lib conn \<Longrightarrow> conn_ok lib (conn\<lparr>pc_phase := BetweenFrames\<rparr>)"
  "conn_ok lib conn \<Longrightarrow> conn_ok lib (conn\<lparr>pc_sub_id := None, pc_phase := Leaving\<rparr>)"
  "conn_ok lib conn \<Longrightarrow> conn_ok lib (conn\<lparr>pc_phase := Failed e i r\<rparr>)"
  "conn_ok lib conn \<Longrightarrow> checked lib wall ev e i p \<Longrightarrow> conn_ok lib (conn\<lparr>pc_phase := Validated e i p ev\<rparr>)"
  "conn_ok lib conn \<Longrightarrow> checked lib wall ev e i p \<Longrightarrow> conn_ok lib (conn\<lparr>pc_phase := Reserved e i p ev\<rparr>)"
  by (auto simp: conn_ok_def split: handler_phase.splits)

lemma leave_ok:
  assumes ok: "pair_ok lib st" and c: "map_of (pr_conns st) c = Some conn0" and co: "conn_ok lib conn"
  shows "pair_ok lib (snd (leave room c conn st))"
proof -
  have "conn_ok lib (conn\<lparr>pc_sub_id := None, pc_phase := Leaving\<rparr>)" using co by (rule conn_ok_update)
  then show ?thesis
    using ok c map_of_SomeD [OF c]
    by (auto simp: pair_ok_defs leave_def set_conn_def remove_sub_def set_AList_update length_AList_update opt_then_def
        map_of_filter_subs distinct_map_filter_subs)
qed

lemma on_upgraded_ok: "pair_ok lib st \<Longrightarrow> pair_ok lib (on_upgraded now c st)"
  using conn_ok_of [of lib st c]
  by (auto simp: on_upgraded_def intro!: set_conn_ok conn_ok_update split: option.splits)

lemma fail_upgrade_ok:
  assumes ok: "pair_ok lib st" and c: "map_of (pr_conns st) c = Some conn" and no: "pc_sub_id conn = None"
  shows "pair_ok lib (fail_upgrade c st)"
proof -
  have "c \<notin> ps_conn_id ` set (pr_subs st)" by (rule no_sub_of [OF ok c no])
  then have "remove_sub c st = st"
    by (cases st) (auto simp: remove_sub_def filter_id_conv)
  then have "fail_upgrade c st = close_conn c st" by (simp add: fail_upgrade_def close_conn_def)
  then show ?thesis using close_conn_ok [OF ok c] by simp
qed

lemma on_drop_ok: "pair_ok lib st \<Longrightarrow> pair_ok lib (on_drop c st)"
  using close_conn_ok by (auto simp: on_drop_def split: option.splits)

lemma on_req_ok:
  assumes "pair_ok lib st" "map_of (pr_conns st) c = Some conn" and b: "pc_phase conn = BetweenFrames"
  shows "pair_ok lib (snd (on_req room c conn arr st))"
proof -
  have "pair_ok lib (set_conn c (conn\<lparr>pc_sub_id := Some sid\<rparr>)
      (st\<lparr>pr_subs := pr_subs st @ [\<lparr>ps_conn_id = c, ps_sub_id = sid, ps_p_value = p\<rparr>]\<rparr>))"
    if "validate_filter f = Inr p" "pc_sub_id conn = None" "\<forall>s \<in> set (pr_subs st). ps_p_value s \<noteq> p"
      "length sid \<le> SUB_ID_MAX" for f p sid
    using that by (intro register_ok [OF assms(1,2) _ b]) (auto intro: validate_filter_Ok)
  then show ?thesis
    using assms leave_ok [OF assms(1,2) conn_ok_of [OF assms(1,2)]]
    by (simp add: on_req_def list_ex_iff split: option.splits sum.splits)
qed

lemma on_close_ok:
  assumes "pair_ok lib st" "map_of (pr_conns st) c = Some conn"
  shows "pair_ok lib (snd (on_close room c conn arr st))"
  using assms unregister_ok [OF assms] by (simp add: on_close_def split: option.splits)

text \<open>An EVENT leaves the connection as it was but for its counters, or leaves it with a checked event.\<close>

lemma on_event_cases:
  fixes lib :: pair_lib and conn :: pair_conn
  assumes "on_event lib now wall room c conn arr st = (out, st')"
  defines "conn1 \<equiv> conn\<lparr>pc_event_rate := tick now (pc_event_rate conn)\<rparr>"
  obtains (unchanged) "st' = st"
  | (refused) "st' = set_conn c conn1 st"
  | (validated) e i p where "length arr = 2" "pc_events_attempted conn < MAX_EVENTS_PER_CONN"
      "checked lib wall (arr ! 1) e i p"
      "st' = set_conn c (conn1\<lparr>pc_events_attempted := pc_events_attempted conn1 + 1,
         pc_phase := Validated e i p (arr ! 1)\<rparr>) st"
proof -
  define ev where "ev = arr ! 1"
  note run = assms(1) [unfolded on_event_def Let_def, folded conn1_def, folded ev_def]
  have att: "pc_events_attempted conn1 = pc_events_attempted conn" by (simp add: conn1_def)
  show thesis
  proof (cases "length arr \<noteq> 2 \<or> rw_count (pc_event_rate conn1) > RATE_EVENT_MAX \<or>
      pc_events_attempted conn1 \<ge> MAX_EVENTS_PER_CONN \<or> jv_object ev = None")
    case True
    with run have "st' = st \<or> st' = set_conn c conn1 st" by (auto split: if_splits)
    then show thesis using unchanged refused by blast
  next
    case False
    then obtain obj where obj: "jv_object ev = Some obj" by (auto simp: ev_def)
    show thesis
    proof (cases "validate_event wall ev")
      case (Inl r)
      then show thesis using run False obj by (auto intro: refused)
    next
      case (Inr q)
      obtain e i p where q: "q = (e, i, p)" by (cases q)
      show thesis
      proof (cases "verify_event_sig lib ev")
        case (Inl r)
        then show thesis using run False obj Inr q by (auto intro: refused)
      next
        case V: (Inr u)
        then have "checked lib wall (arr ! 1) e i p" using Inr q by (simp add: checked_def ev_def)
        moreover have "length arr = 2" "pc_events_attempted conn < MAX_EVENTS_PER_CONN" using False att by simp_all
        moreover have "st' = set_conn c (conn1\<lparr>pc_events_attempted := pc_events_attempted conn1 + 1,
            pc_phase := Validated e i p (arr ! 1)\<rparr>) st"
          using run False obj Inr V q by (simp add: ev_def)
        ultimately show thesis using validated by blast
      qed
    qed
  qed
qed

lemma on_event_ok:
  assumes ok: "pair_ok lib st" and c: "map_of (pr_conns st) c = Some conn"
    and run: "on_event lib now wall room c conn arr st = (out, st')"
  shows "pair_ok lib st'"
proof (cases rule: on_event_cases [OF run, case_names unchanged refused validated])
  case unchanged
  with ok show ?thesis by simp
next
  case refused
  then show ?thesis using conn_ok_of [OF ok c] by (auto intro!: set_conn_ok [OF ok c] conn_ok_update)
next
  case (validated e i p)
  then show ?thesis
    using conn_ok_of [OF ok c] by (auto intro!: set_conn_ok [OF ok c] conn_ok_update)
qed

lemma on_reserve_cases:
  assumes run: "on_reserve now room c st = (out, st')"
  obtains (none) "out = []" "st' = st" "\<And>conn e i p ev. map_of (pr_conns st) c = Some conn \<Longrightarrow> pc_phase conn \<noteq> Validated e i p ev"
  | (refused) conn e i p ev msg where "map_of (pr_conns st) c = Some conn" "pc_phase conn = Validated e i p ev"
      "fst (reserve_id now i st) \<noteq> New" "out = try_send room c (make_ok e False msg)"
      "st' = set_conn c (conn\<lparr>pc_phase := BetweenFrames\<rparr>) (snd (reserve_id now i st))"
  | (reserved) conn e i p ev where "map_of (pr_conns st) c = Some conn" "pc_phase conn = Validated e i p ev"
      "fst (reserve_id now i st) = New" "out = []"
      "st' = set_conn c (conn\<lparr>pc_phase := Reserved e i p ev\<rparr>) (snd (reserve_id now i st))"
proof (cases "\<exists>conn e i p ev. map_of (pr_conns st) c = Some conn \<and> pc_phase conn = Validated e i p ev")
  case False
  then have "out = [] \<and> st' = st"
    using run by (auto simp: on_reserve_def split: option.splits handler_phase.splits)
  then show thesis using none False by blast
next
  case True
  then obtain conn e i p ev where c: "map_of (pr_conns st) c = Some conn" "pc_phase conn = Validated e i p ev"
    by blast
  obtain r st1 where r: "reserve_id now i st = (r, st1)" by (cases "reserve_id now i st")
  have st1: "st1 = snd (reserve_id now i st)" "fst (reserve_id now i st) = r" using r by simp_all
  show thesis
  proof (cases r)
    case New
    then show thesis using run c r by (intro reserved [OF c]) (simp_all add: on_reserve_def)
  next
    case Duplicate
    then show thesis
      using run c r by (intro refused [OF c, of "''duplicate: already seen''"]) (simp_all add: on_reserve_def)
  next
    case AtCapacity
    then show thesis
      using run c r by (intro refused [OF c, of "''relay at capacity''"]) (simp_all add: on_reserve_def)
  qed
qed

lemma on_reserve_ok:
  assumes ok: "pair_ok lib st" and run: "on_reserve now room c st = (out, st')"
  shows "pair_ok lib st'"
proof (cases rule: on_reserve_cases [OF run, case_names none refused reserved])
  case none
  with ok show ?thesis by simp
next
  case (refused conn e i p ev msg)
  have "map_of (pr_conns (snd (reserve_id now i st))) c = Some conn" using refused(1) by simp
  from set_conn_ok [OF reserve_id_ok [OF ok] this _ conn_ok_update(5) [OF conn_ok_of [OF ok refused(1)]]]
  show ?thesis using refused(5) by simp
next
  case (reserved conn e i p ev)
  have c: "map_of (pr_conns (snd (reserve_id now i st))) c = Some conn" using reserved(1) by simp
  obtain wall where "checked lib wall ev e i p"
    using conn_ok_of [OF ok reserved(1)] reserved(2) by (auto simp: conn_ok_def)
  from set_conn_ok [OF reserve_id_ok [OF ok] c _ conn_ok_update(9) [OF conn_ok_of [OF ok reserved(1)] this]]
  show ?thesis using reserved(5) by simp
qed

section \<open>Runs\<close>

datatype pair_action =
    Open | Refuse | Upgraded conn_id | UpgradeFailed conn_id
  | Frame conn_id frame | Reserve conn_id | Deliver conn_id | Unreserve conn_id
  | Ended conn_id | Dropped conn_id

definition relay_step ::
  "pair_lib \<Rightarrow> nat \<Rightarrow> int \<Rightarrow> (nat \<Rightarrow> bool) \<Rightarrow> pair_action \<Rightarrow> pair_relay \<Rightarrow> pair_out \<times> pair_relay" where
  "relay_step lib now wall room a st =
     (case a of
        Open \<Rightarrow> ([], snd (open_conn st))
      | Refuse \<Rightarrow> ([], refuse_conn st)
      | Upgraded c \<Rightarrow> ([], on_upgraded now c st)
      | UpgradeFailed c \<Rightarrow> ([], on_upgrade_failed c st)
      | Frame c f \<Rightarrow> on_frame lib now wall room c f st
      | Reserve c \<Rightarrow> on_reserve now (room 0) c st
      | Deliver c \<Rightarrow> on_deliver lib now room c st
      | Unreserve c \<Rightarrow> on_unreserve (room 0) c st
      | Ended c \<Rightarrow> on_end (room 0) c st
      | Dropped c \<Rightarrow> ([], on_drop c st))"

text \<open>The events among the messages put into channels.\<close>

fun event_of :: "conn_id \<times> out_msg \<Rightarrow> json option" where
  "event_of (c, Text (JArray [JString v, JString sid, ev])) = (if v = ''EVENT'' then Some ev else None)"
| "event_of _ = None"

definition events_of :: "pair_out \<Rightarrow> json list" where
  "events_of out = List.map_filter event_of out"

text \<open>A handler takes the next frame only when it is between frames.\<close>

definition ready :: "pair_action \<Rightarrow> pair_relay \<Rightarrow> bool" where
  "ready a st \<longleftrightarrow>
     (case a of
        Frame c f \<Rightarrow> (case map_of (pr_conns st) c of Some conn \<Rightarrow> pc_phase conn = BetweenFrames | None \<Rightarrow> False)
      | _ \<Rightarrow> True)"

text \<open>
  Runs of the relay: the instant of the last step, the steps with their instants, the last one first, and
  the events delivered so far. The wall clock shows \<open>W t\<close> at the instant \<open>t\<close>; nothing is said of \<open>W\<close>.
\<close>

inductive relay_run ::
  "pair_lib \<Rightarrow> (nat \<Rightarrow> int) \<Rightarrow> nat \<Rightarrow> (nat \<times> pair_action) list \<Rightarrow> pair_relay \<Rightarrow> json list \<Rightarrow> bool" for lib W where
  start: "relay_run lib W now [] Relay_new []"
| step: "relay_run lib W now log st evs \<Longrightarrow> now \<le> now' \<Longrightarrow> ready a st \<Longrightarrow>
     relay_step lib now' (W now') room a st = (out, st') \<Longrightarrow>
     relay_run lib W now' ((now', a) # log) st' (evs @ events_of out)"

text \<open>When a connection's last frame was handled.\<close>

fun last_frame :: "conn_id \<Rightarrow> (nat \<times> pair_action) list \<Rightarrow> nat option" where
  "last_frame c [] = None"
| "last_frame c ((t, a) # log) = (case a of Frame d f \<Rightarrow> if d = c then Some t else last_frame c log | _ \<Rightarrow> last_frame c log)"

lemma on_text_ok:
  assumes "pair_ok lib st" "map_of (pr_conns st) c = Some conn" "pc_phase conn = BetweenFrames"
    "on_text lib now wall room c conn parsed st = (out, st')"
  shows "pair_ok lib st'"
proof -
  have "pair_ok lib (snd (on_event lib now wall (room 0) c conn arr st))" for arr
    using on_event_ok [OF assms(1,2)] by (metis prod.collapse)
  then have "pair_ok lib (snd (on_text lib now wall room c conn parsed st))"
    using assms(1) on_req_ok [OF assms(1,2,3)] on_close_ok [OF assms(1,2)]
    by (auto simp: on_text_def split: option.splits list.splits)
  with assms(4) show ?thesis by simp
qed

lemma on_frame_ok:
  assumes ok: "pair_ok lib st" and run: "on_frame lib now wall room c f st = (out, st')"
  shows "pair_ok lib st'"
proof (cases "map_of (pr_conns st) c")
  case None
  with ok run show ?thesis by (simp add: on_frame_def)
next
  case (Some conn0)
  let ?conn = "conn0\<lparr>pc_msg_rate := tick now (pc_msg_rate conn0)\<rparr>"
  let ?st1 = "set_conn c ?conn st"
  have ok1: "pair_ok lib ?st1"
    by (rule set_conn_ok [OF ok Some]) (simp_all add: conn_ok_of [OF ok Some] conn_ok_update)
  have c1: "map_of (pr_conns ?st1) c = Some ?conn" by simp
  have lv: "pair_ok lib (snd (leave b c ?conn ?st1))" for b by (rule leave_ok [OF ok1 c1 conn_ok_of [OF ok1 c1]])
  show ?thesis
    using run ok ok1 lv on_text_ok [OF ok1 c1]
    by (auto simp: on_frame_def Some Let_def leave_def split: if_splits frame.splits)
qed

lemma on_deliver_ok:
  assumes ok: "pair_ok lib st" and run: "on_deliver lib now room c st = (out, st')"
  shows "pair_ok lib st'"
proof (cases "\<exists>conn e i p ev. map_of (pr_conns st) c = Some conn \<and> pc_phase conn = Reserved e i p ev")
  case False
  with ok run show ?thesis by (auto simp: on_deliver_def split: option.splits handler_phase.splits)
next
  case True
  then obtain conn e i p ev where c: "map_of (pr_conns st) c = Some conn" "pc_phase conn = Reserved e i p ev"
    by blast
  obtain r o1 st1 where d: "deliver_single lib now (room 0) p ev st = (r, o1, st1)" by (metis prod_cases3)
  have ok1: "pair_ok lib st1" by (rule deliver_ok [OF ok d])
  have c1: "map_of (pr_conns st1) c = Some conn" using deliver_others [OF d] c(1) by simp
  note upd = set_conn_ok [OF ok1 c1] conn_ok_update [OF conn_ok_of [OF ok1 c1]]
  show ?thesis
    using run upd by (auto simp: on_deliver_def c d split: sum.splits bool.splits)
qed

lemma on_unreserve_ok:
  assumes ok: "pair_ok lib st" and run: "on_unreserve room c st = (out, st')"
  shows "pair_ok lib st'"
proof -
  have "pair_ok lib (set_conn c (conn\<lparr>pc_phase := BetweenFrames\<rparr>) (unreserve_id i st))"
    if "map_of (pr_conns st) c = Some conn" for conn i
    using that by (intro set_conn_ok [OF unreserve_ok [OF ok]]) (simp_all add: conn_ok_update conn_ok_of [OF ok])
  then show ?thesis
    using ok run by (auto simp: on_unreserve_def split: option.splits handler_phase.splits)
qed

lemma on_end_ok: "pair_ok lib st \<Longrightarrow> on_end room c st = (out, st') \<Longrightarrow> pair_ok lib st'"
  using leave_ok [of lib st c] conn_ok_of [of lib st c]
  by (auto simp: on_end_def leave_def split: option.splits if_splits)

lemma on_upgrade_failed_ok: "pair_ok lib st \<Longrightarrow> pair_ok lib (on_upgrade_failed c st)"
  using conn_ok_of [of lib st c]
  by (auto simp: on_upgrade_failed_def conn_ok_def intro!: fail_upgrade_ok split: option.splits)

lemma relay_step_ok:
  "pair_ok lib st \<Longrightarrow> relay_step lib now wall room a st = (out, st') \<Longrightarrow> pair_ok lib st'"
  by (cases a)
    (auto simp: relay_step_def open_conn_ok refuse_conn_ok on_upgraded_ok on_upgrade_failed_ok on_drop_ok
      dest: on_frame_ok on_reserve_ok on_deliver_ok on_unreserve_ok on_end_ok)

lemma relay_run_ok: "relay_run lib W now log st evs \<Longrightarrow> pair_ok lib st"
  by (induction rule: relay_run.induct) (simp_all add: Relay_new_ok relay_step_ok)

end
