(* ===== verification/PairOnce.thy ===== *)
theory PairOnce
  imports PairRelayProps
begin

text \<open>
  No event is delivered twice. An id that has been delivered, or that a handler holds, is either still in
  the table of ids seen, or was reserved 300 s ago or more; an event passes validation only while the wall
  clock is within 120 s of its creation. The two clocks are read at different moments and need not agree:
  how far they may differ is a condition on the run.
\<close>

section \<open>What has been submitted\<close>

text \<open>The events of the frames of a run.\<close>

definition submitted :: "(nat \<times> pair_action) list \<Rightarrow> json set" where
  "submitted log = {ev. \<exists>t c v. (t, Frame c (TextFrame (Some (JArray [v, ev])))) \<in> set log}"

lemma submitted_later: "submitted log \<subseteq> submitted (x # log)"
  by (auto simp: submitted_def)

text \<open>The commitment that the id of an event is to be the digest of.\<close>

definition commitment_of :: "json \<Rightarrow> json option" where
  "commitment_of ev =
     opt_then (jv_object ev) (\<lambda>obj.
     opt_then (str_field obj ''pubkey'') (\<lambda>pubkey.
     opt_then (opt_then (map_of obj ''created_at'') jv_i64) (\<lambda>created_at.
     opt_then (opt_then (map_of obj ''kind'') jv_u64) (\<lambda>kind.
     opt_then (map_of obj ''tags'') (\<lambda>tags.
     map_option (\<lambda>content. JArray [JNumber ''0'', JString pubkey, JNumber (show_int created_at),
       JNumber (show_nat kind), tags, JString content]) (str_field obj ''content''))))))"

definition commitments :: "json set \<Rightarrow> json set" where
  "commitments evs = {v. \<exists>ev\<in>evs. commitment_of ev = Some v}"

text \<open>No two of these values are serialised to texts with one SHA-256 digest.\<close>

definition commits :: "pair_lib \<Rightarrow> json set \<Rightarrow> bool" where
  "commits lib A \<longleftrightarrow> (\<forall>a\<in>A. \<forall>b\<in>A. \<forall>s t. pl_json_to_string lib a = Some s \<longrightarrow> pl_json_to_string lib b = Some t \<longrightarrow>
     pl_sha256 lib s = pl_sha256 lib t \<longrightarrow> a = b)"

lemma commits_mono: "commits lib (commitments B) \<Longrightarrow> A \<subseteq> B \<Longrightarrow> commits lib (commitments A)"
  unfolding commits_def commitments_def by blast

definition id_bytes_of :: "json \<Rightarrow> bytes option" where
  "id_bytes_of ev = opt_then (event_id_of ev) decode_hex32"

lemma checked_id: "checked lib wall ev e i p \<Longrightarrow> id_bytes_of ev = Some i"
  unfolding checked_def id_bytes_of_def by (elim conjE) (frule validate_event_Ok(1), drule validate_event_Ok(2), simp)

lemma checked_time:
  "checked lib wall ev e i p \<Longrightarrow> \<exists>ca. created_at_of ev = Some ca \<and> \<bar>ca - wall\<bar> \<le> FRESHNESS_SECS"
  using validate_event_Ok(4) by (simp add: checked_def)

lemma show_nat_not_minus: "show_nat n \<noteq> CHR ''-'' # s"
  using show_nat_digits [of n] by (auto simp: is_digit_def)

lemma show_int_inject [simp]: "show_int m = show_int n \<longleftrightarrow> m = n"
  using show_nat_not_minus [symmetric] show_nat_not_minus
  by (auto simp: show_int_def nat_eq_iff split: if_splits)

lemma verify_commitment:
  assumes "verify_event_sig lib ev = Inr ()"
  obtains v s ca i rest k where "pl_json_to_string lib v = Some s" "pl_sha256 lib s = i" "id_bytes_of ev = Some i"
    "commitment_of ev = Some v" "created_at_of ev = Some ca"
    "v = JArray (JNumber ''0'' # JString k # JNumber (show_int ca) # rest)"
  using assms
  by (auto simp: verify_event_sig_def and_then_eq_Ok Let_def id_bytes_of_def event_id_of_def created_at_of_def
      commitment_of_def)

lemma same_id_same_time:
  assumes "commits lib (commitments A)" "ev \<in> A" "ev' \<in> A" "checked lib w ev e i p" "checked lib w' ev' e' i p'"
  shows "created_at_of ev = created_at_of ev'"
proof -
  have "verify_event_sig lib ev = Inr ()" "verify_event_sig lib ev' = Inr ()"
    using assms(4,5) by (simp_all add: checked_def)
  obtain v s ca rest k where 1: "pl_json_to_string lib v = Some s" "pl_sha256 lib s = i" "commitment_of ev = Some v"
    "created_at_of ev = Some ca" "v = JArray (JNumber ''0'' # JString k # JNumber (show_int ca) # rest)"
    using verify_commitment [OF \<open>verify_event_sig lib ev = Inr ()\<close>] checked_id [OF assms(4)] by (metis option.inject)
  obtain v' s' ca' rest' k' where 2: "pl_json_to_string lib v' = Some s'" "pl_sha256 lib s' = i" "commitment_of ev' = Some v'"
    "created_at_of ev' = Some ca'" "v' = JArray (JNumber ''0'' # JString k' # JNumber (show_int ca') # rest')"
    using verify_commitment [OF \<open>verify_event_sig lib ev' = Inr ()\<close>] checked_id [OF assms(5)] by (metis option.inject)
  have "v \<in> commitments A" "v' \<in> commitments A" using 1(3) 2(3) assms(2,3) by (auto simp: commitments_def)
  then have "v = v'" using assms(1) 1(1,2) 2(1,2) unfolding commits_def by blast
  with 1(4,5) 2(4,5) show ?thesis by simp
qed

section \<open>The clocks of a run\<close>

text \<open>Every reservation is made within \<open>D\<close> of the frame its event came in.\<close>

fun prompt :: "nat \<Rightarrow> (nat \<times> pair_action) list \<Rightarrow> bool" where
  "prompt D [] \<longleftrightarrow> True"
| "prompt D ((t, a) # log) \<longleftrightarrow> prompt D log \<and>
     (case a of Reserve c \<Rightarrow> (case last_frame c log of Some v \<Rightarrow> t \<le> v + D | None \<Rightarrow> True) | _ \<Rightarrow> True)"

text \<open>
  The wall clock gains more than 240 s, both halves of the freshness window, over every stretch of 300 s less \<open>D\<close>:
  it runs about as fast as the instants, and is not set back by more than the rest.
\<close>

definition clocks_agree :: "(nat \<Rightarrow> int) \<Rightarrow> nat \<Rightarrow> bool" where
  "clocks_agree W D \<longleftrightarrow> (\<forall>s t. s + 300 * SECOND \<le> t + D \<longrightarrow> W s + 240 < W t)"

lemma log_in_the_past: "relay_run lib W now log st evs \<Longrightarrow> (t, a) \<in> set log \<Longrightarrow> t \<le> now"
  by (induction arbitrary: t a rule: relay_run.induct) (force dest: le_trans)+

lemma last_frame_in: "last_frame c log = Some v \<Longrightarrow> \<exists>f. (v, Frame c f) \<in> set log"
  by (induction c log rule: last_frame.induct) (auto split: pair_action.splits if_splits)

section \<open>Ids held\<close>

definition held_id :: "pair_conn \<Rightarrow> bytes option" where
  "held_id conn = (case pc_phase conn of Reserved e i p ev \<Rightarrow> Some i | Failed e i r \<Rightarrow> Some i | _ \<Rightarrow> None)"

definition pend :: "pair_relay \<Rightarrow> conn_id \<Rightarrow> bytes option" where
  "pend st c = opt_then (map_of (pr_conns st) c) held_id"

text \<open>An event with the id was validated, and the id reserved then or later.\<close>

definition held :: "pair_lib \<Rightarrow> (nat \<Rightarrow> int) \<Rightarrow> json set \<Rightarrow> nat \<Rightarrow> (bytes \<times> nat) set \<Rightarrow> bytes \<Rightarrow> bool" where
  "held lib W evs now seen i \<longleftrightarrow> (\<exists>ev e p v t. ev \<in> evs \<and> checked lib (W v) ev e i p \<and> v \<le> t \<and> t \<le> now \<and>
     ((i, t) \<in> seen \<or> t + ENTRY_TTL \<le> now))"

lemma held_later: "held lib W evs now seen i \<Longrightarrow> now \<le> now' \<Longrightarrow> evs \<subseteq> evs' \<Longrightarrow> held lib W evs' now' seen i"
  unfolding held_def by (meson le_trans subsetD)

lemma held_mono: "held lib W evs now seen i \<Longrightarrow> seen \<subseteq> seen' \<Longrightarrow> held lib W evs now seen' i"
  unfolding held_def by blast

lemma held_other: "held lib W evs now seen i \<Longrightarrow> i \<noteq> j \<Longrightarrow> held lib W evs now {e \<in> seen. fst e \<noteq> j} i"
  unfolding held_def by (metis (mono_tags, lifting) fst_conv mem_Collect_eq)

lemma held_fresh: "held lib W evs now seen i \<Longrightarrow> held lib W evs now {e \<in> seen. fresh_entry now (snd e)} i"
proof -
  assume "held lib W evs now seen i"
  then obtain ev e p v t where h: "ev \<in> evs" "checked lib (W v) ev e i p" "v \<le> t" "t \<le> now"
    "(i, t) \<in> seen \<or> t + ENTRY_TTL \<le> now" unfolding held_def by blast
  have "(i, t) \<in> {e \<in> seen. fresh_entry now (snd e)} \<or> t + ENTRY_TTL \<le> now"
    using h(4,5) by (auto simp: fresh_entry_def)
  with h(1-4) show ?thesis unfolding held_def by blast
qed

lemma not_held_twice:
  assumes "commits lib (commitments evs)" "clocks_agree W D" and ev: "ev \<in> evs" "checked lib (W v) ev e i p"
    and prompt: "now \<le> v + D" and gone: "i \<notin> fst ` {e \<in> seen. fresh_entry now (snd e)}"
  shows "\<not> held lib W evs now seen i"
proof
  assume "held lib W evs now seen i"
  then have "held lib W evs now {e \<in> seen. fresh_entry now (snd e)} i" by (rule held_fresh)
  then obtain ev' e' p' v' t where h: "ev' \<in> evs" "checked lib (W v') ev' e' i p'" "v' \<le> t" "t + ENTRY_TTL \<le> now"
    using gone unfolding held_def by (force simp: image_iff)
  obtain ca where ca: "created_at_of ev = Some ca" "\<bar>ca - W v\<bar> \<le> FRESHNESS_SECS"
    using checked_time [OF ev(2)] by blast
  have "created_at_of ev' = Some ca" using same_id_same_time [OF assms(1) ev(1) h(1) ev(2) h(2)] ca(1) by simp
  then have "\<bar>ca - W v'\<bar> \<le> FRESHNESS_SECS" using checked_time [OF h(2)] by auto
  moreover have "W v' + 2 * FRESHNESS_SECS < W v"
    using assms(2) h(3,4) prompt unfolding clocks_agree_def ENTRY_TTL_def FRESHNESS_SECS_def by simp
  ultimately show False using ca(2) by linarith
qed

section \<open>What a step does to them\<close>

lemma events_of_Nil [simp]: "events_of [] = []"
  by (simp add: events_of_def)

lemma events_of_append [simp]: "events_of (xs @ ys) = events_of xs @ events_of ys"
  by (simp add: events_of_def List.map_filter_def)

lemma events_of_answers [simp]:
  "events_of (try_send room c (make_ok i b msg)) = []" "events_of (try_send room c (make_closed sid msg)) = []"
  "events_of (try_send room c (make_eose sid)) = []" "events_of (try_send room c (make_notice msg)) = []"
  "events_of (try_send room c Close) = []" "events_of [(c, Pong d)] = []"
  by (simp_all add: events_of_def List.map_filter_def try_send_def make_ok_def make_closed_def make_eose_def make_notice_def)

text \<open>A step that does not touch the ids held.\<close>

definition quiet :: "pair_relay \<Rightarrow> pair_out \<Rightarrow> pair_relay \<Rightarrow> bool" where
  "quiet st out st' \<longleftrightarrow> events_of out = [] \<and> pr_seen_ids st' = pr_seen_ids st \<and> pend st' \<subseteq>\<^sub>m pend st"

lemma pend_set_conn [simp]: "pend (set_conn c conn st) = (pend st)(c := held_id conn)"
  by (rule ext) (simp add: pend_def)

lemma pend_close [simp]: "pend (close_conn c st) = (pend st)(c := None)" "pend (fail_upgrade c st) = (pend st)(c := None)"
  by (rule ext; simp add: pend_def close_conn_def fail_upgrade_def remove_sub_def Let_def map_of_filter_ne)+

lemma pend_remove_sub [simp]: "pend (remove_sub c st) = pend st"
  by (rule ext) (simp add: pend_def remove_sub_def)

lemma pend_cong: "pr_conns st' = pr_conns st \<Longrightarrow> pend st' = pend st"
  by (rule ext) (simp add: pend_def)

lemma seen_set_conn [simp]: "pr_seen_ids (set_conn c conn st) = pr_seen_ids st"
  by (simp add: set_conn_def)

lemma seen_close [simp]:
  "pr_seen_ids (close_conn c st) = pr_seen_ids st" "pr_seen_ids (fail_upgrade c st) = pr_seen_ids st"
  "pr_seen_ids (remove_sub c st) = pr_seen_ids st"
  by (simp_all add: close_conn_def fail_upgrade_def remove_sub_def Let_def)

lemma held_id_update [simp]:
  "held_id (conn\<lparr>pc_msg_rate := w\<rparr>) = held_id conn" "held_id (conn\<lparr>pc_event_rate := w\<rparr>) = held_id conn"
  "held_id (conn\<lparr>pc_events_attempted := n\<rparr>) = held_id conn" "held_id (conn\<lparr>pc_sub_id := x\<rparr>) = held_id conn"
  "held_id (conn\<lparr>pc_phase := BetweenFrames\<rparr>) = None" "held_id (conn\<lparr>pc_phase := Leaving\<rparr>) = None"
  "held_id (conn\<lparr>pc_phase := Validated e i p ev\<rparr>) = None"
  "held_id (conn\<lparr>pc_phase := Reserved e i p ev\<rparr>) = Some i"
  "held_id (conn\<lparr>pc_phase := Failed e i r\<rparr>) = Some i"
  by (simp_all add: held_id_def)

lemma pend_lookup: "map_of (pr_conns st) c = Some conn \<Longrightarrow> pend st c = held_id conn"
  by (simp add: pend_def)

lemma map_le_upd_None [simp]: "m(c := None) \<subseteq>\<^sub>m m"
  by (simp add: map_le_def)

lemma leave_quiet: "leave room c conn st = (out, st') \<Longrightarrow> quiet st out st'"
  by (auto simp: leave_def quiet_def)

lemma on_req_quiet:
  assumes "map_of (pr_conns st) c = Some conn" "on_req room c conn arr st = (out, st')"
  shows "quiet st out st'"
proof -
  have "quiet st [] st" by (simp add: quiet_def)
  moreover have "pend (st\<lparr>pr_subs := xs\<rparr>) = pend st" for xs by (rule pend_cong) simp
  ultimately show ?thesis
    using assms leave_quiet pend_lookup [OF assms(1)]
    by (auto simp: on_req_def quiet_def map_le_def split: option.splits sum.splits if_splits)
qed

lemma on_close_quiet:
  assumes "map_of (pr_conns st) c = Some conn" "on_close room c conn arr st = (out, st')"
  shows "quiet st out st'"
  using assms pend_lookup [OF assms(1)]
  by (auto simp: on_close_def quiet_def map_le_def split: option.splits if_splits)

text \<open>The steps that touch them: a reservation, a delivery, and the return of an id.\<close>

definition fresh_seen :: "nat \<Rightarrow> pair_relay \<Rightarrow> (bytes \<times> nat) set" where
  "fresh_seen now st = {e \<in> set (pr_seen_ids st). fresh_entry now (snd e)}"

definition claim :: "handler_phase \<Rightarrow> (string \<times> bytes \<times> bytes \<times> json) option" where
  "claim ph = (case ph of Validated e i p ev \<Rightarrow> Some (e, i, p, ev) | Reserved e i p ev \<Rightarrow> Some (e, i, p, ev) | _ \<Rightarrow> None)"

text \<open>The event a handler has validated and not yet delivered or given up.\<close>

definition claims :: "pair_relay \<Rightarrow> conn_id \<Rightarrow> (string \<times> bytes \<times> bytes \<times> json) option" where
  "claims st c = opt_then (map_of (pr_conns st) c) (\<lambda>conn. claim (pc_phase conn))"

definition id_step :: "nat \<Rightarrow> pair_action \<Rightarrow> pair_relay \<Rightarrow> pair_out \<Rightarrow> pair_relay \<Rightarrow> bool" where
  "id_step now a st out st' \<longleftrightarrow>
     quiet st out st' \<or>
     events_of out = [] \<and> pend st' = pend st \<and> set (pr_seen_ids st') = fresh_seen now st \<or>
     (\<exists>c e i p ev. a = Reserve c \<and> events_of out = [] \<and> claims st c = Some (e, i, p, ev) \<and>
        i \<notin> fst ` fresh_seen now st \<and> pend st c = None \<and> pend st' = (pend st)(c \<mapsto> i) \<and>
        set (pr_seen_ids st') = insert (i, now) (fresh_seen now st)) \<or>
     (\<exists>c i ev. events_of out = [ev] \<and> id_bytes_of ev = Some i \<and> pend st c = Some i \<and>
        pend st' = (pend st)(c := None) \<and> pr_seen_ids st' = pr_seen_ids st) \<or>
     (\<exists>c i. events_of out = [] \<and> pend st c = Some i \<and> pend st' = (pend st)(c := None) \<and>
        set (pr_seen_ids st') = {e \<in> set (pr_seen_ids st). fst e \<noteq> i})"

lemma reserve_id_kept:
  "fst (reserve_id now i st) \<noteq> New \<Longrightarrow> set (pr_seen_ids (snd (reserve_id now i st))) = fresh_seen now st"
  by (auto simp: reserve_id_def Let_def fresh_seen_def split: if_splits)

lemma reserve_id_new:
  assumes "fst (reserve_id now i st) = New"
  shows "i \<notin> fst ` fresh_seen now st"
    "set (pr_seen_ids (snd (reserve_id now i st))) = insert (i, now) (fresh_seen now st)"
  using assms by (auto simp: reserve_id_def Let_def fresh_seen_def list_ex_iff split: if_splits)

lemma fresh_seen_set_conn [simp]: "fresh_seen now (set_conn c conn st) = fresh_seen now st"
  by (simp add: fresh_seen_def)

lemma pend_reserve [simp]: "pend (snd (reserve_id now i st)) = pend st"
  by (rule pend_cong) simp

lemma on_event_events: "on_event lib now wall room c conn arr st = (out, st') \<Longrightarrow> events_of out = []"
  by (auto simp: on_event_def Let_def split: if_splits sum.splits prod.splits reservation.splits)

lemma on_event_quiet:
  assumes c: "map_of (pr_conns st) c = Some conn" "held_id conn = None"
    and run: "on_event lib now wall room c conn arr st = (out, st')"
  shows "quiet st out st'"
proof -
  have e: "events_of out = []" by (rule on_event_events [OF run])
  have "pend st c = None" using pend_lookup [OF c(1)] c(2) by simp
  then have same: "(pend st)(c := None) = pend st" by auto
  show ?thesis
    by (cases rule: on_event_cases [OF run, case_names unchanged refused validated])
      (use e c(2) same in \<open>simp_all add: quiet_def\<close>)
qed

lemma on_text_quiet:
  assumes "map_of (pr_conns st) c = Some conn" "held_id conn = None"
    "on_text lib now wall room c conn parsed st = (out, st')"
  shows "quiet st out st'"
proof -
  have q: "quiet st (try_send b c (make_notice msg)) st" for b msg by (simp add: quiet_def)
  show ?thesis
    using assms(3) q on_req_quiet [OF assms(1)] on_close_quiet [OF assms(1)] on_event_quiet [OF assms(1,2)]
    by (auto simp: on_text_def split: option.splits list.splits if_splits)
qed

lemma quiet_id_step: "quiet st out st' \<Longrightarrow> id_step now a st out st'"
  by (simp add: id_step_def)

lemma quiet_refl [simp]: "quiet st [] st"
  by (simp add: quiet_def)

lemma on_frame_quiet:
  assumes run: "on_frame lib now wall room c f st = (out, st')"
  shows "quiet st out st'"
proof (cases "\<exists>conn. map_of (pr_conns st) c = Some conn \<and> pc_phase conn = BetweenFrames")
  case False
  then have "out = [] \<and> st' = st" using run by (auto simp: on_frame_def split: option.splits)
  then show ?thesis by simp
next
  case True
  then obtain conn0 where c: "map_of (pr_conns st) c = Some conn0" "pc_phase conn0 = BetweenFrames" by blast
  let ?conn = "conn0\<lparr>pc_msg_rate := tick now (pc_msg_rate conn0)\<rparr>"
  let ?st1 = "set_conn c ?conn st"
  have p0: "held_id conn0 = None" using c(2) by (simp add: held_id_def)
  then have "(pend st)(c := None) = pend st" using pend_lookup [OF c(1)] by auto
  then have pend1: "pend ?st1 = pend st" using p0 by simp
  have c1: "map_of (pr_conns ?st1) c = Some ?conn" and p1: "held_id ?conn = None" using p0 by simp_all
  have q: "quiet ?st1 [(c, Pong d)] ?st1" "quiet ?st1 out2 st2 \<Longrightarrow> quiet ?st1 (try_send b c Close @ out2) st2" for b d out2 st2
    by (simp_all add: quiet_def)
  have "quiet ?st1 out st'"
    using run c q leave_quiet [of _ c ?conn ?st1] on_text_quiet [OF c1 p1]
    by (auto simp: on_frame_def Let_def split: if_splits frame.splits prod.splits)
  then show ?thesis by (simp only: quiet_def pend1 seen_set_conn)
qed

lemma on_reserve_ids:
  assumes run: "on_reserve now room c st = (out, st')"
  shows "id_step now (Reserve c) st out st'"
proof (cases rule: on_reserve_cases [OF run, case_names none refused reserved])
  case none
  then show ?thesis by (simp add: quiet_id_step)
next
  case (refused conn e i p ev msg)
  then have "pend st c = None" by (simp add: pend_def held_id_def)
  then have "(pend st)(c := None) = pend st" by auto
  then have "pend st' = pend st" "set (pr_seen_ids st') = fresh_seen now st" "events_of out = []"
    using refused reserve_id_kept by simp_all
  then show ?thesis by (simp add: id_step_def)
next
  case (reserved conn e i p ev)
  have "pend st c = None" "claims st c = Some (e, i, p, ev)"
    using reserved(1,2) by (simp_all add: pend_def held_id_def claims_def claim_def)
  moreover have "pend st' = (pend st)(c \<mapsto> i)" "i \<notin> fst ` fresh_seen now st"
    "set (pr_seen_ids st') = insert (i, now) (fresh_seen now st)" "events_of out = []"
    using reserved reserve_id_new [OF reserved(3)] by simp_all
  ultimately show ?thesis unfolding id_step_def by blast
qed

lemma deliver_single_true:
  assumes "deliver_single lib now room p ev st = (Inr True, out, st')"
  shows "\<exists>sub. filter (\<lambda>s. ps_p_value s = p) (pr_subs st) = [sub] \<and>
     out = [(ps_conn_id sub, Text (JArray [JString ''EVENT'', JString (ps_sub_id sub), ev]))]"
  using assms unfolding deliver_single_def Let_def by (simp split: list.splits if_split_asm)

lemma deliver_single_false:
  "deliver_single lib now room p ev st = (r, out, st') \<Longrightarrow> r \<noteq> Inr True \<Longrightarrow> out = []"
  unfolding deliver_single_def Let_def by (simp split: list.splits if_split_asm)

lemma on_deliver_ids:
  assumes ok: "pair_ok lib st" and run: "on_deliver lib now room c st = (out, st')"
  shows "id_step now a st out st'"
proof (cases "\<exists>conn e i p ev. map_of (pr_conns st) c = Some conn \<and> pc_phase conn = Reserved e i p ev")
  case False
  then have "out = [] \<and> st' = st"
    using run by (auto simp: on_deliver_def split: option.splits handler_phase.splits)
  then show ?thesis by (simp add: quiet_id_step)
next
  case True
  then obtain conn e i p ev where c: "map_of (pr_conns st) c = Some conn" "pc_phase conn = Reserved e i p ev"
    by blast
  have pc: "pend st c = Some i" using pend_lookup [OF c(1)] c(2) by (simp add: held_id_def)
  have i: "id_bytes_of ev = Some i"
    using conn_ok_of [OF ok c(1)] c(2) by (auto simp: conn_ok_def dest: checked_id)
  obtain r o1 st1 where d: "deliver_single lib now (room 0) p ev st = (r, o1, st1)" by (metis prod_cases3)
  have "pr_conns st1 = pr_conns st" using deliver_others [OF d] by blast
  then have st1: "pend st1 = pend st" by (rule pend_cong)
  have seen1: "pr_seen_ids st1 = pr_seen_ids st" using deliver_others [OF d] by blast
  show ?thesis
  proof (cases "r = Inr True")
    case True
    obtain sub :: pair_sub where o1: "o1 = [(ps_conn_id sub, Text (JArray [JString ''EVENT'', JString (ps_sub_id sub), ev]))]"
      using deliver_single_true [OF d [unfolded True]] by blast
    then have "events_of o1 = [ev]" by (simp add: events_of_def List.map_filter_def)
    moreover have "out = o1 @ try_send (room 1) c (make_ok e True [])"
      "st' = set_conn c (conn\<lparr>pc_phase := BetweenFrames\<rparr>) st1"
      using run c d True by (simp_all add: on_deliver_def)
    ultimately have "events_of out = [ev]" "pend st' = (pend st)(c := None)" "pr_seen_ids st' = pr_seen_ids st"
      using st1 seen1 by simp_all
    then show ?thesis using i pc unfolding id_step_def by blast
  next
    case False
    have o1: "o1 = []" by (rule deliver_single_false [OF d False])
    have "\<exists>msg. (out, st') = ([], set_conn c (conn\<lparr>pc_phase := Failed e i msg\<rparr>) st1)"
    proof (cases r)
      case (Inl msg)
      then show ?thesis using run c d o1 by (simp add: on_deliver_def) blast
    next
      case (Inr b)
      then have "b = False" using False by simp
      then show ?thesis using run c d o1 Inr by (simp add: on_deliver_def) blast
    qed
    then have "out = []" "\<exists>msg. st' = set_conn c (conn\<lparr>pc_phase := Failed e i msg\<rparr>) st1" by auto
    then have "quiet st out st'" using st1 seen1 pc by (auto simp: quiet_def map_le_def split: if_splits)
    then show ?thesis by (rule quiet_id_step)
  qed
qed

lemma on_unreserve_ids:
  assumes ok: "pair_ok lib st" and run: "on_unreserve room c st = (out, st')"
  shows "id_step now a st out st'"
proof (cases "\<exists>conn e i r. map_of (pr_conns st) c = Some conn \<and> pc_phase conn = Failed e i r")
  case False
  then have "out = [] \<and> st' = st"
    using run by (auto simp: on_unreserve_def split: option.splits handler_phase.splits)
  then show ?thesis by (simp add: quiet_id_step)
next
  case True
  then obtain conn e i r where c: "map_of (pr_conns st) c = Some conn" "pc_phase conn = Failed e i r" by blast
  have pc: "pend st c = Some i" using pend_lookup [OF c(1)] c(2) by (simp add: held_id_def)
  have "pend (unreserve_id i st) = pend st" by (rule pend_cong) simp
  moreover have "set (pr_seen_ids (unreserve_id i st)) = {e \<in> set (pr_seen_ids st). fst e \<noteq> i}"
    by (rule unreserve_seen(1)) (use ok in \<open>simp add: pair_ok_def seen_ok_def\<close>)
  moreover have "out = try_send room c (make_ok e False r)"
      "st' = set_conn c (conn\<lparr>pc_phase := BetweenFrames\<rparr>) (unreserve_id i st)"
    using run c by (simp_all add: on_unreserve_def)
  ultimately have "events_of out = []" "pend st' = (pend st)(c := None)"
      "set (pr_seen_ids st') = {e \<in> set (pr_seen_ids st). fst e \<noteq> i}" by simp_all
  then show ?thesis using pc unfolding id_step_def by blast
qed

lemma open_conn_quiet: "pair_ok lib st \<Longrightarrow> quiet st [] (snd (open_conn st))"
  by (auto simp: open_conn_def quiet_def Let_def map_le_def pend_def opt_then_def held_id_def split: if_splits)

lemma lifecycle_quiet:
  "quiet st [] (refuse_conn st)" "quiet st [] (on_upgraded now c st)" "quiet st [] (on_upgrade_failed c st)"
  "quiet st [] (on_drop c st)"
proof -
  have "pend (refuse_conn st) = pend st" by (rule pend_cong) (simp add: refuse_conn_def)
  then show "quiet st [] (refuse_conn st)" by (simp add: quiet_def refuse_conn_def)
  show "quiet st [] (on_upgraded now c st)"
    by (auto simp: on_upgraded_def quiet_def map_le_def split: option.splits)
  show "quiet st [] (on_upgrade_failed c st)" "quiet st [] (on_drop c st)"
    by (auto simp: on_upgrade_failed_def on_drop_def quiet_def split: option.splits)
qed

lemma on_end_quiet: "on_end room c st = (out, st') \<Longrightarrow> quiet st out st'"
  by (auto simp: on_end_def leave_quiet split: option.splits if_splits)

lemma relay_step_ids:
  assumes "pair_ok lib st" "relay_step lib now wall room a st = (out, st')"
  shows "id_step now a st out st'"
  using assms open_conn_quiet [of lib st]
  by (cases a)
    (auto simp: relay_step_def lifecycle_quiet
      intro: quiet_id_step on_frame_quiet on_reserve_ids on_deliver_ids on_unreserve_ids on_end_quiet)

section \<open>What a handler holds was validated when its frame came\<close>

lemma claims_set_conn [simp]: "claims (set_conn c conn st) = (claims st)(c := claim (pc_phase conn))"
  by (rule ext) (simp add: claims_def)

lemma claims_remove [simp]:
  "claims (close_conn c st) = (claims st)(c := None)" "claims (fail_upgrade c st) = (claims st)(c := None)"
  by (rule ext; simp add: claims_def close_conn_def fail_upgrade_def remove_sub_def Let_def map_of_filter_ne)+

lemma claims_cong: "pr_conns st' = pr_conns st \<Longrightarrow> claims st' = claims st"
  by (rule ext) (simp add: claims_def)

lemma claims_keep [simp]:
  "claims (remove_sub c st) = claims st" "claims (snd (reserve_id now i st)) = claims st"
  "claims (unreserve_id i st) = claims st" "claims (refuse_conn st) = claims st"
  "claims (st\<lparr>pr_subs := xs\<rparr>) = claims st"
  by (rule claims_cong; simp add: remove_sub_def refuse_conn_def)+

lemma claim_simps [simp]:
  "claim BetweenFrames = None" "claim Leaving = None" "claim Upgrading = None" "claim (Failed e i r) = None"
  "claim (Validated e i p ev) = Some (e, i, p, ev)" "claim (Reserved e i p ev) = Some (e, i, p, ev)"
  by (simp_all add: claim_def)

lemma claims_lookup: "map_of (pr_conns st) c = Some conn \<Longrightarrow> claims st c = claim (pc_phase conn)"
  by (simp add: claims_def)

text \<open>A step leaves the validated events as they were, or less, or adds the event of its frame.\<close>

definition claim_step :: "pair_lib \<Rightarrow> int \<Rightarrow> pair_action \<Rightarrow> pair_relay \<Rightarrow> pair_relay \<Rightarrow> bool" where
  "claim_step lib wall a st st' \<longleftrightarrow> (\<forall>c q. claims st' c = Some q \<longrightarrow> claims st c = Some q \<or>
     (\<exists>v e i p ev. q = (e, i, p, ev) \<and> a = Frame c (TextFrame (Some (JArray [v, ev]))) \<and> checked lib wall ev e i p))"

lemma claim_step_less: "claims st' \<subseteq>\<^sub>m claims st \<Longrightarrow> claim_step lib wall a st st'"
  unfolding claim_step_def map_le_def dom_def by (metis (mono_tags, lifting) mem_Collect_eq option.distinct(1))

lemma leave_claims: "leave room c conn st = (out, st') \<Longrightarrow> claims st' \<subseteq>\<^sub>m claims st"
  by (auto simp: leave_def)

lemma on_req_claims:
  assumes "map_of (pr_conns st) c = Some conn" "on_req room c conn arr st = (out, st')"
  shows "claims st' \<subseteq>\<^sub>m claims st"
proof -
  have same: "claims (set_conn c (conn\<lparr>pc_sub_id := sid\<rparr>) (st\<lparr>pr_subs := xs\<rparr>)) = claims st" for sid xs
    using claims_lookup [OF assms(1)] by auto
  show ?thesis
    using assms(2) leave_claims [of _ c conn st]
    by (auto simp: on_req_def same simp del: claims_set_conn split: option.splits sum.splits if_splits)
qed

lemma on_close_claims:
  assumes "map_of (pr_conns st) c = Some conn" "on_close room c conn arr st = (out, st')"
  shows "claims st' \<subseteq>\<^sub>m claims st"
  using assms claims_lookup [OF assms(1)]
  by (auto simp: on_close_def map_le_def split: option.splits if_splits)

lemma on_event_claims:
  assumes c: "map_of (pr_conns st) c = Some conn" "pc_phase conn = BetweenFrames"
    and run: "on_event lib now wall room c conn arr st = (out, st')"
  shows "claims st' \<subseteq>\<^sub>m claims st \<or> (\<exists>v ev e i p. arr = [v, ev] \<and> checked lib wall ev e i p \<and>
    claims st' = (claims st)(c \<mapsto> (e, i, p, ev)))"
proof (cases rule: on_event_cases [OF run, case_names unchanged refused validated])
  case unchanged
  then show ?thesis by simp
next
  case refused
  then show ?thesis using c by simp
next
  case (validated e i p)
  obtain v ev where "arr = [v, ev]"
    using validated(1) by (metis (no_types, lifting) One_nat_def Suc_1 length_0_conv length_Suc_conv)
  then show ?thesis using validated(3,4) by auto
qed

lemma jv_array_Some [simp]: "jv_array v = Some xs \<longleftrightarrow> v = JArray xs"
  by (cases v) (simp_all add: jv_array_def)

lemma on_frame_claims:
  assumes run: "on_frame lib now wall room c f st = (out, st')"
  shows "claim_step lib wall (Frame c f) st st'"
proof (cases "\<exists>conn. map_of (pr_conns st) c = Some conn \<and> pc_phase conn = BetweenFrames")
  case False
  then have "st' = st" using run by (auto simp: on_frame_def split: option.splits)
  then show ?thesis by (simp add: claim_step_def)
next
  case True
  then obtain conn0 where c: "map_of (pr_conns st) c = Some conn0" "pc_phase conn0 = BetweenFrames" by blast
  let ?conn = "conn0\<lparr>pc_msg_rate := tick now (pc_msg_rate conn0)\<rparr>"
  let ?st1 = "set_conn c ?conn st"
  have same: "claims ?st1 = claims st" using claims_lookup [OF c(1)] c(2) by auto
  have c1: "map_of (pr_conns ?st1) c = Some ?conn" "pc_phase ?conn = BetweenFrames" using c by simp_all
  show ?thesis
  proof (cases "\<exists>arr. f = TextFrame (Some (JArray arr)) \<and>
      on_event lib now wall (room 0) c ?conn arr ?st1 = (out, st')")
    case True
    then obtain arr where f: "f = TextFrame (Some (JArray arr))"
      "on_event lib now wall (room 0) c ?conn arr ?st1 = (out, st')" by blast
    from on_event_claims [OF c1 f(2)] show ?thesis
    proof (elim disjE exE conjE)
      assume "claims st' \<subseteq>\<^sub>m claims ?st1"
      then show ?thesis unfolding same by (rule claim_step_less)
    next
      fix v ev e i p
      assume "arr = [v, ev]" "checked lib wall ev e i p" "claims st' = (claims ?st1)(c \<mapsto> (e, i, p, ev))"
      then show ?thesis unfolding same f(1) claim_step_def by (auto split: if_splits)
    qed
  next
    case False
    then have "claims st' \<subseteq>\<^sub>m claims ?st1"
      using run c on_req_claims [OF c1(1)] on_close_claims [OF c1(1)] leave_claims [of _ c ?conn ?st1]
      by (auto simp: on_frame_def Let_def on_text_def opt_then_def simp del: claims_set_conn
          split: if_splits frame.splits prod.splits option.splits list.splits)
    then show ?thesis unfolding same by (rule claim_step_less)
  qed
qed

lemma on_reserve_claims: "on_reserve now room c st = (out, st') \<Longrightarrow> claims st' \<subseteq>\<^sub>m claims st"
  by (erule on_reserve_cases) (auto simp: map_le_def claims_def)

lemma on_deliver_claims: "on_deliver lib now room c st = (out, st') \<Longrightarrow> claims st' \<subseteq>\<^sub>m claims st"
proof -
  assume run: "on_deliver lib now room c st = (out, st')"
  have keep: "claims st1 = claims st" if "deliver_single lib now b p ev st = (r, o1, st1)" for b p ev r o1 st1
    by (rule claims_cong) (use deliver_others [OF that] in blast)
  show ?thesis
    using run by (auto simp: on_deliver_def map_le_def dest!: keep
        split: option.splits handler_phase.splits prod.splits sum.splits bool.splits if_splits)
qed

lemma relay_step_claims:
  assumes ok: "pair_ok lib st" and run: "relay_step lib now wall room a st = (out, st')"
  shows "claim_step lib wall a st st'"
proof (cases a)
  case Open
  then show ?thesis using run by (intro claim_step_less)
    (auto simp: relay_step_def open_conn_def Let_def map_le_def claims_def opt_then_def split: if_splits)
next
  case (Frame c f)
  then show ?thesis using run on_frame_claims by (simp add: relay_step_def)
next
  case (Unreserve c)
  then show ?thesis using run by (intro claim_step_less)
    (auto simp: relay_step_def on_unreserve_def map_le_def split: option.splits handler_phase.splits if_splits)
next
  case (Ended c)
  then show ?thesis using run by (intro claim_step_less)
    (auto simp: relay_step_def on_end_def dest: leave_claims split: option.splits if_splits)
qed (use run in \<open>auto simp: relay_step_def on_upgraded_def on_upgrade_failed_def on_drop_def
    intro!: claim_step_less dest: on_reserve_claims on_deliver_claims split: option.splits\<close>)

definition claims_ok :: "pair_lib \<Rightarrow> (nat \<Rightarrow> int) \<Rightarrow> (nat \<times> pair_action) list \<Rightarrow> pair_relay \<Rightarrow> bool" where
  "claims_ok lib W log st \<longleftrightarrow> (\<forall>c e i p ev. claims st c = Some (e, i, p, ev) \<longrightarrow>
     (\<exists>v x. last_frame c log = Some v \<and> (v, Frame c (TextFrame (Some (JArray [x, ev])))) \<in> set log \<and>
       checked lib (W v) ev e i p))"

lemma ready_no_claim: "ready (Frame c f) st \<Longrightarrow> claims st c = None"
  by (auto simp: ready_def claims_def split: option.splits)

lemma last_frame_other: "(\<And>f. a \<noteq> Frame c f) \<Longrightarrow> last_frame c ((t, a) # log) = last_frame c log"
  by (cases a) auto

lemma relay_run_claims: "relay_run lib W now log st evs \<Longrightarrow> claims_ok lib W log st"
proof (induction rule: relay_run.induct)
  case (start now)
  then show ?case by (simp add: claims_ok_def claims_def Relay_new_def)
next
  case (step now log st evs now' a room out st')
  have cs: "claim_step lib (W now') a st st'"
    by (rule relay_step_claims [OF relay_run_ok [OF step.hyps(1)] step.hyps(4)])
  show ?case
    unfolding claims_ok_def
  proof (intro allI impI)
    fix c e i p ev
    assume new: "claims st' c = Some (e, i, p, ev)"
    show "\<exists>v x. last_frame c ((now', a) # log) = Some v \<and>
      (v, Frame c (TextFrame (Some (JArray [x, ev])))) \<in> set ((now', a) # log) \<and> checked lib (W v) ev e i p"
    proof (cases "claims st c = Some (e, i, p, ev)")
      case True
      then have "a \<noteq> Frame c f" for f using ready_no_claim [of c f st] step.hyps(3) by auto
      then have "last_frame c ((now', a) # log) = last_frame c log" by (rule last_frame_other)
      moreover obtain v x where "last_frame c log = Some v" "(v, Frame c (TextFrame (Some (JArray [x, ev])))) \<in> set log"
          "checked lib (W v) ev e i p"
        using step.IH True unfolding claims_ok_def by blast
      ultimately show ?thesis by auto
    next
      case False
      then obtain v where "a = Frame c (TextFrame (Some (JArray [v, ev])))" "checked lib (W now') ev e i p"
        using cs new unfolding claim_step_def by blast
      then show ?thesis by (intro exI [of _ now'] exI [of _ v]) simp
    qed
  qed
qed

section \<open>No event is delivered twice\<close>

definition once_inv ::
  "pair_lib \<Rightarrow> (nat \<Rightarrow> int) \<Rightarrow> json set \<Rightarrow> nat \<Rightarrow> pair_relay \<Rightarrow> bytes option list \<Rightarrow> bool" where
  "once_inv lib W evs now st ids \<longleftrightarrow> distinct ids \<and>
     (\<forall>x \<in> set ids. \<exists>i. x = Some i \<and> held lib W evs now (set (pr_seen_ids st)) i) \<and>
     (\<forall>c i. pend st c = Some i \<longrightarrow> held lib W evs now (set (pr_seen_ids st)) i \<and> Some i \<notin> set ids) \<and>
     (\<forall>c c' i. pend st c = Some i \<longrightarrow> pend st c' = Some i \<longrightarrow> c = c')"

lemma once_step:
  assumes commits: "commits lib (commitments evs)" and clocks: "clocks_agree W D" and inv: "once_inv lib W evs now st ids"
    and step: "id_step now a st out st'"
    and held: "\<And>c e i p ev. a = Reserve c \<Longrightarrow> claims st c = Some (e, i, p, ev) \<Longrightarrow>
      \<exists>v. v \<le> now \<and> now \<le> v + D \<and> checked lib (W v) ev e i p \<and> ev \<in> evs"
  shows "once_inv lib W evs now st' (ids @ map id_bytes_of (events_of out))"
  using step unfolding id_step_def
proof (elim disjE exE conjE)
  assume "quiet st out st'"
  then show ?thesis using inv by (force simp: once_inv_def quiet_def map_le_def dom_def)
next
  assume s: "events_of out = []" "pend st' = pend st" "set (pr_seen_ids st') = fresh_seen now st"
  have "held lib W evs now (set (pr_seen_ids st)) i \<Longrightarrow> held lib W evs now (set (pr_seen_ids st')) i" for i
    using held_fresh s(3) by (simp add: fresh_seen_def)
  then show ?thesis using inv s(1,2) unfolding once_inv_def by (simp only: list.map append_Nil2) blast
next
  fix c e i p ev
  assume s: "a = Reserve c" "events_of out = []" "claims st c = Some (e, i, p, ev)" "i \<notin> fst ` fresh_seen now st"
    "pend st c = None" "pend st' = (pend st)(c \<mapsto> i)" "set (pr_seen_ids st') = insert (i, now) (fresh_seen now st)"
  obtain v where v: "v \<le> now" "now \<le> v + D" "checked lib (W v) ev e i p" "ev \<in> evs"
    using held [OF s(1,3)] by blast
  have keep: "held lib W evs now (set (pr_seen_ids st')) j" if "held lib W evs now (set (pr_seen_ids st)) j" for j
    using held_mono [OF held_fresh [OF that]] s(7) by (auto simp: fresh_seen_def)
  have new: "\<not> held lib W evs now (set (pr_seen_ids st)) i"
    by (rule not_held_twice [OF commits clocks v(4,3,2)]) (use s(4) in \<open>simp add: fresh_seen_def\<close>)
  have heldi: "held lib W evs now (set (pr_seen_ids st')) i"
    using v s(7) unfolding held_def by blast
  have "Some i \<notin> set ids" and "\<forall>c. pend st c \<noteq> Some i" using inv new unfolding once_inv_def by blast+
  then show ?thesis using inv s(2,6) keep heldi unfolding once_inv_def by auto
next
  fix c i ev
  assume s: "events_of out = [ev]" "id_bytes_of ev = Some i" "pend st c = Some i" "pend st' = (pend st)(c := None)"
    "pr_seen_ids st' = pr_seen_ids st"
  then show ?thesis using inv unfolding once_inv_def by auto
next
  fix c i
  assume s: "events_of out = []" "pend st c = Some i" "pend st' = (pend st)(c := None)"
    "set (pr_seen_ids st') = {e \<in> set (pr_seen_ids st). fst e \<noteq> i}"
  have keep: "held lib W evs now (set (pr_seen_ids st')) j" if "held lib W evs now (set (pr_seen_ids st)) j" "j \<noteq> i" for j
    using held_other [OF that] s(4) by simp
  have "x \<noteq> Some i" if "x \<in> set ids" for x using inv s(2) that unfolding once_inv_def by blast
  moreover have "j \<noteq> i" if "pend st d = Some j" "d \<noteq> c" for d j using inv s(2) that unfolding once_inv_def by blast
  ultimately show ?thesis using inv s(1,3) keep unfolding once_inv_def by (simp; metis)
qed

lemma once_later: "once_inv lib W evs now st ids \<Longrightarrow> now \<le> now' \<Longrightarrow> evs \<subseteq> evs' \<Longrightarrow> once_inv lib W evs' now' st ids"
  unfolding once_inv_def using held_later by blast

lemma relay_run_once:
  assumes clocks: "clocks_agree W D"
  shows "relay_run lib W now log st evs \<Longrightarrow> prompt D log \<Longrightarrow> commits lib (commitments (submitted log)) \<Longrightarrow>
    once_inv lib W (submitted log) now st (map id_bytes_of evs)"
proof (induction rule: relay_run.induct)
  case (start now)
  then show ?case by (simp add: once_inv_def Relay_new_def pend_def)
next
  case (step now log st evs now' a room out st')
  let ?log = "(now', a) # log"
  have "prompt D log" "commits lib (commitments (submitted log))"
    using step.prems(1) commits_mono [OF step.prems(2) submitted_later] by simp_all
  then have inv: "once_inv lib W (submitted log) now st (map id_bytes_of evs)" by (rule step.IH)
  have ids: "id_step now' a st out st'"
    by (rule relay_step_ids [OF relay_run_ok [OF step.hyps(1)] step.hyps(4)])
  have validated: "\<exists>v. v \<le> now' \<and> now' \<le> v + D \<and> checked lib (W v) ev e i p \<and> ev \<in> submitted ?log"
    if a: "a = Reserve c" and q: "claims st c = Some (e, i, p, ev)" for c e i p ev
  proof -
    obtain v x where v: "last_frame c log = Some v" "checked lib (W v) ev e i p"
        "(v, Frame c (TextFrame (Some (JArray [x, ev])))) \<in> set log"
      using relay_run_claims [OF step.hyps(1)] q unfolding claims_ok_def by blast
    have "ev \<in> submitted log" using v(3) by (auto simp: submitted_def)
    have "v \<le> now'"
      using last_frame_in [OF v(1)] log_in_the_past [OF step.hyps(1)] step.hyps(2) by fastforce
    moreover have "now' \<le> v + D" using step.prems(1) a v(1) by simp
    ultimately show ?thesis using v(2) \<open>ev \<in> submitted log\<close> submitted_later by blast
  qed
  show ?case
    using once_step [OF step.prems(2) clocks once_later [OF inv step.hyps(2) submitted_later] ids validated]
    by simp
qed

end
