(* ===== verification/PairSafety.thy ===== *)
theory PairSafety
  imports PairOnce
begin

text \<open>
  What the sidecar relay guarantees, with a run on concrete values: a subscriber, an event for it, and the
  event again.
\<close>

section \<open>A run\<close>

fun exec_run ::
  "pair_lib \<Rightarrow> (nat \<Rightarrow> int) \<Rightarrow> (nat \<times> pair_action) list \<Rightarrow> pair_relay \<times> json list \<Rightarrow> pair_relay \<times> json list" where
  "exec_run lib W [] s = s"
| "exec_run lib W ((now, a) # as) (st, evs) =
     (let (out, st') = relay_step lib now (W now) (\<lambda>_. True) a st
      in exec_run lib W as (st', evs @ events_of out))"

fun all_ready :: "pair_lib \<Rightarrow> (nat \<Rightarrow> int) \<Rightarrow> (nat \<times> pair_action) list \<Rightarrow> pair_relay \<Rightarrow> bool" where
  "all_ready lib W [] st \<longleftrightarrow> True"
| "all_ready lib W ((now, a) # as) st \<longleftrightarrow>
     ready a st \<and> all_ready lib W as (snd (relay_step lib now (W now) (\<lambda>_. True) a st))"

lemma exec_run_ok:
  "relay_run lib W now log st evs \<Longrightarrow> sorted (now # map fst as) \<Longrightarrow> all_ready lib W as st \<Longrightarrow>
     exec_run lib W as (st, evs) = (st', evs') \<Longrightarrow>
     relay_run lib W (last (now # map fst as)) (rev as @ log) st' evs'"
proof (induction as arbitrary: now log st evs)
  case (Cons x as)
  obtain n a where x: "x = (n, a)" by (cases x)
  obtain out st1 where r: "relay_step lib n (W n) (\<lambda>_. True) a st = (out, st1)"
    by (cases "relay_step lib n (W n) (\<lambda>_. True) a st")
  have "relay_run lib W n ((n, a) # log) st1 (evs @ events_of out)"
    by (rule relay_run.step [OF Cons.prems(1) _ _ r]) (use Cons.prems(2,3) x in simp_all)
  moreover have "sorted (n # map fst as)" using Cons.prems(2) x by simp
  moreover have "all_ready lib W as st1" using Cons.prems(3) x r by simp
  moreover have "exec_run lib W as (st1, evs @ events_of out) = (st', evs')" using Cons.prems(4) x r by simp
  ultimately have "relay_run lib W (last (n # map fst as)) (rev as @ (n, a) # log) st' evs'" by (rule Cons.IH)
  then show ?case by (simp add: x)
qed simp

definition demo_hex :: string where "demo_hex = replicate 64 CHR ''1''"

definition demo_key :: bytes where "demo_key = replicate 32 17"

definition demo_tags :: json where "demo_tags = JArray [JArray [JString ''p'', JString demo_hex]]"

definition demo_content :: string where "demo_content = ''Ag'' @ replicate 130 CHR ''A''"

definition demo_event :: json where
  "demo_event = JObject [(''id'', JString demo_hex), (''pubkey'', JString demo_hex), (''created_at'', JNumber ''50''),
     (''kind'', JNumber ''24134''), (''tags'', demo_tags), (''content'', JString demo_content),
     (''sig'', JString (replicate 128 CHR ''a''))]"

text \<open>A library that serialises one commitment and one message, and accepts one signature.\<close>

definition demo_lib :: pair_lib where
  "demo_lib = \<lparr>pl_json_to_string = (\<lambda>v.
       if v = JArray [JNumber ''0'', JString demo_hex, JNumber ''50'', JNumber ''24134'', demo_tags, JString demo_content]
       then Some ''c'' else if v = JArray [JString ''EVENT'', JString ''s'', demo_event] then Some ''m'' else None),
     pl_sha256 = (\<lambda>s. if s = ''c'' then replicate 32 17 else []),
     pl_xonly_ok = (\<lambda>_. True), pl_verify_schnorr = (\<lambda>s h k. h = replicate 32 17)\<rparr>"

lemma demo_commits: "commits demo_lib A"
  by (simp add: commits_def demo_lib_def)

text \<open>The wall clock of the run: the seconds of the instants.\<close>

definition demo_clock :: "nat \<Rightarrow> int" where
  "demo_clock t = int (t div SECOND)"

lemma demo_clocks_agree: "clocks_agree demo_clock (30 * SECOND)"
  unfolding clocks_agree_def
proof (intro allI impI)
  fix s t
  assume "s + 300 * SECOND \<le> t + 30 * SECOND"
  then have "s + 270 * SECOND \<le> t" by simp
  then have "(s + 270 * SECOND) div SECOND \<le> t div SECOND" by (rule div_le_mono)
  then show "demo_clock s + 240 < demo_clock t"
    by (simp add: demo_clock_def SECOND_def)
qed

definition demo_actions :: "(nat \<times> pair_action) list" where
  "demo_actions =
     [(0, Open), (0, Open), (0, Upgraded 0), (0, Upgraded 1),
      (0, Frame 0 (TextFrame (Some (JArray [JString ''REQ'', JString ''s'', JObject [(''#p'', JArray [JString demo_hex])]])))),
      (1, Frame 1 (TextFrame (Some (JArray [JString ''EVENT'', demo_event])))),
      (1, Reserve 1),
      (2, Deliver 1),
      (3, Frame 1 (TextFrame (Some (JArray [JString ''EVENT'', demo_event])))),
      (3, Reserve 1)]"

lemma hex_pairs_ones: "hex_pairs (replicate (2 * n) CHR ''1'') = Some (replicate n 17)"
  by (induction n) (simp_all add: to_digit16_def)

lemma demo_hex_ok [simp]: "is_lower_hex demo_hex 64" "decode_hex32 demo_hex = Some (demo_key)"
proof -
  show "is_lower_hex demo_hex 64" by (simp add: is_lower_hex_def demo_hex_def is_lower_hexdigit_def list_all_length)
  then show "decode_hex32 demo_hex = Some (demo_key)"
    using hex_pairs_ones [of 32] by (simp add: decode_hex32_def demo_hex_def demo_key_def)
qed

lemma check_base64_replicate: "is_base64_char c \<Longrightarrow> check_base64 len i 0 (replicate n c) = Some 0"
  by (induction n arbitrary: i) simp_all

lemma demo_content_ok [simp]: "validate_nip44_content demo_content = Inr ()"
proof -
  have b: "is_base64_char CHR ''A''" "is_base64_char CHR ''g''"
    by (simp_all add: is_base64_char_def is_ascii_alphanumeric_def Let_def)
  then have "check_base64 132 0 0 demo_content = Some 0"
    by (simp add: demo_content_def check_base64_replicate)
  moreover have "length demo_content = 132" "demo_content \<noteq> []" by (simp_all add: demo_content_def)
  moreover have "b64_val (demo_content ! 0) = Some 0" "b64_val (demo_content ! 1) = Some 32"
    by (simp_all add: demo_content_def b64_val_def)
  ultimately show ?thesis by (simp add: validate_nip44_content_def Let_def)
qed

lemma demo_numbers [simp]:
  "jv_i64 (JNumber ''50'') = Some 50" "jv_u64 (JNumber ''24134'') = Some 24134"
  "show_int 50 = ''50''" "show_nat 24134 = ''24134''"
  by (simp_all add: jv_i64_def jv_u64_def digits_below_def is_digit_def digits_value_def show_int_def
      show_nat.simps char_of_eq_iff take_bit_eq_mod)

lemma demo_fields [simp]:
  "jv_object demo_event \<noteq> None" "json_get demo_event ''id'' = Some (JString demo_hex)"
  by (simp_all add: demo_event_def jv_object_def json_get_def)

lemma demo_sig_ok [simp]: "is_lower_hex (replicate 128 CHR ''a'') 128"
  by (simp add: is_lower_hex_def is_lower_hexdigit_def list_all_length)

lemma demo_valid [simp]:
  "\<bar>50 - wall\<bar> \<le> 120 \<Longrightarrow> validate_event wall demo_event = Inr (demo_hex, demo_key, demo_key)"
  by (simp add: validate_event_def demo_event_def jv_object_def str_field_def jv_str_def jv_array_def require_def
      ALLOWED_KEYS_def KIND_PAIR_def FRESHNESS_SECS_def demo_tags_def validate_tag_def)

lemma hex_pairs_as: "hex_pairs (replicate (2 * n) CHR ''a'') = Some (replicate n 170)"
  by (induction n) (simp_all add: to_digit16_def)

lemma demo_verified [simp]: "verify_event_sig demo_lib demo_event = Inr ()"
proof -
  have "decode_hex64 (replicate 128 CHR ''a'') = Some (replicate 64 170)"
    using hex_pairs_as [of 64] by (simp add: decode_hex64_def)
  then show ?thesis
    by (simp add: verify_event_sig_def demo_event_def jv_object_def str_field_def jv_str_def jv_array_def require_def
        demo_lib_def demo_key_def Let_def)
qed

lemma demo_filter_ok [simp]:
  "validate_filter (JObject [(''#p'', JArray [JString demo_hex])]) = Inr (demo_key)"
  by (simp add: validate_filter_def jv_object_def jv_array_def jv_str_def Let_def)

lemma demo_strings [simp]: "demo_hex \<noteq> []"
  by (simp add: demo_hex_def)

lemma demo_serialises [simp]:
  "pl_json_to_string demo_lib (JArray [JString ''EVENT'', JString ''s'', demo_event]) = Some ''m''"
  by (simp add: demo_lib_def)

definition demo_conn :: "nat \<Rightarrow> nat \<Rightarrow> string option \<Rightarrow> nat \<Rightarrow> handler_phase \<Rightarrow> pair_conn" where
  "demo_conn m n sid k ph = \<lparr>pc_msg_rate = \<lparr>rw_count = m, rw_window_start = 0\<rparr>,
     pc_event_rate = \<lparr>rw_count = n, rw_window_start = 0\<rparr>, pc_sub_id = sid, pc_events_attempted = k,
     pc_deadline = 120000000000, pc_phase = ph\<rparr>"

definition demo_subs :: "pair_sub list" where
  "demo_subs = [\<lparr>ps_conn_id = 0, ps_sub_id = ''s'', ps_p_value = demo_key\<rparr>]"

definition demo_relay :: "(bytes \<times> nat) list \<Rightarrow> (bytes \<times> nat \<times> nat) list \<Rightarrow> pair_conn \<Rightarrow> pair_relay" where
  "demo_relay seen del conn = \<lparr>pr_subs = demo_subs, pr_conn_count = 2, pr_refusing = 0, pr_next_conn_id = 2, pr_seen_ids = seen,
     pr_delivered = del, pr_conns = [(1, conn), (0, demo_conn 1 0 (Some ''s'') 0 BetweenFrames)]\<rparr>"


declare One_nat_def [simp del]

lemma demo_tick [simp]:
  "now < RATE_WINDOW \<Longrightarrow> tick now \<lparr>rw_count = n, rw_window_start = 0\<rparr> = \<lparr>rw_count = n + 1, rw_window_start = 0\<rparr>"
  by (simp add: tick_def)

lemma demo_instants [simp]: "n < 10 \<Longrightarrow> n < RATE_WINDOW" "n < 10 \<Longrightarrow> demo_clock n = 0" "n < 10 \<Longrightarrow> fresh_entry n t"
  by (simp_all add: RATE_WINDOW_def demo_clock_def SECOND_def fresh_entry_def ENTRY_TTL_def)

lemma demo_caps [simp]:
  "m \<le> 20 \<Longrightarrow> \<not> RATE_MSG_MAX < m" "m \<le> 10 \<Longrightarrow> \<not> RATE_EVENT_MAX < m" "m < 6 \<Longrightarrow> \<not> MAX_EVENTS_PER_CONN \<le> m"
  "m < 1024 \<Longrightarrow> \<not> DEDUP_CAP \<le> m" "m < 12 \<Longrightarrow> \<not> MAX_DELIVERED_PER_P \<le> m" "m < 4096 \<Longrightarrow> \<not> DELIVERED_MAP_CAP \<le> m"
  by (simp_all add: RATE_MSG_MAX_def RATE_EVENT_MAX_def MAX_EVENTS_PER_CONN_def DEDUP_CAP_def
      MAX_DELIVERED_PER_P_def DELIVERED_MAP_CAP_def)

lemma demo_positive [simp]: "RATE_MSG_MAX \<noteq> 0" "RATE_EVENT_MAX \<noteq> 0" "MAX_EVENTS_PER_CONN \<noteq> 0"
  by (simp_all add: RATE_MSG_MAX_def RATE_EVENT_MAX_def MAX_EVENTS_PER_CONN_def)

lemma demo_set_conn [simp]: "set_conn 1 conn' (demo_relay seen del conn) = demo_relay seen del conn'"
  by (simp add: set_conn_def demo_relay_def)

lemma demo_conn_sel [simp]:
  "pc_msg_rate (demo_conn m n sid k ph) = \<lparr>rw_count = m, rw_window_start = 0\<rparr>"
  "pc_event_rate (demo_conn m n sid k ph) = \<lparr>rw_count = n, rw_window_start = 0\<rparr>"
  "pc_events_attempted (demo_conn m n sid k ph) = k" "pc_phase (demo_conn m n sid k ph) = ph"
  "(demo_conn m n sid k ph)\<lparr>pc_msg_rate := \<lparr>rw_count = m', rw_window_start = 0\<rparr>\<rparr> = demo_conn m' n sid k ph"
  "(demo_conn m n sid k ph)\<lparr>pc_event_rate := \<lparr>rw_count = n', rw_window_start = 0\<rparr>\<rparr> = demo_conn m n' sid k ph"
  "(demo_conn m n sid k ph)\<lparr>pc_events_attempted := k'\<rparr> = demo_conn m n sid k' ph"
  "(demo_conn m n sid k ph)\<lparr>pc_phase := ph'\<rparr> = demo_conn m n sid k ph'"
  by (simp_all add: demo_conn_def)

lemma demo_lookup [simp]: "map_of (pr_conns (demo_relay seen del conn)) 1 = Some conn"
  by (simp add: demo_relay_def)

lemma demo_event_object [simp]: "\<exists>obj. jv_object demo_event = Some obj"
  by (simp add: demo_event_def jv_object_def)

lemma demo_reserve_new: "reserve_id 1 demo_key (demo_relay [] del conn) = (New, demo_relay [(demo_key, 1)] del conn)"
  by (simp add: reserve_id_def demo_relay_def DEDUP_CAP_def)

lemma demo_reserve_again:
  "reserve_id 3 demo_key (demo_relay [(demo_key, 1)] del conn) = (Duplicate, demo_relay [(demo_key, 1)] del conn)"
  by (simp add: reserve_id_def demo_relay_def)

lemma demo_frame:
  "now < 10 \<Longrightarrow> m < 20 \<Longrightarrow>
     on_frame lib now wall room 1 (TextFrame (Some (JArray [JString ''EVENT'', ev])))
       (demo_relay seen del (demo_conn m n sid k BetweenFrames)) =
     on_event lib now wall (room 0) 1 (demo_conn (m + 1) n sid k BetweenFrames) [JString ''EVENT'', ev]
       (demo_relay seen del (demo_conn (m + 1) n sid k BetweenFrames))"
  by (simp add: on_frame_def on_text_def jv_array_def jv_str_def Let_def)

lemma demo_event_validated:
  "on_event demo_lib now 0 True 1 (demo_conn m n None k BetweenFrames) [JString ''EVENT'', demo_event]
     (demo_relay seen del conn) =
   ([], demo_relay seen del (demo_conn m (n + 1) None (k + 1) (Validated demo_hex demo_key demo_key demo_event)))"
  if "now < 10" "n < 10" "k < 6"
  using that by (simp add: on_event_def Let_def)

lemma demo_event_reserved:
  "on_reserve 1 True 1 (demo_relay [] del (demo_conn m n None k (Validated demo_hex demo_key demo_key demo_event))) =
   ([], demo_relay [(demo_key, 1)] del (demo_conn m n None k (Reserved demo_hex demo_key demo_key demo_event)))"
  by (simp add: on_reserve_def demo_reserve_new)

lemma demo_event_repeated:
  "on_reserve 3 True 1 (demo_relay [(demo_key, 1)] del (demo_conn m n None k (Validated demo_hex demo_key demo_key demo_event))) =
   ([(1, make_ok demo_hex False ''duplicate: already seen'')],
    demo_relay [(demo_key, 1)] del (demo_conn m n None k BetweenFrames))"
  by (simp add: on_reserve_def demo_reserve_again try_send_def)

lemma demo_deliver:
  "deliver_single demo_lib 2 True demo_key demo_event (demo_relay seen [] conn) =
   (Ok True, [(0, Text (JArray [JString ''EVENT'', JString ''s'', demo_event]))],
    demo_relay seen [(demo_key, 1, 2)] conn)"
  by (simp add: deliver_single_def demo_relay_def demo_subs_def Let_def DELIVERED_MAP_CAP_def MAX_DELIVERED_PER_P_def)

lemma demo_delivered:
  "on_deliver demo_lib 2 (\<lambda>_. True) 1
     (demo_relay seen [] (demo_conn m n None k (Reserved demo_hex demo_key demo_key demo_event))) =
   ([(0, Text (JArray [JString ''EVENT'', JString ''s'', demo_event])), (1, make_ok demo_hex True [])],
    demo_relay seen [(demo_key, 1, 2)] (demo_conn m n None k BetweenFrames))"
  by (simp add: on_deliver_def demo_deliver try_send_def)

definition demo_opening :: "pair_conn \<Rightarrow> pair_conn \<Rightarrow> pair_relay" where
  "demo_opening conn0 conn1 = \<lparr>pr_subs = [], pr_conn_count = 2, pr_refusing = 0, pr_next_conn_id = 2, pr_seen_ids = [],
     pr_delivered = [], pr_conns = [(1, conn1), (0, conn0)]\<rparr>"

definition demo_waiting :: pair_conn where
  "demo_waiting = \<lparr>pc_msg_rate = RateWindow_new 0, pc_event_rate = RateWindow_new 0, pc_sub_id = None,
     pc_events_attempted = 0, pc_deadline = 0, pc_phase = Upgrading\<rparr>"

lemma demo_opened:
  "relay_step lib 0 w room Open Relay_new =
     ([], \<lparr>pr_subs = [], pr_conn_count = 1, pr_refusing = 0, pr_next_conn_id = 1, pr_seen_ids = [],
       pr_delivered = [], pr_conns = [(0, demo_waiting)]\<rparr>)"
  "relay_step lib 0 w room Open \<lparr>pr_subs = [], pr_conn_count = 1, pr_refusing = 0, pr_next_conn_id = 1, pr_seen_ids = [],
       pr_delivered = [], pr_conns = [(0, demo_waiting)]\<rparr> = ([], demo_opening demo_waiting demo_waiting)"
  by (simp_all add: relay_step_def open_conn_def Let_def Relay_new_def MAX_CONNS_def demo_waiting_def demo_opening_def)

lemma demo_upgraded:
  "relay_step lib 0 w room (Upgraded 0) (demo_opening demo_waiting conn) =
     ([], demo_opening (demo_conn 0 0 None 0 BetweenFrames) conn)"
  "relay_step lib 0 w room (Upgraded 1) (demo_opening conn demo_waiting) =
     ([], demo_opening conn (demo_conn 0 0 None 0 BetweenFrames))"
  by (simp_all add: relay_step_def on_upgraded_def demo_opening_def demo_waiting_def set_conn_def demo_conn_def
      RateWindow_new_def CONN_TIMEOUT_def SECOND_def)

lemma demo_subscribed:
  "on_frame lib 0 w (\<lambda>_. True) 0
     (TextFrame (Some (JArray [JString ''REQ'', JString ''s'', JObject [(''#p'', JArray [JString demo_hex])]])))
     (demo_opening (demo_conn 0 0 None 0 BetweenFrames) (demo_conn 0 0 None 0 BetweenFrames)) =
   ([(0, make_eose ''s'')], demo_relay [] [] (demo_conn 0 0 None 0 BetweenFrames))"
  by (simp add: on_frame_def on_text_def jv_array_def jv_str_def Let_def on_req_def SUB_ID_MAX_def demo_opening_def
      jv_object_def set_conn_def try_send_def demo_relay_def demo_subs_def demo_conn_def tick_def RATE_WINDOW_def SECOND_def)

definition demo_ready :: pair_relay where
  "demo_ready = demo_relay [(demo_key, 1)] [] (demo_conn 1 1 None 1 (Reserved demo_hex demo_key demo_key demo_event))"

definition demo_done :: pair_relay where
  "demo_done = demo_relay [(demo_key, 1)] [(demo_key, 1, 2)] (demo_conn 2 2 None 2 BetweenFrames)"

lemma demo_events [simp]: "events_of [(c, make_eose s)] = []" "events_of [(c, make_ok i b msg)] = []"
  "events_of [(0, Text (JArray [JString ''EVENT'', JString ''s'', ev])), (1, make_ok i True [])] = [ev]"
  by (simp_all add: events_of_def List.map_filter_def make_ok_def make_eose_def)

lemma demo_ready_steps [simp]:
  "ready Open st" "ready (Upgraded c) st" "ready (Reserve c) st" "ready (Deliver c) st"
  "ready (Frame 1 f) (demo_relay seen del (demo_conn m n sid k BetweenFrames))"
  "ready (Frame 0 f) (demo_opening (demo_conn m n sid k BetweenFrames) conn)"
  by (simp_all add: ready_def demo_relay_def demo_opening_def)

lemma demo_steps:
  "relay_step demo_lib 0 w (\<lambda>_. True) (Frame 0 (TextFrame (Some (JArray [JString ''REQ'', JString ''s'',
       JObject [(''#p'', JArray [JString demo_hex])]]))))
     (demo_opening (demo_conn 0 0 None 0 BetweenFrames) (demo_conn 0 0 None 0 BetweenFrames)) =
     ([(0, make_eose ''s'')], demo_relay [] [] (demo_conn 0 0 None 0 BetweenFrames))"
  "now < 10 \<Longrightarrow> m < 10 \<Longrightarrow> n < 10 \<Longrightarrow> k < 6 \<Longrightarrow>
     relay_step demo_lib now 0 (\<lambda>_. True) (Frame 1 (TextFrame (Some (JArray [JString ''EVENT'', demo_event]))))
       (demo_relay seen del (demo_conn m n None k BetweenFrames)) =
     ([], demo_relay seen del (demo_conn (m + 1) (n + 1) None (k + 1) (Validated demo_hex demo_key demo_key demo_event)))"
  "relay_step demo_lib 1 w (\<lambda>_. True) (Reserve 1)
     (demo_relay [] del (demo_conn m n None k (Validated demo_hex demo_key demo_key demo_event))) =
     ([], demo_relay [(demo_key, 1)] del (demo_conn m n None k (Reserved demo_hex demo_key demo_key demo_event)))"
  "relay_step demo_lib 2 w (\<lambda>_. True) (Deliver 1)
     (demo_relay seen [] (demo_conn m n None k (Reserved demo_hex demo_key demo_key demo_event))) =
     ([(0, Text (JArray [JString ''EVENT'', JString ''s'', demo_event])), (1, make_ok demo_hex True [])],
      demo_relay seen [(demo_key, 1, 2)] (demo_conn m n None k BetweenFrames))"
  "relay_step demo_lib 3 w (\<lambda>_. True) (Reserve 1)
     (demo_relay [(demo_key, 1)] del (demo_conn m n None k (Validated demo_hex demo_key demo_key demo_event))) =
     ([(1, make_ok demo_hex False ''duplicate: already seen'')],
      demo_relay [(demo_key, 1)] del (demo_conn m n None k BetweenFrames))"
  using demo_subscribed demo_event_reserved demo_delivered demo_event_repeated
  by (simp_all add: relay_step_def demo_frame demo_event_validated)

lemma demo_to_ready:
  "exec_run demo_lib demo_clock (take 7 demo_actions) (Relay_new, []) = (demo_ready, [])"
  "all_ready demo_lib demo_clock (take 7 demo_actions) Relay_new"
  by (simp_all add: demo_actions_def demo_opened demo_upgraded demo_steps demo_ready_def)

lemma demo_to_done:
  "exec_run demo_lib demo_clock (drop 7 demo_actions) (demo_ready, []) = (demo_done, [demo_event])"
  "all_ready demo_lib demo_clock (drop 7 demo_actions) demo_ready"
  by (simp_all add: demo_actions_def demo_steps demo_ready_def demo_done_def)

declare One_nat_def [simp]

lemma demo_ready_run: "relay_run demo_lib demo_clock 1 (rev (take 7 demo_actions)) demo_ready []"
proof -
  have "relay_run demo_lib demo_clock (last (0 # map fst (take 7 demo_actions))) (rev (take 7 demo_actions) @ []) demo_ready []"
    by (rule exec_run_ok [OF relay_run.start _ demo_to_ready(2,1)]) (simp add: demo_actions_def)
  then show ?thesis by (simp add: demo_actions_def)
qed

lemma demo_done_run: "relay_run demo_lib demo_clock 3 (rev demo_actions) demo_done [demo_event]"
proof -
  have "relay_run demo_lib demo_clock (last (1 # map fst (drop 7 demo_actions)))
      (rev (drop 7 demo_actions) @ rev (take 7 demo_actions)) demo_done [demo_event]"
    by (rule exec_run_ok [OF demo_ready_run _ demo_to_done(2,1)]) (simp add: demo_actions_def)
  moreover have "rev (drop 7 demo_actions) @ rev (take 7 demo_actions) = rev demo_actions"
    by (metis append_take_drop_id rev_append)
  ultimately show ?thesis by (simp add: demo_actions_def)
qed

lemma demo_delivery:
  "relay_step demo_lib 2 0 (\<lambda>_. True) (Deliver 1) demo_ready =
     ([(0, Text (JArray [JString ''EVENT'', JString ''s'', demo_event])), (1, make_ok demo_hex True [])],
      demo_relay [(demo_key, 1)] [(demo_key, 1, 2)] (demo_conn 1 1 None 1 BetweenFrames))"
  using demo_delivered by (simp add: relay_step_def demo_ready_def)

section \<open>The guarantees\<close>

text \<open>
  C31. The shared state of the sidecar relay keeps its shape and its bounds under every step of every
  connection: at most 128 connections have a slot, and the count is their number and that of the requests
  about to be refused; a connection has the subscription it remembers and no other, and none before its
  handler starts and after it ends, no two subscriptions name the same recipient, the ids seen are distinct and
  at most 1024, each recipient's budget is at most 12 and at most 4096 are kept, a connection has tried at
  most 6 events, and what it has reserved has been checked.
\<close>

theorem pair_steps_keep_shape:
  assumes "pair_ok lib st" "relay_step lib now wall room a st = (out, st')"
  shows "pair_ok lib st'"
  using assms by (rule relay_step_ok)

lemma pair_steps_keep_shape_witness:
  "pair_ok demo_lib (demo_relay [(demo_key, 1)] [(demo_key, 1, 2)] (demo_conn 1 1 None 1 BetweenFrames))"
  by (rule pair_steps_keep_shape [OF relay_run_ok [OF demo_ready_run] demo_delivery])

lemma event_in_events: "(c, Text (JArray [JString ''EVENT'', JString sid, ev])) \<in> set out \<Longrightarrow> events_of out \<noteq> []"
  by (force simp: events_of_def List.map_filter_def filter_empty_conv)

lemma leave_events: "leave room c conn st = (out, st') \<Longrightarrow> events_of out = []"
  by (auto simp: leave_def)

lemma on_reserve_events: "on_reserve now room c st = (out, st') \<Longrightarrow> events_of out = []"
  by (auto elim!: on_reserve_cases)

lemma on_req_events: "on_req room c conn arr st = (out, st') \<Longrightarrow> events_of out = []"
  by (auto simp: on_req_def leave_def split: option.splits sum.splits if_splits)

lemma on_close_events: "on_close room c conn arr st = (out, st') \<Longrightarrow> events_of out = []"
  by (auto simp: on_close_def split: option.splits if_splits)

lemma on_text_events: "on_text lib now wall room c conn parsed st = (out, st') \<Longrightarrow> events_of out = []"
  by (auto simp: on_text_def dest: on_req_events on_event_events on_close_events split: option.splits list.splits if_splits)

lemma on_frame_events: "on_frame lib now wall room c f st = (out, st') \<Longrightarrow> events_of out = []"
  by (auto simp: on_frame_def Let_def dest: on_text_events leave_events
      split: option.splits if_splits frame.splits prod.splits)

text \<open>Only a delivery puts an event into a channel.\<close>

lemma only_deliver_delivers:
  assumes "relay_step lib now wall room a st = (out, st')" "events_of out \<noteq> []"
  obtains d where "a = Deliver d" "on_deliver lib now room d st = (out, st')"
proof (cases a)
  case (Frame c f)
  then show thesis using assms on_frame_events by (simp add: relay_step_def)
next
  case (Reserve c)
  then show thesis using assms on_reserve_events by (simp add: relay_step_def)
next
  case (Unreserve c)
  then show thesis
    using assms by (auto simp: relay_step_def on_unreserve_def split: option.splits handler_phase.splits)
next
  case (Ended c)
  then show thesis
    using assms by (auto simp: relay_step_def on_end_def dest: leave_events split: option.splits if_splits)
qed (use assms that in \<open>auto simp: relay_step_def\<close>)

lemma delivery_goes_to:
  assumes run: "on_deliver lib now room d st = (out, st')"
    and ev: "(c, Text (JArray [JString ''EVENT'', JString sid, ev])) \<in> set out"
  shows "\<exists>conn e i p sub. map_of (pr_conns st) d = Some conn \<and> pc_phase conn = Reserved e i p ev \<and>
     filter (\<lambda>s. ps_p_value s = p) (pr_subs st) = [sub] \<and> ps_conn_id sub = c \<and> ps_sub_id sub = sid"
proof -
  obtain conn where conn: "map_of (pr_conns st) d = Some conn"
    using run ev by (cases "map_of (pr_conns st) d") (auto simp: on_deliver_def)
  obtain e i p ev' where ph: "pc_phase conn = Reserved e i p ev'"
    using run ev conn by (cases "pc_phase conn") (auto simp: on_deliver_def)
  obtain r o1 st1 where dl: "deliver_single lib now (room 0) p ev' st = (r, o1, st1)" by (metis prod_cases3)
  have r: "r = Inr True"
  proof (rule ccontr)
    assume no: "r \<noteq> Inr True"
    then have "o1 = []" by (rule deliver_single_false [OF dl])
    with no have "out = []"
      using run conn ph dl by (auto simp: on_deliver_def split: sum.splits bool.splits)
    with ev show False by simp
  qed
  obtain sub :: pair_sub where sub: "filter (\<lambda>s. ps_p_value s = p) (pr_subs st) = [sub]"
    "o1 = [(ps_conn_id sub, Text (JArray [JString ''EVENT'', JString (ps_sub_id sub), ev']))]"
    using deliver_single_true [OF dl [unfolded r]] by blast
  have "out = o1 @ try_send (room 1) d (make_ok e True [])"
    using run conn ph dl r by (simp add: on_deliver_def)
  with ev sub(2) have "ps_conn_id sub = c \<and> ps_sub_id sub = sid \<and> ev' = ev"
    by (auto simp: try_send_def make_ok_def split: if_splits)
  with conn ph sub(1) show ?thesis by blast
qed

lemma subscriber_is_live:
  assumes "pair_ok lib st" "sub \<in> set (pr_subs st)"
  shows "\<exists>conn. map_of (pr_conns st) (ps_conn_id sub) = Some conn \<and> pc_sub_id conn = Some (ps_sub_id sub)"
proof -
  have "map_of (map (\<lambda>s. (ps_conn_id s, ps_sub_id s)) (pr_subs st)) (ps_conn_id sub) = Some (ps_sub_id sub)"
    using assms by (intro map_of_is_SomeI) (auto simp: pair_ok_def pair_subs_ok_def comp_def)
  then show ?thesis
    using assms(1) by (auto simp: pair_ok_def pair_subs_ok_def opt_then_def split: option.splits)
qed

text \<open>
  C30. Whatever interleaving of connections led to the state, an event is put into a channel only by the
  delivery of a connection whose last frame carried it. At the instant that frame was handled, the event
  passed validation by the wall clock of that instant - its \<open>created_at\<close> was within 120 s of it - and its
  signature was verified. Exactly one subscription names its recipient, and the event goes to the
  connection that holds it, under the subscription that connection has open.
\<close>

theorem only_checked_events_reach_their_recipient:
  assumes "relay_run lib W now log st evs" "relay_step lib now' wall room a st = (out, st')"
    "(c, Text (JArray [JString ''EVENT'', JString sid, ev])) \<in> set out"
  shows "\<exists>d v x e i p created sub conn. a = Deliver d \<and> last_frame d log = Some v \<and>
     (v, Frame d (TextFrame (Some (JArray [x, ev])))) \<in> set log \<and>
     validate_event (W v) ev = Inr (e, i, p) \<and> created_at_of ev = Some created \<and> \<bar>created - W v\<bar> \<le> 120 \<and>
     verify_event_sig lib ev = Inr () \<and>
     filter (\<lambda>s. ps_p_value s = p) (pr_subs st) = [sub] \<and> ps_conn_id sub = c \<and>
     map_of (pr_conns st) c = Some conn \<and> pc_sub_id conn = Some sid"
proof -
  have ok: "pair_ok lib st" by (rule relay_run_ok [OF assms(1)])
  obtain d where d: "a = Deliver d" "on_deliver lib now' room d st = (out, st')"
    using only_deliver_delivers [OF assms(2) event_in_events [OF assms(3)]] by metis
  obtain conn e i p sub where 1: "map_of (pr_conns st) d = Some conn" "pc_phase conn = Reserved e i p ev"
    "filter (\<lambda>s. ps_p_value s = p) (pr_subs st) = [sub]" "ps_conn_id sub = c" "ps_sub_id sub = sid"
    using delivery_goes_to [OF d(2) assms(3)] by blast
  have "claims st d = Some (e, i, p, ev)" using 1(1,2) by (simp add: claims_lookup)
  then obtain v x where 2: "last_frame d log = Some v" "(v, Frame d (TextFrame (Some (JArray [x, ev])))) \<in> set log"
    "checked lib (W v) ev e i p"
    using relay_run_claims [OF assms(1)] unfolding claims_ok_def by blast
  obtain created where 3: "created_at_of ev = Some created" "\<bar>created - W v\<bar> \<le> 120"
    using checked_time [OF 2(3)] by (auto simp: FRESHNESS_SECS_def)
  have "sub \<in> set (filter (\<lambda>s. ps_p_value s = p) (pr_subs st))" by (simp add: 1(3))
  then have "sub \<in> set (pr_subs st)" by simp
  then obtain conn' where "map_of (pr_conns st) c = Some conn'" "pc_sub_id conn' = Some sid"
    using subscriber_is_live [OF ok] 1(4,5) by blast
  then show ?thesis using d(1) 1(3,4) 2 3 unfolding checked_def by blast
qed

lemma only_checked_events_reach_their_recipient_witness:
  "\<exists>d v x e i p created sub conn. Deliver 1 = Deliver d \<and> last_frame d (rev (take 7 demo_actions)) = Some v \<and>
     (v, Frame d (TextFrame (Some (JArray [x, demo_event])))) \<in> set (rev (take 7 demo_actions)) \<and>
     validate_event (demo_clock v) demo_event = Inr (e, i, p) \<and> created_at_of demo_event = Some created \<and>
     \<bar>created - demo_clock v\<bar> \<le> 120 \<and> verify_event_sig demo_lib demo_event = Inr () \<and>
     filter (\<lambda>s. ps_p_value s = p) (pr_subs demo_ready) = [sub] \<and> ps_conn_id sub = 0 \<and>
     map_of (pr_conns demo_ready) 0 = Some conn \<and> pc_sub_id conn = Some ''s''"
  by (rule only_checked_events_reach_their_recipient [OF demo_ready_run demo_delivery]) simp

text \<open>
  C29. No event is delivered twice in a run: not to two subscribers, not to the same one again, whichever
  connections submit it, however their steps interleave, whatever is evicted from the table of ids seen in
  between, and although an id whose delivery fails is given back. This rests on three conditions on the run.
  The wall clock, which validation reads and which is otherwise arbitrary, gains more than 240 s over
  every stretch of 300 s less \<open>D\<close> on the monotonic clock, which the table of ids reads; a wall clock set back
  by more than that does let an event through twice. A handler reserves the id within \<open>D\<close> of the frame it
  came in. And among the commitments of the events submitted in this run no two have the same SHA-256 digest.
\<close>

theorem no_event_is_delivered_twice:
  assumes "relay_run lib W now log st evs" "clocks_agree W D" "prompt D log" "commits lib (commitments (submitted log))"
  shows "distinct (map event_id_of evs)"
proof -
  have "distinct (map id_bytes_of evs)"
    using relay_run_once [OF assms(2,1,3,4)] by (simp add: once_inv_def)
  then have "distinct (map (\<lambda>x. opt_then x decode_hex32) (map event_id_of evs))"
    by (simp add: comp_def id_bytes_of_def [abs_def])
  then show ?thesis unfolding distinct_map by blast
qed

lemma demo_prompt: "prompt (30 * SECOND) (rev demo_actions)"
  by (simp add: demo_actions_def)

lemma no_event_is_delivered_twice_witness:
  "relay_run demo_lib demo_clock 3 (rev demo_actions) demo_done [demo_event] \<and> distinct (map event_id_of [demo_event])"
  using demo_done_run no_event_is_delivered_twice [OF demo_done_run demo_clocks_agree demo_prompt demo_commits]
  by (rule conjI)

end
