(* ===== verification/IngestChecks.thy ===== *)
theory IngestChecks
  imports Reads EventReplace Json
begin

text \<open>
  The checks on an event that \<open>crates/buzz-relay/src/handlers/ingest.rs\<close> makes before it is stored: the
  tables of kinds, and the validators of tags and content of single kinds. Strings are UTF-8 bytes, and a
  decoded event id or key is its 64 lower-case hex digits.
\<close>

unbundle bit_operations_syntax

section \<open>Who submits\<close>

datatype HttpAuthMethod = HttpNip98 | HttpDevPubkey

datatype IngestAuth =
    AuthNip42 pubkey "Scope list" "uuid list option" uuid
  | AuthHttp pubkey "Scope list" HttpAuthMethod

fun ia_pubkey :: "IngestAuth \<Rightarrow> pubkey" where
  "ia_pubkey (AuthNip42 pk _ _ _) = pk"
| "ia_pubkey (AuthHttp pk _ _) = pk"

fun ia_scopes :: "IngestAuth \<Rightarrow> Scope list" where
  "ia_scopes (AuthNip42 _ ss _ _) = ss"
| "ia_scopes (AuthHttp _ ss _) = ss"

fun ia_conn_id :: "IngestAuth \<Rightarrow> uuid option" where
  "ia_conn_id (AuthNip42 _ _ _ c) = Some c"
| "ia_conn_id (AuthHttp _ _ _) = None"

fun ia_channel_ids :: "IngestAuth \<Rightarrow> uuid list option" where
  "ia_channel_ids (AuthNip42 _ _ cs _) = cs"
| "ia_channel_ids (AuthHttp _ _ _) = None"

fun is_http :: "IngestAuth \<Rightarrow> bool" where
  "is_http (AuthNip42 _ _ _ _) = False"
| "is_http (AuthHttp _ _ _) = True"

datatype IngestError = Rejected string | AuthFailed string | Internal string

record IngestResult =
  ir_event_id :: string
  ir_accepted :: bool
  ir_message :: string

section \<open>Tables of kinds\<close>

definition users_write_kinds :: "u32 list" where
  "users_write_kinds =
     [KIND_CONTACT_LIST, KIND_READ_STATE, KIND_USER_STATUS, KIND_AGENT_ENGRAM, KIND_EVENT_REMINDER, KIND_PERSONA,
      KIND_TEAM, KIND_MANAGED_AGENT, KIND_TEAM_CATALOG, KIND_PUSH_LEASE]"

definition user_list_kinds :: "u32 list" where
  "user_list_kinds =
     [KIND_MUTE_LIST, KIND_PIN_LIST, KIND_NIP65_RELAY_LIST_METADATA, KIND_BOOKMARK_LIST, KIND_FOLLOW_SET,
      KIND_BOOKMARK_SET, KIND_EMOJI_SET, KIND_EMOJI_LIST, KIND_AGENT_PROFILE]"

definition message_kinds :: "u32 list" where
  "message_kinds =
     [KIND_DELETION, KIND_REACTION, KIND_GIFT_WRAP, KIND_STREAM_MESSAGE, KIND_STREAM_MESSAGE_V2,
      KIND_NIP29_DELETE_EVENT, KIND_STREAM_MESSAGE_EDIT, KIND_STREAM_MESSAGE_PINNED, KIND_STREAM_MESSAGE_BOOKMARKED,
      KIND_STREAM_MESSAGE_SCHEDULED, KIND_STREAM_REMINDER, KIND_STREAM_MESSAGE_DIFF, KIND_FORUM_POST,
      KIND_FORUM_VOTE, KIND_FORUM_COMMENT]"

definition huddle_kinds :: "u32 list" where
  "huddle_kinds =
     [KIND_HUDDLE_STARTED, KIND_HUDDLE_PARTICIPANT_JOINED, KIND_HUDDLE_PARTICIPANT_LEFT, KIND_HUDDLE_ENDED,
      KIND_HUDDLE_GUIDELINES]"

definition git_message_kinds :: "u32 list" where
  "git_message_kinds =
     [KIND_GIT_PATCH, KIND_GIT_PULL_REQUEST, KIND_GIT_PR_UPDATE, KIND_GIT_ISSUE, KIND_GIT_STATUS_OPEN,
      KIND_GIT_STATUS_MERGED, KIND_GIT_STATUS_CLOSED, KIND_GIT_STATUS_DRAFT]"

definition relay_admin_commands :: "u32 list" where
  "relay_admin_commands =
     [RELAY_ADMIN_ADD_MEMBER, RELAY_ADMIN_REMOVE_MEMBER, RELAY_ADMIN_CHANGE_ROLE, RELAY_ADMIN_SET_WORKSPACE_PROFILE]"

definition required_scope_for_kind :: "u32 \<Rightarrow> nostr_event \<Rightarrow> string + Scope" where
  "required_scope_for_kind k ev =
     (if k = KIND_PROFILE then Ok UsersWrite
      else if k \<in> set [KIND_TEXT_NOTE, KIND_LONG_FORM] then Ok MessagesWrite
      else if k \<in> set users_write_kinds then Ok UsersWrite
      else if k = KIND_AGENT_TURN_METRIC then Ok MessagesWrite
      else if k \<in> set [KIND_REPORT, KIND_PRODUCT_FEEDBACK] then Ok MessagesWrite
      else if is_moderation_command_kind k then Ok MessagesWrite
      else if k \<in> set user_list_kinds then Ok UsersWrite
      else if k \<in> set message_kinds then Ok MessagesWrite
      else if k \<in> set [KIND_NIP29_PUT_USER, KIND_NIP29_REMOVE_USER, KIND_NIP29_DELETE_GROUP] then Ok AdminChannels
      else if k \<in> set relay_admin_commands then Ok AdminUsers
      else if k \<in> set [KIND_IA_ARCHIVE_REQUEST, KIND_IA_UNARCHIVE_REQUEST] then Ok UsersWrite
      else if k = KIND_NIP29_EDIT_METADATA
      then (if list_ex (\<lambda>t. tag_kind t = ''archived'') (ev_tags ev) then Ok AdminChannels else Ok ChannelsWrite)
      else if k \<in> set [KIND_NIP29_CREATE_GROUP, KIND_CANVAS] then Ok ChannelsWrite
      else if k \<in> set [KIND_NIP29_JOIN_REQUEST, KIND_NIP29_LEAVE_REQUEST, KIND_NIP43_LEAVE_REQUEST] then Ok ChannelsRead
      else if k \<in> set huddle_kinds then Ok ChannelsWrite
      else if k \<in> set [KIND_GIT_REPO_ANNOUNCEMENT, KIND_GIT_REPO_STATE] then Ok ReposWrite
      else if k \<in> set git_message_kinds then Ok MessagesWrite
      else if k \<in> set [KIND_DM_OPEN, KIND_DM_ADD_MEMBER, KIND_DM_HIDE] then Ok MessagesWrite
      else if k \<in> set [KIND_WORKFLOW_DEF, KIND_WORKFLOW_TRIGGER] then Ok MessagesWrite
      else if k \<in> set [KIND_APPROVAL_GRANT, KIND_APPROVAL_DENY] then Ok MessagesWrite
      else Err ''restricted: unknown event kind'')"

definition GLOBAL_ONLY_KINDS :: "u32 list" where
  "GLOBAL_ONLY_KINDS =
     [KIND_PROFILE, KIND_TEXT_NOTE, KIND_CONTACT_LIST, KIND_LONG_FORM, KIND_USER_STATUS, KIND_READ_STATE,
      KIND_MUTE_LIST, KIND_PIN_LIST, KIND_NIP65_RELAY_LIST_METADATA, KIND_BOOKMARK_LIST, KIND_FOLLOW_SET,
      KIND_BOOKMARK_SET, KIND_EMOJI_SET, KIND_EMOJI_LIST, KIND_AGENT_ENGRAM, KIND_EVENT_REMINDER,
      KIND_AGENT_PROFILE, KIND_PERSONA, KIND_TEAM, KIND_MANAGED_AGENT, KIND_TEAM_CATALOG,
      KIND_GIT_REPO_ANNOUNCEMENT, KIND_GIT_REPO_STATE, KIND_GIT_PATCH, KIND_GIT_PULL_REQUEST, KIND_GIT_PR_UPDATE,
      KIND_GIT_ISSUE, KIND_GIT_STATUS_OPEN, KIND_GIT_STATUS_MERGED, KIND_GIT_STATUS_CLOSED, KIND_GIT_STATUS_DRAFT,
      KIND_MODERATION_BAN, KIND_MODERATION_UNBAN, KIND_MODERATION_TIMEOUT, KIND_MODERATION_UNTIMEOUT,
      KIND_MODERATION_RESOLVE_REPORT, RELAY_ADMIN_ADD_MEMBER, RELAY_ADMIN_REMOVE_MEMBER, RELAY_ADMIN_CHANGE_ROLE,
      RELAY_ADMIN_SET_WORKSPACE_PROFILE, KIND_NIP43_LEAVE_REQUEST, KIND_IA_ARCHIVE_REQUEST,
      KIND_IA_UNARCHIVE_REQUEST, KIND_AGENT_TURN_METRIC, KIND_PUSH_LEASE]"

definition is_global_only_kind :: "u32 \<Rightarrow> bool" where
  "is_global_only_kind k \<longleftrightarrow> k \<in> set GLOBAL_ONLY_KINDS"

definition H_SCOPED_KINDS :: "u32 list" where
  "H_SCOPED_KINDS =
     [KIND_STREAM_MESSAGE, KIND_STREAM_MESSAGE_V2, KIND_STREAM_MESSAGE_EDIT, KIND_STREAM_MESSAGE_PINNED,
      KIND_STREAM_MESSAGE_BOOKMARKED, KIND_STREAM_MESSAGE_SCHEDULED, KIND_STREAM_REMINDER, KIND_STREAM_MESSAGE_DIFF,
      KIND_CANVAS, KIND_FORUM_POST, KIND_FORUM_VOTE, KIND_FORUM_COMMENT, KIND_NIP29_PUT_USER,
      KIND_NIP29_REMOVE_USER, KIND_NIP29_EDIT_METADATA, KIND_NIP29_DELETE_EVENT, KIND_NIP29_DELETE_GROUP,
      KIND_NIP29_LEAVE_REQUEST, KIND_HUDDLE_STARTED, KIND_HUDDLE_PARTICIPANT_JOINED, KIND_HUDDLE_PARTICIPANT_LEFT,
      KIND_HUDDLE_ENDED, KIND_HUDDLE_GUIDELINES]"

definition requires_h_channel_scope :: "u32 \<Rightarrow> bool" where
  "requires_h_channel_scope k \<longleftrightarrow> k \<in> set H_SCOPED_KINDS"

definition is_admin_kind :: "u32 \<Rightarrow> bool" where
  "is_admin_kind k \<longleftrightarrow> 9000 \<le> k \<and> k \<le> 9022"

definition is_side_effect_kind :: "u32 \<Rightarrow> bool" where
  "is_side_effect_kind k \<longleftrightarrow>
     k = 0 \<or> k = 5 \<or> (9000 \<le> k \<and> k \<le> 9022) \<or> k = KIND_GIT_REPO_ANNOUNCEMENT \<or> k = KIND_AGENT_PROFILE \<or>
     (41001 \<le> k \<and> k \<le> 41003) \<or> k = 40099"

section \<open>Reading tags\<close>

text \<open>The first tag of a kind whose content passes the function.\<close>

definition find_tag :: "string \<Rightarrow> (string \<Rightarrow> 'a option) \<Rightarrow> nostr_tag list \<Rightarrow> 'a option" where
  "find_tag kind g ts = find_map (\<lambda>t. if tag_kind t = kind then opt_then (tag_content t) g else None) ts"

definition hex32 :: "string \<Rightarrow> string option" where
  "hex32 s = (if length s = 64 \<and> list_all is_ascii_hexdigit s then Some (to_ascii_lowercase s) else None)"

definition extract_channel_id :: "(string \<Rightarrow> uuid option) \<Rightarrow> nostr_event \<Rightarrow> uuid option" where
  "extract_channel_id parse ev = find_tag ''h'' parse (ev_tags ev)"

definition count_tags :: "string \<Rightarrow> nostr_event \<Rightarrow> nat" where
  "count_tags kind ev = length (filter (\<lambda>t. tag_kind t = kind) (ev_tags ev))"

definition count_e_tags :: "nostr_event \<Rightarrow> nat" where
  "count_e_tags ev = count_tags ''e'' ev"

definition effective_message_author :: "nostr_event \<Rightarrow> pubkey \<Rightarrow> pubkey" where
  "effective_message_author ev relay_pubkey =
     (if ev_pubkey ev = relay_pubkey
      then (case opt_then (find_tag ''actor'' Some (ev_tags ev)) hex32 of
              Some pk \<Rightarrow> pk
            | None \<Rightarrow>
                (case find_tag ''p'' hex32 (ev_tags ev) of
                   Some pk \<Rightarrow> pk
                 | None \<Rightarrow> ev_pubkey ev))
      else ev_pubkey ev)"

section \<open>Characters of UTF-8 text\<close>

definition is_continuation :: "char \<Rightarrow> bool" where
  "is_continuation c \<longleftrightarrow> 128 \<le> (of_char c :: nat) \<and> (of_char c :: nat) < 192"

text \<open>\<open>str::chars\<close>: a character is a byte with the continuation bytes after it.\<close>

function utf8_chars :: "string \<Rightarrow> string list" where
  "utf8_chars [] = []"
| "utf8_chars (c # cs) = (c # takeWhile is_continuation cs) # utf8_chars (dropWhile is_continuation cs)"
  by pat_completeness auto
termination
  by (relation "measure length") (auto simp: less_Suc_eq_le length_dropWhile_le)

text \<open>\<open>char::is_control\<close>, the category Cc, and \<open>char::is_whitespace\<close>, the property White_Space.\<close>

definition is_control :: "string \<Rightarrow> bool" where
  "is_control ch \<longleftrightarrow>
     (case map (\<lambda>c. of_char c :: nat) ch of
        [a] \<Rightarrow> a < 32 \<or> a = 127
      | [a, b] \<Rightarrow> a = 194 \<and> b < 160
      | _ \<Rightarrow> False)"

definition is_whitespace :: "string \<Rightarrow> bool" where
  "is_whitespace ch \<longleftrightarrow>
     (case map (\<lambda>c. of_char c :: nat) ch of
        [a] \<Rightarrow> (9 \<le> a \<and> a \<le> 13) \<or> a = 32
      | [a, b] \<Rightarrow> a = 194 \<and> (b = 133 \<or> b = 160)
      | [a, b, c] \<Rightarrow>
          (a = 225 \<and> b = 154 \<and> c = 128) \<or>
          (a = 226 \<and> b = 128 \<and> (c \<le> 138 \<or> c = 168 \<or> c = 169 \<or> c = 175)) \<or>
          (a = 226 \<and> b = 129 \<and> c = 159) \<or>
          (a = 227 \<and> b = 128 \<and> c = 128)
      | _ \<Rightarrow> False)"

definition trim_end_ws :: "string list \<Rightarrow> string list" where
  "trim_end_ws cs = rev (dropWhile is_whitespace (rev cs))"

definition trim_ws :: "string list \<Rightarrow> string list" where
  "trim_ws cs = trim_end_ws (dropWhile is_whitespace cs)"

definition canonical_channel_name :: "string \<Rightarrow> string" where
  "canonical_channel_name name =
     concat (trim_end_ws (dropWhile (\<lambda>ch. ch = ''#'' \<or> is_whitespace ch) (utf8_chars name)))"

section \<open>Validators\<close>

definition is_hex_sha :: "string \<Rightarrow> bool" where
  "is_hex_sha sha \<longleftrightarrow> length sha \<ge> 7 \<and> list_all is_ascii_hexdigit sha"

text \<open>One tag of a diff: whether a repo and a commit have been seen.\<close>

definition diff_tag :: "string list \<Rightarrow> bool \<times> bool \<Rightarrow> string + bool \<times> bool" where
  "diff_tag parts seen =
     (case parts of
        k # v # rest \<Rightarrow>
          if k = ''repo''
          then (if \<not> starts_with v ''http://'' \<and> \<not> starts_with v ''https://''
                then Err ''repo URL must be http or https'' else Ok (True, snd seen))
          else if k = ''commit''
          then (if \<not> is_hex_sha v then Err ''commit SHA must be at least 7 hex characters'' else Ok (fst seen, True))
          else if k = ''parent-commit''
          then (if \<not> is_hex_sha v then Err ''parent-commit SHA must be at least 7 hex characters'' else Ok seen)
          else if k = ''branch''
          then (if rest = [] \<or> v = [] \<or> hd rest = [] then Err ''branch tag requires both source and target'' else Ok seen)
          else if k = ''pr''
          then (if (case parse_uint 32 v of Some n \<Rightarrow> n = 0 | None \<Rightarrow> True)
                then Err ''pr number must be a positive integer'' else Ok seen)
          else Ok seen
      | _ \<Rightarrow> Ok seen)"

fun diff_tags :: "nostr_tag list \<Rightarrow> bool \<times> bool \<Rightarrow> string + bool \<times> bool" where
  "diff_tags [] seen = Ok seen"
| "diff_tags (t # ts) seen = and_then (diff_tag (tag_slice t) seen) (diff_tags ts)"

definition validate_diff_event :: "nostr_event \<Rightarrow> string + unit" where
  "validate_diff_event ev =
     (if length (ev_content ev) > 61440
      then Err (''diff content exceeds 60KB limit (got '' @ show_nat (length (ev_content ev)) @ '' bytes)'')
      else and_then (diff_tags (ev_tags ev) (False, False)) (\<lambda>(has_repo, has_commit).
        if \<not> has_repo then Err ''diff event requires a repo tag''
        else if \<not> has_commit then Err ''diff event requires a commit tag''
        else Ok ()))"

text \<open>The second elements of the tags with a first element, as the validators collect them.\<close>

definition slice_values :: "string \<Rightarrow> nostr_event \<Rightarrow> string list" where
  "slice_values k ev =
     List.map_filter (\<lambda>t. case tag_slice t of k' # v # _ \<Rightarrow> if k' = k then Some v else None | _ \<Rightarrow> None) (ev_tags ev)"

definition is_lower_hex64 :: "string \<Rightarrow> bool" where
  "is_lower_hex64 s \<longleftrightarrow> length s = 64 \<and> list_all is_lower_hexdigit s"

definition base64_alphabet :: "char \<Rightarrow> bool" where
  "base64_alphabet c \<longleftrightarrow> is_ascii_alphanumeric c \<or> c = CHR ''+'' \<or> c = CHR ''/''"

fun base64_padding :: "nat \<Rightarrow> nat \<Rightarrow> nat \<Rightarrow> string \<Rightarrow> nat option" where
  "base64_padding len i pad_count [] = Some pad_count"
| "base64_padding len i pad_count (b # bs) =
     (if base64_alphabet b
      then (if pad_count > 0 then None else base64_padding len (i + 1) pad_count bs)
      else if b = CHR ''=''
      then (if i < len - 2 then None
            else if pad_count + 1 > 2 then None
            else base64_padding len (i + 1) (pad_count + 1) bs)
      else None)"

definition base64_value :: "char \<Rightarrow> nat option" where
  "base64_value c =
     (let n = of_char c :: nat
      in if 65 \<le> n \<and> n \<le> 90 then Some (n - 65)
         else if 97 \<le> n \<and> n \<le> 122 then Some (n - 97 + 26)
         else if 48 \<le> n \<and> n \<le> 57 then Some (n - 48 + 52)
         else if c = CHR ''+'' then Some 62
         else if c = CHR ''/'' then Some 63
         else None)"

text \<open>The label stands for the replacement the caller makes in the messages.\<close>

definition validate_engram_nip44_content :: "string \<Rightarrow> string \<Rightarrow> string + unit" where
  "validate_engram_nip44_content label content =
     (if content = [] then Err (label @ '' content must not be empty (NIP-44 ciphertext)'')
      else
        let len = length content
        in if len mod 4 \<noteq> 0 then Err (label @ '' content is not valid base64 (length)'')
           else case base64_padding len 0 0 content of
               None \<Rightarrow> Err (label @ '' content is not valid base64'')
             | Some pad_count \<Rightarrow>
                 if len div 4 * 3 - pad_count < 99 then Err (label @ '' content too short for NIP-44 v2'')
                 else case (base64_value (content ! 0), base64_value (content ! 1)) of
                     (Some v0, Some v1) \<Rightarrow>
                       if (push_bit 2 (word_of_nat v0) OR drop_bit 4 (word_of_nat v1) :: 8 word) \<noteq> 2
                       then Err (label @ '' content is not NIP-44 v2 (expected 0x02 version prefix)'') else Ok ()
                   | _ \<Rightarrow> Err (label @ '' content is not valid base64''))"

definition validate_engram_envelope :: "nostr_event \<Rightarrow> string + unit" where
  "validate_engram_envelope ev =
     (let d_tags = slice_values ''d'' ev; p_tags = slice_values ''p'' ev
      in if length d_tags \<noteq> 1
         then Err (''agent-engram event must have exactly one `d` tag (got '' @ show_nat (length d_tags) @ '')'')
         else if length p_tags \<noteq> 1
         then Err (''agent-engram event must have exactly one `p` tag (got '' @ show_nat (length p_tags) @ '')'')
         else if \<not> is_lower_hex64 (hd d_tags) then Err ''agent-engram `d` tag must be 64 lowercase hex chars''
         else if \<not> is_lower_hex64 (hd p_tags) then Err ''agent-engram `p` tag must be 64 lowercase hex chars (pubkey)''
         else validate_engram_nip44_content ''agent-engram'' (ev_content ev))"

definition quoted :: "string \<Rightarrow> string" where "quoted s = CHR 0x22 # s @ [CHR 0x22]"

text \<open>The number of \<open>shared\<close> tags seen; \<open>dbg\<close> prints a list of strings.\<close>

fun shared_tags :: "(string list \<Rightarrow> string) \<Rightarrow> string \<Rightarrow> nat \<Rightarrow> nostr_tag list \<Rightarrow> string + nat" where
  "shared_tags dbg label n [] = Ok n"
| "shared_tags dbg label n (t # ts) =
     (let parts = tag_slice t
      in if parts \<noteq> [] \<and> hd parts = ''shared''
         then (if length parts \<noteq> 2 \<or> parts ! 1 \<noteq> ''true''
               then Err (label @ '' `shared` tag must be exactly ['' @ quoted ''shared'' @ '','' @ quoted ''true'' @ ''] (got '' @ dbg parts @ '')'')
               else shared_tags dbg label (n + 1) ts)
         else shared_tags dbg label n ts)"

definition validate_shared_tag :: "(string list \<Rightarrow> string) \<Rightarrow> nostr_event \<Rightarrow> string \<Rightarrow> string + unit" where
  "validate_shared_tag dbg ev label =
     and_then (shared_tags dbg label 0 (ev_tags ev)) (\<lambda>n.
       if n > 1 then Err (label @ '' must have at most one `shared` tag (got '' @ show_nat n @ '')'') else Ok ())"

definition single_bounded_d_tag :: "nostr_event \<Rightarrow> string \<Rightarrow> string + string" where
  "single_bounded_d_tag ev label =
     (let d_tags = map tl (filter (\<lambda>parts. parts \<noteq> [] \<and> hd parts = ''d'') (map tag_slice (ev_tags ev)))
      in if length d_tags \<noteq> 1
         then Err (label @ '' must have exactly one `d` tag (got '' @ show_nat (length d_tags) @ '')'')
         else
           let d = (case hd d_tags of v # _ \<Rightarrow> v | [] \<Rightarrow> []); char_count = length (utf8_chars d)
           in if d = [] then Err (label @ '' `d` tag must not be empty'')
              else if char_count > 64
              then Err (label @ '' `d` tag too long ('' @ show_nat char_count @ '' chars, max 64)'')
              else if list_ex (\<lambda>ch. is_control ch \<or> is_whitespace ch) (utf8_chars d)
              then Err (label @ '' `d` tag must not contain control characters or whitespace'')
              else Ok d)"

definition is_slug_start :: "char \<Rightarrow> bool" where
  "is_slug_start c \<longleftrightarrow> (let n = of_char c :: nat in (97 \<le> n \<and> n \<le> 122) \<or> (48 \<le> n \<and> n \<le> 57))"

definition validate_persona_envelope :: "(string list \<Rightarrow> string) \<Rightarrow> nostr_event \<Rightarrow> string + unit" where
  "validate_persona_envelope dbg ev =
     (let label = ''persona event''
      in and_then (validate_shared_tag dbg ev label) (\<lambda>_.
         and_then (single_bounded_d_tag ev label) (\<lambda>d.
         if \<not> is_slug_start (hd d) then Err (label @ '' `d` tag must start with a lowercase letter or digit'')
         else if \<not> list_all (\<lambda>b. is_slug_start b \<or> b = CHR ''_'' \<or> b = CHR ''-'') (tl d)
         then Err (label @ '' `d` tag must match [a-z0-9_-] after the first character'')
         else Ok ())))"

definition validate_team_catalog_envelope :: "(string list \<Rightarrow> string) \<Rightarrow> nostr_event \<Rightarrow> string + unit" where
  "validate_team_catalog_envelope dbg ev =
     (let label = ''team-catalog event''
      in and_then (validate_shared_tag dbg ev label) (\<lambda>_.
         and_then (single_bounded_d_tag ev label) (\<lambda>_. Ok ())))"

definition validate_agent_turn_metric_envelope :: "nostr_event \<Rightarrow> string + unit" where
  "validate_agent_turn_metric_envelope ev =
     (let p_tags = slice_values ''p'' ev; agent_tags = slice_values ''agent'' ev
      in if slice_values ''h'' ev \<noteq> []
         then Err ''agent-turn-metric event must not have an `h` tag (channel identity belongs inside the encrypted payload)''
         else if length p_tags \<noteq> 1
         then Err (''agent-turn-metric event must have exactly one `p` tag (got '' @ show_nat (length p_tags) @ '')'')
         else if \<not> is_lower_hex64 (hd p_tags) then Err ''agent-turn-metric `p` tag must be 64 lowercase hex chars''
         else if length agent_tags \<noteq> 1
         then Err (''agent-turn-metric event must have exactly one `agent` tag (got '' @ show_nat (length agent_tags) @ '')'')
         else if \<not> is_lower_hex64 (hd agent_tags) then Err ''agent-turn-metric `agent` tag must be 64 lowercase hex chars''
         else if hd agent_tags \<noteq> ev_pubkey ev then Err ''agent-turn-metric `agent` tag must equal event pubkey''
         else validate_engram_nip44_content ''agent-turn-metric'' (ev_content ev))"

definition MAX_NOT_BEFORE :: nat where "MAX_NOT_BEFORE = 9007199254740991"

definition validate_not_before :: "string \<Rightarrow> string + nat" where
  "validate_not_before v =
     (if v = [] \<or> \<not> list_all is_digit v then Err ''malformed not_before''
      else if length v > 1 \<and> hd v = CHR ''0'' then Err ''malformed not_before''
      else case parse_uint 64 v of
          None \<Rightarrow> Err ''malformed not_before''
        | Some n \<Rightarrow> if n > MAX_NOT_BEFORE then Err ''malformed not_before'' else Ok n)"

record reminder_scan =
  rs_not_before :: "nat option"
  rs_expiration :: "string option"
  rs_d_count :: nat
  rs_d_empty :: bool

text \<open>The count of \<open>d\<close> tags saturates at 255.\<close>

definition reminder_tag :: "string list \<Rightarrow> reminder_scan \<Rightarrow> string + reminder_scan" where
  "reminder_tag parts sc =
     (case parts of
        k # v # _ \<Rightarrow>
          if k = ''not_before''
          then (if rs_not_before sc \<noteq> None then Err ''malformed not_before''
                else and_then (validate_not_before v) (\<lambda>n. Ok (sc\<lparr>rs_not_before := Some n\<rparr>)))
          else if k = ''expiration'' then Ok (sc\<lparr>rs_expiration := Some v\<rparr>)
          else if k = ''d''
          then Ok (sc\<lparr>rs_d_count := min 255 (rs_d_count sc + 1), rs_d_empty := rs_d_empty sc \<or> v = []\<rparr>)
          else Ok sc
      | _ \<Rightarrow> Ok sc)"

fun reminder_tags :: "nostr_tag list \<Rightarrow> reminder_scan \<Rightarrow> string + reminder_scan" where
  "reminder_tags [] sc = Ok sc"
| "reminder_tags (t # ts) sc = and_then (reminder_tag (tag_slice t) sc) (reminder_tags ts)"

text \<open>\<open>max_delta\<close> is the configured horizon; its sum with the clock wraps at 64 bits.\<close>

definition validate_event_reminder :: "nat \<Rightarrow> nat \<Rightarrow> nostr_event \<Rightarrow> string + unit" where
  "validate_event_reminder max_delta now ev =
     and_then (reminder_tags (ev_tags ev)
         \<lparr>rs_not_before = None, rs_expiration = None, rs_d_count = 0, rs_d_empty = False\<rparr>) (\<lambda>sc.
       if rs_d_count sc = 0 then Err ''missing d tag''
       else if rs_d_count sc > 1 then Err ''duplicate d tag''
       else if rs_d_empty sc then Err ''empty d tag''
       else case rs_not_before sc of
           None \<Rightarrow> Ok ()
         | Some nb \<Rightarrow>
             if nb > (now + max_delta) mod 2 ^ 64 then Err ''not_before too far in future''
             else (case rs_expiration sc of
                     None \<Rightarrow> Ok ()
                   | Some v \<Rightarrow>
                       (case parse_uint 64 v of
                          Some e \<Rightarrow> if e \<le> nb then Err ''expiration before not_before'' else Ok ()
                        | None \<Rightarrow> Ok ())))"

end
