(* ===== verification/EventThreads.thy ===== *)
theory EventThreads
  imports EventReplace
begin

text \<open>
  Storing an event with its thread metadata, or with the reaction it makes, in one transaction:
  \<open>insert_event_with_thread_metadata\<close> and \<open>insert_reaction_event_with_thread_metadata\<close> of
  \<open>crates/buzz-db/src/event.rs\<close> with their callers in \<open>lib.rs\<close>, over the tables \<open>thread_metadata\<close> and
  \<open>reactions\<close>. The time a thread was last replied to is not kept.
\<close>

record thread_row =
  tr_community :: CommunityId
  tr_event_created_at :: int
  tr_event_id :: event_id
  tr_channel_id :: uuid
  tr_parent :: "(event_id \<times> int option) option"
  tr_root :: "(event_id \<times> int option) option"
  tr_depth :: int
  tr_broadcast :: bool
  tr_reply_count :: int
  tr_descendant_count :: int

record reaction_row =
  rr_community :: CommunityId
  rr_event_created_at :: int
  rr_event_id :: event_id
  rr_pubkey :: pubkey
  rr_emoji :: string
  rr_removed :: bool
  rr_reaction_event_id :: "event_id option"

record ingest_db =
  in_events :: event_db
  in_threads :: "thread_row list"
  in_reactions :: "reaction_row list"

record thread_params =
  tp_event_id :: event_id
  tp_event_created_at :: int
  tp_channel_id :: uuid
  tp_parent_event_id :: "event_id option"
  tp_parent_event_created_at :: "int option"
  tp_root_event_id :: "event_id option"
  tp_root_event_created_at :: "int option"
  tp_depth :: int
  tp_broadcast :: bool

section \<open>Thread metadata\<close>

definition same_thread_key :: "thread_row \<Rightarrow> thread_row \<Rightarrow> bool" where
  "same_thread_key r s \<longleftrightarrow> tr_community r = tr_community s \<and> tr_event_created_at r = tr_event_created_at s \<and>
     tr_event_id r = tr_event_id s"

definition insert_thread_row :: "thread_row \<Rightarrow> thread_row list \<Rightarrow> bool \<times> thread_row list" where
  "insert_thread_row row rows =
     (if list_ex (same_thread_key row) rows then (False, rows) else (True, rows @ [row]))"

definition thread_stub :: "CommunityId \<Rightarrow> int \<Rightarrow> event_id \<Rightarrow> uuid \<Rightarrow> thread_row" where
  "thread_stub c at eid ch =
     \<lparr>tr_community = c, tr_event_created_at = at, tr_event_id = eid, tr_channel_id = ch, tr_parent = None,
      tr_root = None, tr_depth = 0, tr_broadcast = False, tr_reply_count = 0, tr_descendant_count = 0\<rparr>"

definition thread_row_of :: "CommunityId \<Rightarrow> thread_params \<Rightarrow> thread_row" where
  "thread_row_of c m =
     \<lparr>tr_community = c, tr_event_created_at = tp_event_created_at m, tr_event_id = tp_event_id m,
      tr_channel_id = tp_channel_id m,
      tr_parent = map_option (\<lambda>p. (p, tp_parent_event_created_at m)) (tp_parent_event_id m),
      tr_root = map_option (\<lambda>r. (r, tp_root_event_created_at m)) (tp_root_event_id m),
      tr_depth = tp_depth m, tr_broadcast = tp_broadcast m, tr_reply_count = 0, tr_descendant_count = 0\<rparr>"

definition is_thread_of :: "CommunityId \<Rightarrow> event_id \<Rightarrow> thread_row \<Rightarrow> bool" where
  "is_thread_of c eid r \<longleftrightarrow> tr_community r = c \<and> tr_event_id r = eid"

definition bump_reply :: "CommunityId \<Rightarrow> event_id \<Rightarrow> thread_row list \<Rightarrow> thread_row list" where
  "bump_reply c eid rows =
     map (\<lambda>r. if is_thread_of c eid r then r\<lparr>tr_reply_count := tr_reply_count r + 1\<rparr> else r) rows"

definition bump_descendant :: "CommunityId \<Rightarrow> event_id \<Rightarrow> thread_row list \<Rightarrow> thread_row list" where
  "bump_descendant c eid rows =
     map (\<lambda>r. if is_thread_of c eid r then r\<lparr>tr_descendant_count := tr_descendant_count r + 1\<rparr> else r) rows"

text \<open>The rows of the parent and the root are made where they are missing, then their counters go up.\<close>

definition count_reply :: "CommunityId \<Rightarrow> thread_params \<Rightarrow> thread_row list \<Rightarrow> thread_row list" where
  "count_reply c m rows =
     (case tp_parent_event_id m of
        None \<Rightarrow> rows
      | Some pid \<Rightarrow>
          let parent_ts = (case tp_parent_event_created_at m of Some t \<Rightarrow> t | None \<Rightarrow> tp_event_created_at m);
              rows1 = snd (insert_thread_row (thread_stub c parent_ts pid (tp_channel_id m)) rows);
              rows2 = (case tp_root_event_id m of
                  Some root_id \<Rightarrow>
                    if root_id \<noteq> pid
                    then
                      let root_ts = (case tp_root_event_created_at m of Some t \<Rightarrow> t | None \<Rightarrow> tp_event_created_at m)
                      in snd (insert_thread_row (thread_stub c root_ts root_id (tp_channel_id m)) rows1)
                    else rows1
                | None \<Rightarrow> rows1);
              rows3 = bump_reply c pid rows2
          in (case tp_root_event_id m of
                Some root_id \<Rightarrow> bump_descendant c root_id rows3
              | None \<Rightarrow> rows3))"

definition add_thread :: "CommunityId \<Rightarrow> thread_params \<Rightarrow> thread_row list \<Rightarrow> thread_row list" where
  "add_thread c m rows =
     (case insert_thread_row (thread_row_of c m) rows of
        (inserted, rows') \<Rightarrow> if inserted then count_reply c m rows' else rows')"

definition insert_event_with_thread_metadata_tx ::
  "(int \<Rightarrow> bool) \<Rightarrow> instant \<Rightarrow> CommunityId \<Rightarrow> nostr_event \<Rightarrow> uuid option \<Rightarrow> thread_params option \<Rightarrow> ingest_db
     \<Rightarrow> DbError + ((stored_event \<times> bool) \<times> ingest_db)" where
  "insert_event_with_thread_metadata_tx timestamp_ok now c ev channel meta db =
     (if event_kind_u32 ev = KIND_AUTH then Err AuthEventRejected
      else if is_ephemeral (event_kind_u32 ev) then Err (EphemeralEventRejected (ev_kind ev))
      else
        let secs = as_i64 (ev_created_at ev)
        in if \<not> timestamp_ok secs then Err (InvalidTimestamp secs)
           else
             let (was_inserted, events) =
                   insert_row (new_row now c ev channel (extract_d_tag ev) (extract_not_before ev)) (in_events db);
                 threads = (case meta of
                     Some m \<Rightarrow> if was_inserted then add_thread c m (in_threads db) else in_threads db
                   | None \<Rightarrow> in_threads db)
             in Ok ((with_received_at ev now channel True, was_inserted),
                    db\<lparr>in_events := events, in_threads := threads\<rparr>))"

text \<open>How a transaction fares, for any answer.\<close>

definition settle_tx :: "tx_fate \<Rightarrow> 's \<Rightarrow> 'a \<times> 's \<Rightarrow> (DbError + 'a) \<times> 's" where
  "settle_tx fate db res =
     (case fate of
        TxAnswers \<Rightarrow> (Ok (fst res), snd res)
      | TxFails e \<Rightarrow> (Err (Sqlx e), db)
      | TxAnswerLost e \<Rightarrow> (Err (Sqlx e), snd res))"

text \<open>The mentions of an event that was inserted, outside the transaction.\<close>

definition add_mentions ::
  "(int \<Rightarrow> bool) \<Rightarrow> bool \<Rightarrow> CommunityId \<Rightarrow> nostr_event \<Rightarrow> bool \<Rightarrow> ingest_db \<Rightarrow> ingest_db" where
  "add_mentions timestamp_ok mentions_reached c ev inserted db =
     (if inserted \<and> mentions_reached
      then db\<lparr>in_events := snd (insert_mentions timestamp_ok c ev (in_events db))\<rparr> else db)"

definition insert_event_with_thread_metadata ::
  "(int \<Rightarrow> bool) \<Rightarrow> tx_fate \<Rightarrow> bool \<Rightarrow> instant \<Rightarrow> CommunityId \<Rightarrow> nostr_event \<Rightarrow> uuid option \<Rightarrow> thread_params option
     \<Rightarrow> ingest_db \<Rightarrow> (DbError + stored_event \<times> bool) \<times> ingest_db" where
  "insert_event_with_thread_metadata timestamp_ok fate mentions_reached now c ev channel meta db =
     (case insert_event_with_thread_metadata_tx timestamp_ok now c ev channel meta db of
        Inl e \<Rightarrow> (Err e, db)
      | Inr res \<Rightarrow>
          (case settle_tx fate db res of
             (Inl e, db') \<Rightarrow> (Err e, db')
           | (Inr (stored, inserted), db') \<Rightarrow>
               (Ok (stored, inserted), add_mentions timestamp_ok mentions_reached c ev inserted db')))"

section \<open>Reactions\<close>

definition same_reaction_key :: "reaction_row \<Rightarrow> reaction_row \<Rightarrow> bool" where
  "same_reaction_key r s \<longleftrightarrow> rr_community r = rr_community s \<and> rr_event_created_at r = rr_event_created_at s \<and>
     rr_event_id r = rr_event_id s \<and> rr_pubkey r = rr_pubkey s \<and> rr_emoji r = rr_emoji s"

text \<open>\<open>INSERT .. ON CONFLICT DO UPDATE .. WHERE removed_at IS NOT NULL\<close>: whether a row was written.\<close>

definition add_reaction_tx ::
  "CommunityId \<Rightarrow> event_id \<Rightarrow> int \<Rightarrow> pubkey \<Rightarrow> string \<Rightarrow> event_id option \<Rightarrow> reaction_row list
     \<Rightarrow> bool \<times> reaction_row list" where
  "add_reaction_tx c target at pk emoji source rows =
     (let row = \<lparr>rr_community = c, rr_event_created_at = at, rr_event_id = target, rr_pubkey = pk, rr_emoji = emoji,
            rr_removed = False, rr_reaction_event_id = source\<rparr>;
          renew = (\<lambda>r. r\<lparr>rr_removed := False,
            rr_reaction_event_id := (case source of Some s \<Rightarrow> Some s | None \<Rightarrow> rr_reaction_event_id r)\<rparr>)
      in if \<not> list_ex (same_reaction_key row) rows then (True, rows @ [row])
         else if list_ex (\<lambda>r. same_reaction_key row r \<and> rr_removed r) rows
         then (True, map (\<lambda>r. if same_reaction_key row r \<and> rr_removed r then renew r else r) rows)
         else (False, rows))"

definition target_created_at :: "CommunityId \<Rightarrow> event_id \<Rightarrow> event_db \<Rightarrow> int option" where
  "target_created_at c eid db =
     (case sort_key (\<lambda>t. - t) (map er_created_at
         (filter (\<lambda>r. er_community r = c \<and> ev_id (er_event r) = eid \<and> \<not> er_deleted r) (db_events db))) of
        [] \<Rightarrow> None
      | t # _ \<Rightarrow> Some t)"

datatype ReactionEventInsertOutcome = TargetMissing | Duplicate | Inserted stored_event bool

definition insert_reaction_event_with_thread_metadata ::
  "(int \<Rightarrow> bool) \<Rightarrow> tx_fate \<Rightarrow> bool \<Rightarrow> instant \<Rightarrow> CommunityId \<Rightarrow> nostr_event \<Rightarrow> uuid option \<Rightarrow> thread_params option
     \<Rightarrow> event_id \<Rightarrow> pubkey \<Rightarrow> string \<Rightarrow> ingest_db \<Rightarrow> (DbError + ReactionEventInsertOutcome) \<times> ingest_db" where
  "insert_reaction_event_with_thread_metadata timestamp_ok fate mentions_reached now c ev channel meta target actor
       emoji db =
     (case target_created_at c target (in_events db) of
        None \<Rightarrow> settle_tx fate db (TargetMissing, db)
      | Some at \<Rightarrow>
          (case add_reaction_tx c target at actor emoji (Some (ev_id ev)) (in_reactions db) of
             (False, _) \<Rightarrow> settle_tx fate db (Duplicate, db)
           | (True, reactions) \<Rightarrow>
               (case insert_event_with_thread_metadata_tx timestamp_ok now c ev channel meta
                   (db\<lparr>in_reactions := reactions\<rparr>) of
                  Inl e \<Rightarrow> (Err e, db)
                | Inr res \<Rightarrow>
                    (case settle_tx fate db res of
                       (Inl e, db') \<Rightarrow> (Err e, db')
                     | (Inr (stored, inserted), db') \<Rightarrow>
                         (Ok (Inserted stored inserted),
                          add_mentions timestamp_ok mentions_reached c ev inserted db')))))"

end
