(* ===== verification/Ingest.thy ===== *)
theory Ingest
  imports IngestChecks EventThreads ChannelRoles
begin

text \<open>
  The write path of the relay, \<open>ingest_event_inner\<close> of \<open>crates/buzz-relay/src/handlers/ingest.rs\<close>: every
  check on a submitted event in the order the code makes them, the resolution of its channel and thread,
  and the storing. What the request reads from other tables and caches, and the clock, are the answers of
  an environment, one answer for each kind of question; the handlers of kinds that are not stored as
  events, and of what follows a stored event, are parameters that may change the tables in any way. The
  calls the pipeline makes are recorded in order.
\<close>

section \<open>Environment, handlers, calls\<close>

record channel_row =
  cr_visibility :: string
  cr_archived :: bool

text \<open>Reads answer with an error text or a value; the clock and the end of a timeout are in milliseconds.\<close>

record 'u ingest_env =
  ie_lib :: "'u auth_lib"
  ie_verify_joins :: bool
  ie_show_verification :: "VerificationError \<Rightarrow> string"
  ie_show_db :: "DbError \<Rightarrow> string"
  ie_show_list :: "string list \<Rightarrow> string"
  ie_now_ms :: nat
  ie_instant :: instant
  ie_timestamp_ok :: "int \<Rightarrow> bool"
  ie_parse_uuid :: "string \<Rightarrow> uuid option"
  ie_is_json :: "string \<Rightarrow> bool"
  ie_relay_pubkey :: pubkey
  ie_require_relay_membership :: bool
  ie_max_not_before_delta :: nat
  ie_ephemeral_ttl_override :: "int option"
  ie_restriction :: "CommunityId \<Rightarrow> pubkey \<Rightarrow> string + bool \<times> int option"
  ie_event :: "CommunityId \<Rightarrow> event_id \<Rightarrow> string + stored_event option"
  ie_thread :: "CommunityId \<Rightarrow> event_id \<Rightarrow> string + (event_id option \<times> int) option"
  ie_member :: "CommunityId \<Rightarrow> uuid \<Rightarrow> pubkey \<Rightarrow> string + bool"
  ie_channel :: "CommunityId \<Rightarrow> uuid \<Rightarrow> channel_row option"
  ie_channel_again :: "CommunityId \<Rightarrow> uuid \<Rightarrow> channel_row option"
  ie_agent_owner :: "CommunityId \<Rightarrow> pubkey \<Rightarrow> pubkey \<Rightarrow> string + bool"
  ie_fate :: tx_fate
  ie_mentions_reached :: bool

definition ie_now :: "'u ingest_env \<Rightarrow> nat" where
  "ie_now env = ie_now_ms env div 1000"

datatype RelayAdminError = AdminBanned | AdminRejected string | AdminInternal string
datatype RemoveResult = Removed | IsOwner | NotFound | RoleMismatch
datatype PushAcceptError = PushValidation string | PushInternal string

datatype AcceptLeaseOutcome =
    Accepted | StaleEvent | StaleGeneration | EndpointAlreadyLeased | LeaseQuotaExceeded
  | SourceEventCollision | ConstraintViolation

type_synonym 'a handler = "TenantContext \<Rightarrow> nostr_event \<Rightarrow> ingest_db \<Rightarrow> 'a \<times> ingest_db"

record ingest_handlers =
  ih_command :: "IngestAuth \<Rightarrow> (IngestError + IngestResult) handler"
  ih_feedback :: "(string + unit) handler"
  ih_report :: "(string + unit) handler"
  ih_moderation :: "(string + unit) handler"
  ih_relay_admin :: "(RelayAdminError + unit) handler"
  ih_remove_relay_member :: "(string + RemoveResult) handler"
  ih_announce_leave :: "unit handler"
  ih_validate_admin :: "(string + unit) handler"
  ih_identity_archive :: "(string + unit) handler"
  ih_validate_deletion :: "(string + unit) handler"
  ih_create_channel ::
    "uuid \<Rightarrow> string \<Rightarrow> ChannelType \<Rightarrow> ChannelVisibility \<Rightarrow> string option \<Rightarrow> int option \<Rightarrow> (string + bool) handler"
  ih_soft_delete_channel :: "uuid \<Rightarrow> unit handler"
  ih_push_accept :: "(PushAcceptError + AcceptLeaseOutcome) handler"
  ih_imeta :: "string list list \<Rightarrow> (string + unit) handler"
  ih_side_effects :: "unit handler"
  ih_thread_summary :: "unit handler"
  ih_dispatch :: "stored_event \<Rightarrow> unit handler"

datatype ingest_call =
    CallCommand | CallFeedback | CallReport | CallModeration | CallRelayAdmin | CallRemoveRelayMember
  | CallAnnounceLeave | CallValidateAdmin | CallIdentityArchive | CallValidateDeletion | CallCreateChannel uuid
  | CallSoftDeleteChannel uuid | CallPushAccept | CallImeta | CallStore "uuid option" | CallSideEffects
  | CallThreadSummary | CallDispatch stored_event

section \<open>Steps\<close>

text \<open>A step ends the request, with an answer or a panic, or goes on with a value.\<close>

datatype ingest_exit = Answer "IngestError + IngestResult" | Panicked

record ingest_state =
  is_db :: ingest_db
  is_calls :: "ingest_call list"

type_synonym 'a step = "ingest_state \<Rightarrow> (ingest_exit + 'a) \<times> ingest_state"

definition bind_step :: "'a step \<Rightarrow> ('a \<Rightarrow> 'b step) \<Rightarrow> 'b step" where
  "bind_step m f st = (case m st of (Inl e, st') \<Rightarrow> (Inl e, st') | (Inr a, st') \<Rightarrow> f a st')"

definition return_step :: "'a \<Rightarrow> 'a step" where
  "return_step a st = (Inr a, st)"

definition answer :: "IngestError + IngestResult \<Rightarrow> 'a step" where
  "answer r st = (Inl (Answer r), st)"

text \<open>A check: an error ends the request.\<close>

definition check :: "IngestError + 'a \<Rightarrow> 'a step" where
  "check r = (case r of Inl e \<Rightarrow> answer (Err e) | Inr a \<Rightarrow> return_step a)"

definition call :: "ingest_call \<Rightarrow> (ingest_db \<Rightarrow> 'a \<times> ingest_db) \<Rightarrow> 'a step" where
  "call name f st =
     (case f (is_db st) of (a, db) \<Rightarrow> (Inr a, st\<lparr>is_db := db, is_calls := is_calls st @ [name]\<rparr>))"

definition only_if :: "bool \<Rightarrow> unit step \<Rightarrow> unit step" where
  "only_if b m = (if b then m else return_step ())"

definition reject_if :: "bool \<Rightarrow> IngestError \<Rightarrow> IngestError + unit" where
  "reject_if b e = (if b then Err e else Ok ())"

definition rejected :: "string + 'a \<Rightarrow> IngestError + 'a" where
  "rejected r = map_err Rejected r"

definition invalid :: "string + 'a \<Rightarrow> IngestError + 'a" where
  "invalid r = map_err (\<lambda>e. Rejected (''invalid: '' @ e)) r"

definition ingest_result :: "nostr_event \<Rightarrow> bool \<Rightarrow> string \<Rightarrow> IngestError + IngestResult" where
  "ingest_result ev accepted msg = Ok \<lparr>ir_event_id = ev_id ev, ir_accepted = accepted, ir_message = msg\<rparr>"

section \<open>Admission\<close>

definition MAX_TIMESTAMP_DRIFT_SECS :: int where "MAX_TIMESTAMP_DRIFT_SECS = 900"
definition MAX_EVENT_CONTENT_BYTES :: nat where "MAX_EVENT_CONTENT_BYTES = 256 * 1024"

text \<open>The difference of two times as signed 64-bit numbers, and its absolute value; both wrap.\<close>

definition drift :: "nat \<Rightarrow> nat \<Rightarrow> int" where
  "drift created now =
     (let d = (word_of_nat created - word_of_nat now :: u64) in sint (if sint d < 0 then - d else d))"

definition verify_submitted :: "'u ingest_env \<Rightarrow> signed_event \<Rightarrow> IngestError + unit" where
  "verify_submitted env ev =
     (if \<not> ie_verify_joins env then Err (Internal ''error: internal verification error'')
      else invalid (map_err (ie_show_verification env) (verify_event (ie_lib env) ev)))"

definition check_envelope :: "'u ingest_env \<Rightarrow> IngestAuth \<Rightarrow> signed_event \<Rightarrow> u32 \<Rightarrow> IngestError + unit" where
  "check_envelope env auth sev k =
     (let ev = nostr_event.truncate sev
      in and_then (reject_if (k = KIND_AUTH) (Rejected ''invalid: AUTH events cannot be submitted'')) (\<lambda>_.
         and_then (reject_if (k = KIND_MEMBER_ADDED_NOTIFICATION \<or> k = KIND_MEMBER_REMOVED_NOTIFICATION)
           (Rejected ''invalid: membership notifications are relay-signed only'')) (\<lambda>_.
         and_then (reject_if (is_http auth \<and> (k = KIND_GIFT_WRAP \<or> k = KIND_PRESENCE_UPDATE))
           (Rejected (''invalid: kind '' @ show_nat (unat k) @ '' is only accepted via WebSocket''))) (\<lambda>_.
         and_then (reject_if (is_relay_only_kind k) (Rejected ''restricted: relay-only kind'')) (\<lambda>_.
         and_then (verify_submitted env sev) (\<lambda>_.
         and_then (reject_if (drift (ev_created_at ev) (ie_now env) > MAX_TIMESTAMP_DRIFT_SECS)
           (Rejected ''invalid: event timestamp too far from server time'')) (\<lambda>_.
         and_then (reject_if (length (ev_content ev) > MAX_EVENT_CONTENT_BYTES)
           (Rejected (''invalid: content exceeds maximum size of '' @ show_nat MAX_EVENT_CONTENT_BYTES @
              '' bytes (got '' @ show_nat (length (ev_content ev)) @ '')''))) (\<lambda>_.
         reject_if (ev_pubkey ev \<noteq> ia_pubkey auth \<and> k \<noteq> KIND_GIFT_WRAP)
           (AuthFailed ''invalid: event pubkey does not match authenticated identity'')))))))))"

definition check_scope :: "IngestAuth \<Rightarrow> nostr_event \<Rightarrow> u32 \<Rightarrow> IngestError + unit" where
  "check_scope auth ev k =
     and_then (rejected (required_scope_for_kind k ev)) (\<lambda>required.
     and_then (reject_if (is_relay_admin_kind k \<and> ia_channel_ids auth \<noteq> None)
       (AuthFailed ''restricted: relay admin commands require a global token, not a channel-scoped token'')) (\<lambda>_.
     and_then (reject_if (k = KIND_NIP43_LEAVE_REQUEST \<and> ia_channel_ids auth \<noteq> None)
       (AuthFailed ''restricted: leave requests require a global token'')) (\<lambda>_.
     reject_if (required \<notin> set (ia_scopes auth))
       (AuthFailed (''restricted: insufficient scope (need '' @ Scope_as_str required @ '')'')))))"

definition check_restriction :: "'u ingest_env \<Rightarrow> TenantContext \<Rightarrow> IngestAuth \<Rightarrow> IngestError + unit" where
  "check_restriction env tenant auth =
     (case ie_restriction env (tc_community tenant) (ia_pubkey auth) of
        Inr (banned, muted_until) \<Rightarrow>
          if banned then Err (AuthFailed ''blocked: you are banned from this community'')
          else (case muted_until of
                  Some until \<Rightarrow>
                    if until > int (ie_now_ms env)
                    then Err (AuthFailed (''restricted: you are timed out until '' @ show_int (until div 1000))) else Ok ()
                | None \<Rightarrow> Ok ())
      | Inl e \<Rightarrow> Err (Internal (''error: internal error checking restriction state: '' @ e)))"

section \<open>The channel of an event\<close>

definition derive_reaction_channel :: "'u ingest_env \<Rightarrow> CommunityId \<Rightarrow> nostr_event \<Rightarrow> IngestError + uuid option" where
  "derive_reaction_channel env c ev =
     (case find_tag ''e'' hex32 (rev (ev_tags ev)) of
        None \<Rightarrow> Err (Rejected ''invalid: reaction must reference a target event via e tag'')
      | Some target \<Rightarrow>
          (case ie_event env c target of
             Inr (Some t) \<Rightarrow> Ok (se_channel_id t)
           | Inr None \<Rightarrow> Err (Rejected ''invalid: reaction target event not found'')
           | Inl e \<Rightarrow> Err (Internal (''error: internal error looking up reaction target: '' @ e))))"

definition deletion_channel :: "'u ingest_env \<Rightarrow> CommunityId \<Rightarrow> nostr_event \<Rightarrow> IngestError + uuid option" where
  "deletion_channel env c ev =
     (case find_tag ''e'' hex32 (ev_tags ev) of
        None \<Rightarrow> Ok None
      | Some target \<Rightarrow>
          (case ie_event env c target of
             Inr (Some t) \<Rightarrow> Ok (se_channel_id t)
           | Inr None \<Rightarrow> Ok None
           | Inl e \<Rightarrow> Err (Internal (''error: looking up deletion target: '' @ e))))"

definition resolve_channel_id :: "'u ingest_env \<Rightarrow> CommunityId \<Rightarrow> nostr_event \<Rightarrow> u32 \<Rightarrow> IngestError + uuid option" where
  "resolve_channel_id env c ev k =
     and_then
       (if k = KIND_REACTION then derive_reaction_channel env c ev
        else if k = KIND_GIFT_WRAP then Ok None
        else if k = KIND_DELETION then deletion_channel env c ev
        else Ok (extract_channel_id (ie_parse_uuid env) ev))
       (\<lambda>ch. Ok (if is_global_only_kind k then None else ch))"

definition check_token_channel_access :: "IngestAuth \<Rightarrow> uuid \<Rightarrow> string + unit" where
  "check_token_channel_access auth ch =
     (case ia_channel_ids auth of
        Some allowed \<Rightarrow>
          if ch \<notin> set allowed then Err ''restricted: token does not have access to this channel'' else Ok ()
      | None \<Rightarrow> Ok ())"

definition check_channel_scope :: "IngestAuth \<Rightarrow> u32 \<Rightarrow> uuid option \<Rightarrow> IngestError + unit" where
  "check_channel_scope auth k ch =
     and_then (reject_if (requires_h_channel_scope k \<and> ch = None)
       (Rejected ''invalid: channel-scoped events must include an h tag'')) (\<lambda>_.
     case ch of
       Some ch_id \<Rightarrow> map_err AuthFailed (check_token_channel_access auth ch_id)
     | None \<Rightarrow> reject_if (ia_channel_ids auth \<noteq> None)
         (AuthFailed ''restricted: channel-scoped tokens cannot publish global events''))"

definition check_channel_membership ::
  "'u ingest_env \<Rightarrow> CommunityId \<Rightarrow> uuid \<Rightarrow> pubkey \<Rightarrow> channel_row option \<Rightarrow> string + unit" where
  "check_channel_membership env c ch pk row =
     (case ie_member env c ch pk of
        Inl e \<Rightarrow> Err (''error: database error: '' @ e)
      | Inr True \<Rightarrow> Ok ()
      | Inr False \<Rightarrow>
          (let is_open = (case row of
                 Some r \<Rightarrow> cr_visibility r = ''open''
               | None \<Rightarrow>
                   (case ie_channel_again env c ch of Some r \<Rightarrow> cr_visibility r = ''open'' | None \<Rightarrow> False))
           in if is_open then Ok () else Err ''restricted: not a channel member''))"

definition skips_membership :: "u32 \<Rightarrow> bool" where
  "skips_membership k \<longleftrightarrow>
     k \<in> set [KIND_NIP29_JOIN_REQUEST, KIND_NIP29_CREATE_GROUP, KIND_STREAM_MESSAGE_EDIT, KIND_NIP29_EDIT_METADATA,
        KIND_NIP29_DELETE_EVENT, KIND_NIP29_DELETE_GROUP]"

definition check_membership ::
  "'u ingest_env \<Rightarrow> CommunityId \<Rightarrow> IngestAuth \<Rightarrow> u32 \<Rightarrow> uuid option \<Rightarrow> IngestError + unit" where
  "check_membership env c auth k ch =
     (case ch of
        Some ch_id \<Rightarrow>
          if skips_membership k then Ok ()
          else rejected (check_channel_membership env c ch_id (ia_pubkey auth) (ie_channel env c ch_id))
      | None \<Rightarrow> Ok ())"

section \<open>Threads\<close>

record ThreadMetadataOwned =
  to_event_id :: event_id
  to_event_created_at :: int
  to_channel_id :: uuid
  to_parent_event_id :: event_id
  to_parent_event_created_at :: int
  to_root_event_id :: event_id
  to_root_event_created_at :: int
  to_depth :: int
  to_broadcast :: bool

definition as_params :: "ThreadMetadataOwned \<Rightarrow> thread_params" where
  "as_params m =
     \<lparr>tp_event_id = to_event_id m, tp_event_created_at = to_event_created_at m, tp_channel_id = to_channel_id m,
      tp_parent_event_id = Some (to_parent_event_id m),
      tp_parent_event_created_at = Some (to_parent_event_created_at m),
      tp_root_event_id = Some (to_root_event_id m), tp_root_event_created_at = Some (to_root_event_created_at m),
      tp_depth = to_depth m, tp_broadcast = to_broadcast m\<rparr>"

text \<open>The last well-formed \<open>e\<close> tag with a marker, \<open>None\<close> if there is none.\<close>

definition marked_e :: "string \<Rightarrow> nostr_event \<Rightarrow> string option" where
  "marked_e marker ev =
     find_map (\<lambda>t. case tag_slice t of
         k # v # _ # m # _ \<Rightarrow> if k = ''e'' \<and> m = marker then hex32 v else None
       | _ \<Rightarrow> None) (rev (ev_tags ev))"

text \<open>The first \<open>e\<close> tag of a stored event with a marker and a decodable id.\<close>

definition marked_first :: "string \<Rightarrow> nostr_event \<Rightarrow> string option" where
  "marked_first marker ev =
     find_map (\<lambda>t. case tag_slice t of
         k # v # _ # m # _ \<Rightarrow> if k = ''e'' \<and> m = marker then hex32 v else None
       | _ \<Rightarrow> None) (ev_tags ev)"

definition event_secs :: "'u ingest_env \<Rightarrow> int \<Rightarrow> nostr_event \<Rightarrow> int" where
  "event_secs env dflt ev =
     (let secs = as_i64 (ev_created_at ev) in if ie_timestamp_ok env secs then secs else dflt)"

definition root_secs :: "'u ingest_env \<Rightarrow> CommunityId \<Rightarrow> event_id \<Rightarrow> int \<Rightarrow> int" where
  "root_secs env c root dflt =
     (case ie_event env c root of Inr (Some r) \<Rightarrow> event_secs env dflt (se_event r) | _ \<Rightarrow> dflt)"

definition MAX_THREAD_DEPTH :: int where "MAX_THREAD_DEPTH = 100"

text \<open>The root, its time and the depth of a reply, from the metadata of the parent or from its tags.\<close>

definition thread_root ::
  "'u ingest_env \<Rightarrow> CommunityId \<Rightarrow> event_id \<Rightarrow> event_id \<Rightarrow> nostr_event \<Rightarrow> int \<Rightarrow> (event_id option \<times> int) option
     \<Rightarrow> string + event_id \<times> int \<times> int" where
  "thread_root env c client_root parent parent_event parent_created meta =
     (case meta of
        Some (root, parent_depth) \<Rightarrow>
          let effective_root = (case root of Some r \<Rightarrow> r | None \<Rightarrow> parent)
          in if client_root \<noteq> effective_root then Err ''root tag does not match thread ancestry''
             else
               let root_ts = root_secs env c effective_root parent_created; depth = parent_depth + 1
               in if depth > MAX_THREAD_DEPTH then Err ''thread depth limit exceeded'' else Ok (effective_root, root_ts, depth)
      | None \<Rightarrow>
          let parent_root = (case marked_first ''root'' parent_event of
                Some r \<Rightarrow> r
              | None \<Rightarrow> (case marked_first ''reply'' parent_event of Some r \<Rightarrow> r | None \<Rightarrow> parent))
          in if client_root \<noteq> parent_root then Err ''root tag does not match thread ancestry''
             else Ok (parent_root, if parent_root \<noteq> parent then root_secs env c parent_root parent_created else parent_created,
                   if parent_root = parent then 1 else 2))"

definition has_broadcast :: "nostr_event \<Rightarrow> bool" where
  "has_broadcast ev \<longleftrightarrow>
     list_ex (\<lambda>t. case tag_slice t of k # v # _ \<Rightarrow> k = ''broadcast'' \<and> v = ''1'' | _ \<Rightarrow> False) (ev_tags ev)"

definition resolve_nip10_thread_meta ::
  "'u ingest_env \<Rightarrow> CommunityId \<Rightarrow> nostr_event \<Rightarrow> uuid \<Rightarrow> string + ThreadMetadataOwned option" where
  "resolve_nip10_thread_meta env c ev ch =
     (case marked_e ''reply'' ev of
        None \<Rightarrow> Ok None
      | Some parent \<Rightarrow>
          let client_root = (case marked_e ''root'' ev of Some r \<Rightarrow> r | None \<Rightarrow> parent);
              now_secs = int (ie_now env)
          in and_then (map_err (\<lambda>e. ''db error looking up parent: '' @ e) (ie_event env c parent)) (\<lambda>found.
             and_then (ok_or found ''reply parent not found'') (\<lambda>parent_event.
             and_then (case se_channel_id parent_event of
                 Some parent_ch \<Rightarrow>
                   if parent_ch \<noteq> ch then Err ''parent event belongs to a different channel'' else Ok ()
               | None \<Rightarrow> Err ''parent event has no channel association'') (\<lambda>_.
             let parent_created = event_secs env now_secs (se_event parent_event)
             in
             and_then (map_err (\<lambda>e. ''db error looking up thread metadata: '' @ e) (ie_thread env c parent)) (\<lambda>meta.
             and_then (thread_root env c client_root parent (se_event parent_event) parent_created meta)
               (\<lambda>(root, root_created, depth).
             Ok (Some \<lparr>to_event_id = ev_id ev, to_event_created_at = event_secs env now_secs ev, to_channel_id = ch,
                to_parent_event_id = parent, to_parent_event_created_at = parent_created, to_root_event_id = root,
                to_root_event_created_at = root_created, to_depth = depth, to_broadcast = has_broadcast ev\<rparr>)))))))"

section \<open>Checks of single kinds that read the database\<close>

definition same_channel :: "uuid option \<Rightarrow> uuid option \<Rightarrow> string + unit" where
  "same_channel ev_ch target_ch =
     (case (ev_ch, target_ch) of
        (Some a, Some b) \<Rightarrow> if a \<noteq> b then Err ''target event belongs to a different channel'' else Ok ()
      | (Some _, None) \<Rightarrow> Err ''target event has no channel''
      | _ \<Rightarrow> Ok ())"

definition find_target :: "'u ingest_env \<Rightarrow> CommunityId \<Rightarrow> string \<Rightarrow> nostr_event \<Rightarrow> string + stored_event" where
  "find_target env c what ev =
     and_then (ok_or (find_tag ''e'' hex32 (ev_tags ev)) (''missing e tag for '' @ what @ '' target'')) (\<lambda>target.
     and_then (map_err (\<lambda>e. ''db error: '' @ e) (ie_event env c target)) (\<lambda>found.
     ok_or found (what @ '' target event not found'')))"

definition validate_edit_ownership :: "'u ingest_env \<Rightarrow> CommunityId \<Rightarrow> nostr_event \<Rightarrow> string + unit" where
  "validate_edit_ownership env c ev =
     and_then (find_target env c ''edit'' ev) (\<lambda>target.
     and_then (same_channel (extract_channel_id (ie_parse_uuid env) ev) (se_channel_id target)) (\<lambda>_.
     let author = effective_message_author (se_event target) (ie_relay_pubkey env); actor = ev_pubkey ev
     in if author = actor
        then (case se_channel_id target of
                Some ch \<Rightarrow>
                  and_then (map_err (\<lambda>e. ''db error checking membership: '' @ e) (ie_member env c ch actor)) (\<lambda>is_member.
                  if is_member then Ok ()
                  else
                    let is_open = (case ie_channel_again env c ch of Some r \<Rightarrow> cr_visibility r = ''open'' | None \<Rightarrow> False)
                    in if is_open then Ok () else Err ''restricted: not a channel member'')
              | None \<Rightarrow> Ok ())
        else and_then (map_err (\<lambda>e. ''db error checking agent ownership: '' @ e) (ie_agent_owner env c author actor))
               (\<lambda>is_owner. if is_owner then Ok () else Err ''must be event author to edit'')))"

definition validate_forum_vote_target :: "'u ingest_env \<Rightarrow> CommunityId \<Rightarrow> nostr_event \<Rightarrow> string + unit" where
  "validate_forum_vote_target env c ev =
     and_then (find_target env c ''vote'' ev) (\<lambda>target.
     let k = event_kind_u32 (se_event target)
     in if k \<noteq> KIND_FORUM_POST \<and> k \<noteq> KIND_FORUM_COMMENT then Err ''vote target must be a forum post or comment''
        else same_channel (extract_channel_id (ie_parse_uuid env) ev) (se_channel_id target))"

definition is_unarchive :: "nostr_event \<Rightarrow> u32 \<Rightarrow> bool" where
  "is_unarchive ev k \<longleftrightarrow> k = KIND_NIP29_EDIT_METADATA \<and>
     list_ex (\<lambda>t. case tag_slice t of a # b # _ \<Rightarrow> a = ''archived'' \<and> b = ''false'' | _ \<Rightarrow> False) (ev_tags ev)"

definition check_archived :: "'u ingest_env \<Rightarrow> CommunityId \<Rightarrow> nostr_event \<Rightarrow> u32 \<Rightarrow> uuid option \<Rightarrow> IngestError + unit" where
  "check_archived env c ev k ch =
     (case ch of
        Some ch_id \<Rightarrow>
          if is_unarchive ev k then Ok ()
          else (case ie_channel env c ch_id of
                  Some row \<Rightarrow> reject_if (cr_archived row) (Rejected ''invalid: channel is archived'')
                | None \<Rightarrow> Ok ())
      | None \<Rightarrow> Ok ())"

definition check_deletion_targets :: "nostr_event \<Rightarrow> u32 \<Rightarrow> IngestError + unit" where
  "check_deletion_targets ev k =
     (if k = KIND_NIP29_DELETE_EVENT \<or> k = KIND_DELETION
      then reject_if (count_e_tags ev + count_tags ''a'' ev \<noteq> 1)
             (Rejected (''invalid: deletion events must reference exactly one target via e or a tag (got e='' @
                show_nat (count_e_tags ev) @ '', a='' @ show_nat (count_tags ''a'' ev) @ '')''))
      else Ok ())"

text \<open>The owner named in a turn metric is the owner of its author; the two \<open>expect\<close>s are panics.\<close>

definition check_metric_owner :: "'u ingest_env \<Rightarrow> CommunityId \<Rightarrow> nostr_event \<Rightarrow> unit step" where
  "check_metric_owner env c ev =
     (case slice_values ''p'' ev of
        [] \<Rightarrow> (\<lambda>st. (Inl Panicked, st))
      | owner # _ \<Rightarrow>
          if \<not> (even (length owner) \<and> list_all is_ascii_hexdigit owner) then (\<lambda>st. (Inl Panicked, st))
          else check (and_then (map_err (\<lambda>e. Internal (''error: db error checking agent-turn-metric ownership: '' @ e))
                 (ie_agent_owner env c (ev_pubkey ev) (to_ascii_lowercase owner))) (\<lambda>is_owner.
               reject_if (\<not> is_owner) (AuthFailed
                 ''restricted: agent-turn-metric `p` tag must be the registered owner of this agent''))))"

definition check_content_of_kind :: "'u ingest_env \<Rightarrow> CommunityId \<Rightarrow> nostr_event \<Rightarrow> u32 \<Rightarrow> unit step" where
  "check_content_of_kind env c ev k =
     bind_step (check (invalid (if k = KIND_STREAM_MESSAGE_EDIT then validate_edit_ownership env c ev else Ok ()))) (\<lambda>_.
     bind_step (check (invalid (if k = KIND_FORUM_VOTE then validate_forum_vote_target env c ev else Ok ()))) (\<lambda>_.
     bind_step (check (invalid (if k = KIND_STREAM_MESSAGE_DIFF then validate_diff_event ev else Ok ()))) (\<lambda>_.
     bind_step (check (invalid (if k = KIND_AGENT_ENGRAM then validate_engram_envelope ev else Ok ()))) (\<lambda>_.
     bind_step (only_if (k = KIND_AGENT_TURN_METRIC)
       (bind_step (check (invalid (validate_agent_turn_metric_envelope ev))) (\<lambda>_. check_metric_owner env c ev))) (\<lambda>_.
     bind_step (check (invalid (if k = KIND_EVENT_REMINDER
         then validate_event_reminder (ie_max_not_before_delta env) (ie_now env) ev else Ok ()))) (\<lambda>_.
     bind_step (check (invalid (if k = KIND_PERSONA then validate_persona_envelope (ie_show_list env) ev else Ok ()))) (\<lambda>_.
     check (invalid (if k = KIND_TEAM_CATALOG then validate_team_catalog_envelope (ie_show_list env) ev else Ok ())))))))))"

section \<open>Creating and joining channels\<close>

definition tag_text :: "string \<Rightarrow> nostr_event \<Rightarrow> string option" where
  "tag_text kind ev = find_tag kind Some (ev_tags ev)"

text \<open>\<open>i32::from_str\<close>.\<close>

definition parse_i32 :: "string \<Rightarrow> int option" where
  "parse_i32 s =
     (case s of
        c # ds \<Rightarrow>
          if c = CHR ''-''
          then (case parse_uint 32 (if ds \<noteq> [] \<and> hd ds = CHR ''+'' then [] else ds) of
                  Some n \<Rightarrow> if n \<le> 2 ^ 31 then Some (- int n) else None
                | None \<Rightarrow> None)
          else (case parse_uint 31 s of Some n \<Rightarrow> Some (int n) | None \<Rightarrow> None)
      | [] \<Rightarrow> None)"

definition resolve_ttl :: "nostr_event \<Rightarrow> int option \<Rightarrow> int option" where
  "resolve_ttl ev ovr =
     (case find_tag ''ttl'' parse_i32 (ev_tags ev) of
        Some original \<Rightarrow> (case ovr of Some t \<Rightarrow> Some t | None \<Rightarrow> Some original)
      | None \<Rightarrow> None)"

text \<open>The step for a channel to be created; its result is the channel made before the event is stored.\<close>

definition pre_create_channel ::
  "'u ingest_env \<Rightarrow> ingest_handlers \<Rightarrow> TenantContext \<Rightarrow> nostr_event \<Rightarrow> uuid option \<Rightarrow> uuid option step" where
  "pre_create_channel env hs tenant ev ch =
     (let create_name = tag_text ''name'' ev;
          visibility_str = (case tag_text ''visibility'' ev of Some v \<Rightarrow> v | None \<Rightarrow> ''open'');
          channel_type_str = (case tag_text ''channel_type'' ev of Some v \<Rightarrow> v | None \<Rightarrow> ''stream'')
      in bind_step (check (reject_if (case create_name of
             Some n \<Rightarrow> trim_ws (utf8_chars (canonical_channel_name n)) = []
           | None \<Rightarrow> True) (Rejected ''invalid: channel name is required''))) (\<lambda>_.
         bind_step (check (map_err (\<lambda>_. Rejected (''invalid visibility: '' @ visibility_str))
           (ChannelVisibility_from_str visibility_str))) (\<lambda>visibility.
         bind_step (check (map_err (\<lambda>_. Rejected (''invalid channel_type: '' @ channel_type_str))
           (ChannelType_from_str channel_type_str))) (\<lambda>channel_type.
         case ch of
           None \<Rightarrow> return_step None
         | Some client_uuid \<Rightarrow>
             let name = canonical_channel_name (case create_name of Some n \<Rightarrow> n | None \<Rightarrow> []);
                 ttl_seconds = resolve_ttl ev (ie_ephemeral_ttl_override env)
             in bind_step (call (CallCreateChannel client_uuid)
                   (ih_create_channel hs client_uuid name channel_type visibility (tag_text ''about'' ev) ttl_seconds tenant ev)) (\<lambda>r.
                bind_step (check (map_err (\<lambda>e. Internal (''error: '' @ e)) r)) (\<lambda>was_created.
                if \<not> was_created then answer (ingest_result ev False ''duplicate: channel already exists'')
                else return_step (Some client_uuid)))))))"

definition check_join :: "'u ingest_env \<Rightarrow> CommunityId \<Rightarrow> uuid option \<Rightarrow> IngestError + unit" where
  "check_join env c ch =
     (case ch of
        None \<Rightarrow> Err (Rejected ''invalid: join request must include an h tag'')
      | Some ch_id \<Rightarrow>
          (case ie_channel env c ch_id of
             Some row \<Rightarrow> reject_if (cr_visibility row = ''private'') (Rejected ''restricted: channel is private'')
           | None \<Rightarrow> Err (Rejected ''invalid: channel not found'')))"

section \<open>Requests that are not stored\<close>

definition accepted :: "nostr_event \<Rightarrow> 'a step" where
  "accepted ev = answer (ingest_result ev True [])"

definition map_relay_admin_error :: "RelayAdminError \<Rightarrow> IngestError" where
  "map_relay_admin_error e =
     (case e of
        AdminBanned \<Rightarrow> AuthFailed ''blocked: you are banned from this community''
      | AdminRejected reason \<Rightarrow> Rejected (''invalid: '' @ reason)
      | AdminInternal reason \<Rightarrow> Internal (''error: '' @ reason))"

definition map_push_accept_error :: "PushAcceptError \<Rightarrow> IngestError" where
  "map_push_accept_error e =
     (case e of PushValidation reason \<Rightarrow> Rejected (''invalid: '' @ reason) | PushInternal reason \<Rightarrow> Internal reason)"

definition LEAVE_FRESHNESS_SECS :: int where "LEAVE_FRESHNESS_SECS = 120"

definition is_protected :: "nostr_event \<Rightarrow> bool" where
  "is_protected ev \<longleftrightarrow> list_ex (\<lambda>t. case tag_slice t of s # _ \<Rightarrow> s = ''-'' | [] \<Rightarrow> False) (ev_tags ev)"

definition leave_relay :: "'u ingest_env \<Rightarrow> ingest_handlers \<Rightarrow> TenantContext \<Rightarrow> nostr_event \<Rightarrow> 'a step" where
  "leave_relay env hs tenant ev =
     bind_step (check (reject_if (\<not> ie_require_relay_membership env)
       (Rejected ''invalid: relay membership is not enabled''))) (\<lambda>_.
     bind_step (check (reject_if (drift (ev_created_at ev) (ie_now env) > LEAVE_FRESHNESS_SECS)
       (Rejected (''invalid: leave request timestamp out of range (delta='' @
          show_int (sint (word_of_nat (ev_created_at ev) - word_of_nat (ie_now env) :: u64)) @ ''s, max '' @
          plus_minus @ ''120s)'')))) (\<lambda>_.
     bind_step (check (reject_if (\<not> is_protected ev)
       (Rejected (''invalid: leave request must include NIP-70 protected event tag ['' @ quoted ''-'' @ '']'')))) (\<lambda>_.
     bind_step (call CallRemoveRelayMember (ih_remove_relay_member hs tenant ev)) (\<lambda>r.
     bind_step (check (map_err (\<lambda>e. Internal (''database error: '' @ e)) r)) (\<lambda>removed.
     bind_step (check (case removed of
         Removed \<Rightarrow> Ok ()
       | NotFound \<Rightarrow> Err (Rejected ''invalid: you are not a relay member'')
       | IsOwner \<Rightarrow> Err (Rejected ''invalid: relay owner cannot leave'')
       | RoleMismatch \<Rightarrow> Err (Internal ''unexpected RoleMismatch from remove_relay_member''))) (\<lambda>_.
     bind_step (call CallAnnounceLeave (ih_announce_leave hs tenant ev)) (\<lambda>_.
     answer (ingest_result ev True ''info: you have left this relay''))))))))"

definition accept_push_lease :: "ingest_handlers \<Rightarrow> TenantContext \<Rightarrow> nostr_event \<Rightarrow> 'a step" where
  "accept_push_lease hs tenant ev =
     bind_step (call CallPushAccept (ih_push_accept hs tenant ev)) (\<lambda>r.
     bind_step (check (map_err map_push_accept_error r)) (\<lambda>outcome.
     bind_step (check (case outcome of
         Accepted \<Rightarrow> Ok ()
       | StaleEvent \<Rightarrow> Err (Rejected ''invalid: stale replacement'')
       | StaleGeneration \<Rightarrow> Err (Rejected ''invalid: stale generation'')
       | EndpointAlreadyLeased \<Rightarrow> Err (Rejected ''invalid: endpoint already leased'')
       | LeaseQuotaExceeded \<Rightarrow> Err (Rejected ''invalid: lease quota exceeded'')
       | SourceEventCollision \<Rightarrow> Err (Rejected ''invalid: source event collision'')
       | ConstraintViolation \<Rightarrow> Err (Rejected ''invalid: lease constraint violation''))) (\<lambda>_.
     accepted ev)))"

text \<open>A handler whose error rejects the request.\<close>

definition handled :: "(string \<Rightarrow> IngestError) \<Rightarrow> ingest_call \<Rightarrow> (ingest_db \<Rightarrow> (string + unit) \<times> ingest_db) \<Rightarrow> unit step" where
  "handled err name f = bind_step (call name f) (\<lambda>r. check (map_err err r))"

text \<open>The kinds that are handled before the write block.\<close>

definition route_early ::
  "ingest_handlers \<Rightarrow> TenantContext \<Rightarrow> IngestAuth \<Rightarrow> nostr_event \<Rightarrow> u32 \<Rightarrow> unit step" where
  "route_early hs tenant auth ev k =
     (if is_command_kind k then bind_step (call CallCommand (ih_command hs auth tenant ev)) answer
      else if k = KIND_PRODUCT_FEEDBACK
      then bind_step (handled Rejected CallFeedback (ih_feedback hs tenant ev)) (\<lambda>_. accepted ev)
      else if k = KIND_REPORT
      then bind_step (handled Rejected CallReport (ih_report hs tenant ev)) (\<lambda>_. accepted ev)
      else if is_moderation_command_kind k
      then bind_step (handled Rejected CallModeration (ih_moderation hs tenant ev)) (\<lambda>_. accepted ev)
      else return_step ())"

text \<open>The relay's own commands, after the gates on channels.\<close>

definition route_relay_commands ::
  "'u ingest_env \<Rightarrow> ingest_handlers \<Rightarrow> TenantContext \<Rightarrow> nostr_event \<Rightarrow> u32 \<Rightarrow> unit step" where
  "route_relay_commands env hs tenant ev k =
     (if is_relay_admin_kind k
      then bind_step (call CallRelayAdmin (ih_relay_admin hs tenant ev)) (\<lambda>r.
           bind_step (check (map_err map_relay_admin_error r)) (\<lambda>_. accepted ev))
      else if k = KIND_NIP43_LEAVE_REQUEST then leave_relay env hs tenant ev
      else return_step ())"

definition run_validators :: "ingest_handlers \<Rightarrow> TenantContext \<Rightarrow> nostr_event \<Rightarrow> u32 \<Rightarrow> unit step" where
  "run_validators hs tenant ev k =
     (let err = (\<lambda>e. Rejected (''invalid: '' @ e))
      in bind_step (only_if (is_admin_kind k) (handled err CallValidateAdmin (ih_validate_admin hs tenant ev))) (\<lambda>_.
         bind_step (only_if (is_identity_archive_request_kind k)
           (handled err CallIdentityArchive (ih_identity_archive hs tenant ev))) (\<lambda>_.
         only_if (k = KIND_DELETION) (handled err CallValidateDeletion (ih_validate_deletion hs tenant ev)))))"

definition check_imeta :: "ingest_handlers \<Rightarrow> TenantContext \<Rightarrow> nostr_event \<Rightarrow> unit step" where
  "check_imeta hs tenant ev =
     (let imeta_tags = map tag_slice (filter (\<lambda>t. tag_kind t = ''imeta'') (ev_tags ev))
      in only_if (imeta_tags \<noteq> [])
           (handled (\<lambda>e. Rejected (''invalid: '' @ e)) CallImeta (ih_imeta hs imeta_tags tenant ev)))"

section \<open>Storing\<close>

definition MAX_REACTION_EMOJI_CHARS :: nat where "MAX_REACTION_EMOJI_CHARS = 64"

definition D_TAG_MAX_LEN :: nat where "D_TAG_MAX_LEN = 1024"

definition dispatch :: "ingest_handlers \<Rightarrow> TenantContext \<Rightarrow> nostr_event \<Rightarrow> stored_event \<Rightarrow> unit step" where
  "dispatch hs tenant ev stored = call (CallDispatch stored) (ih_dispatch hs stored tenant ev)"

text \<open>The trace of a stored reaction names its channel: without one, that is a panic.\<close>

definition after_reaction ::
  "ingest_handlers \<Rightarrow> TenantContext \<Rightarrow> nostr_event \<Rightarrow> uuid option \<Rightarrow> ReactionEventInsertOutcome \<Rightarrow> unit step" where
  "after_reaction hs tenant ev ch outcome =
     (case outcome of
       TargetMissing \<Rightarrow> answer (Err (Rejected ''invalid: reaction target event not found''))
     | Duplicate \<Rightarrow> answer (ingest_result ev False ''duplicate: reaction already exists'')
     | Inserted stored was_inserted \<Rightarrow>
         if ch = None then (\<lambda>st. (Inl Panicked, st))
         else bind_step (dispatch hs tenant ev stored) (\<lambda>_. accepted ev))"

definition store_reaction ::
  "'u ingest_env \<Rightarrow> ingest_handlers \<Rightarrow> TenantContext \<Rightarrow> nostr_event \<Rightarrow> uuid option \<Rightarrow> ThreadMetadataOwned option
     \<Rightarrow> unit step" where
  "store_reaction env hs tenant ev ch meta =
     bind_step (check (ok_or (find_tag ''e'' hex32 (rev (ev_tags ev)))
       (Rejected ''invalid: reaction must reference a target event via e tag''))) (\<lambda>target.
     let actor = effective_message_author ev (ie_relay_pubkey env);
         emoji = (if ev_content ev = [] then ''+'' else ev_content ev);
         emoji_char_count = length (utf8_chars emoji)
     in
     bind_step (check (reject_if (emoji_char_count > MAX_REACTION_EMOJI_CHARS)
       (Rejected (''invalid: reaction emoji exceeds '' @ show_nat MAX_REACTION_EMOJI_CHARS @ '' characters (got '' @
          show_nat emoji_char_count @ '')'')))) (\<lambda>_.
     bind_step (call (CallStore ch) (insert_reaction_event_with_thread_metadata (ie_timestamp_ok env) (ie_fate env)
       (ie_mentions_reached env) (ie_instant env) (tc_community tenant) ev ch (map_option as_params meta) target actor
       emoji)) (\<lambda>r.
     bind_step (check (map_err (\<lambda>e. Internal (''error: '' @ ie_show_db env e)) r)) (\<lambda>outcome.
     after_reaction hs tenant ev ch outcome))))"

definition insert_plain ::
  "'u ingest_env \<Rightarrow> ingest_handlers \<Rightarrow> TenantContext \<Rightarrow> nostr_event \<Rightarrow> uuid option \<Rightarrow> ThreadMetadataOwned option
     \<Rightarrow> uuid option \<Rightarrow> (stored_event \<times> bool) step" where
  "insert_plain env hs tenant ev ch meta pre_created =
     bind_step (call (CallStore ch) (insert_event_with_thread_metadata (ie_timestamp_ok env) (ie_fate env)
       (ie_mentions_reached env) (ie_instant env) (tc_community tenant) ev ch (map_option as_params meta))) (\<lambda>r.
     case r of
       Inr res \<Rightarrow> return_step res
     | Inl e \<Rightarrow>
         bind_step (case pre_created of
             Some ch_id \<Rightarrow> call (CallSoftDeleteChannel ch_id) (ih_soft_delete_channel hs ch_id tenant ev)
           | None \<Rightarrow> return_step ()) (\<lambda>_.
         answer (Err (case e of
             AuthEventRejected \<Rightarrow> Rejected ''invalid: AUTH events cannot be stored''
           | other \<Rightarrow> Internal (''error: database error: '' @ ie_show_db env other)))))"

text \<open>A replacement, on the table of events.\<close>

definition on_events :: "(event_db \<Rightarrow> 'a \<times> event_db) \<Rightarrow> ingest_db \<Rightarrow> 'a \<times> ingest_db" where
  "on_events f db = (case f (in_events db) of (a, events) \<Rightarrow> (a, db\<lparr>in_events := events\<rparr>))"

definition store_event ::
  "'u ingest_env \<Rightarrow> ingest_handlers \<Rightarrow> TenantContext \<Rightarrow> nostr_event \<Rightarrow> u32 \<Rightarrow> uuid option
     \<Rightarrow> ThreadMetadataOwned option \<Rightarrow> uuid option \<Rightarrow> (stored_event \<times> bool) step" where
  "store_event env hs tenant ev k ch meta pre_created =
     (let db_error = (\<lambda>r. check (map_err (\<lambda>e. Internal (''error: '' @ ie_show_db env e)) r))
      in if is_replaceable k
         then bind_step (call (CallStore ch) (on_events (replace_addressable_event (ie_timestamp_ok env) (ie_fate env)
                (ie_mentions_reached env) (ie_instant env) (tc_community tenant) ev ch))) db_error
         else if is_parameterized_replaceable k
         then
           let d_tag = (case extract_d_tag ev of Some d \<Rightarrow> d | None \<Rightarrow> [])
           in bind_step (check (reject_if (length d_tag > D_TAG_MAX_LEN)
                (Rejected (''invalid: d tag too long ('' @ show_nat (length d_tag) @ '' bytes, max '' @
                   show_nat D_TAG_MAX_LEN @ '')'')))) (\<lambda>_.
              bind_step (call (CallStore ch) (on_events (replace_parameterized_event (ie_timestamp_ok env) (ie_fate env)
                (ie_mentions_reached env) (ie_instant env) (tc_community tenant) ev d_tag ch))) db_error)
         else insert_plain env hs tenant ev ch meta pre_created)"

definition after_store ::
  "ingest_handlers \<Rightarrow> TenantContext \<Rightarrow> nostr_event \<Rightarrow> u32 \<Rightarrow> ThreadMetadataOwned option \<Rightarrow> stored_event \<times> bool
     \<Rightarrow> unit step" where
  "after_store hs tenant ev k meta res =
     (case res of (stored, was_inserted) \<Rightarrow>
        if \<not> was_inserted then answer (ingest_result ev True ''duplicate:'')
        else
          bind_step (only_if (is_side_effect_kind k) (call CallSideEffects (ih_side_effects hs tenant ev))) (\<lambda>_.
          bind_step (only_if (meta \<noteq> None) (call CallThreadSummary (ih_thread_summary hs tenant ev))) (\<lambda>_.
          bind_step (dispatch hs tenant ev stored) (\<lambda>_.
          accepted ev))))"

section \<open>The pipeline\<close>

text \<open>The checks and routes up to the gates on the channel; the result is the channel.\<close>

definition admit ::
  "'u ingest_env \<Rightarrow> ingest_handlers \<Rightarrow> TenantContext \<Rightarrow> IngestAuth \<Rightarrow> signed_event \<Rightarrow> u32 \<Rightarrow> uuid option step" where
  "admit env hs tenant auth sev k =
     (let ev = nostr_event.truncate sev; c = tc_community tenant
      in bind_step (check (check_envelope env auth sev k)) (\<lambda>_.
         bind_step (check (check_scope auth ev k)) (\<lambda>_.
         bind_step (route_early hs tenant auth ev k) (\<lambda>_.
         bind_step (check (if \<not> is_moderation_command_kind k \<and> \<not> is_relay_admin_kind k
             then check_restriction env tenant auth else Ok ())) (\<lambda>_.
         bind_step (check (resolve_channel_id env c ev k)) (\<lambda>ch.
         bind_step (check (check_channel_scope auth k ch)) (\<lambda>_.
         bind_step (check (check_membership env c auth k ch)) (\<lambda>_.
         return_step ch))))))))"

text \<open>What comes between the gates and the store; the results are the thread and the channel made.\<close>

definition prepare ::
  "'u ingest_env \<Rightarrow> ingest_handlers \<Rightarrow> TenantContext \<Rightarrow> nostr_event \<Rightarrow> u32 \<Rightarrow> uuid option
     \<Rightarrow> (ThreadMetadataOwned option \<times> uuid option) step" where
  "prepare env hs tenant ev k ch =
     (let c = tc_community tenant
      in bind_step (route_relay_commands env hs tenant ev k) (\<lambda>_.
         bind_step (run_validators hs tenant ev k) (\<lambda>_.
         bind_step (check (check_archived env c ev k ch)) (\<lambda>_.
         bind_step (check (check_deletion_targets ev k)) (\<lambda>_.
         bind_step (check_content_of_kind env c ev k) (\<lambda>_.
         bind_step (if k = KIND_NIP29_CREATE_GROUP then pre_create_channel env hs tenant ev ch else return_step None) (\<lambda>pre.
         bind_step (check (if k = KIND_NIP29_JOIN_REQUEST then check_join env c ch else Ok ())) (\<lambda>_.
         bind_step (if k = KIND_PUSH_LEASE then accept_push_lease hs tenant ev else return_step ()) (\<lambda>_.
         bind_step (check_imeta hs tenant ev) (\<lambda>_.
         bind_step (check (if requires_h_channel_scope k
             then (case ch of
                     Some ch_id \<Rightarrow> invalid (resolve_nip10_thread_meta env c ev ch_id)
                   | None \<Rightarrow> Ok None)
             else Ok None)) (\<lambda>meta.
         bind_step (check (reject_if (k = KIND_PROFILE \<and> \<not> ie_is_json env (ev_content ev))
             (Rejected ''invalid: kind:0 content must be valid JSON''))) (\<lambda>_.
         return_step (meta, pre)))))))))))))"

definition ingest_event_inner ::
  "'u ingest_env \<Rightarrow> ingest_handlers \<Rightarrow> TenantContext \<Rightarrow> signed_event \<Rightarrow> IngestAuth \<Rightarrow> unit step" where
  "ingest_event_inner env hs tenant sev auth =
     (let ev = nostr_event.truncate sev; k = event_kind_u32 ev
      in bind_step (admit env hs tenant auth sev k) (\<lambda>ch.
         bind_step (prepare env hs tenant ev k ch) (\<lambda>(meta, pre).
         if k = KIND_REACTION then store_reaction env hs tenant ev ch meta
         else bind_step (store_event env hs tenant ev k ch meta pre) (after_store hs tenant ev k meta))))"

text \<open>A request on the tables, with the calls it made.\<close>

definition ingest_event ::
  "'u ingest_env \<Rightarrow> ingest_handlers \<Rightarrow> TenantContext \<Rightarrow> signed_event \<Rightarrow> IngestAuth \<Rightarrow> ingest_db
     \<Rightarrow> ingest_exit option \<times> ingest_call list \<times> ingest_db" where
  "ingest_event env hs tenant sev auth db =
     (case ingest_event_inner env hs tenant sev auth \<lparr>is_db = db, is_calls = []\<rparr> of
        (Inl e, st) \<Rightarrow> (Some e, is_calls st, is_db st)
      | (Inr _, st) \<Rightarrow> (None, is_calls st, is_db st))"

end
