(* ===== verification/IngestProps.thy ===== *)
theory IngestProps
  imports Ingest
begin

text \<open>
  What the write path guarantees. A locale has the rules by which a relation between the states before and
  after is shown for a step from its parts; it is used for the calls a step makes.
\<close>

section \<open>Steps\<close>

lemma bind_step_Inr [simp]:
  "bind_step m f st = (Inr b, st') \<longleftrightarrow> (\<exists>a st1. m st = (Inr a, st1) \<and> f a st1 = (Inr b, st'))"
  by (auto simp: bind_step_def split: prod.splits sum.splits)

lemma bind_step_Inl:
  "bind_step m f st = (Inl e, st') \<longleftrightarrow> m st = (Inl e, st') \<or> (\<exists>a st1. m st = (Inr a, st1) \<and> f a st1 = (Inl e, st'))"
  by (auto simp: bind_step_def split: prod.splits sum.splits)

lemma bind_step_cases:
  assumes "bind_step m f st = (r, st')"
  obtains e where "m st = (Inl e, st')" "r = Inl e" | a st1 where "m st = (Inr a, st1)" "f a st1 = (r, st')"
  using assms by (auto simp: bind_step_def split: prod.splits sum.splits)

lemma return_step_eq [simp]: "return_step a st = (r, st') \<longleftrightarrow> r = Inr a \<and> st' = st"
  by (auto simp: return_step_def)

lemma answer_eq [simp]: "answer x st = (r, st') \<longleftrightarrow> r = Inl (Answer x) \<and> st' = st"
  by (auto simp: answer_def)

lemma accepted_eq [simp]: "accepted ev st = (r, st') \<longleftrightarrow> r = Inl (Answer (ingest_result ev True [])) \<and> st' = st"
  by (auto simp: accepted_def)

lemma check_Inr [simp]: "check x st = (Inr a, st') \<longleftrightarrow> x = Inr a \<and> st' = st"
  by (auto simp: check_def split: sum.splits)

lemma check_Inl [simp]: "check x st = (Inl e, st') \<longleftrightarrow> (\<exists>err. x = Inl err \<and> e = Answer (Err err)) \<and> st' = st"
  by (auto simp: check_def split: sum.splits)

lemma check_state: "check x st = (r, st') \<Longrightarrow> st' = st"
  by (cases r) auto

lemma call_Inr: "call name f st = (r, st') \<longleftrightarrow>
    (\<exists>a db. f (is_db st) = (a, db) \<and> r = Inr a \<and> st' = st\<lparr>is_db := db, is_calls := is_calls st @ [name]\<rparr>)"
  by (auto simp: call_def split: prod.splits)

lemma reject_if_Inr [simp]: "reject_if b e = Inr u \<longleftrightarrow> \<not> b"
  by (simp add: reject_if_def)

lemma rejected_Inr [simp]: "rejected r = Inr a \<longleftrightarrow> r = Inr a"
  by (cases r) (simp_all add: rejected_def)

lemma invalid_Inr [simp]: "invalid r = Inr a \<longleftrightarrow> r = Inr a"
  by (cases r) (simp_all add: invalid_def)

locale step_relation =
  fixes R :: "ingest_state \<Rightarrow> ingest_state \<Rightarrow> bool"
  assumes stays: "R st st"
    and goes_on: "R st st1 \<Longrightarrow> R st1 st2 \<Longrightarrow> R st st2"
begin

definition within :: "'a step \<Rightarrow> bool" where
  "within m \<longleftrightarrow> (\<forall>st r st'. m st = (r, st') \<longrightarrow> R st st')"

lemma withinD: "within m \<Longrightarrow> m st = (r, st') \<Longrightarrow> R st st'"
  by (simp add: within_def)

lemma within_bind:
  assumes "within m" "\<And>a. within (f a)"
  shows "within (bind_step m f)"
  unfolding within_def
proof (intro allI impI)
  fix st r st'
  assume "bind_step m f st = (r, st')"
  then show "R st st'"
  proof (cases rule: bind_step_cases)
    case (1 e)
    then show ?thesis using withinD [OF assms(1)] by simp
  next
    case (2 a st1)
    then show ?thesis using withinD [OF assms(1)] withinD [OF assms(2)] goes_on by blast
  qed
qed

lemma within_return: "within (return_step a)"
  by (simp add: within_def stays)

lemma within_answer: "within (answer x)" and within_accepted: "within (accepted ev)"
  by (simp_all add: within_def stays)

lemma within_check: "within (check x)"
  unfolding within_def using check_state stays by metis

lemma within_panic: "within (\<lambda>st. (Inl Panicked, st))"
  by (simp add: within_def stays)

lemma within_only_if: "within m \<Longrightarrow> within (only_if b m)"
  by (simp add: only_if_def within_return)

lemma within_handled: "within (call name f) \<Longrightarrow> within (handled err name f)"
  unfolding handled_def by (intro within_bind within_check)

lemmas within_rules = within_bind within_return within_answer within_accepted within_check within_panic within_only_if
  within_handled

end

text \<open>The calls a step adds satisfy a predicate.\<close>

definition adds_calls :: "(ingest_call \<Rightarrow> bool) \<Rightarrow> ingest_state \<Rightarrow> ingest_state \<Rightarrow> bool" where
  "adds_calls P st st' \<longleftrightarrow> (\<exists>cs. is_calls st' = is_calls st @ cs \<and> list_all P cs)"

interpretation adds: step_relation "adds_calls P" for P
proof
  show "adds_calls P st st" for st by (simp add: adds_calls_def)
  show "adds_calls P st st2" if "adds_calls P st st1" "adds_calls P st1 st2" for st st1 st2
    using that by (force simp: adds_calls_def)
qed

lemma adds_call: "P name \<Longrightarrow> adds.within P (call name f)"
  unfolding adds.within_def adds_calls_def by (auto simp: call_Inr)

definition is_store :: "ingest_call \<Rightarrow> bool" where
  "is_store x \<longleftrightarrow> (case x of CallStore _ \<Rightarrow> True | _ \<Rightarrow> False)"

lemma is_store_simps [simp]:
  "is_store (CallStore ch)" "\<not> is_store CallCommand" "\<not> is_store CallFeedback" "\<not> is_store CallReport"
  "\<not> is_store CallModeration" "\<not> is_store CallRelayAdmin" "\<not> is_store CallRemoveRelayMember"
  "\<not> is_store CallAnnounceLeave" "\<not> is_store CallValidateAdmin" "\<not> is_store CallIdentityArchive"
  "\<not> is_store CallValidateDeletion" "\<not> is_store (CallCreateChannel u)" "\<not> is_store (CallSoftDeleteChannel u)"
  "\<not> is_store CallPushAccept" "\<not> is_store CallImeta" "\<not> is_store CallSideEffects" "\<not> is_store CallThreadSummary"
  "\<not> is_store (CallDispatch s)"
  by (simp_all add: is_store_def)

section \<open>Only the store stores\<close>

abbreviation no_store :: "'a step \<Rightarrow> bool" where
  "no_store \<equiv> adds.within (\<lambda>x. \<not> is_store x)"

lemma route_early_no_store: "no_store (route_early hs tenant auth ev k)"
  unfolding route_early_def by (auto intro!: adds.within_rules adds_call)

lemma admit_no_store: "no_store (admit env hs tenant auth sev k)"
  unfolding admit_def Let_def by (intro adds.within_rules route_early_no_store)

lemma route_relay_commands_no_store: "no_store (route_relay_commands env hs tenant ev k)"
  unfolding route_relay_commands_def leave_relay_def by (auto intro!: adds.within_rules adds_call)

lemma pre_create_no_store: "no_store (pre_create_channel env hs tenant ev ch)"
  unfolding pre_create_channel_def Let_def
  by (cases ch) (auto intro!: adds.within_rules adds_call)

lemma metric_owner_no_store: "no_store (check_metric_owner env c ev)"
  unfolding check_metric_owner_def
  by (cases "slice_values ''p'' ev") (simp_all add: adds.within_panic adds.within_check)

lemma check_content_no_store: "no_store (check_content_of_kind env c ev k)"
  unfolding check_content_of_kind_def by (intro adds.within_rules metric_owner_no_store)

lemma run_validators_no_store: "no_store (run_validators hs tenant ev k)"
  unfolding run_validators_def Let_def by (auto intro!: adds.within_rules adds_call)

lemma push_lease_no_store: "no_store (accept_push_lease hs tenant ev)"
  unfolding accept_push_lease_def by (auto intro!: adds.within_rules adds_call)

lemma imeta_no_store: "no_store (check_imeta hs tenant ev)"
  unfolding check_imeta_def Let_def by (auto intro!: adds.within_rules adds_call)

lemma prepare_no_store: "no_store (prepare env hs tenant ev k ch)"
  unfolding prepare_def Let_def
  by (auto intro!: adds.within_rules route_relay_commands_no_store run_validators_no_store check_content_no_store
      pre_create_no_store push_lease_no_store imeta_no_store)

abbreviation stores_in :: "uuid option \<Rightarrow> 'a step \<Rightarrow> bool" where
  "stores_in ch \<equiv> adds.within (\<lambda>x. is_store x \<longrightarrow> x = CallStore ch)"

lemma store_reaction_in: "stores_in ch (store_reaction env hs tenant ev ch meta)"
  unfolding store_reaction_def after_reaction_def Let_def dispatch_def
  by (auto intro!: adds.within_rules adds_call split: ReactionEventInsertOutcome.splits)

lemma store_event_in: "stores_in ch (store_event env hs tenant ev k ch meta pre)"
  unfolding store_event_def insert_plain_def Let_def
  by (auto intro!: adds.within_rules adds_call split: sum.splits option.splits)

lemma after_store_in: "stores_in ch (after_store hs tenant ev k meta res)"
  unfolding after_store_def dispatch_def by (cases res) (auto intro!: adds.within_rules adds_call)

section \<open>What the gates require\<close>

text \<open>The token, the membership or the openness, and the archive of the channel allow the write.\<close>

definition channel_permits ::
  "'u ingest_env \<Rightarrow> CommunityId \<Rightarrow> IngestAuth \<Rightarrow> nostr_event \<Rightarrow> u32 \<Rightarrow> uuid \<Rightarrow> bool" where
  "channel_permits env c auth ev k ch \<longleftrightarrow>
     (case ia_channel_ids auth of Some allowed \<Rightarrow> ch \<in> set allowed | None \<Rightarrow> True) \<and>
     (skips_membership k \<or> ie_member env c ch (ia_pubkey auth) = Inr True \<or>
      (\<exists>row. (ie_channel env c ch = Some row \<or> ie_channel env c ch = None \<and> ie_channel_again env c ch = Some row) \<and>
         cr_visibility row = ''open'')) \<and>
     (is_unarchive ev k \<or> (\<forall>row. ie_channel env c ch = Some row \<longrightarrow> \<not> cr_archived row))"

text \<open>The author is not banned, and no timeout of the author runs.\<close>

definition unrestricted :: "'u ingest_env \<Rightarrow> CommunityId \<Rightarrow> pubkey \<Rightarrow> bool" where
  "unrestricted env c pk \<longleftrightarrow>
     (\<exists>muted. ie_restriction env c pk = Inr (False, muted) \<and>
        (case muted of Some until \<Rightarrow> until \<le> int (ie_now_ms env) | None \<Rightarrow> True))"

definition envelope_ok :: "'u ingest_env \<Rightarrow> IngestAuth \<Rightarrow> signed_event \<Rightarrow> u32 \<Rightarrow> bool" where
  "envelope_ok env auth sev k \<longleftrightarrow>
     verify_event (ie_lib env) sev = Inr () \<and> \<not> is_relay_only_kind k \<and> k \<noteq> KIND_AUTH \<and>
     drift (ev_created_at sev) (ie_now env) \<le> MAX_TIMESTAMP_DRIFT_SECS \<and>
     length (ev_content sev) \<le> MAX_EVENT_CONTENT_BYTES \<and>
     (ev_pubkey sev = ia_pubkey auth \<or> k = KIND_GIFT_WRAP \<and> \<not> is_http auth)"

definition scope_ok :: "IngestAuth \<Rightarrow> nostr_event \<Rightarrow> u32 \<Rightarrow> bool" where
  "scope_ok auth ev k \<longleftrightarrow> (\<exists>required. required_scope_for_kind k ev = Inr required \<and> required \<in> set (ia_scopes auth))"

definition routed_early :: "u32 \<Rightarrow> bool" where
  "routed_early k \<longleftrightarrow> is_command_kind k \<or> k = KIND_PRODUCT_FEEDBACK \<or> k = KIND_REPORT \<or> is_moderation_command_kind k"

lemma truncate_simps [simp]:
  "ev_created_at (nostr_event.truncate e) = ev_created_at e" "ev_content (nostr_event.truncate e) = ev_content e"
  "ev_pubkey (nostr_event.truncate e) = ev_pubkey e" "ev_id (nostr_event.truncate e) = ev_id e"
  "ev_tags (nostr_event.truncate e) = ev_tags e" "ev_kind (nostr_event.truncate e) = ev_kind e"
  by (simp_all add: nostr_event.truncate_def)

lemma verify_submitted_Ok: "verify_submitted env ev = Inr u \<Longrightarrow> verify_event (ie_lib env) ev = Inr ()"
  by (cases "verify_event (ie_lib env) ev") (simp_all add: verify_submitted_def split: if_splits)

lemma check_envelope_Ok: "check_envelope env auth sev k = Inr u \<Longrightarrow> envelope_ok env auth sev k"
  unfolding check_envelope_def Let_def envelope_ok_def
  by (auto simp: and_then_eq_Ok not_less dest: verify_submitted_Ok)

lemma check_scope_Ok:
  "check_scope auth ev k = Inr u \<Longrightarrow> scope_ok auth ev k \<and> (is_relay_admin_kind k \<longrightarrow> ia_channel_ids auth = None)"
  unfolding check_scope_def scope_ok_def by (auto simp: and_then_eq_Ok)

lemma route_early_Inr: "route_early hs tenant auth ev k st = (Inr u, st') \<Longrightarrow> \<not> routed_early k \<and> st' = st"
  by (auto simp: route_early_def routed_early_def split: if_splits)

lemma check_restriction_Ok: "check_restriction env tenant auth = Inr u \<Longrightarrow> unrestricted env (tc_community tenant) (ia_pubkey auth)"
  by (auto simp: check_restriction_def unrestricted_def not_less split: sum.splits if_splits option.splits)

lemma resolve_global: "resolve_channel_id env c ev k = Inr ch \<Longrightarrow> is_global_only_kind k \<Longrightarrow> ch = None"
  by (auto simp: resolve_channel_id_def and_then_eq_Ok)

lemma check_channel_scope_Ok:
  assumes "check_channel_scope auth k ch = Inr u"
  shows "requires_h_channel_scope k \<longrightarrow> ch \<noteq> None"
    "case ch of Some ch_id \<Rightarrow> (case ia_channel_ids auth of Some allowed \<Rightarrow> ch_id \<in> set allowed | None \<Rightarrow> True)
     | None \<Rightarrow> ia_channel_ids auth = None"
  using assms
  by (auto simp: check_channel_scope_def and_then_eq_Ok check_token_channel_access_def map_err_eq
      split: option.splits if_splits)

lemma membership_Ok:
  "check_channel_membership env c ch pk row = Inr u \<Longrightarrow>
     ie_member env c ch pk = Inr True \<or>
     (\<exists>r. (row = Some r \<or> row = None \<and> ie_channel_again env c ch = Some r) \<and> cr_visibility r = ''open'')"
  by (auto simp: check_channel_membership_def Let_def split: sum.splits bool.splits option.splits if_splits)

lemma check_archived_Ok:
  "check_archived env c ev k (Some ch) = Inr u \<Longrightarrow>
     is_unarchive ev k \<or> (\<forall>row. ie_channel env c ch = Some row \<longrightarrow> \<not> cr_archived row)"
  by (auto simp: check_archived_def split: if_splits option.splits)

definition admitted ::
  "'u ingest_env \<Rightarrow> TenantContext \<Rightarrow> IngestAuth \<Rightarrow> signed_event \<Rightarrow> u32 \<Rightarrow> uuid option \<Rightarrow> bool" where
  "admitted env tenant auth sev k ch \<longleftrightarrow>
     (let c = tc_community tenant; ev = nostr_event.truncate sev
      in envelope_ok env auth sev k \<and> scope_ok auth ev k \<and> \<not> routed_early k \<and>
         (is_relay_admin_kind k \<or> unrestricted env c (ia_pubkey auth)) \<and>
         (is_global_only_kind k \<longrightarrow> ch = None) \<and> (requires_h_channel_scope k \<longrightarrow> ch \<noteq> None) \<and>
         resolve_channel_id env c ev k = Inr ch \<and> check_channel_scope auth k ch = Inr () \<and>
         check_membership env c auth k ch = Inr ())"

lemma admit_Inr:
  assumes "admit env hs tenant auth sev k st = (Inr ch, st')"
  shows "admitted env tenant auth sev k ch"
proof -
  have r: "check_envelope env auth sev k = Inr ()" "check_scope auth (nostr_event.truncate sev) k = Inr ()"
    "\<exists>st1 st2. route_early hs tenant auth (nostr_event.truncate sev) k st1 = (Inr (), st2)"
    "(if \<not> is_moderation_command_kind k \<and> \<not> is_relay_admin_kind k then check_restriction env tenant auth else Ok ()) = Inr ()"
    "resolve_channel_id env (tc_community tenant) (nostr_event.truncate sev) k = Inr ch"
    "check_channel_scope auth k ch = Inr ()" "check_membership env (tc_community tenant) auth k ch = Inr ()"
    using assms by (auto simp: admit_def Let_def)
  have "\<not> routed_early k" using r(3) route_early_Inr by blast
  moreover from this have "is_relay_admin_kind k \<or> unrestricted env (tc_community tenant) (ia_pubkey auth)"
    using r(4) check_restriction_Ok by (auto simp: routed_early_def split: if_splits)
  ultimately show ?thesis
    using r check_envelope_Ok [OF r(1)] check_scope_Ok [OF r(2)] resolve_global [OF r(5)] check_channel_scope_Ok(1) [OF r(6)]
    by (simp add: admitted_def Let_def)
qed

lemma prepare_Inr:
  assumes "prepare env hs tenant ev k ch st = (Inr res, st')"
  shows "\<not> is_relay_admin_kind k" "k \<noteq> KIND_NIP43_LEAVE_REQUEST" "k \<noteq> KIND_PUSH_LEASE"
    "check_archived env (tc_community tenant) ev k ch = Inr ()"
proof -
  have r: "\<exists>a st1 st2. route_relay_commands env hs tenant ev k st1 = (Inr a, st2)"
    "\<exists>a. check_archived env (tc_community tenant) ev k ch = Inr a"
    "\<exists>a st1 st2. (if k = KIND_PUSH_LEASE then accept_push_lease hs tenant ev else return_step ()) st1 = (Inr a, st2)"
    using assms unfolding prepare_def Let_def bind_step_Inr check_Inr by (elim exE conjE, blast)+
  show "check_archived env (tc_community tenant) ev k ch = Inr ()" using r(2) by simp
  show "\<not> is_relay_admin_kind k" "k \<noteq> KIND_NIP43_LEAVE_REQUEST"
    using r(1) by (auto simp: route_relay_commands_def leave_relay_def split: if_splits)
  show "k \<noteq> KIND_PUSH_LEASE"
    using r(3) by (auto simp: accept_push_lease_def split: if_splits)
qed

lemma adds_none: "adds_calls (\<lambda>x. \<not> is_store x) st st' \<Longrightarrow> x \<in> set (is_calls st') \<Longrightarrow> is_store x \<Longrightarrow> x \<in> set (is_calls st)"
  by (auto simp: adds_calls_def list_all_iff)

lemma adds_only:
  "adds_calls (\<lambda>x. is_store x \<longrightarrow> x = CallStore ch) st st' \<Longrightarrow> x \<in> set (is_calls st') \<Longrightarrow> is_store x \<Longrightarrow>
     x \<notin> set (is_calls st) \<Longrightarrow> x = CallStore ch"
  by (auto simp: adds_calls_def list_all_iff)

lemma store_steps:
  assumes run: "ingest_event env hs tenant sev auth db = (e, calls, db')" and store: "CallStore ch \<in> set calls"
  defines "k \<equiv> event_kind_u32 (nostr_event.truncate sev)"
  shows "admitted env tenant auth sev k ch \<and>
    (\<exists>st1 st2 res. prepare env hs tenant (nostr_event.truncate sev) k ch st1 = (Inr res, st2))"
proof -
  let ?ev = "nostr_event.truncate sev" and ?st = "\<lparr>is_db = db, is_calls = []\<rparr>"
  obtain r st' where inner: "ingest_event_inner env hs tenant sev auth ?st = (r, st')"
    by (cases "ingest_event_inner env hs tenant sev auth ?st")
  then have calls: "CallStore ch \<in> set (is_calls st')"
    using run store by (auto simp: ingest_event_def split: sum.splits)
  have inner': "bind_step (admit env hs tenant auth sev k) (\<lambda>ch. bind_step (prepare env hs tenant ?ev k ch) (\<lambda>(meta, pre).
      if k = KIND_REACTION then store_reaction env hs tenant ?ev ch meta
      else bind_step (store_event env hs tenant ?ev k ch meta pre) (after_store hs tenant ?ev k meta))) ?st = (r, st')"
    unfolding k_def using inner by (simp only: ingest_event_inner_def Let_def)
  show ?thesis
  proof (cases rule: bind_step_cases [OF inner'])
    case (1 e)
    have "CallStore ch \<in> set (is_calls ?st)"
      using adds_none [OF adds.withinD [OF admit_no_store 1(1)] calls] by simp
    then show ?thesis by simp
  next
    case (2 ch0 st1)
    have n1: "CallStore ch \<notin> set (is_calls st1)"
      using adds_none [OF adds.withinD [OF admit_no_store 2(1)]] by fastforce
    show ?thesis
    proof (cases rule: bind_step_cases [OF 2(2)])
      case (1 e)
      have "CallStore ch \<in> set (is_calls st1)"
        using adds_none [OF adds.withinD [OF prepare_no_store 1(1)] calls] by simp
      with n1 show ?thesis by simp
    next
      case P: (2 res st2)
      have n2: "CallStore ch \<notin> set (is_calls st2)"
        using adds_none [OF adds.withinD [OF prepare_no_store P(1)]] n1 by fastforce
      obtain meta pre where res: "res = (meta, pre)" by (cases res)
      have "stores_in ch0 (if k = KIND_REACTION then store_reaction env hs tenant ?ev ch0 meta
          else bind_step (store_event env hs tenant ?ev k ch0 meta pre) (after_store hs tenant ?ev k meta))"
        by (simp add: store_reaction_in store_event_in after_store_in adds.within_bind)
      from adds_only [OF adds.withinD [OF this P(2) [unfolded res prod.case]] calls _ n2]
      have "ch = ch0" by simp
      then show ?thesis using admit_Inr [OF 2(1)] P(1) by blast
    qed
  qed
qed

lemma permits:
  assumes "admitted env tenant auth sev k (Some ch)"
    "check_archived env (tc_community tenant) (nostr_event.truncate sev) k (Some ch) = Inr ()"
  shows "channel_permits env (tc_community tenant) auth (nostr_event.truncate sev) k ch"
proof -
  have a: "check_channel_scope auth k (Some ch) = Inr ()"
    "check_membership env (tc_community tenant) auth k (Some ch) = Inr ()"
    using assms(1) by (simp_all add: admitted_def Let_def)
  have "skips_membership k \<or>
      check_channel_membership env (tc_community tenant) ch (ia_pubkey auth) (ie_channel env (tc_community tenant) ch) = Inr ()"
    using a(2) by (simp add: check_membership_def split: if_splits)
  then have "skips_membership k \<or> ie_member env (tc_community tenant) ch (ia_pubkey auth) = Inr True \<or>
      (\<exists>row. (ie_channel env (tc_community tenant) ch = Some row \<or>
          ie_channel env (tc_community tenant) ch = None \<and> ie_channel_again env (tc_community tenant) ch = Some row) \<and>
        cr_visibility row = ''open'')"
    using membership_Ok by blast
  moreover have "case ia_channel_ids auth of Some allowed \<Rightarrow> ch \<in> set allowed | None \<Rightarrow> True"
    using check_channel_scope_Ok(2) [OF a(1)] by simp
  moreover have "is_unarchive (nostr_event.truncate sev) k \<or>
      (\<forall>row. ie_channel env (tc_community tenant) ch = Some row \<longrightarrow> \<not> cr_archived row)"
    by (rule check_archived_Ok [OF assms(2)])
  ultimately show ?thesis unfolding channel_permits_def by blast
qed

lemma sint_small64: "- (2 ^ 63) \<le> d \<Longrightarrow> d < 2 ^ 63 \<Longrightarrow> sint (word_of_int d :: u64) = d"
  by (simp add: signed_of_int signed_take_bit_int_eq_self)

text \<open>
  The drift check on a clock between the first quarter of an hour of 1970 and the end of the signed range:
  it holds within 900 s, and for the one time at which the difference is the least signed number.
\<close>

lemma drift_within:
  assumes created: "created < 2 ^ 64" and now: "900 \<le> now" "now < 2 ^ 63"
  shows "drift created now \<le> 900 \<longleftrightarrow> \<bar>int created - int now\<bar> \<le> 900 \<or> created = now + 2 ^ 63"
proof -
  let ?d = "int created - int now"
  have w: "(word_of_nat created - word_of_nat now :: u64) = word_of_int ?d" by simp
  have neg: "(- word_of_int x :: u64) = word_of_int (- x)" for x by simp
  have up: "(word_of_int x :: u64) = word_of_int (x - 2 ^ 64)" for x
    by (simp add: word_of_int_eq_iff)
  have range: "- (2 ^ 63) < ?d" "?d < 2 ^ 64 - 900" using assms by simp_all
  consider (small) "?d < 2 ^ 63" | (edge) "?d = 2 ^ 63" | (large) "2 ^ 63 < ?d" by linarith
  then show ?thesis
  proof cases
    case small
    have "drift created now = \<bar>?d\<bar>"
      unfolding drift_def w Let_def neg using small range by (simp add: sint_small64 del: of_int_diff of_int_minus)
    then show ?thesis using small by auto
  next
    case edge
    have "drift created now = - (2 ^ 63)" unfolding drift_def w Let_def edge by simp
    then show ?thesis using edge by auto
  next
    case large
    have "drift created now = 2 ^ 64 - ?d"
      unfolding drift_def w Let_def neg up [of ?d] using large range
      by (simp add: sint_small64 del: of_int_diff of_int_minus)
    then show ?thesis using large range by auto
  qed
qed

text \<open>
  C15. An event reaches the store only through the gates: it is authentic, within 900 s of the clock, at
  most 256 KiB, of a kind that is stored and not the relay's own, its author is the authenticated key (a
  gift wrap over WebSocket apart) and holds the scope its kind needs, the key is neither banned nor timed
  out; a kind that needs a channel has one and a global kind has none; with a channel, the token allows
  it, the key is a member or the channel is open (six kinds whose own validators decide apart), and the
  row of the channel, if its lookup gave one, is not archived (an unarchive apart): a lookup that fails
  does not stop the write here. Without a channel, the token is not bound to channels. The time has one
  exception, from the wrapping difference of the check: a creation time exactly \<open>2^63\<close> s after the clock
  passes. The clock is taken to be after the first quarter of an hour of 1970.
\<close>

theorem stored_only_through_gates:
  assumes "ingest_event env hs tenant sev auth db = (e, calls, db')" "CallStore ch \<in> set calls"
    and "ev_created_at sev < 2 ^ 64" "900 \<le> ie_now env" "ie_now env < 2 ^ 63"
  shows "let k = event_kind_u32 (nostr_event.truncate sev); c = tc_community tenant; ev = nostr_event.truncate sev
    in envelope_ok env auth sev k \<and>
       (\<bar>int (ev_created_at sev) - int (ie_now env)\<bar> \<le> 900 \<or> ev_created_at sev = ie_now env + 2 ^ 63) \<and> scope_ok auth ev k \<and> unrestricted env c (ia_pubkey auth) \<and>
       \<not> routed_early k \<and> \<not> is_relay_admin_kind k \<and> k \<noteq> KIND_NIP43_LEAVE_REQUEST \<and> k \<noteq> KIND_PUSH_LEASE \<and>
       (is_global_only_kind k \<longrightarrow> ch = None) \<and> (requires_h_channel_scope k \<longrightarrow> ch \<noteq> None) \<and>
       (case ch of Some ch_id \<Rightarrow> channel_permits env c auth ev k ch_id | None \<Rightarrow> ia_channel_ids auth = None)"
proof -
  let ?k = "event_kind_u32 (nostr_event.truncate sev)" and ?ev = "nostr_event.truncate sev"
  have a: "admitted env tenant auth sev ?k ch" using store_steps [OF assms(1,2)] by blast
  obtain st1 st2 res where p: "prepare env hs tenant ?ev ?k ch st1 = (Inr res, st2)"
    using store_steps [OF assms(1,2)] by blast
  have "case ch of Some ch_id \<Rightarrow> channel_permits env (tc_community tenant) auth ?ev ?k ch_id | None \<Rightarrow> ia_channel_ids auth = None"
  proof (cases ch)
    case None
    have "check_channel_scope auth ?k ch = Inr ()" using a by (simp add: admitted_def Let_def)
    from check_channel_scope_Ok(2) [OF this] show ?thesis using None by simp
  next
    case (Some ch_id)
    then show ?thesis using permits a prepare_Inr(4) [OF p] by simp
  qed
  moreover have "drift (ev_created_at sev) (ie_now env) \<le> 900"
    using a by (simp add: admitted_def envelope_ok_def Let_def MAX_TIMESTAMP_DRIFT_SECS_def)
  ultimately show ?thesis
    using a prepare_Inr(1-3) [OF p] drift_within [OF assms(3-5)] by (simp add: admitted_def Let_def)
qed

section \<open>How a request ends\<close>

definition panic_free :: "'a step \<Rightarrow> bool" where
  "panic_free m \<longleftrightarrow> (\<forall>st st'. m st \<noteq> (Inl Panicked, st'))"

lemma panic_free_bind: "panic_free m \<Longrightarrow> (\<And>a. panic_free (f a)) \<Longrightarrow> panic_free (bind_step m f)"
  unfolding panic_free_def by (metis bind_step_Inl)

lemma panic_free_basic:
  "panic_free (return_step a)" "panic_free (answer x)" "panic_free (accepted ev)" "panic_free (check r)"
  "panic_free (call name f)"
  by (auto simp: panic_free_def call_Inr)

lemma panic_free_only_if: "panic_free m \<Longrightarrow> panic_free (only_if b m)"
  by (simp add: only_if_def panic_free_basic)

lemma panic_free_handled: "panic_free (handled err name f)"
  unfolding handled_def by (intro panic_free_bind panic_free_basic)

lemma ends_bind:
  assumes "bind_step m f st = (r, st')"
    and "panic_free m"
    and "\<And>x. r = Inl (Answer x) \<Longrightarrow> thesis"
    and "\<And>a st1. m st = (Inr a, st1) \<Longrightarrow> f a st1 = (r, st') \<Longrightarrow> thesis"
  shows thesis
  using assms(1)
proof (cases rule: bind_step_cases)
  case (1 e)
  then show ?thesis using assms(2,3) unfolding panic_free_def by (cases e) auto
next
  case (2 a st1)
  then show ?thesis using assms(4) by blast
qed

lemmas panic_free_rules = panic_free_bind panic_free_basic panic_free_only_if panic_free_handled

text \<open>A turn metric that passed validation names an owner that decodes.\<close>

lemma metric_panic_free:
  "panic_free (bind_step (check (invalid (validate_agent_turn_metric_envelope ev))) (\<lambda>_. check_metric_owner env c ev))"
proof (cases "validate_agent_turn_metric_envelope ev = Inr ()")
  case False
  then have "invalid (validate_agent_turn_metric_envelope ev) \<noteq> Inr u" for u by simp
  then show ?thesis by (auto simp: panic_free_def bind_step_Inl)
next
  case True
  then obtain p where p: "slice_values ''p'' ev = [p]" "is_lower_hex64 p"
    by (auto simp: validate_agent_turn_metric_envelope_def Let_def length_Suc_conv split: if_splits)
  have "list_all is_ascii_hexdigit p"
    using p(2) by (auto simp: is_lower_hex64_def list_all_iff is_lower_hexdigit_def is_ascii_hexdigit_def Let_def)
  moreover have "even (length p)" using p(2) by (simp add: is_lower_hex64_def)
  ultimately have "panic_free (check_metric_owner env c ev)"
    by (simp add: check_metric_owner_def p(1) panic_free_basic)
  then show ?thesis by (intro panic_free_rules)
qed

lemma check_content_panic_free: "panic_free (check_content_of_kind env c ev k)"
  unfolding check_content_of_kind_def by (intro panic_free_rules metric_panic_free)

lemma admit_panic_free: "panic_free (admit env hs tenant auth sev k)"
proof -
  have "panic_free (route_early hs tenant auth ev k)" for ev
    unfolding route_early_def by (auto intro!: panic_free_rules)
  then show ?thesis unfolding admit_def Let_def by (intro panic_free_rules)
qed

lemma prepare_panic_free: "panic_free (prepare env hs tenant ev k ch)"
proof -
  have "panic_free (route_relay_commands env hs tenant ev k)"
    unfolding route_relay_commands_def leave_relay_def by (auto intro!: panic_free_rules)
  moreover have "panic_free (run_validators hs tenant ev k)"
    unfolding run_validators_def Let_def by (intro panic_free_rules)
  moreover have "panic_free (pre_create_channel env hs tenant ev ch)"
    unfolding pre_create_channel_def Let_def by (cases ch) (auto intro!: panic_free_rules)
  moreover have "panic_free (accept_push_lease hs tenant ev)"
    unfolding accept_push_lease_def by (intro panic_free_rules)
  moreover have "panic_free (check_imeta hs tenant ev)"
    unfolding check_imeta_def Let_def by (intro panic_free_rules)
  ultimately show ?thesis
    unfolding prepare_def Let_def by (auto intro!: panic_free_rules check_content_panic_free)
qed

lemma store_event_panic_free: "panic_free (store_event env hs tenant ev k ch meta pre)"
  unfolding store_event_def insert_plain_def Let_def
  by (auto intro!: panic_free_rules split: sum.splits option.splits)

lemma after_store_ends: "after_store hs tenant ev k meta res st = (r, st') \<Longrightarrow> \<exists>x. r = Inl (Answer x)"
  by (cases res; cases r)
    (auto simp: after_store_def dispatch_def bind_step_Inl only_if_def call_Inr split: if_splits)

lemma insert_row_present:
  "insert_row row db = (b, db') \<Longrightarrow>
     \<exists>r \<in> set (db_events db'). er_community r = er_community row \<and> ev_id (er_event r) = ev_id (er_event row)"
  by (auto simp: insert_row_def list_ex_iff split: if_splits)

lemma insert_tx_present:
  assumes "insert_event_with_thread_metadata_tx ts now c ev ch meta db = Inr (res, db')"
  shows "\<exists>r \<in> set (db_events (in_events db')). er_community r = c \<and> ev_id (er_event r) = ev_id ev"
proof -
  let ?row = "new_row now c ev ch (extract_d_tag ev) (extract_not_before ev)"
  obtain b events where ins: "insert_row ?row (in_events db) = (b, events)" by (cases "insert_row ?row (in_events db)")
  then have "in_events db' = events"
    using assms by (auto simp: insert_event_with_thread_metadata_tx_def Let_def split: if_splits)
  then show ?thesis using insert_row_present [OF ins] by (simp add: new_row_def)
qed

lemma insert_mentions_events: "db_events (snd (insert_mentions ts c ev db)) = db_events db"
  by (simp add: insert_mentions_def Let_def)

lemma add_mentions_events: "db_events (in_events (add_mentions ts mr c ev b db)) = db_events (in_events db)"
  by (simp add: add_mentions_def insert_mentions_events)

lemma settle_tx_Ok: "settle_tx fate db res = (Inr a, db') \<Longrightarrow> a = fst res \<and> db' = snd res"
  by (cases fate) (auto simp: settle_tx_def)

lemma reaction_stored:
  assumes "insert_reaction_event_with_thread_metadata ts fate mr now c ev ch meta target actor emoji db =
    (Inr (Inserted stored b), db')"
  shows "\<exists>r \<in> set (db_events (in_events db')). er_community r = c \<and> ev_id (er_event r) = ev_id ev"
proof -
  note run = assms [unfolded insert_reaction_event_with_thread_metadata_def]
  obtain at where at: "target_created_at c target (in_events db) = Some at"
    using run by (cases "target_created_at c target (in_events db)") (auto dest!: settle_tx_Ok)
  obtain w rs where add: "add_reaction_tx c target at actor emoji (Some (ev_id ev)) (in_reactions db) = (w, rs)"
    by (cases "add_reaction_tx c target at actor emoji (Some (ev_id ev)) (in_reactions db)")
  have w: w using run at add by (cases w) (auto dest!: settle_tx_Ok)
  obtain res where tx: "insert_event_with_thread_metadata_tx ts now c ev ch meta (db\<lparr>in_reactions := rs\<rparr>) = Inr res"
    using run at add w
    by (cases "insert_event_with_thread_metadata_tx ts now c ev ch meta (db\<lparr>in_reactions := rs\<rparr>)") auto
  obtain r db1 where fate: "settle_tx fate db res = (Inr r, db1)"
    using run at add w tx by (cases "settle_tx fate db res") (auto split: sum.splits)
  then have "db1 = snd res" by (simp add: settle_tx_Ok)
  moreover have "db' = add_mentions ts mr c ev (snd r) db1"
    using run at add w tx fate by (auto split: prod.splits)
  ultimately show ?thesis
    using insert_tx_present [of ts now c ev ch meta "db\<lparr>in_reactions := rs\<rparr>" "fst res" "snd res"] tx
    by (simp add: add_mentions_events)
qed

lemma after_reaction_ends:
  "after_reaction hs tenant ev ch outcome st = (r, st') \<Longrightarrow> (\<exists>x. r = Inl (Answer x)) \<or>
     (r = Inl Panicked \<and> ch = None \<and> st' = st \<and> (\<exists>stored b. outcome = Inserted stored b))"
  by (cases outcome; cases r)
    (auto simp: after_reaction_def dispatch_def bind_step_Inl call_Inr split: if_splits)

lemma store_reaction_ends:
  assumes "store_reaction env hs tenant ev ch meta st = (r, st')"
  shows "(\<exists>x. r = Inl (Answer x)) \<or>
    (r = Inl Panicked \<and> ch = None \<and> is_calls st' = is_calls st @ [CallStore None] \<and>
     (\<exists>row \<in> set (db_events (in_events (is_db st'))). er_community row = tc_community tenant \<and>
        ev_id (er_event row) = ev_id ev))"
  using assms unfolding store_reaction_def Let_def
proof (elim ends_bind)
  fix target u st1 st2 st3 st4 and r1 :: "DbError + ReactionEventInsertOutcome" and outcome
  let ?emoji = "if ev_content ev = [] then ''+'' else ev_content ev"
  assume "check (map_err (\<lambda>e. Internal (''error: '' @ ie_show_db env e)) r1) st3 = (Inr outcome, st4)"
  then have "r1 = Inr outcome" "st4 = st3" by (simp_all add: map_err_eq)
  moreover assume "check (ok_or (find_tag ''e'' hex32 (rev (ev_tags ev)))
      (Rejected ''invalid: reaction must reference a target event via e tag'')) st = (Inr target, st1)"
    and "check (reject_if (MAX_REACTION_EMOJI_CHARS < length (utf8_chars ?emoji))
       (Rejected (''invalid: reaction emoji exceeds '' @ show_nat MAX_REACTION_EMOJI_CHARS @ '' characters (got '' @
          show_nat (length (utf8_chars ?emoji)) @ '')''))) st1 = (Inr u, st2)"
  then have "st2 = st" by (auto dest: check_state)
  moreover assume "call (CallStore ch) (insert_reaction_event_with_thread_metadata (ie_timestamp_ok env) (ie_fate env)
       (ie_mentions_reached env) (ie_instant env) (tc_community tenant) ev ch (map_option as_params meta) target
       (effective_message_author ev (ie_relay_pubkey env)) ?emoji) st2 = (Inr r1, st3)"
  ultimately have calls: "is_calls st4 = is_calls st @ [CallStore ch]"
    and stored: "insert_reaction_event_with_thread_metadata (ie_timestamp_ok env) (ie_fate env) (ie_mentions_reached env)
      (ie_instant env) (tc_community tenant) ev ch (map_option as_params meta) target
      (effective_message_author ev (ie_relay_pubkey env)) ?emoji (is_db st) = (Inr outcome, is_db st4)"
    by (auto simp: call_Inr)
  assume "after_reaction hs tenant ev ch outcome st4 = (r, st')"
  from after_reaction_ends [OF this] show ?thesis
  proof (elim disjE conjE exE)
    fix x b
    assume "outcome = Inserted x b"
    then have "\<exists>row \<in> set (db_events (in_events (is_db st4))). er_community row = tc_community tenant \<and> ev_id (er_event row) = ev_id ev"
      using stored reaction_stored by blast
    moreover assume "r = Inl Panicked" "ch = None" "st' = st4"
    ultimately show ?thesis using calls by blast
  qed blast
qed (auto intro: panic_free_rules)

text \<open>
  C17. Every request ends: with an answer, or in the one panic of the pipeline, which comes after a
  reaction to an event without channel has been stored: the reaction is in the table, the store was the
  last call, and neither the dispatch to subscribers nor the answer follows.
\<close>

theorem request_ends:
  assumes "ingest_event env hs tenant sev auth db = (e, calls, db')"
  shows "(\<exists>x. e = Some (Answer x)) \<or>
    (e = Some Panicked \<and> event_kind_u32 (nostr_event.truncate sev) = KIND_REACTION \<and>
     calls \<noteq> [] \<and> last calls = CallStore None \<and>
     (\<exists>row \<in> set (db_events (in_events db')). er_community row = tc_community tenant \<and>
        ev_id (er_event row) = ev_id sev))"
proof -
  let ?ev = "nostr_event.truncate sev" and ?st = "\<lparr>is_db = db, is_calls = []\<rparr>"
  let ?k = "event_kind_u32 ?ev"
  obtain r st' where inner: "ingest_event_inner env hs tenant sev auth ?st = (r, st')"
    by (cases "ingest_event_inner env hs tenant sev auth ?st")
  then have out: "e = (case r of Inl x \<Rightarrow> Some x | Inr _ \<Rightarrow> None)" "calls = is_calls st'" "db' = is_db st'"
    using assms by (auto simp: ingest_event_def split: sum.splits)
  have early: "\<exists>x. r = Inl (Answer x)" if "r = Inl y" "y \<noteq> Panicked" for y using that by (cases y) auto
  have "(\<exists>x. r = Inl (Answer x)) \<or> (r = Inl Panicked \<and> ?k = KIND_REACTION \<and> calls \<noteq> [] \<and> last calls = CallStore None \<and>
     (\<exists>row \<in> set (db_events (in_events db')). er_community row = tc_community tenant \<and> ev_id (er_event row) = ev_id sev))"
    using inner unfolding ingest_event_inner_def Let_def
  proof (cases rule: bind_step_cases)
    case (1 y)
    then show ?thesis using admit_panic_free early unfolding panic_free_def by metis
  next
    case (2 ch st1)
    from 2(2) show ?thesis
    proof (cases rule: bind_step_cases)
      case (1 y)
      then show ?thesis using prepare_panic_free early unfolding panic_free_def by metis
    next
      case P: (2 res st2)
      obtain meta pre where res: "res = (meta, pre)" by (cases res)
      show ?thesis
      proof (cases "?k = KIND_REACTION")
        case True
        then have "store_reaction env hs tenant ?ev ch meta st2 = (r, st')" using P(2) res by simp
        from store_reaction_ends [OF this] show ?thesis using True out by auto
      next
        case False
        then have "bind_step (store_event env hs tenant ?ev ?k ch meta pre) (after_store hs tenant ?ev ?k meta) st2 = (r, st')"
          using P(2) res by simp
        then show ?thesis
        proof (cases rule: bind_step_cases)
          case (1 y)
          then show ?thesis using store_event_panic_free early unfolding panic_free_def by metis
        next
          case (2 a st3)
          then show ?thesis using after_store_ends by blast
        qed
      qed
    qed
  qed
  then show ?thesis using out(1) by auto
qed

section \<open>A request that panics\<close>

text \<open>A library that accepts every event, an environment that finds one stored text note, handlers that do nothing.\<close>

definition trusting_lib :: "unit auth_lib" where
  "trusting_lib = \<lparr>hl_verify_id = (\<lambda>_. True), hl_event_id = ev_id, hl_verify_signature = (\<lambda>_. True),
     hl_event_of_json = (\<lambda>_. Err []), hl_base64_decode = Some, hl_sha256_hex = (\<lambda>b. b), hl_pubkey_from_hex = Some,
     hl_to_lowercase = to_ascii_lowercase, hl_debug = concat, hl_url_parse = (\<lambda>_. None), hl_host_str = (\<lambda>_. None),
     hl_set_host = (\<lambda>u _. u), hl_path = (\<lambda>_. []), hl_set_path = (\<lambda>u _. u), hl_url_string = (\<lambda>_. [])\<rparr>"

definition note_id :: event_id where "note_id = replicate 64 (CHR ''a'')"

definition text_note :: nostr_event where
  "text_note = \<lparr>ev_id = note_id, ev_pubkey = ''bob'', ev_created_at = 90, ev_kind = 1, ev_tags = [], ev_content = ''hi''\<rparr>"

definition reaction_to_note :: signed_event where
  "reaction_to_note = \<lparr>ev_id = ''e9'', ev_pubkey = ''alice'', ev_created_at = 100, ev_kind = 7,
     ev_tags = [\<lparr>tag_kind = ''e'', tag_content = Some note_id, tag_slice = [''e'', note_id]\<rparr>], ev_content = ''+'',
     ev_sig = ''sig''\<rparr>"

definition note_db :: ingest_db where
  "note_db = \<lparr>in_events = \<lparr>db_events = [new_row 90 (CommunityId ''c1'') text_note None None None], db_mentions = [],
     db_watermarks = []\<rparr>, in_threads = [], in_reactions = []\<rparr>"

definition quiet_env :: "unit ingest_env" where
  "quiet_env = \<lparr>ie_lib = trusting_lib, ie_verify_joins = True, ie_show_verification = (\<lambda>_. []), ie_show_db = (\<lambda>_. []),
     ie_show_list = concat, ie_now_ms = 1000000, ie_instant = 100, ie_timestamp_ok = (\<lambda>_. True), ie_parse_uuid = Some,
     ie_is_json = (\<lambda>_. True), ie_relay_pubkey = ''relay'', ie_require_relay_membership = False,
     ie_max_not_before_delta = 0, ie_ephemeral_ttl_override = None, ie_restriction = (\<lambda>_ _. Ok (False, None)),
     ie_event = (\<lambda>c i. Ok (get_event_by_id (in_events note_db) c i)), ie_thread = (\<lambda>_ _. Ok None),
     ie_member = (\<lambda>_ _ _. Ok False), ie_channel = (\<lambda>_ _. None), ie_channel_again = (\<lambda>_ _. None),
     ie_agent_owner = (\<lambda>_ _ _. Ok False), ie_fate = TxAnswers, ie_mentions_reached = True\<rparr>"

definition quiet_handlers :: ingest_handlers where
  "quiet_handlers = \<lparr>ih_command = (\<lambda>_ _ _ db. (Err (Internal []), db)), ih_feedback = (\<lambda>_ _ db. (Ok (), db)),
     ih_report = (\<lambda>_ _ db. (Ok (), db)), ih_moderation = (\<lambda>_ _ db. (Ok (), db)), ih_relay_admin = (\<lambda>_ _ db. (Ok (), db)),
     ih_remove_relay_member = (\<lambda>_ _ db. (Ok NotFound, db)), ih_announce_leave = (\<lambda>_ _ db. ((), db)),
     ih_validate_admin = (\<lambda>_ _ db. (Ok (), db)), ih_identity_archive = (\<lambda>_ _ db. (Ok (), db)),
     ih_validate_deletion = (\<lambda>_ _ db. (Ok (), db)), ih_create_channel = (\<lambda>_ _ _ _ _ _ _ _ db. (Ok True, db)),
     ih_soft_delete_channel = (\<lambda>_ _ _ db. ((), db)), ih_push_accept = (\<lambda>_ _ db. (Ok Accepted, db)),
     ih_imeta = (\<lambda>_ _ _ db. (Ok (), db)), ih_side_effects = (\<lambda>_ _ db. ((), db)),
     ih_thread_summary = (\<lambda>_ _ db. ((), db)), ih_dispatch = (\<lambda>_ _ _ db. ((), db))\<rparr>"

abbreviation "quiet_tenant \<equiv> \<lparr>tc_community = CommunityId ''c1'', tc_host = ''a.example''\<rparr>"

abbreviation "note_auth \<equiv> AuthNip42 ''alice'' [MessagesWrite] None ''conn''"

lemma reaction_kind: "event_kind_u32 (nostr_event.truncate reaction_to_note) = 7"
  by code_simp

lemma reaction_kinds:
  "\<not> routed_early 7" "\<not> is_relay_admin_kind 7" "\<not> is_admin_kind 7" "\<not> is_identity_archive_request_kind 7"
  "\<not> requires_h_channel_scope 7" "(7::u32) = KIND_REACTION"
  "(7::u32) \<notin> {KIND_NIP43_LEAVE_REQUEST, KIND_DELETION, KIND_NIP29_DELETE_EVENT, KIND_NIP29_CREATE_GROUP,
     KIND_NIP29_JOIN_REQUEST, KIND_PUSH_LEASE, KIND_PROFILE, KIND_STREAM_MESSAGE_EDIT, KIND_FORUM_VOTE,
     KIND_STREAM_MESSAGE_DIFF, KIND_AGENT_ENGRAM, KIND_AGENT_TURN_METRIC, KIND_EVENT_REMINDER, KIND_PERSONA,
     KIND_TEAM_CATALOG}"
  by code_simp+

lemma reaction_scope:
  "\<not> is_relay_only_kind 7" "\<not> is_moderation_command_kind 7" "\<not> is_global_only_kind 7"
  "required_scope_for_kind 7 ev = Inr MessagesWrite" "drift 100 1000 = 900"
  "(7::u32) \<notin> {KIND_AUTH, KIND_MEMBER_ADDED_NOTIFICATION, KIND_MEMBER_REMOVED_NOTIFICATION}"
  "find_tag ''e'' hex32 (rev (ev_tags (nostr_event.truncate reaction_to_note))) = Some note_id"
  "get_event_by_id (in_events note_db) (CommunityId ''c1'') note_id = Some (with_received_at text_note 90 None True)"
  by code_simp+

lemma reaction_gates:
  "check_envelope quiet_env note_auth reaction_to_note 7 = Inr ()"
  "check_scope note_auth (nostr_event.truncate reaction_to_note) 7 = Inr ()"
  "check_restriction quiet_env quiet_tenant note_auth = Inr ()"
  "resolve_channel_id quiet_env (CommunityId ''c1'') (nostr_event.truncate reaction_to_note) 7 = Inr None"
  "check_channel_scope note_auth 7 None = Inr ()"
  using reaction_kinds reaction_scope
  by (simp_all add: check_envelope_def check_scope_def check_restriction_def resolve_channel_id_def check_channel_scope_def
      reject_if_def Let_def verify_submitted_def quiet_env_def trusting_lib_def verify_event_def invalid_def rejected_def
      ie_now_def reaction_to_note_def MAX_TIMESTAMP_DRIFT_SECS_def MAX_EVENT_CONTENT_BYTES_def derive_reaction_channel_def
      with_received_at_def)

lemma bind_stepI: "m st = (Inr a, st1) \<Longrightarrow> f a st1 = (r, st') \<Longrightarrow> bind_step m f st = (r, st')"
  by (simp add: bind_step_def)

lemma reaction_admitted:
  "admit quiet_env quiet_handlers quiet_tenant note_auth reaction_to_note 7 st = (Inr None, st)"
  using reaction_kinds(1,2)
  by (simp add: admit_def Let_def reaction_gates route_early_def routed_early_def check_membership_def)

lemma reaction_prepared:
  "prepare quiet_env quiet_handlers quiet_tenant (nostr_event.truncate reaction_to_note) 7 None st = (Inr (None, None), st)"
proof -
  have "check_imeta quiet_handlers quiet_tenant (nostr_event.truncate reaction_to_note) st = (Inr (), st)"
    by (simp add: check_imeta_def Let_def only_if_def reaction_to_note_def nostr_event.defs)
  then show ?thesis
    using reaction_kinds
    by (simp add: prepare_def Let_def route_relay_commands_def run_validators_def only_if_def check_archived_def
        check_deletion_targets_def check_content_of_kind_def)
qed

definition reaction_tables :: ingest_db where
  "reaction_tables = snd (insert_reaction_event_with_thread_metadata (\<lambda>_. True) TxAnswers True 100 (CommunityId ''c1'')
     (nostr_event.truncate reaction_to_note) None None note_id ''alice'' ''+'' note_db)"

lemma reaction_inserted:
  "\<exists>stored b. fst (insert_reaction_event_with_thread_metadata (\<lambda>_. True) TxAnswers True 100 (CommunityId ''c1'')
     (nostr_event.truncate reaction_to_note) None None note_id ''alice'' ''+'' note_db) = Inr (Inserted stored b)"
  by (rule exI [of _ "with_received_at (nostr_event.truncate reaction_to_note) 100 None True"], rule exI [of _ True]) code_simp

lemma reaction_runs:
  "ingest_event quiet_env quiet_handlers quiet_tenant reaction_to_note note_auth note_db =
   (Some Panicked, [CallStore None], reaction_tables)"
proof -
  obtain stored b where stored: "insert_reaction_event_with_thread_metadata (\<lambda>_. True) TxAnswers True 100 (CommunityId ''c1'')
     (nostr_event.truncate reaction_to_note) None None note_id ''alice'' ''+'' note_db = (Inr (Inserted stored b), reaction_tables)"
    using reaction_inserted unfolding reaction_tables_def by (metis prod.collapse)
  have tags: "find_tag ''e'' hex32 (rev (ev_tags (nostr_event.truncate reaction_to_note))) = Some note_id"
    and author: "effective_message_author (nostr_event.truncate reaction_to_note) ''relay'' = ''alice''"
    and body: "ev_content (nostr_event.truncate reaction_to_note) = ''+''" "length (utf8_chars ''+'') \<le> MAX_REACTION_EMOJI_CHARS"
    by code_simp+
  have "store_reaction quiet_env quiet_handlers quiet_tenant (nostr_event.truncate reaction_to_note) None None
      \<lparr>is_db = note_db, is_calls = []\<rparr> = (Inl Panicked, \<lparr>is_db = reaction_tables, is_calls = [CallStore None]\<rparr>)"
    using stored tags author body
    by (simp add: store_reaction_def Let_def bind_step_Inl call_Inr reject_if_def quiet_env_def after_reaction_def map_err_eq)
  then show ?thesis
    by (simp add: reaction_kinds(6) [symmetric] ingest_event_def ingest_event_inner_def Let_def reaction_kind bind_step_def reaction_admitted
        reaction_prepared)
qed

lemma stored_only_through_gates_witness:
  "verify_event trusting_lib reaction_to_note = Inr () \<and> unrestricted quiet_env (CommunityId ''c1'') ''alice''"
  using stored_only_through_gates [OF reaction_runs, of None]
  by (simp add: Let_def envelope_ok_def quiet_env_def ie_now_def reaction_to_note_def)

lemma request_ends_witness:
  "\<exists>row \<in> set (db_events (in_events (reaction_tables))). ev_id (er_event row) = ''e9''"
  using request_ends [OF reaction_runs] by (auto simp: reaction_to_note_def)

end
