(* ===== verification/IngestTenants.thy ===== *)
theory IngestTenants
  imports IngestProps
begin

text \<open>
  Storing a submitted event changes the tables of its own community only: the rows of the other
  communities, in the tables of events, mentions, watermarks, threads and reactions, are what they were.
\<close>

section \<open>The rows of other communities\<close>

definition other_events ::
  "CommunityId \<Rightarrow> event_db \<Rightarrow> event_row list \<times> mention_row list \<times> (coordinate \<times> int \<times> event_id) list" where
  "other_events c db =
     (filter (\<lambda>r. er_community r \<noteq> c) (db_events db), filter (\<lambda>m. mr_community m \<noteq> c) (db_mentions db),
      filter (\<lambda>w. fst (fst w) \<noteq> c) (db_watermarks db))"

definition foreign ::
  "CommunityId \<Rightarrow> ingest_db \<Rightarrow> (event_row list \<times> mention_row list \<times> (coordinate \<times> int \<times> event_id) list) \<times>
     thread_row list \<times> reaction_row list" where
  "foreign c db =
     (other_events c (in_events db), filter (\<lambda>r. tr_community r \<noteq> c) (in_threads db),
      filter (\<lambda>r. rr_community r \<noteq> c) (in_reactions db))"

lemma filter_map_same:
  "(\<And>x. P (f x) = P x) \<Longrightarrow> (\<And>x. P x \<Longrightarrow> f x = x) \<Longrightarrow> filter P (map f xs) = filter P xs"
  by (induction xs) auto

section \<open>Events\<close>

lemma others_insert_row: "er_community row = c \<Longrightarrow> other_events c (snd (insert_row row db)) = other_events c db"
  by (simp add: insert_row_def other_events_def)

lemma others_insert_row': "insert_row row db = (b, db') \<Longrightarrow> er_community row = c \<Longrightarrow> other_events c db' = other_events c db"
  using others_insert_row [of row c db] by simp

lemma new_row_community [simp]: "er_community (new_row now c ev ch d nb) = c"
  by (simp add: new_row_def)

lemma others_retire:
  assumes "\<And>r. hit r \<Longrightarrow> er_community r = c"
  shows "other_events c (snd (retire hit db)) = other_events c db"
proof -
  have "filter (\<lambda>r. er_community r \<noteq> c) (map (\<lambda>r. if hit r then r\<lparr>er_deleted := True\<rparr> else r) rows) =
      filter (\<lambda>r. er_community r \<noteq> c) rows" for rows
    by (rule filter_map_same) (auto dest: assms split: if_splits)
  then show ?thesis by (simp add: retire_def other_events_def)
qed

lemma others_mention: "filter (\<lambda>m. mr_community m \<noteq> c) (fold (\<lambda>pk ms. add_mention c eid pk ms) pks ms) =
    filter (\<lambda>m. mr_community m \<noteq> c) ms"
  by (induction pks arbitrary: ms) (simp_all add: add_mention_def Let_def)

lemma others_mentions: "other_events c (snd (insert_mentions ts c ev db)) = other_events c db"
  by (simp add: insert_mentions_def Let_def other_events_def others_mention)

lemma others_with_mentions: "other_events c (snd (with_mentions ts mr c ev res)) = other_events c (snd res)"
  by (auto simp: with_mentions_def others_mentions split: sum.splits bool.splits)

lemma others_settle: "other_events c (snd res) = other_events c db \<Longrightarrow> other_events c (snd (settle fate db res)) = other_events c db"
  by (cases fate) (simp_all add: settle_def)

lemma others_addressable_tx: "other_events c (snd (replace_addressable_tx now c ev ch db)) = other_events c db"
proof -
  let ?db1 = "snd (retire (\<lambda>r. at_address c (event_kind_i32 ev) (ev_pubkey ev) ch r \<and> \<not> er_deleted r) db)"
  have "other_events c ?db1 = other_events c db" by (rule others_retire) (simp add: at_address_def)
  moreover have "other_events c (snd (insert_row (new_row now c ev ch (extract_d_tag ev) None) ?db1)) = other_events c ?db1"
    by (simp add: others_insert_row)
  ultimately show ?thesis by (simp add: replace_addressable_tx_def Let_def split_beta)
qed

lemma others_addressable: "other_events c (snd (replace_addressable_event ts fate mr now c ev ch db)) = other_events c db"
  by (simp add: replace_addressable_event_def others_with_mentions others_settle others_addressable_tx)

lemma others_supersede: "fst k = c \<Longrightarrow> other_events c (supersede hard k i db) = other_events c db"
proof (cases hard)
  case True
  assume "fst k = c"
  then have "filter (\<lambda>r. er_community r \<noteq> c \<and> \<not> (at_coordinate k r \<and> \<not> er_deleted r)) rows =
      filter (\<lambda>r. er_community r \<noteq> c) rows" for rows
    by (induction rows) (auto simp: at_coordinate_def)
  moreover have "filter (\<lambda>m. mr_community m \<noteq> c \<and> \<not> (mr_community m = c \<and> mr_event_id m = i)) ms =
      filter (\<lambda>m. mr_community m \<noteq> c) ms" for ms
    by (induction ms) auto
  ultimately show ?thesis using True \<open>fst k = c\<close> by (simp add: supersede_def other_events_def conj_commute)
next
  case False
  assume "fst k = c"
  then show ?thesis using False by (auto simp: supersede_def at_coordinate_def intro!: others_retire)
qed

lemma others_watermark: "fst k = c \<Longrightarrow>
    other_events c (db\<lparr>db_watermarks := AList.update k v (db_watermarks db)\<rparr>) = other_events c db"
proof -
  assume k: "fst k = c"
  have "filter (\<lambda>w. fst (fst w) \<noteq> c) (AList.update k v xs) = filter (\<lambda>w. fst (fst w) \<noteq> c) xs" for xs
    using k by (induction xs) auto
  then show ?thesis by (simp add: other_events_def)
qed

lemma others_parameterized_tx: "other_events c (snd (replace_parameterized_tx now c ev d ch db)) = other_events c db"
proof -
  let ?k = "(c, event_kind_i32 ev, ev_pubkey ev, d)" and ?hard = "is_nip_rs ev d \<or> is_buzz_mesh_status ev d"
  let ?db1 = "case live_head (at_coordinate ?k) db of Some (_, i) \<Rightarrow> supersede ?hard ?k i db | None \<Rightarrow> db"
  have "other_events c ?db1 = other_events c db"
    by (cases "live_head (at_coordinate ?k) db") (auto simp: others_supersede)
  moreover have "other_events c (snd (insert_row (new_row now c ev ch (Some d) (extract_not_before ev)) ?db1)) = other_events c ?db1"
    by (simp add: others_insert_row)
  ultimately show ?thesis by (simp add: replace_parameterized_tx_def Let_def split_beta others_watermark)
qed

lemma others_parameterized:
  "other_events c (snd (replace_parameterized_event ts fate mr now c ev d ch db)) = other_events c db"
  by (simp add: replace_parameterized_event_def others_with_mentions others_settle others_parameterized_tx)

section \<open>Threads and reactions\<close>

abbreviation "other_threads c rows \<equiv> filter (\<lambda>r. tr_community r \<noteq> c) rows"

lemma others_thread_row: "tr_community row = c \<Longrightarrow> other_threads c (snd (insert_thread_row row rows)) = other_threads c rows"
  by (simp add: insert_thread_row_def)

lemma thread_communities [simp]: "tr_community (thread_stub c at i ch) = c" "tr_community (thread_row_of c m) = c"
  by (simp_all add: thread_stub_def thread_row_of_def)

lemma others_bump: "other_threads c (bump_reply c i rows) = other_threads c rows"
  "other_threads c (bump_descendant c i rows) = other_threads c rows"
  by (auto simp: bump_reply_def bump_descendant_def is_thread_of_def intro!: filter_map_same split: if_splits)

lemma others_count_reply: "other_threads c (count_reply c m rows) = other_threads c rows"
  by (auto simp: count_reply_def Let_def others_bump others_thread_row split: option.splits)

lemma others_add_thread: "other_threads c (add_thread c m rows) = other_threads c rows"
  using others_thread_row [of "thread_row_of c m" c rows]
  by (auto simp: add_thread_def others_count_reply split: prod.splits)

lemma others_reaction: "add_reaction_tx c t at pk emoji src rows = (b, rows') \<Longrightarrow>
    filter (\<lambda>r. rr_community r \<noteq> c) rows' = filter (\<lambda>r. rr_community r \<noteq> c) rows"
  by (auto simp: add_reaction_tx_def Let_def same_reaction_key_def split: if_splits intro!: filter_map_same)

lemma foreign_insert_tx: "insert_event_with_thread_metadata_tx ts now c ev ch meta db = Inr (res, db') \<Longrightarrow> foreign c db' = foreign c db"
  using others_insert_row [of "new_row now c ev ch (extract_d_tag ev) (extract_not_before ev)" c "in_events db"]
  by (auto simp: insert_event_with_thread_metadata_tx_def Let_def foreign_def others_add_thread
      split: if_splits prod.splits option.splits)

lemma foreign_settle: "foreign c (snd res) = foreign c db \<Longrightarrow> foreign c (snd (settle_tx fate db res)) = foreign c db"
  by (cases fate) (simp_all add: settle_tx_def)

lemma foreign_add_mentions: "foreign c (add_mentions ts mr c ev b db) = foreign c db"
  by (simp add: add_mentions_def foreign_def others_mentions)

lemma foreign_insert: "foreign c (snd (insert_event_with_thread_metadata ts fate mr now c ev ch meta db)) = foreign c db"
proof (cases "insert_event_with_thread_metadata_tx ts now c ev ch meta db")
  case (Inr res)
  then have "foreign c (snd res) = foreign c db" using foreign_insert_tx [of ts now c ev ch meta db "fst res" "snd res"] by simp
  then show ?thesis using Inr foreign_settle [of c res db fate]
    by (auto simp: insert_event_with_thread_metadata_def foreign_add_mentions split: prod.splits sum.splits)
qed (simp add: insert_event_with_thread_metadata_def)

lemma foreign_reaction:
  "foreign c (snd (insert_reaction_event_with_thread_metadata ts fate mr now c ev ch meta t pk emoji db)) = foreign c db"
proof (cases "target_created_at c t (in_events db)")
  case (Some at)
  obtain b rs where add: "add_reaction_tx c t at pk emoji (Some (ev_id ev)) (in_reactions db) = (b, rs)"
    by (cases "add_reaction_tx c t at pk emoji (Some (ev_id ev)) (in_reactions db)")
  have rs: "foreign c (db\<lparr>in_reactions := rs\<rparr>) = foreign c db" using others_reaction [OF add] by (simp add: foreign_def)
  show ?thesis
  proof (cases "insert_event_with_thread_metadata_tx ts now c ev ch meta (db\<lparr>in_reactions := rs\<rparr>)")
    case (Inl e)
    then show ?thesis using Some add
      by (cases b) (auto simp: insert_reaction_event_with_thread_metadata_def foreign_settle)
  next
    case (Inr res)
    then have "foreign c (snd res) = foreign c db"
      using foreign_insert_tx [of ts now c ev ch meta "db\<lparr>in_reactions := rs\<rparr>" "fst res" "snd res"] rs by simp
    then show ?thesis using Some add Inr foreign_settle [of c res db fate]
      by (cases b; cases "settle_tx fate db res")
        (auto simp: insert_reaction_event_with_thread_metadata_def foreign_add_mentions foreign_settle [of c "(Duplicate, db)"]
          split: sum.splits)
  qed
qed (simp add: insert_reaction_event_with_thread_metadata_def foreign_settle)

lemma on_events_others: "(\<And>db. other_events c (snd (f db)) = other_events c db) \<Longrightarrow> foreign c (snd (on_events f db)) = foreign c db"
  by (simp add: on_events_def foreign_def split_beta)

section \<open>The store of a request\<close>

text \<open>
  C16. The four operations that a request stores its event with change no row of another community than
  the one they are called for, in the five tables they write (events, mentions, watermarks, threads and
  reactions): the insert with thread counters, the insert of a reaction, and the replacement of an
  addressable and of a parameterised event. It holds whatever becomes of the transaction: answered,
  committed without an answer, or rolled back, and also when the mentions, which are written after it, fail.
\<close>

theorem stores_stay_in_community:
  "foreign c (snd (insert_event_with_thread_metadata ts fate mr now c ev ch meta db)) = foreign c db \<and>
   foreign c (snd (insert_reaction_event_with_thread_metadata ts fate mr now c ev ch meta target actor emoji db)) =
     foreign c db \<and>
   foreign c (snd (on_events (replace_addressable_event ts fate mr now c ev ch) db)) = foreign c db \<and>
   foreign c (snd (on_events (replace_parameterized_event ts fate mr now c ev d ch) db)) = foreign c db"
  by (intro conjI foreign_insert foreign_reaction on_events_others others_addressable others_parameterized)

text \<open>
  A request calls them for the community of its connection: when its store step goes on, the rows of the
  other communities are as before. (A failed insert is compensated by a handler that is a parameter.)
\<close>

lemma insert_plain_stays:
  assumes "insert_plain env hs tenant ev ch meta pre st = (Inr res, st')"
  shows "foreign (tc_community tenant) (is_db st') = foreign (tc_community tenant) (is_db st)"
proof -
  obtain r st1 where stored: "call (CallStore ch) (insert_event_with_thread_metadata (ie_timestamp_ok env) (ie_fate env)
       (ie_mentions_reached env) (ie_instant env) (tc_community tenant) ev ch (map_option as_params meta)) st = (Inr r, st1)"
    and after: "(case r of Inr res \<Rightarrow> return_step res
       | Inl e \<Rightarrow> bind_step (case pre of
             Some ch_id \<Rightarrow> call (CallSoftDeleteChannel ch_id) (ih_soft_delete_channel hs ch_id tenant ev)
           | None \<Rightarrow> return_step ()) (\<lambda>_. answer (Err (case e of
             AuthEventRejected \<Rightarrow> Rejected ''invalid: AUTH events cannot be stored''
           | other \<Rightarrow> Internal (''error: database error: '' @ ie_show_db env other))))) st1 = (Inr res, st')"
    using assms unfolding insert_plain_def bind_step_Inr by blast
  have "st' = st1" using after by (cases r) (auto simp: bind_step_Inr)
  then show ?thesis using stored by (auto simp: call_Inr dest!: arg_cong [where f = snd] simp: foreign_insert)
qed

lemma store_event_stays:
  assumes "store_event env hs tenant ev k ch meta pre st = (Inr res, st')"
  shows "foreign (tc_community tenant) (is_db st') = foreign (tc_community tenant) (is_db st)"
proof -
  have keep: "foreign c db' = foreign c db"
    if "on_events f db = (a, db')" "\<And>db. other_events c (snd (f db)) = other_events c db" for f c db a db'
    using on_events_others [of c f db] that by simp
  show ?thesis
    using assms
    by (auto simp: store_event_def Let_def call_Inr bind_step_Inr split: if_splits
        intro: keep others_addressable others_parameterized dest: insert_plain_stays)
qed

end
